(* ===== verification/Prelude.thy ===== *)
theory Prelude
  imports "HOL-Library.Word" "HOL-Library.Finite_Map" "HOL-Library.List_Lexorder"
    "HOL-Library.Char_ord"
begin

unbundle bit_operations_syntax

text \<open>
  Shared vocabulary of the development: Go's byte slices and fixed-width integers, errors as
  values, the error monad, big-endian framing (package \<^verbatim>\<open>encoding/binary\<close>), hexadecimal text
  (packages \<^verbatim>\<open>encoding/hex\<close> and \<^verbatim>\<open>strconv\<close>) and time (package \<^verbatim>\<open>time\<close>), with the generic lemmas the
  component theories use.
\<close>

named_theorems result_simps \<open>rewriting of the error monad\<close>
named_theorems wire_simps \<open>lengths and round trips of wire encodings\<close>

type_synonym byte = "8 word"
type_synonym bytes = "8 word list"
type_synonym uint16 = "16 word"
type_synonym uint32 = "32 word"
type_synonym uint64 = "64 word"

section \<open>Errors as values\<close>

text \<open>
  A Go \<^verbatim>\<open>error\<close>. The sentinels of \<^verbatim>\<open>store.go\<close> and \<^verbatim>\<open>registry.go\<close> are constructors of their own;
  \<open>Errorf\<close> is \<^verbatim>\<open>errors.New\<close> or \<^verbatim>\<open>fmt.Errorf\<close> with its format string (the formatted arguments are
  not kept); \<open>Wrap\<close> is \<^verbatim>\<open>fmt.Errorf\<close> with a \<^verbatim>\<open>%w\<close> verb; \<open>CtxErr\<close> is the error of a cancelled
  context; \<open>Panic\<close> is a run-time panic (index out of range).
\<close>

datatype error =
    ErrNotFound | ErrAlreadyExists | ErrConflict
  | ErrPeerNotFound | ErrInvalidIdentity | ErrIdentityCollision
  | CtxErr | Errorf string | Wrap string error | Panic string

type_synonym 'a result = "error + 'a"

text \<open>\<^verbatim>\<open>errors.Is\<close> walks the chain of wrapped errors.\<close>

fun errorsIs :: "error \<Rightarrow> error \<Rightarrow> bool" where
  "errorsIs (Wrap s e) t = (Wrap s e = t \<or> errorsIs e t)"
| "errorsIs e t = (e = t)"

definition rbind :: "'a result \<Rightarrow> ('a \<Rightarrow> 'b result) \<Rightarrow> 'b result" where
  "rbind m f = (case m of Inl e \<Rightarrow> Inl e | Inr x \<Rightarrow> f x)"

definition wrapErr :: "string \<Rightarrow> 'a result \<Rightarrow> 'a result" where
  "wrapErr s m = (case m of Inl e \<Rightarrow> Inl (Wrap s e) | Inr x \<Rightarrow> Inr x)"

definition isOk :: "'a result \<Rightarrow> bool" where
  "isOk m = (case m of Inl _ \<Rightarrow> False | Inr _ \<Rightarrow> True)"

lemma rbind_simps [simp, result_simps]:
  "rbind (Inl e) f = Inl e" "rbind (Inr x) f = f x"
  by (simp_all add: rbind_def)

lemma wrapErr_simps [simp, result_simps]:
  "wrapErr s (Inl e) = Inl (Wrap s e)" "wrapErr s (Inr x) = Inr x"
  by (simp_all add: wrapErr_def)

lemma isOk_simps [simp]: "isOk (Inr x)" "\<not> isOk (Inl e)"
  by (simp_all add: isOk_def)

lemma isOk_iff: "isOk m \<longleftrightarrow> (\<exists>x. m = Inr x)"
  by (cases m) auto

lemma rbind_eq_Inr [result_simps]: "rbind m f = Inr y \<longleftrightarrow> (\<exists>x. m = Inr x \<and> f x = Inr y)"
  by (cases m) auto

lemma rbind_eq_Inl: "rbind m f = Inl e \<longleftrightarrow> m = Inl e \<or> (\<exists>x. m = Inr x \<and> f x = Inl e)"
  by (cases m) auto

lemma case_sum_eq_Inr [result_simps]:
  "(case m of Inl a \<Rightarrow> Inl (g a) | Inr x \<Rightarrow> f x) = Inr y \<longleftrightarrow> (\<exists>x. m = Inr x \<and> f x = Inr y)"
  by (cases m) auto

lemma wrapErr_eq_Inr [simp, result_simps]: "wrapErr s m = Inr y \<longleftrightarrow> m = Inr y"
  by (cases m) auto

lemma rbind_cong [fundef_cong]:
  "m = m' \<Longrightarrow> (\<And>x. m' = Inr x \<Longrightarrow> f x = g x) \<Longrightarrow> rbind m f = rbind m' g"
  by (cases m') auto

text \<open>A loop over a slice whose body may fail, collecting the results (first error wins).\<close>

fun mapM :: "('a \<Rightarrow> 'b result) \<Rightarrow> 'a list \<Rightarrow> 'b list result" where
  "mapM f [] = Inr []"
| "mapM f (x # xs) = rbind (f x) (\<lambda>y. rbind (mapM f xs) (\<lambda>ys. Inr (y # ys)))"

text \<open>A loop over a slice that only checks.\<close>

fun checkAll :: "('a \<Rightarrow> unit result) \<Rightarrow> 'a list \<Rightarrow> unit result" where
  "checkAll f [] = Inr ()"
| "checkAll f (x # xs) = rbind (f x) (\<lambda>_. checkAll f xs)"

lemma checkAll_Inr [simp]: "checkAll f xs = Inr u \<longleftrightarrow> (\<forall>x\<in>set xs. f x = Inr ())"
  by (induction xs) (auto simp: rbind_eq_Inr)

lemma mapM_Inr_iff: "mapM f xs = Inr ys \<longleftrightarrow> list_all2 (\<lambda>x y. f x = Inr y) xs ys"
proof (induction xs arbitrary: ys)
  case Nil
  then show ?case by auto
next
  case (Cons x xs)
  then show ?case by (cases ys) (auto simp: rbind_eq_Inr)
qed

lemma mapM_length: "mapM f xs = Inr ys \<Longrightarrow> length ys = length xs"
  by (simp add: mapM_Inr_iff list_all2_lengthD)

lemma mapM_all_ok: "(\<And>x. x \<in> set xs \<Longrightarrow> f x = Inr (g x)) \<Longrightarrow> mapM f xs = Inr (map g xs)"
  by (induction xs) auto

section \<open>Slices\<close>

text \<open>\<^verbatim>\<open>b[i:j]\<close> for indices in range.\<close>

definition slice :: "nat \<Rightarrow> nat \<Rightarrow> 'a list \<Rightarrow> 'a list" where
  "slice i j xs = take (j - i) (drop i xs)"

lemma length_slice [simp]: "length (slice i j xs) = min (j - i) (length xs - i)"
  by (simp add: slice_def)

lemma slice_append_exact:
  "length xs = i \<Longrightarrow> j = i + length ys \<Longrightarrow> slice i j (xs @ ys @ zs) = ys"
  by (simp add: slice_def)

lemma slice_at: "xs = p @ y @ r \<Longrightarrow> length p = i \<Longrightarrow> j = i + length y \<Longrightarrow> slice i j xs = y"
  by (simp add: slice_def)

lemma drop_at: "xs = p @ r \<Longrightarrow> length p = i \<Longrightarrow> drop i xs = r"
  by simp

lemma slice_append_right: "length xs \<le> i \<Longrightarrow> slice i j (xs @ ys) = slice (i - length xs) (j - length xs) ys"
  by (auto simp: slice_def)

lemma slice_append_left: "j \<le> length xs \<Longrightarrow> slice i j (xs @ ys) = slice i j xs"
  by (auto simp: slice_def)

lemma slice_0 [simp]: "slice 0 j xs = take j xs"
  by (simp add: slice_def)

lemma take_slice_drop: "i \<le> j \<Longrightarrow> slice i j xs @ drop j xs = drop i xs"
  by (metis append_take_drop_id drop_drop le_add_diff_inverse2 slice_def)

lemma slice_split: "i \<le> j \<Longrightarrow> j \<le> k \<Longrightarrow> slice i j s @ slice j k s = slice i k s"
  using take_add [of "j - i" "k - j" "drop i s"] by (simp add: slice_def add.commute)

section \<open>Big-endian integers\<close>

text \<open>\<^verbatim>\<open>binary.BigEndian.PutUintN\<close> / \<^verbatim>\<open>AppendUintN\<close> (\<open>n\<close> is the number of bytes) and \<^verbatim>\<open>UintN\<close>.\<close>

primrec be_bytes :: "nat \<Rightarrow> 'a::len word \<Rightarrow> bytes" where
  "be_bytes 0 w = []"
| "be_bytes (Suc n) w = ucast (drop_bit (8 * n) w) # be_bytes n w"

definition be_word :: "bytes \<Rightarrow> 'a::len word" where
  "be_word bs = foldl (\<lambda>acc b. push_bit 8 acc OR ucast b) 0 bs"

lemma length_be_bytes [simp, wire_simps]: "length (be_bytes n w) = n"
  by (induction n) auto

lemma nth_be_bytes: "i < n \<Longrightarrow> be_bytes n w ! i = ucast (drop_bit (8 * (n - 1 - i)) w)"
proof (induction n arbitrary: i)
  case 0
  then show ?case by simp
next
  case (Suc n)
  show ?case
  proof (cases i)
    case 0
    then show ?thesis by simp
  next
    case (Suc k)
    then have "be_bytes n w ! k = ucast (drop_bit (8 * (n - 1 - k)) w)"
      using Suc.prems by (intro Suc.IH) simp
    then show ?thesis by (simp add: Suc)
  qed
qed

lemma be_word_snoc: "be_word (bs @ [b]) = push_bit 8 (be_word bs) OR ucast b"
  by (simp add: be_word_def)

lemma bit_be_word:
  "bit (be_word bs :: 'a::len word) k \<longleftrightarrow>
     k < LENGTH('a) \<and> k < 8 * length bs \<and> bit (bs ! (length bs - 1 - k div 8)) (k mod 8)"
proof (induction bs arbitrary: k rule: rev_induct)
  case Nil
  then show ?case by (simp add: be_word_def)
next
  case (snoc b bs)
  show ?case
  proof (cases "k < 8")
    case True
    then show ?thesis
      by (auto simp: be_word_snoc bit_or_iff bit_push_bit_iff bit_ucast_iff nth_append)
  next
    case False
    then obtain j where k: "k = 8 + j" by (metis le_Suc_ex not_less)
    have idx: "length (bs @ [b]) - 1 - k div 8 = length bs - 1 - j div 8" by (simp add: k)
    have "\<not> bit b k" using bit_imp_le_length [of b k] by (auto simp: k)
    then show ?thesis
      unfolding idx be_word_snoc
      using snoc.IH [of j] by (auto simp: k bit_or_iff bit_push_bit_iff bit_ucast_iff nth_append)
  qed
qed

lemma be_word_be_bytes [wire_simps]:
  fixes w :: "'a::len word"
  assumes "LENGTH('a) = 8 * n"
  shows "be_word (be_bytes n w) = w"
proof (rule bit_word_eqI)
  fix k assume k: "k < LENGTH('a)"
  then have kn: "k div 8 < n" using assms by (simp add: less_mult_imp_div_less mult.commute)
  then have i: "n - 1 - k div 8 < n" and e: "n - 1 - (n - 1 - k div 8) = k div 8" by simp_all
  have "bit (be_bytes n w ! (n - 1 - k div 8)) (k mod 8) = bit w k"
    unfolding nth_be_bytes [OF i] e by (simp add: bit_ucast_iff bit_drop_bit_eq)
  then show "bit (be_word (be_bytes n w) :: 'a word) k = bit w k"
    using k assms by (simp add: bit_be_word)
qed

lemma be_bytes_be_word [wire_simps]:
  assumes "LENGTH('a::len) = 8 * n" "length bs = n"
  shows "be_bytes n (be_word bs :: 'a word) = bs"
proof (rule nth_equalityI)
  show "length (be_bytes n (be_word bs :: 'a word)) = length bs" using assms by simp
next
  fix i assume "i < length (be_bytes n (be_word bs :: 'a word))"
  then have i: "i < n" by simp
  show "be_bytes n (be_word bs :: 'a word) ! i = bs ! i"
  proof (rule bit_word_eqI)
    fix k assume "k < LENGTH(8)"
    then have k: "k < 8" by simp
    define m where "m = n - Suc i"
    have m: "m < n" "n - Suc m = i" using i by (simp_all add: m_def)
    have lt: "8 * m + k < 8 * n" using m(1) k by linarith
    have "bit (be_bytes n (be_word bs :: 'a word) ! i) k
        = bit (be_word bs :: 'a word) (8 * m + k)"
      using k i by (simp add: nth_be_bytes bit_ucast_iff bit_drop_bit_eq m_def)
    also have "\<dots> = bit (bs ! i) k"
      using assms k lt m(2) by (simp add: bit_be_word)
    finally show "bit (be_bytes n (be_word bs :: 'a word) ! i) k = bit (bs ! i) k" .
  qed
qed

lemma be_word_be_bytes_fixed [simp, wire_simps]:
  "be_word (be_bytes 2 (w2 :: uint16)) = w2"
  "be_word (be_bytes 4 (w4 :: uint32)) = w4"
  "be_word (be_bytes 8 (w8 :: uint64)) = w8"
  by (simp_all add: be_word_be_bytes)

lemma be_bytes_be_word_fixed [simp, wire_simps]:
  "length b2 = 2 \<Longrightarrow> be_bytes 2 (be_word b2 :: uint16) = b2"
  "length b4 = 4 \<Longrightarrow> be_bytes 4 (be_word b4 :: uint32) = b4"
  "length b8 = 8 \<Longrightarrow> be_bytes 8 (be_word b8 :: uint64) = b8"
  by (simp_all add: be_bytes_be_word)

section \<open>Text\<close>

text \<open>A Go string is a sequence of bytes; \<open>string\<close> is a list of 8-bit characters.\<close>

definition byte_of_char :: "char \<Rightarrow> byte" where
  "byte_of_char c = of_nat (of_char c)"

lemma unat_byte_less [simp]: "unat (b :: byte) < 256"
  using unsigned_less [of b] by simp

definition char_of_byte :: "byte \<Rightarrow> char" where
  "char_of_byte b = char_of (unat b)"

definition bytes_of_string :: "string \<Rightarrow> bytes" where
  "bytes_of_string s = map byte_of_char s"

definition string_of_bytes :: "bytes \<Rightarrow> string" where
  "string_of_bytes bs = map char_of_byte bs"

lemma unat_byte_of_char: "unat (byte_of_char c) = of_char c"
proof -
  have "of_char c < (256 :: nat)" by (rule nat_of_char_less_256)
  then show ?thesis by (simp add: byte_of_char_def unat_of_nat)
qed

lemma char_of_byte_of_char [simp]: "char_of_byte (byte_of_char c) = c"
  by (simp add: char_of_byte_def unat_byte_of_char)

lemma byte_of_char_of_byte [simp]: "byte_of_char (char_of_byte b) = b"
proof -
  have "unat b mod 256 = unat b" using unat_byte_less [of b] by simp
  then show ?thesis by (simp add: byte_of_char_def char_of_byte_def)
qed

lemma string_of_bytes_of_string [simp]: "string_of_bytes (bytes_of_string s) = s"
  by (simp add: string_of_bytes_def bytes_of_string_def comp_def)

lemma bytes_of_string_of_bytes [simp]: "bytes_of_string (string_of_bytes bs) = bs"
  by (simp add: string_of_bytes_def bytes_of_string_def comp_def)

lemma length_bytes_of_string [simp]: "length (bytes_of_string s) = length s"
  by (simp add: bytes_of_string_def)

lemma length_string_of_bytes [simp]: "length (string_of_bytes s) = length s"
  by (simp add: string_of_bytes_def)

text \<open>Bytes are compared bit by bit: \<open>rule bit_word_eqI\<close>, then \<open>auto simp: bit_simps dest!: byte_index\<close>.\<close>

lemma byte_index: "n < 8 \<Longrightarrow> n \<in> {0, 1, 2, 3, 4, 5, 6, 7 :: nat}"
  by auto

subsection \<open>Hexadecimal\<close>

definition hexdigit :: "nat \<Rightarrow> char" where
  "hexdigit n = (if n < 10 then char_of (48 + n) else char_of (87 + n))"

definition hexval :: "char \<Rightarrow> nat option" where
  "hexval c = (let n = of_char c :: nat in
     if 48 \<le> n \<and> n \<le> 57 then Some (n - 48)
     else if 97 \<le> n \<and> n \<le> 102 then Some (n - 87)
     else if 65 \<le> n \<and> n \<le> 70 then Some (n - 55)
     else None)"

definition lowerhex :: "char \<Rightarrow> bool" where
  "lowerhex c = (let n = of_char c :: nat in 48 \<le> n \<and> n \<le> 57 \<or> 97 \<le> n \<and> n \<le> 102)"

lemma hexval_hexdigit [simp]: "n < 16 \<Longrightarrow> hexval (hexdigit n) = Some n"
  by (auto simp: hexdigit_def hexval_def Let_def)

lemma lowerhex_hexdigit [simp]: "n < 16 \<Longrightarrow> lowerhex (hexdigit n)"
  by (auto simp: hexdigit_def lowerhex_def Let_def)

lemma lowerhex_hexval: "lowerhex c \<Longrightarrow> \<exists>d < 16. hexval c = Some d \<and> hexdigit d = c"
proof -
  assume "lowerhex c"
  then consider "48 \<le> (of_char c :: nat)" "(of_char c :: nat) \<le> 57"
    | "97 \<le> (of_char c :: nat)" "(of_char c :: nat) \<le> 102"
    by (auto simp: lowerhex_def Let_def)
  then show ?thesis
  proof cases
    case 1
    then have "char_of (48 + ((of_char c :: nat) - 48)) = c" by simp
    with 1 show ?thesis
      by (intro exI [of _ "of_char c - 48"]) (auto simp: hexval_def hexdigit_def Let_def)
  next
    case 2
    then have "char_of (87 + ((of_char c :: nat) - 87)) = c" by simp
    with 2 show ?thesis
      by (intro exI [of _ "of_char c - 87"]) (auto simp: hexval_def hexdigit_def Let_def)
  qed
qed

text \<open>\<^verbatim>\<open>hex.EncodeToString\<close> and \<^verbatim>\<open>hex.DecodeString\<close> (which accepts both cases of digit).\<close>

fun hex_encode :: "bytes \<Rightarrow> string" where
  "hex_encode [] = []"
| "hex_encode (b # bs) = hexdigit (unat b div 16) # hexdigit (unat b mod 16) # hex_encode bs"

fun hex_decode :: "string \<Rightarrow> bytes result" where
  "hex_decode [] = Inr []"
| "hex_decode [c] = Inl (Errorf ''encoding/hex: odd length hex string'')"
| "hex_decode (h # l # cs) = (case (hexval h, hexval l) of
     (Some a, Some b) \<Rightarrow> rbind (hex_decode cs) (\<lambda>bs. Inr (of_nat (16 * a + b) # bs))
   | _ \<Rightarrow> Inl (Errorf ''encoding/hex: invalid byte''))"

lemma unat_byte_div16: "unat (b :: byte) div 16 < 16"
  using unat_byte_less [of b] by (simp add: less_mult_imp_div_less)

lemma hex_decode_encode [simp]: "hex_decode (hex_encode bs) = Inr bs"
  by (induction bs) (simp_all add: unat_byte_div16)

lemma length_hex_encode [simp]: "length (hex_encode bs) = 2 * length bs"
  by (induction bs) auto

lemma lowerhex_hex_encode: "c \<in> set (hex_encode bs) \<Longrightarrow> lowerhex c"
  by (induction bs) (auto simp: unat_byte_div16)

lemma hex_decode_lower:
  "even (length s) \<Longrightarrow> list_all lowerhex s \<Longrightarrow>
     \<exists>bs. hex_decode s = Inr bs \<and> hex_encode bs = s \<and> length bs = length s div 2"
proof (induction s rule: hex_decode.induct)
  case (3 h l cs)
  from 3 obtain a where a: "a < 16" "hexval h = Some a" "hexdigit a = h"
    using lowerhex_hexval [of h] by auto
  from 3 obtain b where b: "b < 16" "hexval l = Some b" "hexdigit b = l"
    using lowerhex_hexval [of l] by auto
  from "3.IH" [OF refl a(2) b(2)] "3.prems" obtain bs
    where bs: "hex_decode cs = Inr bs" "hex_encode bs = cs" "length bs = length cs div 2"
    by auto
  have "unat (of_nat (16 * a + b) :: byte) = 16 * a + b"
    unfolding unat_of_nat using a(1) b(1) by simp
  then show ?case using a b bs by simp
qed simp_all

text \<open>\<^verbatim>\<open>strconv.ParseUint(s, 16, bits)\<close> for \<open>bits \<le> 64\<close>: no sign, no prefix, no underscore.\<close>

fun hexnat :: "nat \<Rightarrow> string \<Rightarrow> nat option" where
  "hexnat acc [] = Some acc"
| "hexnat acc (c # cs) = (case hexval c of None \<Rightarrow> None | Some d \<Rightarrow> hexnat (16 * acc + d) cs)"

definition ParseUint16 :: "string \<Rightarrow> nat \<Rightarrow> uint64 result" where
  "ParseUint16 s bits =
     (if s = [] then Inl (Errorf ''strconv.ParseUint: invalid syntax'')
      else case hexnat 0 s of
        None \<Rightarrow> Inl (Errorf ''strconv.ParseUint: invalid syntax'')
      | Some n \<Rightarrow> if n < 2 ^ bits then Inr (of_nat n)
                  else Inl (Errorf ''strconv.ParseUint: value out of range''))"

text \<open>\<^verbatim>\<open>strconv.FormatUint(v, 16)\<close>.\<close>

fun hexstring :: "nat \<Rightarrow> string" where
  "hexstring n = (if n < 16 then [hexdigit n] else hexstring (n div 16) @ [hexdigit (n mod 16)])"

declare hexstring.simps [simp del]

definition FormatUint16 :: "uint64 \<Rightarrow> string" where
  "FormatUint16 v = hexstring (unat v)"

lemma hexnat_append: "hexnat acc (xs @ ys) = Option.bind (hexnat acc xs) (\<lambda>a. hexnat a ys)"
  by (induction acc xs rule: hexnat.induct) (auto split: option.splits)

lemma hexnat_hexstring: "hexnat 0 (hexstring n) = Some n"
proof (induction n rule: hexstring.induct)
  case (1 n)
  show ?case
  proof (cases "n < 16")
    case True
    then show ?thesis by (simp add: hexstring.simps [of n])
  next
    case False
    with 1 have "hexnat 0 (hexstring (n div 16)) = Some (n div 16)" by simp
    with False show ?thesis by (simp add: hexstring.simps [of n] hexnat_append)
  qed
qed

lemma hexstring_not_Nil [simp]: "hexstring n \<noteq> []"
  by (subst hexstring.simps) simp

lemma lowerhex_hexstring: "list_all lowerhex (hexstring n)"
proof (induction n rule: hexstring.induct)
  case (1 n)
  then show ?case by (cases "n < 16") (simp_all add: hexstring.simps [of n])
qed

lemma hexstring_length: "0 < k \<Longrightarrow> n < 16 ^ k \<Longrightarrow> length (hexstring n) \<le> k"
proof (induction k arbitrary: n)
  case (Suc k)
  show ?case
  proof (cases "n < 16")
    case False
    then have "0 < k" using Suc.prems by (cases k) auto
    moreover have "n div 16 < 16 ^ k"
      using Suc.prems by (simp add: less_mult_imp_div_less mult.commute)
    ultimately have "length (hexstring (n div 16)) \<le> k" by (rule Suc.IH)
    with False show ?thesis by (simp add: hexstring.simps [of n])
  qed (simp add: hexstring.simps [of n])
qed simp

lemma ParseUint16_FormatUint16: "ParseUint16 (FormatUint16 v) 64 = Inr v"
proof -
  have "unat v < 2 ^ 64" using unsigned_less [of v] by simp
  then show ?thesis by (simp add: ParseUint16_def FormatUint16_def hexnat_hexstring)
qed

lemma hexnat_lower:
  "list_all lowerhex s \<Longrightarrow> \<exists>n. hexnat acc s = Some n \<and> n < (acc + 1) * 16 ^ length s"
proof (induction acc s rule: hexnat.induct)
  case (2 acc c cs)
  then obtain d where d: "hexval c = Some d" "d < 16" by (auto dest: lowerhex_hexval)
  with 2 obtain n where n: "hexnat (16 * acc + d) cs = Some n"
    "n < (16 * acc + d + 1) * 16 ^ length cs" by auto
  have "(16 * acc + d + 1) * 16 ^ length cs \<le> (16 * acc + 16) * 16 ^ length cs"
    using d(2) by (intro mult_right_mono) auto
  also have "\<dots> = (acc + 1) * 16 ^ length (c # cs)" by (simp add: algebra_simps)
  finally show ?case using n d(1) by auto
qed simp

lemma ParseUint16_lower:
  assumes "list_all lowerhex s" "s \<noteq> []" "4 * length s \<le> bits"
  shows "\<exists>n. ParseUint16 s bits = Inr (of_nat n) \<and> hexnat 0 s = Some n \<and> n < 2 ^ bits"
proof -
  obtain n where n: "hexnat 0 s = Some n" "n < 16 ^ length s"
    using hexnat_lower [OF assms(1), of 0] by auto
  have "(16 :: nat) ^ length s = 2 ^ (4 * length s)" by (simp add: power_mult)
  also have "\<dots> \<le> 2 ^ bits" using assms(3) by (simp add: power_increasing)
  finally have "n < 2 ^ bits" using n(2) by simp
  with n(1) assms(2) show ?thesis by (simp add: ParseUint16_def)
qed

section \<open>Maps\<close>

text \<open>The values of a map in some order (here by key); the callers sort them.\<close>

definition mapValues :: "('k::linorder, 'v) fmap \<Rightarrow> 'v list" where
  "mapValues m = map snd (sorted_list_of_fmap m)"

lemma mapValues_set: "set (mapValues m) = ran (fmlookup m)"
proof -
  have "set (mapValues m) = (\<lambda>k. the (fmlookup m k)) ` fset (fmdom m)"
    by (simp add: mapValues_def sorted_list_of_fmap_def image_image)
  also have "\<dots> = ran (fmlookup m)"
    by (force simp: ran_def image_iff fmlookup_dom_iff)
  finally show ?thesis .
qed

lemma mapValues_keys:
  assumes "\<And>k v. fmlookup m k = Some v \<Longrightarrow> f v = k"
  shows "map f (mapValues m) = sorted_list_of_fset (fmdom m)"
proof -
  have "f (the (fmlookup m k)) = k" if "k |\<in>| fmdom m" for k
    using that assms by (auto simp: fmlookup_dom_iff)
  then show ?thesis
    by (auto simp: mapValues_def sorted_list_of_fmap_def intro!: map_idI)
qed

lemma sorted_values:
  assumes "\<And>k v. fmlookup m k = Some v \<Longrightarrow> f v = k"
  shows "sorted (map f (sort_key f (mapValues m))) \<and> distinct (map f (sort_key f (mapValues m)))
    \<and> set (sort_key f (mapValues m)) = ran (fmlookup m)"
proof -
  have "distinct (map f (mapValues m))"
    by (simp add: mapValues_keys [of m f, OF assms] sorted_list_of_fset.rep_eq)
  then have "distinct (map f (sort_key f (mapValues m)))"
    by (metis distinct_map distinct_sort set_sort)
  then show ?thesis by (simp add: mapValues_set)
qed

section \<open>Time\<close>

text \<open>
  A \<^verbatim>\<open>time.Time\<close> is the number of nanoseconds since Go's zero time (1 January of year 1, UTC); the
  location and the monotonic clock reading are not modelled, so \<^verbatim>\<open>Time.UTC\<close> is the identity. A
  \<^verbatim>\<open>time.Duration\<close> is an int64 count of nanoseconds, and \<^verbatim>\<open>Time.Sub\<close> saturates at its bounds.
\<close>

type_synonym time = int
type_synonym duration = int

definition IsZero :: "time \<Rightarrow> bool" where
  "IsZero t = (t = 0)"

definition UTC :: "time \<Rightarrow> time" where
  "UTC t = t"

definition timeSub :: "time \<Rightarrow> time \<Rightarrow> duration" where
  "timeSub a b = max (- (2 ^ 63)) (min (2 ^ 63 - 1) (a - b))"

definition UnixMilli :: "time \<Rightarrow> int" where
  "UnixMilli t = t div 1000000 - 62135596800000"

text \<open>\<^verbatim>\<open>time.Second\<close>, \<^verbatim>\<open>time.Minute\<close> and \<^verbatim>\<open>time.Hour\<close>.\<close>

definition Second :: duration where
  "Second = 1000000000"

definition Minute :: duration where
  "Minute = 60 * Second"

definition Hour :: duration where
  "Hour = 60 * Minute"

lemmas duration_defs = Second_def Minute_def Hour_def

lemma UTC_id [simp]: "UTC t = t"
  by (simp add: UTC_def)

end
