(* ===== verification/Netip.thy ===== *)
theory Netip
  imports Prelude
begin

unbundle bit_operations_syntax

text \<open>
  The part of Go's package \<^verbatim>\<open>net/netip\<close> the controller uses: addresses (\<^verbatim>\<open>Addr\<close>), prefixes (\<^verbatim>\<open>Prefix\<close>)
  and endpoints (\<^verbatim>\<open>AddrPort\<close>). An IPv4-mapped IPv6 address is an \<open>Addr6\<close>, as in the library.
\<close>

datatype Addr = NoAddr | Addr4 uint32 | Addr6 "128 word" string

record Prefix =
  pfAddr :: Addr
  pfBits :: int

record AddrPort =
  apAddr :: Addr
  apPort :: uint16

fun addrIsValid :: "Addr \<Rightarrow> bool" where
  "addrIsValid NoAddr = False"
| "addrIsValid _ = True"

fun Is4 :: "Addr \<Rightarrow> bool" where
  "Is4 (Addr4 _) = True"
| "Is4 _ = False"

fun Is6 :: "Addr \<Rightarrow> bool" where
  "Is6 (Addr6 _ _) = True"
| "Is6 _ = False"

fun BitLen :: "Addr \<Rightarrow> nat" where
  "BitLen NoAddr = 0"
| "BitLen (Addr4 _) = 32"
| "BitLen (Addr6 _ _) = 128"

definition Is4In6 :: "Addr \<Rightarrow> bool" where
  "Is4In6 a = (case a of Addr6 w _ \<Rightarrow> drop_bit 32 w = 0xffff | _ \<Rightarrow> False)"

text \<open>\<^verbatim>\<open>As4\<close> panics on an address that is neither IPv4 nor IPv4-mapped; \<^verbatim>\<open>As16\<close> maps IPv4 and drops the zone.\<close>

definition As4 :: "Addr \<Rightarrow> bytes result" where
  "As4 a = (case a of Addr4 w \<Rightarrow> Inr (be_bytes 4 w)
     | Addr6 w _ \<Rightarrow> if Is4In6 a then Inr (drop 12 (be_bytes 16 w)) else Inl (Panic ''As4 called on IPv6 address'')
     | NoAddr \<Rightarrow> Inl (Panic ''As4 called on IP zero value''))"

fun As16 :: "Addr \<Rightarrow> bytes" where
  "As16 NoAddr = be_bytes 16 (0 :: 128 word)"
| "As16 (Addr4 w) = replicate 10 0 @ [0xff, 0xff] @ be_bytes 4 w"
| "As16 (Addr6 w _) = be_bytes 16 w"

definition AddrFrom4 :: "bytes \<Rightarrow> Addr" where
  "AddrFrom4 bs = Addr4 (be_word bs)"

definition AddrFrom16 :: "bytes \<Rightarrow> Addr" where
  "AddrFrom16 bs = Addr6 (be_word bs) []"

definition Unmap :: "Addr \<Rightarrow> Addr" where
  "Unmap a = (case a of Addr6 w _ \<Rightarrow> if Is4In6 a then Addr4 (ucast w) else a | _ \<Rightarrow> a)"

text \<open>\<^verbatim>\<open>Compare\<close>: by bit length, then by value, then (IPv6) by zone.\<close>

fun Compare :: "Addr \<Rightarrow> Addr \<Rightarrow> int" where
  "Compare (Addr4 a) (Addr4 b) = (if a < b then -1 else if b < a then 1 else 0)"
| "Compare (Addr6 a z) (Addr6 b y) =
     (if a < b then -1 else if b < a then 1 else if z < y then -1 else if y < z then 1 else 0)"
| "Compare a b = (if BitLen a < BitLen b then -1 else if BitLen b < BitLen a then 1 else 0)"

fun Next :: "Addr \<Rightarrow> Addr" where
  "Next NoAddr = NoAddr"
| "Next (Addr4 a) = (if a + 1 = 0 then NoAddr else Addr4 (a + 1))"
| "Next (Addr6 a z) = (if a + 1 = 0 then NoAddr else Addr6 (a + 1) z)"

definition prefixIsValid :: "Prefix \<Rightarrow> bool" where
  "prefixIsValid p = (0 \<le> pfBits p)"

text \<open>
  \<^verbatim>\<open>Prefix.Contains\<close>: false for an invalid prefix, a zoned address or another family; otherwise the
  leading \<open>pfBits\<close> bits agree.
\<close>

fun prefixContains :: "Prefix \<Rightarrow> Addr \<Rightarrow> bool" where
  "prefixContains p a = (prefixIsValid p \<and> (case (pfAddr p, a) of
       (Addr4 x, Addr4 y) \<Rightarrow> drop_bit (32 - nat (pfBits p)) (x XOR y) = 0
     | (Addr6 x _, Addr6 y z) \<Rightarrow> z = [] \<and> drop_bit (128 - nat (pfBits p)) (x XOR y) = 0
     | _ \<Rightarrow> False))"

definition addrPortIsValid :: "AddrPort \<Rightarrow> bool" where
  "addrPortIsValid e = addrIsValid (apAddr e)"

lemma be_bytes16_128 [simp, wire_simps]: "be_word (be_bytes 16 (w :: 128 word)) = w"
  by (simp add: be_word_be_bytes)

lemma As4_Addr4 [simp]: "As4 (Addr4 w) = Inr (be_bytes 4 w)"
  by (simp add: As4_def)

lemma length_As16 [simp, wire_simps]: "length (As16 a) = 16"
  by (cases a) auto

lemma AddrFrom4_bytes [simp]: "AddrFrom4 (be_bytes 4 w) = Addr4 w"
  by (simp add: AddrFrom4_def)

lemma AddrFrom16_bytes [simp]: "AddrFrom16 (be_bytes 16 w) = Addr6 w []"
  by (simp add: AddrFrom16_def)

lemma prefixContains_family: "prefixContains p a \<Longrightarrow> Is4 (pfAddr p) = Is4 a \<and> addrIsValid a"
  by (auto split: Addr.splits)

lemma Compare_refl [simp]: "Compare a a = 0"
  by (cases a) auto

lemma addr_cases_valid: "addrIsValid a \<Longrightarrow> (Is4 a \<and> \<not> Is6 a) \<or> (Is6 a \<and> \<not> Is4 a)"
  by (cases a) auto

end
