(* ===== verification/Domain.thy ===== *)
theory Domain
  imports Netip
begin

unbundle bit_operations_syntax

text \<open>
  Package \<^verbatim>\<open>internal/domain\<close>: node and network identifiers (\<^verbatim>\<open>id.go\<close>), the network document
  (\<^verbatim>\<open>network.go\<close>), the member document and the agent metadata (\<^verbatim>\<open>member.go\<close>), with their
  constructors and \<^verbatim>\<open>Validate\<close> methods. The lemmas characterise each validator by a declarative
  predicate and show that the constructors produce documents the validators accept.
\<close>

section \<open>Identifiers\<close>

type_synonym NodeID = string
type_synonym NetworkID = string

definition nodeIDHexLength :: nat where
  "nodeIDHexLength = 10"

definition networkIDHexLength :: nat where
  "networkIDHexLength = 16"

definition isUpperAF :: "char \<Rightarrow> bool" where
  "isUpperAF c = (let n = of_char c :: nat in 65 \<le> n \<and> n \<le> 70)"

definition validateHexID :: "string \<Rightarrow> nat \<Rightarrow> unit result" where
  "validateHexID value len =
     (if length value \<noteq> len
      then Inl (Errorf ''must contain exactly %d lowercase hexadecimal characters'')
      else case ParseUint16 value 64 of
        Inl _ \<Rightarrow> Inl (Errorf ''must be hexadecimal'')
      | Inr _ \<Rightarrow> if list_ex isUpperAF value then Inl (Errorf ''must use lowercase hexadecimal'')
                 else Inr ())"

definition ParseNodeID :: "string \<Rightarrow> NodeID result" where
  "ParseNodeID value =
     (case validateHexID value nodeIDHexLength of
        Inl e \<Rightarrow> Inl (Wrap ''invalid node ID: %w'' e) | Inr _ \<Rightarrow> Inr value)"

definition NodeID_Validate :: "NodeID \<Rightarrow> unit result" where
  "NodeID_Validate i = rbind (ParseNodeID i) (\<lambda>_. Inr ())"

definition ParseNetworkID :: "string \<Rightarrow> NetworkID result" where
  "ParseNetworkID value =
     (case validateHexID value networkIDHexLength of
        Inl e \<Rightarrow> Inl (Wrap ''invalid network ID: %w'' e) | Inr _ \<Rightarrow> Inr value)"

text \<open>The verb \<^verbatim>\<open>%06x\<close>.\<close>

definition hex06 :: "nat \<Rightarrow> string" where
  "hex06 n = replicate (6 - length (hexstring n)) CHR ''0'' @ hexstring n"

definition NewNetworkID :: "NodeID \<Rightarrow> uint32 \<Rightarrow> NetworkID" where
  "NewNetworkID controller sequence = controller @ hex06 (unat (sequence AND 0x00ffffff))"

definition NetworkID_Validate :: "NetworkID \<Rightarrow> unit result" where
  "NetworkID_Validate i = rbind (ParseNetworkID i) (\<lambda>_. Inr ())"

definition ControllerID :: "NetworkID \<Rightarrow> NodeID result" where
  "ControllerID i = rbind (NetworkID_Validate i) (\<lambda>_. Inr (take nodeIDHexLength i))"

subsection \<open>What the identifier checks accept\<close>

definition canonicalHex :: "nat \<Rightarrow> string \<Rightarrow> bool" where
  "canonicalHex n s = (length s = n \<and> list_all lowerhex s)"

lemma hexnat_Some_hexval: "hexnat acc s = Some n \<Longrightarrow> c \<in> set s \<Longrightarrow> \<exists>d. hexval c = Some d"
  by (induction acc s rule: hexnat.induct) (auto split: option.splits)

lemma lowerhex_iff: "lowerhex c \<longleftrightarrow> hexval c \<noteq> None \<and> \<not> isUpperAF c"
  by (auto simp: lowerhex_def hexval_def isUpperAF_def Let_def)

lemma validateHexID_iff:
  assumes "0 < n" "n \<le> 16"
  shows "validateHexID s n = Inr () \<longleftrightarrow> canonicalHex n s"
proof
  assume v: "validateHexID s n = Inr ()"
  then obtain w where p: "ParseUint16 s 64 = Inr w" and l: "length s = n" and u: "\<not> list_ex isUpperAF s"
    by (auto simp: validateHexID_def split: if_splits sum.splits)
  then obtain k where k: "hexnat 0 s = Some k"
    by (auto simp: ParseUint16_def split: if_splits option.splits)
  have "lowerhex c" if "c \<in> set s" for c
    using hexnat_Some_hexval [OF k that] u that by (auto simp: lowerhex_iff list_ex_iff)
  with l show "canonicalHex n s" by (simp add: canonicalHex_def list_all_iff)
next
  assume c: "canonicalHex n s"
  then have "\<exists>k. ParseUint16 s 64 = Inr (of_nat k) \<and> hexnat 0 s = Some k \<and> k < 2 ^ 64"
    using assms by (intro ParseUint16_lower) (auto simp: canonicalHex_def)
  moreover have "\<not> list_ex isUpperAF s"
    using c by (auto simp: canonicalHex_def list_all_iff list_ex_iff lowerhex_iff)
  ultimately show "validateHexID s n = Inr ()"
    using c by (auto simp: validateHexID_def canonicalHex_def)
qed

lemma validateHexID_cases: "validateHexID s n = Inr () \<or> (\<exists>e. validateHexID s n = Inl e)"
  by (cases "validateHexID s n") auto

lemma ParseNodeID_iff: "ParseNodeID s = Inr i \<longleftrightarrow> i = s \<and> canonicalHex 10 s"
  using validateHexID_iff [of 10 s] validateHexID_cases [of s 10]
  by (auto simp: ParseNodeID_def nodeIDHexLength_def)

lemma ParseNetworkID_iff: "ParseNetworkID s = Inr i \<longleftrightarrow> i = s \<and> canonicalHex 16 s"
  using validateHexID_iff [of 16 s] validateHexID_cases [of s 16]
  by (auto simp: ParseNetworkID_def networkIDHexLength_def)

lemma Parse_canonical [simp]:
  "canonicalHex 10 s \<Longrightarrow> ParseNodeID s = Inr s" "canonicalHex 16 s \<Longrightarrow> ParseNetworkID s = Inr s"
  by (simp_all add: ParseNodeID_iff ParseNetworkID_iff)

lemma NodeID_Validate_iff [simp]: "NodeID_Validate s = Inr u \<longleftrightarrow> canonicalHex 10 s"
  by (auto simp: NodeID_Validate_def rbind_eq_Inr ParseNodeID_iff)

lemma NetworkID_Validate_iff [simp]: "NetworkID_Validate s = Inr u \<longleftrightarrow> canonicalHex 16 s"
  by (auto simp: NetworkID_Validate_def rbind_eq_Inr ParseNetworkID_iff)

lemma Validate_canonical [simp]:
  "canonicalHex 10 s \<Longrightarrow> NodeID_Validate s = Inr ()" "canonicalHex 16 s \<Longrightarrow> NetworkID_Validate s = Inr ()"
  by simp_all

lemma ControllerID_iff: "ControllerID i = Inr c \<longleftrightarrow> canonicalHex 16 i \<and> c = take 10 i"
  by (auto simp: ControllerID_def rbind_eq_Inr nodeIDHexLength_def)

lemma canonicalHex_take: "canonicalHex n s \<Longrightarrow> k \<le> n \<Longrightarrow> canonicalHex k (take k s)"
  by (auto simp: canonicalHex_def list_all_iff dest: in_set_takeD)

lemma canonicalHex_encode: "length bs = n \<Longrightarrow> canonicalHex (2 * n) (hex_encode bs)"
  by (auto simp: canonicalHex_def list_all_iff dest: lowerhex_hex_encode)

lemma canonicalHex_decode:
  assumes "canonicalHex (2 * n) s"
  shows "\<exists>bs. hex_decode s = Inr bs \<and> hex_encode bs = s \<and> length bs = n"
  using assms hex_decode_lower [of s] by (auto simp: canonicalHex_def)

lemma hex06_canonical: "n < 2 ^ 24 \<Longrightarrow> canonicalHex 6 (hex06 n)"
  using lowerhex_hexstring [of n] hexstring_length [of 6 n]
  by (auto simp: hex06_def canonicalHex_def list_all_iff lowerhex_def)

lemma hexnat_zeros: "hexnat 0 (replicate k CHR ''0'' @ s) = hexnat 0 s"
  by (induction k) (simp_all add: hexval_def)

lemma hex06_inj: "hex06 m = hex06 n \<Longrightarrow> m = n"
  by (metis hex06_def hexnat_zeros hexnat_hexstring option.inject)

lemma hex06_unat_inj: "hex06 (unat (a :: uint32)) = hex06 (unat b) \<Longrightarrow> a = b"
  by (metis hex06_inj word_unat_eq_iff)

lemma seq24_less: "unat ((s :: uint32) AND 0x00ffffff) < 2 ^ 24"
proof -
  have "s AND 0x00ffffff \<le> 0x00ffffff" by (rule word_and_le1)
  then show ?thesis by (simp add: word_le_nat_alt)
qed

lemma canonicalHex_NewNetworkID:
  "canonicalHex 10 c \<Longrightarrow> canonicalHex 16 (NewNetworkID c s)"
  using hex06_canonical [OF seq24_less, of s] by (simp add: NewNetworkID_def canonicalHex_def)

lemma ControllerID_NewNetworkID [simp]:
  "canonicalHex 10 c \<Longrightarrow> ControllerID (NewNetworkID c s) = Inr c"
  using canonicalHex_NewNetworkID [of c s]
  by (simp add: ControllerID_iff) (simp add: NewNetworkID_def canonicalHex_def)

text \<open>
  Network identifiers embed their owner: for a canonical controller ID the generated network ID
  is accepted by \<^verbatim>\<open>ParseNetworkID\<close>, \<^verbatim>\<open>ControllerID\<close> gives the controller back, and two generated IDs
  are equal exactly when controller and low 24 bits of the sequence agree.
\<close>

theorem network_id_embeds_controller:
  assumes "canonicalHex 10 c" "canonicalHex 10 d"
  shows "ParseNetworkID (NewNetworkID c s) = Inr (NewNetworkID c s)
    \<and> ControllerID (NewNetworkID c s) = Inr c
    \<and> (NewNetworkID c s = NewNetworkID d t \<longleftrightarrow> c = d \<and> s AND 0x00ffffff = t AND 0x00ffffff)"
proof (intro conjI)
  have len: "length c = 10" "length d = 10" using assms by (simp_all add: canonicalHex_def)
  show "ParseNetworkID (NewNetworkID c s) = Inr (NewNetworkID c s)"
    using canonicalHex_NewNetworkID [OF assms(1)] by (simp add: ParseNetworkID_iff)
  show "ControllerID (NewNetworkID c s) = Inr c"
    by (rule ControllerID_NewNetworkID [OF assms(1)])
  show "NewNetworkID c s = NewNetworkID d t \<longleftrightarrow> c = d \<and> s AND 0x00ffffff = t AND 0x00ffffff"
    using len by (auto simp: NewNetworkID_def dest: hex06_unat_inj)
qed

theorem network_id_embeds_controller_witness:
  "ControllerID (NewNetworkID ''8056c2e21c'' 1) = Inr ''8056c2e21c''"
proof -
  have "canonicalHex 10 ''8056c2e21c''" by (simp add: canonicalHex_def lowerhex_def)
  from network_id_embeds_controller [OF this this, of 1 1] show ?thesis by simp
qed

section \<open>Networks\<close>

definition CurrentSchemaVersion :: int where
  "CurrentSchemaVersion = 1"

definition DefaultMTU :: int where
  "DefaultMTU = 2800"

definition MinMTU :: int where
  "MinMTU = 1280"

definition MaxMTU :: int where
  "MaxMTU = 10000"

definition DefaultMulticastLimit :: int where
  "DefaultMulticastLimit = 32"

definition MaxCollectionSize :: nat where
  "MaxCollectionSize = 16384"

record AssignmentModes =
  amIPv4ZeroTier :: bool
  amIPv6ZeroTier :: bool
  amIPv6RFC4193 :: bool
  amIPv6SixPlane :: bool

record Route =
  rtTarget :: Prefix
  rtVia :: Addr

record IPPool =
  plStart :: Addr
  plEnd :: Addr

record DNSConfig =
  dnsDomain :: string
  dnsServers :: "Addr list"

text \<open>
  A \<^verbatim>\<open>json.RawMessage\<close> is the JSON value it spells; a number is kept as its literal, since decoding
  depends on it, and an object keeps its members in the order of the text.
\<close>

datatype RawMessage = JNull | JBool bool | JNumber string | JString string
  | JArray "RawMessage list" | JObject "(string \<times> RawMessage) list"

record Rule =
  ruType :: string
  ruNegate :: bool
  ruOr :: bool
  ruParameters :: "(string, RawMessage) fmap"

record Capability =
  cpID :: uint32
  cpDefault :: bool
  cpRules :: "Rule list"

record TagDefinition =
  tdID :: uint32
  tdDefault :: "uint32 option"

record Network =
  nwSchemaVersion :: int
  nwID :: NetworkID
  nwName :: string
  nwPrivate :: bool
  nwMTU :: int
  nwMulticastLimit :: int
  nwEnableBroadcast :: bool
  nwAssignment :: AssignmentModes
  nwRoutes :: "Route list"
  nwIPPools :: "IPPool list"
  nwDNS :: "DNSConfig option"
  nwRules :: "Rule list"
  nwCapabilities :: "Capability list"
  nwTags :: "TagDefinition list"
  nwAuthTokens :: "(string, uint64) fmap option"
  nwRulesSource :: string
  nwRemoteTraceTarget :: string
  nwRemoteTraceLevel :: uint64
  nwSSOEnabled :: bool
  nwCreatedAt :: time
  nwUpdatedAt :: time
  nwRevision :: uint64

definition NewNetwork :: "NetworkID \<Rightarrow> time \<Rightarrow> Network" where
  "NewNetwork i now =
     \<lparr> nwSchemaVersion = CurrentSchemaVersion, nwID = i, nwName = [], nwPrivate = True,
       nwMTU = DefaultMTU, nwMulticastLimit = DefaultMulticastLimit, nwEnableBroadcast = True,
       nwAssignment = \<lparr> amIPv4ZeroTier = False, amIPv6ZeroTier = False,
                        amIPv6RFC4193 = False, amIPv6SixPlane = False \<rparr>,
       nwRoutes = [], nwIPPools = [], nwDNS = None,
       nwRules = [\<lparr> ruType = ''ACTION_ACCEPT'', ruNegate = False, ruOr = False, ruParameters = fmempty \<rparr>],
       nwCapabilities = [], nwTags = [], nwAuthTokens = None, nwRulesSource = [],
       nwRemoteTraceTarget = [], nwRemoteTraceLevel = 0, nwSSOEnabled = False,
       nwCreatedAt = UTC now, nwUpdatedAt = UTC now, nwRevision = 0 \<rparr>"

text \<open>The size check ranges over a Go map; every order of it reports the same format string.\<close>

definition validateCollectionSizes :: "Network \<Rightarrow> unit result" where
  "validateCollectionSizes n = checkAll
     (\<lambda>size. if size > MaxCollectionSize then Inl (Errorf ''%s exceeds the limit of %d entries'')
             else Inr ())
     [length (nwRoutes n), length (nwIPPools n), length (nwRules n),
      length (nwCapabilities n), length (nwTags n)]"

text \<open>A loop that inserts keys into a set and stops at the first key already present.\<close>

fun checkFresh :: "error \<Rightarrow> 'k set \<Rightarrow> 'k list \<Rightarrow> unit result" where
  "checkFresh e seen [] = Inr ()"
| "checkFresh e seen (k # ks) = (if k \<in> seen then Inl e else checkFresh e (insert k seen) ks)"

definition validateUniqueDefinitions :: "Capability list \<Rightarrow> TagDefinition list \<Rightarrow> unit result" where
  "validateUniqueDefinitions capabilities tags =
     rbind (checkFresh (Errorf ''duplicate capability ID %d'') {} (map cpID capabilities))
       (\<lambda>_. checkFresh (Errorf ''duplicate tag ID %d'') {} (map tdID tags))"

definition validateRoute :: "Route \<Rightarrow> unit result" where
  "validateRoute route =
     (if \<not> prefixIsValid (rtTarget route) then Inl (Errorf ''route %d has an invalid target'')
      else if addrIsValid (rtVia route) \<and> Is4 (rtVia route) \<noteq> Is4 (pfAddr (rtTarget route))
      then Inl (Errorf ''route %d target and gateway use different address families'')
      else Inr ())"

definition validatePool :: "IPPool \<Rightarrow> unit result" where
  "validatePool pool =
     (if \<not> addrIsValid (plStart pool) \<or> \<not> addrIsValid (plEnd pool)
      then Inl (Errorf ''IP pool %d has an invalid endpoint'')
      else if Is4 (plStart pool) \<noteq> Is4 (plEnd pool) \<or> Compare (plStart pool) (plEnd pool) > 0
      then Inl (Errorf ''IP pool %d must contain an ordered range from one address family'')
      else Inr ())"

definition validateDNSServers :: "Addr list \<Rightarrow> unit result" where
  "validateDNSServers servers = checkAll
     (\<lambda>server. if addrIsValid server then Inr () else Inl (Errorf ''DNS server %d is invalid'')) servers"

definition Network_Validate :: "Network \<Rightarrow> unit result" where
  "Network_Validate n =
     rbind (NetworkID_Validate (nwID n)) (\<lambda>_.
     if nwSchemaVersion n \<noteq> CurrentSchemaVersion then Inl (Errorf ''unsupported schema version %d'')
     else if nwMTU n < MinMTU \<or> nwMTU n > MaxMTU then Inl (Errorf ''MTU must be between %d and %d'')
     else if nwMulticastLimit n < 0 then Inl (Errorf ''multicast limit cannot be negative'')
     else if IsZero (nwCreatedAt n) \<or> IsZero (nwUpdatedAt n)
     then Inl (Errorf ''creation and update timestamps are required'')
     else if nwUpdatedAt n < nwCreatedAt n then Inl (Errorf ''updatedAt cannot precede createdAt'')
     else
       rbind (validateCollectionSizes n) (\<lambda>_.
       rbind (checkAll validateRoute (nwRoutes n)) (\<lambda>_.
       rbind (checkAll validatePool (nwIPPools n)) (\<lambda>_.
       rbind (checkAll (\<lambda>rule. if ruType rule = [] then Inl (Errorf ''rule %d has no type'') else Inr ())
                (nwRules n)) (\<lambda>_.
       rbind (validateUniqueDefinitions (nwCapabilities n) (nwTags n)) (\<lambda>_.
       case nwDNS n of None \<Rightarrow> Inr () | Some dns \<Rightarrow> validateDNSServers (dnsServers dns)))))))"

section \<open>Members\<close>

record TagValue =
  tvID :: uint32
  tvValue :: uint32

record Member =
  mbSchemaVersion :: int
  mbNetworkID :: NetworkID
  mbNodeID :: NodeID
  mbAuthorized :: bool
  mbName :: string
  mbActiveBridge :: bool
  mbNetworkRelay :: bool
  mbMulticastReplicator :: bool
  mbNoAutoAssign :: bool
  mbIPAssignments :: "Addr list"
  mbCapabilities :: "uint32 list"
  mbTags :: "TagValue list"
  mbAuthenticationExpiryTime :: uint64
  mbAuthenticationURL :: string
  mbRemoteTraceTarget :: string
  mbRemoteTraceLevel :: uint64
  mbSSOExempt :: bool
  mbLastAuthorizedAt :: time
  mbLastDeauthorizedAt :: time
  mbCreatedAt :: time
  mbUpdatedAt :: time
  mbRevision :: uint64

record AgentMetadata =
  agNetworkID :: NetworkID
  agNodeID :: NodeID
  agTarget :: string
  agVendor :: uint64
  agProtocol :: uint64
  agMajor :: uint64
  agMinor :: uint64
  agRevision :: uint64
  agRulesEngineRevision :: uint64
  agMaxRules :: uint64
  agMaxCapabilities :: uint64
  agMaxCapabilityRules :: uint64
  agMaxTags :: uint64
  agUpdatedAt :: time

definition AgentMetadata_Validate :: "AgentMetadata \<Rightarrow> unit result" where
  "AgentMetadata_Validate md =
     rbind (NetworkID_Validate (agNetworkID md)) (\<lambda>_.
     rbind (NodeID_Validate (agNodeID md)) (\<lambda>_.
     if length (agTarget md) > 128 then Inl (Errorf ''agent target exceeds 128 bytes'')
     else if IsZero (agUpdatedAt md) then Inl (Errorf ''agent metadata update time is required'')
     else Inr ()))"

definition NewMember :: "NetworkID \<Rightarrow> NodeID \<Rightarrow> time \<Rightarrow> Member" where
  "NewMember networkID nodeID now =
     \<lparr> mbSchemaVersion = CurrentSchemaVersion, mbNetworkID = networkID, mbNodeID = nodeID,
       mbAuthorized = False, mbName = [], mbActiveBridge = False, mbNetworkRelay = False,
       mbMulticastReplicator = False, mbNoAutoAssign = False, mbIPAssignments = [],
       mbCapabilities = [], mbTags = [], mbAuthenticationExpiryTime = 0, mbAuthenticationURL = [],
       mbRemoteTraceTarget = [], mbRemoteTraceLevel = 0, mbSSOExempt = False,
       mbLastAuthorizedAt = 0, mbLastDeauthorizedAt = 0,
       mbCreatedAt = UTC now, mbUpdatedAt = UTC now, mbRevision = 0 \<rparr>"

fun checkAddresses :: "Addr set \<Rightarrow> Addr list \<Rightarrow> unit result" where
  "checkAddresses seen [] = Inr ()"
| "checkAddresses seen (a # as) =
     (if \<not> addrIsValid a then Inl (Errorf ''IP assignment %d is invalid'')
      else if a \<in> seen then Inl (Errorf ''duplicate IP assignment %s'')
      else checkAddresses (insert a seen) as)"

definition validateUniqueMemberValues :: "Member \<Rightarrow> unit result" where
  "validateUniqueMemberValues m =
     rbind (checkAddresses {} (mbIPAssignments m)) (\<lambda>_.
     rbind (checkFresh (Errorf ''duplicate capability ID %d'') {} (mbCapabilities m)) (\<lambda>_.
     checkFresh (Errorf ''duplicate tag ID %d'') {} (map tvID (mbTags m))))"

definition Member_Validate :: "Member \<Rightarrow> unit result" where
  "Member_Validate m =
     (if mbSchemaVersion m \<noteq> CurrentSchemaVersion then Inl (Errorf ''unsupported schema version %d'')
      else
        rbind (NetworkID_Validate (mbNetworkID m)) (\<lambda>_.
        rbind (NodeID_Validate (mbNodeID m)) (\<lambda>_.
        if IsZero (mbCreatedAt m) \<or> IsZero (mbUpdatedAt m)
        then Inl (Errorf ''creation and update timestamps are required'')
        else if mbUpdatedAt m < mbCreatedAt m then Inl (Errorf ''updatedAt cannot precede createdAt'')
        else if length (mbIPAssignments m) > MaxCollectionSize
             \<or> length (mbCapabilities m) > MaxCollectionSize
             \<or> length (mbTags m) > MaxCollectionSize
        then Inl (Errorf ''member collection exceeds the limit of %d entries'')
        else validateUniqueMemberValues m)))"

section \<open>What the validators accept\<close>

text \<open>The declarative contract of a network document.\<close>

definition wfRoute :: "Route \<Rightarrow> bool" where
  "wfRoute r = (prefixIsValid (rtTarget r) \<and>
     (rtVia r = NoAddr \<or> Is4 (rtVia r) = Is4 (pfAddr (rtTarget r))))"

definition wfPool :: "IPPool \<Rightarrow> bool" where
  "wfPool p = (addrIsValid (plStart p) \<and> addrIsValid (plEnd p) \<and>
     Is4 (plStart p) = Is4 (plEnd p) \<and> Compare (plStart p) (plEnd p) \<le> 0)"

definition wfNetwork :: "Network \<Rightarrow> bool" where
  "wfNetwork n = (canonicalHex 16 (nwID n) \<and> nwSchemaVersion n = 1
     \<and> nwMTU n \<in> {1280..10000} \<and> 0 \<le> nwMulticastLimit n
     \<and> nwCreatedAt n \<noteq> 0 \<and> nwUpdatedAt n \<noteq> 0 \<and> nwCreatedAt n \<le> nwUpdatedAt n
     \<and> length (nwRoutes n) \<le> 16384 \<and> length (nwIPPools n) \<le> 16384 \<and> length (nwRules n) \<le> 16384
     \<and> length (nwCapabilities n) \<le> 16384 \<and> length (nwTags n) \<le> 16384
     \<and> list_all wfRoute (nwRoutes n) \<and> list_all wfPool (nwIPPools n)
     \<and> list_all (\<lambda>r. ruType r \<noteq> []) (nwRules n)
     \<and> distinct (map cpID (nwCapabilities n)) \<and> distinct (map tdID (nwTags n))
     \<and> pred_option (\<lambda>d. list_all addrIsValid (dnsServers d)) (nwDNS n))"

definition wfMember :: "Member \<Rightarrow> bool" where
  "wfMember m = (mbSchemaVersion m = 1 \<and> canonicalHex 16 (mbNetworkID m) \<and> canonicalHex 10 (mbNodeID m)
     \<and> mbCreatedAt m \<noteq> 0 \<and> mbUpdatedAt m \<noteq> 0 \<and> mbCreatedAt m \<le> mbUpdatedAt m
     \<and> length (mbIPAssignments m) \<le> 16384 \<and> length (mbCapabilities m) \<le> 16384
     \<and> length (mbTags m) \<le> 16384
     \<and> list_all addrIsValid (mbIPAssignments m) \<and> distinct (mbIPAssignments m)
     \<and> distinct (mbCapabilities m) \<and> distinct (map tvID (mbTags m)))"

lemma checkFresh_Inr: "checkFresh e S ks = Inr u \<longleftrightarrow> distinct ks \<and> S \<inter> set ks = {}"
  by (induction e S ks rule: checkFresh.induct) auto

lemma checkAddresses_Inr:
  "checkAddresses S as = Inr u \<longleftrightarrow> list_all addrIsValid as \<and> distinct as \<and> S \<inter> set as = {}"
  by (induction S as rule: checkAddresses.induct) auto

lemma validateRoute_Inr [simp]: "validateRoute r = Inr () \<longleftrightarrow> wfRoute r"
  by (cases "rtVia r") (auto simp: validateRoute_def wfRoute_def)

lemma validatePool_Inr [simp]: "validatePool p = Inr () \<longleftrightarrow> wfPool p"
  by (auto simp: validatePool_def wfPool_def)

lemma validateDNSServers_Inr [simp]: "validateDNSServers xs = Inr u \<longleftrightarrow> list_all addrIsValid xs"
  by (simp add: validateDNSServers_def list_all_iff)

lemma validateUniqueDefinitions_Inr [simp]:
  "validateUniqueDefinitions cs ts = Inr u \<longleftrightarrow> distinct (map cpID cs) \<and> distinct (map tdID ts)"
  by (auto simp: validateUniqueDefinitions_def rbind_eq_Inr checkFresh_Inr)

lemma validateCollectionSizes_Inr [simp]:
  "validateCollectionSizes n = Inr u \<longleftrightarrow> length (nwRoutes n) \<le> 16384 \<and> length (nwIPPools n) \<le> 16384
     \<and> length (nwRules n) \<le> 16384 \<and> length (nwCapabilities n) \<le> 16384 \<and> length (nwTags n) \<le> 16384"
  by (auto simp: validateCollectionSizes_def MaxCollectionSize_def not_less simp del: checkAll.simps)

lemma Network_Validate_iff: "Network_Validate n = Inr u \<longleftrightarrow> wfNetwork n"
proof -
  have "Network_Validate n = Inr () \<longleftrightarrow> wfNetwork n"
    by (cases "nwDNS n")
      (simp_all add: Network_Validate_def wfNetwork_def rbind_eq_Inr IsZero_def list_all_iff
        CurrentSchemaVersion_def MinMTU_def MaxMTU_def not_less conj_ac cong: conj_cong)
  then show ?thesis by simp
qed

lemma Member_Validate_iff: "Member_Validate m = Inr u \<longleftrightarrow> wfMember m"
  by (simp add: Member_Validate_def wfMember_def rbind_eq_Inr IsZero_def validateUniqueMemberValues_def
      checkFresh_Inr checkAddresses_Inr CurrentSchemaVersion_def MaxCollectionSize_def not_less conj_ac
      cong: conj_cong)

lemma AgentMetadata_Validate_iff:
  "AgentMetadata_Validate md = Inr u \<longleftrightarrow> canonicalHex 16 (agNetworkID md) \<and> canonicalHex 10 (agNodeID md)
     \<and> length (agTarget md) \<le> 128 \<and> agUpdatedAt md \<noteq> 0"
  by (auto simp: AgentMetadata_Validate_def rbind_eq_Inr IsZero_def)

lemma wfNetwork_NewNetwork: "wfNetwork (NewNetwork i now) \<longleftrightarrow> canonicalHex 16 i \<and> now \<noteq> 0"
  by (auto simp: wfNetwork_def NewNetwork_def CurrentSchemaVersion_def DefaultMTU_def
      DefaultMulticastLimit_def)

lemma wfMember_NewMember:
  "wfMember (NewMember i j now) \<longleftrightarrow> canonicalHex 16 i \<and> canonicalHex 10 j \<and> now \<noteq> 0"
  by (auto simp: wfMember_def NewMember_def CurrentSchemaVersion_def)

lemma canonicalHex_pos: "canonicalHex n s \<Longrightarrow> 0 < n \<Longrightarrow> s \<noteq> []"
  by (auto simp: canonicalHex_def)

text \<open>
  The validators are exact: \<^verbatim>\<open>Network.Validate\<close> and \<^verbatim>\<open>Member.Validate\<close> return no error precisely on
  the documents that meet the declarative contracts (identifier syntax, schema version, MTU and
  multicast bounds, ordered non-zero timestamps, collection limits, route families, ordered pools,
  unique capability, tag and address entries), and the documents built by \<^verbatim>\<open>NewNetwork\<close> and \<^verbatim>\<open>NewMember\<close>
  at a non-zero time pass exactly when their identifiers are canonical.
\<close>

theorem validators_exact:
  "(isOk (Network_Validate n) \<longleftrightarrow> wfNetwork n)
   \<and> (isOk (Member_Validate m) \<longleftrightarrow> wfMember m)
   \<and> (isOk (Network_Validate (NewNetwork i now)) \<longleftrightarrow> isOk (NetworkID_Validate i) \<and> \<not> IsZero now)
   \<and> (isOk (Member_Validate (NewMember i j now)) \<longleftrightarrow>
        isOk (NetworkID_Validate i) \<and> isOk (NodeID_Validate j) \<and> \<not> IsZero now)"
  by (simp add: isOk_iff Network_Validate_iff Member_Validate_iff wfNetwork_NewNetwork wfMember_NewMember
      IsZero_def)

end
