(* ===== verification/Store.thy ===== *)
theory Store
  imports Domain
begin

text \<open>
  Package \<^verbatim>\<open>internal/store\<close>: the persistence interface as a record of operations, the abstract store
  its documentation promises (optimistic concurrency on revisions), and the contract as a locale in
  which the lemmas every client of a store relies on are proved once.
\<close>

section \<open>The interface\<close>

text \<open>A \<^verbatim>\<open>context.Context\<close> is known by the result of \<^verbatim>\<open>ctx.Err()\<close>: \<open>None\<close> while it is live.\<close>

type_synonym Context = "error option"

record 's Store =
  stPing :: "Context \<Rightarrow> 's \<Rightarrow> unit result"
  stCreateNetwork :: "Context \<Rightarrow> Network \<Rightarrow> 's \<Rightarrow> unit result \<times> 's"
  stGetNetwork :: "Context \<Rightarrow> NetworkID \<Rightarrow> 's \<Rightarrow> Network result"
  stListNetworks :: "Context \<Rightarrow> 's \<Rightarrow> Network list result"
  stSaveNetwork :: "Context \<Rightarrow> Network \<Rightarrow> 's \<Rightarrow> unit result \<times> 's"
  stDeleteNetwork :: "Context \<Rightarrow> NetworkID \<Rightarrow> uint64 \<Rightarrow> 's \<Rightarrow> unit result \<times> 's"
  stCreateMember :: "Context \<Rightarrow> Member \<Rightarrow> 's \<Rightarrow> unit result \<times> 's"
  stGetMember :: "Context \<Rightarrow> NetworkID \<Rightarrow> NodeID \<Rightarrow> 's \<Rightarrow> Member result"
  stListMembers :: "Context \<Rightarrow> NetworkID \<Rightarrow> 's \<Rightarrow> Member list result"
  stSaveMember :: "Context \<Rightarrow> Member \<Rightarrow> 's \<Rightarrow> unit result \<times> 's"
  stDeleteMember :: "Context \<Rightarrow> NetworkID \<Rightarrow> NodeID \<Rightarrow> uint64 \<Rightarrow> 's \<Rightarrow> unit result \<times> 's"
  stUpsertAgentMetadata :: "Context \<Rightarrow> AgentMetadata \<Rightarrow> 's \<Rightarrow> unit result \<times> 's"
  stGetAgentMetadata :: "Context \<Rightarrow> NetworkID \<Rightarrow> NodeID \<Rightarrow> 's \<Rightarrow> AgentMetadata result"

section \<open>The abstract store\<close>

text \<open>
  What the comment on the \<^verbatim>\<open>Store\<close> interface says: creation persists revision 1, saving requires the
  current revision and persists the next one, deletion requires the current revision. Members live
  in an existing network and metadata belongs to an existing member.
\<close>

record AStore =
  asNetworks :: "NetworkID \<rightharpoonup> Network"
  asMembers :: "NetworkID \<times> NodeID \<rightharpoonup> Member"
  asMetadata :: "NetworkID \<times> NodeID \<rightharpoonup> AgentMetadata"

definition found :: "'a option \<Rightarrow> 'a result" where
  "found x = (case x of None \<Rightarrow> Inl ErrNotFound | Some v \<Rightarrow> Inr v)"

definition aCreateNetwork :: "Network \<Rightarrow> AStore \<Rightarrow> unit result \<times> AStore" where
  "aCreateNetwork n a = (case Network_Validate n of Inl e \<Rightarrow> (Inl e, a) | Inr _ \<Rightarrow>
     if asNetworks a (nwID n) \<noteq> None then (Inl ErrAlreadyExists, a)
     else (Inr (), a\<lparr>asNetworks := (asNetworks a)(nwID n \<mapsto> n\<lparr>nwRevision := 1\<rparr>)\<rparr>))"

definition aSaveNetwork :: "Network \<Rightarrow> AStore \<Rightarrow> unit result \<times> AStore" where
  "aSaveNetwork n a = (case Network_Validate n of Inl e \<Rightarrow> (Inl e, a) | Inr _ \<Rightarrow>
     (case asNetworks a (nwID n) of None \<Rightarrow> (Inl ErrNotFound, a)
      | Some c \<Rightarrow> if nwRevision n \<noteq> nwRevision c then (Inl ErrConflict, a)
          else (Inr (), a\<lparr>asNetworks := (asNetworks a)(nwID n \<mapsto> n\<lparr>nwRevision := nwRevision n + 1\<rparr>)\<rparr>)))"

definition aDeleteNetwork :: "NetworkID \<Rightarrow> uint64 \<Rightarrow> AStore \<Rightarrow> unit result \<times> AStore" where
  "aDeleteNetwork i revision a = (case asNetworks a i of None \<Rightarrow> (Inl ErrNotFound, a)
     | Some c \<Rightarrow> if revision \<noteq> nwRevision c then (Inl ErrConflict, a)
         else (Inr (), \<lparr> asNetworks = (asNetworks a)(i := None),
                        asMembers = (\<lambda>k. if fst k = i then None else asMembers a k),
                        asMetadata = (\<lambda>k. if fst k = i then None else asMetadata a k) \<rparr>))"

definition aCreateMember :: "Member \<Rightarrow> AStore \<Rightarrow> unit result \<times> AStore" where
  "aCreateMember m a = (case Member_Validate m of Inl e \<Rightarrow> (Inl e, a) | Inr _ \<Rightarrow>
     if asNetworks a (mbNetworkID m) = None then (Inl ErrNotFound, a)
     else if asMembers a (mbNetworkID m, mbNodeID m) \<noteq> None then (Inl ErrAlreadyExists, a)
     else (Inr (), a\<lparr>asMembers := (asMembers a)((mbNetworkID m, mbNodeID m) \<mapsto> m\<lparr>mbRevision := 1\<rparr>)\<rparr>))"

definition aSaveMember :: "Member \<Rightarrow> AStore \<Rightarrow> unit result \<times> AStore" where
  "aSaveMember m a = (case Member_Validate m of Inl e \<Rightarrow> (Inl e, a) | Inr _ \<Rightarrow>
     (case asMembers a (mbNetworkID m, mbNodeID m) of None \<Rightarrow> (Inl ErrNotFound, a)
      | Some c \<Rightarrow> if mbRevision m \<noteq> mbRevision c then (Inl ErrConflict, a)
          else (Inr (), a\<lparr>asMembers :=
            (asMembers a)((mbNetworkID m, mbNodeID m) \<mapsto> m\<lparr>mbRevision := mbRevision m + 1\<rparr>)\<rparr>)))"

definition aDeleteMember :: "NetworkID \<Rightarrow> NodeID \<Rightarrow> uint64 \<Rightarrow> AStore \<Rightarrow> unit result \<times> AStore" where
  "aDeleteMember i j revision a = (case asMembers a (i, j) of None \<Rightarrow> (Inl ErrNotFound, a)
     | Some c \<Rightarrow> if revision \<noteq> mbRevision c then (Inl ErrConflict, a)
         else (Inr (), a\<lparr>asMembers := (asMembers a)((i, j) := None),
                        asMetadata := (asMetadata a)((i, j) := None)\<rparr>))"

definition aUpsertAgentMetadata :: "AgentMetadata \<Rightarrow> AStore \<Rightarrow> unit result \<times> AStore" where
  "aUpsertAgentMetadata md a = (case AgentMetadata_Validate md of Inl e \<Rightarrow> (Inl e, a) | Inr _ \<Rightarrow>
     if asMembers a (agNetworkID md, agNodeID md) = None then (Inl ErrNotFound, a)
     else (Inr (), a\<lparr>asMetadata := (asMetadata a)((agNetworkID md, agNodeID md) \<mapsto> md)\<rparr>))"

text \<open>The integrity constraints every store keeps.\<close>

definition wfAStore :: "AStore \<Rightarrow> bool" where
  "wfAStore a = ((\<forall>i n. asNetworks a i = Some n \<longrightarrow> nwID n = i \<and> wfNetwork n)
     \<and> (\<forall>i j m. asMembers a (i, j) = Some m \<longrightarrow>
           mbNetworkID m = i \<and> mbNodeID m = j \<and> wfMember m \<and> asNetworks a i \<noteq> None)
     \<and> (\<forall>i j md. asMetadata a (i, j) = Some md \<longrightarrow>
           agNetworkID md = i \<and> agNodeID md = j \<and> asMembers a (i, j) \<noteq> None))"

lemmas astore_defs = aCreateNetwork_def aSaveNetwork_def aDeleteNetwork_def aCreateMember_def
  aSaveMember_def aDeleteMember_def aUpsertAgentMetadata_def

lemma found_simps [simp]:
  "found None = Inl ErrNotFound" "found (Some v) = Inr v"
  by (simp_all add: found_def)

lemma found_eq_Inr [simp]: "found x = Inr v \<longleftrightarrow> x = Some v"
  by (cases x) auto

lemma found_eq_Inl [simp]: "found x = Inl e \<longleftrightarrow> x = None \<and> e = ErrNotFound"
  by (cases x) auto

lemma wfNetwork_revision [simp]: "wfNetwork (n\<lparr>nwRevision := r\<rparr>) = wfNetwork n"
  by (simp add: wfNetwork_def)

lemma wfMember_revision [simp]: "wfMember (m\<lparr>mbRevision := r\<rparr>) = wfMember m"
  by (simp add: wfMember_def)

lemma wfAStoreD:
  assumes "wfAStore a"
  shows "asNetworks a i = Some n \<Longrightarrow> nwID n = i \<and> wfNetwork n"
    and "asMembers a (i, j) = Some m \<Longrightarrow>
           mbNetworkID m = i \<and> mbNodeID m = j \<and> wfMember m \<and> asNetworks a i \<noteq> None"
    and "asMetadata a (i, j) = Some md \<Longrightarrow> agNetworkID md = i \<and> agNodeID md = j \<and> asMembers a (i, j) \<noteq> None"
  using assms unfolding wfAStore_def by blast+

lemma Network_Validate_Inr: "Network_Validate n = Inr u \<Longrightarrow> wfNetwork n"
  by (simp add: Network_Validate_iff)

lemma Member_Validate_Inr: "Member_Validate n = Inr u \<Longrightarrow> wfMember n"
  by (simp add: Member_Validate_iff)

lemma Validate_wf [simp]:
  "wfNetwork n \<Longrightarrow> Network_Validate n = Inr ()" "wfMember m \<Longrightarrow> Member_Validate m = Inr ()"
  by (simp_all add: Network_Validate_iff Member_Validate_iff)

text \<open>Every abstract operation keeps the integrity constraints.\<close>

lemma aCreateNetwork_wf: "wfAStore a \<Longrightarrow> wfAStore (snd (aCreateNetwork n a))"
  by (auto simp: aCreateNetwork_def wfAStore_def split: sum.splits dest!: Network_Validate_Inr)

lemma aSaveNetwork_wf: "wfAStore a \<Longrightarrow> wfAStore (snd (aSaveNetwork n a))"
  by (auto simp: aSaveNetwork_def wfAStore_def split: sum.splits option.splits dest!: Network_Validate_Inr)

lemma aDeleteNetwork_wf: "wfAStore a \<Longrightarrow> wfAStore (snd (aDeleteNetwork i r a))"
  by (auto simp: aDeleteNetwork_def wfAStore_def split: option.splits)

lemma aCreateMember_wf: "wfAStore a \<Longrightarrow> wfAStore (snd (aCreateMember m a))"
  by (auto simp: aCreateMember_def wfAStore_def split: sum.splits dest!: Member_Validate_Inr)

lemma aSaveMember_wf: "wfAStore a \<Longrightarrow> wfAStore (snd (aSaveMember m a))"
  by (auto simp: aSaveMember_def wfAStore_def split: sum.splits option.splits dest!: Member_Validate_Inr)

lemma aDeleteMember_wf: "wfAStore a \<Longrightarrow> wfAStore (snd (aDeleteMember i j r a))"
  by (auto simp: aDeleteMember_def wfAStore_def split: option.splits)

lemma aUpsertAgentMetadata_wf: "wfAStore a \<Longrightarrow> wfAStore (snd (aUpsertAgentMetadata md a))"
  by (auto simp: aUpsertAgentMetadata_def wfAStore_def split: sum.splits)

lemmas astore_wf = aCreateNetwork_wf aSaveNetwork_wf aDeleteNetwork_wf aCreateMember_wf
  aSaveMember_wf aDeleteMember_wf aUpsertAgentMetadata_wf

section \<open>Interleaved calls\<close>

text \<open>
  Every store serialises its mutating calls (a mutex in memory, a single connection for SQLite), so
  what concurrent clients do to it is a sequence of calls.
\<close>

datatype StoreCall =
    CallCreateNetwork Network | CallSaveNetwork Network | CallDeleteNetwork NetworkID uint64
  | CallCreateMember Member | CallSaveMember Member | CallDeleteMember NetworkID NodeID uint64
  | CallUpsertAgentMetadata AgentMetadata

fun storeCall :: "'s Store \<Rightarrow> Context \<Rightarrow> StoreCall \<Rightarrow> 's \<Rightarrow> unit result \<times> 's" where
  "storeCall S ctx (CallCreateNetwork n) s = stCreateNetwork S ctx n s"
| "storeCall S ctx (CallSaveNetwork n) s = stSaveNetwork S ctx n s"
| "storeCall S ctx (CallDeleteNetwork i r) s = stDeleteNetwork S ctx i r s"
| "storeCall S ctx (CallCreateMember m) s = stCreateMember S ctx m s"
| "storeCall S ctx (CallSaveMember m) s = stSaveMember S ctx m s"
| "storeCall S ctx (CallDeleteMember i j r) s = stDeleteMember S ctx i j r s"
| "storeCall S ctx (CallUpsertAgentMetadata md) s = stUpsertAgentMetadata S ctx md s"

fun storeRun :: "'s Store \<Rightarrow> StoreCall list \<Rightarrow> 's \<Rightarrow> 's" where
  "storeRun S [] s = s"
| "storeRun S (c # cs) s = storeRun S cs (snd (storeCall S None c s))"

fun aCall :: "StoreCall \<Rightarrow> AStore \<Rightarrow> unit result \<times> AStore" where
  "aCall (CallCreateNetwork n) a = aCreateNetwork n a"
| "aCall (CallSaveNetwork n) a = aSaveNetwork n a"
| "aCall (CallDeleteNetwork i r) a = aDeleteNetwork i r a"
| "aCall (CallCreateMember m) a = aCreateMember m a"
| "aCall (CallSaveMember m) a = aSaveMember m a"
| "aCall (CallDeleteMember i j r) a = aDeleteMember i j r a"
| "aCall (CallUpsertAgentMetadata md) a = aUpsertAgentMetadata md a"

fun aRun :: "StoreCall list \<Rightarrow> AStore \<Rightarrow> AStore" where
  "aRun [] a = a"
| "aRun (c # cs) a = aRun cs (snd (aCall c a))"

text \<open>Calls that delete member \<open>(i, j)\<close> or its network.\<close>

fun deletesMember :: "NetworkID \<Rightarrow> NodeID \<Rightarrow> StoreCall \<Rightarrow> bool" where
  "deletesMember i j (CallDeleteNetwork k r) = (k = i)"
| "deletesMember i j (CallDeleteMember k l r) = (k = i \<and> l = j)"
| "deletesMember i j _ = False"

lemma aCall_wf: "wfAStore a \<Longrightarrow> wfAStore (snd (aCall c a))"
  by (cases c) (simp_all add: astore_wf)

lemma aCall_member:
  assumes "asMembers a (i, j) = Some m" "\<not> deletesMember i j c"
  shows "asMembers (snd (aCall c a)) (i, j) = Some m \<or>
    (\<exists>m'. asMembers (snd (aCall c a)) (i, j) = Some m' \<and> mbRevision m' = mbRevision m + 1)"
  using assms
  by (cases c) (auto simp: astore_defs split: sum.splits option.splits if_splits)

text \<open>
  Along a run that does not delete the member its revision has advanced by the number of successful
  saves, and it is unchanged when that number is zero.
\<close>

lemma aRun_member:
  assumes "asMembers a (i, j) = Some m" "\<forall>c \<in> set cs. \<not> deletesMember i j c"
  shows "\<exists>k m'. k \<le> length cs \<and> asMembers (aRun cs a) (i, j) = Some m' \<and>
    mbRevision m' = mbRevision m + of_nat k \<and> (k = 0 \<longrightarrow> m' = m)"
  using assms
proof (induction cs arbitrary: a m)
  case Nil
  then show ?case by (intro exI [of _ 0]) auto
next
  case (Cons c cs)
  from Cons.prems aCall_member [of a i j m c] consider
      "asMembers (snd (aCall c a)) (i, j) = Some m"
    | m1 where "asMembers (snd (aCall c a)) (i, j) = Some m1" "mbRevision m1 = mbRevision m + 1"
    by auto
  then show ?case
  proof cases
    case 1
    with Cons.prems obtain k m' where "k \<le> length cs" "asMembers (aRun cs (snd (aCall c a))) (i, j) = Some m'"
      "mbRevision m' = mbRevision m + of_nat k" "k = 0 \<longrightarrow> m' = m"
      using Cons.IH [of "snd (aCall c a)" m] by auto
    then show ?thesis by (intro exI [of _ k] exI [of _ m']) auto
  next
    case 2
    with Cons.prems obtain k m' where "k \<le> length cs" "asMembers (aRun cs (snd (aCall c a))) (i, j) = Some m'"
      "mbRevision m' = mbRevision m1 + of_nat k"
      using Cons.IH [of "snd (aCall c a)" m1] by auto
    with 2 show ?thesis by (intro exI [of _ "Suc k"] exI [of _ m']) auto
  qed
qed

lemma of_nat_uint64_eq_0: "k < 2 ^ 64 \<Longrightarrow> (of_nat k :: uint64) = 0 \<longleftrightarrow> k = 0"
  by (auto simp: word_of_nat_eq_0_iff dest: dvd_imp_le)

section \<open>The contract\<close>

locale persistent_store =
  fixes S :: "'s Store" and sinv :: "'s \<Rightarrow> bool" and sabs :: "'s \<Rightarrow> AStore"
  assumes integrity: "sinv s \<Longrightarrow> wfAStore (sabs s)"
    and get_network: "sinv s \<Longrightarrow> stGetNetwork S None i s = found (asNetworks (sabs s) i)"
    and get_member: "sinv s \<Longrightarrow> stGetMember S None i j s = found (asMembers (sabs s) (i, j))"
    and get_metadata: "sinv s \<Longrightarrow> stGetAgentMetadata S None i j s = found (asMetadata (sabs s) (i, j))"
    and list_networks: "sinv s \<Longrightarrow> \<exists>ns. stListNetworks S None s = Inr ns \<and> sorted (map nwID ns)
          \<and> distinct (map nwID ns) \<and> set ns = ran (asNetworks (sabs s))"
    and list_members: "sinv s \<Longrightarrow> asNetworks (sabs s) i \<noteq> None \<Longrightarrow>
          \<exists>ms. stListMembers S None i s = Inr ms \<and> sorted (map mbNodeID ms)
          \<and> distinct (map mbNodeID ms) \<and> set ms = {m. \<exists>j. asMembers (sabs s) (i, j) = Some m}"
    and list_members_missing: "sinv s \<Longrightarrow> asNetworks (sabs s) i = None \<Longrightarrow>
          stListMembers S None i s = Inl ErrNotFound"
    and call_refines: "sinv s \<Longrightarrow> storeCall S None c s = (r, s') \<Longrightarrow> sinv s' \<and> aCall c (sabs s) = (r, sabs s')"
begin

lemma call_inv: "sinv s \<Longrightarrow> sinv (snd (storeCall S None c s))"
  by (metis call_refines prod.collapse)

lemma call_abs: "sinv s \<Longrightarrow> sabs (snd (storeCall S None c s)) = snd (aCall c (sabs s))"
  by (metis call_refines prod.collapse snd_conv)

lemma run_inv: "sinv s \<Longrightarrow> sinv (storeRun S cs s)"
  by (induction cs arbitrary: s) (simp_all add: call_inv)

lemma run_abs: "sinv s \<Longrightarrow> sabs (storeRun S cs s) = aRun cs (sabs s)"
  by (induction cs arbitrary: s) (simp_all add: call_inv call_abs)

lemma save_member: "sinv s \<Longrightarrow> stSaveMember S None m s = (r, s') \<Longrightarrow> sinv s' \<and> aSaveMember m (sabs s) = (r, sabs s')"
  using call_refines [of s "CallSaveMember m"] by simp

lemma create_member: "sinv s \<Longrightarrow> stCreateMember S None m s = (r, s') \<Longrightarrow> sinv s' \<and> aCreateMember m (sabs s) = (r, sabs s')"
  using call_refines [of s "CallCreateMember m"] by simp

lemma delete_member: "sinv s \<Longrightarrow> stDeleteMember S None i j v s = (r, s') \<Longrightarrow> sinv s' \<and> aDeleteMember i j v (sabs s) = (r, sabs s')"
  using call_refines [of s "CallDeleteMember i j v"] by simp

lemma save_network: "sinv s \<Longrightarrow> stSaveNetwork S None n s = (r, s') \<Longrightarrow> sinv s' \<and> aSaveNetwork n (sabs s) = (r, sabs s')"
  using call_refines [of s "CallSaveNetwork n"] by simp

lemma create_network: "sinv s \<Longrightarrow> stCreateNetwork S None n s = (r, s') \<Longrightarrow> sinv s' \<and> aCreateNetwork n (sabs s) = (r, sabs s')"
  using call_refines [of s "CallCreateNetwork n"] by simp

lemma delete_network: "sinv s \<Longrightarrow> stDeleteNetwork S None i v s = (r, s') \<Longrightarrow> sinv s' \<and> aDeleteNetwork i v (sabs s) = (r, sabs s')"
  using call_refines [of s "CallDeleteNetwork i v"] by simp

lemma upsert_metadata: "sinv s \<Longrightarrow> stUpsertAgentMetadata S None md s = (r, s') \<Longrightarrow> sinv s' \<and> aUpsertAgentMetadata md (sabs s) = (r, sabs s')"
  using call_refines [of s "CallUpsertAgentMetadata md"] by simp

lemmas calls = save_member create_member delete_member save_network create_network delete_network
  upsert_metadata

text \<open>No lost updates: a save based on a read succeeds only if nobody saved in between.\<close>

lemma no_lost_update:
  assumes "sinv s" "stGetMember S None i j s = Inr m"
    and "\<forall>c \<in> set cs. \<not> deletesMember i j c" "length cs < 2 ^ 64"
    and "mbNetworkID m' = i" "mbNodeID m' = j" "mbRevision m' = mbRevision m"
    and "stSaveMember S None m' (storeRun S cs s) = (Inr (), s')"
  shows "stGetMember S None i j (storeRun S cs s) = Inr m
    \<and> stGetMember S None i j s' = Inr (m'\<lparr>mbRevision := mbRevision m + 1\<rparr>)"
proof -
  let ?t = "storeRun S cs s"
  have it: "sinv ?t" using assms(1) by (rule run_inv)
  have "asMembers (sabs s) (i, j) = Some m" using assms(1,2) by (simp add: get_member)
  from aRun_member [OF this assms(3)] obtain k n where k: "k \<le> length cs"
    "asMembers (sabs ?t) (i, j) = Some n" "mbRevision n = mbRevision m + of_nat k" "k = 0 \<longrightarrow> n = m"
    using run_abs [OF assms(1)] by auto
  have sv: "sinv s'" "aSaveMember m' (sabs ?t) = (Inr (), sabs s')"
    using save_member [OF it assms(8)] by auto
  then have "mbRevision m' = mbRevision n"
    and ab: "sabs s' = sabs ?t\<lparr>asMembers := (asMembers (sabs ?t))((i, j) \<mapsto> m'\<lparr>mbRevision := mbRevision m' + 1\<rparr>)\<rparr>"
    using assms(5,6) k(2) by (auto simp: aSaveMember_def split: sum.splits if_splits)
  then have "(of_nat k :: uint64) = 0" using k(3) assms(7) by simp
  then have "k = 0" using k(1) assms(4) of_nat_uint64_eq_0 [of k] by simp
  with k have "asMembers (sabs ?t) (i, j) = Some m" by simp
  then show ?thesis using it sv(1) ab assms(7) by (simp add: get_member)
qed

end

end
