(* ===== verification/Service.thy ===== *)
theory Service
  imports Store
begin

unbundle bit_operations_syntax

text \<open>
  Package \<^verbatim>\<open>internal/controller\<close>, the administrative service: creation of networks, registration and
  authorization of members (\<^verbatim>\<open>service.go\<close>), the administrative operations (\<^verbatim>\<open>admin.go\<close>) and automatic
  address assignment (\<^verbatim>\<open>ipam.go\<close>). The service is written against the store interface; an operation
  is a function from the world to its result and the new world. The world holds the state of the
  store, how many times the clock and the random source have been read, and the deauthorization
  events the service has published.
\<close>

section \<open>Operations\<close>

record 's Service =
  svControllerID :: NodeID
  svStore :: "'s Store"
  svNow :: "nat \<Rightarrow> time"
  svRandom :: "nat \<Rightarrow> uint32 result"
  svOnDeauthorize :: bool

record 's World =
  wStore :: 's
  wClock :: nat
  wRandom :: nat
  wDeauthorized :: "(NetworkID \<times> NodeID \<times> time) list"

type_synonym ('s, 'a) operation = "'s World \<Rightarrow> 'a result \<times> 's World"

definition sret :: "'a \<Rightarrow> ('s, 'a) operation" where
  "sret x w = (Inr x, w)"

definition sfail :: "error \<Rightarrow> ('s, 'a) operation" where
  "sfail e w = (Inl e, w)"

definition sbind :: "('s, 'a) operation \<Rightarrow> ('a \<Rightarrow> ('s, 'b) operation) \<Rightarrow> ('s, 'b) operation" where
  "sbind m f w = (case m w of (Inl e, w') \<Rightarrow> (Inl e, w') | (Inr x, w') \<Rightarrow> f x w')"

text \<open>\<open>scatch\<close> continues with the error as a value; \<open>swrap\<close> is \<^verbatim>\<open>fmt.Errorf("...: %w", err)\<close>.\<close>

definition scatch :: "('s, 'a) operation \<Rightarrow> ('a result \<Rightarrow> ('s, 'b) operation) \<Rightarrow> ('s, 'b) operation" where
  "scatch m f w = (case m w of (r, w') \<Rightarrow> f r w')"

definition swrap :: "string \<Rightarrow> ('s, 'a) operation \<Rightarrow> ('s, 'a) operation" where
  "swrap msg m w = (case m w of (r, w') \<Rightarrow> (wrapErr msg r, w'))"

definition slift :: "'a result \<Rightarrow> ('s, 'a) operation" where
  "slift r w = (r, w)"

definition sread :: "('s \<Rightarrow> 'a result) \<Rightarrow> ('s, 'a) operation" where
  "sread f w = (f (wStore w), w)"

definition swrite :: "('s \<Rightarrow> 'a result \<times> 's) \<Rightarrow> ('s, 'a) operation" where
  "swrite f w = (case f (wStore w) of (r, s) \<Rightarrow> (r, w\<lparr>wStore := s\<rparr>))"

text \<open>\<^verbatim>\<open>service.now()\<close>, and the four random bytes of \<^verbatim>\<open>rand.Read\<close>.\<close>

definition snow :: "'s Service \<Rightarrow> ('s, time) operation" where
  "snow sv w = (Inr (svNow sv (wClock w)), w\<lparr>wClock := Suc (wClock w)\<rparr>)"

definition srandom :: "'s Service \<Rightarrow> ('s, uint32) operation" where
  "srandom sv w = (svRandom sv (wRandom w), w\<lparr>wRandom := Suc (wRandom w)\<rparr>)"

definition snotify :: "'s Service \<Rightarrow> NetworkID \<Rightarrow> NodeID \<Rightarrow> time \<Rightarrow> ('s, unit) operation" where
  "snotify sv i j t w = (Inr (), if svOnDeauthorize sv then w\<lparr>wDeauthorized := wDeauthorized w @ [(i, j, t)]\<rparr> else w)"

lemmas operation_defs = sret_def sfail_def sbind_def scatch_def swrap_def slift_def sread_def swrite_def
  snow_def srandom_def snotify_def

section \<open>\<^verbatim>\<open>service.go\<close>\<close>

definition New :: "NodeID \<Rightarrow> 's Store option \<Rightarrow> (nat \<Rightarrow> time) \<Rightarrow> (nat \<Rightarrow> uint32 result) \<Rightarrow> 's Service result" where
  "New controllerID persistence clock random =
     rbind (NodeID_Validate controllerID) (\<lambda>_.
     case persistence of None \<Rightarrow> Inl (Errorf ''store is required'') | Some S \<Rightarrow>
     Inr \<lparr> svControllerID = controllerID, svStore = S, svNow = clock, svRandom = random, svOnDeauthorize = False \<rparr>)"

definition SetDeauthorizationHandler :: "'s Service \<Rightarrow> 's Service" where
  "SetDeauthorizationHandler sv = sv\<lparr>svOnDeauthorize := True\<rparr>"

definition validateOwnedNetwork :: "'s Service \<Rightarrow> NetworkID \<Rightarrow> unit result" where
  "validateOwnedNetwork sv networkID =
     rbind (ControllerID networkID) (\<lambda>controllerID.
     if controllerID \<noteq> svControllerID sv then Inl (Errorf ''network %s belongs to controller %s'')
     else Inr ())"

definition CreateNetwork :: "'s Service \<Rightarrow> Context \<Rightarrow> uint32 \<Rightarrow> string \<Rightarrow> ('s, Network) operation" where
  "CreateNetwork sv ctx sequence name =
     (if sequence > 0x00ffffff then sfail (Errorf ''network sequence exceeds 24 bits'')
      else
        sbind (snow sv) (\<lambda>now.
        let network = (NewNetwork (NewNetworkID (svControllerID sv) sequence) now)\<lparr>nwName := name\<rparr> in
        sbind (swrap ''create network: %w'' (swrite (stCreateNetwork (svStore sv) ctx network))) (\<lambda>_.
        sread (stGetNetwork (svStore sv) ctx (nwID network)))))"

record NetworkUpdate =
  nuName :: string
  nuPrivate :: bool
  nuMTU :: int
  nuMulticastLimit :: int
  nuEnableBroadcast :: bool
  nuAssignment :: AssignmentModes
  nuRoutes :: "Route list"
  nuIPPools :: "IPPool list"
  nuDNS :: "DNSConfig option"
  nuRules :: "Rule list"
  nuCapabilities :: "Capability list"
  nuTags :: "TagDefinition list"
  nuAuthTokens :: "(string, uint64) fmap option"
  nuRulesSource :: string
  nuRemoteTraceTarget :: string
  nuRemoteTraceLevel :: uint64
  nuSSOEnabled :: bool

text \<open>The copies made by \<^verbatim>\<open>cloneDNS\<close> and \<^verbatim>\<open>cloneAuthTokens\<close> are the values themselves.\<close>

definition applyNetworkUpdate :: "NetworkUpdate \<Rightarrow> Network \<Rightarrow> Network" where
  "applyNetworkUpdate update network = network\<lparr>
     nwName := nuName update, nwPrivate := nuPrivate update, nwMTU := nuMTU update,
     nwMulticastLimit := nuMulticastLimit update, nwEnableBroadcast := nuEnableBroadcast update,
     nwAssignment := nuAssignment update, nwRoutes := nuRoutes update, nwIPPools := nuIPPools update,
     nwDNS := nuDNS update, nwRules := nuRules update, nwCapabilities := nuCapabilities update,
     nwTags := nuTags update, nwAuthTokens := nuAuthTokens update, nwRulesSource := nuRulesSource update,
     nwRemoteTraceTarget := nuRemoteTraceTarget update, nwRemoteTraceLevel := nuRemoteTraceLevel update,
     nwSSOEnabled := nuSSOEnabled update \<rparr>"

definition CreateNetworkWithUpdate :: "'s Service \<Rightarrow> Context \<Rightarrow> uint32 \<Rightarrow> NetworkUpdate \<Rightarrow> ('s, Network) operation" where
  "CreateNetworkWithUpdate sv ctx sequence update =
     (if sequence > 0x00ffffff then sfail (Errorf ''network sequence exceeds 24 bits'')
      else
        sbind (snow sv) (\<lambda>now.
        let network = applyNetworkUpdate update (NewNetwork (NewNetworkID (svControllerID sv) sequence) now) in
        sbind (swrap ''configured network: %w'' (slift (Network_Validate network))) (\<lambda>_.
        sbind (swrap ''create network: %w'' (swrite (stCreateNetwork (svStore sv) ctx network))) (\<lambda>_.
        sread (stGetNetwork (svStore sv) ctx (nwID network))))))"

text \<open>The retry loop of the two random creations, with \<open>attempts\<close> rounds left.\<close>

fun createRandom :: "'s Service \<Rightarrow> (uint32 \<Rightarrow> ('s, Network) operation) \<Rightarrow> nat \<Rightarrow> ('s, Network) operation" where
  "createRandom sv create 0 = sfail (Errorf ''unable to allocate network ID'')"
| "createRandom sv create (Suc attempts) =
     sbind (swrap ''generate network sequence: %w'' (srandom sv)) (\<lambda>value.
     let sequence = value AND 0x00ffffff;
         sequence = (if sequence = 0 then 1 else sequence) in
     scatch (create sequence) (\<lambda>r. case r of
       Inl e \<Rightarrow> if errorsIs e ErrAlreadyExists then createRandom sv create attempts else sfail e
     | Inr network \<Rightarrow> sret network))"

definition CreateRandomNetwork :: "'s Service \<Rightarrow> Context \<Rightarrow> string \<Rightarrow> ('s, Network) operation" where
  "CreateRandomNetwork sv ctx name = createRandom sv (\<lambda>sequence. CreateNetwork sv ctx sequence name) 100000"

definition CreateRandomNetworkWithUpdate :: "'s Service \<Rightarrow> Context \<Rightarrow> NetworkUpdate \<Rightarrow> ('s, Network) operation" where
  "CreateRandomNetworkWithUpdate sv ctx update =
     createRandom sv (\<lambda>sequence. CreateNetworkWithUpdate sv ctx sequence update) 100000"

definition RegisterMember :: "'s Service \<Rightarrow> Context \<Rightarrow> NetworkID \<Rightarrow> NodeID \<Rightarrow> ('s, Member) operation" where
  "RegisterMember sv ctx networkID nodeID =
     sbind (slift (validateOwnedNetwork sv networkID)) (\<lambda>_.
     sbind (slift (NodeID_Validate nodeID)) (\<lambda>_.
     scatch (sread (stGetMember (svStore sv) ctx networkID nodeID)) (\<lambda>r. case r of
       Inr existing \<Rightarrow> sret existing
     | Inl e \<Rightarrow>
         if \<not> errorsIs e ErrNotFound then sfail (Wrap ''get member: %w'' e)
         else
           sbind (snow sv) (\<lambda>now.
           scatch (swrite (stCreateMember (svStore sv) ctx (NewMember networkID nodeID now))) (\<lambda>r. case r of
             Inl e \<Rightarrow> if errorsIs e ErrAlreadyExists then sread (stGetMember (svStore sv) ctx networkID nodeID)
                      else sfail (Wrap ''register member: %w'' e)
           | Inr _ \<Rightarrow> sread (stGetMember (svStore sv) ctx networkID nodeID))))))"

definition memberHasSpecialistRole :: "Member \<Rightarrow> bool" where
  "memberHasSpecialistRole member = (mbActiveBridge member \<or> mbNetworkRelay member \<or> mbMulticastReplicator member)"

definition bumpNetworkRevision :: "'s Service \<Rightarrow> Context \<Rightarrow> NetworkID \<Rightarrow> ('s, unit) operation" where
  "bumpNetworkRevision sv ctx networkID =
     sbind (sread (stGetNetwork (svStore sv) ctx networkID)) (\<lambda>network.
     sbind (snow sv) (\<lambda>now.
     swrite (stSaveNetwork (svStore sv) ctx (network\<lparr>nwUpdatedAt := UTC now\<rparr>))))"

definition SetMemberAuthorization ::
    "'s Service \<Rightarrow> Context \<Rightarrow> NetworkID \<Rightarrow> NodeID \<Rightarrow> bool \<Rightarrow> uint64 \<Rightarrow> ('s, Member) operation" where
  "SetMemberAuthorization sv ctx networkID nodeID authorized expectedRevision =
     sbind (slift (validateOwnedNetwork sv networkID)) (\<lambda>_.
     sbind (swrap ''get member: %w'' (sread (stGetMember (svStore sv) ctx networkID nodeID))) (\<lambda>member.
     if mbRevision member \<noteq> expectedRevision then sfail ErrConflict
     else if mbAuthorized member = authorized then sret member
     else
       sbind (snow sv) (\<lambda>now.
       let member = (if authorized then member\<lparr>mbAuthorized := authorized, mbLastAuthorizedAt := UTC now\<rparr>
                     else member\<lparr>mbAuthorized := authorized, mbLastDeauthorizedAt := UTC now\<rparr>) in
       sbind (snow sv) (\<lambda>now.
       let member = member\<lparr>mbUpdatedAt := UTC now\<rparr> in
       sbind (swrap ''save member: %w'' (swrite (stSaveMember (svStore sv) ctx member))) (\<lambda>_.
       sbind (if memberHasSpecialistRole member
              then swrap ''invalidate specialist configuration: %w'' (bumpNetworkRevision sv ctx networkID)
              else sret ()) (\<lambda>_.
       sbind (sread (stGetMember (svStore sv) ctx networkID nodeID)) (\<lambda>saved.
       sbind (if \<not> authorized then snotify sv networkID nodeID (mbUpdatedAt member) else sret ()) (\<lambda>_.
       sret saved))))))))"

section \<open>\<^verbatim>\<open>admin.go\<close>\<close>

record MemberUpdate =
  muName :: string
  muActiveBridge :: bool
  muNetworkRelay :: bool
  muMulticastReplicator :: bool
  muNoAutoAssign :: bool
  muIPAssignments :: "Addr list"
  muCapabilities :: "uint32 list"
  muTags :: "TagValue list"
  muAuthenticationExpiryTime :: uint64
  muAuthenticationURL :: string
  muRemoteTraceTarget :: string
  muRemoteTraceLevel :: uint64
  muSSOExempt :: bool

definition svcPing :: "'s Service \<Rightarrow> Context \<Rightarrow> ('s, unit) operation" where
  "svcPing sv ctx = sread (stPing (svStore sv) ctx)"

definition svcGetNetwork :: "'s Service \<Rightarrow> Context \<Rightarrow> NetworkID \<Rightarrow> ('s, Network) operation" where
  "svcGetNetwork sv ctx networkID =
     sbind (slift (validateOwnedNetwork sv networkID)) (\<lambda>_.
     sread (stGetNetwork (svStore sv) ctx networkID))"

definition svcListNetworks :: "'s Service \<Rightarrow> Context \<Rightarrow> ('s, Network list) operation" where
  "svcListNetworks sv ctx = sread (stListNetworks (svStore sv) ctx)"

definition UpdateNetwork ::
    "'s Service \<Rightarrow> Context \<Rightarrow> NetworkID \<Rightarrow> NetworkUpdate \<Rightarrow> uint64 \<Rightarrow> ('s, Network) operation" where
  "UpdateNetwork sv ctx networkID update expectedRevision =
     sbind (slift (validateOwnedNetwork sv networkID)) (\<lambda>_.
     sbind (sread (stGetNetwork (svStore sv) ctx networkID)) (\<lambda>network.
     if nwRevision network \<noteq> expectedRevision then sfail ErrConflict
     else
       sbind (snow sv) (\<lambda>now.
       let network = (applyNetworkUpdate update network)\<lparr>nwUpdatedAt := UTC now\<rparr> in
       sbind (swrap ''updated network: %w'' (slift (Network_Validate network))) (\<lambda>_.
       sbind (swrite (stSaveNetwork (svStore sv) ctx network)) (\<lambda>_.
       sread (stGetNetwork (svStore sv) ctx networkID))))))"

definition svcDeleteNetwork :: "'s Service \<Rightarrow> Context \<Rightarrow> NetworkID \<Rightarrow> ('s, unit) operation" where
  "svcDeleteNetwork sv ctx networkID =
     sbind (slift (validateOwnedNetwork sv networkID)) (\<lambda>_.
     sbind (sread (stGetNetwork (svStore sv) ctx networkID)) (\<lambda>network.
     swrite (stDeleteNetwork (svStore sv) ctx networkID (nwRevision network))))"

definition svcGetMember :: "'s Service \<Rightarrow> Context \<Rightarrow> NetworkID \<Rightarrow> NodeID \<Rightarrow> ('s, Member) operation" where
  "svcGetMember sv ctx networkID nodeID =
     sbind (slift (validateOwnedNetwork sv networkID)) (\<lambda>_.
     sread (stGetMember (svStore sv) ctx networkID nodeID))"

definition svcGetAgentMetadata :: "'s Service \<Rightarrow> Context \<Rightarrow> NetworkID \<Rightarrow> NodeID \<Rightarrow> ('s, AgentMetadata) operation" where
  "svcGetAgentMetadata sv ctx networkID nodeID =
     sbind (slift (validateOwnedNetwork sv networkID)) (\<lambda>_.
     sread (stGetAgentMetadata (svStore sv) ctx networkID nodeID))"

definition svcDeleteMember :: "'s Service \<Rightarrow> Context \<Rightarrow> NetworkID \<Rightarrow> NodeID \<Rightarrow> ('s, unit) operation" where
  "svcDeleteMember sv ctx networkID nodeID =
     sbind (slift (validateOwnedNetwork sv networkID)) (\<lambda>_.
     sbind (sread (stGetMember (svStore sv) ctx networkID nodeID)) (\<lambda>member.
     sbind (if mbAuthorized member \<and> memberHasSpecialistRole member
            then swrap ''invalidate specialist configuration: %w'' (bumpNetworkRevision sv ctx networkID)
            else sret ()) (\<lambda>_.
     swrite (stDeleteMember (svStore sv) ctx networkID nodeID (mbRevision member)))))"

definition svcListMembers :: "'s Service \<Rightarrow> Context \<Rightarrow> NetworkID \<Rightarrow> ('s, Member list) operation" where
  "svcListMembers sv ctx networkID =
     sbind (slift (validateOwnedNetwork sv networkID)) (\<lambda>_.
     sbind (sread (stGetNetwork (svStore sv) ctx networkID)) (\<lambda>_.
     sread (stListMembers (svStore sv) ctx networkID)))"

definition applyMemberUpdate :: "MemberUpdate \<Rightarrow> Member \<Rightarrow> Member" where
  "applyMemberUpdate update member = member\<lparr>
     mbActiveBridge := muActiveBridge update, mbNetworkRelay := muNetworkRelay update,
     mbMulticastReplicator := muMulticastReplicator update, mbName := muName update,
     mbNoAutoAssign := muNoAutoAssign update, mbIPAssignments := muIPAssignments update,
     mbCapabilities := muCapabilities update, mbTags := muTags update,
     mbAuthenticationExpiryTime := muAuthenticationExpiryTime update,
     mbAuthenticationURL := muAuthenticationURL update,
     mbRemoteTraceTarget := muRemoteTraceTarget update, mbRemoteTraceLevel := muRemoteTraceLevel update,
     mbSSOExempt := muSSOExempt update \<rparr>"

definition UpdateMember ::
    "'s Service \<Rightarrow> Context \<Rightarrow> NetworkID \<Rightarrow> NodeID \<Rightarrow> MemberUpdate \<Rightarrow> uint64 \<Rightarrow> ('s, Member) operation" where
  "UpdateMember sv ctx networkID nodeID update expectedRevision =
     sbind (slift (validateOwnedNetwork sv networkID)) (\<lambda>_.
     sbind (sread (stGetMember (svStore sv) ctx networkID nodeID)) (\<lambda>member.
     if mbRevision member \<noteq> expectedRevision then sfail ErrConflict
     else
       let specialistsChanged = (mbAuthorized member \<and>
             (mbActiveBridge member \<noteq> muActiveBridge update \<or> mbNetworkRelay member \<noteq> muNetworkRelay update
              \<or> mbMulticastReplicator member \<noteq> muMulticastReplicator update)) in
       sbind (snow sv) (\<lambda>now.
       let member = (applyMemberUpdate update member)\<lparr>mbUpdatedAt := UTC now\<rparr> in
       sbind (swrap ''updated member: %w'' (slift (Member_Validate member))) (\<lambda>_.
       sbind (swrite (stSaveMember (svStore sv) ctx member)) (\<lambda>_.
       sbind (if specialistsChanged
              then swrap ''invalidate specialist configuration: %w'' (bumpNetworkRevision sv ctx networkID)
              else sret ()) (\<lambda>_.
       sread (stGetMember (svStore sv) ctx networkID nodeID)))))))"

section \<open>\<^verbatim>\<open>ipam.go\<close>\<close>

definition maxIPAMPoolScan :: nat where "maxIPAMPoolScan = 2 ^ 20"

definition hasAddressFamily :: "Addr list \<Rightarrow> bool \<Rightarrow> bool" where
  "hasAddressFamily addresses ipv4 = list_ex (\<lambda>address. Is4 address = ipv4) addresses"

definition addressHasManagedRoute :: "Route list \<Rightarrow> Addr \<Rightarrow> bool" where
  "addressHasManagedRoute routes address = list_ex (\<lambda>route. prefixContains (rtTarget route) address) routes"

definition optionList :: "'a option \<Rightarrow> 'a list" where
  "optionList x = (case x of None \<Rightarrow> [] | Some y \<Rightarrow> [y])"

text \<open>
  The inner loop of \<^verbatim>\<open>firstAvailableAddress\<close> over one pool: \<open>Inl\<close> is a \<^verbatim>\<open>return\<close>, \<open>Inr\<close> the count of
  scanned addresses at the end of the pool.
\<close>

function scanPool :: "Route list \<Rightarrow> Addr set \<Rightarrow> Addr \<Rightarrow> nat \<Rightarrow> Addr \<Rightarrow> Addr option + nat" where
  "scanPool routes used poolEnd scanned candidate =
     (if addrIsValid candidate \<and> Compare candidate poolEnd \<le> 0 then
        if Suc scanned > maxIPAMPoolScan then Inl None
        else if candidate \<in> used \<or> \<not> addressHasManagedRoute routes candidate
        then scanPool routes used poolEnd (Suc scanned) (Next candidate)
        else Inl (Some candidate)
      else Inr scanned)"
  by pat_completeness auto
termination
  by (relation "measure (\<lambda>(r, u, e, scanned, c). maxIPAMPoolScan - scanned)") auto

declare scanPool.simps [simp del]

fun scanPools :: "Route list \<Rightarrow> Addr set \<Rightarrow> bool \<Rightarrow> nat \<Rightarrow> IPPool list \<Rightarrow> Addr option" where
  "scanPools routes used ipv4 scanned [] = None"
| "scanPools routes used ipv4 scanned (pool # pools) =
     (if Is4 (plStart pool) \<noteq> ipv4 then scanPools routes used ipv4 scanned pools
      else case scanPool routes used (plEnd pool) scanned (plStart pool) of
        Inl r \<Rightarrow> r | Inr scanned \<Rightarrow> scanPools routes used ipv4 scanned pools)"

definition firstAvailableAddress :: "Network \<Rightarrow> Addr set \<Rightarrow> bool \<Rightarrow> Addr option" where
  "firstAvailableAddress network used ipv4 = scanPools (nwRoutes network) used ipv4 0 (nwIPPools network)"

definition ensureAutomaticAssignments ::
    "'s Service \<Rightarrow> Context \<Rightarrow> Network \<Rightarrow> Member \<Rightarrow> ('s, Member) operation" where
  "ensureAutomaticAssignments sv ctx network member =
     (if mbNoAutoAssign member \<or> length (nwIPPools network) = 0 then sret member
      else
        let need4 = (amIPv4ZeroTier (nwAssignment network) \<and> \<not> hasAddressFamily (mbIPAssignments member) True);
            need6 = (amIPv6ZeroTier (nwAssignment network) \<and> \<not> hasAddressFamily (mbIPAssignments member) False) in
        if \<not> need4 \<and> \<not> need6 then sret member
        else
          sbind (sread (stGetMember (svStore sv) ctx (nwID network) (mbNodeID member))) (\<lambda>current.
          let need4 = (amIPv4ZeroTier (nwAssignment network) \<and> \<not> hasAddressFamily (mbIPAssignments current) True);
              need6 = (amIPv6ZeroTier (nwAssignment network) \<and> \<not> hasAddressFamily (mbIPAssignments current) False) in
          if mbNoAutoAssign current \<or> (\<not> need4 \<and> \<not> need6) then sret current
          else
            sbind (sread (stListMembers (svStore sv) ctx (nwID network))) (\<lambda>members.
            let used = (\<Union>existing \<in> set members. set (mbIPAssignments existing));
                address4 = (if need4 then firstAvailableAddress network used True else None);
                used = used \<union> set_option address4;
                address6 = (if need6 then firstAvailableAddress network used False else None) in
            if address4 = None \<and> address6 = None then sret current
            else
              sbind (snow sv) (\<lambda>now.
              let current = current\<lparr>mbIPAssignments := mbIPAssignments current @ optionList address4 @ optionList address6,
                                    mbUpdatedAt := UTC now\<rparr> in
              sbind (swrap ''automatic IP assignment: %w'' (slift (Member_Validate current))) (\<lambda>_.
              sbind (swrap ''save automatic IP assignment: %w'' (swrite (stSaveMember (svStore sv) ctx current))) (\<lambda>_.
              sread (stGetMember (svStore sv) ctx (nwID network) (mbNodeID current))))))))"

end
