(* ===== verification/MemoryStore.thy ===== *)
theory MemoryStore
  imports Store
begin

text \<open>
  Package \<^verbatim>\<open>internal/store/memory\<close>: the in-memory store, its operations in the order of \<^verbatim>\<open>memory.go\<close>,
  and the proof that it meets the store contract. Go maps are finite maps; the per-network inner
  maps are created on first use as in the code. Each operation runs under the store's mutex and is
  one atomic step; documents are values, so the defensive copies of \<^verbatim>\<open>cloneNetwork\<close>, \<^verbatim>\<open>cloneRules\<close>
  and \<^verbatim>\<open>cloneMember\<close> are the identity here.
\<close>

record MemStore =
  msNetworks :: "(NetworkID, Network) fmap"
  msMembers :: "(NetworkID, (NodeID, Member) fmap) fmap"
  msMetadata :: "(NetworkID, (NodeID, AgentMetadata) fmap) fmap"

definition memNew :: MemStore where
  "memNew = \<lparr> msNetworks = fmempty, msMembers = fmempty, msMetadata = fmempty \<rparr>"

text \<open>\<^verbatim>\<open>m[a][b]\<close>: reading a missing inner map finds nothing.\<close>

definition lookup2 :: "('a, ('b, 'c) fmap) fmap \<Rightarrow> 'a \<Rightarrow> 'b \<Rightarrow> 'c option" where
  "lookup2 m a b = (case fmlookup m a of None \<Rightarrow> None | Some inner \<Rightarrow> fmlookup inner b)"

text \<open>Storing into \<^verbatim>\<open>m[a][b]\<close>, with the inner map made when it is nil.\<close>

definition update2 :: "'a \<Rightarrow> 'b \<Rightarrow> 'c \<Rightarrow> ('a, ('b, 'c) fmap) fmap \<Rightarrow> ('a, ('b, 'c) fmap) fmap" where
  "update2 a b v m =
     fmupd a (fmupd b v (case fmlookup m a of None \<Rightarrow> fmempty | Some inner \<Rightarrow> inner)) m"

text \<open>\<^verbatim>\<open>delete(m[a], b)\<close>: a no-op on a nil inner map.\<close>

definition delete2 :: "'a \<Rightarrow> 'b \<Rightarrow> ('a, ('b, 'c) fmap) fmap \<Rightarrow> ('a, ('b, 'c) fmap) fmap" where
  "delete2 a b m = (case fmlookup m a of None \<Rightarrow> m | Some inner \<Rightarrow> fmupd a (fmdrop b inner) m)"

definition memPing :: "Context \<Rightarrow> MemStore \<Rightarrow> unit result" where
  "memPing ctx s = (case ctx of Some e \<Rightarrow> Inl e | None \<Rightarrow> Inr ())"

definition memCreateNetwork :: "Context \<Rightarrow> Network \<Rightarrow> MemStore \<Rightarrow> unit result \<times> MemStore" where
  "memCreateNetwork ctx network s = (case ctx of Some e \<Rightarrow> (Inl e, s) | None \<Rightarrow>
     (case Network_Validate network of Inl e \<Rightarrow> (Inl e, s) | Inr _ \<Rightarrow>
      (case fmlookup (msNetworks s) (nwID network) of
         Some _ \<Rightarrow> (Inl ErrAlreadyExists, s)
       | None \<Rightarrow> (Inr (), s\<lparr>msNetworks := fmupd (nwID network) (network\<lparr>nwRevision := 1\<rparr>) (msNetworks s)\<rparr>))))"

definition memGetNetwork :: "Context \<Rightarrow> NetworkID \<Rightarrow> MemStore \<Rightarrow> Network result" where
  "memGetNetwork ctx i s = (case ctx of Some e \<Rightarrow> Inl e | None \<Rightarrow>
     (case fmlookup (msNetworks s) i of None \<Rightarrow> Inl ErrNotFound | Some network \<Rightarrow> Inr network))"

definition memListNetworks :: "Context \<Rightarrow> MemStore \<Rightarrow> Network list result" where
  "memListNetworks ctx s = (case ctx of Some e \<Rightarrow> Inl e | None \<Rightarrow>
     Inr (sort_key nwID (mapValues (msNetworks s))))"

definition memSaveNetwork :: "Context \<Rightarrow> Network \<Rightarrow> MemStore \<Rightarrow> unit result \<times> MemStore" where
  "memSaveNetwork ctx network s = (case ctx of Some e \<Rightarrow> (Inl e, s) | None \<Rightarrow>
     (case Network_Validate network of Inl e \<Rightarrow> (Inl e, s) | Inr _ \<Rightarrow>
      (case fmlookup (msNetworks s) (nwID network) of
         None \<Rightarrow> (Inl ErrNotFound, s)
       | Some current \<Rightarrow>
           if nwRevision network \<noteq> nwRevision current then (Inl ErrConflict, s)
           else (Inr (), s\<lparr>msNetworks :=
             fmupd (nwID network) (network\<lparr>nwRevision := nwRevision network + 1\<rparr>) (msNetworks s)\<rparr>))))"

definition memDeleteNetwork :: "Context \<Rightarrow> NetworkID \<Rightarrow> uint64 \<Rightarrow> MemStore \<Rightarrow> unit result \<times> MemStore" where
  "memDeleteNetwork ctx i revision s = (case ctx of Some e \<Rightarrow> (Inl e, s) | None \<Rightarrow>
     (case fmlookup (msNetworks s) i of
        None \<Rightarrow> (Inl ErrNotFound, s)
      | Some current \<Rightarrow>
          if revision \<noteq> nwRevision current then (Inl ErrConflict, s)
          else (Inr (), \<lparr> msNetworks = fmdrop i (msNetworks s), msMembers = fmdrop i (msMembers s),
                         msMetadata = fmdrop i (msMetadata s) \<rparr>)))"

definition memCreateMember :: "Context \<Rightarrow> Member \<Rightarrow> MemStore \<Rightarrow> unit result \<times> MemStore" where
  "memCreateMember ctx member s = (case ctx of Some e \<Rightarrow> (Inl e, s) | None \<Rightarrow>
     (case Member_Validate member of Inl e \<Rightarrow> (Inl e, s) | Inr _ \<Rightarrow>
      (case fmlookup (msNetworks s) (mbNetworkID member) of
         None \<Rightarrow> (Inl ErrNotFound, s)
       | Some _ \<Rightarrow>
          (let made = (case fmlookup (msMembers s) (mbNetworkID member) of
                 None \<Rightarrow> fmupd (mbNetworkID member) fmempty (msMembers s)
               | Some _ \<Rightarrow> msMembers s)
           in case lookup2 made (mbNetworkID member) (mbNodeID member) of
                Some _ \<Rightarrow> (Inl ErrAlreadyExists, s\<lparr>msMembers := made\<rparr>)
              | None \<Rightarrow> (Inr (), s\<lparr>msMembers :=
                  update2 (mbNetworkID member) (mbNodeID member) (member\<lparr>mbRevision := 1\<rparr>) made\<rparr>)))))"

definition memGetMember :: "Context \<Rightarrow> NetworkID \<Rightarrow> NodeID \<Rightarrow> MemStore \<Rightarrow> Member result" where
  "memGetMember ctx networkID nodeID s = (case ctx of Some e \<Rightarrow> Inl e | None \<Rightarrow>
     (case lookup2 (msMembers s) networkID nodeID of None \<Rightarrow> Inl ErrNotFound | Some member \<Rightarrow> Inr member))"

definition memListMembers :: "Context \<Rightarrow> NetworkID \<Rightarrow> MemStore \<Rightarrow> Member list result" where
  "memListMembers ctx networkID s = (case ctx of Some e \<Rightarrow> Inl e | None \<Rightarrow>
     (case fmlookup (msNetworks s) networkID of
        None \<Rightarrow> Inl ErrNotFound
      | Some _ \<Rightarrow> Inr (sort_key mbNodeID
          (mapValues (case fmlookup (msMembers s) networkID of None \<Rightarrow> fmempty | Some inner \<Rightarrow> inner)))))"

definition memSaveMember :: "Context \<Rightarrow> Member \<Rightarrow> MemStore \<Rightarrow> unit result \<times> MemStore" where
  "memSaveMember ctx member s = (case ctx of Some e \<Rightarrow> (Inl e, s) | None \<Rightarrow>
     (case Member_Validate member of Inl e \<Rightarrow> (Inl e, s) | Inr _ \<Rightarrow>
      (case lookup2 (msMembers s) (mbNetworkID member) (mbNodeID member) of
         None \<Rightarrow> (Inl ErrNotFound, s)
       | Some current \<Rightarrow>
           if mbRevision member \<noteq> mbRevision current then (Inl ErrConflict, s)
           else (Inr (), s\<lparr>msMembers := update2 (mbNetworkID member) (mbNodeID member)
                   (member\<lparr>mbRevision := mbRevision member + 1\<rparr>) (msMembers s)\<rparr>))))"

definition memDeleteMember ::
    "Context \<Rightarrow> NetworkID \<Rightarrow> NodeID \<Rightarrow> uint64 \<Rightarrow> MemStore \<Rightarrow> unit result \<times> MemStore" where
  "memDeleteMember ctx networkID nodeID revision s = (case ctx of Some e \<Rightarrow> (Inl e, s) | None \<Rightarrow>
     (case lookup2 (msMembers s) networkID nodeID of
        None \<Rightarrow> (Inl ErrNotFound, s)
      | Some current \<Rightarrow>
          if revision \<noteq> mbRevision current then (Inl ErrConflict, s)
          else (Inr (), s\<lparr>msMembers := delete2 networkID nodeID (msMembers s),
                         msMetadata := delete2 networkID nodeID (msMetadata s)\<rparr>)))"

definition memUpsertAgentMetadata :: "Context \<Rightarrow> AgentMetadata \<Rightarrow> MemStore \<Rightarrow> unit result \<times> MemStore" where
  "memUpsertAgentMetadata ctx md s = (case ctx of Some e \<Rightarrow> (Inl e, s) | None \<Rightarrow>
     (case AgentMetadata_Validate md of Inl e \<Rightarrow> (Inl e, s) | Inr _ \<Rightarrow>
      (case lookup2 (msMembers s) (agNetworkID md) (agNodeID md) of
         None \<Rightarrow> (Inl ErrNotFound, s)
       | Some _ \<Rightarrow> (Inr (), s\<lparr>msMetadata := update2 (agNetworkID md) (agNodeID md) md (msMetadata s)\<rparr>))))"

definition memGetAgentMetadata :: "Context \<Rightarrow> NetworkID \<Rightarrow> NodeID \<Rightarrow> MemStore \<Rightarrow> AgentMetadata result" where
  "memGetAgentMetadata ctx networkID nodeID s = (case ctx of Some e \<Rightarrow> Inl e | None \<Rightarrow>
     (case lookup2 (msMetadata s) networkID nodeID of None \<Rightarrow> Inl ErrNotFound | Some md \<Rightarrow> Inr md))"

text \<open>\<^verbatim>\<open>*memory.Store\<close> as an implementation of \<^verbatim>\<open>store.Store\<close>.\<close>

definition memoryStore :: "MemStore Store" where
  "memoryStore =
     \<lparr> stPing = memPing, stCreateNetwork = memCreateNetwork, stGetNetwork = memGetNetwork,
       stListNetworks = memListNetworks, stSaveNetwork = memSaveNetwork,
       stDeleteNetwork = memDeleteNetwork, stCreateMember = memCreateMember,
       stGetMember = memGetMember, stListMembers = memListMembers, stSaveMember = memSaveMember,
       stDeleteMember = memDeleteMember, stUpsertAgentMetadata = memUpsertAgentMetadata,
       stGetAgentMetadata = memGetAgentMetadata \<rparr>"

section \<open>The contract holds\<close>

definition memAbs :: "MemStore \<Rightarrow> AStore" where
  "memAbs s = \<lparr> asNetworks = fmlookup (msNetworks s),
                asMembers = (\<lambda>(i, j). lookup2 (msMembers s) i j),
                asMetadata = (\<lambda>(i, j). lookup2 (msMetadata s) i j) \<rparr>"

definition memInv :: "MemStore \<Rightarrow> bool" where
  "memInv s = wfAStore (memAbs s)"

lemma lookup2_update2 [simp]:
  "lookup2 (update2 a b v m) c d = (if c = a \<and> d = b then Some v else lookup2 m c d)"
  by (auto simp: lookup2_def update2_def split: option.splits)

lemma lookup2_delete2 [simp]:
  "lookup2 (delete2 a b m) c d = (if c = a \<and> d = b then None else lookup2 m c d)"
  by (auto simp: lookup2_def delete2_def split: option.splits)

lemma lookup2_fmdrop [simp]: "lookup2 (fmdrop a m) c d = (if c = a then None else lookup2 m c d)"
  by (auto simp: lookup2_def)

lemma memoryStore_sel [simp]:
  "stGetNetwork memoryStore = memGetNetwork" "stGetMember memoryStore = memGetMember"
  "stListNetworks memoryStore = memListNetworks" "stListMembers memoryStore = memListMembers"
  "stGetAgentMetadata memoryStore = memGetAgentMetadata" "stCreateNetwork memoryStore = memCreateNetwork"
  "stSaveNetwork memoryStore = memSaveNetwork" "stDeleteNetwork memoryStore = memDeleteNetwork"
  "stCreateMember memoryStore = memCreateMember" "stSaveMember memoryStore = memSaveMember"
  "stDeleteMember memoryStore = memDeleteMember" "stPing memoryStore = memPing"
  "stUpsertAgentMetadata memoryStore = memUpsertAgentMetadata"
  by (simp_all add: memoryStore_def)

lemma memAbs_sel [simp]:
  "asNetworks (memAbs s) = fmlookup (msNetworks s)"
  "asMembers (memAbs s) (i, j) = lookup2 (msMembers s) i j"
  "asMetadata (memAbs s) (i, j) = lookup2 (msMetadata s) i j"
  by (simp_all add: memAbs_def)

lemma memAbs_eqI:
  assumes "fmlookup (msNetworks s) = asNetworks a"
    and "\<And>i j. lookup2 (msMembers s) i j = asMembers a (i, j)"
    and "\<And>i j. lookup2 (msMetadata s) i j = asMetadata a (i, j)"
  shows "a = memAbs s"
  using assms by (auto simp: memAbs_def intro!: AStore.equality)

lemma lookup2_fresh: "fmlookup m i = None \<Longrightarrow> lookup2 (fmupd i fmempty m) a b = lookup2 m a b"
  by (auto simp: lookup2_def)

lemma memCreateMember_abs:
  "aCreateMember m (memAbs s) = map_prod id memAbs (memCreateMember None m s)"
proof (cases "Member_Validate m")
  case (Inr u)
  then show ?thesis
    by (auto simp: aCreateMember_def memCreateMember_def Let_def lookup2_fresh
        intro!: memAbs_eqI split: option.splits)
qed (simp add: aCreateMember_def memCreateMember_def)

lemma memSaveMember_abs: "aSaveMember m (memAbs s) = map_prod id memAbs (memSaveMember None m s)"
  by (cases "Member_Validate m")
    (auto simp: aSaveMember_def memSaveMember_def intro!: memAbs_eqI split: option.splits)

lemma memCreateNetwork_abs:
  "aCreateNetwork n (memAbs s) = map_prod id memAbs (memCreateNetwork None n s)"
  by (cases "Network_Validate n")
    (auto simp: aCreateNetwork_def memCreateNetwork_def intro!: memAbs_eqI split: option.splits)

lemma memSaveNetwork_abs: "aSaveNetwork n (memAbs s) = map_prod id memAbs (memSaveNetwork None n s)"
  by (cases "Network_Validate n")
    (auto simp: aSaveNetwork_def memSaveNetwork_def intro!: memAbs_eqI split: option.splits)

lemma memUpsertAgentMetadata_abs:
  "aUpsertAgentMetadata md (memAbs s) = map_prod id memAbs (memUpsertAgentMetadata None md s)"
  by (cases "AgentMetadata_Validate md")
    (auto simp: aUpsertAgentMetadata_def memUpsertAgentMetadata_def intro!: memAbs_eqI split: option.splits)

lemma memDeleteNetwork_abs:
  "aDeleteNetwork i r (memAbs s) = map_prod id memAbs (memDeleteNetwork None i r s)"
  by (auto simp: aDeleteNetwork_def memDeleteNetwork_def intro!: memAbs_eqI split: option.splits)

lemma memDeleteMember_abs:
  "aDeleteMember i j r (memAbs s) = map_prod id memAbs (memDeleteMember None i j r s)"
  by (auto simp: aDeleteMember_def memDeleteMember_def intro!: memAbs_eqI split: option.splits)

lemma memCall_abs: "aCall c (memAbs s) = map_prod id memAbs (storeCall memoryStore None c s)"
  by (cases c) (simp_all add: memCreateMember_abs memSaveMember_abs memCreateNetwork_abs
      memSaveNetwork_abs memUpsertAgentMetadata_abs memDeleteNetwork_abs memDeleteMember_abs)

interpretation mem: persistent_store memoryStore memInv memAbs
proof unfold_locales
  fix s assume inv: "memInv s"
  then show "wfAStore (memAbs s)" by (simp add: memInv_def)
  note wf = wfAStoreD [OF this]
  show "stGetNetwork memoryStore None i s = found (asNetworks (memAbs s) i)" for i
    by (simp add: memGetNetwork_def split: option.split)
  show "stGetMember memoryStore None i j s = found (asMembers (memAbs s) (i, j))" for i j
    by (simp add: memGetMember_def split: option.split)
  show "stGetAgentMetadata memoryStore None i j s = found (asMetadata (memAbs s) (i, j))" for i j
    by (simp add: memGetAgentMetadata_def split: option.split)
  show "\<exists>ns. stListNetworks memoryStore None s = Inr ns \<and> sorted (map nwID ns)
          \<and> distinct (map nwID ns) \<and> set ns = ran (asNetworks (memAbs s))"
    using sorted_values [of "msNetworks s" nwID] wf(1) by (simp add: memListNetworks_def)
  show "\<exists>ms. stListMembers memoryStore None i s = Inr ms \<and> sorted (map mbNodeID ms)
          \<and> distinct (map mbNodeID ms) \<and> set ms = {m. \<exists>j. asMembers (memAbs s) (i, j) = Some m}"
    if "asNetworks (memAbs s) i \<noteq> None" for i
  proof -
    define inner where "inner = (case fmlookup (msMembers s) i of None \<Rightarrow> fmempty | Some x \<Rightarrow> x)"
    have look: "fmlookup inner j = lookup2 (msMembers s) i j" for j
      by (simp add: inner_def lookup2_def split: option.split)
    have "mbNodeID m = j" if "fmlookup inner j = Some m" for j m
      using wf(2) [of i j m] that by (simp add: look)
    from sorted_values [of inner mbNodeID, OF this] that show ?thesis
      by (auto simp: memListMembers_def inner_def [symmetric] ran_def look)
  qed
  show "stListMembers memoryStore None i s = Inl ErrNotFound" if "asNetworks (memAbs s) i = None" for i
    using that by (simp add: memListMembers_def)
  show "memInv s' \<and> aCall c (memAbs s) = (r, memAbs s')" if "storeCall memoryStore None c s = (r, s')" for c r s'
    using that inv aCall_wf [of "memAbs s" c] memCall_abs [of c s] by (simp add: memInv_def)
qed

section \<open>Properties of the in-memory store\<close>

definition exNetworkID :: NetworkID where
  "exNetworkID = ''8056c2e21c000001''"

definition exNodeID :: NodeID where
  "exNodeID = ''abcdef1234''"

definition exNetwork :: Network where
  "exNetwork = NewNetwork exNetworkID 1"

definition exMember :: Member where
  "exMember = NewMember exNetworkID exNodeID 1"

definition exStore :: MemStore where
  "exStore = \<lparr> msNetworks = fmupd exNetworkID (exNetwork\<lparr>nwRevision := 1\<rparr>) fmempty,
     msMembers = fmupd exNetworkID (fmupd exNodeID (exMember\<lparr>mbRevision := 1\<rparr>) fmempty) fmempty,
     msMetadata = fmempty \<rparr>"

lemma ex_ids [simp]: "canonicalHex 16 exNetworkID" "canonicalHex 10 exNodeID"
  by (simp_all add: exNetworkID_def exNodeID_def canonicalHex_def lowerhex_def)

lemma ex_wf [simp]: "wfNetwork exNetwork" "wfMember exMember"
  "nwID exNetwork = exNetworkID" "mbNetworkID exMember = exNetworkID" "mbNodeID exMember = exNodeID"
  by (simp_all add: exNetwork_def exMember_def wfNetwork_NewNetwork wfMember_NewMember)
    (simp_all add: NewNetwork_def NewMember_def)

lemma exStore_inv: "memInv exStore"
  by (auto simp: memInv_def wfAStore_def exStore_def lookup2_def)

lemma exStore_member: "memGetMember None exNetworkID exNodeID exStore = Inr (exMember\<lparr>mbRevision := 1\<rparr>)"
  by (simp add: memGetMember_def exStore_def lookup2_def)

text \<open>
  C13. The in-memory store implements the documented store: whatever mutating call is made on a store
  that satisfies its integrity constraints (documents valid and filed under their own identifiers,
  members only in existing networks, metadata only for existing members), the result is that of the
  abstract store and the constraints hold afterwards.
\<close>

theorem memory_store_refines:
  assumes "memInv s" "storeCall memoryStore None c s = (r, s')"
  shows "memInv s' \<and> aCall c (memAbs s) = (r, memAbs s')"
  using assms by (rule mem.call_refines)

theorem memory_store_refines_witness:
  "\<exists>s'. storeCall memoryStore None (CallDeleteNetwork exNetworkID 1) exStore = (Inr (), s') \<and> memInv s'"
proof -
  have "storeCall memoryStore None (CallDeleteNetwork exNetworkID 1) exStore = (Inr (), memNew)"
    by (simp add: memDeleteNetwork_def exStore_def memNew_def fmdrop_fmupd)
  with memory_store_refines [OF exStore_inv this] show ?thesis by blast
qed

text \<open>
  Optimistic concurrency: a client that read a member, while any number (below \<open>2 ^ 64\<close>) of other
  calls that do not delete it run, and then saves an edited copy, succeeds only if the member is
  still the one it read; the save then stores the copy with the next revision.
\<close>

theorem memory_no_lost_update:
  assumes "memInv s" "memGetMember None i j s = Inr m"
    and "\<forall>c \<in> set cs. \<not> deletesMember i j c" "length cs < 2 ^ 64"
    and "mbNetworkID m' = i" "mbNodeID m' = j" "mbRevision m' = mbRevision m"
    and "memSaveMember None m' (storeRun memoryStore cs s) = (Inr (), s')"
  shows "memGetMember None i j (storeRun memoryStore cs s) = Inr m
    \<and> memGetMember None i j s' = Inr (m'\<lparr>mbRevision := mbRevision m + 1\<rparr>)"
  using mem.no_lost_update [of s i j m cs m' s'] assms by simp

theorem memory_no_lost_update_witness:
  "\<exists>s'. memSaveMember None (exMember\<lparr>mbRevision := 1\<rparr>) exStore = (Inr (), s')
     \<and> memGetMember None exNetworkID exNodeID s' = Inr (exMember\<lparr>mbRevision := 1 + 1\<rparr>)"
proof -
  obtain s' where "memSaveMember None (exMember\<lparr>mbRevision := 1\<rparr>) (storeRun memoryStore [] exStore) = (Inr (), s')"
    by (simp add: memSaveMember_def exStore_def lookup2_def)
  with memory_no_lost_update [OF exStore_inv exStore_member, of "[]" "exMember\<lparr>mbRevision := 1\<rparr>" s']
  show ?thesis by simp
qed

text \<open>
  The revision check does not span deletion: revisions restart at 1, so after a member at revision
  1 is deleted and registered again, a save prepared from the old document is accepted.
\<close>

theorem memory_revision_restarts:
  assumes "memInv s" "memGetMember None i j s = Inr m" "mbRevision m = 1"
    and "wfMember m0" "mbNetworkID m0 = i" "mbNodeID m0 = j"
    and "wfMember m'" "mbNetworkID m' = i" "mbNodeID m' = j" "mbRevision m' = 1"
  shows "\<exists>s'. memSaveMember None m'
      (storeRun memoryStore [CallDeleteMember i j 1, CallCreateMember m0] s) = (Inr (), s')"
proof -
  let ?t = "storeRun memoryStore [CallDeleteMember i j 1, CallCreateMember m0] s"
  have m: "asMembers (memAbs s) (i, j) = Some m" using assms(1,2) mem.get_member by simp
  with assms(1) have "asNetworks (memAbs s) i \<noteq> None" by (auto simp: memInv_def dest: wfAStoreD(2))
  moreover have "Member_Validate m0 = Inr ()" "Member_Validate m' = Inr ()"
    using assms by (simp_all add: Member_Validate_iff)
  ultimately have "fst (aSaveMember m' (aRun [CallDeleteMember i j 1, CallCreateMember m0] (memAbs s))) = Inr ()"
    using m assms by (simp add: astore_defs)
  moreover have "aSaveMember m' (memAbs ?t) = map_prod id memAbs (memSaveMember None m' ?t)"
    by (rule memSaveMember_abs)
  ultimately have "fst (memSaveMember None m' ?t) = Inr ()"
    using mem.run_abs [OF assms(1), of "[CallDeleteMember i j 1, CallCreateMember m0]"] by simp
  then show ?thesis by (metis prod.collapse)
qed

theorem memory_revision_restarts_witness:
  "\<exists>s'. memSaveMember None (exMember\<lparr>mbAuthorized := True, mbRevision := 1\<rparr>)
     (storeRun memoryStore [CallDeleteMember exNetworkID exNodeID 1, CallCreateMember exMember] exStore)
     = (Inr (), s')"
proof -
  have "wfMember (exMember\<lparr>mbAuthorized := True, mbRevision := 1\<rparr>)"
    using ex_wf(2) by (simp add: wfMember_def)
  with memory_revision_restarts [OF exStore_inv exStore_member, of exMember
      "exMember\<lparr>mbAuthorized := True, mbRevision := 1\<rparr>"]
  show ?thesis by simp
qed

end
