(* ===== verification/ServiceSpec.thy ===== *)
theory ServiceSpec
  imports Service MemoryStore
begin

text \<open>
  The controller service over the abstract store. Every operation of the service over a store that
  meets the contract \<open>persistent_store\<close> gives the same result as the operation over the abstract
  store and leaves corresponding states; the functional and safety properties are proved on the
  abstract store and hold for every store, in particular for the in-memory one.
\<close>

section \<open>The abstract store as a store\<close>

text \<open>The abstract store lists networks and members in the order of their identifiers.\<close>

definition aListMembers :: "NetworkID \<Rightarrow> AStore \<Rightarrow> Member list result" where
  "aListMembers i a = (if asNetworks a i = None then Inl ErrNotFound
     else Inr (map (\<lambda>j. the (asMembers a (i, j))) (sorted_list_of_set {j. asMembers a (i, j) \<noteq> None})))"

definition aListNetworks :: "AStore \<Rightarrow> Network list" where
  "aListNetworks a = map (\<lambda>i. the (asNetworks a i)) (sorted_list_of_set (dom (asNetworks a)))"

definition absStore :: "AStore Store" where
  "absStore = \<lparr> stPing = (\<lambda>ctx a. Inr ()), stCreateNetwork = (\<lambda>ctx. aCreateNetwork),
     stGetNetwork = (\<lambda>ctx i a. found (asNetworks a i)), stListNetworks = (\<lambda>ctx a. Inr (aListNetworks a)),
     stSaveNetwork = (\<lambda>ctx. aSaveNetwork), stDeleteNetwork = (\<lambda>ctx. aDeleteNetwork),
     stCreateMember = (\<lambda>ctx. aCreateMember), stGetMember = (\<lambda>ctx i j a. found (asMembers a (i, j))),
     stListMembers = (\<lambda>ctx. aListMembers), stSaveMember = (\<lambda>ctx. aSaveMember),
     stDeleteMember = (\<lambda>ctx. aDeleteMember), stUpsertAgentMetadata = (\<lambda>ctx. aUpsertAgentMetadata),
     stGetAgentMetadata = (\<lambda>ctx i j a. found (asMetadata a (i, j))) \<rparr>"

definition absService :: "'s Service \<Rightarrow> AStore Service" where
  "absService sv = \<lparr> svControllerID = svControllerID sv, svStore = absStore, svNow = svNow sv,
     svRandom = svRandom sv, svOnDeauthorize = svOnDeauthorize sv \<rparr>"

definition absWorld :: "('s \<Rightarrow> AStore) \<Rightarrow> 's World \<Rightarrow> AStore World" where
  "absWorld f w = \<lparr> wStore = f (wStore w), wClock = wClock w, wRandom = wRandom w, wDeauthorized = wDeauthorized w \<rparr>"

lemma absService_simps [simp]:
  "svControllerID (absService sv) = svControllerID sv" "svStore (absService sv) = absStore"
  "svNow (absService sv) = svNow sv" "svRandom (absService sv) = svRandom sv"
  "svOnDeauthorize (absService sv) = svOnDeauthorize sv"
  by (simp_all add: absService_def)

lemma absWorld_simps [simp]:
  "wStore (absWorld f w) = f (wStore w)" "wClock (absWorld f w) = wClock w" "wRandom (absWorld f w) = wRandom w"
  "wDeauthorized (absWorld f w) = wDeauthorized w"
  by (simp_all add: absWorld_def)

lemma sorted_list_unique:
  assumes "sorted (map key xs)" "distinct (map key xs)" "inj_on key (set xs)" "\<And>x. x \<in> set xs \<Longrightarrow> f (key x) = x"
  shows "xs = map f (sorted_list_of_set (key ` set xs))"
proof -
  have "sorted_list_of_set (key ` set xs) = map key xs"
    using assms(1,2) by (metis image_set sorted_list_of_set.idem_if_sorted_distinct)
  then have "map f (sorted_list_of_set (key ` set xs)) = map (f \<circ> key) xs" by simp
  also have "\<dots> = xs" using assms(4) by (simp add: map_idI)
  finally show ?thesis ..
qed

section \<open>Simulation\<close>

definition sim :: "('s \<Rightarrow> bool) \<Rightarrow> ('s \<Rightarrow> AStore) \<Rightarrow> ('s, 'a) operation \<Rightarrow> (AStore, 'a) operation \<Rightarrow> bool" where
  "sim sinv sabs m m' = (\<forall>w r w'. sinv (wStore w) \<longrightarrow> m w = (r, w') \<longrightarrow>
     sinv (wStore w') \<and> m' (absWorld sabs w) = (r, absWorld sabs w'))"

lemma sim_sret: "sim sinv sabs (sret x) (sret x)"
  by (simp add: sim_def sret_def)

lemma sim_sfail: "sim sinv sabs (sfail e) (sfail e)"
  by (simp add: sim_def sfail_def)

lemma sim_slift: "sim sinv sabs (slift r) (slift r)"
  by (simp add: sim_def slift_def)

lemma sim_sbind:
  assumes "sim sinv sabs m m'" "\<And>x. sim sinv sabs (f x) (f' x)"
  shows "sim sinv sabs (sbind m f) (sbind m' f')"
  unfolding sim_def
proof (intro allI impI)
  fix w r w' assume w: "sinv (wStore w)" "sbind m f w = (r, w')"
  obtain r1 w1 where m: "m w = (r1, w1)" by force
  with assms(1) w(1) have m': "sinv (wStore w1)" "m' (absWorld sabs w) = (r1, absWorld sabs w1)"
    unfolding sim_def by blast+
  show "sinv (wStore w') \<and> sbind m' f' (absWorld sabs w) = (r, absWorld sabs w')"
  proof (cases r1)
    case (Inl e)
    then show ?thesis using w m m' by (auto simp: sbind_def)
  next
    case (Inr x)
    then have "f x w1 = (r, w')" using w m by (simp add: sbind_def)
    with assms(2) m'(1) have "sinv (wStore w')" "f' x (absWorld sabs w1) = (r, absWorld sabs w')"
      unfolding sim_def by blast+
    then show ?thesis using Inr m' by (simp add: sbind_def)
  qed
qed

lemma sim_scatch:
  assumes "sim sinv sabs m m'" "\<And>x. sim sinv sabs (f x) (f' x)"
  shows "sim sinv sabs (scatch m f) (scatch m' f')"
  unfolding sim_def
proof (intro allI impI)
  fix w r w' assume w: "sinv (wStore w)" "scatch m f w = (r, w')"
  obtain r1 w1 where m: "m w = (r1, w1)" by force
  with assms(1) w(1) have m': "sinv (wStore w1)" "m' (absWorld sabs w) = (r1, absWorld sabs w1)"
    unfolding sim_def by blast+
  moreover have "f r1 w1 = (r, w')" using w m by (simp add: scatch_def)
  ultimately have "sinv (wStore w')" "f' r1 (absWorld sabs w1) = (r, absWorld sabs w')"
    using assms(2) unfolding sim_def by blast+
  then show "sinv (wStore w') \<and> scatch m' f' (absWorld sabs w) = (r, absWorld sabs w')"
    using m' by (simp add: scatch_def)
qed

lemma sim_swrap: "sim sinv sabs m m' \<Longrightarrow> sim sinv sabs (swrap s m) (swrap s m')"
  by (fastforce simp: sim_def swrap_def split: prod.splits)

lemma sim_snow: "sim sinv sabs (snow sv) (snow (absService sv))"
  by (auto simp: sim_def snow_def absWorld_def)

lemma sim_srandom: "sim sinv sabs (srandom sv) (srandom (absService sv))"
  by (auto simp: sim_def srandom_def absWorld_def)

lemma sim_snotify: "sim sinv sabs (snotify sv i j t) (snotify (absService sv) i j t)"
  by (auto simp: sim_def snotify_def absWorld_def)

lemma sim_sread: "(\<And>s. sinv s \<Longrightarrow> f s = g (sabs s)) \<Longrightarrow> sim sinv sabs (sread f) (sread g)"
  by (auto simp: sim_def sread_def)

lemma sim_swrite:
  assumes "\<And>s r s'. sinv s \<Longrightarrow> f s = (r, s') \<Longrightarrow> sinv s' \<and> g (sabs s) = (r, sabs s')"
  shows "sim sinv sabs (swrite f) (swrite g)"
  using assms by (fastforce simp: sim_def swrite_def absWorld_def split: prod.splits)

lemmas sim_intros = sim_sret sim_sfail sim_slift sim_sbind sim_scatch sim_swrap sim_snow sim_srandom sim_snotify

context persistent_store
begin

lemma list_members_abs:
  assumes "sinv s"
  shows "stListMembers S None i s = aListMembers i (sabs s)"
proof (cases "asNetworks (sabs s) i")
  case None
  then show ?thesis using list_members_missing [OF assms] by (simp add: aListMembers_def)
next
  case (Some n)
  then obtain ms where ms: "stListMembers S None i s = Inr ms" "sorted (map mbNodeID ms)" "distinct (map mbNodeID ms)"
      "set ms = {m. \<exists>j. asMembers (sabs s) (i, j) = Some m}"
    using list_members [OF assms, of i] by auto
  have k: "mbNodeID m = j" if "asMembers (sabs s) (i, j) = Some m" for j m
    using wfAStoreD(2) [OF integrity [OF assms] that] by simp
  have "mbNodeID ` set ms = {j. asMembers (sabs s) (i, j) \<noteq> None}"
    using k by (force simp: ms(4))
  moreover have "the (asMembers (sabs s) (i, mbNodeID m)) = m" if "m \<in> set ms" for m
    using that k by (auto simp: ms(4))
  ultimately have "ms = map (\<lambda>j. the (asMembers (sabs s) (i, j))) (sorted_list_of_set {j. asMembers (sabs s) (i, j) \<noteq> None})"
    using sorted_list_unique [OF ms(2,3), of "\<lambda>j. the (asMembers (sabs s) (i, j))"] ms(3) by (simp add: distinct_map)
  then show ?thesis using ms(1) Some by (simp add: aListMembers_def)
qed

lemma list_networks_abs:
  assumes "sinv s"
  shows "stListNetworks S None s = Inr (aListNetworks (sabs s))"
proof -
  obtain ns where ns: "stListNetworks S None s = Inr ns" "sorted (map nwID ns)" "distinct (map nwID ns)"
      "set ns = ran (asNetworks (sabs s))"
    using list_networks [OF assms] by auto
  have k: "nwID n = i" if "asNetworks (sabs s) i = Some n" for i n
    using wfAStoreD(1) [OF integrity [OF assms] that] by simp
  have "nwID ` set ns = dom (asNetworks (sabs s))"
    using k by (force simp: ns(4) ran_def)
  moreover have "the (asNetworks (sabs s) (nwID n)) = n" if "n \<in> set ns" for n
    using that k by (auto simp: ns(4) ran_def)
  ultimately show ?thesis
    using sorted_list_unique [OF ns(2,3), of "\<lambda>i. the (asNetworks (sabs s) i)"] ns(1,3)
    by (simp add: distinct_map aListNetworks_def)
qed

text \<open>The store calls of the service.\<close>

lemma sim_reads:
  "sim sinv sabs (sread (stGetNetwork S None i)) (sread (stGetNetwork absStore None i))"
  "sim sinv sabs (sread (stGetMember S None i j)) (sread (stGetMember absStore None i j))"
  "sim sinv sabs (sread (stGetAgentMetadata S None i j)) (sread (stGetAgentMetadata absStore None i j))"
  "sim sinv sabs (sread (stListMembers S None i)) (sread (stListMembers absStore None i))"
  "sim sinv sabs (sread (stListNetworks S None)) (sread (stListNetworks absStore None))"
  by (rule sim_sread; simp add: get_network get_member get_metadata list_members_abs list_networks_abs absStore_def)+

lemma sim_writes:
  "sim sinv sabs (swrite (stCreateNetwork S None n)) (swrite (stCreateNetwork absStore None n))"
  "sim sinv sabs (swrite (stSaveNetwork S None n)) (swrite (stSaveNetwork absStore None n))"
  "sim sinv sabs (swrite (stDeleteNetwork S None i v)) (swrite (stDeleteNetwork absStore None i v))"
  "sim sinv sabs (swrite (stCreateMember S None m)) (swrite (stCreateMember absStore None m))"
  "sim sinv sabs (swrite (stSaveMember S None m)) (swrite (stSaveMember absStore None m))"
  "sim sinv sabs (swrite (stDeleteMember S None i j v)) (swrite (stDeleteMember absStore None i j v))"
  "sim sinv sabs (swrite (stUpsertAgentMetadata S None md)) (swrite (stUpsertAgentMetadata absStore None md))"
  by (rule sim_swrite; simp add: absStore_def; erule (1) calls)+

lemmas sim_store = sim_intros sim_reads sim_writes

lemma sim_bumpNetworkRevision:
  "sim sinv sabs (bumpNetworkRevision (sv\<lparr>svStore := S\<rparr>) None i) (bumpNetworkRevision (absService (sv\<lparr>svStore := S\<rparr>)) None i)"
  unfolding bumpNetworkRevision_def by (auto intro!: sim_store)

lemma owned_abs [simp]: "validateOwnedNetwork (absService sv) i = validateOwnedNetwork sv i"
  by (simp add: validateOwnedNetwork_def)

lemma sim_CreateNetwork:
  "sim sinv sabs (CreateNetwork (sv\<lparr>svStore := S\<rparr>) None n name) (CreateNetwork (absService (sv\<lparr>svStore := S\<rparr>)) None n name)"
  unfolding CreateNetwork_def by (auto simp: Let_def intro!: sim_store)

lemma sim_CreateNetworkWithUpdate:
  "sim sinv sabs (CreateNetworkWithUpdate (sv\<lparr>svStore := S\<rparr>) None n u) (CreateNetworkWithUpdate (absService (sv\<lparr>svStore := S\<rparr>)) None n u)"
  unfolding CreateNetworkWithUpdate_def by (auto simp: Let_def intro!: sim_store)

lemma sim_createRandom:
  assumes "\<And>n. sim sinv sabs (f n) (g n)"
  shows "sim sinv sabs (createRandom sv f k) (createRandom (absService sv) g k)"
proof (induction k)
  case (Suc k)
  then show ?case using assms by (auto simp: Let_def intro!: sim_store split: sum.split)
qed (simp add: sim_sfail)

lemma sim_RegisterMember:
  "sim sinv sabs (RegisterMember (sv\<lparr>svStore := S\<rparr>) None i j) (RegisterMember (absService (sv\<lparr>svStore := S\<rparr>)) None i j)"
  unfolding RegisterMember_def by (auto intro!: sim_store split: sum.split)

lemma sim_SetMemberAuthorization:
  "sim sinv sabs (SetMemberAuthorization (sv\<lparr>svStore := S\<rparr>) None i j b v) (SetMemberAuthorization (absService (sv\<lparr>svStore := S\<rparr>)) None i j b v)"
  unfolding SetMemberAuthorization_def Let_def by (auto intro!: sim_store sim_bumpNetworkRevision)

lemma sim_UpdateNetwork:
  "sim sinv sabs (UpdateNetwork (sv\<lparr>svStore := S\<rparr>) None i u v) (UpdateNetwork (absService (sv\<lparr>svStore := S\<rparr>)) None i u v)"
  unfolding UpdateNetwork_def Let_def by (auto intro!: sim_store)

lemma sim_svcDeleteNetwork:
  "sim sinv sabs (svcDeleteNetwork (sv\<lparr>svStore := S\<rparr>) None i) (svcDeleteNetwork (absService (sv\<lparr>svStore := S\<rparr>)) None i)"
  unfolding svcDeleteNetwork_def by (auto intro!: sim_store)

lemma sim_svcDeleteMember:
  "sim sinv sabs (svcDeleteMember (sv\<lparr>svStore := S\<rparr>) None i j) (svcDeleteMember (absService (sv\<lparr>svStore := S\<rparr>)) None i j)"
  unfolding svcDeleteMember_def by (auto intro!: sim_store sim_bumpNetworkRevision)

lemma sim_svcListMembers:
  "sim sinv sabs (svcListMembers (sv\<lparr>svStore := S\<rparr>) None i) (svcListMembers (absService (sv\<lparr>svStore := S\<rparr>)) None i)"
  unfolding svcListMembers_def by (auto intro!: sim_store)

lemma sim_UpdateMember:
  "sim sinv sabs (UpdateMember (sv\<lparr>svStore := S\<rparr>) None i j u v) (UpdateMember (absService (sv\<lparr>svStore := S\<rparr>)) None i j u v)"
  unfolding UpdateMember_def Let_def by (auto intro!: sim_store sim_bumpNetworkRevision)

lemma sim_ensureAutomaticAssignments:
  "sim sinv sabs (ensureAutomaticAssignments (sv\<lparr>svStore := S\<rparr>) None n m) (ensureAutomaticAssignments (absService (sv\<lparr>svStore := S\<rparr>)) None n m)"
  unfolding ensureAutomaticAssignments_def Let_def by (auto intro!: sim_store)

end

section \<open>Calls of the service\<close>

datatype ServiceCall =
    DoCreateNetwork uint32 string | DoCreateNetworkWithUpdate uint32 NetworkUpdate
  | DoCreateRandomNetwork string | DoCreateRandomNetworkWithUpdate NetworkUpdate
  | DoRegisterMember NetworkID NodeID | DoSetMemberAuthorization NetworkID NodeID bool uint64
  | DoUpdateNetwork NetworkID NetworkUpdate uint64 | DoDeleteNetwork NetworkID
  | DoUpdateMember NetworkID NodeID MemberUpdate uint64 | DoDeleteMember NetworkID NodeID

definition sdone :: "('s, 'a) operation \<Rightarrow> ('s, unit) operation" where
  "sdone m = sbind m (\<lambda>_. sret ())"

fun serviceCall :: "'s Service \<Rightarrow> ServiceCall \<Rightarrow> ('s, unit) operation" where
  "serviceCall sv (DoCreateNetwork n name) = sdone (CreateNetwork sv None n name)"
| "serviceCall sv (DoCreateNetworkWithUpdate n u) = sdone (CreateNetworkWithUpdate sv None n u)"
| "serviceCall sv (DoCreateRandomNetwork name) = sdone (CreateRandomNetwork sv None name)"
| "serviceCall sv (DoCreateRandomNetworkWithUpdate u) = sdone (CreateRandomNetworkWithUpdate sv None u)"
| "serviceCall sv (DoRegisterMember i j) = sdone (RegisterMember sv None i j)"
| "serviceCall sv (DoSetMemberAuthorization i j b v) = sdone (SetMemberAuthorization sv None i j b v)"
| "serviceCall sv (DoUpdateNetwork i u v) = sdone (UpdateNetwork sv None i u v)"
| "serviceCall sv (DoDeleteNetwork i) = svcDeleteNetwork sv None i"
| "serviceCall sv (DoUpdateMember i j u v) = sdone (UpdateMember sv None i j u v)"
| "serviceCall sv (DoDeleteMember i j) = svcDeleteMember sv None i j"

fun serviceRun :: "'s Service \<Rightarrow> ServiceCall list \<Rightarrow> 's World \<Rightarrow> unit result list \<times> 's World" where
  "serviceRun sv [] w = ([], w)"
| "serviceRun sv (c # cs) w =
     (let (r, w1) = serviceCall sv c w; (rs, w2) = serviceRun sv cs w1 in (r # rs, w2))"

context persistent_store
begin

lemma sim_sdone: "sim sinv sabs m m' \<Longrightarrow> sim sinv sabs (sdone m) (sdone m')"
  unfolding sdone_def by (intro sim_intros)

lemma sim_serviceCall:
  "sim sinv sabs (serviceCall (sv\<lparr>svStore := S\<rparr>) c) (serviceCall (absService (sv\<lparr>svStore := S\<rparr>)) c)"
  by (cases c)
    (simp_all add: CreateRandomNetwork_def CreateRandomNetworkWithUpdate_def sim_sdone sim_createRandom sim_CreateNetwork
      sim_CreateNetworkWithUpdate sim_RegisterMember sim_SetMemberAuthorization sim_UpdateNetwork sim_svcDeleteNetwork
      sim_UpdateMember sim_svcDeleteMember)

lemma sim_serviceRun:
  "sinv (wStore w) \<Longrightarrow> serviceRun (sv\<lparr>svStore := S\<rparr>) cs w = (rs, w') \<Longrightarrow>
     sinv (wStore w') \<and> serviceRun (absService (sv\<lparr>svStore := S\<rparr>)) cs (absWorld sabs w) = (rs, absWorld sabs w')"
proof (induction cs arbitrary: w rs)
  case (Cons c cs)
  obtain r w1 where c: "serviceCall (sv\<lparr>svStore := S\<rparr>) c w = (r, w1)" by force
  with sim_serviceCall [of sv c] Cons.prems(1) have s: "sinv (wStore w1)"
      "serviceCall (absService (sv\<lparr>svStore := S\<rparr>)) c (absWorld sabs w) = (r, absWorld sabs w1)"
    unfolding sim_def by blast+
  then show ?case using Cons c by (auto split: prod.splits)
qed simp

end

section \<open>The service over the abstract store\<close>

lemma absStore_simps [simp]:
  "stGetNetwork absStore ctx i a = found (asNetworks a i)"
  "stGetMember absStore ctx i j a = found (asMembers a (i, j))"
  "stListMembers absStore ctx i a = aListMembers i a"
  "stCreateNetwork absStore ctx n a = aCreateNetwork n a" "stSaveNetwork absStore ctx n a = aSaveNetwork n a"
  "stDeleteNetwork absStore ctx i v a = aDeleteNetwork i v a" "stCreateMember absStore ctx m a = aCreateMember m a"
  "stSaveMember absStore ctx m a = aSaveMember m a" "stDeleteMember absStore ctx i j v a = aDeleteMember i j v a"
  "stUpsertAgentMetadata absStore ctx md a = aUpsertAgentMetadata md a"
  by (simp_all add: absStore_def)

lemma run_sret: "sret x w = (Inr x, w)" by (simp add: sret_def)
lemma run_sfail: "sfail e w = (Inl e, w)" by (simp add: sfail_def)
lemma run_slift: "slift r w = (r, w)" by (simp add: slift_def)
lemma run_sread: "sread f w = (f (wStore w), w)" by (simp add: sread_def)
lemma run_swrite: "swrite f w = (case f (wStore w) of (r, s) \<Rightarrow> (r, w\<lparr>wStore := s\<rparr>))" by (simp add: swrite_def)
lemma run_scatch: "scatch m f w = (case m w of (r, w') \<Rightarrow> f r w')" by (simp add: scatch_def)
lemma run_swrap: "swrap msg m w = (case m w of (r, w') \<Rightarrow> (wrapErr msg r, w'))" by (simp add: swrap_def)
lemma run_snow: "sbind (snow sv) f w = f (svNow sv (wClock w)) (w\<lparr>wClock := Suc (wClock w)\<rparr>)"
  by (simp add: sbind_def snow_def)
lemma run_bind_slift: "sbind (slift r) f w = (case r of Inl e \<Rightarrow> (Inl e, w) | Inr x \<Rightarrow> f x w)"
  by (auto simp: sbind_def slift_def split: sum.splits)
lemma run_bind_sret: "sbind (sret x) f w = f x w"
  by (simp add: sbind_def sret_def)
lemma run_bind_sread: "sbind (sread g) f w = (case g (wStore w) of Inl e \<Rightarrow> (Inl e, w) | Inr x \<Rightarrow> f x w)"
  by (auto simp: sbind_def sread_def split: sum.splits)
lemma run_bind_swrite: "sbind (swrite g) f w = (case g (wStore w) of (r, s) \<Rightarrow>
     (case r of Inl e \<Rightarrow> (Inl e, w\<lparr>wStore := s\<rparr>) | Inr x \<Rightarrow> f x (w\<lparr>wStore := s\<rparr>)))"
  by (auto simp: sbind_def swrite_def split: sum.splits prod.splits)
lemma run_bind_swrap: "sbind (swrap msg m) f w = (case m w of (r, w') \<Rightarrow>
     (case r of Inl e \<Rightarrow> (Inl (Wrap msg e), w') | Inr x \<Rightarrow> f x w'))"
  by (auto simp: sbind_def swrap_def split: sum.splits prod.splits)
lemma run_bind_if: "sbind (if b then m else m') f w = (if b then sbind m f w else sbind m' f w)"
  by simp

lemmas run_simps = run_sret run_sfail run_slift run_sread run_swrite run_scatch run_swrap run_snow run_bind_slift
  run_bind_sret run_bind_sread run_bind_swrite run_bind_swrap run_bind_if

text \<open>What registration does.\<close>

lemma abs_RegisterMember:
  assumes "svStore sv = absStore" "RegisterMember sv None i j w = (r, w')"
  shows "(case r of
      Inl _ \<Rightarrow> wStore w' = wStore w
    | Inr m \<Rightarrow> asMembers (wStore w') (i, j) = Some m \<and>
        (case asMembers (wStore w) (i, j) of Some n \<Rightarrow> w' = w
         | None \<Rightarrow> m = (NewMember i j (svNow sv (wClock w)))\<lparr>mbRevision := 1\<rparr>
             \<and> wStore w' = (wStore w)\<lparr>asMembers := (asMembers (wStore w))((i, j) \<mapsto> m)\<rparr>))"
  using assms
  by (auto simp: RegisterMember_def run_simps aCreateMember_def NewMember_def split: sum.splits option.splits if_splits prod.splits)

lemma abs_RegisterMember_new:
  assumes "svStore sv = absStore" "RegisterMember sv None i j w = (r, w')"
    and "validateOwnedNetwork sv i = Inr ()" "NodeID_Validate j = Inr ()" "asMembers (wStore w) (i, j) = None"
  defines "m \<equiv> NewMember i j (svNow sv (wClock w))"
  shows "wDeauthorized w' = wDeauthorized w \<and> (if asNetworks (wStore w) i \<noteq> None \<and> wfMember m
    then r = Inr (m\<lparr>mbRevision := 1\<rparr>) \<and> wStore w' = (wStore w)\<lparr>asMembers := (asMembers (wStore w))((i, j) \<mapsto> m\<lparr>mbRevision := 1\<rparr>)\<rparr>
    else \<not> isOk r \<and> wStore w' = wStore w)"
proof -
  have k: "mbNetworkID m = i" "mbNodeID m = j" by (simp_all add: m_def NewMember_def)
  show ?thesis
    using assms(1-5) k
    by (cases "Member_Validate m") (auto simp: RegisterMember_def run_simps aCreateMember_def m_def [symmetric] Member_Validate_iff
        split: if_splits dest: Member_Validate_Inr)
qed

text \<open>Member \<open>(i, j)\<close> is stored as authorized.\<close>

definition authorizedIn :: "NetworkID \<Rightarrow> NodeID \<Rightarrow> AStore \<Rightarrow> bool" where
  "authorizedIn i j a = (\<exists>m. asMembers a (i, j) = Some m \<and> mbAuthorized m)"

text \<open>
  The reference effect of a revision bump at time \<open>t\<close>: none when the network is missing or was created
  after \<open>t\<close>; otherwise the network is stamped and its revision advances by one.
\<close>

definition bumpAt :: "NetworkID \<Rightarrow> time \<Rightarrow> AStore \<Rightarrow> AStore option" where
  "bumpAt i t a = (case asNetworks a i of None \<Rightarrow> None | Some n \<Rightarrow>
     if t \<noteq> 0 \<and> nwCreatedAt n \<le> t
     then Some (a\<lparr>asNetworks := (asNetworks a)(i \<mapsto> n\<lparr>nwUpdatedAt := t, nwRevision := nwRevision n + 1\<rparr>)\<rparr>) else None)"

text \<open>
  The reference effect of storing member \<open>m\<close> and then, if \<open>c\<close>, bumping its network at time \<open>t\<close>: whether it
  succeeds, and the store it leaves. An invalid member is not stored; a bump that fails leaves the
  member stored.
\<close>

definition storeThenBump :: "Member \<Rightarrow> bool \<Rightarrow> time \<Rightarrow> AStore \<Rightarrow> bool \<times> AStore" where
  "storeThenBump m c t a =
     (let a' = a\<lparr>asMembers := (asMembers a)((mbNetworkID m, mbNodeID m) \<mapsto> m)\<rparr> in
      if \<not> wfMember m then (False, a)
      else if \<not> c then (True, a')
      else case bumpAt (mbNetworkID m) t a' of None \<Rightarrow> (False, a') | Some a'' \<Rightarrow> (True, a''))"

lemma bumpAt_members: "bumpAt i t a = Some a' \<Longrightarrow> asMembers a' = asMembers a \<and> asMetadata a' = asMetadata a"
  by (auto simp: bumpAt_def split: option.splits if_splits)

lemma abs_bump:
  assumes "svStore sv = absStore" "wfAStore (wStore w)" "bumpNetworkRevision sv None i w = (r, w')"
  shows "wDeauthorized w' = wDeauthorized w \<and> wfAStore (wStore w') \<and> (case bumpAt i (svNow sv (wClock w)) (wStore w) of
      None \<Rightarrow> \<not> isOk r \<and> wStore w' = wStore w
    | Some a \<Rightarrow> isOk r \<and> wStore w' = a)"
proof (cases "asNetworks (wStore w) i")
  case None
  then show ?thesis using assms by (auto simp: bumpNetworkRevision_def run_simps bumpAt_def)
next
  case (Some n)
  let ?n = "n\<lparr>nwUpdatedAt := svNow sv (wClock w)\<rparr>"
  have id: "nwID n = i" "wfNetwork n" using wfAStoreD(1) [OF assms(2) Some] by simp_all
  have ok: "wfNetwork ?n \<longleftrightarrow> svNow sv (wClock w) \<noteq> 0 \<and> nwCreatedAt n \<le> svNow sv (wClock w)"
    using id(2) by (auto simp: wfNetwork_def)
  have step: "r = fst (aSaveNetwork ?n (wStore w))" "w' = w\<lparr>wClock := Suc (wClock w), wStore := snd (aSaveNetwork ?n (wStore w))\<rparr>"
    using assms(1,3) Some by (auto simp: bumpNetworkRevision_def run_simps split: prod.splits)
  have "isOk (fst (aSaveNetwork ?n (wStore w))) = (bumpAt i (svNow sv (wClock w)) (wStore w) \<noteq> None)"
    "snd (aSaveNetwork ?n (wStore w)) = (case bumpAt i (svNow sv (wClock w)) (wStore w) of None \<Rightarrow> wStore w | Some a \<Rightarrow> a)"
    using Some id(1) ok by (auto simp: aSaveNetwork_def bumpAt_def Network_Validate_iff split: sum.splits)
  then show ?thesis
    unfolding step using aSaveNetwork_wf [OF assms(2), of ?n] by (simp split: option.splits)
qed

lemma sbind_assoc: "sbind (sbind m f) g = sbind m (\<lambda>x. sbind (f x) g)"
  by (rule ext) (auto simp: sbind_def split: sum.splits prod.splits)

definition bumpIf :: "bool \<Rightarrow> 's Service \<Rightarrow> NetworkID \<Rightarrow> ('s, unit) operation" where
  "bumpIf c sv i = (if c then swrap ''invalidate specialist configuration: %w'' (bumpNetworkRevision sv None i) else sret ())"

lemma abs_bumpIf:
  assumes "svStore sv = absStore" "wfAStore (wStore w)" "bumpIf c sv i w = (r, w')"
  shows "wDeauthorized w' = wDeauthorized w \<and> wfAStore (wStore w')
    \<and> (if c then (case bumpAt i (svNow sv (wClock w)) (wStore w) of
          None \<Rightarrow> \<not> isOk r \<and> wStore w' = wStore w | Some a \<Rightarrow> isOk r \<and> wStore w' = a)
       else isOk r \<and> wStore w' = wStore w)"
proof (cases c)
  case True
  obtain r1 w1 where b: "bumpNetworkRevision sv None i w = (r1, w1)" by force
  with assms(3) True have "r = wrapErr ''invalidate specialist configuration: %w'' r1" "w' = w1"
    by (auto simp: bumpIf_def run_swrap)
  moreover have "isOk (wrapErr s r1) = isOk r1" for s by (cases r1) simp_all
  ultimately show ?thesis using abs_bump [OF assms(1,2) b] True by (simp split: option.splits)
qed (use assms in \<open>auto simp: bumpIf_def run_sret\<close>)

lemma abs_bumpIf_members:
  assumes "svStore sv = absStore" "wfAStore (wStore w)" "bumpIf c sv i w = (r, w')"
  shows "asMembers (wStore w') = asMembers (wStore w)"
  using abs_bumpIf [OF assms] by (auto split: if_splits option.splits dest: bumpAt_members)

text \<open>
  The common end of the two member writes, for whichever way \<open>save\<close> stores the member: the reference
  effect, and the stored member as the result.
\<close>

definition savesMember :: "Member \<Rightarrow> (AStore, unit) operation \<Rightarrow> AStore World \<Rightarrow> bool" where
  "savesMember M save w = (if wfMember M
     then save w = (Inr (), w\<lparr>wStore := snd (storeThenBump (M\<lparr>mbRevision := mbRevision M + 1\<rparr>) False 0 (wStore w))\<rparr>)
     else snd (save w) = w \<and> \<not> isOk (fst (save w)))"

lemma savesMember_cases:
  assumes "asMembers (wStore w) (mbNetworkID M, mbNodeID M) = Some old" "mbRevision M = mbRevision old"
  shows "savesMember M (swrap s (swrite (aSaveMember M))) w"
    "savesMember M (sbind (swrap s (slift (Member_Validate M))) (\<lambda>_. swrite (aSaveMember M))) w"
  using assms
  by (cases "Member_Validate M"; auto simp: savesMember_def run_simps aSaveMember_def storeThenBump_def Member_Validate_iff Let_def
      dest: Member_Validate_Inr)+

lemma abs_save_bump:
  assumes "svStore sv = absStore" "wfAStore (wStore w)" "asMembers (wStore w) (i, j) = Some old"
    and "mbNetworkID M = i" "mbNodeID M = j" "savesMember M save w"
    and "sbind save (\<lambda>_. sbind (bumpIf c sv i) (\<lambda>_. sread (\<lambda>a. found (asMembers a (i, j))))) w = (r, w')"
  defines "m \<equiv> M\<lparr>mbRevision := mbRevision M + 1\<rparr>"
  shows "wfAStore (wStore w') \<and> wDeauthorized w' = wDeauthorized w
    \<and> wStore w' = snd (storeThenBump m c (svNow sv (wClock w)) (wStore w))
    \<and> (if fst (storeThenBump m c (svNow sv (wClock w)) (wStore w)) then r = Inr m else \<not> isOk r)"
proof (cases "wfMember M")
  case False
  then obtain e where "save w = (Inl e, w)"
    using assms(6) unfolding savesMember_def by (cases "save w"; cases "fst (save w)") auto
  then show ?thesis using assms(2,7) False by (auto simp: m_def sbind_def storeThenBump_def)
next
  case True
  let ?a = "(wStore w)\<lparr>asMembers := (asMembers (wStore w))((i, j) \<mapsto> m)\<rparr>"
  have s: "save w = (Inr (), w\<lparr>wStore := ?a\<rparr>)"
    using True assms(4-6) by (simp add: savesMember_def storeThenBump_def m_def)
  have wf: "wfAStore (wStore (w\<lparr>wStore := ?a\<rparr>))"
    using assms(2-5) True by (auto simp: wfAStore_def m_def)
  obtain r1 w1 where b: "bumpIf c sv i (w\<lparr>wStore := ?a\<rparr>) = (r1, w1)" by force
  note bs = abs_bumpIf [OF assms(1) wf b] abs_bumpIf_members [OF assms(1) wf b]
  have "r = (case r1 of Inl e \<Rightarrow> Inl e | Inr _ \<Rightarrow> Inr m)" "w' = w1"
    using assms(7) s b bs by (auto simp: sbind_def run_sread split: sum.splits)
  then show ?thesis
    using bs True assms(4,5) by (cases r1) (auto simp: storeThenBump_def m_def split: option.splits if_splits)
qed

text \<open>The authorization of a member set to \<open>b\<close>, with the time of the change and of the update.\<close>

definition authorizationSet :: "bool \<Rightarrow> time \<Rightarrow> time \<Rightarrow> Member \<Rightarrow> Member" where
  "authorizationSet b t t' m = m\<lparr>mbAuthorized := b,
     mbLastAuthorizedAt := (if b then t else mbLastAuthorizedAt m),
     mbLastDeauthorizedAt := (if b then mbLastDeauthorizedAt m else t),
     mbUpdatedAt := t', mbRevision := mbRevision m + 1\<rparr>"

lemma abs_SetMemberAuthorization_effect:
  assumes "svStore sv = absStore" "wfAStore (wStore w)" "SetMemberAuthorization sv None i j b v w = (r, w')"
    and "validateOwnedNetwork sv i = Inr ()" "asMembers (wStore w) (i, j) = Some old" "mbRevision old = v" "mbAuthorized old \<noteq> b"
  defines "m \<equiv> authorizationSet b (svNow sv (wClock w)) (svNow sv (Suc (wClock w))) old"
    and "t \<equiv> svNow sv (Suc (Suc (wClock w)))"
  shows "wfAStore (wStore w') \<and> wStore w' = snd (storeThenBump m (memberHasSpecialistRole old) t (wStore w))
    \<and> (if fst (storeThenBump m (memberHasSpecialistRole old) t (wStore w))
       then r = Inr m \<and> wDeauthorized w' = wDeauthorized w @ (if \<not> b \<and> svOnDeauthorize sv then [(i, j, mbUpdatedAt m)] else [])
       else \<not> isOk r \<and> wDeauthorized w' = wDeauthorized w)"
proof -
  define M where "M = (if b then old\<lparr>mbAuthorized := b, mbLastAuthorizedAt := svNow sv (wClock w)\<rparr>
     else old\<lparr>mbAuthorized := b, mbLastDeauthorizedAt := svNow sv (wClock w)\<rparr>)\<lparr>mbUpdatedAt := svNow sv (Suc (wClock w))\<rparr>"
  let ?w = "w\<lparr>wClock := Suc (Suc (wClock w))\<rparr>" and ?save = "swrap ''save member: %w'' (swrite (aSaveMember M))"
  let ?put = "sbind ?save (\<lambda>_. sbind (bumpIf (memberHasSpecialistRole old) sv i) (\<lambda>_. sread (\<lambda>a. found (asMembers a (i, j)))))"
  have key: "mbNetworkID M = i" "mbNodeID M = j" "mbRevision M = mbRevision old"
      "memberHasSpecialistRole M = memberHasSpecialistRole old" "mbUpdatedAt M = mbUpdatedAt m"
      "M\<lparr>mbRevision := mbRevision M + 1\<rparr> = m"
    using wfAStoreD(2) [OF assms(2,5)] by (auto simp: memberHasSpecialistRole_def M_def m_def authorizationSet_def)
  have run: "sbind ?put (\<lambda>saved. sbind (if \<not> b then snotify sv i j (mbUpdatedAt M) else sret ()) (\<lambda>_. sret saved)) ?w = (r, w')"
    using assms(1,3-7) key(4) unfolding SetMemberAuthorization_def UTC_id Let_def sbind_assoc bumpIf_def
    by (simp add: run_bind_slift run_bind_swrap [of "''get member: %w''"] run_sread run_snow M_def absStore_def cong: if_cong)
  obtain r1 w1 where p: "?put ?w = (r1, w1)" by force
  have sv: "savesMember M ?save ?w" using savesMember_cases(1) [of ?w M old] key assms(5) by simp
  note e = abs_save_bump [OF assms(1) _ _ key(1,2) sv p, unfolded key(6), simplified, OF assms(2,5)]
  show ?thesis
    using run p e by (cases r1) (auto simp: t_def key(5) sbind_def snotify_def run_sret split: if_splits)
qed

lemma abs_SetMemberAuthorization_none:
  assumes "svStore sv = absStore" "SetMemberAuthorization sv None i j b v w = (r, w')"
    and "\<not> (\<exists>old. validateOwnedNetwork sv i = Inr () \<and> asMembers (wStore w) (i, j) = Some old \<and> mbRevision old = v \<and> mbAuthorized old \<noteq> b)"
  shows "w' = w \<and> (isOk r \<longrightarrow> (\<exists>old. r = Inr old \<and> asMembers (wStore w) (i, j) = Some old \<and> mbRevision old = v \<and> mbAuthorized old = b))"
  using assms
  by (cases "validateOwnedNetwork sv i"; cases "asMembers (wStore w) (i, j)") (auto simp: SetMemberAuthorization_def run_simps split: if_splits)

lemma storeThenBump_members:
  "asMembers (snd (storeThenBump m c t a)) = asMembers a
   \<or> asMembers (snd (storeThenBump m c t a)) = (asMembers a)((mbNetworkID m, mbNodeID m) \<mapsto> m)"
  by (auto simp: storeThenBump_def Let_def split: option.splits dest: bumpAt_members)

lemma abs_UpdateMember_effect:
  assumes "svStore sv = absStore" "wfAStore (wStore w)" "UpdateMember sv None i j u v w = (r, w')"
    and "validateOwnedNetwork sv i = Inr ()" "asMembers (wStore w) (i, j) = Some old" "mbRevision old = v"
  defines "m \<equiv> (applyMemberUpdate u old)\<lparr>mbUpdatedAt := svNow sv (wClock w), mbRevision := mbRevision old + 1\<rparr>"
    and "c \<equiv> mbAuthorized old \<and> (mbActiveBridge old \<noteq> muActiveBridge u \<or> mbNetworkRelay old \<noteq> muNetworkRelay u
           \<or> mbMulticastReplicator old \<noteq> muMulticastReplicator u)"
    and "t \<equiv> svNow sv (Suc (wClock w))"
  shows "wfAStore (wStore w') \<and> wDeauthorized w' = wDeauthorized w \<and> wStore w' = snd (storeThenBump m c t (wStore w))
    \<and> (if fst (storeThenBump m c t (wStore w)) then r = Inr m else \<not> isOk r)"
proof -
  define M where "M = (applyMemberUpdate u old)\<lparr>mbUpdatedAt := svNow sv (wClock w)\<rparr>"
  let ?w = "w\<lparr>wClock := Suc (wClock w)\<rparr>"
  let ?save = "sbind (swrap ''updated member: %w'' (slift (Member_Validate M))) (\<lambda>_. swrite (aSaveMember M))"
  have key: "mbNetworkID M = i" "mbNodeID M = j" "mbRevision M = mbRevision old" "M\<lparr>mbRevision := mbRevision M + 1\<rparr> = m"
    using wfAStoreD(2) [OF assms(2,5)] by (auto simp: applyMemberUpdate_def M_def m_def)
  have run: "sbind ?save (\<lambda>_. sbind (bumpIf c sv i) (\<lambda>_. sread (\<lambda>a. found (asMembers a (i, j))))) ?w = (r, w')"
    using assms(1,3-6) unfolding UpdateMember_def UTC_id Let_def bumpIf_def c_def sbind_assoc
    by (simp add: run_bind_slift run_bind_sread run_snow M_def absStore_def cong: if_cong)
  have sv: "savesMember M ?save ?w" using savesMember_cases(2) [of ?w M old] key assms(5) by simp
  from abs_save_bump [OF assms(1) _ _ key(1,2) sv run, unfolded key(4), simplified, OF assms(2,5)] show ?thesis
    unfolding t_def by blast
qed

lemma abs_UpdateMember_none:
  assumes "svStore sv = absStore" "UpdateMember sv None i j u v w = (r, w')"
    and "\<not> (\<exists>old. validateOwnedNetwork sv i = Inr () \<and> asMembers (wStore w) (i, j) = Some old \<and> mbRevision old = v)"
  shows "w' = w \<and> \<not> isOk r"
  using assms
  by (cases "validateOwnedNetwork sv i"; cases "asMembers (wStore w) (i, j)") (auto simp: UpdateMember_def run_simps Let_def split: if_splits)

end
