(* ===== verification/ServiceSafety.thy ===== *)
theory ServiceSafety
  imports ServiceSpec
begin

unbundle bit_operations_syntax

text \<open>
  Safety and functional correctness of the controller service: no sequence of calls authorizes a member
  without an explicit grant or stores a network of another controller, and the exact effect of
  registration, authorization and member updates. Proved over the abstract store and transferred to the
  in-memory store by the simulation of \<^verbatim>\<open>ServiceSpec\<close>.
\<close>

section \<open>Safety over every sequence of calls\<close>

definition owned :: "NodeID \<Rightarrow> AStore \<Rightarrow> bool" where
  "owned cid a = (\<forall>i. asNetworks a i \<noteq> None \<longrightarrow> ControllerID i = Inr cid)"

fun grants :: "NetworkID \<Rightarrow> NodeID \<Rightarrow> ServiceCall \<Rightarrow> bool" where
  "grants i j (DoSetMemberAuthorization k l b v) = (k = i \<and> l = j \<and> b)"
| "grants i j _ = False"

text \<open>What one call may do: keep the integrity of the store and the ownership of its networks, and
  authorize member \<open>(i, j)\<close> only if \<open>g\<close>.\<close>

definition safeStep :: "NodeID \<Rightarrow> NetworkID \<Rightarrow> NodeID \<Rightarrow> bool \<Rightarrow> AStore \<Rightarrow> AStore \<Rightarrow> bool" where
  "safeStep cid i j g a a' = (wfAStore a' \<and> (owned cid a \<longrightarrow> owned cid a') \<and> (authorizedIn i j a' \<longrightarrow> authorizedIn i j a \<or> g))"

lemma safeStep_refl: "wfAStore a \<Longrightarrow> safeStep cid i j g a a"
  by (simp add: safeStep_def)

lemma safeStep_trans: "safeStep cid i j g a a' \<Longrightarrow> safeStep cid i j g a' a'' \<Longrightarrow> safeStep cid i j g a a''"
  by (auto simp: safeStep_def)

lemma safeStep_networks:
  assumes "wfAStore a'" "asMembers a' = asMembers a" "\<forall>k. asNetworks a' k \<noteq> None \<longrightarrow> asNetworks a k \<noteq> None \<or> ControllerID k = Inr cid"
  shows "safeStep cid i j g a a'"
  using assms unfolding safeStep_def owned_def authorizedIn_def by fastforce

lemma aCreateNetwork_safe:
  assumes "wfAStore a" "ControllerID (nwID n) = Inr cid"
  shows "safeStep cid i j g a (snd (aCreateNetwork n a))"
  using assms aCreateNetwork_wf [OF assms(1), of n]
  by (intro safeStep_networks) (auto simp: aCreateNetwork_def split: sum.splits)

lemma abs_CreateNetwork_safe:
  assumes "svStore sv = absStore" "wfAStore (wStore w)" "canonicalHex 10 (svControllerID sv)"
  shows "safeStep (svControllerID sv) i j g (wStore w) (wStore (snd (CreateNetwork sv None q name w)))"
proof -
  let ?n = "(NewNetwork (NewNetworkID (svControllerID sv) q) (svNow sv (wClock w)))\<lparr>nwName := name\<rparr>"
  have "ControllerID (nwID ?n) = Inr (svControllerID sv)" using assms(3) by (simp add: NewNetwork_def)
  from aCreateNetwork_safe [OF assms(2) this] show ?thesis
    using assms(1) by (auto simp: CreateNetwork_def run_simps Let_def safeStep_refl [OF assms(2)] split: sum.splits prod.splits)
qed

lemma abs_CreateNetworkWithUpdate_safe:
  assumes "svStore sv = absStore" "wfAStore (wStore w)" "canonicalHex 10 (svControllerID sv)"
  shows "safeStep (svControllerID sv) i j g (wStore w) (wStore (snd (CreateNetworkWithUpdate sv None q u w)))"
proof -
  let ?n = "applyNetworkUpdate u (NewNetwork (NewNetworkID (svControllerID sv) q) (svNow sv (wClock w)))"
  have "ControllerID (nwID ?n) = Inr (svControllerID sv)" using assms(3) by (simp add: NewNetwork_def applyNetworkUpdate_def)
  from aCreateNetwork_safe [OF assms(2) this] show ?thesis
    using assms(1) by (auto simp: CreateNetworkWithUpdate_def run_simps Let_def safeStep_refl [OF assms(2)] split: sum.splits prod.splits)
qed

lemma abs_createRandom_safe:
  assumes "\<And>q w. wfAStore (wStore w) \<Longrightarrow> safeStep cid i j g (wStore w) (wStore (snd (f q w)))"
  shows "wfAStore (wStore w) \<Longrightarrow> safeStep cid i j g (wStore w) (wStore (snd (createRandom sv f k w)))"
proof (induction k arbitrary: w)
  case (Suc k)
  let ?w = "w\<lparr>wRandom := Suc (wRandom w)\<rparr>"
  show ?case
  proof (cases "svRandom sv (wRandom w)")
    case (Inl e)
    then show ?thesis using Suc.prems by (simp add: run_bind_swrap srandom_def safeStep_refl)
  next
    case (Inr x)
    define q where "q = (let s = x AND 0x00ffffff in if s = 0 then 1 else s)"
    obtain r1 w1 where f: "f q ?w = (r1, w1)" by force
    have s: "safeStep cid i j g (wStore w) (wStore w1)" using assms [of ?w q] Suc.prems f by simp
    then have wf: "wfAStore (wStore w1)" by (simp add: safeStep_def)
    have "createRandom sv f (Suc k) w = (case r1 of
        Inl e \<Rightarrow> if errorsIs e ErrAlreadyExists then createRandom sv f k w1 else (Inl e, w1) | Inr n \<Rightarrow> (Inr n, w1))"
      using Inr f by (simp add: run_bind_swrap srandom_def run_scatch q_def Let_def run_sret run_sfail split: sum.splits)
    then show ?thesis using s safeStep_trans [OF s Suc.IH [OF wf]] by (auto split: sum.splits)
  qed
qed (simp add: run_sfail safeStep_refl)

lemma abs_RegisterMember_safe:
  assumes "svStore sv = absStore" "wfAStore (wStore w)"
  shows "safeStep cid i j g (wStore w) (wStore (snd (RegisterMember sv None k l w)))"
proof -
  obtain r w' where r: "RegisterMember sv None k l w = (r, w')" by force
  have wf: "wfAStore (wStore w')"
    using assms r aCreateMember_wf [OF assms(2)]
    by (auto simp: RegisterMember_def run_simps split: sum.splits option.splits if_splits prod.splits) (metis snd_conv)+
  with abs_RegisterMember [OF assms(1) r] r assms show ?thesis
    by (auto simp: safeStep_def owned_def authorizedIn_def NewMember_def split: sum.splits option.splits if_splits)
qed

text \<open>Operations that never add a network.\<close>

definition noNewNetwork :: "(AStore, 'a) operation \<Rightarrow> bool" where
  "noNewNetwork m = (\<forall>w k. asNetworks (wStore (snd (m w))) k \<noteq> None \<longrightarrow> asNetworks (wStore w) k \<noteq> None)"

lemma noNewNetwork_basic:
  "noNewNetwork (sret x)" "noNewNetwork (sfail e)" "noNewNetwork (slift r)" "noNewNetwork (sread f)"
  "noNewNetwork (snow sv)" "noNewNetwork (snotify sv k l t)"
  by (simp_all add: noNewNetwork_def operation_defs)

lemma noNewNetwork_swrap: "noNewNetwork m \<Longrightarrow> noNewNetwork (swrap s m)"
  by (simp add: noNewNetwork_def swrap_def split: prod.splits)

lemma noNewNetwork_sbind: "noNewNetwork m \<Longrightarrow> (\<And>x. noNewNetwork (f x)) \<Longrightarrow> noNewNetwork (sbind m f)"
proof -
  assume m: "noNewNetwork m" and f: "\<And>x. noNewNetwork (f x)"
  have "asNetworks (wStore w) k \<noteq> None" if n: "asNetworks (wStore (snd (sbind m f w))) k \<noteq> None" for w k
  proof -
    obtain r w1 where r: "m w = (r, w1)" by force
    have "asNetworks (wStore w1) k \<noteq> None"
      using n r f unfolding noNewNetwork_def by (cases r) (auto simp: sbind_def)
    moreover have "snd (m w) = w1" using r by simp
    ultimately show ?thesis using m unfolding noNewNetwork_def by blast
  qed
  then show ?thesis unfolding noNewNetwork_def by blast
qed

lemma noNewNetwork_writes:
  "noNewNetwork (swrite (aSaveNetwork n))" "noNewNetwork (swrite (aDeleteNetwork k v))" "noNewNetwork (swrite (aSaveMember m))"
  "noNewNetwork (swrite (aDeleteMember k l v))" "noNewNetwork (swrite (aCreateMember m))"
  by (auto simp: noNewNetwork_def swrite_def astore_defs split: sum.splits option.splits if_splits)

lemmas noNewNetwork_intros = noNewNetwork_basic noNewNetwork_swrap noNewNetwork_sbind noNewNetwork_writes

lemma absStore_writes [simp]:
  "stSaveNetwork absStore ctx n = aSaveNetwork n" "stDeleteNetwork absStore ctx k v = aDeleteNetwork k v"
  "stSaveMember absStore ctx m = aSaveMember m" "stDeleteMember absStore ctx k l v = aDeleteMember k l v"
  by (simp_all add: absStore_def)

lemma noNewNetwork_ops:
  assumes "svStore sv = absStore"
  shows "noNewNetwork (SetMemberAuthorization sv None k l b v)" "noNewNetwork (UpdateMember sv None k l u v)"
    "noNewNetwork (UpdateNetwork sv None k nu v)" "noNewNetwork (svcDeleteNetwork sv None k)" "noNewNetwork (svcDeleteMember sv None k l)"
  using assms
  unfolding SetMemberAuthorization_def UpdateMember_def UpdateNetwork_def svcDeleteNetwork_def svcDeleteMember_def
    bumpNetworkRevision_def Let_def
  by (auto intro!: noNewNetwork_intros)

lemma owned_noNew: "noNewNetwork m \<Longrightarrow> owned cid (wStore w) \<Longrightarrow> owned cid (wStore (snd (m w)))"
  unfolding noNewNetwork_def owned_def by blast

lemma abs_SetMemberAuthorization_members:
  assumes "svStore sv = absStore" "wfAStore (wStore w)" "SetMemberAuthorization sv None k l b v w = (r, w')"
  shows "wfAStore (wStore w') \<and> (asMembers (wStore w') = asMembers (wStore w)
    \<or> (\<exists>m. mbAuthorized m = b \<and> asMembers (wStore w') = (asMembers (wStore w))((k, l) \<mapsto> m)))"
proof (cases "\<exists>old. validateOwnedNetwork sv k = Inr () \<and> asMembers (wStore w) (k, l) = Some old \<and> mbRevision old = v \<and> mbAuthorized old \<noteq> b")
  case True
  then obtain old where old: "validateOwnedNetwork sv k = Inr ()" "asMembers (wStore w) (k, l) = Some old" "mbRevision old = v"
      "mbAuthorized old \<noteq> b" by blast
  let ?m = "authorizationSet b (svNow sv (wClock w)) (svNow sv (Suc (wClock w))) old"
  let ?t = "svNow sv (Suc (Suc (wClock w)))"
  have "mbAuthorized ?m = b" "mbNetworkID ?m = k" "mbNodeID ?m = l"
    using wfAStoreD(2) [OF assms(2) old(2)] by (simp_all add: authorizationSet_def)
  then show ?thesis
    using abs_SetMemberAuthorization_effect [OF assms old] storeThenBump_members [of ?m "memberHasSpecialistRole old" ?t "wStore w"] by metis
qed (use abs_SetMemberAuthorization_none [OF assms(1,3)] assms(2) in simp)

lemma abs_SetMemberAuthorization_safe:
  assumes "svStore sv = absStore" "wfAStore (wStore w)"
  shows "safeStep cid i j (k = i \<and> l = j \<and> b) (wStore w) (wStore (snd (SetMemberAuthorization sv None k l b v w)))"
proof -
  obtain r w' where r: "SetMemberAuthorization sv None k l b v w = (r, w')" by force
  note m = abs_SetMemberAuthorization_members [OF assms r]
  moreover have "authorizedIn i j (wStore w') \<longrightarrow> authorizedIn i j (wStore w) \<or> (k = i \<and> l = j \<and> b)"
    using m by (auto simp: authorizedIn_def split: if_splits)
  ultimately show ?thesis
    using owned_noNew [OF noNewNetwork_ops(1) [OF assms(1)], of cid w k l b v] r by (simp add: safeStep_def)
qed

lemma abs_UpdateMember_members:
  assumes "svStore sv = absStore" "wfAStore (wStore w)" "UpdateMember sv None k l u v w = (r, w')"
  shows "wfAStore (wStore w') \<and> (asMembers (wStore w') = asMembers (wStore w)
    \<or> (\<exists>old m. asMembers (wStore w) (k, l) = Some old \<and> mbAuthorized m = mbAuthorized old
        \<and> asMembers (wStore w') = (asMembers (wStore w))((k, l) \<mapsto> m)))"
proof (cases "\<exists>old. validateOwnedNetwork sv k = Inr () \<and> asMembers (wStore w) (k, l) = Some old \<and> mbRevision old = v")
  case True
  then obtain old where old: "validateOwnedNetwork sv k = Inr ()" "asMembers (wStore w) (k, l) = Some old" "mbRevision old = v" by blast
  let ?m = "(applyMemberUpdate u old)\<lparr>mbUpdatedAt := svNow sv (wClock w), mbRevision := mbRevision old + 1\<rparr>"
  have "mbAuthorized ?m = mbAuthorized old" "mbNetworkID ?m = k" "mbNodeID ?m = l"
    using wfAStoreD(2) [OF assms(2) old(2)] by (simp_all add: applyMemberUpdate_def)
  then show ?thesis
    using abs_UpdateMember_effect [OF assms old] storeThenBump_members [of ?m _ _ "wStore w"] old(2) by metis
qed (use abs_UpdateMember_none [OF assms(1,3)] assms(2) in simp)

lemma abs_UpdateMember_safe:
  assumes "svStore sv = absStore" "wfAStore (wStore w)"
  shows "safeStep cid i j g (wStore w) (wStore (snd (UpdateMember sv None k l u v w)))"
proof -
  obtain r w' where r: "UpdateMember sv None k l u v w = (r, w')" by force
  note m = abs_UpdateMember_members [OF assms r]
  moreover have "authorizedIn i j (wStore w') \<longrightarrow> authorizedIn i j (wStore w)"
    using m by (auto simp: authorizedIn_def split: if_splits)
  ultimately show ?thesis
    using owned_noNew [OF noNewNetwork_ops(2) [OF assms(1)], of cid w k l u v] r by (simp add: safeStep_def)
qed

text \<open>The remaining administrative operations.\<close>

lemma abs_UpdateNetwork_safe:
  assumes "svStore sv = absStore" "wfAStore (wStore w)"
  shows "safeStep cid i j g (wStore w) (wStore (snd (UpdateNetwork sv None k u v w)))"
proof -
  let ?w' = "snd (UpdateNetwork sv None k u v w)"
  have "wStore ?w' = wStore w \<or> (\<exists>n. wStore ?w' = snd (aSaveNetwork n (wStore w)))"
    using assms(1)
    by (cases "validateOwnedNetwork sv k"; cases "asNetworks (wStore w) k")
      (auto simp: UpdateNetwork_def run_simps Let_def split: sum.splits prod.splits, (metis snd_conv)+)
  moreover have "wfAStore (snd (aSaveNetwork n (wStore w))) \<and> asMembers (snd (aSaveNetwork n (wStore w))) = asMembers (wStore w)" for n
    using aSaveNetwork_wf [OF assms(2)] by (auto simp: aSaveNetwork_def split: sum.splits option.splits)
  ultimately have "wfAStore (wStore ?w') \<and> asMembers (wStore ?w') = asMembers (wStore w)"
    using assms(2) by auto
  moreover have "asNetworks (wStore ?w') x \<noteq> None \<longrightarrow> asNetworks (wStore w) x \<noteq> None" for x
    using noNewNetwork_ops(3) [OF assms(1), of k u v] unfolding noNewNetwork_def by blast
  ultimately show ?thesis by (intro safeStep_networks) auto
qed

lemma abs_svcDeleteNetwork_safe:
  assumes "svStore sv = absStore" "wfAStore (wStore w)"
  shows "safeStep cid i j g (wStore w) (wStore (snd (svcDeleteNetwork sv None k w)))"
proof -
  let ?w' = "snd (svcDeleteNetwork sv None k w)"
  have "wStore ?w' = wStore w \<or> (\<exists>x. wStore ?w' = snd (aDeleteNetwork k x (wStore w)))"
    using assms(1) by (cases "validateOwnedNetwork sv k"; cases "asNetworks (wStore w) k")
      (auto simp: svcDeleteNetwork_def run_simps split: prod.splits, metis snd_conv)
  moreover have "wfAStore (snd (aDeleteNetwork k x (wStore w)))
      \<and> (authorizedIn i j (snd (aDeleteNetwork k x (wStore w))) \<longrightarrow> authorizedIn i j (wStore w))" for x
    using aDeleteNetwork_wf [OF assms(2)] by (auto simp: aDeleteNetwork_def authorizedIn_def split: option.splits if_splits)
  ultimately have "wfAStore (wStore ?w') \<and> (authorizedIn i j (wStore ?w') \<longrightarrow> authorizedIn i j (wStore w))"
    using assms(2) by auto
  then show ?thesis
    using owned_noNew [OF noNewNetwork_ops(4) [OF assms(1)], of cid w k] by (simp add: safeStep_def)
qed

lemma abs_svcDeleteMember_safe:
  assumes "svStore sv = absStore" "wfAStore (wStore w)"
  shows "safeStep cid i j g (wStore w) (wStore (snd (svcDeleteMember sv None k l w)))"
proof -
  let ?w' = "snd (svcDeleteMember sv None k l w)"
  have "wfAStore (wStore ?w') \<and> (authorizedIn i j (wStore ?w') \<longrightarrow> authorizedIn i j (wStore w))"
  proof (cases "validateOwnedNetwork sv k = Inr () \<and> asMembers (wStore w) (k, l) \<noteq> None")
    case False
    then show ?thesis using assms by (cases "validateOwnedNetwork sv k") (auto simp: svcDeleteMember_def run_simps)
  next
    case True
    then obtain m where m: "asMembers (wStore w) (k, l) = Some m" by auto
    obtain r1 w1 where b: "bumpIf (mbAuthorized m \<and> memberHasSpecialistRole m) sv k w = (r1, w1)" by force
    note bs = abs_bumpIf [OF assms b] abs_bumpIf_members [OF assms b]
    have "svcDeleteMember sv None k l w = sbind (bumpIf (mbAuthorized m \<and> memberHasSpecialistRole m) sv k)
        (\<lambda>_. swrite (aDeleteMember k l (mbRevision m))) w"
      using True m assms(1) by (simp add: svcDeleteMember_def run_bind_slift run_bind_sread bumpIf_def)
    then have "wStore ?w' = wStore w1 \<or> wStore ?w' = snd (aDeleteMember k l (mbRevision m) (wStore w1))"
      using b by (auto simp: sbind_def swrite_def split: sum.splits prod.splits)
    then show ?thesis
      using bs aDeleteMember_wf [of "wStore w1" k l "mbRevision m"]
      by (auto simp: aDeleteMember_def authorizedIn_def split: option.splits if_splits)
  qed
  then show ?thesis
    using owned_noNew [OF noNewNetwork_ops(5) [OF assms(1)], of cid w k l] by (simp add: safeStep_def)
qed

lemma sdone_store: "wStore (snd (sdone m w)) = wStore (snd (m w))"
  by (auto simp: sdone_def sbind_def sret_def split: sum.splits prod.splits)

lemma abs_serviceCall_safe:
  assumes "svStore sv = absStore" "wfAStore (wStore w)" "canonicalHex 10 (svControllerID sv)"
  shows "safeStep (svControllerID sv) i j (grants i j c) (wStore w) (wStore (snd (serviceCall sv c w)))"
proof (cases c)
  case (DoSetMemberAuthorization k l b v)
  then show ?thesis using abs_SetMemberAuthorization_safe [OF assms(1,2)] by (simp add: sdone_store)
qed (simp_all add: sdone_store assms abs_CreateNetwork_safe abs_CreateNetworkWithUpdate_safe CreateRandomNetwork_def
    CreateRandomNetworkWithUpdate_def abs_createRandom_safe abs_RegisterMember_safe abs_UpdateNetwork_safe
    abs_svcDeleteNetwork_safe abs_UpdateMember_safe abs_svcDeleteMember_safe)

lemma abs_serviceRun_safe:
  assumes "svStore sv = absStore" "canonicalHex 10 (svControllerID sv)"
  shows "wfAStore (wStore w) \<Longrightarrow> safeStep (svControllerID sv) i j (list_ex (grants i j) cs) (wStore w) (wStore (snd (serviceRun sv cs w)))"
proof (induction cs arbitrary: w)
  case (Cons c cs)
  obtain r w1 where c: "serviceCall sv c w = (r, w1)" by force
  have s: "safeStep (svControllerID sv) i j (grants i j c) (wStore w) (wStore w1)"
    using abs_serviceCall_safe [OF assms(1) Cons.prems assms(2), of i j c] c by simp
  then have "wfAStore (wStore w1)" by (simp add: safeStep_def)
  from Cons.IH [OF this] s c show ?case by (auto simp: safeStep_def split: prod.splits)
qed (simp add: safeStep_refl)

section \<open>The service over the in-memory store\<close>

lemma mem_serviceRun:
  assumes "svStore sv = memoryStore" "memInv (wStore w)" "serviceRun sv cs w = (rs, w')"
  shows "memInv (wStore w') \<and> serviceRun (absService sv) cs (absWorld memAbs w) = (rs, absWorld memAbs w')"
proof -
  have "sv\<lparr>svStore := memoryStore\<rparr> = sv" using assms(1) by simp
  then show ?thesis using mem.sim_serviceRun [OF assms(2), of sv cs rs w'] assms(3) by simp
qed

lemma memService_same: "svStore sv = memoryStore \<Longrightarrow> sv\<lparr>svStore := memoryStore\<rparr> = sv"
  by simp

text \<open>A single operation over the in-memory store, seen through its abstraction.\<close>

lemma mem_sim:
  assumes "sim memInv memAbs m m'" "memInv (wStore w)" "m w = (r, w')"
  shows "memInv (wStore w') \<and> m' (absWorld memAbs w) = (r, absWorld memAbs w')"
  using assms unfolding sim_def by blast

lemma mem_get: "memInv s \<Longrightarrow> memGetMember None i j s = Inr m \<longleftrightarrow> asMembers (memAbs s) (i, j) = Some m"
  using mem.get_member [of s i j] by simp

lemma memInv_wf: "memInv s \<Longrightarrow> wfAStore (memAbs s)"
  by (rule mem.integrity)

text \<open>
  The controller service is independent of the store behind it: over the in-memory store every
  sequence of service calls gives the results of the same calls over the abstract store, publishes the
  same deauthorization events, and keeps the integrity constraints.
\<close>

theorem service_refines:
  assumes "svStore sv = memoryStore" "memInv (wStore w)" "serviceRun sv cs w = (rs, w')"
  shows "memInv (wStore w') \<and> serviceRun (absService sv) cs (absWorld memAbs w) = (rs, absWorld memAbs w')"
  using assms by (rule mem_serviceRun)

definition exService :: "MemStore Service" where
  "exService = \<lparr> svControllerID = ''8056c2e21c'', svStore = memoryStore, svNow = (\<lambda>k. 1000 + int k),
     svRandom = (\<lambda>k. Inr 7), svOnDeauthorize = True \<rparr>"

definition exWorld :: "MemStore World" where
  "exWorld = \<lparr> wStore = exStore, wClock = 0, wRandom = 0, wDeauthorized = [] \<rparr>"

theorem service_refines_witness:
  "\<exists>rs w'. serviceRun exService [DoSetMemberAuthorization exNetworkID exNodeID True 1, DoDeleteMember exNetworkID exNodeID] exWorld = (rs, w')
     \<and> memInv (wStore w')"
proof -
  obtain rs w' where "serviceRun exService [DoSetMemberAuthorization exNetworkID exNodeID True 1,
      DoDeleteMember exNetworkID exNodeID] exWorld = (rs, w')" by force
  moreover have "svStore exService = memoryStore" "memInv (wStore exWorld)"
    using exStore_inv by (simp_all add: exService_def exWorld_def)
  ultimately show ?thesis using service_refines [of exService exWorld] by blast
qed

text \<open>
  C22. Only an explicit grant authorizes: after any sequence of service calls that does not contain an
  authorization of the member with \<open>True\<close>, a member that is authorized was authorized at the start.
  Registration, updates, re-creation and random retries never authorize.
\<close>

theorem authorization_needs_grant:
  assumes "svStore sv = memoryStore" "canonicalHex 10 (svControllerID sv)" "memInv (wStore w)"
    and "\<not> list_ex (grants i j) cs" "serviceRun sv cs w = (rs, w')"
    and "memGetMember None i j (wStore w') = Inr m" "mbAuthorized m"
  shows "\<exists>m0. memGetMember None i j (wStore w) = Inr m0 \<and> mbAuthorized m0"
proof -
  note r = mem_serviceRun [OF assms(1,3,5)]
  have "authorizedIn i j (memAbs (wStore w'))" using assms(6,7) mem_get r by (auto simp: authorizedIn_def)
  moreover have "safeStep (svControllerID sv) i j False (memAbs (wStore w)) (memAbs (wStore w'))"
    using abs_serviceRun_safe [of "absService sv" "absWorld memAbs w" i j cs] memInv_wf [OF assms(3)] r assms(2,4) by simp
  ultimately have "authorizedIn i j (memAbs (wStore w))" by (simp add: safeStep_def)
  then show ?thesis using mem_get [OF assms(3)] by (auto simp: authorizedIn_def)
qed

definition exAuthorized :: "MemStore World" where
  "exAuthorized = exWorld\<lparr>wStore := exStore\<lparr>msMembers :=
     fmupd exNetworkID (fmupd exNodeID (exMember\<lparr>mbAuthorized := True, mbRevision := 1\<rparr>) fmempty) fmempty\<rparr>\<rparr>"

lemma exAuthorized_inv: "memInv (wStore exAuthorized)"
  using ex_wf(2) by (auto simp: memInv_def wfAStore_def exAuthorized_def exWorld_def exStore_def lookup2_def wfMember_def)

lemma exAuthorized_member:
  "memGetMember None exNetworkID exNodeID (wStore exAuthorized) = Inr (exMember\<lparr>mbAuthorized := True, mbRevision := 1\<rparr>)"
  by (simp add: memGetMember_def exAuthorized_def exWorld_def exStore_def lookup2_def)

lemma exService_simps:
  "svStore exService = memoryStore" "svNow exService k = 1000 + int k" "svOnDeauthorize exService"
  "wDeauthorized exAuthorized = []" "wClock exAuthorized = 0" "wClock exWorld = 0" "wDeauthorized exWorld = []"
  "wStore exWorld = exStore"
  by (simp_all add: exService_def exAuthorized_def exWorld_def)

lemma ex_owned: "validateOwnedNetwork exService exNetworkID = Inr ()"
proof -
  have "ControllerID exNetworkID = Inr ''8056c2e21c''"
    by (simp only: ControllerID_iff ex_ids) (simp add: exNetworkID_def)
  then show ?thesis by (simp add: validateOwnedNetwork_def exService_def)
qed

theorem authorization_needs_grant_witness:
  "\<exists>m0. memGetMember None exNetworkID exNodeID (wStore exAuthorized) = Inr m0 \<and> mbAuthorized m0"
proof -
  have "serviceRun exService [DoRegisterMember exNetworkID exNodeID] exAuthorized = ([Inr ()], exAuthorized)"
    using ex_owned exAuthorized_member
    by (simp add: RegisterMember_def sdone_def sbind_assoc run_simps sbind_def exService_def memoryStore_def)
  moreover have "canonicalHex 10 (svControllerID exService)"
    by (simp add: exService_def canonicalHex_def lowerhex_def)
  ultimately show ?thesis
    using authorization_needs_grant [of exService exAuthorized exNetworkID exNodeID "[DoRegisterMember exNetworkID exNodeID]"]
      exAuthorized_inv exAuthorized_member by (simp add: exService_def)
qed

text \<open>
  C25. Ownership: a controller that starts with an empty in-memory store only ever holds documents of its own,
  whatever sequence of service calls is made: every listed network has an identifier that names the
  controller, and every stored member is filed under its own key and belongs to one of those networks.
\<close>

theorem networks_stay_owned:
  assumes "svStore sv = memoryStore" "canonicalHex 10 (svControllerID sv)"
    and "serviceRun sv cs \<lparr> wStore = memNew, wClock = 0, wRandom = 0, wDeauthorized = [] \<rparr> = (rs, w')"
  shows "\<exists>ns. memListNetworks None (wStore w') = Inr ns
    \<and> (\<forall>n \<in> set ns. ControllerID (nwID n) = Inr (svControllerID sv))
    \<and> (\<forall>i j m. memGetMember None i j (wStore w') = Inr m \<longrightarrow> mbNetworkID m = i \<and> mbNodeID m = j \<and> i \<in> nwID ` set ns)"
proof -
  let ?w = "\<lparr> wStore = memNew, wClock = 0, wRandom = 0, wDeauthorized = [] \<rparr>"
  have e: "memAbs memNew = \<lparr> asNetworks = Map.empty, asMembers = Map.empty, asMetadata = Map.empty \<rparr>"
    by (auto simp: memAbs_def memNew_def lookup2_def)
  have inv: "memInv (wStore ?w)" by (simp add: memInv_def wfAStore_def memNew_def lookup2_def)
  note r = mem_serviceRun [OF assms(1) inv assms(3)]
  have "owned (svControllerID sv) (memAbs (wStore w'))"
    using abs_serviceRun_safe [of "absService sv" "absWorld memAbs ?w" undefined undefined cs] memInv_wf [OF inv] r assms(2)
    by (simp add: safeStep_def owned_def e)
  moreover obtain ns where ns: "memListNetworks None (wStore w') = Inr ns" "set ns = ran (asNetworks (memAbs (wStore w')))"
    using mem.list_networks [of "wStore w'"] r by auto
  moreover have id: "nwID n = i" if "asNetworks (memAbs (wStore w')) i = Some n" for i n
    using wfAStoreD(1) [OF memInv_wf that] r by simp
  moreover have "mbNetworkID m = i \<and> mbNodeID m = j \<and> i \<in> nwID ` set ns" if g: "memGetMember None i j (wStore w') = Inr m" for i j m
  proof -
    have "asMembers (memAbs (wStore w')) (i, j) = Some m" using g mem_get r by simp
    from wfAStoreD(2) [OF memInv_wf this] r obtain n where "mbNetworkID m = i" "mbNodeID m = j"
      and n: "asNetworks (memAbs (wStore w')) i = Some n" by auto
    moreover have "n \<in> set ns" using n by (simp add: ns(2) ranI)
    ultimately show ?thesis using id [OF n] image_eqI [of i nwID n] by simp
  qed
  ultimately show ?thesis by (auto simp: ran_def owned_def)
qed

theorem networks_stay_owned_witness:
  "\<exists>rs w' ns. serviceRun exService [DoCreateNetwork 1 ''home'', DoCreateRandomNetwork ''lab'', DoRegisterMember exNetworkID exNodeID]
       \<lparr> wStore = memNew, wClock = 0, wRandom = 0, wDeauthorized = [] \<rparr> = (rs, w')
     \<and> memListNetworks None (wStore w') = Inr ns \<and> (\<forall>n \<in> set ns. ControllerID (nwID n) = Inr ''8056c2e21c'')
     \<and> (\<forall>i j m. memGetMember None i j (wStore w') = Inr m \<longrightarrow> mbNetworkID m = i \<and> mbNodeID m = j \<and> i \<in> nwID ` set ns)"
proof -
  let ?cs = "[DoCreateNetwork 1 ''home'', DoCreateRandomNetwork ''lab'', DoRegisterMember exNetworkID exNodeID]"
  obtain rs w' where "serviceRun exService ?cs \<lparr> wStore = memNew, wClock = 0, wRandom = 0, wDeauthorized = [] \<rparr> = (rs, w')" by force
  moreover have "svStore exService = memoryStore" "canonicalHex 10 (svControllerID exService)" "svControllerID exService = ''8056c2e21c''"
    by (simp_all add: exService_def canonicalHex_def lowerhex_def)
  ultimately show ?thesis using networks_stay_owned [of exService ?cs] by metis
qed

text \<open>
  C21. First contact, the exact effect of \<^verbatim>\<open>RegisterMember\<close> on every branch, over the in-memory
  store with a live context: a network of another
  controller and a malformed node are refused with their errors; a known member is returned as it is; in
  these cases nothing changes. A new member of a stored network is stored as an unauthorized member at
  revision 1, with no other document touched, and returned; without the network, or at a clock reading
  of zero, the call fails and stores nothing. Nothing is ever published, and registering the member
  again returns it and changes nothing.
\<close>

theorem register_member_spec:
  assumes "svStore sv = memoryStore" "memInv (wStore w)" "RegisterMember sv None i j w = (r, w')"
  shows "memInv (wStore w') \<and> wDeauthorized w' = wDeauthorized w \<and>
   (case validateOwnedNetwork sv i of Inl e \<Rightarrow> r = Inl e \<and> w' = w | Inr _ \<Rightarrow>
    case NodeID_Validate j of Inl e \<Rightarrow> r = Inl e \<and> w' = w | Inr _ \<Rightarrow>
    case memGetMember None i j (wStore w) of Inr old \<Rightarrow> r = Inr old \<and> w' = w | Inl _ \<Rightarrow>
      let t = svNow sv (wClock w); m = (NewMember i j t)\<lparr>mbRevision := 1\<rparr>; a = memAbs (wStore w); a' = memAbs (wStore w') in
      if isOk (memGetNetwork None i (wStore w)) \<and> t \<noteq> 0
      then r = Inr m \<and> \<not> mbAuthorized m \<and> a' = a\<lparr>asMembers := (asMembers a)((i, j) \<mapsto> m)\<rparr>
        \<and> RegisterMember sv None i j w' = (Inr m, w')
      else \<not> isOk r \<and> a' = a)"
proof (cases "validateOwnedNetwork sv i = Inr () \<and> NodeID_Validate j = Inr () \<and> \<not> isOk (memGetMember None i j (wStore w))")
  case False
  then show ?thesis
    using assms by (auto simp: RegisterMember_def run_simps isOk_iff split: sum.splits)
next
  case True
  have "sim memInv memAbs (RegisterMember sv None i j) (RegisterMember (absService sv) None i j)"
    using mem.sim_RegisterMember [of sv i j] unfolding memService_same [OF assms(1)] .
  from mem_sim [OF this assms(2,3)] have inv: "memInv (wStore w')" and
    a: "RegisterMember (absService sv) None i j (absWorld memAbs w) = (r, absWorld memAbs w')" by auto
  let ?t = "svNow sv (wClock w)" and ?a = "memAbs (wStore w)"
  let ?m = "(NewMember i j ?t)\<lparr>mbRevision := 1\<rparr>"
  have none: "asMembers ?a (i, j) = None" using True mem_get [OF assms(2), of i j] by (cases "asMembers ?a (i, j)") (auto simp: isOk_iff)
  have "canonicalHex 16 i" using True by (auto simp: validateOwnedNetwork_def rbind_eq_Inr ControllerID_iff)
  moreover have "canonicalHex 10 j" using True by simp
  ultimately have valid: "wfMember (NewMember i j ?t) \<longleftrightarrow> ?t \<noteq> 0" by (auto simp: wfMember_def NewMember_def CurrentSchemaVersion_def)
  have net: "isOk (memGetNetwork None i (wStore w)) \<longleftrightarrow> asNetworks ?a i \<noteq> None"
    using mem.get_network [OF assms(2), of i] by (auto simp: isOk_iff)
  have run: "wDeauthorized w' = wDeauthorized w" "if asNetworks ?a i \<noteq> None \<and> ?t \<noteq> 0
      then r = Inr ?m \<and> memAbs (wStore w') = ?a\<lparr>asMembers := (asMembers ?a)((i, j) \<mapsto> ?m)\<rparr>
      else \<not> isOk r \<and> memAbs (wStore w') = ?a"
    using abs_RegisterMember_new [OF _ a] True none valid by (simp_all add: validateOwnedNetwork_def cong: if_cong)
  have again: "RegisterMember sv None i j w' = (Inr ?m, w')" if c: "asNetworks ?a i \<noteq> None \<and> ?t \<noteq> 0"
  proof -
    have e: "memAbs (wStore w') = ?a\<lparr>asMembers := (asMembers ?a)((i, j) \<mapsto> ?m)\<rparr>" using run(2) c by simp
    have "asMembers (memAbs (wStore w')) (i, j) = Some ?m" unfolding e by simp
    then have "memGetMember None i j (wStore w') = Inr ?m" using mem_get [OF inv] by simp
    then show ?thesis using True assms(1) by (simp add: RegisterMember_def run_simps)
  qed
  have "\<not> mbAuthorized ?m" by (simp add: NewMember_def)
  then show ?thesis
    using True inv run again unfolding net Let_def
    by (cases "memGetMember None i j (wStore w)"; cases "asNetworks ?a i \<noteq> None \<and> ?t \<noteq> 0") simp_all
qed

theorem register_member_spec_witness:
  "\<exists>m w'. RegisterMember exService None exNetworkID ''0000000001'' exWorld = (Inr m, w') \<and> \<not> mbAuthorized m
     \<and> mbCreatedAt m = 1000 \<and> RegisterMember exService None exNetworkID ''0000000001'' w' = (Inr m, w')"
proof -
  obtain r w' where r: "RegisterMember exService None exNetworkID ''0000000001'' exWorld = (r, w')" by force
  have n: "memGetMember None exNetworkID ''0000000001'' exStore = Inl ErrNotFound"
    by (simp add: memGetMember_def exStore_def lookup2_def exNodeID_def)
  have c: "NodeID_Validate ''0000000001'' = Inr ()" by (simp add: canonicalHex_def lowerhex_def)
  have "isOk (memGetNetwork None exNetworkID exStore)" by (simp add: memGetNetwork_def exStore_def)
  then show ?thesis
    using register_member_spec [OF _ _ r] r n c ex_owned exStore_inv by (simp add: Let_def exService_simps NewMember_def)
qed

text \<open>
  C23. Authorization changes, the exact effect on every branch, over the in-memory store with a live
  context. A network of another controller, an
  unknown member and a stale revision are refused with their errors and change nothing; a flag that is
  already set returns the member and changes nothing. Otherwise the new member is the old one with only
  the flag, the time of the grant or of the revocation, the update time and the revision changed. If it
  is invalid nothing is stored. If its network must be bumped (a specialist role) and the bump fails,
  the call fails with the member stored. In both cases nothing is published. Else exactly that member is
  stored and returned, the network of a specialist has advanced by one revision and nothing else has
  changed, and a revocation is published exactly once, a grant never.
\<close>

theorem set_authorization_spec:
  assumes "svStore sv = memoryStore" "memInv (wStore w)" "SetMemberAuthorization sv None i j b v w = (r, w')"
  shows "memInv (wStore w') \<and> (case validateOwnedNetwork sv i of Inl e \<Rightarrow> r = Inl e \<and> w' = w | Inr _ \<Rightarrow>
    case memGetMember None i j (wStore w) of Inl e \<Rightarrow> r = Inl (Wrap ''get member: %w'' e) \<and> w' = w | Inr old \<Rightarrow>
    if mbRevision old \<noteq> v then r = Inl ErrConflict \<and> w' = w
    else if mbAuthorized old = b then r = Inr old \<and> w' = w
    else
      let now = (\<lambda>k. svNow sv (wClock w + k)); a = memAbs (wStore w); a' = memAbs (wStore w');
          m = old\<lparr>mbAuthorized := b, mbLastAuthorizedAt := (if b then now 0 else mbLastAuthorizedAt old),
                mbLastDeauthorizedAt := (if b then mbLastDeauthorizedAt old else now 0),
                mbUpdatedAt := now 1, mbRevision := v + 1\<rparr>;
          saved = a\<lparr>asMembers := (asMembers a)((i, j) \<mapsto> m)\<rparr>;
          failed = (\<not> isOk r \<and> wDeauthorized w' = wDeauthorized w);
          done = (r = Inr m \<and> wDeauthorized w' = wDeauthorized w @ (if \<not> b \<and> svOnDeauthorize sv then [(i, j, now 1)] else [])) in
      if \<not> wfMember m then failed \<and> a' = a
      else if \<not> memberHasSpecialistRole old then done \<and> a' = saved
      else case bumpAt i (now 2) saved of None \<Rightarrow> failed \<and> a' = saved | Some bumped \<Rightarrow> done \<and> a' = bumped)"
proof (cases "\<exists>old. validateOwnedNetwork sv i = Inr () \<and> memGetMember None i j (wStore w) = Inr old \<and> mbRevision old = v \<and> mbAuthorized old \<noteq> b")
  case False
  then show ?thesis
    using assms by (auto simp: SetMemberAuthorization_def run_simps split: if_splits sum.splits)
next
  case True
  then obtain old where old: "validateOwnedNetwork sv i = Inr ()" "memGetMember None i j (wStore w) = Inr old" "mbRevision old = v"
      "mbAuthorized old \<noteq> b" by blast
  have "sim memInv memAbs (SetMemberAuthorization sv None i j b v) (SetMemberAuthorization (absService sv) None i j b v)"
    using mem.sim_SetMemberAuthorization [of sv i j b v] unfolding memService_same [OF assms(1)] .
  from mem_sim [OF this assms(2,3)] have inv: "memInv (wStore w')" and
    a: "SetMemberAuthorization (absService sv) None i j b v (absWorld memAbs w) = (r, absWorld memAbs w')" by auto
  have old': "validateOwnedNetwork (absService sv) i = Inr ()" "asMembers (wStore (absWorld memAbs w)) (i, j) = Some old"
    using old(1,2) mem_get [OF assms(2)] by (simp_all add: validateOwnedNetwork_def)
  have wf: "wfAStore (wStore (absWorld memAbs w))" using memInv_wf [OF assms(2)] by simp
  have "mbNetworkID old = i" "mbNodeID old = j" using wfAStoreD(2) [OF wf old'(2)] by simp_all
  then show ?thesis
    using abs_SetMemberAuthorization_effect [OF _ wf a old' old(3,4)] inv old
    by (auto simp: storeThenBump_def authorizationSet_def Let_def split: option.splits)
qed

theorem set_authorization_spec_witness:
  "\<exists>m w'. SetMemberAuthorization exService None exNetworkID exNodeID False 1 exAuthorized = (Inr m, w')
     \<and> \<not> mbAuthorized m \<and> mbLastDeauthorizedAt m = 1000 \<and> mbUpdatedAt m = 1001 \<and> mbRevision m = 1 + 1
     \<and> wDeauthorized w' = [(exNetworkID, exNodeID, 1001)]"
proof -
  obtain r w' where r: "SetMemberAuthorization exService None exNetworkID exNodeID False 1 exAuthorized = (r, w')" by force
  let ?m = "exMember\<lparr>mbAuthorized := False, mbLastDeauthorizedAt := 1000, mbUpdatedAt := 1001, mbRevision := 1 + 1\<rparr>"
  have "wfMember ?m" using ex_wf(2) by (auto simp: wfMember_def exMember_def NewMember_def)
  moreover have "\<not> memberHasSpecialistRole (exMember\<lparr>mbAuthorized := True, mbRevision := 1\<rparr>)"
    by (simp add: memberHasSpecialistRole_def exMember_def NewMember_def)
  ultimately show ?thesis
    using set_authorization_spec [OF _ exAuthorized_inv r] r ex_owned exAuthorized_member by (simp add: Let_def exService_simps)
qed

text \<open>
  C24. Administrative update of a member, the exact effect on every branch, over the in-memory store with
  a live context. A network of another
  controller, an unknown member and a stale revision are refused with their errors and change nothing.
  Otherwise the new member is the old one with exactly the updatable fields replaced, so that its
  identity, creation time and authorization are kept, the update time set and the revision advanced by
  one. If it is invalid nothing is stored; if the specialist roles of an authorized member change and
  the bump of its network fails, the call fails with the member stored; else that member is stored and
  returned, and the network has advanced by one revision exactly when those roles changed. No update
  ever publishes a deauthorization.
\<close>

theorem update_member_spec:
  assumes "svStore sv = memoryStore" "memInv (wStore w)" "UpdateMember sv None i j u v w = (r, w')"
  shows "memInv (wStore w') \<and> wDeauthorized w' = wDeauthorized w \<and>
   (case validateOwnedNetwork sv i of Inl e \<Rightarrow> r = Inl e \<and> w' = w | Inr _ \<Rightarrow>
    case memGetMember None i j (wStore w) of Inl e \<Rightarrow> r = Inl e \<and> w' = w | Inr old \<Rightarrow>
    if mbRevision old \<noteq> v then r = Inl ErrConflict \<and> w' = w
    else
      let now = (\<lambda>k. svNow sv (wClock w + k)); a = memAbs (wStore w); a' = memAbs (wStore w');
          m = (applyMemberUpdate u old)\<lparr>mbUpdatedAt := now 0, mbRevision := v + 1\<rparr>;
          changed = (mbAuthorized old \<and> (mbActiveBridge old \<noteq> muActiveBridge u \<or> mbNetworkRelay old \<noteq> muNetworkRelay u
             \<or> mbMulticastReplicator old \<noteq> muMulticastReplicator u));
          saved = a\<lparr>asMembers := (asMembers a)((i, j) \<mapsto> m)\<rparr> in
      mbAuthorized m = mbAuthorized old \<and> mbNetworkID m = i \<and> mbNodeID m = j \<and> mbCreatedAt m = mbCreatedAt old \<and>
      (if \<not> wfMember m then \<not> isOk r \<and> a' = a
       else if \<not> changed then r = Inr m \<and> a' = saved
       else case bumpAt i (now 1) saved of None \<Rightarrow> \<not> isOk r \<and> a' = saved | Some bumped \<Rightarrow> r = Inr m \<and> a' = bumped))"
proof (cases "\<exists>old. validateOwnedNetwork sv i = Inr () \<and> memGetMember None i j (wStore w) = Inr old \<and> mbRevision old = v")
  case False
  then show ?thesis
    using assms by (auto simp: UpdateMember_def run_simps Let_def split: if_splits sum.splits)
next
  case True
  then obtain old where old: "validateOwnedNetwork sv i = Inr ()" "memGetMember None i j (wStore w) = Inr old" "mbRevision old = v" by blast
  have "sim memInv memAbs (UpdateMember sv None i j u v) (UpdateMember (absService sv) None i j u v)"
    using mem.sim_UpdateMember [of sv i j u v] unfolding memService_same [OF assms(1)] .
  from mem_sim [OF this assms(2,3)] have inv: "memInv (wStore w')" and
    a: "UpdateMember (absService sv) None i j u v (absWorld memAbs w) = (r, absWorld memAbs w')" by auto
  have old': "validateOwnedNetwork (absService sv) i = Inr ()" "asMembers (wStore (absWorld memAbs w)) (i, j) = Some old"
    using old(1,2) mem_get [OF assms(2)] by (simp_all add: validateOwnedNetwork_def)
  have wf: "wfAStore (wStore (absWorld memAbs w))" using memInv_wf [OF assms(2)] by simp
  have k: "mbNetworkID (applyMemberUpdate u old) = i" "mbNodeID (applyMemberUpdate u old) = j"
      "mbAuthorized (applyMemberUpdate u old) = mbAuthorized old" "mbCreatedAt (applyMemberUpdate u old) = mbCreatedAt old"
    using wfAStoreD(2) [OF wf old'(2)] by (simp_all add: applyMemberUpdate_def)
  show ?thesis
    using abs_UpdateMember_effect [OF _ wf a old' old(3)] inv old k
    by (auto simp: storeThenBump_def Let_def split: option.splits if_splits)
qed

definition exMemberUpdate :: MemberUpdate where
  "exMemberUpdate = \<lparr> muName = ''gateway'', muActiveBridge = True, muNetworkRelay = False, muMulticastReplicator = False,
     muNoAutoAssign = True, muIPAssignments = [Addr4 0x0a000001], muCapabilities = [], muTags = [],
     muAuthenticationExpiryTime = 0, muAuthenticationURL = [], muRemoteTraceTarget = [], muRemoteTraceLevel = 0,
     muSSOExempt = False \<rparr>"

theorem update_member_spec_witness:
  "\<exists>m w'. UpdateMember exService None exNetworkID exNodeID exMemberUpdate 1 exWorld = (Inr m, w') \<and> mbRevision m = 1 + 1
     \<and> \<not> mbAuthorized m \<and> mbIPAssignments m = [Addr4 0x0a000001] \<and> wDeauthorized w' = []"
proof -
  obtain r w' where r: "UpdateMember exService None exNetworkID exNodeID exMemberUpdate 1 exWorld = (r, w')" by force
  let ?m = "applyMemberUpdate exMemberUpdate (exMember\<lparr>mbRevision := 1\<rparr>)\<lparr>mbUpdatedAt := 1000, mbRevision := 1 + 1\<rparr>"
  have "wfMember ?m"
    using ex_wf(2) by (auto simp: wfMember_def exMember_def NewMember_def applyMemberUpdate_def exMemberUpdate_def)
  moreover have "\<not> mbAuthorized exMember" by (simp add: exMember_def NewMember_def)
  moreover have "mbIPAssignments (applyMemberUpdate exMemberUpdate x) = [Addr4 0x0a000001]" for x
    by (simp add: applyMemberUpdate_def exMemberUpdate_def)
  ultimately show ?thesis
    using update_member_spec [OF _ _ r] r exStore_inv ex_owned exStore_member by (simp add: Let_def exService_simps)
qed

end
