(* ===== verification/Ipam.thy ===== *)
theory Ipam
  imports ServiceSafety
begin

unbundle bit_operations_syntax

text \<open>
  Correctness of automatic address assignment (\<^verbatim>\<open>internal/controller/ipam.go\<close>): the address found is in
  a pool of the requested family, covered by a managed route and not in use; none is missed within the
  scan limit; and assignment never gives one address to two members.
\<close>

section \<open>The search\<close>

text \<open>An address the search may return: \<open>k\<close> steps into the pool, every step within it.\<close>

definition nthOfPool :: "IPPool \<Rightarrow> nat \<Rightarrow> Addr" where
  "nthOfPool p k = (Next ^^ k) (plStart p)"

definition withinPool :: "IPPool \<Rightarrow> Addr \<Rightarrow> bool" where
  "withinPool p a = (addrIsValid a \<and> Compare a (plEnd p) \<le> 0)"

definition available :: "Route list \<Rightarrow> Addr set \<Rightarrow> Addr \<Rightarrow> bool" where
  "available routes used a = (a \<notin> used \<and> addressHasManagedRoute routes a)"

lemma Next_family: "addrIsValid (Next a) \<Longrightarrow> Is4 (Next a) = Is4 a"
  by (cases a) (auto split: if_splits)

lemma Next_funpow_family: "addrIsValid ((Next ^^ k) a) \<Longrightarrow> Is4 ((Next ^^ k) a) = Is4 a"
proof (induction k)
  case (Suc k)
  have "addrIsValid ((Next ^^ k) a)" using Suc.prems by (cases "(Next ^^ k) a") auto
  then show ?case using Suc Next_family by simp
qed simp

text \<open>What the scan of one pool does from its \<open>k\<close>-th address on.\<close>

lemma scanPool_Some:
  assumes "scanPool routes used (plEnd p) n (nthOfPool p k) = Inl (Some a)"
  shows "\<exists>j \<ge> k. a = nthOfPool p j \<and> withinPool p a \<and> available routes used a"
  using assms
proof (induction "maxIPAMPoolScan - n" arbitrary: n k rule: less_induct)
  case less
  let ?c = "nthOfPool p k"
  have nxt: "Next ?c = nthOfPool p (Suc k)" by (simp add: nthOfPool_def)
  have c: "withinPool p ?c" "Suc n \<le> maxIPAMPoolScan"
    using less.prems by (auto simp: scanPool.simps [of _ _ _ n] withinPool_def not_le split: if_splits)
  show ?case
  proof (cases "available routes used ?c")
    case True
    then have "a = ?c" using less.prems c by (auto simp: scanPool.simps [of _ _ _ n] withinPool_def available_def)
    with True c show ?thesis by blast
  next
    case False
    then have "scanPool routes used (plEnd p) (Suc n) (nthOfPool p (Suc k)) = Inl (Some a)"
      using less.prems c nxt by (auto simp: scanPool.simps [of _ _ _ n] withinPool_def available_def)
    from less.hyps [OF _ this] c show ?thesis by (meson Suc_le_lessD Suc_leD diff_less_mono2 lessI)
  qed
qed

text \<open>A pool is left without an address only if it has none, or the scan limit was reached.\<close>

lemma scanPool_Inr:
  assumes "scanPool routes used (plEnd p) n (nthOfPool p k) = Inr n'"
    and "k \<le> j" "\<forall>l. k \<le> l \<and> l \<le> j \<longrightarrow> withinPool p (nthOfPool p l)"
  shows "\<not> available routes used (nthOfPool p j)"
  using assms
proof (induction "maxIPAMPoolScan - n" arbitrary: n k rule: less_induct)
  case less
  let ?c = "nthOfPool p k"
  have nxt: "Next ?c = nthOfPool p (Suc k)" by (simp add: nthOfPool_def)
  have w: "withinPool p ?c" using less.prems(2,3) by auto
  then have c: "Suc n \<le> maxIPAMPoolScan" "\<not> available routes used ?c"
    using less.prems(1) by (auto simp: scanPool.simps [of _ _ _ n] withinPool_def available_def not_le split: if_splits)
  show ?case
  proof (cases "k = j")
    case False
    have "scanPool routes used (plEnd p) (Suc n) (nthOfPool p (Suc k)) = Inr n'"
      using less.prems(1) c w nxt by (auto simp: scanPool.simps [of _ _ _ n] withinPool_def available_def)
    moreover have "maxIPAMPoolScan - Suc n < maxIPAMPoolScan - n" using c(1) by simp
    ultimately show ?thesis using less.hyps False less.prems(2,3) by simp
  qed (use c in simp)
qed

lemma scanPools_Some:
  "scanPools routes used ipv4 n pools = Some a \<Longrightarrow>
     \<exists>p \<in> set pools. Is4 (plStart p) = ipv4 \<and> (\<exists>k. a = nthOfPool p k) \<and> withinPool p a \<and> available routes used a"
proof (induction routes used ipv4 n pools rule: scanPools.induct)
  case (2 routes used ipv4 n p pools)
  show ?case
  proof (cases "Is4 (plStart p) = ipv4")
    case True
    show ?thesis
    proof (cases "scanPool routes used (plEnd p) n (plStart p)")
      case (Inl r)
      then have "scanPool routes used (plEnd p) n (nthOfPool p 0) = Inl (Some a)"
        using "2.prems" True by (simp add: nthOfPool_def)
      from scanPool_Some [OF this] True show ?thesis by auto
    next
      case (Inr n')
      then show ?thesis using 2 True by auto
    qed
  qed (use 2 in auto)
qed simp

lemma firstAvailable_Some:
  assumes "firstAvailableAddress network used ipv4 = Some a"
  shows "(\<exists>p \<in> set (nwIPPools network). Is4 (plStart p) = ipv4 \<and> (\<exists>k. a = nthOfPool p k) \<and> withinPool p a)
    \<and> available (nwRoutes network) used a \<and> Is4 a = ipv4 \<and> addrIsValid a"
proof -
  from scanPools_Some [OF assms [unfolded firstAvailableAddress_def]] obtain p k where
    p: "p \<in> set (nwIPPools network)" "Is4 (plStart p) = ipv4" "a = nthOfPool p k" "withinPool p a" "available (nwRoutes network) used a"
    by blast
  then have "Is4 a = ipv4" using Next_funpow_family [of k "plStart p"] by (simp add: nthOfPool_def withinPool_def)
  with p show ?thesis by (auto simp: withinPool_def)
qed

text \<open>
  The automatic address search is exact up to its scan limit: an address it returns belongs to a
  pool of the requested family, lies under a managed route and is not in use; and if a pool of that
  family is scanned without result, no address of the pool was available.
\<close>

theorem first_available_exact:
  "(case firstAvailableAddress network used ipv4 of
      Some a \<Rightarrow> a \<notin> used \<and> addressHasManagedRoute (nwRoutes network) a \<and> Is4 a = ipv4
        \<and> list_ex (\<lambda>p. Is4 (plStart p) = ipv4 \<and> (\<exists>k. a = nthOfPool p k) \<and> withinPool p a) (nwIPPools network)
    | None \<Rightarrow> True)
   \<and> (case scanPool (nwRoutes network) used (plEnd p) n (plStart p) of
        Inr _ \<Rightarrow> \<not> (\<exists>j. list_all (\<lambda>l. withinPool p (nthOfPool p l)) [0..<Suc j]
                   \<and> nthOfPool p j \<notin> used \<and> addressHasManagedRoute (nwRoutes network) (nthOfPool p j))
      | Inl _ \<Rightarrow> True)"
proof
  show "case firstAvailableAddress network used ipv4 of
      Some a \<Rightarrow> a \<notin> used \<and> addressHasManagedRoute (nwRoutes network) a \<and> Is4 a = ipv4
        \<and> list_ex (\<lambda>p. Is4 (plStart p) = ipv4 \<and> (\<exists>k. a = nthOfPool p k) \<and> withinPool p a) (nwIPPools network)
    | None \<Rightarrow> True"
    using firstAvailable_Some [of network used ipv4]
    by (cases "firstAvailableAddress network used ipv4") (auto simp: available_def list_ex_iff)
  have "\<not> available (nwRoutes network) used (nthOfPool p j)"
    if "scanPool (nwRoutes network) used (plEnd p) n (plStart p) = Inr m" "list_all (\<lambda>l. withinPool p (nthOfPool p l)) [0..<Suc j]" for m j
    using scanPool_Inr [of "nwRoutes network" used p n 0 m j] that
    by (simp add: nthOfPool_def list_all_iff del: upt_Suc)
  then show "case scanPool (nwRoutes network) used (plEnd p) n (plStart p) of
        Inr _ \<Rightarrow> \<not> (\<exists>j. list_all (\<lambda>l. withinPool p (nthOfPool p l)) [0..<Suc j]
                   \<and> nthOfPool p j \<notin> used \<and> addressHasManagedRoute (nwRoutes network) (nthOfPool p j))
      | Inl _ \<Rightarrow> True"
    by (cases "scanPool (nwRoutes network) used (plEnd p) n (plStart p)") (auto simp: available_def simp del: upt_Suc)
qed

section \<open>Assignment\<close>

text \<open>The addresses in use in a network.\<close>

definition usedIn :: "NetworkID \<Rightarrow> AStore \<Rightarrow> Addr set" where
  "usedIn i a = (\<Union>m \<in> {m. \<exists>j. asMembers a (i, j) = Some m}. set (mbIPAssignments m))"

text \<open>A pool address of the network, under a managed route.\<close>

definition assignable :: "Network \<Rightarrow> Addr \<Rightarrow> bool" where
  "assignable network a = (addressHasManagedRoute (nwRoutes network) a
     \<and> list_ex (\<lambda>p. (\<exists>k. a = nthOfPool p k) \<and> withinPool p a) (nwIPPools network))"

lemma aListMembers_set:
  assumes "aListMembers i a = Inr ms" "finite {j. asMembers a (i, j) \<noteq> None}"
  shows "set ms = {m. \<exists>j. asMembers a (i, j) = Some m}"
proof -
  have "ms = map (\<lambda>j. the (asMembers a (i, j))) (sorted_list_of_set {j. asMembers a (i, j) \<noteq> None})"
    using assms(1) by (auto simp: aListMembers_def split: if_splits)
  then have "set ms = (\<lambda>j. the (asMembers a (i, j))) ` {j. asMembers a (i, j) \<noteq> None}" using assms(2) by simp
  also have "\<dots> = {m. \<exists>j. asMembers a (i, j) = Some m}" by force
  finally show ?thesis .
qed

lemma firstAvailable_assignable:
  assumes "firstAvailableAddress network used ipv4 = Some a"
  shows "assignable network a" "a \<notin> used" "Is4 a = ipv4"
  using firstAvailable_Some [OF assms] by (auto simp: assignable_def available_def list_ex_iff)

lemma abs_ensure:
  assumes "svStore sv = absStore" "wfAStore (wStore w)" "finite {j. asMembers (wStore w) (nwID network, j) \<noteq> None}"
    and "ensureAutomaticAssignments sv None network member w = (Inr m, w')"
  shows "(wStore w' = wStore w \<and> (m = member \<or> asMembers (wStore w) (nwID network, mbNodeID member) = Some m))
    \<or> (\<exists>cur new. asMembers (wStore w) (nwID network, mbNodeID member) = Some cur \<and> \<not> mbNoAutoAssign cur
        \<and> m = cur\<lparr>mbIPAssignments := mbIPAssignments cur @ new, mbUpdatedAt := svNow sv (wClock w), mbRevision := mbRevision cur + 1\<rparr>
        \<and> wStore w' = (wStore w)\<lparr>asMembers := (asMembers (wStore w))((nwID network, mbNodeID member) \<mapsto> m)\<rparr>
        \<and> new \<noteq> [] \<and> distinct (map Is4 new) \<and> list_all (assignable network) new \<and> set new \<inter> usedIn (nwID network) (wStore w) = {}
        \<and> list_all (\<lambda>a. \<not> hasAddressFamily (mbIPAssignments cur) (Is4 a)) new)"
proof -
  let ?i = "nwID network" and ?j = "mbNodeID member"
  consider (same) "wStore w' = wStore w \<and> (m = member \<or> asMembers (wStore w) (?i, ?j) = Some m)"
    | (more) cur ms where "asMembers (wStore w) (?i, ?j) = Some cur" "\<not> mbNoAutoAssign cur" "aListMembers ?i (wStore w) = Inr ms"
      "let need4 = (amIPv4ZeroTier (nwAssignment network) \<and> \<not> hasAddressFamily (mbIPAssignments cur) True);
           need6 = (amIPv6ZeroTier (nwAssignment network) \<and> \<not> hasAddressFamily (mbIPAssignments cur) False);
           used = (\<Union>existing \<in> set ms. set (mbIPAssignments existing));
           address4 = (if need4 then firstAvailableAddress network used True else None);
           address6 = (if need6 then firstAvailableAddress network (used \<union> set_option address4) False else None);
           c = cur\<lparr>mbIPAssignments := mbIPAssignments cur @ optionList address4 @ optionList address6, mbUpdatedAt := svNow sv (wClock w)\<rparr> in
       (address4 \<noteq> None \<or> address6 \<noteq> None) \<and> aSaveMember c (wStore w) = (Inr (), wStore w')
        \<and> asMembers (wStore w') (?i, mbNodeID c) = Some m"
    using assms(1,4)
    by (cases "asMembers (wStore w) (?i, ?j)"; cases "aListMembers ?i (wStore w)")
      (auto simp: ensureAutomaticAssignments_def run_simps Let_def split: if_splits sum.splits prod.splits)
  then show ?thesis
  proof cases
    case more
    define used where "used = usedIn ?i (wStore w)"
    define a4 where "a4 = (if amIPv4ZeroTier (nwAssignment network) \<and> \<not> hasAddressFamily (mbIPAssignments cur) True
      then firstAvailableAddress network used True else None)"
    define a6 where "a6 = (if amIPv6ZeroTier (nwAssignment network) \<and> \<not> hasAddressFamily (mbIPAssignments cur) False
      then firstAvailableAddress network (used \<union> set_option a4) False else None)"
    define new where "new = optionList a4 @ optionList a6"
    define c where "c = cur\<lparr>mbIPAssignments := mbIPAssignments cur @ new, mbUpdatedAt := svNow sv (wClock w)\<rparr>"
    have u: "(\<Union>existing \<in> set ms. set (mbIPAssignments existing)) = used"
      using aListMembers_set [OF more(3) assms(3)] by (simp add: used_def usedIn_def)
    have "(a4 \<noteq> None \<or> a6 \<noteq> None) \<and> aSaveMember c (wStore w) = (Inr (), wStore w')
        \<and> asMembers (wStore w') (?i, mbNodeID c) = Some m"
      using more(4) unfolding Let_def u c_def new_def a6_def a4_def .
    then have sv: "a4 \<noteq> None \<or> a6 \<noteq> None" "aSaveMember c (wStore w) = (Inr (), wStore w')"
        "asMembers (wStore w') (?i, mbNodeID c) = Some m" by auto
    have k: "mbNetworkID c = ?i" "mbNodeID c = ?j" "mbRevision c = mbRevision cur"
      using wfAStoreD(2) [OF assms(2) more(1)] by (simp_all add: c_def)
    have st: "wStore w' = (wStore w)\<lparr>asMembers := (asMembers (wStore w))((?i, ?j) \<mapsto> c\<lparr>mbRevision := mbRevision cur + 1\<rparr>)\<rparr>"
      using sv(2) k more(1) by (auto simp: aSaveMember_def split: sum.splits if_splits)
    then have m: "m = c\<lparr>mbRevision := mbRevision cur + 1\<rparr>" using sv(3) k by simp
    have f4: "assignable network x" "x \<notin> used" "Is4 x" "\<not> hasAddressFamily (mbIPAssignments cur) True" if "a4 = Some x" for x
      using that firstAvailable_assignable [of network used True x] by (auto simp: a4_def split: if_splits)
    have f6: "assignable network x" "x \<notin> used" "\<not> Is4 x" "\<not> hasAddressFamily (mbIPAssignments cur) False" if "a6 = Some x" for x
      using that firstAvailable_assignable [of network "used \<union> set_option a4" False x] by (auto simp: a6_def split: if_splits)
    have "new \<noteq> [] \<and> distinct (map Is4 new) \<and> list_all (assignable network) new \<and> set new \<inter> used = {}
        \<and> list_all (\<lambda>a. \<not> hasAddressFamily (mbIPAssignments cur) (Is4 a)) new"
      using sv(1) f4 f6 by (cases a4; cases a6) (auto simp: new_def optionList_def)
    then show ?thesis using more(1,2) st m by (auto simp: c_def used_def)
  qed blast
qed

text \<open>No address of a network belongs to two members.\<close>

definition disjointAssignments :: "NetworkID \<Rightarrow> AStore \<Rightarrow> bool" where
  "disjointAssignments i a = (\<forall>j k m n. j \<noteq> k \<longrightarrow> asMembers a (i, j) = Some m \<longrightarrow> asMembers a (i, k) = Some n \<longrightarrow>
     set (mbIPAssignments m) \<inter> set (mbIPAssignments n) = {})"

lemma disjointAssignments_upd:
  assumes "disjointAssignments i a" "asMembers a (i, j) = Some cur" "set new \<inter> usedIn i a = {}"
    and "mbIPAssignments m = mbIPAssignments cur @ new"
  shows "disjointAssignments i (a\<lparr>asMembers := (asMembers a)((i, j) \<mapsto> m)\<rparr>)"
proof -
  have other: "set (mbIPAssignments m) \<inter> set (mbIPAssignments n) = {}" if "j \<noteq> k" "asMembers a (i, k) = Some n" for k n
  proof -
    have "set (mbIPAssignments cur) \<inter> set (mbIPAssignments n) = {}"
      using assms(1,2) that unfolding disjointAssignments_def by blast
    moreover have "set (mbIPAssignments n) \<subseteq> usedIn i a" using that(2) by (auto simp: usedIn_def)
    ultimately show ?thesis using assms(3,4) by auto
  qed
  show ?thesis
    unfolding disjointAssignments_def
  proof (intro allI impI)
    fix k l p q
    assume kl: "k \<noteq> l" and p: "asMembers (a\<lparr>asMembers := (asMembers a)((i, j) \<mapsto> m)\<rparr>) (i, k) = Some p"
      and q: "asMembers (a\<lparr>asMembers := (asMembers a)((i, j) \<mapsto> m)\<rparr>) (i, l) = Some q"
    consider "k = j" | "l = j" | "k \<noteq> j" "l \<noteq> j" by blast
    then show "set (mbIPAssignments p) \<inter> set (mbIPAssignments q) = {}"
    proof cases
      case 1
      then show ?thesis using other [of l q] p q kl by auto
    next
      case 2
      then show ?thesis using other [of k p] p q kl by auto
    next
      case 3
      then show ?thesis using assms(1) p q kl unfolding disjointAssignments_def by auto
    qed
  qed
qed

lemma memAbs_finite: "finite {j. asMembers (memAbs s) (i, j) \<noteq> None}"
proof (cases "fmlookup (msMembers s) i")
  case (Some inner)
  have "{j. asMembers (memAbs s) (i, j) \<noteq> None} = fset (fmdom inner)"
    using Some by (auto simp: lookup2_def fmlookup_dom_iff)
  then show ?thesis by simp
qed (simp add: lookup2_def)

text \<open>
  C26. Automatic assignment: when \<^verbatim>\<open>ensureAutomaticAssignments\<close> succeeds it either changed nothing or
  appended to the stored member at most one address per missing family, each from a pool of the
  network, under a managed route and used by no member; nothing else changed, and if no address was
  shared between members before, none is shared afterwards.
\<close>

theorem automatic_assignment_spec:
  assumes "svStore sv = memoryStore" "memInv (wStore w)" "ensureAutomaticAssignments sv None network member w = (Inr m, w')"
  shows "memInv (wStore w')
    \<and> (memAbs (wStore w') = memAbs (wStore w)
       \<or> (\<exists>cur new. memGetMember None (nwID network) (mbNodeID member) (wStore w) = Inr cur \<and> \<not> mbNoAutoAssign cur
           \<and> m = cur\<lparr>mbIPAssignments := mbIPAssignments cur @ new, mbUpdatedAt := svNow sv (wClock w), mbRevision := mbRevision cur + 1\<rparr>
           \<and> memAbs (wStore w') = (memAbs (wStore w))\<lparr>asMembers := (asMembers (memAbs (wStore w)))((nwID network, mbNodeID member) \<mapsto> m)\<rparr>
           \<and> new \<noteq> [] \<and> distinct (map Is4 new) \<and> list_all (assignable network) new
           \<and> set new \<inter> usedIn (nwID network) (memAbs (wStore w)) = {}
           \<and> list_all (\<lambda>a. \<not> hasAddressFamily (mbIPAssignments cur) (Is4 a)) new))
    \<and> (disjointAssignments (nwID network) (memAbs (wStore w)) \<longrightarrow> disjointAssignments (nwID network) (memAbs (wStore w')))"
proof -
  have "sim memInv memAbs (ensureAutomaticAssignments sv None network member) (ensureAutomaticAssignments (absService sv) None network member)"
    using mem.sim_ensureAutomaticAssignments [of sv network member] unfolding memService_same [OF assms(1)] .
  from mem_sim [OF this assms(2,3)] have inv: "memInv (wStore w')" and
    a: "ensureAutomaticAssignments (absService sv) None network member (absWorld memAbs w) = (Inr m, absWorld memAbs w')" by auto
  have "wfAStore (wStore (absWorld memAbs w))" "finite {j. asMembers (wStore (absWorld memAbs w)) (nwID network, j) \<noteq> None}"
    using memInv_wf [OF assms(2)] memAbs_finite [of "wStore w" "nwID network"] by simp_all
  from abs_ensure [OF _ this a] consider "memAbs (wStore w') = memAbs (wStore w)"
    | cur new where "asMembers (memAbs (wStore w)) (nwID network, mbNodeID member) = Some cur" "\<not> mbNoAutoAssign cur"
        "m = cur\<lparr>mbIPAssignments := mbIPAssignments cur @ new, mbUpdatedAt := svNow sv (wClock w), mbRevision := mbRevision cur + 1\<rparr>"
        "memAbs (wStore w') = (memAbs (wStore w))\<lparr>asMembers := (asMembers (memAbs (wStore w)))((nwID network, mbNodeID member) \<mapsto> m)\<rparr>"
        "new \<noteq> []" "distinct (map Is4 new)" "list_all (assignable network) new" "set new \<inter> usedIn (nwID network) (memAbs (wStore w)) = {}"
        "list_all (\<lambda>a. \<not> hasAddressFamily (mbIPAssignments cur) (Is4 a)) new"
    by (auto simp del: map_upd_eqD1)
  then show ?thesis
  proof cases
    case 1
    then show ?thesis using inv by auto
  next
    case 2
    have g: "memGetMember None (nwID network) (mbNodeID member) (wStore w) = Inr cur" using 2(1) mem_get [OF assms(2)] by blast
    have "disjointAssignments (nwID network) (memAbs (wStore w'))" if "disjointAssignments (nwID network) (memAbs (wStore w))"
      unfolding 2(4) using disjointAssignments_upd [OF that 2(1) 2(8), of m] 2(3) by simp
    then show ?thesis using inv g 2 by blast
  qed
qed

definition exPoolNetwork :: Network where
  "exPoolNetwork = exNetwork\<lparr>nwIPPools := [\<lparr> plStart = Addr4 0x0a000001, plEnd = Addr4 0x0a0000fe \<rparr>],
     nwRoutes := [\<lparr> rtTarget = \<lparr> pfAddr = Addr4 0x0a000000, pfBits = 24 \<rparr>, rtVia = NoAddr \<rparr>],
     nwAssignment := \<lparr> amIPv4ZeroTier = True, amIPv6ZeroTier = False, amIPv6RFC4193 = False, amIPv6SixPlane = False \<rparr>\<rparr>"

lemma exMember_fields: "mbIPAssignments exMember = []" "\<not> mbNoAutoAssign exMember"
  by (simp_all add: exMember_def NewMember_def)

lemma exPool_first: "firstAvailableAddress exPoolNetwork {} True = Some (Addr4 0x0a000001)"
  by (simp add: firstAvailableAddress_def exPoolNetwork_def scanPool.simps maxIPAMPoolScan_def addressHasManagedRoute_def prefixIsValid_def)

theorem automatic_assignment_spec_witness:
  "\<exists>m w'. ensureAutomaticAssignments exService None exPoolNetwork exMember exWorld = (Inr m, w') \<and> memInv (wStore w')
     \<and> mbIPAssignments m = [Addr4 0x0a000001]"
proof -
  obtain ms where ms: "memListMembers None exNetworkID exStore = Inr ms"
      "set ms = {m. \<exists>j. asMembers (memAbs exStore) (exNetworkID, j) = Some m}"
    using mem.list_members [OF exStore_inv, of exNetworkID] by (auto simp: exStore_def)
  have used: "(\<Union>existing \<in> set ms. set (mbIPAssignments existing)) = {}"
    unfolding ms(2) by (auto simp: exStore_def lookup2_def exMember_fields split: if_splits)
  have id: "nwID exPoolNetwork = exNetworkID" by (simp add: exPoolNetwork_def)
  let ?m = "exMember\<lparr>mbRevision := 1, mbIPAssignments := [Addr4 0x0a000001], mbUpdatedAt := 1000\<rparr>"
  have v: "Member_Validate ?m = Inr ()"
    using ex_wf(2) by (auto simp: Member_Validate_iff wfMember_def exMember_def NewMember_def)
  have g: "memGetMember None exNetworkID exNodeID exStore = Inr (exMember\<lparr>mbRevision := 1\<rparr>)" by (rule exStore_member)
  obtain s' where sv: "memSaveMember None ?m exStore = (Inr (), s')" "memGetMember None exNetworkID exNodeID s' = Inr (?m\<lparr>mbRevision := 1 + 1\<rparr>)"
    using v by (simp add: memSaveMember_def exStore_def lookup2_def update2_def memGetMember_def)
  have "ensureAutomaticAssignments exService None exPoolNetwork exMember exWorld
      = (Inr (?m\<lparr>mbRevision := 1 + 1\<rparr>), \<lparr> wStore = s', wClock = 1, wRandom = 0, wDeauthorized = [] \<rparr>)"
    using g sv ms(1) used exPool_first v
    by (simp add: ensureAutomaticAssignments_def run_simps Let_def exService_def exWorld_def id exMember_fields hasAddressFamily_def
        optionList_def exPoolNetwork_def)
  with automatic_assignment_spec [OF _ _ this] show ?thesis using exStore_inv by (auto simp: exService_def exWorld_def)
qed

end
