(* ===== verification/Packet.thy ===== *)
theory Packet
  imports Domain
begin

unbundle bit_operations_syntax

text \<open>
  Package \<^verbatim>\<open>internal/zerotier/packet\<close>, framing: the 28-byte packet header and the 16-byte fragment
  header (\<^verbatim>\<open>packet.go\<close>), packet construction (\<^verbatim>\<open>Build\<close> of \<^verbatim>\<open>armor.go\<close>) and the splitting of an
  armored packet into datagrams (\<^verbatim>\<open>fragmentArmored\<close> of \<^verbatim>\<open>fragment.go\<close>).
\<close>

section \<open>Constants\<close>

definition ProtocolVersionCurrent :: byte where "ProtocolVersionCurrent = 13"
definition MinimumProtocolVersion :: byte where "MinimumProtocolVersion = 4"
definition HeaderLength :: nat where "HeaderLength = 28"
definition FragmentLength :: nat where "FragmentLength = 16"
definition FlagExtendedArmor :: byte where "FlagExtendedArmor = 0x80"
definition FlagFragmented :: byte where "FlagFragmented = 0x40"
definition FlagCompressed :: byte where "FlagCompressed = 0x80"
definition MaxPacketLength :: nat where "MaxPacketLength = 7 * 1432"
definition DefaultPhysicalMTU :: nat where "DefaultPhysicalMTU = 1432"
definition MaxPacketFragments :: nat where "MaxPacketFragments = 7"

definition CipherC25519Poly1305Clear :: byte where "CipherC25519Poly1305Clear = 0"
definition CipherC25519Poly1305Salsa :: byte where "CipherC25519Poly1305Salsa = 1"
definition CipherAESGMACSIV :: byte where "CipherAESGMACSIV = 3"

definition VerbHello :: byte where "VerbHello = 0x01"
definition VerbError :: byte where "VerbError = 0x02"
definition VerbOK :: byte where "VerbOK = 0x03"
definition VerbNetworkCredentials :: byte where "VerbNetworkCredentials = 0x0a"
definition VerbNetworkConfigRequest :: byte where "VerbNetworkConfigRequest = 0x0b"

lemmas packet_consts = ProtocolVersionCurrent_def MinimumProtocolVersion_def HeaderLength_def
  FragmentLength_def FlagExtendedArmor_def FlagFragmented_def FlagCompressed_def MaxPacketLength_def
  DefaultPhysicalMTU_def MaxPacketFragments_def CipherC25519Poly1305Clear_def
  CipherC25519Poly1305Salsa_def CipherAESGMACSIV_def VerbHello_def VerbError_def VerbOK_def
  VerbNetworkCredentials_def VerbNetworkConfigRequest_def

section \<open>Headers\<close>

record RoutingHeader =
  rhPacketID :: uint64
  rhDestination :: NodeID
  rhSource :: NodeID
  rhFlags :: byte
  rhHops :: byte
  rhCipher :: byte
  rhFragmented :: bool
  rhExtendedArmor :: bool

record Decoded =
  dcRouting :: RoutingHeader
  dcAuthenticator :: bytes
  dcVerb :: byte
  dcCompressed :: bool
  dcPayload :: bytes

definition ParseRouting :: "bytes \<Rightarrow> RoutingHeader result" where
  "ParseRouting data =
     (if length data < HeaderLength then Inl (Errorf ''packet length %d is below header length %d'')
      else
        rbind (ParseNodeID (hex_encode (slice 8 13 data))) (\<lambda>destination.
        rbind (ParseNodeID (hex_encode (slice 13 18 data))) (\<lambda>source.
        let flags = data ! 18 in
        Inr \<lparr> rhPacketID = be_word (slice 0 8 data), rhDestination = destination, rhSource = source,
              rhFlags = flags, rhHops = flags AND 0x07, rhCipher = drop_bit 3 (flags AND 0x38),
              rhFragmented = (flags AND FlagFragmented \<noteq> 0),
              rhExtendedArmor = (flags AND FlagExtendedArmor \<noteq> 0) \<rparr>)))"

definition ParseDecoded :: "bytes \<Rightarrow> Decoded result" where
  "ParseDecoded data =
     rbind (ParseRouting data) (\<lambda>routing.
     Inr \<lparr> dcRouting = routing, dcAuthenticator = slice 19 27 data,
           dcVerb = (data ! 27) AND 0x1f, dcCompressed = ((data ! 27) AND FlagCompressed \<noteq> 0),
           dcPayload = drop HeaderLength data \<rparr>)"

record Fragment =
  fgPacketID :: uint64
  fgDestination :: NodeID
  fgTotalFragments :: byte
  fgNumber :: byte
  fgHops :: byte
  fgPayload :: bytes

definition IsFragment :: "bytes \<Rightarrow> bool" where
  "IsFragment data = (length data \<ge> FragmentLength \<and> data ! 13 = 0xff)"

definition ParseFragment :: "bytes \<Rightarrow> Fragment result" where
  "ParseFragment data =
     (if length data < FragmentLength then Inl (Errorf ''fragment length %d is below minimum %d'')
      else if data ! 13 \<noteq> 0xff then Inl (Errorf ''fragment indicator is not 0xff'')
      else if (data ! 15) AND 0xf8 \<noteq> 0 then Inl (Errorf ''fragment hop reserved bits are set'')
      else
        rbind (ParseNodeID (hex_encode (slice 8 13 data))) (\<lambda>destination.
        Inr \<lparr> fgPacketID = be_word (slice 0 8 data), fgDestination = destination,
              fgTotalFragments = drop_bit 4 (data ! 14), fgNumber = (data ! 14) AND 0x0f,
              fgHops = data ! 15, fgPayload = drop FragmentLength data \<rparr>))"

text \<open>
  \<^verbatim>\<open>hex.DecodeString\<close> with its error ignored: the bytes decoded before the first malformed pair.
\<close>

fun decodedHex :: "string \<Rightarrow> bytes" where
  "decodedHex (h # l # cs) = (case (hexval h, hexval l) of
     (Some a, Some b) \<Rightarrow> of_nat (16 * a + b) # decodedHex cs | _ \<Rightarrow> [])"
| "decodedHex _ = []"

lemma decodedHex_decode: "hex_decode s = Inr bs \<Longrightarrow> decodedHex s = bs"
  by (induction s arbitrary: bs rule: hex_decode.induct) (auto simp: rbind_eq_Inr split: option.splits)

definition Build :: "uint64 \<Rightarrow> NodeID \<Rightarrow> NodeID \<Rightarrow> byte \<Rightarrow> bytes \<Rightarrow> bytes result" where
  "Build packetID destination source verb payload =
     rbind (wrapErr ''destination: %w'' (NodeID_Validate destination)) (\<lambda>_.
     rbind (wrapErr ''source: %w'' (NodeID_Validate source)) (\<lambda>_.
     if verb > 0x1f then Inl (Errorf ''verb %d exceeds five-bit framing'')
     else if HeaderLength + length payload > MaxPacketLength
     then Inl (Errorf ''packet length exceeds %d bytes'')
     else Inr (be_bytes 8 packetID @ decodedHex destination @ decodedHex source @
               replicate 9 0 @ [verb] @ payload)))"

section \<open>Fragmentation\<close>

text \<open>
  The loop of \<^verbatim>\<open>fragmentArmored\<close> from fragment \<open>number\<close> at \<open>offset\<close>; \<^verbatim>\<open>total<<4 | number\<close> is written
  as a sum, which is the same for \<open>number < 16\<close>.
\<close>

function fragmentLoop :: "bytes \<Rightarrow> nat \<Rightarrow> nat \<Rightarrow> nat \<Rightarrow> nat \<Rightarrow> bytes list" where
  "fragmentLoop armored fragmentPayload totalFragments number offset =
     (if number < totalFragments then
        let len = min fragmentPayload (length armored - offset);
            fragment = take 13 armored @ [0xff, of_nat (16 * totalFragments + number), 0]
                         @ slice offset (offset + len) armored
        in fragment # fragmentLoop armored fragmentPayload totalFragments (Suc number) (offset + len)
      else [])"
  by pat_completeness auto
termination
  by (relation "measure (\<lambda>(a, p, totalFragments, number, off). totalFragments - number)") auto

declare fragmentLoop.simps [simp del]

text \<open>
  The callers of \<^verbatim>\<open>fragmentArmored\<close> never reach it with an MTU of at most \<^verbatim>\<open>FragmentLength\<close>, where
  the code would divide by zero or by a negative number.
\<close>

definition fragmentArmored :: "bytes \<Rightarrow> nat \<Rightarrow> bytes list result" where
  "fragmentArmored armored mtu =
     (if length armored \<le> mtu then Inr [armored]
      else if mtu \<le> FragmentLength then Inl (Panic ''integer divide by zero'')
      else
        let remaining = length armored - mtu; fragmentPayload = mtu - FragmentLength;
            totalFragments = 1 + (remaining + fragmentPayload - 1) div fragmentPayload
        in if totalFragments > MaxPacketFragments then Inl (Errorf ''packet requires too many fragments'')
           else Inr (take mtu armored # fragmentLoop armored fragmentPayload totalFragments 1 mtu))"

section \<open>Header lemmas\<close>

lemma unat_of_nat_byte: "x < 256 \<Longrightarrow> unat (of_nat x :: byte) = x"
  by (simp add: unat_of_nat)

lemma nibbles_of_byte:
  assumes "t < 16" "k < 16"
  shows "drop_bit 4 (of_nat (16 * t + k) :: byte) = of_nat t" "(of_nat (16 * t + k) :: byte) AND 0x0f = of_nat k"
proof -
  have u: "unat (of_nat (16 * t + k) :: byte) = 16 * t + k"
    unfolding unat_of_nat using assms by simp
  have t: "unat (of_nat t :: byte) = t" and k: "unat (of_nat k :: byte) = k"
    unfolding unat_of_nat using assms by simp_all
  show "drop_bit 4 (of_nat (16 * t + k) :: byte) = of_nat t"
    unfolding word_unat_eq_iff t unat_drop_bit_eq u using assms by (simp add: drop_bit_eq_div)
  have "(of_nat (16 * t + k) :: byte) AND 0x0f = take_bit 4 (of_nat (16 * t + k))"
    by (simp add: take_bit_eq_mask mask_numeral)
  also have "\<dots> = of_nat k"
    unfolding word_unat_eq_iff k unsigned_take_bit_eq u using assms by (simp add: take_bit_eq_mod)
  finally show "(of_nat (16 * t + k) :: byte) AND 0x0f = of_nat k" .
qed

lemma ParseNodeID_hex [simp]: "length bs = 5 \<Longrightarrow> ParseNodeID (hex_encode bs) = Inr (hex_encode bs)"
  using canonicalHex_encode [of bs 5] by (simp add: ParseNodeID_iff)

lemma decodedHex_hex_encode [simp]: "decodedHex (hex_encode bs) = bs"
  by (rule decodedHex_decode) simp

lemma decodedHex_canonical:
  assumes "canonicalHex (2 * n) s"
  shows "length (decodedHex s) = n \<and> hex_encode (decodedHex s) = s"
  using canonicalHex_decode [OF assms] by (auto dest: decodedHex_decode)

lemma decodedHex_node [simp]:
  assumes "canonicalHex 10 s"
  shows "length (decodedHex s) = 5" "hex_encode (decodedHex s) = s"
  using decodedHex_canonical [of 5 s] assms by simp_all

lemma decodedHex_network [simp]:
  assumes "canonicalHex 16 s"
  shows "length (decodedHex s) = 8" "hex_encode (decodedHex s) = s"
  using decodedHex_canonical [of 8 s] assms by simp_all

definition routingOf :: "bytes \<Rightarrow> RoutingHeader" where
  "routingOf data = \<lparr> rhPacketID = be_word (take 8 data), rhDestination = hex_encode (slice 8 13 data),
     rhSource = hex_encode (slice 13 18 data), rhFlags = data ! 18, rhHops = (data ! 18) AND 0x07,
     rhCipher = drop_bit 3 ((data ! 18) AND 0x38), rhFragmented = ((data ! 18) AND 0x40 \<noteq> 0),
     rhExtendedArmor = ((data ! 18) AND 0x80 \<noteq> 0) \<rparr>"

lemma ParseRouting_eq:
  "ParseRouting data = (if length data < 28 then Inl (Errorf ''packet length %d is below header length %d'')
     else Inr (routingOf data))"
  by (simp add: ParseRouting_def routingOf_def packet_consts Let_def)

lemma ParseRouting_Inr: "ParseRouting data = Inr r \<longleftrightarrow> 28 \<le> length data \<and> r = routingOf data"
  by (auto simp: ParseRouting_eq)

lemma slice_take: "j \<le> n \<Longrightarrow> slice i j (take n xs) = slice i j xs"
  by (simp add: slice_def drop_take min_def)

lemma routingOf_take: "19 \<le> n \<Longrightarrow> routingOf (take n a) = routingOf a"
  by (simp add: routingOf_def slice_take)

lemma routingOf_cong: "take 19 a = take 19 b \<Longrightarrow> routingOf a = routingOf b"
  using routingOf_take [of 19 a] routingOf_take [of 19 b] by simp

lemma Build_Inr:
  "Build i d s v p = Inr pkt \<longleftrightarrow> canonicalHex 10 d \<and> canonicalHex 10 s \<and> v \<le> 0x1f
     \<and> 28 + length p \<le> 10024
     \<and> pkt = be_bytes 8 i @ decodedHex d @ decodedHex s @ replicate 9 0 @ [v] @ p"
  by (auto simp: Build_def rbind_eq_Inr packet_consts not_less)

lemma length_Build: "Build i d s v p = Inr pkt \<Longrightarrow> length pkt = 28 + length p"
  by (auto simp: Build_Inr)

lemma low5_verb: "(v :: byte) \<le> 0x1f \<Longrightarrow> v AND 0x1f = v \<and> v AND 0x80 = 0"
proof -
  assume "v \<le> 0x1f"
  then have "unat v < 32" by (simp add: word_le_nat_alt)
  then have "v = take_bit 5 v"
    by (simp add: word_unat_eq_iff unsigned_take_bit_eq take_bit_nat_eq_self)
  moreover have "take_bit 5 v AND 0x1f = take_bit 5 v"
    by (rule bit_word_eqI) (auto simp: bit_simps dest!: byte_index)
  moreover have "take_bit 5 v AND 0x80 = 0"
    by (rule bit_word_eqI) (auto simp: bit_simps dest!: byte_index)
  ultimately show ?thesis by simp
qed

lemma ParseDecoded_Build:
  assumes "Build i d s v p = Inr pkt"
  shows "ParseDecoded pkt = Inr
    \<lparr> dcRouting = \<lparr> rhPacketID = i, rhDestination = d, rhSource = s, rhFlags = 0, rhHops = 0,
        rhCipher = 0, rhFragmented = False, rhExtendedArmor = False \<rparr>,
      dcAuthenticator = replicate 8 0, dcVerb = v, dcCompressed = False, dcPayload = p \<rparr>"
proof -
  have b: "canonicalHex 10 d" "canonicalHex 10 s" "v \<le> 0x1f"
    "pkt = be_bytes 8 i @ decodedHex d @ decodedHex s @ replicate 9 0 @ [v] @ p"
    using assms by (auto simp: Build_Inr)
  have r: "routingOf pkt = \<lparr> rhPacketID = i, rhDestination = d, rhSource = s, rhFlags = 0, rhHops = 0,
        rhCipher = 0, rhFragmented = False, rhExtendedArmor = False \<rparr>"
    using b by (simp add: routingOf_def slice_append_right nth_append slice_def)
  have "ParseRouting pkt = Inr (routingOf pkt)" using b by (simp add: ParseRouting_eq)
  then show ?thesis
    unfolding ParseDecoded_def r
    using b low5_verb [OF b(3)] by (simp add: packet_consts nth_append slice_def)
qed

section \<open>Fragmentation lemmas\<close>

lemma slice_beyond: "length xs \<le> i \<Longrightarrow> slice i j xs = []"
  by (simp add: slice_def)

lemma slice_min: "slice i (i + min n (length xs - i)) xs = slice i (i + n) xs"
  by (simp add: slice_def min_def)

definition fragmentHeader :: "bytes \<Rightarrow> nat \<Rightarrow> nat \<Rightarrow> bytes" where
  "fragmentHeader armored totalFragments k = take 13 armored @ [0xff, of_nat (16 * totalFragments + k), 0]"

lemma fragmentLoop_eq:
  "off \<le> length a \<Longrightarrow> fragmentLoop a fp tot num off =
     map (\<lambda>k. fragmentHeader a tot k @ slice (off + (k - num) * fp) (off + (k - num) * fp + fp) a) [num..<tot]"
proof (induction a fp tot num off rule: fragmentLoop.induct)
  case (1 a fp tot num off)
  show ?case
  proof (cases "num < tot")
    case True
    let ?len = "min fp (length a - off)"
    have "fragmentLoop a fp tot (Suc num) (off + ?len) =
      map (\<lambda>k. fragmentHeader a tot k @ slice (off + ?len + (k - Suc num) * fp) (off + ?len + (k - Suc num) * fp + fp) a)
        [Suc num..<tot]"
      using "1.prems" by (intro "1.IH" [OF True refl refl]) auto
    also have "\<dots> = map (\<lambda>k. fragmentHeader a tot k @ slice (off + (k - num) * fp) (off + (k - num) * fp + fp) a) [Suc num..<tot]"
    proof (rule map_cong [OF refl])
      fix k assume k: "k \<in> set [Suc num..<tot]"
      then obtain d where "k = Suc num + d" by (auto dest: le_Suc_ex)
      then have e: "(k - num) * fp = fp + (k - Suc num) * fp" by simp
      show "fragmentHeader a tot k @ slice (off + ?len + (k - Suc num) * fp) (off + ?len + (k - Suc num) * fp + fp) a
          = fragmentHeader a tot k @ slice (off + (k - num) * fp) (off + (k - num) * fp + fp) a"
      proof (cases "off + fp \<le> length a")
        case True
        then show ?thesis by (simp add: e add.assoc)
      next
        case False
        then have "slice (off + ?len + (k - Suc num) * fp) (off + ?len + (k - Suc num) * fp + fp) a = []"
          "slice (off + (k - num) * fp) (off + (k - num) * fp + fp) a = []"
          using "1.prems" by (auto intro!: slice_beyond simp: e)
        then show ?thesis by simp
      qed
    qed
    finally show ?thesis
      using True by (simp add: fragmentLoop.simps [of a fp tot num off] Let_def slice_min
          fragmentHeader_def upt_conv_Cons [of num tot])
  qed (simp add: fragmentLoop.simps [of a fp tot num off])
qed

lemma concat_slices:
  "concat (map (\<lambda>k. slice (off + k * fp) (off + k * fp + fp) a) [0..<n]) = take (n * fp) (drop off a)"
proof (induction n)
  case (Suc n)
  have "take (fp + n * fp) (drop off a) = take (n * fp) (drop off a) @ take fp (drop (n * fp) (drop off a))"
    by (metis add.commute take_add)
  then show ?case using Suc by (simp add: slice_def add.commute)
qed simp

text \<open>The \<open>i\<close>-th datagram of a packet and the part of the packet it carries.\<close>

definition datagramPayload :: "bytes \<Rightarrow> nat \<Rightarrow> nat \<Rightarrow> bytes" where
  "datagramPayload a mtu i = (if i = 0 then take mtu a
     else slice (mtu + (i - 1) * (mtu - 16)) (mtu + (i - 1) * (mtu - 16) + (mtu - 16)) a)"

definition datagramOf :: "bytes \<Rightarrow> nat \<Rightarrow> nat \<Rightarrow> nat \<Rightarrow> bytes" where
  "datagramOf a mtu n i = (if i = 0 then take mtu a else fragmentHeader a n i @ datagramPayload a mtu i)"

lemma concat_datagramPayload:
  assumes "length a \<le> mtu + n * (mtu - 16)"
  shows "concat (map (datagramPayload a mtu) [0..<Suc n]) = a"
proof -
  have "map (datagramPayload a mtu) [1..<Suc n] =
      map (\<lambda>k. slice (mtu + k * (mtu - 16)) (mtu + k * (mtu - 16) + (mtu - 16)) a) [0..<n]"
    by (rule nth_equalityI) (simp_all add: datagramPayload_def del: upt_Suc)
  then have "concat (map (datagramPayload a mtu) [1..<Suc n]) = take (n * (mtu - 16)) (drop mtu a)"
    by (simp only: concat_slices)
  also have "\<dots> = drop mtu a" using assms by simp
  finally show ?thesis by (simp add: upt_conv_Cons [of 0] datagramPayload_def del: upt_Suc)
qed

lemma ceil_div_bound: "0 < (f :: nat) \<Longrightarrow> r \<le> ((r + f - 1) div f) * f"
proof -
  assume f: "0 < f"
  have "r + f - 1 = ((r + f - 1) div f) * f + (r + f - 1) mod f" by simp
  moreover have "(r + f - 1) mod f < f" using f by simp
  ultimately show ?thesis using f by linarith
qed

lemma fragmentArmored_Inr:
  assumes "fragmentArmored a mtu = Inr frags" "mtu < length a"
  obtains n where "16 < mtu" "0 < n" "n \<le> 6" "frags = map (datagramOf a mtu (Suc n)) [0..<Suc n]"
    "length a \<le> mtu + n * (mtu - 16)"
proof -
  define n where "n = (length a - mtu + (mtu - 16) - 1) div (mtu - 16)"
  have m: "16 < mtu" using assms by (auto simp: fragmentArmored_def packet_consts split: if_splits)
  from assms have tot: "n \<le> 6" and fr: "frags = take mtu a # fragmentLoop a (mtu - 16) (Suc n) 1 mtu"
    by (auto simp: fragmentArmored_def packet_consts Let_def n_def split: if_splits)
  have b: "length a \<le> mtu + n * (mtu - 16)"
    using ceil_div_bound [of "mtu - 16" "length a - mtu"] m assms(2) by (simp add: n_def)
  with assms(2) have "0 < n" by (cases n) auto
  moreover have "frags = map (datagramOf a mtu (Suc n)) [0..<Suc n]"
    using assms(2) unfolding fr
    by (simp add: fragmentLoop_eq upt_conv_Cons [of 0] datagramOf_def datagramPayload_def del: upt_Suc)
  ultimately show ?thesis using that m tot b by blast
qed

text \<open>
  Framing round trip: whatever \<^verbatim>\<open>Build\<close> produces, \<^verbatim>\<open>ParseDecoded\<close> reads back with the same packet
  ID, destination, source, verb and payload, with clear flags, zero hops and no compression; \<^verbatim>\<open>Build\<close>
  fails exactly on a malformed address, a verb over five bits or a payload over the packet limit.
\<close>

theorem build_parse_roundtrip:
  "(case Build i d s v p of
      Inr pkt \<Rightarrow> length pkt = HeaderLength + length p \<and> ParseDecoded pkt = Inr
        \<lparr> dcRouting = \<lparr> rhPacketID = i, rhDestination = d, rhSource = s, rhFlags = 0, rhHops = 0,
            rhCipher = CipherC25519Poly1305Clear, rhFragmented = False, rhExtendedArmor = False \<rparr>,
          dcAuthenticator = replicate 8 0, dcVerb = v, dcCompressed = False, dcPayload = p \<rparr>
    | Inl e \<Rightarrow> \<not> (isOk (NodeID_Validate d) \<and> isOk (NodeID_Validate s) \<and> v \<le> 0x1f
        \<and> HeaderLength + length p \<le> MaxPacketLength))"
proof (cases "Build i d s v p")
  case (Inl e)
  then have "\<not> (\<exists>pkt. Build i d s v p = Inr pkt)" by simp
  then have "\<not> (canonicalHex 10 d \<and> canonicalHex 10 s \<and> v \<le> 0x1f \<and> 28 + length p \<le> 10024)"
    unfolding Build_Inr by blast
  with Inl show ?thesis by (auto simp: isOk_iff packet_consts)
next
  case (Inr pkt)
  then show ?thesis by (simp add: length_Build ParseDecoded_Build packet_consts)
qed

end
