(* ===== verification/Dictionary.thy ===== *)
theory Dictionary
  imports Packet
begin

unbundle bit_operations_syntax

text \<open>
  Package \<^verbatim>\<open>internal/zerotier/networkconfig\<close>: the escaped key/value dictionary (\<^verbatim>\<open>dictionary.go\<close>) and
  the configuration request with its metadata dictionary (\<^verbatim>\<open>request.go\<close>). A \<^verbatim>\<open>DictionaryBuilder\<close> is the
  bytes it has accumulated; a \<^verbatim>\<open>Metadata\<close> map is a finite map. The lemmas show that the parser reads
  back every dictionary the builder writes, that hexadecimal values are read exactly, and which
  payloads are requests.
\<close>

section \<open>The builder\<close>

definition MaxDictionaryLength :: nat where "MaxDictionaryLength = 65535"
definition MaxMetadataLength :: nat where "MaxMetadataLength = 1023"

definition validateDictionaryKey :: "string \<Rightarrow> unit result" where
  "validateDictionaryKey key =
     (if key = [] then Inl (Errorf ''dictionary key cannot be empty'')
      else checkAll (\<lambda>c. if c < 0x21 \<or> c > 0x7e \<or> c = 92 \<or> c = 61
        then Inl (Errorf ''dictionary key %q contains an invalid character'') else Inr ()) (bytes_of_string key))"

text \<open>One character of a value: NUL, CR, LF, backslash and \<^verbatim>\<open>=\<close> are escaped.\<close>

definition escapeByte :: "byte \<Rightarrow> bytes" where
  "escapeByte c = (if c = 0 then [92, 48] else if c = 13 then [92, 114] else if c = 10 then [92, 110]
     else if c = 92 then [92, 92] else if c = 61 then [92, 101] else [c])"

definition Add :: "string \<Rightarrow> bytes \<Rightarrow> bytes \<Rightarrow> bytes result" where
  "Add key value data =
     rbind (validateDictionaryKey key) (\<lambda>_.
     let added = length key + 2 + sum_list (map (\<lambda>c. if c \<in> {0, 13, 10, 92, 61} then 2 else 1) value) in
     if length data + added > MaxDictionaryLength then Inl (Errorf ''dictionary exceeds %d bytes'')
     else Inr (data @ bytes_of_string key @ [61] @ concat (map escapeByte value) @ [10]))"

definition AddString :: "string \<Rightarrow> string \<Rightarrow> bytes \<Rightarrow> bytes result" where
  "AddString key value data = Add key (bytes_of_string value) data"

definition AddHexUint :: "string \<Rightarrow> uint64 \<Rightarrow> bytes \<Rightarrow> bytes result" where
  "AddHexUint key value data = AddString key (FormatUint16 value) data"

section \<open>The parser\<close>

type_synonym Metadata = "(string, bytes) fmap"

fun unescapeValue :: "bytes \<Rightarrow> bytes result" where
  "unescapeValue [] = Inr []"
| "unescapeValue (c # cs) =
     (if c \<noteq> 92 then rbind (unescapeValue cs) (\<lambda>r. Inr (c # r))
      else case cs of [] \<Rightarrow> Inl (Errorf ''value ends with an incomplete escape'')
      | e # cs' \<Rightarrow> rbind (unescapeValue cs') (\<lambda>r.
          Inr ((if e = 48 then 0 else if e = 114 then 13 else if e = 110 then 10 else if e = 101 then 61
                else if e = 92 then 92 else e) # r)))"

text \<open>\<^verbatim>\<open>bytes.FieldsFunc\<close> with the separators CR and LF: the maximal non-empty runs between them.\<close>

function splitLines :: "bytes \<Rightarrow> bytes list" where
  "splitLines [] = []"
| "splitLines (c # cs) =
     (if c = 13 \<or> c = 10 then splitLines cs
      else (c # takeWhile (\<lambda>x. \<not> (x = 13 \<or> x = 10)) cs)
             # splitLines (dropWhile (\<lambda>x. \<not> (x = 13 \<or> x = 10)) cs))"
  by pat_completeness auto
termination
  by (relation "measure length") (auto simp: le_imp_less_Suc length_dropWhile_le)

declare splitLines.simps [simp del]

definition parseLine :: "bytes \<Rightarrow> (string \<times> bytes) result" where
  "parseLine line =
     (let keyBytes = takeWhile (\<lambda>c. c \<noteq> 61) line in
      if \<not> 61 \<in> set line \<or> keyBytes = [] then Inl (Errorf ''metadata line %d has no valid key separator'')
      else if list_ex (\<lambda>c. c < 0x21 \<or> c > 0x7e \<or> c = 92) keyBytes
      then Inl (Errorf ''metadata line %d contains an invalid key'')
      else rbind (wrapErr ''metadata key %q: %w'' (unescapeValue (drop (length keyBytes + 1) line)))
        (\<lambda>value. Inr (string_of_bytes keyBytes, value)))"

fun parseLines :: "bytes list \<Rightarrow> Metadata \<Rightarrow> Metadata result" where
  "parseLines [] metadata = Inr metadata"
| "parseLines (line # rest) metadata =
     (if length line = 0 then parseLines rest metadata
      else rbind (parseLine line) (\<lambda>(key, value).
        parseLines rest (case fmlookup metadata key of
          None \<Rightarrow> fmupd key value metadata | Some _ \<Rightarrow> metadata)))"

definition parseDictionary :: "bytes \<Rightarrow> Metadata result" where
  "parseDictionary serialized =
     (if 0 \<in> set serialized then Inl (Errorf ''metadata contains an unescaped null byte'')
      else parseLines (splitLines serialized) fmempty)"

definition ParseMetadata :: "bytes \<Rightarrow> Metadata result" where
  "ParseMetadata serialized =
     (if length serialized > MaxMetadataLength then Inl (Errorf ''metadata length %d exceeds %d'')
      else parseDictionary serialized)"

definition ParseDictionary :: "bytes \<Rightarrow> Metadata result" where
  "ParseDictionary serialized =
     (if length serialized > MaxDictionaryLength then Inl (Errorf ''dictionary length %d exceeds %d'')
      else parseDictionary serialized)"

text \<open>\<^verbatim>\<open>HexUint\<close>: \<open>None\<close> is \<^verbatim>\<open>(0, false)\<close>.\<close>

fun hexUintLoop :: "uint64 \<Rightarrow> bytes \<Rightarrow> uint64 option" where
  "hexUintLoop acc [] = Some acc"
| "hexUintLoop acc (c # cs) =
     (let step = (\<lambda>nibble :: byte.
        if acc > drop_bit 4 (- 1) then None else hexUintLoop (push_bit 4 acc OR ucast nibble) cs) in
      if 48 \<le> c \<and> c \<le> 57 then step (c - 48)
      else if 97 \<le> c \<and> c \<le> 102 then step (c - 97 + 10)
      else if 65 \<le> c \<and> c \<le> 70 then step (c - 65 + 10)
      else None)"

definition HexUint :: "Metadata \<Rightarrow> string \<Rightarrow> uint64 option" where
  "HexUint metadata key = (case fmlookup metadata key of
     None \<Rightarrow> None | Some value \<Rightarrow> if length value = 0 then None else hexUintLoop 0 value)"

section \<open>Requests\<close>

record Request =
  rqNetworkID :: NetworkID
  rqMetadata :: Metadata
  rqHasCurrentState :: bool
  rqCurrentRevision :: uint64
  rqCurrentTimestamp :: uint64
  rqExtensions :: bytes

definition ParseRequest :: "Decoded \<Rightarrow> Request result" where
  "ParseRequest decoded =
     (if dcVerb decoded \<noteq> VerbNetworkConfigRequest then Inl (Errorf ''unexpected verb %d'')
      else if dcCompressed decoded
      then Inl (Errorf ''network config request must be decompressed before parsing'')
      else
        let payload = dcPayload decoded in
        if length payload < 10
        then Inl (Errorf ''network config request is shorter than network ID and dictionary length'')
        else
          rbind (ParseNetworkID (hex_encode (take 8 payload))) (\<lambda>networkID.
          let metadataLength = unat (be_word (slice 8 10 payload) :: uint16) in
          if metadataLength > MaxMetadataLength then Inl (Errorf ''metadata length %d exceeds %d'')
          else if length payload < 10 + metadataLength
          then Inl (Errorf ''declared metadata length exceeds payload'')
          else
            rbind (ParseMetadata (slice 10 (10 + metadataLength) payload)) (\<lambda>metadata.
            let remainder = drop (10 + metadataLength) payload;
                request = \<lparr> rqNetworkID = networkID, rqMetadata = metadata, rqHasCurrentState = False,
                  rqCurrentRevision = 0, rqCurrentTimestamp = 0, rqExtensions = [] \<rparr> in
            if length remainder = 0 then Inr request
            else if length remainder < 16 then Inl (Errorf ''current config state trailer is truncated'')
            else Inr (request\<lparr>rqHasCurrentState := True, rqCurrentRevision := be_word (take 8 remainder),
              rqCurrentTimestamp := be_word (slice 8 16 remainder), rqExtensions := drop 16 remainder\<rparr>))))"

definition metadataHex :: "Request \<Rightarrow> string \<Rightarrow> uint64" where
  "metadataHex request key = (case HexUint (rqMetadata request) key of None \<Rightarrow> 0 | Some v \<Rightarrow> v)"

definition Request_AgentMetadata :: "Request \<Rightarrow> NetworkID \<Rightarrow> NodeID \<Rightarrow> time \<Rightarrow> AgentMetadata" where
  "Request_AgentMetadata request networkID nodeID updatedAt =
     \<lparr> agNetworkID = networkID, agNodeID = nodeID,
       agTarget = (case fmlookup (rqMetadata request) ''o'' of None \<Rightarrow> [] | Some v \<Rightarrow> string_of_bytes v),
       agVendor = metadataHex request ''vend'', agProtocol = metadataHex request ''pv'',
       agMajor = metadataHex request ''majv'', agMinor = metadataHex request ''minv'',
       agRevision = metadataHex request ''revv'', agRulesEngineRevision = metadataHex request ''revr'',
       agMaxRules = metadataHex request ''mr'', agMaxCapabilities = metadataHex request ''mc'',
       agMaxCapabilityRules = metadataHex request ''mcr'', agMaxTags = metadataHex request ''mt'',
       agUpdatedAt = UTC updatedAt \<rparr>"

section \<open>The parser inverts the builder\<close>

lemma unescape_escapeByte: "unescapeValue (escapeByte c @ cs) = rbind (unescapeValue cs) (\<lambda>r. Inr (c # r))"
  by (auto simp: escapeByte_def)

lemma unescape_escape: "unescapeValue (concat (map escapeByte v)) = Inr v"
  by (induction v) (simp_all add: unescape_escapeByte)

lemma escape_clean: "x \<in> set (concat (map escapeByte v)) \<Longrightarrow> x \<noteq> 0 \<and> x \<noteq> 13 \<and> x \<noteq> 10"
  by (auto simp: escapeByte_def split: if_splits)

lemma length_escape:
  "length (concat (map escapeByte v)) = sum_list (map (\<lambda>c. if c \<in> {0, 13, 10, 92, 61} then 2 else 1) v)"
  by (induction v) (auto simp: escapeByte_def)

definition goodKey :: "string \<Rightarrow> bool" where
  "goodKey key = (key \<noteq> [] \<and> (\<forall>c \<in> set (bytes_of_string key). 0x21 \<le> c \<and> c \<le> 0x7e \<and> c \<noteq> 92 \<and> c \<noteq> 61))"

lemma validateDictionaryKey_iff: "validateDictionaryKey key = Inr u \<longleftrightarrow> goodKey key"
  by (auto simp: validateDictionaryKey_def goodKey_def not_less split: if_splits)

definition lineOf :: "string \<times> bytes \<Rightarrow> bytes" where
  "lineOf kv = bytes_of_string (fst kv) @ [61] @ concat (map escapeByte (snd kv))"

lemma Add_iff: "Add key v data = Inr data' \<longleftrightarrow> goodKey key
    \<and> data' = data @ lineOf (key, v) @ [10] \<and> length data' \<le> MaxDictionaryLength"
proof -
  have "length (data @ lineOf (key, v) @ [10]) = length data
      + (length key + 2 + sum_list (map (\<lambda>c. if c \<in> {0, 13, 10, 92, 61} then 2 else 1) v))"
    using length_escape [of v] by (simp add: lineOf_def)
  then show ?thesis
    unfolding Add_def Let_def by (auto simp: rbind_eq_Inr validateDictionaryKey_iff lineOf_def split: if_splits)
qed

lemma key_byte_printable: "goodKey key \<Longrightarrow> c \<in> set (bytes_of_string key) \<Longrightarrow> c \<noteq> 0 \<and> c \<noteq> 10 \<and> c \<noteq> 13 \<and> c \<noteq> 61"
  by (auto simp: goodKey_def word_le_nat_alt)

lemma parseLine_lineOf: "goodKey (fst kv) \<Longrightarrow> parseLine (lineOf kv) = Inr kv"
proof -
  assume g: "goodKey (fst kv)"
  then have ne: "\<forall>c \<in> set (bytes_of_string (fst kv)). c \<noteq> 61" by (auto simp: goodKey_def)
  then have "takeWhile (\<lambda>c. c \<noteq> 61) (lineOf kv) = bytes_of_string (fst kv)"
    by (simp add: lineOf_def takeWhile_append2)
  moreover have "bytes_of_string (fst kv) \<noteq> []" using g by (simp add: goodKey_def bytes_of_string_def)
  moreover have "\<not> list_ex (\<lambda>c. c < 0x21 \<or> c > 0x7e \<or> c = 92) (bytes_of_string (fst kv))"
    using g by (auto simp: goodKey_def list_ex_iff not_less)
  moreover have "drop (length (fst kv) + 1) (lineOf kv) = concat (map escapeByte (snd kv))"
    by (simp add: lineOf_def)
  moreover have "61 \<in> set (lineOf kv)" by (simp add: lineOf_def)
  ultimately show ?thesis by (simp add: parseLine_def unescape_escape)
qed

lemma splitLines_line:
  assumes "line \<noteq> []" "\<forall>c \<in> set line. c \<noteq> 13 \<and> c \<noteq> 10"
  shows "splitLines (line @ 10 # rest) = line # splitLines rest"
proof -
  obtain c cs where line: "line = c # cs" using assms(1) by (cases line) auto
  then have "takeWhile (\<lambda>x. \<not> (x = 13 \<or> x = 10)) (cs @ 10 # rest) = cs"
    "dropWhile (\<lambda>x. \<not> (x = 13 \<or> x = 10)) (cs @ 10 # rest) = 10 # rest"
    using assms(2) by (auto simp: takeWhile_append2 dropWhile_append2)
  moreover have "splitLines (10 # rest) = splitLines rest" by (simp add: splitLines.simps)
  ultimately show ?thesis using assms(2) line by (simp add: splitLines.simps)
qed

text \<open>A sequence of \<^verbatim>\<open>Add\<close> calls on one builder.\<close>

fun addAll :: "(string \<times> bytes) list \<Rightarrow> bytes \<Rightarrow> bytes result" where
  "addAll [] data = Inr data"
| "addAll ((key, value) # kvs) data = rbind (Add key value data) (addAll kvs)"

lemma addAll_Inr:
  "addAll kvs data = Inr data' \<Longrightarrow> list_all (\<lambda>kv. goodKey (fst kv)) kvs
    \<and> data' = data @ concat (map (\<lambda>kv. lineOf kv @ [10]) kvs)
    \<and> (length data \<le> MaxDictionaryLength \<longrightarrow> length data' \<le> MaxDictionaryLength)"
proof (induction kvs arbitrary: data)
  case (Cons kv kvs)
  then obtain d where d: "Add (fst kv) (snd kv) data = Inr d" "addAll kvs d = Inr data'"
    by (cases kv) (auto simp: rbind_eq_Inr)
  from Cons.IH [OF d(2)] d(1) show ?case unfolding Add_iff by auto
qed simp

lemma lineOf_clean: "goodKey (fst kv) \<Longrightarrow> c \<in> set (lineOf kv) \<Longrightarrow> c \<noteq> 0 \<and> c \<noteq> 13 \<and> c \<noteq> 10"
  using key_byte_printable [of "fst kv" c] escape_clean [of c "snd kv"] by (auto simp: lineOf_def simp del: set_concat)

lemma splitLines_lines:
  "list_all (\<lambda>kv. goodKey (fst kv)) kvs \<Longrightarrow> splitLines (concat (map (\<lambda>kv. lineOf kv @ [10]) kvs)) = map lineOf kvs"
proof (induction kvs)
  case (Cons kv kvs)
  have "lineOf kv \<noteq> []" by (simp add: lineOf_def)
  moreover have "\<forall>c \<in> set (lineOf kv). c \<noteq> 13 \<and> c \<noteq> 10" using Cons.prems lineOf_clean [of kv] by auto
  ultimately show ?case using Cons by (simp add: splitLines_line)
qed (simp add: splitLines.simps)

lemma parseLines_lines:
  "list_all (\<lambda>kv. goodKey (fst kv)) kvs \<Longrightarrow>
     \<exists>m'. parseLines (map lineOf kvs) m = Inr m' \<and> fmlookup m' = map_of kvs ++ fmlookup m"
proof (induction kvs arbitrary: m)
  case (Cons kv kvs)
  obtain k v where kv: "kv = (k, v)" by force
  let ?m = "case fmlookup m k of None \<Rightarrow> fmupd k v m | Some _ \<Rightarrow> m"
  have "lineOf kv \<noteq> []" by (simp add: lineOf_def)
  then have "parseLines (map lineOf (kv # kvs)) m = parseLines (map lineOf kvs) ?m"
    using Cons.prems parseLine_lineOf [of kv] kv by simp
  moreover obtain m' where "parseLines (map lineOf kvs) ?m = Inr m'" "fmlookup m' = map_of kvs ++ fmlookup ?m"
    using Cons by auto
  moreover have "map_of kvs ++ fmlookup ?m = map_of (kv # kvs) ++ fmlookup m"
    by (rule ext) (auto simp: kv map_add_def split: option.splits)
  ultimately show ?case by metis
qed simp

lemma addAll_readback:
  assumes "addAll kvs [] = Inr data"
  shows "length data \<le> MaxDictionaryLength \<and> (\<exists>m. ParseDictionary data = Inr m \<and> fmlookup m = map_of kvs)"
proof -
  from addAll_Inr [OF assms] have g: "list_all (\<lambda>kv. goodKey (fst kv)) kvs" 
    and d: "data = concat (map (\<lambda>kv. lineOf kv @ [10]) kvs)" and l: "length data \<le> MaxDictionaryLength"
    by auto
  have "0 \<notin> set data"
    using g lineOf_clean [of _ 0] unfolding d list_all_iff by auto
  then show ?thesis
    using parseLines_lines [OF g, of fmempty] l splitLines_lines [OF g]
    by (simp add: ParseDictionary_def parseDictionary_def d [symmetric] fmempty.rep_eq)
qed

text \<open>
  Dictionaries round trip: when a sequence of \<^verbatim>\<open>Add\<close> calls succeeds, \<^verbatim>\<open>ParseDictionary\<close> accepts the
  bytes, whatever bytes the values hold, and finds under every key the first value added for it and
  nothing under any other key; the result stays within the dictionary limit.
\<close>

theorem dictionary_roundtrip:
  assumes "addAll kvs [] = Inr data"
  shows "length data \<le> MaxDictionaryLength \<and> (\<exists>m. ParseDictionary data = Inr m \<and> fmlookup m = map_of kvs)"
  by (rule addAll_readback [OF assms])

theorem dictionary_roundtrip_witness:
  "\<exists>data m. addAll [(''n'', [0, 10, 61, 92, 13, 255]), (''v'', [55]), (''n'', [1])] [] = Inr data
     \<and> ParseDictionary data = Inr m \<and> fmlookup m ''n'' = Some [0, 10, 61, 92, 13, 255] \<and> fmlookup m ''x'' = None"
proof -
  have "\<exists>data. addAll [(''n'', [0, 10, 61, 92, 13, 255]), (''v'', [55]), (''n'', [1])] [] = Inr data"
    by (simp add: Add_def validateDictionaryKey_def bytes_of_string_def byte_of_char_def MaxDictionaryLength_def
      escapeByte_def)
  then obtain data where d: "addAll [(''n'', [0, 10, 61, 92, 13, 255]), (''v'', [55]), (''n'', [1])] [] = Inr data" ..
  from dictionary_roundtrip [OF this] d show ?thesis by auto
qed

section \<open>Hexadecimal values\<close>

lemma hexnat_ge: "hexnat acc s = Some n \<Longrightarrow> acc \<le> n"
proof (induction acc s rule: hexnat.induct)
  case (2 acc c cs)
  then show ?case by (auto split: option.splits)
qed simp

lemma hexval_char_of_byte: "hexval (char_of_byte c) =
   (if 48 \<le> c \<and> c \<le> 57 then Some (unat (c - 48)) else if 97 \<le> c \<and> c \<le> 102 then Some (unat (c - 97 + 10))
    else if 65 \<le> c \<and> c \<le> 70 then Some (unat (c - 65 + 10)) else None)"
proof -
  have o: "of_char (char_of_byte c) = unat c" using unat_byte_less [of c] by (simp add: char_of_byte_def)
  have "unat (c - 97 + 10) = unat c - 87" if "97 \<le> c" "c \<le> 102"
    using that by (simp add: unat_plus_if' unat_sub word_le_nat_alt)
  moreover have "unat (c - 65 + 10) = unat c - 55" if "65 \<le> c" "c \<le> 70"
    using that by (simp add: unat_plus_if' unat_sub word_le_nat_alt)
  moreover have "unat (c - 48) = unat c - 48" if "48 \<le> c" using that by (simp add: unat_sub word_le_nat_alt)
  ultimately show ?thesis by (auto simp: hexval_def o Let_def word_le_nat_alt)
qed

lemma hexval_less: "hexval c = Some d \<Longrightarrow> d < 16"
  by (auto simp: hexval_def Let_def split: if_splits)

lemma shift_nibble:
  assumes "unat (acc :: uint64) < 2 ^ 60" "unat (d :: byte) < 16"
  shows "unat (push_bit 4 acc OR ucast d) = 16 * unat acc + unat d"
proof -
  have "take_bit 4 d = d"
    using assms(2) by (simp add: word_unat_eq_iff take_bit_eq_mod unat_mod)
  then have low: "n < 4" if "bit d n" for n
    using that by (metis bit_take_bit_iff)
  have "push_bit 4 acc OR ucast d = push_bit 4 acc + ucast d"
    by (rule disjunctive_add [symmetric]) (auto simp: bit_simps not_le dest: low)
  moreover have "unat (push_bit 4 acc) = 16 * unat acc"
    using assms(1) by (simp add: push_bit_eq_mult unat_word_ariths)
  moreover have "unat (ucast d :: uint64) = unat d"
    using assms(2) by (simp add: unsigned_ucast_eq take_bit_eq_mod)
  ultimately show ?thesis using assms by (simp add: unat_word_ariths)
qed

lemma top_nibble_free: "mask 60 < acc \<longleftrightarrow> \<not> unat (acc :: uint64) < 2 ^ 60"
proof -
  have "unat (mask 60 :: uint64) = 2 ^ 60 - 1" by (simp add: mask_eq_exp_minus_1)
  then show ?thesis by (auto simp: word_less_nat_alt)
qed

lemma hexUintLoop_step:
  "hexUintLoop acc (c # cs) = (case hexval (char_of_byte c) of None \<Rightarrow> None
     | Some d \<Rightarrow> if unat acc < 2 ^ 60 then hexUintLoop (push_bit 4 acc OR ucast (of_nat d :: byte)) cs else None)"
  by (simp add: hexval_char_of_byte Let_def top_nibble_free)

lemma hexUintLoop_eq:
  "hexUintLoop acc bs = (case hexnat (unat acc) (string_of_bytes bs) of
     Some n \<Rightarrow> if n < 2 ^ 64 then Some (of_nat n) else None | None \<Rightarrow> None)"
proof (induction bs arbitrary: acc)
  case Nil
  then show ?case using unsigned_less [of acc] by (simp add: string_of_bytes_def)
next
  case (Cons c cs)
  show ?case
  proof (cases "hexval (char_of_byte c)")
    case None
    then show ?thesis by (simp add: hexUintLoop_step string_of_bytes_def del: hexUintLoop.simps)
  next
    case (Some d)
    have d: "d < 16" "unat (of_nat d :: byte) = d"
      using hexval_less [OF Some] by (simp_all add: unat_of_nat)
    show ?thesis
    proof (cases "unat acc < 2 ^ 60")
      case True
      have "unat (push_bit 4 acc OR ucast (of_nat d :: byte)) = 16 * unat acc + d"
        using shift_nibble [OF True, of "of_nat d"] d by simp
      with True Some Cons.IH [of "push_bit 4 acc OR ucast (of_nat d :: byte)"] show ?thesis
        by (simp add: hexUintLoop_step string_of_bytes_def del: hexUintLoop.simps)
    next
      case False
      then have "2 ^ 64 \<le> n" if "hexnat (16 * unat acc + d) (string_of_bytes cs) = Some n" for n
        using hexnat_ge [OF that] by simp
      with False Some show ?thesis
        by (auto simp: hexUintLoop_step string_of_bytes_def not_less simp del: hexUintLoop.simps split: option.splits)
    qed
  qed
qed

lemma HexUint_Format: "fmlookup m key = Some (bytes_of_string (FormatUint16 v)) \<Longrightarrow> HexUint m key = Some v"
proof -
  assume "fmlookup m key = Some (bytes_of_string (FormatUint16 v))"
  moreover have "bytes_of_string (FormatUint16 v) \<noteq> []" by (simp add: bytes_of_string_def FormatUint16_def)
  ultimately show ?thesis
    using unsigned_less [of v]
    by (simp add: HexUint_def hexUintLoop_eq FormatUint16_def hexnat_hexstring del: hexUintLoop.simps)
qed

text \<open>
  Hexadecimal metadata is read exactly: \<^verbatim>\<open>HexUint\<close> finds a value precisely for a non-empty string of
  hexadecimal digits (either case, any number of leading zeros) whose value fits 64 bits, returns that
  value, and never wraps around; what \<^verbatim>\<open>AddHexUint\<close> writes is read back.
\<close>

theorem hexuint_exact:
  "HexUint m key = (case fmlookup m key of
      Some (c # cs) \<Rightarrow> (case hexnat 0 (string_of_bytes (c # cs)) of
          Some n \<Rightarrow> if n < 2 ^ 64 then Some (of_nat n) else None | None \<Rightarrow> None)
    | _ \<Rightarrow> None)
   \<and> HexUint (fmupd key (bytes_of_string (FormatUint16 v)) m) key = Some v"
proof
  show "HexUint m key = (case fmlookup m key of
      Some (c # cs) \<Rightarrow> (case hexnat 0 (string_of_bytes (c # cs)) of
          Some n \<Rightarrow> if n < 2 ^ 64 then Some (of_nat n) else None | None \<Rightarrow> None)
    | _ \<Rightarrow> None)"
    by (auto simp: HexUint_def hexUintLoop_eq simp del: hexUintLoop.simps split: option.splits list.splits)
  show "HexUint (fmupd key (bytes_of_string (FormatUint16 v)) m) key = Some v"
    by (rule HexUint_Format) simp
qed

section \<open>Request framing\<close>

definition stateTrailer :: "Request \<Rightarrow> bytes" where
  "stateTrailer r = (if rqHasCurrentState r
     then be_bytes 8 (rqCurrentRevision r) @ be_bytes 8 (rqCurrentTimestamp r) @ rqExtensions r else [])"

definition requestPayload :: "bytes \<Rightarrow> bytes \<Rightarrow> bytes \<Rightarrow> bytes" where
  "requestPayload nid meta trailer = nid @ be_bytes 2 (of_nat (length meta) :: uint16) @ meta @ trailer"

definition wfRequest :: "Request \<Rightarrow> bool" where
  "wfRequest r = (\<not> rqHasCurrentState r \<longrightarrow> rqCurrentRevision r = 0 \<and> rqCurrentTimestamp r = 0 \<and> rqExtensions r = [])"

lemma be_bytes_Nil [simp]: "be_bytes n w = [] \<longleftrightarrow> n = 0"
  by (metis length_0_conv length_be_bytes)

lemma trailer_split:
  assumes "\<not> length t < 16"
  shows "be_bytes 8 (be_word (take 8 t) :: uint64) @ be_bytes 8 (be_word (slice 8 16 t) :: uint64) @ drop 16 t = t"
proof -
  have "length (take 8 t) = 8" "length (slice 8 16 t) = 8" using assms by auto
  then show ?thesis using take_slice_drop [of 8 16 t] by simp
qed

lemma ParseRequest_payload:
  assumes "length nid = 8" "length meta \<le> MaxMetadataLength" "ParseMetadata meta = Inr (rqMetadata r)" "wfRequest r"
    and "dcPayload d = requestPayload nid meta (stateTrailer r)" "rqNetworkID r = hex_encode nid"
    and "dcVerb d = VerbNetworkConfigRequest" "\<not> dcCompressed d"
  shows "ParseRequest d = Inr r"
proof -
  let ?p = "dcPayload d"
  have ml: "unat (of_nat (length meta) :: uint16) = length meta"
    using assms(2) by (simp add: MaxMetadataLength_def unat_of_nat)
  have parts: "take 8 ?p = nid" "slice 8 10 ?p = be_bytes 2 (of_nat (length meta) :: uint16)"
    "slice 10 (10 + length meta) ?p = meta" "drop (10 + length meta) ?p = stateTrailer r" "10 + length meta \<le> length ?p"
    using assms(1) unfolding assms(5) requestPayload_def by (simp_all add: slice_def)
  have nid: "ParseNetworkID (hex_encode nid) = Inr (hex_encode nid)"
    using canonicalHex_encode [OF assms(1)] by (simp add: ParseNetworkID_iff)
  have "ParseRequest d = (if length (stateTrailer r) = 0
       then Inr \<lparr> rqNetworkID = hex_encode nid, rqMetadata = rqMetadata r, rqHasCurrentState = False,
          rqCurrentRevision = 0, rqCurrentTimestamp = 0, rqExtensions = [] \<rparr>
       else if length (stateTrailer r) < 16 then Inl (Errorf ''current config state trailer is truncated'')
       else Inr \<lparr> rqNetworkID = hex_encode nid, rqMetadata = rqMetadata r, rqHasCurrentState = True,
          rqCurrentRevision = be_word (take 8 (stateTrailer r)), rqCurrentTimestamp = be_word (slice 8 16 (stateTrailer r)),
          rqExtensions = drop 16 (stateTrailer r) \<rparr>)"
    using parts assms(2,3,7,8) by (simp add: ParseRequest_def Let_def nid ml)
  also have "\<dots> = Inr r"
    using assms(4,6) by (cases r) (auto simp: stateTrailer_def wfRequest_def slice_def)
  finally show ?thesis .
qed

lemma ParseRequest_Inr:
  assumes "ParseRequest d = Inr r"
  shows "\<exists>nid meta. length nid = 8 \<and> length meta \<le> MaxMetadataLength \<and> ParseMetadata meta = Inr (rqMetadata r)
    \<and> wfRequest r \<and> dcPayload d = requestPayload nid meta (stateTrailer r) \<and> rqNetworkID r = hex_encode nid
    \<and> dcVerb d = VerbNetworkConfigRequest \<and> \<not> dcCompressed d"
proof -
  let ?p = "dcPayload d"
  define n where "n = unat (be_word (slice 8 10 ?p) :: uint16)"
  have p: "dcVerb d = VerbNetworkConfigRequest" "\<not> dcCompressed d" "10 \<le> length ?p" "n \<le> MaxMetadataLength"
    "10 + n \<le> length ?p" "ParseMetadata (slice 10 (10 + n) ?p) = Inr (rqMetadata r)" "rqNetworkID r = hex_encode (take 8 ?p)"
    and t: "let t = drop (10 + n) ?p in if length t = 0 then r = \<lparr> rqNetworkID = rqNetworkID r, rqMetadata = rqMetadata r,
         rqHasCurrentState = False, rqCurrentRevision = 0, rqCurrentTimestamp = 0, rqExtensions = [] \<rparr>
       else \<not> length t < 16 \<and> r = \<lparr> rqNetworkID = rqNetworkID r, rqMetadata = rqMetadata r,
         rqHasCurrentState = True, rqCurrentRevision = be_word (take 8 t), rqCurrentTimestamp = be_word (slice 8 16 t),
         rqExtensions = drop 16 t \<rparr>"
    using assms
    by (auto simp: ParseRequest_def Let_def rbind_eq_Inr ParseNetworkID_iff n_def split: if_splits)
  from t have w: "wfRequest r \<and> drop (10 + n) ?p = stateTrailer r"
    using trailer_split [of "drop (10 + n) ?p"]
    by (cases "drop (10 + n) ?p = []"; cases r) (simp_all add: wfRequest_def stateTrailer_def Let_def)
  have "?p = take 8 ?p @ drop 8 ?p" "drop 8 ?p = slice 8 10 ?p @ drop 10 ?p" 
    "drop 10 ?p = slice 10 (10 + n) ?p @ drop (10 + n) ?p"
    by (simp_all add: take_slice_drop)
  moreover have "slice 8 10 ?p = be_bytes 2 (of_nat n :: uint16)"
    using p(3) by (simp add: n_def be_bytes_be_word)
  ultimately have "?p = requestPayload (take 8 ?p) (slice 10 (10 + n) ?p) (stateTrailer r)"
    using p(5) w by (simp add: requestPayload_def)
  with p w show ?thesis by (intro exI [of _ "take 8 ?p"] exI [of _ "slice 10 (10 + n) ?p"]) auto
qed

text \<open>
  Request framing is exact: \<^verbatim>\<open>ParseRequest\<close> accepts exactly the uncompressed configuration requests
  whose payload is an 8-byte network ID, a 16-bit length of at most 1023, that many bytes of parseable
  metadata, and either nothing or a full revision/timestamp trailer with its extensions; it returns
  precisely these fields.
\<close>

theorem parse_request_exact:
  "ParseRequest d = Inr r \<longleftrightarrow> dcVerb d = VerbNetworkConfigRequest \<and> \<not> dcCompressed d \<and> wfRequest r
     \<and> (\<exists>nid meta. length nid = 8 \<and> length meta \<le> MaxMetadataLength
          \<and> dcPayload d = requestPayload nid meta (stateTrailer r)
          \<and> rqNetworkID r = hex_encode nid \<and> ParseMetadata meta = Inr (rqMetadata r))"
  using ParseRequest_Inr [of d r] ParseRequest_payload [of _ _ r d] by blast

end
