(* ===== verification/NetText.thy ===== *)
theory NetText
  imports Netip
begin

unbundle bit_operations_syntax

text \<open>
  The textual parsers of Go's standard library the program calls on strings of the API:
  \<^verbatim>\<open>strconv.ParseUint(s, 10, 64)\<close>, \<^verbatim>\<open>netip.ParseAddr\<close>, \<^verbatim>\<open>netip.ParsePrefix\<close> and \<^verbatim>\<open>net.ParseMAC\<close>. Each
  branch of the library that reports an error is \<open>Inl\<close>; which message it carries is not kept.
\<close>

definition parseFailure :: "'a result" where
  "parseFailure = Inl (Errorf ''parse error'')"

lemma parseFailure_not_Inr [simp]: "parseFailure \<noteq> Inr x" "Inr x \<noteq> parseFailure"
  by (simp_all add: parseFailure_def)

section \<open>Decimal integers\<close>

definition isDigit :: "char \<Rightarrow> bool" where
  "isDigit c = (let n = of_char c :: nat in 48 \<le> n \<and> n \<le> 57)"

definition digitValue :: "char \<Rightarrow> nat" where
  "digitValue c = of_char c - 48"

definition ParseUint10 :: "string \<Rightarrow> uint64 result" where
  "ParseUint10 s =
     (if s = [] \<or> \<not> list_all isDigit s then parseFailure
      else let n = foldl (\<lambda>acc c. 10 * acc + digitValue c) 0 s in
        if n < 2 ^ 64 then Inr (of_nat n) else parseFailure)"

section \<open>Addresses\<close>

text \<open>
  \<^verbatim>\<open>parseIPv4Fields\<close>: \<open>octets\<close> are the octets closed so far, \<open>val\<close> and \<open>digLen\<close> the open octet, \<open>first\<close>
  whether the previous character was a dot or there was none.
\<close>

fun parseIPv4Fields :: "bytes \<Rightarrow> nat \<Rightarrow> nat \<Rightarrow> bool \<Rightarrow> string \<Rightarrow> bytes result" where
  "parseIPv4Fields octets val digLen first [] =
     (if length octets < 3 then parseFailure else Inr (octets @ [of_nat val]))"
| "parseIPv4Fields octets val digLen first (c # cs) =
     (if isDigit c then
        if digLen = 1 \<and> val = 0 then parseFailure
        else let val = val * 10 + digitValue c in
          if val > 255 then parseFailure else parseIPv4Fields octets val (digLen + 1) False cs
      else if c = CHR ''.'' then
        if first \<or> cs = [] then parseFailure
        else if length octets = 3 then parseFailure
        else parseIPv4Fields (octets @ [of_nat val]) 0 0 True cs
      else parseFailure)"

definition parseIPv4 :: "string \<Rightarrow> Addr result" where
  "parseIPv4 s = rbind (parseIPv4Fields [] 0 0 True s) (\<lambda>octets. Inr (AddrFrom4 octets))"

text \<open>The digits of one group of an IPv6 address: their number and value.\<close>

fun hexGroup :: "nat \<Rightarrow> nat \<Rightarrow> string \<Rightarrow> (nat \<times> nat) result" where
  "hexGroup off acc [] = Inr (off, acc)"
| "hexGroup off acc (c # cs) = (case hexval c of
     None \<Rightarrow> Inr (off, acc)
   | Some d \<Rightarrow> let acc = acc * 16 + d in
       if off > 3 then parseFailure else if acc > 65535 then parseFailure else hexGroup (off + 1) acc cs)"

text \<open>
  The main loop of \<^verbatim>\<open>parseIPv6\<close>: \<open>ip\<close> are the bytes written so far (\<^verbatim>\<open>i\<close> is its length), \<open>ellipsis\<close> where
  a \<^verbatim>\<open>::\<close> was seen. The result is the remaining text with both.
\<close>

function ipv6Loop :: "bytes \<Rightarrow> nat option \<Rightarrow> string \<Rightarrow> (bytes \<times> nat option \<times> string) result" where
  "ipv6Loop ip ellipsis s =
     (if length ip \<ge> 16 then Inr (ip, ellipsis, s)
      else
        rbind (hexGroup 0 0 s) (\<lambda>(off, acc).
        if off = 0 then parseFailure
        else if off < length s \<and> s ! off = CHR ''.'' then
          if ellipsis = None \<and> length ip \<noteq> 12 then parseFailure
          else if length ip + 4 > 16 then parseFailure
          else rbind (parseIPv4Fields [] 0 0 True s) (\<lambda>octets. Inr (ip @ octets, ellipsis, []))
        else
          let ip = ip @ [of_nat (acc div 256), of_nat (acc mod 256)]; s = drop off s in
          if s = [] then Inr (ip, ellipsis, s)
          else if hd s \<noteq> CHR '':'' then parseFailure
          else if length s = 1 then parseFailure
          else
            let s = tl s in
            if hd s = CHR '':'' then
              if ellipsis \<noteq> None then parseFailure
              else
                let ellipsis = Some (length ip); s = tl s in
                if s = [] then Inr (ip, ellipsis, s) else ipv6Loop ip ellipsis s
            else ipv6Loop ip ellipsis s))"
  by pat_completeness auto
termination
  by (relation "measure (\<lambda>(ip, ellipsis, s). 16 - length ip)") auto

declare ipv6Loop.simps [simp del]

definition parseIPv6 :: "string \<Rightarrow> Addr result" where
  "parseIPv6 value =
     (let s = takeWhile (\<lambda>c. c \<noteq> CHR ''%'') value; zone = drop (length s + 1) value in
      if CHR ''%'' \<in> set value \<and> zone = [] then parseFailure
      else
        let leading = (take 2 s = ''::''); s = (if leading then drop 2 s else s) in
        if leading \<and> s = [] then Inr (Addr6 0 zone)
        else
          rbind (ipv6Loop [] (if leading then Some 0 else None) s) (\<lambda>(ip, ellipsis, rest).
          if rest \<noteq> [] then parseFailure
          else if length ip < 16 then
            case ellipsis of None \<Rightarrow> parseFailure
            | Some e \<Rightarrow> Inr (Addr6 (be_word (take e ip @ replicate (16 - length ip) 0 @ drop e ip)) zone)
          else if ellipsis \<noteq> None then parseFailure
          else Inr (Addr6 (be_word ip) zone)))"

text \<open>\<^verbatim>\<open>ParseAddr\<close> dispatches on the first of the characters dot, colon and percent.\<close>

fun addrKind :: "string \<Rightarrow> char option" where
  "addrKind [] = None"
| "addrKind (c # cs) = (if c = CHR ''.'' \<or> c = CHR '':'' \<or> c = CHR ''%'' then Some c else addrKind cs)"

definition ParseAddr :: "string \<Rightarrow> Addr result" where
  "ParseAddr s = (case addrKind s of
     Some c \<Rightarrow> if c = CHR ''.'' then parseIPv4 s else if c = CHR '':'' then parseIPv6 s else parseFailure
   | None \<Rightarrow> parseFailure)"

definition addrZone :: "Addr \<Rightarrow> string" where
  "addrZone a = (case a of Addr6 _ z \<Rightarrow> z | _ \<Rightarrow> [])"

definition ParsePrefix :: "string \<Rightarrow> Prefix result" where
  "ParsePrefix s =
     (let bitsStr = rev (takeWhile (\<lambda>c. c \<noteq> CHR ''/'') (rev s)) in
      if CHR ''/'' \<notin> set s then parseFailure
      else
        rbind (ParseAddr (take (length s - length bitsStr - 1) s)) (\<lambda>ip.
        if addrZone ip \<noteq> [] then parseFailure
        else if length bitsStr > 1 \<and> (hd bitsStr < CHR ''1'' \<or> hd bitsStr > CHR ''9'') then parseFailure
        else
          rbind (ParseUint10 bitsStr) (\<lambda>bits.
          if unat bits > BitLen ip then parseFailure
          else Inr \<lparr> pfAddr = ip, pfBits = int (unat bits) \<rparr>)))"

section \<open>Hardware addresses\<close>

definition xtoi2 :: "string \<Rightarrow> char \<Rightarrow> byte result" where
  "xtoi2 s e =
     (if length s > 2 \<and> s ! 2 \<noteq> e then parseFailure
      else case s of h # l # _ \<Rightarrow>
          (case (hexval h, hexval l) of (Some a, Some b) \<Rightarrow> Inr (of_nat (16 * a + b)) | _ \<Rightarrow> parseFailure)
        | _ \<Rightarrow> parseFailure)"

definition ParseMAC :: "string \<Rightarrow> bytes result" where
  "ParseMAC s =
     (if length s < 14 then parseFailure
      else if s ! 2 = CHR '':'' \<or> s ! 2 = CHR ''-'' then
        let n = (length s + 1) div 3 in
        if (length s + 1) mod 3 \<noteq> 0 \<or> n \<notin> {6, 8, 20} then parseFailure
        else mapM (\<lambda>i. xtoi2 (drop (3 * i) s) (s ! 2)) [0..<n]
      else if s ! 4 = CHR ''.'' then
        let n = 2 * (length s + 1) div 5 in
        if (length s + 1) mod 5 \<noteq> 0 \<or> n \<notin> {6, 8, 20} then parseFailure
        else rbind (mapM (\<lambda>i. rbind (xtoi2 (slice (5 * i) (5 * i + 2) s) (s ! 4)) (\<lambda>a.
               rbind (xtoi2 (drop (5 * i + 2) s) (s ! 4)) (\<lambda>b. Inr [a, b]))) [0..<n div 2]) (\<lambda>ps. Inr (concat ps))
      else parseFailure)"

section \<open>What the parsers return\<close>

lemma parseIPv4Fields_length: "parseIPv4Fields octets v d f s = Inr bs \<Longrightarrow> length octets \<le> 3 \<Longrightarrow> length bs = 4"
  by (induction octets v d f s rule: parseIPv4Fields.induct) (auto simp: Let_def split: if_splits)

lemma ParseAddr_valid: "ParseAddr s = Inr a \<Longrightarrow> addrIsValid a"
  by (auto simp: ParseAddr_def parseIPv4_def parseIPv6_def AddrFrom4_def rbind_eq_Inr Let_def
      split: option.splits if_splits prod.splits)

lemma uint_le_of_unat: "\<not> n < unat (w :: uint64) \<Longrightarrow> uint w \<le> int n"
  using of_nat_le_iff [of "unat w" n, where 'a = int] by simp

lemma ParsePrefix_valid:
  "ParsePrefix s = Inr p \<Longrightarrow> addrIsValid (pfAddr p) \<and> 0 \<le> pfBits p \<and> pfBits p \<le> int (BitLen (pfAddr p))"
  by (auto simp: ParsePrefix_def rbind_eq_Inr Let_def ParseAddr_valid uint_le_of_unat split: if_splits)


end
