(* ===== verification/Rules.thy ===== *)
theory Rules
  imports Domain NetText
begin

unbundle bit_operations_syntax

text \<open>
  \<^verbatim>\<open>internal/zerotier/networkconfig/rules.go\<close>: the type/length/value encoding of network rules, with
  the decoding of their JSON parameters. The lemmas relate \<^verbatim>\<open>SerializeRules\<close> to a reference decoder of
  the sequence.
\<close>

section \<open>JSON scalars\<close>

text \<open>\<^verbatim>\<open>json.Unmarshal\<close> into a \<^verbatim>\<open>uint64\<close>, \<^verbatim>\<open>string\<close> or \<^verbatim>\<open>bool\<close> variable: null leaves the zero value.\<close>

fun unmarshalUint :: "RawMessage \<Rightarrow> uint64 result" where
  "unmarshalUint JNull = Inr 0"
| "unmarshalUint (JNumber literal) = ParseUint10 literal"
| "unmarshalUint _ = parseFailure"

fun unmarshalString :: "RawMessage \<Rightarrow> string result" where
  "unmarshalString JNull = Inr []"
| "unmarshalString (JString s) = Inr s"
| "unmarshalString _ = parseFailure"

fun unmarshalBool :: "RawMessage \<Rightarrow> bool result" where
  "unmarshalBool JNull = Inr False"
| "unmarshalBool (JBool b) = Inr b"
| "unmarshalBool _ = parseFailure"

section \<open>Parameters\<close>

type_synonym params = "(string, RawMessage) fmap"

definition uintValue :: "params \<Rightarrow> string \<Rightarrow> nat \<Rightarrow> uint64 result" where
  "uintValue parameters key bits = (case fmlookup parameters key of
     None \<Rightarrow> Inl (Errorf ''%s is required'')
   | Some raw \<Rightarrow> (case unmarshalUint raw of
       Inl _ \<Rightarrow> Inl (Errorf ''%s must be an unsigned integer'')
     | Inr value \<Rightarrow> if bits < 64 \<and> value \<ge> push_bit bits 1 then Inl (Errorf ''%s exceeds %d bits'') else Inr value))"

definition stringValue :: "params \<Rightarrow> string \<Rightarrow> string result" where
  "stringValue parameters key = (case fmlookup parameters key of
     None \<Rightarrow> Inl (Errorf ''%s is required'')
   | Some raw \<Rightarrow> (case unmarshalString raw of Inl _ \<Rightarrow> Inl (Errorf ''%s must be a string'') | Inr value \<Rightarrow> Inr value))"

definition boolValue :: "params \<Rightarrow> string \<Rightarrow> bool result" where
  "boolValue parameters key = (case fmlookup parameters key of
     None \<Rightarrow> Inl (Errorf ''%s is required'')
   | Some raw \<Rightarrow> (case unmarshalBool raw of Inl _ \<Rightarrow> Inl (Errorf ''%s must be a boolean'') | Inr value \<Rightarrow> Inr value))"

definition leftPadEven :: "string \<Rightarrow> string" where
  "leftPadEven value = (if length value mod 2 \<noteq> 0 then CHR ''0'' # value else value)"

definition trimPrefix0x :: "string \<Rightarrow> string" where
  "trimPrefix0x value = (if take 2 value = ''0x'' then drop 2 value else value)"

definition hexValue :: "params \<Rightarrow> string \<Rightarrow> nat \<Rightarrow> uint64 result" where
  "hexValue parameters key bits =
     rbind (stringValue parameters key) (\<lambda>value.
     let value = trimPrefix0x value in
     case hex_decode (leftPadEven value) of
       Inl _ \<Rightarrow> Inl (Errorf ''%s must be hexadecimal'')
     | Inr _ \<Rightarrow> (case ParseUint16 value bits of
         Inl _ \<Rightarrow> Inl (Errorf ''%s exceeds %d bits'') | Inr parsed \<Rightarrow> Inr parsed))"

definition flexibleHexValue :: "params \<Rightarrow> string \<Rightarrow> nat \<Rightarrow> uint64 result" where
  "flexibleHexValue parameters key bits = (case fmlookup parameters key of
     None \<Rightarrow> Inl (Errorf ''%s is required'')
   | Some raw \<Rightarrow> (case unmarshalString raw of
       Inr _ \<Rightarrow> hexValue (fmupd key raw fmempty) key bits
     | Inl _ \<Rightarrow> uintValue parameters key bits))"

definition noParameters :: "params \<Rightarrow> bytes result" where
  "noParameters parameters =
     (if fmdom parameters \<noteq> {||} then Inl (Errorf ''action cannot have parameters'') else Inr [])"

definition uintField :: "params \<Rightarrow> string \<Rightarrow> nat \<Rightarrow> bytes result" where
  "uintField parameters key bits =
     rbind (uintValue parameters key bits) (\<lambda>value.
     Inr (if bits = 8 then [ucast value]
          else if bits = 16 then be_bytes 2 (ucast value :: uint16)
          else if bits = 32 then be_bytes 4 (ucast value :: uint32)
          else replicate (bits div 8) 0))"

definition range16Field :: "params \<Rightarrow> bytes result" where
  "range16Field parameters =
     rbind (uintValue parameters ''start'' 16) (\<lambda>start.
     rbind (uintValue parameters ''end'' 16) (\<lambda>end.
     if start > end then Inl (Errorf ''range start exceeds end'')
     else Inr (be_bytes 2 (ucast start :: uint16) @ be_bytes 2 (ucast end :: uint16))))"

definition prefixField :: "params \<Rightarrow> nat \<Rightarrow> bytes result" where
  "prefixField parameters len =
     rbind (stringValue parameters ''ip'') (\<lambda>value.
     case ParsePrefix value of
       Inl _ \<Rightarrow> Inl (Errorf ''ip must be a valid IPv%d prefix'')
     | Inr prefix \<Rightarrow>
         if (len = 4) \<noteq> Is4 (pfAddr prefix) then Inl (Errorf ''ip must be a valid IPv%d prefix'')
         else
           rbind (if len = 4 then As4 (pfAddr prefix) else Inr (As16 (pfAddr prefix))) (\<lambda>address.
           Inr (address @ [of_int (pfBits prefix)])))"

section \<open>Rules\<close>

definition ruleFlagOr :: byte where "ruleFlagOr = 0x40"
definition ruleFlagNot :: byte where "ruleFlagNot = 0x80"

definition ruleTypes :: "(string \<times> byte) list" where
  "ruleTypes =
    [(''ACTION_DROP'', 0), (''ACTION_ACCEPT'', 1), (''ACTION_TEE'', 2), (''ACTION_WATCH'', 3),
     (''ACTION_REDIRECT'', 4), (''ACTION_BREAK'', 5), (''ACTION_PRIORITY'', 6),
     (''MATCH_SOURCE_ZEROTIER_ADDRESS'', 24), (''MATCH_DEST_ZEROTIER_ADDRESS'', 25),
     (''MATCH_VLAN_ID'', 26), (''MATCH_VLAN_PCP'', 27), (''MATCH_VLAN_DEI'', 28),
     (''MATCH_MAC_SOURCE'', 29), (''MATCH_MAC_DEST'', 30),
     (''MATCH_IPV4_SOURCE'', 31), (''MATCH_IPV4_DEST'', 32),
     (''MATCH_IPV6_SOURCE'', 33), (''MATCH_IPV6_DEST'', 34),
     (''MATCH_IP_TOS'', 35), (''MATCH_IP_PROTOCOL'', 36), (''MATCH_ETHERTYPE'', 37),
     (''MATCH_ICMP'', 38), (''MATCH_IP_SOURCE_PORT_RANGE'', 39),
     (''MATCH_IP_DEST_PORT_RANGE'', 40), (''MATCH_CHARACTERISTICS'', 41),
     (''MATCH_FRAME_SIZE_RANGE'', 42), (''MATCH_RANDOM'', 43),
     (''MATCH_TAGS_DIFFERENCE'', 44), (''MATCH_TAGS_BITWISE_AND'', 45),
     (''MATCH_TAGS_BITWISE_OR'', 46), (''MATCH_TAGS_BITWISE_XOR'', 47),
     (''MATCH_TAGS_EQUAL'', 48), (''MATCH_TAG_SENDER'', 49), (''MATCH_TAG_RECEIVER'', 50),
     (''MATCH_INTEGER_RANGE'', 51), (''INTEGER_RANGE'', 51)]"

text \<open>The branches of \<^verbatim>\<open>serializeRuleField\<close> that are longer than a call.\<close>

definition forwardField :: "byte \<Rightarrow> params \<Rightarrow> bytes result" where
  "forwardField ruleType parameters =
     rbind (hexValue parameters ''address'' 40) (\<lambda>address.
     rbind (uintValue parameters ''flags'' 32) (\<lambda>flags.
     rbind (if ruleType \<noteq> 4 then uintValue parameters ''length'' 16 else Inr 0) (\<lambda>len.
     Inr (be_bytes 8 address @ be_bytes 4 (ucast flags :: uint32) @ be_bytes 2 (ucast len :: uint16)))))"

definition macField :: "params \<Rightarrow> bytes result" where
  "macField parameters =
     rbind (stringValue parameters ''mac'') (\<lambda>value.
     case ParseMAC value of
       Inl _ \<Rightarrow> Inl (Errorf ''mac must be a 48-bit address'')
     | Inr mac \<Rightarrow> if length mac \<noteq> 6 then Inl (Errorf ''mac must be a 48-bit address'') else Inr mac)"

definition tosField :: "params \<Rightarrow> bytes result" where
  "tosField parameters =
     rbind (uintValue parameters ''mask'' 8) (\<lambda>mask.
     rbind (uintValue parameters ''start'' 8) (\<lambda>start.
     rbind (uintValue parameters ''end'' 8) (\<lambda>end.
     Inr [ucast mask, ucast start, ucast end])))"

definition icmpField :: "params \<Rightarrow> bytes result" where
  "icmpField parameters =
     rbind (uintValue parameters ''icmpType'' 8) (\<lambda>icmpType.
     if fmlookup parameters ''icmpCode'' \<noteq> None \<and> fmlookup parameters ''icmpCode'' \<noteq> Some JNull
     then rbind (uintValue parameters ''icmpCode'' 8) (\<lambda>code. Inr [ucast icmpType, ucast code, 1])
     else Inr [ucast icmpType, 0, 0])"

definition tagField :: "params \<Rightarrow> bytes result" where
  "tagField parameters =
     rbind (uintValue parameters ''id'' 32) (\<lambda>i.
     rbind (uintValue parameters ''value'' 32) (\<lambda>value.
     Inr (be_bytes 4 (ucast i :: uint32) @ be_bytes 4 (ucast value :: uint32))))"

definition integerRangeField :: "params \<Rightarrow> bytes result" where
  "integerRangeField parameters =
     rbind (flexibleHexValue parameters ''start'' 64) (\<lambda>start.
     rbind (flexibleHexValue parameters ''end'' 64) (\<lambda>end.
     if end < start \<or> end - start > 0xffffffff then Inl (Errorf ''integer range end is invalid'')
     else
       rbind (uintValue parameters ''idx'' 16) (\<lambda>index.
       case uintValue parameters ''bits'' 8 of
         Inl _ \<Rightarrow> Inl (Errorf ''bits must be between 1 and 64'')
       | Inr bits \<Rightarrow>
           if bits < 1 \<or> bits > 64 then Inl (Errorf ''bits must be between 1 and 64'')
           else
             rbind (boolValue parameters ''little'') (\<lambda>little.
             let format = (ucast (bits - 1) :: byte) in
             Inr (be_bytes 8 start @ be_bytes 8 end @ be_bytes 2 (ucast index :: uint16)
                    @ [if little then format OR 0x80 else format])))))"

definition serializeRuleField :: "byte \<Rightarrow> params \<Rightarrow> bytes result" where
  "serializeRuleField ruleType parameters =
     (if ruleType \<in> {0, 1, 5, 6} then noParameters parameters
      else if ruleType \<in> {2, 3, 4} then forwardField ruleType parameters
      else if ruleType \<in> {24, 25} then
        rbind (hexValue parameters ''zt'' 40) (\<lambda>value. Inr (be_bytes 5 value))
      else if ruleType = 26 then uintField parameters ''vlanId'' 16
      else if ruleType = 27 then uintField parameters ''vlanPcp'' 8
      else if ruleType = 28 then uintField parameters ''vlanDei'' 8
      else if ruleType \<in> {29, 30} then macField parameters
      else if ruleType \<in> {31, 32} then prefixField parameters 4
      else if ruleType \<in> {33, 34} then prefixField parameters 16
      else if ruleType = 35 then tosField parameters
      else if ruleType = 36 then uintField parameters ''ipProtocol'' 8
      else if ruleType = 37 then uintField parameters ''etherType'' 16
      else if ruleType = 38 then icmpField parameters
      else if ruleType \<in> {39, 40, 42} then range16Field parameters
      else if ruleType = 41 then
        rbind (flexibleHexValue parameters ''mask'' 64) (\<lambda>value. Inr (be_bytes 8 value))
      else if ruleType = 43 then uintField parameters ''probability'' 32
      else if ruleType \<in> {44, 45, 46, 47, 48, 49, 50} then tagField parameters
      else if ruleType = 51 then integerRangeField parameters
      else Inl (Errorf ''rule type %d is unsupported''))"

text \<open>One iteration of the loop of \<^verbatim>\<open>SerializeRules\<close>.\<close>

definition serializeRule :: "Rule \<Rightarrow> bytes result" where
  "serializeRule rule = (case map_of ruleTypes (ruType rule) of
     None \<Rightarrow> Inl (Errorf ''rule %d has unsupported type %q'')
   | Some ruleType \<Rightarrow>
       rbind (wrapErr ''rule %d (%s): %w'' (serializeRuleField ruleType (ruParameters rule))) (\<lambda>field.
       if length field > 255 then Inl (Errorf ''rule %d field exceeds 255 bytes'')
       else
         let encodedType = ruleType OR (if ruNegate rule then ruleFlagNot else 0)
               OR (if ruOr rule then ruleFlagOr else 0) in
         Inr ([encodedType, of_nat (length field)] @ field)))"

definition SerializeRules :: "Rule list \<Rightarrow> bytes result" where
  "SerializeRules rules = rbind (mapM serializeRule rules) (\<lambda>parts. Inr (concat parts))"

section \<open>Decoding the sequence\<close>

text \<open>The reference reader of the sequence: type, negation, disjunction and field of each entry.\<close>

function decodeRules :: "bytes \<Rightarrow> (byte \<times> bool \<times> bool \<times> bytes) list option" where
  "decodeRules [] = Some []"
| "decodeRules [t] = None"
| "decodeRules (t # l # rest) =
     (if unat l \<le> length rest then
        map_option (Cons (t AND 0x3f, t AND 0x80 \<noteq> 0, t AND 0x40 \<noteq> 0, take (unat l) rest))
          (decodeRules (drop (unat l) rest))
      else None)"
  by pat_completeness auto
termination
  by (relation "measure length") auto

text \<open>The field sizes of the protocol.\<close>

definition fieldLength :: "byte \<Rightarrow> nat" where
  "fieldLength t =
     (if t \<in> {0, 1, 5, 6} then 0 else if t \<in> {2, 3, 4} then 14 else if t \<in> {24, 25} then 5
      else if t = 26 then 2 else if t = 27 then 1 else if t = 28 then 1 else if t \<in> {29, 30} then 6
      else if t \<in> {31, 32} then 5 else if t \<in> {33, 34} then 17 else if t = 35 then 3 else if t = 36 then 1
      else if t = 37 then 2 else if t = 38 then 3 else if t \<in> {39, 40, 42} then 4 else if t = 41 then 8
      else if t = 43 then 4 else if t \<in> {44, 45, 46, 47, 48, 49, 50} then 8 else if t = 51 then 19 else 0)"

lemma length_As4: "As4 a = Inr bs \<Longrightarrow> length bs = 4"
  by (auto simp: As4_def split: Addr.splits if_splits)

lemma uintField_Inr: "uintField p key bits = Inr f \<Longrightarrow> bits \<in> {8, 16, 32} \<Longrightarrow> length f = bits div 8"
  by (auto simp: uintField_def rbind_eq_Inr)

lemma prefixField_Inr: "prefixField p n = Inr f \<Longrightarrow> length f = (if n = 4 then 5 else 17)"
  by (auto simp: prefixField_def rbind_eq_Inr case_sum_eq_Inr dest: length_As4 split: if_splits)

lemma macField_Inr: "macField p = Inr f \<Longrightarrow> length f = 6"
  by (auto simp: macField_def rbind_eq_Inr case_sum_eq_Inr split: if_splits)

lemma field_Inr:
  "forwardField t p = Inr f \<Longrightarrow> length f = 14" "tosField p = Inr f \<Longrightarrow> length f = 3"
  "icmpField p = Inr f \<Longrightarrow> length f = 3" "tagField p = Inr f \<Longrightarrow> length f = 8"
  "range16Field p = Inr f \<Longrightarrow> length f = 4" "noParameters p = Inr f \<Longrightarrow> f = []"
  by (auto simp: forwardField_def tosField_def icmpField_def tagField_def range16Field_def noParameters_def
      rbind_eq_Inr split: if_splits)

lemma integerRangeField_Inr: "integerRangeField p = Inr f \<Longrightarrow> length f = 19"
  by (auto simp: integerRangeField_def rbind_eq_Inr case_sum_eq_Inr Let_def split: if_splits)

lemma if_length:
  "(if b then x else y) = Inr f \<Longrightarrow> (x = Inr f \<Longrightarrow> length f = m) \<Longrightarrow> (y = Inr f \<Longrightarrow> length f = n)
     \<Longrightarrow> length f = (if b then m else n)"
  by (simp split: if_splits)

lemma length_serializeRuleField:
  "serializeRuleField t p = Inr f \<Longrightarrow> length f = fieldLength t"
  unfolding serializeRuleField_def fieldLength_def
  by (elim if_length) (auto simp: rbind_eq_Inr dest: uintField_Inr prefixField_Inr macField_Inr field_Inr
      integerRangeField_Inr)

lemma fieldLength_le: "fieldLength t \<le> 19"
  by (simp add: fieldLength_def)

lemma ruleTypes_six_bits: "t \<in> snd ` set ruleTypes \<Longrightarrow> bit t k \<Longrightarrow> k < 6"
proof -
  assume "t \<in> snd ` set ruleTypes" "bit t k"
  then have "t < 64" by (auto simp: ruleTypes_def)
  then have "unat (take_bit 6 t) = unat t"
    by (simp add: unsigned_take_bit_eq take_bit_nat_eq_self word_less_nat_alt)
  then have "take_bit 6 t = t" by (simp add: word_unat_eq_iff)
  with \<open>bit t k\<close> show "k < 6" by (metis bit_take_bit_iff)
qed

lemma encodedType_fields:
  assumes t: "t \<in> snd ` set ruleTypes"
    and e: "e = t OR (if n then ruleFlagNot else 0) OR (if d then ruleFlagOr else 0)"
  shows "e AND 0x3f = t" "e AND 0x80 = (if n then 0x80 else 0)" "e AND 0x40 = (if d then 0x40 else 0)"
proof -
  have t6: "\<not> bit t 6" "\<not> bit t 7" using ruleTypes_six_bits [OF t, of 6] ruleTypes_six_bits [OF t, of 7] by auto
  show "e AND 0x3f = t" "e AND 0x80 = (if n then 0x80 else 0)" "e AND 0x40 = (if d then 0x40 else 0)"
    unfolding e ruleFlagNot_def ruleFlagOr_def atomize_conj
    by (intro conjI; rule bit_word_eqI; auto simp: t6 bit_simps dest!: byte_index)
qed

definition ruleDenotes :: "Rule \<Rightarrow> byte \<times> bool \<times> bool \<times> bytes \<Rightarrow> bool" where
  "ruleDenotes r d = (case d of (t, neg, alt, field) \<Rightarrow>
     map_of ruleTypes (ruType r) = Some t \<and> neg = ruNegate r \<and> alt = ruOr r
     \<and> serializeRuleField t (ruParameters r) = Inr field \<and> length field = fieldLength t)"

lemma decode_serializeRule:
  assumes "serializeRule r = Inr part" "decodeRules rest = Some ds"
  shows "\<exists>d. decodeRules (part @ rest) = Some (d # ds) \<and> ruleDenotes r d"
proof -
  from assms(1) obtain t f where t: "map_of ruleTypes (ruType r) = Some t"
    and f: "serializeRuleField t (ruParameters r) = Inr f"
    and part: "part = [t OR (if ruNegate r then ruleFlagNot else 0) OR (if ruOr r then ruleFlagOr else 0),
      of_nat (length f)] @ f"
    by (auto simp: serializeRule_def rbind_eq_Inr Let_def split: option.splits if_splits)
  from t have ts: "t \<in> snd ` set ruleTypes" by (force dest: map_of_SomeD)
  have l: "length f = fieldLength t" by (rule length_serializeRuleField [OF f])
  then have "length f \<le> 19" using fieldLength_le [of t] by simp
  then have "unat (of_nat (length f) :: byte) = length f" by (simp add: unat_of_nat)
  with assms(2) encodedType_fields [OF ts refl, of "ruNegate r" "ruOr r"]
  have "decodeRules (part @ rest) = Some ((t, ruNegate r, ruOr r, f) # ds)"
    by (simp add: part)
  with t f l show ?thesis by (auto simp: ruleDenotes_def)
qed

lemma decode_rules:
  "list_all2 (\<lambda>r part. serializeRule r = Inr part) rules parts \<Longrightarrow>
     \<exists>ds. decodeRules (concat parts) = Some ds \<and> list_all2 ruleDenotes rules ds"
proof (induction rule: list_all2_induct)
  case (Cons r rules part parts)
  then obtain ds where ds: "decodeRules (concat parts) = Some ds" "list_all2 ruleDenotes rules ds" by blast
  from decode_serializeRule [OF Cons.hyps(1) ds(1)] obtain d
    where "decodeRules (part @ concat parts) = Some (d # ds)" "ruleDenotes r d" by blast
  with ds(2) show ?case by (auto intro!: exI [of _ "d # ds"])
qed simp

lemma mapM_Inl: "mapM f xs = Inl e \<Longrightarrow> \<exists>x \<in> set xs. f x = Inl e"
  by (induction xs) (auto simp: rbind_eq_Inl)

text \<open>
  Rule encoding: when \<^verbatim>\<open>SerializeRules\<close> succeeds, reading its output as a type/length/value sequence
  gives one entry per rule, in order, with the rule's type code, its negation and disjunction flags
  and its field, whose size is the fixed size of that type; when it fails, one of the rules cannot
  be encoded on its own.
\<close>

theorem rules_encode_decode:
  "case SerializeRules rules of
     Inr bs \<Rightarrow> \<exists>ds. decodeRules bs = Some ds \<and> list_all2 ruleDenotes rules ds
   | Inl e \<Rightarrow> \<exists>r \<in> set rules. serializeRule r = Inl e"
  using decode_rules [of rules] mapM_Inl [of serializeRule rules]
  by (auto simp: SerializeRules_def mapM_Inr_iff rbind_eq_Inr rbind_eq_Inl split: sum.splits)

section \<open>Integer fields\<close>

lemma uintValue_bound: "uintValue p key bits = Inr v \<Longrightarrow> bits < 64 \<Longrightarrow> unat v < 2 ^ bits"
proof -
  assume "uintValue p key bits = Inr v" "bits < 64"
  then have "v < push_bit bits 1"
    by (auto simp: uintValue_def not_le split: option.splits sum.splits if_splits)
  moreover have "unat (push_bit bits 1 :: uint64) = 2 ^ bits"
    using \<open>bits < 64\<close> power_strict_increasing [of bits 64 "2 :: nat"] unat_of_nat [of "2 ^ bits", where 'a = 64]
    by (simp add: push_bit_eq_mult)
  ultimately show ?thesis by (simp add: word_less_nat_alt)
qed

lemma be_word_be_bytes_ucast:
  fixes w :: "'a::len word"
  assumes "8 * n \<le> LENGTH('a)" "8 * n \<le> LENGTH('b)"
  shows "be_word (be_bytes n w) = (ucast (take_bit (8 * n) w) :: 'b::len word)"
proof (rule bit_word_eqI)
  fix k assume k: "k < LENGTH('b)"
  show "bit (be_word (be_bytes n w) :: 'b word) k = bit (ucast (take_bit (8 * n) w) :: 'b word) k"
  proof (cases "k < 8 * n")
    case True
    then have i: "n - 1 - k div 8 < n" and e: "n - 1 - (n - 1 - k div 8) = k div 8"
      by (auto simp: less_mult_imp_div_less mult.commute)
    have "bit (be_bytes n w ! (n - 1 - k div 8)) (k mod 8) = bit w k"
      unfolding nth_be_bytes [OF i] e by (simp add: bit_ucast_iff bit_drop_bit_eq)
    then show ?thesis using True k by (simp add: bit_be_word bit_ucast_iff bit_take_bit_iff)
  qed (use k in \<open>simp add: bit_be_word bit_ucast_iff bit_take_bit_iff\<close>)
qed

lemma ucast_narrow:
  fixes v :: uint64
  assumes "unat v < 2 ^ n" "n \<le> LENGTH('a::len)" "n < 64"
  shows "ucast (ucast v :: 'a word) = v" "ucast (take_bit n (ucast v :: 'a word)) = v"
proof -
  have "unat (take_bit n v) = unat v"
    using assms(1) by (simp add: unsigned_take_bit_eq take_bit_nat_eq_self)
  then have "take_bit n v = v" by (simp add: word_unat_eq_iff)
  then have b: "k < n" if "bit v k" for k using that by (metis bit_take_bit_iff)
  then have c: "k < LENGTH('a)" if "bit v k" for k using that assms(2) order_less_le_trans by blast
  show "ucast (ucast v :: 'a word) = v"
    by (rule bit_word_eqI) (auto simp: bit_ucast_iff dest: c)
  show "ucast (take_bit n (ucast v :: 'a word)) = v"
    by (rule bit_word_eqI) (auto simp: bit_ucast_iff bit_take_bit_iff dest: b c)
qed

lemma uintField_exact:
  assumes "uintField p key bits = Inr f" "bits \<in> {8, 16, 32}"
  shows "uintValue p key bits = Inr (be_word f)"
proof -
  from assms(1) obtain v where v: "uintValue p key bits = Inr v" and f: "f = (if bits = 8 then [ucast v]
      else if bits = 16 then be_bytes 2 (ucast v :: uint16) else if bits = 32 then be_bytes 4 (ucast v :: uint32)
      else replicate (bits div 8) 0)"
    by (auto simp: uintField_def rbind_eq_Inr)
  have b: "unat v < 2 ^ bits" using uintValue_bound [OF v] assms(2) by auto
  have "be_word [ucast v :: byte] = (ucast (ucast v :: byte) :: uint64)" by (simp add: be_word_def)
  then have "be_word f = v"
    using assms(2) b ucast_narrow [of v 8, where 'a = 8] ucast_narrow [of v 16, where 'a = 16]
      ucast_narrow [of v 32, where 'a = 32] by (auto simp: f be_word_be_bytes_ucast)
  with v show ?thesis by simp
qed

text \<open>
  Integers in rules are never truncated: an 8-, 16- or 32-bit integer field is produced exactly
  when the parameter is present, is an unsigned integer (or null, read as zero) and fits; the
  big-endian value of the field is then the parameter.
\<close>

theorem rule_integers_exact:
  assumes "bits \<in> {8, 16, 32}"
  shows "case uintField p key bits of
     Inr f \<Rightarrow> length f = bits div 8 \<and> unat (be_word f :: uint64) < 2 ^ bits \<and>
       (\<exists>raw. fmlookup p key = Some raw \<and> unmarshalUint raw = Inr (be_word f))
   | Inl _ \<Rightarrow> (case fmlookup p key of None \<Rightarrow> True | Some raw \<Rightarrow>
       (case unmarshalUint raw of Inl _ \<Rightarrow> True | Inr v \<Rightarrow> 2 ^ bits \<le> unat v))"
proof (cases "uintField p key bits")
  case (Inr f)
  have v: "uintValue p key bits = Inr (be_word f)" by (rule uintField_exact [OF Inr assms])
  then have "\<exists>raw. fmlookup p key = Some raw \<and> unmarshalUint raw = Inr (be_word f)"
    by (auto simp: uintValue_def case_sum_eq_Inr split: option.splits if_splits)
  with Inr uintField_Inr [OF Inr assms] uintValue_bound [OF v] assms show ?thesis by auto
next
  case (Inl e)
  have p: "unat (push_bit bits 1 :: uint64) = 2 ^ bits" using assms by auto
  from Inl have "uintValue p key bits = Inl e" by (auto simp: uintField_def rbind_eq_Inl)
  then show ?thesis
    using Inl p by (auto simp: uintValue_def word_le_nat_alt split: option.splits sum.splits if_splits)
qed

theorem rule_integers_exact_witness:
  "case uintField (fmupd ''vlanId'' (JNumber ''300'') fmempty) ''vlanId'' 16 of Inr f \<Rightarrow> length f = 2 | Inl _ \<Rightarrow> False"
proof -
  have "unmarshalUint (JNumber ''300'') = Inr 300"
    by (simp add: ParseUint10_def isDigit_def digitValue_def)
  then show ?thesis
    using rule_integers_exact [of 16 "fmupd ''vlanId'' (JNumber ''300'') fmempty" "''vlanId''"]
    by (auto split: sum.splits)
qed

end
