(* ===== verification/Config.thy ===== *)
theory Config
  imports Dictionary Rules
begin

unbundle bit_operations_syntax

text \<open>
  \<^verbatim>\<open>internal/zerotier/networkconfig/config.go\<close>: the configuration dictionary of a member, with the
  binary forms of routes, addresses, DNS settings and specialists, and the derived IPv6 addresses.
\<close>

section \<open>Constants and inputs\<close>

definition CurrentVersion :: uint64 where "CurrentVersion = 7"
definition DefaultCredentialTimeMaxDelta :: duration where "DefaultCredentialTimeMaxDelta = 24 * Hour"
definition MaxNetworkSpecialists :: nat where "MaxNetworkSpecialists = 512"
definition maxDNSServers :: nat where "maxDNSServers = 4"
definition flagEnableBroadcast :: uint64 where "flagEnableBroadcast = 0x02"
definition flagEnableNDP :: uint64 where "flagEnableNDP = 0x04"
definition specialistActiveBridge :: uint64 where "specialistActiveBridge = 0x0000020000000000"
definition specialistMulticastReplicator :: uint64 where "specialistMulticastReplicator = 0x0000080000000000"
definition specialistNetworkRelay :: uint64 where "specialistNetworkRelay = 0x0000100000000000"
definition specialistAddressMask :: uint64 where "specialistAddressMask = 0x000000ffffffffff"

record ConfigInput =
  ciNetwork :: Network
  ciMember :: Member
  ciIssuedAt :: time
  ciRevision :: uint64
  ciCredentialTimeMaxDelta :: duration
  ciCertificateOfMembership :: bytes
  ciCertificatesOfOwnership :: bytes
  ciCapabilities :: bytes
  ciTags :: bytes
  ciNetworkMembers :: "Member list"

text \<open>\<^verbatim>\<open>Duration.Milliseconds\<close> truncates toward zero; it is applied to non-negative durations.\<close>

definition Milliseconds :: "duration \<Rightarrow> int" where
  "Milliseconds d = (if d < 0 then - ((- d) div 1000000) else d div 1000000)"

section \<open>Binary forms\<close>

definition appendInetAddress :: "Addr \<Rightarrow> int \<Rightarrow> bytes result" where
  "appendInetAddress address port =
     (if port < 0 \<or> port > 65535 then Inl (Errorf ''port or prefix %d is out of range'')
      else
        rbind (if Is4 address then rbind (As4 address) (\<lambda>value. Inr ([4] @ value))
               else if Is6 address then Inr ([6] @ As16 address)
               else Inl (Errorf ''invalid IP address'')) (\<lambda>prefix.
        Inr (prefix @ be_bytes 2 (of_int port :: uint16))))"

definition serializeRoute :: "Route \<Rightarrow> bytes result" where
  "serializeRoute route =
     rbind (wrapErr ''route %d target: %w'' (appendInetAddress (pfAddr (rtTarget route)) (pfBits (rtTarget route)))) (\<lambda>target.
     rbind (if addrIsValid (rtVia route) then wrapErr ''route %d gateway: %w'' (appendInetAddress (rtVia route) 0)
            else Inr [0]) (\<lambda>via.
     Inr (target @ via @ be_bytes 2 (0 :: uint16) @ be_bytes 2 (0 :: uint16))))"

definition serializeRoutes :: "Route list \<Rightarrow> bytes result" where
  "serializeRoutes routes = rbind (mapM serializeRoute routes) (\<lambda>parts. Inr (concat parts))"

definition derivedIPv6Assignments :: "NetworkID \<Rightarrow> NodeID \<Rightarrow> AssignmentModes \<Rightarrow> (Addr \<times> int) list" where
  "derivedIPv6Assignments networkID nodeID modes =
     (case ParseUint16 networkID 64 of Inl _ \<Rightarrow> [] | Inr nwid \<Rightarrow>
      case ParseUint16 nodeID 64 of Inl _ \<Rightarrow> [] | Inr node \<Rightarrow>
        (if amIPv6RFC4193 modes
         then [(AddrFrom16 ([0xfd] @ be_bytes 8 nwid @ [0x99, 0x93] @ be_bytes 5 node), 88)] else [])
        @ (if amIPv6SixPlane modes
         then let nwid = nwid XOR drop_bit 32 nwid in
              [(AddrFrom16 ([0xfc] @ be_bytes 4 nwid @ be_bytes 5 node @ replicate 5 0 @ [1]), 40)] else []))"

text \<open>The longest containing managed route, \<open>-1\<close> when there is none.\<close>

definition managedPrefixBits :: "Route list \<Rightarrow> Addr \<Rightarrow> int" where
  "managedPrefixBits routes address = foldl (\<lambda>prefixBits route.
     if Is4 (pfAddr (rtTarget route)) = Is4 address \<and> prefixContains (rtTarget route) address
        \<and> pfBits (rtTarget route) > prefixBits
     then pfBits (rtTarget route) else prefixBits) (- 1) routes"

definition serializeStaticIPs :: "Network \<Rightarrow> Member \<Rightarrow> bytes result" where
  "serializeStaticIPs network member =
     rbind (if mbNoAutoAssign member then Inr []
            else mapM (\<lambda>(address, prefixBits). appendInetAddress address prefixBits)
              (derivedIPv6Assignments (nwID network) (mbNodeID member) (nwAssignment network))) (\<lambda>derived.
     rbind (mapM (\<lambda>address.
         let prefixBits = managedPrefixBits (nwRoutes network) address in
         if prefixBits < 0 then Inl (Errorf ''IP assignment %d (%s) has no containing managed route'')
         else wrapErr ''IP assignment %d: %w'' (appendInetAddress address prefixBits)) (mbIPAssignments member)) (\<lambda>assigned.
     Inr (concat derived @ concat assigned)))"

definition serializeDNS :: "DNSConfig option \<Rightarrow> bytes result" where
  "serializeDNS config =
     (let domainName = (case config of None \<Rightarrow> [] | Some c \<Rightarrow> dnsDomain c);
          servers = (case config of None \<Rightarrow> [] | Some c \<Rightarrow> dnsServers c) in
      if length domainName > 127 then Inl (Errorf ''DNS domain exceeds 127 bytes'')
      else if length servers > maxDNSServers then Inl (Errorf ''DNS has more than %d servers'')
      else
        rbind (mapM (\<lambda>index. if index \<ge> length servers then Inr [0]
                 else wrapErr ''DNS server %d: %w'' (appendInetAddress (servers ! index) 0)) [0..<maxDNSServers]) (\<lambda>parts.
        Inr (bytes_of_string domainName @ replicate (128 - length domainName) 0 @ concat parts)))"

section \<open>Specialists\<close>

definition memberRole :: "Member \<Rightarrow> uint64" where
  "memberRole member =
     (if mbActiveBridge member then specialistActiveBridge else 0)
     OR (if mbMulticastReplicator member then specialistMulticastReplicator else 0)
     OR (if mbNetworkRelay member then specialistNetworkRelay else 0)"

fun specialistRoles :: "NetworkID \<Rightarrow> Member list \<Rightarrow> (NodeID, uint64) fmap \<Rightarrow> (NodeID, uint64) fmap result" where
  "specialistRoles networkID [] roles = Inr roles"
| "specialistRoles networkID (member # members) roles =
     (if mbNetworkID member \<noteq> networkID then Inl (Errorf ''specialist member %d belongs to a different network'')
      else if \<not> mbAuthorized member then specialistRoles networkID members roles
      else
        let role = memberRole member in
        if role \<noteq> 0
        then specialistRoles networkID members (fmupd (mbNodeID member)
               ((case fmlookup roles (mbNodeID member) of None \<Rightarrow> 0 | Some r \<Rightarrow> r) OR role) roles)
        else specialistRoles networkID members roles)"

definition serializeSpecialists :: "NetworkID \<Rightarrow> Member list \<Rightarrow> bytes result" where
  "serializeSpecialists networkID members =
     rbind (specialistRoles networkID members fmempty) (\<lambda>roles.
     if fcard (fmdom roles) > MaxNetworkSpecialists then Inl (Errorf ''network has %d specialists, maximum is %d'')
     else
       rbind (mapM (\<lambda>nodeID. case ParseUint16 nodeID 64 of
           Inl _ \<Rightarrow> Inl (Errorf ''invalid specialist node ID %q'')
         | Inr address \<Rightarrow> if address > specialistAddressMask then Inl (Errorf ''invalid specialist node ID %q'')
             else Inr (be_bytes 8 ((case fmlookup roles nodeID of None \<Rightarrow> 0 | Some r \<Rightarrow> r) OR address)))
         (sorted_list_of_set (fset (fmdom roles)))) (\<lambda>parts.
       Inr (concat parts)))"

section \<open>The dictionary\<close>

text \<open>
  \<^verbatim>\<open>mustHexUint\<close>, applied to identifiers; a character that is not a digit is read as a letter, with the
  subtraction of Go's runes.
\<close>

definition mustHexUint :: "string \<Rightarrow> uint64" where
  "mustHexUint value = foldl (\<lambda>result c.
     let n = of_char c :: int in
     push_bit 4 result OR (if 48 \<le> n \<and> n \<le> 57 then of_int (n - 48) else of_int (n - 97) + 10)) 0 value"

fun addHexFields :: "(string \<times> uint64) list \<Rightarrow> bytes \<Rightarrow> bytes result" where
  "addHexFields [] data = Inr data"
| "addHexFields ((key, value) # rest) data = rbind (AddHexUint key value data) (addHexFields rest)"

fun addPresentFields :: "(string \<times> bytes) list \<Rightarrow> bytes \<Rightarrow> bytes result" where
  "addPresentFields [] data = Inr data"
| "addPresentFields ((key, value) # rest) data =
     (if length value > 0 then rbind (Add key value data) (addPresentFields rest) else addPresentFields rest data)"

definition configFlags :: "Network \<Rightarrow> uint64" where
  "configFlags network =
     (if nwEnableBroadcast network then flagEnableBroadcast else 0)
     OR (if amIPv6RFC4193 (nwAssignment network) \<or> amIPv6SixPlane (nwAssignment network) then flagEnableNDP else 0)"

text \<open>The second half of \<^verbatim>\<open>BuildDictionary\<close>: filling the builder.\<close>

definition fillDictionary :: "ConfigInput \<Rightarrow> duration \<Rightarrow> bytes \<Rightarrow> bytes \<Rightarrow> bytes \<Rightarrow> bytes \<Rightarrow> bytes \<Rightarrow> bytes result" where
  "fillDictionary input delta staticIPs routes dns rules specialists =
     (let network = ciNetwork input; member = ciMember input in
      rbind (addHexFields [(''v'', CurrentVersion), (''nwid'', mustHexUint (nwID network)),
          (''ts'', of_int (UnixMilli (ciIssuedAt input))), (''ctmd'', of_int (Milliseconds delta)),
          (''r'', ciRevision input)] []) (\<lambda>dictionary.
      rbind (AddString ''id'' (mbNodeID member) dictionary) (\<lambda>dictionary.
      rbind (addHexFields [(''tt'', 0), (''tl'', 0), (''f'', configFlags network),
          (''ml'', of_int (nwMulticastLimit network)), (''t'', if nwPrivate network then 0 else 1)] dictionary) (\<lambda>dictionary.
      rbind (AddString ''n'' (nwName network) dictionary) (\<lambda>dictionary.
      rbind (AddHexUint ''mtu'' (of_int (nwMTU network)) dictionary) (\<lambda>dictionary.
      addPresentFields [(''C'', ciCertificateOfMembership input), (''CAP'', ciCapabilities input),
        (''TAG'', ciTags input), (''COO'', ciCertificatesOfOwnership input), (''S'', specialists),
        (''RT'', routes), (''I'', staticIPs), (''R'', rules), (''DNS'', dns)] dictionary))))))"

definition BuildDictionary :: "ConfigInput \<Rightarrow> bytes result" where
  "BuildDictionary input =
     (let network = ciNetwork input; member = ciMember input in
      rbind (wrapErr ''network: %w'' (Network_Validate network)) (\<lambda>_.
      rbind (wrapErr ''member: %w'' (Member_Validate member)) (\<lambda>_.
      if mbNetworkID member \<noteq> nwID network then Inl (Errorf ''member belongs to a different network'')
      else if IsZero (ciIssuedAt input) then Inl (Errorf ''issue time is required'')
      else
        let delta = (if ciCredentialTimeMaxDelta input = 0 then DefaultCredentialTimeMaxDelta
                     else ciCredentialTimeMaxDelta input) in
        if delta < 0 then Inl (Errorf ''credential time maximum delta cannot be negative'')
        else
          rbind (serializeStaticIPs network member) (\<lambda>staticIPs.
          rbind (serializeRoutes (nwRoutes network)) (\<lambda>routes.
          rbind (serializeDNS (nwDNS network)) (\<lambda>dns.
          rbind (SerializeRules (nwRules network)) (\<lambda>rules.
          rbind (serializeSpecialists (nwID network) (ciNetworkMembers input)) (\<lambda>specialists.
          fillDictionary input delta staticIPs routes dns rules specialists))))))))"

section \<open>Identifiers as integers\<close>

definition bytesValue :: "nat \<Rightarrow> bytes \<Rightarrow> nat" where
  "bytesValue acc bs = foldl (\<lambda>acc b. 256 * acc + unat b) acc bs"

lemma or_byte_add: "push_bit 8 (a :: 'a::len word) OR ucast (b :: byte) = push_bit 8 a + ucast b"
  by (rule disjunctive_add [symmetric]) (auto simp: bit_simps dest: bit_imp_le_length)

lemma be_word_bytesValue: "(be_word bs :: 'a::len word) = of_nat (bytesValue 0 bs)"
proof -
  have "foldl (\<lambda>acc b. push_bit 8 acc OR ucast b) (of_nat n) bs = (of_nat (bytesValue n bs) :: 'a word)" for n
  proof (induction bs arbitrary: n)
    case (Cons b bs)
    have "push_bit 8 (of_nat n) OR ucast b = (of_nat (256 * n + unat b) :: 'a word)"
      unfolding or_byte_add by (simp add: push_bit_eq_mult)
    then show ?case using Cons [of "256 * n + unat b"] by (simp add: bytesValue_def del: of_nat_add of_nat_mult)
  qed (simp add: bytesValue_def)
  from this [of 0] show ?thesis by (simp add: be_word_def)
qed

lemma hexnat_hex_encode: "hexnat acc (hex_encode bs) = Some (bytesValue acc bs)"
proof (induction bs arbitrary: acc)
  case (Cons b bs)
  have e: "16 * (16 * acc + unat b div 16) + unat b mod 16 = 256 * acc + unat b" by simp
  have "hexnat acc (hex_encode (b # bs)) = hexnat (16 * (16 * acc + unat b div 16) + unat b mod 16) (hex_encode bs)"
    by (simp add: unat_byte_div16 del: div_mult_mod_eq mult_div_mod_eq)
  then show ?case unfolding e using Cons by (simp add: bytesValue_def)
qed (simp add: bytesValue_def)

lemma bytesValue_less: "bytesValue acc bs < (acc + 1) * 256 ^ length bs"
proof (induction bs arbitrary: acc)
  case (Cons b bs)
  have "256 * acc + unat b + 1 \<le> (acc + 1) * 256" using unat_byte_less [of b] by presburger
  then have "(256 * acc + unat b + 1) * 256 ^ length bs \<le> (acc + 1) * 256 * 256 ^ length bs" by (rule mult_right_mono) simp
  moreover have "bytesValue acc (b # bs) < (256 * acc + unat b + 1) * 256 ^ length bs"
    using Cons [of "256 * acc + unat b"] by (simp add: bytesValue_def)
  moreover have "(acc + 1) * 256 * 256 ^ length bs = (acc + 1) * 256 ^ length (b # bs)"
    by (simp only: length_Cons power_Suc mult.assoc)
  ultimately show ?case by linarith
qed (simp add: bytesValue_def)

lemma ParseUint16_bytes:
  assumes "0 < length bs" "length bs \<le> 8"
  shows "ParseUint16 (hex_encode bs) 64 = Inr (be_word bs)"
proof -
  have "bytesValue 0 bs < 256 ^ length bs" using bytesValue_less [of 0 bs] by simp
  also have "(256 :: nat) ^ length bs \<le> 256 ^ 8" using assms(2) by (intro power_increasing) auto
  finally have "bytesValue 0 bs < 2 ^ 64" by simp
  moreover have "hex_encode bs \<noteq> []" using assms(1) by (cases bs) auto
  ultimately show ?thesis by (simp add: ParseUint16_def hexnat_hex_encode be_word_bytesValue)
qed

lemma ParseUint16_canonical [simp]:
  "canonicalHex 10 s \<Longrightarrow> ParseUint16 s 64 = Inr (be_word (decodedHex s))"
  "canonicalHex 16 s \<Longrightarrow> ParseUint16 s 64 = Inr (be_word (decodedHex s))"
  using ParseUint16_bytes [of "decodedHex s"] by auto

lemma hexdigit_value: "n < 16 \<Longrightarrow> (let k = of_char (hexdigit n) :: int in
    if 48 \<le> k \<and> k \<le> 57 then of_int (k - 48) else of_int (k - 97) + 10) = (of_nat n :: uint64)"
proof -
  assume n: "n < 16"
  have c: "(of_char c :: int) = int (of_char c)" for c by (simp add: of_nat_of_char)
  show ?thesis
    using n by (cases "n < 10") (simp_all add: hexdigit_def Let_def c del: of_nat_of_char)
qed

lemma or_nibble_add: "n < 16 \<Longrightarrow> push_bit 4 (a :: uint64) OR of_nat n = push_bit 4 a + of_nat n"
proof (rule disjunctive_add [symmetric])
  fix k assume "n < 16"
  then have "take_bit 4 n = n" by (simp add: take_bit_nat_eq_self)
  then have "bit n k \<Longrightarrow> k < 4" by (metis bit_take_bit_iff)
  then show "\<not> bit (push_bit 4 a) k \<or> \<not> bit (of_nat n :: uint64) k"
    by (auto simp: bit_push_bit_iff bit_of_nat_iff)
qed

lemma mustHexUint_bytes: "mustHexUint (hex_encode bs) = be_word bs"
proof -
  define step where "step = (\<lambda>result c. let n = of_char c :: int in
     push_bit 4 result OR (if 48 \<le> n \<and> n \<le> 57 then of_int (n - 48) else of_int (n - 97) + 10 :: uint64))"
  have d: "step a (hexdigit n) = 16 * a + of_nat n" if "n < 16" for a n
    using hexdigit_value [OF that] or_nibble_add [OF that, of a]
    by (simp add: step_def Let_def push_bit_eq_mult)
  have "foldl step (of_nat n) (hex_encode bs) = of_nat (bytesValue n bs)" for n
  proof (induction bs arbitrary: n)
    case (Cons b bs)
    have "step (step (of_nat n) (hexdigit (unat b div 16))) (hexdigit (unat b mod 16))
        = (of_nat (16 * (16 * n + unat b div 16) + unat b mod 16) :: uint64)"
      unfolding d [OF unat_byte_div16] d [of "unat b mod 16", simplified] by (simp only: of_nat_add of_nat_mult of_nat_numeral)
    also have "16 * (16 * n + unat b div 16) + unat b mod 16 = 256 * n + unat b" by simp
    finally show ?case using Cons [of "256 * n + unat b"] by (simp add: bytesValue_def)
  qed (simp add: bytesValue_def)
  from this [of 0] show ?thesis by (simp add: mustHexUint_def step_def be_word_bytesValue)
qed

lemma mustHexUint_canonical [simp]: "canonicalHex 16 s \<Longrightarrow> mustHexUint s = be_word (decodedHex s)"
  using mustHexUint_bytes [of "decodedHex s"] by simp

section \<open>Reading a configuration\<close>

lemma addAll_append: "addAll (xs @ ys) data = rbind (addAll xs data) (addAll ys)"
proof (induction xs arbitrary: data)
  case (Cons kv xs)
  then show ?case by (cases kv; cases "Add (fst kv) (snd kv) data") auto
qed simp

definition hexField :: "string \<times> uint64 \<Rightarrow> string \<times> bytes" where
  "hexField kv = (fst kv, bytes_of_string (FormatUint16 (snd kv)))"

lemma addHexFields_addAll: "addHexFields kvs data = addAll (map hexField kvs) data"
proof (induction kvs arbitrary: data)
  case (Cons kv kvs)
  then show ?case
    by (cases kv) (auto simp: AddHexUint_def AddString_def hexField_def intro!: arg_cong [where f = "rbind _"])
qed simp

lemma addPresentFields_addAll: "addPresentFields kvs data = addAll (filter (\<lambda>kv. snd kv \<noteq> []) kvs) data"
proof (induction kvs arbitrary: data)
  case (Cons kv kvs)
  then show ?case by (cases kv) (auto intro!: arg_cong [where f = "rbind _"])
qed simp

definition configDelta :: "ConfigInput \<Rightarrow> duration" where
  "configDelta input = (if ciCredentialTimeMaxDelta input = 0 then DefaultCredentialTimeMaxDelta
     else ciCredentialTimeMaxDelta input)"

definition configHead :: "ConfigInput \<Rightarrow> (string \<times> bytes) list" where
  "configHead input =
     (let network = ciNetwork input; member = ciMember input in
      map hexField [(''v'', CurrentVersion), (''nwid'', mustHexUint (nwID network)),
        (''ts'', of_int (UnixMilli (ciIssuedAt input))), (''ctmd'', of_int (Milliseconds (configDelta input))),
        (''r'', ciRevision input)]
      @ [(''id'', bytes_of_string (mbNodeID member))]
      @ map hexField [(''tt'', 0), (''tl'', 0), (''f'', configFlags network),
        (''ml'', of_int (nwMulticastLimit network)), (''t'', if nwPrivate network then 0 else 1)]
      @ [(''n'', bytes_of_string (nwName network)), hexField (''mtu'', of_int (nwMTU network))])"

definition configFields :: "ConfigInput \<Rightarrow> bytes \<Rightarrow> bytes \<Rightarrow> bytes \<Rightarrow> bytes \<Rightarrow> bytes \<Rightarrow> (string \<times> bytes) list" where
  "configFields input staticIPs routes dns rules specialists =
     configHead input @ filter (\<lambda>kv. snd kv \<noteq> [])
         [(''C'', ciCertificateOfMembership input), (''CAP'', ciCapabilities input), (''TAG'', ciTags input),
          (''COO'', ciCertificatesOfOwnership input), (''S'', specialists), (''RT'', routes), (''I'', staticIPs),
          (''R'', rules), (''DNS'', dns)]"

lemma addHexFields_eq: "addHexFields kvs = addAll (map hexField kvs)"
  by (rule ext) (rule addHexFields_addAll)

lemma addPresentFields_eq: "addPresentFields kvs = addAll (filter (\<lambda>kv. snd kv \<noteq> []) kvs)"
  by (rule ext) (rule addPresentFields_addAll)

lemma Add_addAll:
  "AddString key v data = addAll [(key, bytes_of_string v)] data"
  "AddHexUint key w data = addAll [hexField (key, w)] data"
  by (cases "Add key (bytes_of_string v) data"; simp add: AddString_def)
    (cases "Add key (bytes_of_string (FormatUint16 w)) data"; simp add: AddHexUint_def AddString_def hexField_def)

lemma fillDictionary_addAll:
  "fillDictionary input (configDelta input) staticIPs routes dns rules specialists
     = addAll (configFields input staticIPs routes dns rules specialists) []"
  unfolding fillDictionary_def configFields_def configHead_def Let_def
  by (simp only: addHexFields_eq addPresentFields_eq Add_addAll addAll_append [symmetric] append_assoc append.simps)

lemma BuildDictionary_Inr:
  assumes "BuildDictionary input = Inr d"
  obtains staticIPs routes dns rules specialists where
    "Network_Validate (ciNetwork input) = Inr ()" "Member_Validate (ciMember input) = Inr ()"
    "mbNetworkID (ciMember input) = nwID (ciNetwork input)" "ciIssuedAt input \<noteq> 0" "0 \<le> configDelta input"
    "serializeStaticIPs (ciNetwork input) (ciMember input) = Inr staticIPs"
    "serializeRoutes (nwRoutes (ciNetwork input)) = Inr routes" "serializeDNS (nwDNS (ciNetwork input)) = Inr dns"
    "SerializeRules (nwRules (ciNetwork input)) = Inr rules"
    "serializeSpecialists (nwID (ciNetwork input)) (ciNetworkMembers input) = Inr specialists"
    "addAll (configFields input staticIPs routes dns rules specialists) [] = Inr d"
  using assms unfolding BuildDictionary_def Let_def configDelta_def [symmetric] fillDictionary_addAll
  by (auto simp: rbind_eq_Inr IsZero_def not_less split: if_splits)

lemma map_of_filter:
  "distinct (map fst kvs) \<Longrightarrow> map_of (filter P kvs) k =
     (case map_of kvs k of None \<Rightarrow> None | Some v \<Rightarrow> if P (k, v) then Some v else None)"
  by (induction kvs) (auto split: option.splits simp: map_of_eq_None_iff image_iff)

lemma configHead_lookup:
  "map_of (configHead input) ''nwid'' = Some (bytes_of_string (FormatUint16 (mustHexUint (nwID (ciNetwork input)))))"
  "map_of (configHead input) ''r'' = Some (bytes_of_string (FormatUint16 (ciRevision input)))"
  "map_of (configHead input) ''ts'' = Some (bytes_of_string (FormatUint16 (of_int (UnixMilli (ciIssuedAt input)))))"
  "map_of (configHead input) ''ctmd'' = Some (bytes_of_string (FormatUint16 (of_int (Milliseconds (configDelta input)))))"
  "map_of (configHead input) ''mtu'' = Some (bytes_of_string (FormatUint16 (of_int (nwMTU (ciNetwork input)))))"
  "map_of (configHead input) ''t'' = Some (bytes_of_string (FormatUint16 (if nwPrivate (ciNetwork input) then 0 else 1)))"
  "map_of (configHead input) ''id'' = Some (bytes_of_string (mbNodeID (ciMember input)))"
  "map_of (configHead input) ''n'' = Some (bytes_of_string (nwName (ciNetwork input)))"
  "map_of (configHead input) ''v'' = Some (bytes_of_string (FormatUint16 CurrentVersion))"
  "map_of (configHead input) ''tt'' = Some (bytes_of_string (FormatUint16 0))"
  "map_of (configHead input) ''tl'' = Some (bytes_of_string (FormatUint16 0))"
  "map_of (configHead input) ''f'' = Some (bytes_of_string (FormatUint16 (configFlags (ciNetwork input))))"
  "map_of (configHead input) ''ml'' = Some (bytes_of_string (FormatUint16 (of_int (nwMulticastLimit (ciNetwork input)))))"
  by (simp_all add: configHead_def hexField_def Let_def)

lemma configHead_other:
  "map_of (configHead input) ''C'' = None" "map_of (configHead input) ''CAP'' = None"
  "map_of (configHead input) ''TAG'' = None" "map_of (configHead input) ''COO'' = None"
  "map_of (configHead input) ''S'' = None" "map_of (configHead input) ''RT'' = None"
  "map_of (configHead input) ''I'' = None" "map_of (configHead input) ''R'' = None"
  "map_of (configHead input) ''DNS'' = None"
  by (simp_all add: configHead_def hexField_def Let_def)

definition present :: "bytes \<Rightarrow> bytes option" where
  "present v = (if v = [] then None else Some v)"

lemma configFields_head:
  "map_of (configHead input) key = Some v \<Longrightarrow>
     map_of (configFields input staticIPs routes dns rules specialists) key = Some v"
  unfolding configFields_def by (simp add: map_add_def del: filter.simps)

lemma present_lookup:
  assumes "f = map_of (configFields input staticIPs routes dns rules specialists)"
  shows "f ''C'' = present (ciCertificateOfMembership input)" "f ''CAP'' = present (ciCapabilities input)"
    "f ''TAG'' = present (ciTags input)" "f ''COO'' = present (ciCertificatesOfOwnership input)"
    "f ''S'' = present specialists" "f ''RT'' = present routes" "f ''I'' = present staticIPs"
    "f ''R'' = present rules" "f ''DNS'' = present dns"
  unfolding assms configFields_def
  by (simp_all add: map_add_def configHead_other map_of_filter present_def del: filter.simps)

lemma configFields_keys:
  "fst ` set (configFields input staticIPs routes dns rules specialists) \<subseteq> {''v'', ''nwid'', ''ts'', ''ctmd'', ''r'', ''id'', ''tt'',
     ''tl'', ''f'', ''ml'', ''t'', ''n'', ''mtu'', ''C'', ''CAP'', ''TAG'', ''COO'', ''S'', ''RT'', ''I'', ''R'', ''DNS''}"
  unfolding configFields_def configHead_def Let_def by (auto simp: hexField_def)

lemma configFlags_value:
  "configFlags n = (if nwEnableBroadcast n then 2 else 0)
     + (if amIPv6RFC4193 (nwAssignment n) \<or> amIPv6SixPlane (nwAssignment n) then 4 else 0)"
  by (simp add: configFlags_def flagEnableBroadcast_def flagEnableNDP_def)

text \<open>
  C40. Configurations are read back: when \<^verbatim>\<open>BuildDictionary\<close> succeeds, both documents were valid and of
  the same network, and \<^verbatim>\<open>ParseDictionary\<close> accepts the result within the dictionary limit and finds
  every field that can be there: the format version 7, the network, the issue time and the credential
  window (24 hours when none is given) in milliseconds, the revision, the member, trace target and level
  0, the flags for broadcast and NDP, the multicast limit, the network type, the name and the MTU; and
  the credentials and the binary forms of specialists, routes, addresses, rules and DNS under their keys,
  absent exactly when empty. It finds no other key.
\<close>

theorem config_readback:
  assumes "BuildDictionary input = Inr d"
  shows "Network_Validate (ciNetwork input) = Inr () \<and> Member_Validate (ciMember input) = Inr ()
    \<and> mbNetworkID (ciMember input) = nwID (ciNetwork input) \<and> length d \<le> MaxDictionaryLength
    \<and> (\<exists>m w. ParseDictionary d = Inr m
       \<and> HexUint m ''v'' = Some 7
       \<and> HexUint m ''nwid'' = Some w \<and> hex_encode (be_bytes 8 w) = nwID (ciNetwork input)
       \<and> HexUint m ''ts'' = Some (of_int (UnixMilli (ciIssuedAt input)))
       \<and> HexUint m ''ctmd'' = Some (of_int (Milliseconds (if ciCredentialTimeMaxDelta input = 0 then 24 * Hour
            else ciCredentialTimeMaxDelta input)))
       \<and> HexUint m ''r'' = Some (ciRevision input)
       \<and> fmlookup m ''id'' = Some (bytes_of_string (mbNodeID (ciMember input)))
       \<and> HexUint m ''tt'' = Some 0 \<and> HexUint m ''tl'' = Some 0
       \<and> HexUint m ''f'' = Some ((if nwEnableBroadcast (ciNetwork input) then 2 else 0)
            + (if amIPv6RFC4193 (nwAssignment (ciNetwork input)) \<or> amIPv6SixPlane (nwAssignment (ciNetwork input)) then 4 else 0))
       \<and> HexUint m ''ml'' = Some (of_int (nwMulticastLimit (ciNetwork input)))
       \<and> HexUint m ''t'' = Some (if nwPrivate (ciNetwork input) then 0 else 1)
       \<and> fmlookup m ''n'' = Some (bytes_of_string (nwName (ciNetwork input)))
       \<and> HexUint m ''mtu'' = Some (of_int (nwMTU (ciNetwork input)))
       \<and> fmlookup m ''C'' = present (ciCertificateOfMembership input)
       \<and> fmlookup m ''CAP'' = present (ciCapabilities input) \<and> fmlookup m ''TAG'' = present (ciTags input)
       \<and> fmlookup m ''COO'' = present (ciCertificatesOfOwnership input)
       \<and> (case serializeSpecialists (nwID (ciNetwork input)) (ciNetworkMembers input) of
            Inr v \<Rightarrow> fmlookup m ''S'' = present v | Inl _ \<Rightarrow> False)
       \<and> (case serializeRoutes (nwRoutes (ciNetwork input)) of Inr v \<Rightarrow> fmlookup m ''RT'' = present v | Inl _ \<Rightarrow> False)
       \<and> (case serializeStaticIPs (ciNetwork input) (ciMember input) of
            Inr v \<Rightarrow> fmlookup m ''I'' = present v | Inl _ \<Rightarrow> False)
       \<and> (case SerializeRules (nwRules (ciNetwork input)) of Inr v \<Rightarrow> fmlookup m ''R'' = present v | Inl _ \<Rightarrow> False)
       \<and> (case serializeDNS (nwDNS (ciNetwork input)) of Inr v \<Rightarrow> fmlookup m ''DNS'' = present v | Inl _ \<Rightarrow> False)
       \<and> fmdom' m \<subseteq> {''v'', ''nwid'', ''ts'', ''ctmd'', ''r'', ''id'', ''tt'', ''tl'', ''f'', ''ml'', ''t'', ''n'', ''mtu'',
            ''C'', ''CAP'', ''TAG'', ''COO'', ''S'', ''RT'', ''I'', ''R'', ''DNS''})"
  using assms
proof (rule BuildDictionary_Inr)
  fix staticIPs routes dns rules specialists
  assume v: "Network_Validate (ciNetwork input) = Inr ()" "Member_Validate (ciMember input) = Inr ()"
    "mbNetworkID (ciMember input) = nwID (ciNetwork input)" "ciIssuedAt input \<noteq> 0" "0 \<le> configDelta input"
    "serializeStaticIPs (ciNetwork input) (ciMember input) = Inr staticIPs"
    "serializeRoutes (nwRoutes (ciNetwork input)) = Inr routes" "serializeDNS (nwDNS (ciNetwork input)) = Inr dns"
    "SerializeRules (nwRules (ciNetwork input)) = Inr rules"
    "serializeSpecialists (nwID (ciNetwork input)) (ciNetworkMembers input) = Inr specialists"
    "addAll (configFields input staticIPs routes dns rules specialists) [] = Inr d"
  from addAll_readback [OF v(11)] obtain m where l: "length d \<le> MaxDictionaryLength" and m: "ParseDictionary d = Inr m"
    and f: "fmlookup m = map_of (configFields input staticIPs routes dns rules specialists)" by blast
  have h: "fmlookup m key = Some v" if "map_of (configHead input) key = Some v" for key v
    unfolding f by (rule configFields_head [OF that])
  note hex = h [THEN HexUint_Format]
  have n: "canonicalHex 16 (nwID (ciNetwork input))"
    using v(1) by (auto simp: Network_Validate_def rbind_eq_Inr)
  then have w: "hex_encode (be_bytes 8 (mustHexUint (nwID (ciNetwork input)))) = nwID (ciNetwork input)" by simp
  have "fmdom' m = dom (fmlookup m)" by (auto simp: fmlookup_dom'_iff)
  then have "fmdom' m = fst ` set (configFields input staticIPs routes dns rules specialists)"
    by (simp add: f dom_map_of_conv_image_fst)
  note keys = configFields_keys [of input staticIPs routes dns rules specialists, folded this]
  note flags = hex [OF configHead_lookup(12), unfolded configFlags_value]
  note fields = hex [OF configHead_lookup(1)] hex [OF configHead_lookup(2)] hex [OF configHead_lookup(3)]
    hex [OF configHead_lookup(4), unfolded configDelta_def DefaultCredentialTimeMaxDelta_def] hex [OF configHead_lookup(5)]
    hex [OF configHead_lookup(6)] h [OF configHead_lookup(7)] h [OF configHead_lookup(8)]
    hex [OF configHead_lookup(9), unfolded CurrentVersion_def] hex [OF configHead_lookup(10)] hex [OF configHead_lookup(11)]
    hex [OF configHead_lookup(13)] present_lookup [OF f]
  show ?thesis
    apply (intro conjI exI [of _ m] exI [of _ "mustHexUint (nwID (ciNetwork input))"])
    using keys flags by (simp_all add: v l m w fields del: insert_subset)
qed

section \<open>Configurations that fit\<close>

lemma addAll_total:
  "list_all (\<lambda>kv. goodKey (fst kv)) kvs \<Longrightarrow>
   length data + sum_list (map (\<lambda>kv. length (lineOf kv) + 1) kvs) \<le> MaxDictionaryLength \<Longrightarrow> \<exists>d. addAll kvs data = Inr d"
proof (induction kvs arbitrary: data)
  case (Cons kv kvs)
  have "Add (fst kv) (snd kv) data = Inr (data @ lineOf kv @ [10])"
    using Cons.prems by (simp add: Add_iff)
  with Cons.IH [of "data @ lineOf kv @ [10]"] Cons.prems show ?case by (cases kv) simp
qed simp

definition lineBound :: "string \<times> bytes \<Rightarrow> nat" where
  "lineBound kv = length (fst kv) + 2 + 2 * length (snd kv)"

lemma lineOf_bound: "length (lineOf kv) + 1 \<le> lineBound kv"
proof -
  have "length (concat (map escapeByte v)) \<le> 2 * length v" for v
    by (induction v) (auto simp: escapeByte_def)
  from this [of "snd kv"] show ?thesis by (simp add: lineOf_def lineBound_def)
qed

lemma hexField_bound: "lineBound (hexField kv) \<le> length (fst kv) + 34"
proof -
  have "unat (snd kv) < 16 ^ 16" using unsigned_less [of "snd kv"] by simp
  then have "length (hexstring (unat (snd kv))) \<le> 16" by (rule hexstring_length [rotated]) simp
  then show ?thesis by (simp add: lineBound_def hexField_def FormatUint16_def)
qed

lemma sum_list_bound:
  fixes f g :: "'a \<Rightarrow> nat"
  assumes "\<And>x. f x \<le> g x" shows "sum_list (map f (filter P xs)) \<le> sum_list (map g xs)"
proof (induction xs)
  case (Cons x xs)
  then show ?case using assms [of x] by auto
qed simp

definition configSize :: "ConfigInput \<Rightarrow> nat \<Rightarrow> nat" where
  "configSize input n = 500 + 2 * (length (mbNodeID (ciMember input)) + length (nwName (ciNetwork input))
     + length (ciCertificateOfMembership input) + length (ciCapabilities input) + length (ciTags input)
     + length (ciCertificatesOfOwnership input) + n)"

lemma goodKeys:
  "goodKey k" if "k \<in> {''v'', ''nwid'', ''ts'', ''ctmd'', ''r'', ''id'', ''tt'', ''tl'', ''f'', ''ml'', ''t'', ''n'', ''mtu'',
     ''C'', ''CAP'', ''TAG'', ''COO'', ''S'', ''RT'', ''I'', ''R'', ''DNS''}"
  using that by (elim insertE emptyE; simp add: goodKey_def bytes_of_string_def byte_of_char_def)

lemma configHead_bound:
  "sum_list (map lineBound (configHead input)) \<le> 416 + 2 * (length (mbNodeID (ciMember input)) + length (nwName (ciNetwork input)))"
proof -
  have h: "lineBound (hexField (k, v)) \<le> length k + 34" for k v using hexField_bound [of "(k, v)"] by simp
  show ?thesis
    unfolding configHead_def Let_def
    using h [of "''v''" CurrentVersion] h [of "''nwid''" "mustHexUint (nwID (ciNetwork input))"]
      h [of "''ts''" "of_int (UnixMilli (ciIssuedAt input))"] h [of "''ctmd''" "of_int (Milliseconds (configDelta input))"]
      h [of "''r''" "ciRevision input"] h [of "''tt''" 0] h [of "''tl''" 0] h [of "''f''" "configFlags (ciNetwork input)"]
      h [of "''ml''" "of_int (nwMulticastLimit (ciNetwork input))"] h [of "''t''" "if nwPrivate (ciNetwork input) then 0 else 1"]
      h [of "''mtu''" "of_int (nwMTU (ciNetwork input))"]
    by (simp add: lineBound_def [of "(_, bytes_of_string _)"])
qed

lemma configFields_total:
  assumes "configSize input (length staticIPs + length routes + length dns + length rules + length specialists) \<le> MaxDictionaryLength"
  shows "\<exists>d. addAll (configFields input staticIPs routes dns rules specialists) [] = Inr d"
proof (rule addAll_total)
  let ?tail = "[(''C'', ciCertificateOfMembership input), (''CAP'', ciCapabilities input), (''TAG'', ciTags input),
          (''COO'', ciCertificatesOfOwnership input), (''S'', specialists), (''RT'', routes), (''I'', staticIPs),
          (''R'', rules), (''DNS'', dns)]"
  show "list_all (\<lambda>kv. goodKey (fst kv)) (configFields input staticIPs routes dns rules specialists)"
    unfolding configFields_def configHead_def Let_def
    by (auto simp: list_all_iff hexField_def goodKeys)
  have "sum_list (map (\<lambda>kv. length (lineOf kv) + 1) (configHead input)) \<le> sum_list (map lineBound (configHead input))"
    by (rule sum_list_mono) (rule lineOf_bound)
  moreover have "sum_list (map (\<lambda>kv. length (lineOf kv) + 1) (filter (\<lambda>kv. snd kv \<noteq> []) ?tail)) \<le> sum_list (map lineBound ?tail)"
    by (rule sum_list_bound) (rule lineOf_bound)
  moreover have "sum_list (map lineBound ?tail) \<le> 40 + 2 * (length (ciCertificateOfMembership input) + length (ciCapabilities input)
      + length (ciTags input) + length (ciCertificatesOfOwnership input) + length specialists + length routes
      + length staticIPs + length rules + length dns)"
    by (simp add: lineBound_def)
  ultimately show "length ([] :: bytes) + sum_list (map (\<lambda>kv. length (lineOf kv) + 1)
      (configFields input staticIPs routes dns rules specialists)) \<le> MaxDictionaryLength"
    using assms configHead_bound [of input]
    unfolding configFields_def map_append sum_list_append configSize_def by simp
qed

lemma BuildDictionary_total:
  assumes "Network_Validate (ciNetwork input) = Inr ()" "Member_Validate (ciMember input) = Inr ()"
    "mbNetworkID (ciMember input) = nwID (ciNetwork input)" "ciIssuedAt input \<noteq> 0" "0 \<le> configDelta input"
    "serializeStaticIPs (ciNetwork input) (ciMember input) = Inr staticIPs"
    "serializeRoutes (nwRoutes (ciNetwork input)) = Inr routes" "serializeDNS (nwDNS (ciNetwork input)) = Inr dns"
    "SerializeRules (nwRules (ciNetwork input)) = Inr rules"
    "serializeSpecialists (nwID (ciNetwork input)) (ciNetworkMembers input) = Inr specialists"
    "configSize input (length staticIPs + length routes + length dns + length rules + length specialists) \<le> MaxDictionaryLength"
  shows "\<exists>d. BuildDictionary input = Inr d"
  unfolding BuildDictionary_def Let_def configDelta_def [symmetric] fillDictionary_addAll
  using assms(1-10) configFields_total [OF assms(11)] by (simp add: IsZero_def)

text \<open>The configuration of a fresh network.\<close>

definition plainNetwork :: Network where
  "plainNetwork = NewNetwork ''8056c2e21c000001'' 1"

definition plainMember :: Member where
  "plainMember = NewMember ''8056c2e21c000001'' ''8056c2e21c'' 1"

lemma plain_valid:
  "Network_Validate plainNetwork = Inr ()" "Member_Validate plainMember = Inr ()"
  "mbNetworkID plainMember = nwID plainNetwork" "nwID plainNetwork = ''8056c2e21c000001''"
  "mbNodeID plainMember = ''8056c2e21c''"
proof -
  have c: "canonicalHex 16 ''8056c2e21c000001''" "canonicalHex 10 ''8056c2e21c''"
    by (simp_all add: canonicalHex_def lowerhex_def)
  show "Network_Validate plainNetwork = Inr ()"
    by (simp add: plainNetwork_def Network_Validate_def NewNetwork_def c CurrentSchemaVersion_def DefaultMTU_def MinMTU_def
        MaxMTU_def DefaultMulticastLimit_def IsZero_def validateCollectionSizes_def MaxCollectionSize_def
        validateUniqueDefinitions_def)
  show "Member_Validate plainMember = Inr ()"
    by (simp add: plainMember_def Member_Validate_def NewMember_def c CurrentSchemaVersion_def IsZero_def
        validateUniqueMemberValues_def)
qed (simp_all add: plainNetwork_def plainMember_def NewNetwork_def NewMember_def)

lemma plain_serialized:
  "serializeStaticIPs plainNetwork (plainMember\<lparr>mbAuthorized := b\<rparr>) = Inr []" "serializeRoutes (nwRoutes plainNetwork) = Inr []"
  "\<exists>dns. serializeDNS (nwDNS plainNetwork) = Inr dns \<and> length dns = 132"
  "SerializeRules (nwRules plainNetwork) = Inr [1, 0]" "serializeSpecialists i [] = Inr []"
proof -
  have "length (bytes_of_string [] @ replicate 128 0 @ concat [[0], [0], [0], [0]] :: bytes) = 132" by simp
  moreover have "serializeDNS None = Inr (bytes_of_string [] @ replicate 128 0 @ concat [[0], [0], [0], [0]])"
    by (simp add: serializeDNS_def maxDNSServers_def upt_rec)
  ultimately show "\<exists>dns. serializeDNS (nwDNS plainNetwork) = Inr dns \<and> length dns = 132"
    by (simp add: plainNetwork_def NewNetwork_def)
qed (simp_all add: serializeStaticIPs_def serializeRoutes_def plainNetwork_def plainMember_def NewNetwork_def NewMember_def
    derivedIPv6Assignments_def SerializeRules_def serializeRule_def ruleTypes_def serializeRuleField_def noParameters_def
    serializeSpecialists_def ParseUint16_def hexval_def fcard_fempty split: option.splits)

definition plainInput :: ConfigInput where
  "plainInput = \<lparr> ciNetwork = plainNetwork, ciMember = plainMember, ciIssuedAt = 62135596800001000000, ciRevision = 5,
     ciCredentialTimeMaxDelta = 0, ciCertificateOfMembership = [1, 2], ciCertificatesOfOwnership = [],
     ciCapabilities = [], ciTags = [], ciNetworkMembers = [] \<rparr>"

lemma plain_dictionary: "\<exists>d. BuildDictionary plainInput = Inr d"
proof -
  obtain dns where "serializeDNS (nwDNS plainNetwork) = Inr dns" "length dns = 132" using plain_serialized(3) by blast
  moreover have "serializeStaticIPs plainNetwork plainMember = Inr []"
    using plain_serialized(1) [of False] by (simp add: plainMember_def NewMember_def)
  ultimately show ?thesis
    using plain_valid plain_serialized(2,4,5)
    by (intro BuildDictionary_total) (auto simp: plainInput_def configDelta_def DefaultCredentialTimeMaxDelta_def
        duration_defs configSize_def MaxDictionaryLength_def plainNetwork_def NewNetwork_def)
qed

theorem config_readback_witness:
  "\<exists>d m. BuildDictionary plainInput = Inr d \<and> ParseDictionary d = Inr m \<and> HexUint m ''r'' = Some 5 \<and> HexUint m ''ml'' = Some 32
     \<and> fmlookup m ''C'' = Some [1, 2] \<and> fmlookup m ''CAP'' = None"
proof -
  obtain d where d: "BuildDictionary plainInput = Inr d" using plain_dictionary by blast
  have "nwMulticastLimit plainNetwork = 32" by (simp add: plainNetwork_def NewNetwork_def DefaultMulticastLimit_def)
  with config_readback [OF d] d show ?thesis by (auto simp: plainInput_def present_def)
qed

section \<open>Routes of assigned addresses\<close>

definition routeCovers :: "Addr \<Rightarrow> Route \<Rightarrow> bool" where
  "routeCovers address route = (Is4 (pfAddr (rtTarget route)) = Is4 address \<and> prefixContains (rtTarget route) address)"

lemma routeCovers_bits: "routeCovers a r \<Longrightarrow> 0 \<le> pfBits (rtTarget r)"
  by (simp add: routeCovers_def prefixIsValid_def)

lemma managedPrefixBits_fold:
  defines "step a \<equiv> \<lambda>prefixBits route. if Is4 (pfAddr (rtTarget route)) = Is4 a \<and> prefixContains (rtTarget route) a
        \<and> pfBits (rtTarget route) > prefixBits then pfBits (rtTarget route) else prefixBits"
  shows "b \<le> foldl (step a) b routes
    \<and> (foldl (step a) b routes = b \<or> (\<exists>r \<in> set routes. routeCovers a r \<and> pfBits (rtTarget r) = foldl (step a) b routes))
    \<and> (\<forall>r \<in> set routes. routeCovers a r \<longrightarrow> pfBits (rtTarget r) \<le> foldl (step a) b routes)"
proof (induction routes arbitrary: b)
  case (Cons r routes)
  have "step a b r = (if routeCovers a r \<and> pfBits (rtTarget r) > b then pfBits (rtTarget r) else b)"
    by (simp add: step_def routeCovers_def)
  with Cons [of "step a b r"] show ?case by (auto split: if_splits)
qed simp

text \<open>
  Assigned addresses carry the longest matching route: the prefix length \<^verbatim>\<open>serializeStaticIPs\<close> puts
  beside an address is that of a managed route containing the address, no containing route is longer,
  and it is negative (an error) exactly when no managed route contains the address.
\<close>

theorem static_ip_longest_prefix:
  "let bits = managedPrefixBits routes a in
   (bits < 0 \<longleftrightarrow> \<not> (\<exists>r \<in> set routes. routeCovers a r))
   \<and> (0 \<le> bits \<longleftrightarrow> (\<exists>r \<in> set routes. routeCovers a r \<and> pfBits (rtTarget r) = bits
        \<and> list_all (\<lambda>s. \<not> (routeCovers a s \<and> bits < pfBits (rtTarget s))) routes))"
proof -
  let ?b = "managedPrefixBits routes a"
  have f: "?b = - 1 \<or> (\<exists>r \<in> set routes. routeCovers a r \<and> pfBits (rtTarget r) = ?b)"
    "\<forall>r \<in> set routes. routeCovers a r \<longrightarrow> pfBits (rtTarget r) \<le> ?b"
    using managedPrefixBits_fold [of "- 1" a routes] unfolding managedPrefixBits_def by blast+
  show ?thesis
  proof (cases "\<exists>r \<in> set routes. routeCovers a r")
    case True
    then obtain r where "r \<in> set routes" "routeCovers a r" by blast
    with f(2) have "0 \<le> ?b" using routeCovers_bits [of a r] by force
    with f True show ?thesis by (auto simp: Let_def list_all_iff not_less)
  next
    case False
    with f(1) show ?thesis by (auto simp: Let_def)
  qed
qed

end
