(* ===== verification/ConfigSpec.thy ===== *)
theory ConfigSpec
  imports Config
begin

unbundle bit_operations_syntax

text \<open>
  What the derived IPv6 addresses and the specialist list of a configuration encode: both can be
  decoded back to the identifiers they were made from.
\<close>

section \<open>Derived addresses\<close>

lemma be_bytes_cong: "(\<And>k. k < 8 * n \<Longrightarrow> bit v k = bit w k) \<Longrightarrow> be_bytes n (v :: 'a::len word) = be_bytes n w"
proof (induction n)
  case (Suc n)
  have "ucast (drop_bit (8 * n) v) = (ucast (drop_bit (8 * n) w) :: byte)"
    by (rule bit_word_eqI) (use Suc.prems in \<open>auto simp: bit_ucast_iff bit_drop_bit_eq\<close>)
  with Suc show ?case by simp
qed simp

lemma drop_be_bytes: "m \<le> n \<Longrightarrow> drop (n - m) (be_bytes n w) = be_bytes m w"
proof (induction n)
  case (Suc n)
  then show ?case by (cases "m = Suc n") (auto simp: Suc_diff_le)
qed simp

lemma be_bytes_5_word: "length b = 5 \<Longrightarrow> be_bytes 5 (be_word b :: uint64) = b"
proof -
  assume l: "length b = 5"
  have w: "(be_word b :: uint64) = be_word (replicate 3 0 @ b)"
    by (rule bit_word_eqI) (auto simp: bit_be_word l nth_append)
  have "be_bytes 5 (be_word b :: uint64) = drop 3 (be_bytes 8 (be_word b :: uint64))"
    using drop_be_bytes [of 5 8 "be_word b :: uint64"] by simp
  also have "\<dots> = b" unfolding w using l by simp
  finally show ?thesis .
qed

lemma As16_AddrFrom16: "length bs = 16 \<Longrightarrow> As16 (AddrFrom16 bs) = bs"
  by (simp add: AddrFrom16_def be_bytes_be_word)

text \<open>The bytes of the two kinds of derived address.\<close>

definition rfc4193Of :: "NetworkID \<Rightarrow> NodeID \<Rightarrow> Addr \<times> int \<Rightarrow> bool" where
  "rfc4193Of networkID nodeID d = (snd d = 88 \<and> Is6 (fst d) \<and> take 1 (As16 (fst d)) = [0xfd]
     \<and> hex_encode (slice 1 9 (As16 (fst d))) = networkID \<and> slice 9 11 (As16 (fst d)) = [0x99, 0x93]
     \<and> hex_encode (slice 11 16 (As16 (fst d))) = nodeID)"

definition sixPlaneOf :: "NetworkID \<Rightarrow> NodeID \<Rightarrow> Addr \<times> int \<Rightarrow> bool" where
  "sixPlaneOf networkID nodeID d = (snd d = 40 \<and> Is6 (fst d) \<and> take 1 (As16 (fst d)) = [0xfc]
     \<and> slice 1 5 (As16 (fst d)) = map2 (XOR) (take 4 (decodedHex networkID)) (drop 4 (decodedHex networkID))
     \<and> hex_encode (slice 5 10 (As16 (fst d))) = nodeID \<and> drop 10 (As16 (fst d)) = [0, 0, 0, 0, 0, 1])"

lemma be_bytes_xor: "be_bytes n (v XOR w) = map2 (XOR) (be_bytes n v) (be_bytes n w)"
proof (induction n)
  case (Suc n)
  have "ucast (drop_bit (8 * n) (v XOR w)) = (ucast (drop_bit (8 * n) v) XOR ucast (drop_bit (8 * n) w) :: byte)"
    by (rule bit_word_eqI) (auto simp: bit_simps)
  with Suc show ?case by simp
qed simp

lemma be_bytes_high: "be_bytes 4 (drop_bit 32 (w :: uint64)) = take 4 (be_bytes 8 w)"
proof (rule nth_equalityI)
  fix i assume "i < length (be_bytes 4 (drop_bit 32 w))"
  then have "i < 4" by simp
  then show "be_bytes 4 (drop_bit 32 w) ! i = take 4 (be_bytes 8 w) ! i"
    by (simp add: nth_be_bytes algebra_simps)
qed simp

lemma sixPlane_prefix:
  assumes "length b = 8"
  shows "be_bytes 4 ((be_word b :: uint64) XOR drop_bit 32 (be_word b)) = map2 (XOR) (take 4 b) (drop 4 b)"
proof -
  have "be_bytes 4 (be_word b :: uint64) = drop 4 b"
    using drop_be_bytes [of 4 8 "be_word b :: uint64"] assms by simp
  moreover have "be_bytes 4 (drop_bit 32 (be_word b :: uint64)) = take 4 b" using assms by (simp add: be_bytes_high)
  moreover have "map2 (XOR) (drop 4 b) (take 4 b) = map2 (XOR) (take 4 b) (drop 4 b)"
    by (rule nth_equalityI) (auto simp: xor.commute)
  ultimately show ?thesis by (simp add: be_bytes_xor)
qed

text \<open>
  Derived IPv6 addresses: for valid identifiers \<^verbatim>\<open>derivedIPv6Assignments\<close> returns, in this order and
  exactly for the enabled modes, the RFC 4193 address (\<^verbatim>\<open>fd\<close>, network ID, \<^verbatim>\<open>9993\<close>, node ID, /88) and the
  6PLANE address (\<^verbatim>\<open>fc\<close>, folded network ID, node ID, zeros, 1, /40); so two members of a network never
  derive the same address.
\<close>

theorem derived_ipv6_exact:
  assumes "canonicalHex 16 networkID" "canonicalHex 10 nodeID" "canonicalHex 10 other"
  shows "list_all2 (\<lambda>P d. P networkID nodeID d)
      ((if amIPv6RFC4193 modes then [rfc4193Of] else []) @ (if amIPv6SixPlane modes then [sixPlaneOf] else []))
      (derivedIPv6Assignments networkID nodeID modes)
    \<and> (set (derivedIPv6Assignments networkID nodeID modes) \<inter> set (derivedIPv6Assignments networkID other modes) \<noteq> {}
        \<longrightarrow> nodeID = other)"
proof -
  have r: "rfc4193Of networkID n (AddrFrom16 ([0xfd] @ be_bytes 8 (be_word (decodedHex networkID) :: uint64)
      @ [0x99, 0x93] @ be_bytes 5 (be_word (decodedHex n) :: uint64)), 88)" if "canonicalHex 10 n" for n
    using assms(1) that unfolding rfc4193Of_def
    by (simp add: As16_AddrFrom16 be_bytes_5_word slice_def) (simp add: AddrFrom16_def)
  have p: "sixPlaneOf networkID n (AddrFrom16 ([0xfc] @ be_bytes 4 ((be_word (decodedHex networkID) :: uint64)
      XOR drop_bit 32 (be_word (decodedHex networkID))) @ be_bytes 5 (be_word (decodedHex n) :: uint64) @ replicate 5 0 @ [1]), 40)"
    if "canonicalHex 10 n" for n
    using assms(1) that unfolding sixPlaneOf_def
    by (simp add: As16_AddrFrom16 be_bytes_5_word sixPlane_prefix slice_def) (simp add: AddrFrom16_def numeral_eq_Suc)
  have d: "list_all2 (\<lambda>P d. P networkID n d)
      ((if amIPv6RFC4193 modes then [rfc4193Of] else []) @ (if amIPv6SixPlane modes then [sixPlaneOf] else []))
      (derivedIPv6Assignments networkID n modes)" if "canonicalHex 10 n" for n
    using assms(1) that r [OF that] p [OF that] by (simp add: derivedIPv6Assignments_def Let_def)
  have "e \<in> set (derivedIPv6Assignments networkID n modes) \<Longrightarrow> rfc4193Of networkID n e \<or> sixPlaneOf networkID n e"
    if "canonicalHex 10 n" for n e
    using d [OF that] by (auto split: if_splits simp: list_all2_Cons1)
  moreover have "n = m" if "rfc4193Of networkID n e \<or> sixPlaneOf networkID n e" "rfc4193Of networkID m e \<or> sixPlaneOf networkID m e" for n m e
    using that by (auto simp: rfc4193Of_def sixPlaneOf_def)
  ultimately show ?thesis using d [OF assms(2)] assms(2,3) by blast
qed

definition bothModes :: AssignmentModes where
  "bothModes = \<lparr> amIPv4ZeroTier = False, amIPv6ZeroTier = False, amIPv6RFC4193 = True, amIPv6SixPlane = True \<rparr>"

theorem derived_ipv6_exact_witness:
  "\<exists>a b. derivedIPv6Assignments ''8056c2e21c000001'' ''deadbeef42'' bothModes = [a, b]
     \<and> rfc4193Of ''8056c2e21c000001'' ''deadbeef42'' a \<and> sixPlaneOf ''8056c2e21c000001'' ''deadbeef42'' b"
proof -
  have "canonicalHex 16 ''8056c2e21c000001''" "canonicalHex 10 ''deadbeef42''" by (simp_all add: canonicalHex_def lowerhex_def)
  from derived_ipv6_exact [OF this(1,2,2), of bothModes] show ?thesis
    by (auto simp: bothModes_def list_all2_Cons1)
qed

section \<open>Specialists\<close>

text \<open>The roles a node holds: the union over its authorized memberships.\<close>

definition heldRoles :: "Member list \<Rightarrow> NodeID \<Rightarrow> uint64" where
  "heldRoles members i = foldl (\<lambda>acc m. if mbAuthorized m \<and> mbNodeID m = i then acc OR memberRole m else acc) 0 members"

lemma heldRoles_foldl:
  "foldl (\<lambda>acc m. if mbAuthorized m \<and> mbNodeID m = i then acc OR memberRole m else acc) q members = q OR heldRoles members i"
proof (induction members arbitrary: q)
  case (Cons m members)
  show ?case
    using Cons [of "q OR memberRole m"] Cons [of "memberRole m"] Cons [of q]
    by (auto simp: heldRoles_def or.assoc)
qed (simp add: heldRoles_def)

lemma heldRoles_Cons: "heldRoles (m # members) i = (if mbAuthorized m \<and> mbNodeID m = i then memberRole m else 0) OR heldRoles members i"
  using heldRoles_foldl [of i "memberRole m" members] by (simp add: heldRoles_def)

lemma or_eq_0: "(a :: 'a::len word) OR b = 0 \<longleftrightarrow> a = 0 \<and> b = 0"
  by (auto simp: bit_eq_iff bit_or_iff)

lemma specialistRoles_lookup:
  "specialistRoles networkID members roles = Inr r \<Longrightarrow>
     fmlookup r i = (case fmlookup roles i of
        None \<Rightarrow> if heldRoles members i = 0 then None else Some (heldRoles members i)
      | Some q \<Rightarrow> Some (q OR heldRoles members i))
     \<and> (\<forall>m \<in> set members. mbNetworkID m = networkID)"
proof (induction members arbitrary: roles)
  case Nil
  then show ?case by (auto simp: heldRoles_def split: option.splits)
next
  case (Cons m members)
  show ?case
  proof (cases "mbAuthorized m \<and> memberRole m \<noteq> 0")
    case True
    then have "specialistRoles networkID members (fmupd (mbNodeID m)
        ((case fmlookup roles (mbNodeID m) of None \<Rightarrow> 0 | Some r \<Rightarrow> r) OR memberRole m) roles) = Inr r"
      and n: "mbNetworkID m = networkID"
      using Cons.prems by (auto simp: Let_def split: if_splits)
    from Cons.IH [OF this(1)] True n show ?thesis
      by (auto simp: heldRoles_Cons or.assoc or_eq_0 split: option.splits)
  next
    case False
    then have "specialistRoles networkID members roles = Inr r" and n: "mbNetworkID m = networkID"
      using Cons.prems by (auto simp: Let_def split: if_splits)
    from Cons.IH [OF this(1)] False n show ?thesis
      by (auto simp: heldRoles_Cons split: option.splits)
  qed
qed

lemma memberRole_bits: "bit (memberRole m) k \<Longrightarrow> k \<in> {41, 43, 44}"
proof -
  have "bit (0x0000020000000000 :: uint64) k \<longleftrightarrow> k = 41" "bit (0x0000080000000000 :: uint64) k \<longleftrightarrow> k = 43"
    "bit (0x0000100000000000 :: uint64) k \<longleftrightarrow> k = 44"
    using bit_exp_iff [of 41 k, where 'a = "64 word"] bit_exp_iff [of 43 k, where 'a = "64 word"]
      bit_exp_iff [of 44 k, where 'a = "64 word"] by (auto simp: possible_bit_def)
  then show "bit (memberRole m) k \<Longrightarrow> k \<in> {41, 43, 44}"
    by (auto simp: memberRole_def specialistActiveBridge_def specialistMulticastReplicator_def specialistNetworkRelay_def
        bit_or_iff split: if_splits)
qed

lemma heldRoles_bits: "bit (heldRoles members i) k \<Longrightarrow> k \<in> {41, 43, 44}"
  by (induction members) (auto simp: heldRoles_Cons bit_or_iff dest!: memberRole_bits split: if_splits, simp add: heldRoles_def)

lemma specialistRoles_total:
  "\<forall>m \<in> set members. mbNetworkID m = networkID \<Longrightarrow> \<exists>r. specialistRoles networkID members roles = Inr r"
  by (induction members arbitrary: roles) (auto simp: Let_def)

lemma specialistAddressMask_mask: "specialistAddressMask = mask 40"
  by (simp add: specialistAddressMask_def mask_eq_exp_minus_1)

lemma be_word_below: "length b = 5 \<Longrightarrow> bit (be_word b :: uint64) k \<Longrightarrow> k < 40"
  by (simp add: bit_be_word)

lemma address_in_mask: "length b = 5 \<Longrightarrow> (be_word b :: uint64) \<le> specialistAddressMask"
proof -
  assume l: "length b = 5"
  have "be_word b AND mask 40 = (be_word b :: uint64)"
    by (rule bit_word_eqI) (use be_word_below [OF l] in \<open>auto simp: bit_and_iff bit_mask_iff\<close>)
  then show ?thesis unfolding specialistAddressMask_mask by (metis word_and_le1)
qed

definition specialistOf :: "Member list \<Rightarrow> NodeID \<Rightarrow> uint64 \<Rightarrow> bool" where
  "specialistOf members i w = (hex_encode (drop 3 (be_bytes 8 w)) = i \<and> w AND NOT specialistAddressMask = heldRoles members i)"

lemma specialistOf_word:
  assumes "canonicalHex 10 i"
  shows "specialistOf members i (heldRoles members i OR be_word (decodedHex i))" (is "specialistOf _ _ ?w")
proof -
  have l: "length (decodedHex i) = 5" using assms by simp
  have "drop 3 (be_bytes 8 ?w) = be_bytes 5 ?w" using drop_be_bytes [of 5 8 ?w] by simp
  also have "\<dots> = be_bytes 5 (be_word (decodedHex i) :: uint64)"
    by (rule be_bytes_cong) (auto simp: bit_or_iff dest!: heldRoles_bits)
  finally have "hex_encode (drop 3 (be_bytes 8 ?w)) = i" using assms by (simp add: be_bytes_5_word)
  moreover have "?w AND NOT specialistAddressMask = heldRoles members i"
    unfolding specialistAddressMask_mask
    by (rule bit_word_eqI) (auto simp: bit_simps dest: heldRoles_bits be_word_below [OF l])
  ultimately show ?thesis by (simp add: specialistOf_def)
qed

definition specialistNodes :: "Member list \<Rightarrow> NodeID set" where
  "specialistNodes members = {i \<in> mbNodeID ` set members. heldRoles members i \<noteq> 0}"

lemma heldRoles_node: "heldRoles members i \<noteq> 0 \<Longrightarrow> i \<in> mbNodeID ` set members"
  by (induction members) (auto simp: heldRoles_Cons or_eq_0 split: if_splits, simp add: heldRoles_def)

text \<open>
  Specialists: for members with valid node IDs, \<^verbatim>\<open>serializeSpecialists\<close> fails exactly when some member
  is of another network or more than 512 nodes hold a role; otherwise its output is one 64-bit word
  per node that holds a role through an authorized membership, by ascending ID, whose low 40 bits are
  the node and whose remaining bits are exactly its roles.
\<close>

theorem specialists_exact:
  assumes "\<forall>m \<in> set members. canonicalHex 10 (mbNodeID m)"
  shows "case serializeSpecialists networkID members of
     Inr bs \<Rightarrow> (\<forall>m \<in> set members. mbNetworkID m = networkID) \<and> card (specialistNodes members) \<le> MaxNetworkSpecialists
       \<and> (\<exists>ws. bs = concat (map (be_bytes 8) ws)
            \<and> list_all2 (specialistOf members) (sorted_list_of_set (specialistNodes members)) ws)
   | Inl _ \<Rightarrow> \<not> (\<forall>m \<in> set members. mbNetworkID m = networkID) \<or> MaxNetworkSpecialists < card (specialistNodes members)"
proof (cases "specialistRoles networkID members fmempty")
  case (Inl e)
  then show ?thesis using specialistRoles_total [of members networkID fmempty] by (auto simp: serializeSpecialists_def)
next
  case (Inr r)
  have look: "fmlookup r i = (if heldRoles members i = 0 then None else Some (heldRoles members i))" for i
    using specialistRoles_lookup [OF Inr, of i] by simp
  have net: "\<forall>m \<in> set members. mbNetworkID m = networkID" using specialistRoles_lookup [OF Inr] by blast
  have "i \<in> fset (fmdom r) \<longleftrightarrow> i \<in> specialistNodes members" for i
    using heldRoles_node [of members i] by (auto simp: specialistNodes_def look fmlookup_dom_iff)
  then have dom: "fset (fmdom r) = specialistNodes members" by (rule set_eqI)
  then have card: "fcard (fmdom r) = card (specialistNodes members)" by (simp add: fcard.rep_eq)
  let ?w = "\<lambda>i. heldRoles members i OR be_word (decodedHex i)"
  have ids: "canonicalHex 10 i" if "i \<in> set (sorted_list_of_set (specialistNodes members))" for i
    using that assms by (auto simp: specialistNodes_def)
  have parts: "mapM (\<lambda>nodeID. case ParseUint16 nodeID 64 of
           Inl _ \<Rightarrow> Inl (Errorf ''invalid specialist node ID %q'')
         | Inr address \<Rightarrow> if address > specialistAddressMask then Inl (Errorf ''invalid specialist node ID %q'')
             else Inr (be_bytes 8 ((case fmlookup r nodeID of None \<Rightarrow> 0 | Some r \<Rightarrow> r) OR address)))
         (sorted_list_of_set (specialistNodes members))
      = Inr (map (\<lambda>i. be_bytes 8 (?w i)) (sorted_list_of_set (specialistNodes members)))"
    by (rule mapM_all_ok) (use ids address_in_mask in \<open>auto simp: look not_less [symmetric]\<close>)
  have all: "list_all2 (specialistOf members) xs (map ?w xs)" if "\<And>i. i \<in> set xs \<Longrightarrow> canonicalHex 10 i" for xs
    using that by (induction xs) (auto intro: specialistOf_word)
  show ?thesis
    using net all [OF ids] unfolding serializeSpecialists_def Inr rbind_simps dom card parts
    by (auto intro!: exI [of _ "map ?w (sorted_list_of_set (specialistNodes members))"] simp: comp_def)
qed

theorem specialists_exact_witness:
  "case serializeSpecialists ''8056c2e21c000001'' [plainMember\<lparr>mbAuthorized := True, mbActiveBridge := True\<rparr>] of
     Inr bs \<Rightarrow> length bs = 8 | Inl _ \<Rightarrow> False"
proof -
  let ?ms = "[plainMember\<lparr>mbAuthorized := True, mbActiveBridge := True\<rparr>]"
  have n: "specialistNodes ?ms = {''8056c2e21c''}"
    by (auto simp: specialistNodes_def heldRoles_def plainMember_def NewMember_def memberRole_def
        specialistActiveBridge_def)
  have "canonicalHex 10 ''8056c2e21c''" by (simp add: canonicalHex_def lowerhex_def)
  then have "\<forall>m \<in> set ?ms. canonicalHex 10 (mbNodeID m)" by (simp add: plain_valid)
  from specialists_exact [OF this, of "''8056c2e21c000001''"] show ?thesis
    by (auto simp: n MaxNetworkSpecialists_def plain_valid list_all2_Cons1 split: sum.splits)
qed

end
