(* ===== verification/Identity.thy ===== *)
theory Identity
  imports Domain
begin

unbundle bit_operations_syntax

text \<open>
  Package \<^verbatim>\<open>internal/zerotier/identity\<close>: the identity document with its text and binary encodings,
  signatures and key agreement (\<^verbatim>\<open>identity.go\<close>), the memory-hard proof of work (\<^verbatim>\<open>proof.go\<close>) and
  identity generation (\<^verbatim>\<open>generate.go\<close>).

  The cryptographic primitives the program calls (SHA-512, SHA-384, HMAC, Ed25519, X25519, the
  Salsa20 key stream, Poly1305, AES) are the fields of a record that every definition takes as an argument, so the theorems
  hold for every implementation of them. Their result types carry the array lengths of the Go
  signatures; the algebraic laws the package relies on are the predicates \<open>ed25519_law\<close> and
  \<open>x25519_law\<close>, which theorems name as hypotheses.
\<close>

section \<open>Cryptographic primitives\<close>

record Crypto =
  crSum512 :: "bytes \<Rightarrow> 512 word"
  crEdPublic :: "bytes \<Rightarrow> 256 word"
  crEdSign :: "bytes \<Rightarrow> bytes \<Rightarrow> 512 word"
  crEdVerify :: "bytes \<Rightarrow> bytes \<Rightarrow> bytes \<Rightarrow> bool"
  crXPublic :: "bytes \<Rightarrow> 256 word"
  crX25519 :: "bytes \<Rightarrow> bytes \<Rightarrow> 256 word result"
  crSalsaStream :: "bytes \<Rightarrow> bytes \<Rightarrow> nat \<Rightarrow> byte"
  crSum384 :: "bytes \<Rightarrow> 384 word"
  crHMAC384 :: "bytes \<Rightarrow> bytes \<Rightarrow> 384 word"
  crPoly1305 :: "bytes \<Rightarrow> bytes \<Rightarrow> 128 word"
  crAESEncrypt :: "bytes \<Rightarrow> 128 word \<Rightarrow> 128 word"
  crAESDecrypt :: "bytes \<Rightarrow> 128 word \<Rightarrow> 128 word"

text \<open>\<^verbatim>\<open>sha512.Sum512\<close>; the public half of \<^verbatim>\<open>ed25519.NewKeyFromSeed\<close>; \<^verbatim>\<open>ed25519.Sign\<close>; the public key
  and \<^verbatim>\<open>ECDH\<close> of \<^verbatim>\<open>ecdh.X25519()\<close> (which fails on a low-order point); \<^verbatim>\<open>salsa.XORKeyStream\<close>;
  \<^verbatim>\<open>sha512.Sum384\<close>. HMAC-SHA384, Poly1305 and the AES block cipher are those of package \<^verbatim>\<open>packet\<close>.\<close>

definition Sum512 :: "Crypto \<Rightarrow> bytes \<Rightarrow> bytes" where
  "Sum512 cr m = be_bytes 64 (crSum512 cr m)"

definition edPublic :: "Crypto \<Rightarrow> bytes \<Rightarrow> bytes" where
  "edPublic cr seed = be_bytes 32 (crEdPublic cr seed)"

definition edSign :: "Crypto \<Rightarrow> bytes \<Rightarrow> bytes \<Rightarrow> bytes" where
  "edSign cr seed m = be_bytes 64 (crEdSign cr seed m)"

definition xPublic :: "Crypto \<Rightarrow> bytes \<Rightarrow> bytes" where
  "xPublic cr k = be_bytes 32 (crXPublic cr k)"

definition xorKeyStream :: "Crypto \<Rightarrow> bytes \<Rightarrow> bytes \<Rightarrow> bytes \<Rightarrow> bytes" where
  "xorKeyStream cr input counter key =
     map (\<lambda>i. (input ! i) XOR crSalsaStream cr counter key i) [0..<length input]"

definition Sum384 :: "Crypto \<Rightarrow> bytes \<Rightarrow> bytes" where
  "Sum384 cr m = be_bytes 48 (crSum384 cr m)"

definition ed25519_law :: "Crypto \<Rightarrow> bool" where
  "ed25519_law cr = (\<forall>seed m. length seed = 32 \<longrightarrow> crEdVerify cr (edPublic cr seed) m (edSign cr seed m))"

definition x25519_law :: "Crypto \<Rightarrow> bool" where
  "x25519_law cr = (\<forall>a b. length a = 32 \<longrightarrow> length b = 32 \<longrightarrow>
     crX25519 cr a (xPublic cr b) = crX25519 cr b (xPublic cr a))"

lemma length_crypto [simp]:
  "length (Sum512 cr m) = 64" "length (edPublic cr s) = 32" "length (edSign cr s m) = 64"
  "length (xPublic cr k) = 32" "length (xorKeyStream cr inp c k) = length inp" "length (Sum384 cr m) = 48"
  by (simp_all add: Sum512_def Sum384_def edPublic_def edSign_def xPublic_def xorKeyStream_def)

section \<open>The identity document\<close>

definition TypeC25519 :: byte where "TypeC25519 = 0"
definition PublicKeyLength :: nat where "PublicKeyLength = 64"
definition PrivateKeyLength :: nat where "PrivateKeyLength = 64"
definition SignatureLength :: nat where "SignatureLength = 96"
definition PublicBinaryLength :: nat where "PublicBinaryLength = 5 + 1 + PublicKeyLength + 1"
definition SecretBinaryLength :: nat where "SecretBinaryLength = PublicBinaryLength + PrivateKeyLength"
definition MaxAgreementKeyLength :: nat where "MaxAgreementKeyLength = 4096"

lemmas identity_consts = TypeC25519_def PublicKeyLength_def PrivateKeyLength_def SignatureLength_def
  PublicBinaryLength_def SecretBinaryLength_def MaxAgreementKeyLength_def

record Identity =
  idAddress :: NodeID
  idPublicKey :: bytes
  idPrivateKey :: bytes
  idHasPrivate :: bool

text \<open>The zero value; the key fields are arrays of 64 bytes.\<close>

definition zeroIdentity :: Identity where
  "zeroIdentity = \<lparr> idAddress = [], idPublicKey = replicate 64 0, idPrivateKey = replicate 64 0,
     idHasPrivate = False \<rparr>"

type_synonym Signature = bytes

text \<open>\<^verbatim>\<open>strings.Split\<close> on a one-character separator.\<close>

fun splitOn :: "char \<Rightarrow> string \<Rightarrow> string list" where
  "splitOn c [] = [[]]"
| "splitOn c (x # xs) = (if x = c then [] # splitOn c xs
     else case splitOn c xs of h # t \<Rightarrow> (x # h) # t | [] \<Rightarrow> [[x]])"

definition isReserved :: "NodeID \<Rightarrow> bool" where
  "isReserved address = (address = ''0000000000'' \<or> take 2 address = ''ff'')"

text \<open>
  \<^verbatim>\<open>decodeKey\<close>. \<^verbatim>\<open>value != strings.ToLower(value)\<close> is read on ASCII letters; text with other letters
  is refused by both the case check and the hexadecimal check.
\<close>

definition isUpperAZ :: "char \<Rightarrow> bool" where
  "isUpperAZ c = (let n = of_char c :: nat in 65 \<le> n \<and> n \<le> 90)"

definition decodeKey :: "string \<Rightarrow> nat \<Rightarrow> string \<Rightarrow> bytes result" where
  "decodeKey value len name =
     (if length value \<noteq> len * 2 then Inl (Errorf (name @ '' key must contain %d hexadecimal characters''))
      else if list_ex isUpperAZ value then Inl (Errorf (name @ '' key must use lowercase hexadecimal''))
      else case hex_decode value of
        Inl _ \<Rightarrow> Inl (Errorf (name @ '' key must be hexadecimal''))
      | Inr bs \<Rightarrow> Inr bs)"

definition Parse :: "string \<Rightarrow> Identity result" where
  "Parse value =
     (let fields = splitOn CHR '':'' value in
      if length fields \<noteq> 3 \<and> length fields \<noteq> 4
      then Inl (Errorf ''identity must contain three or four fields'')
      else
        rbind (ParseNodeID (fields ! 0)) (\<lambda>address.
        if isReserved address then Inl (Errorf ''identity uses a reserved address'')
        else if fields ! 1 \<noteq> ''0'' then Inl (Errorf ''unsupported identity type %q'')
        else
          rbind (decodeKey (fields ! 2) PublicKeyLength ''public'') (\<lambda>public.
          let i = zeroIdentity\<lparr>idAddress := address, idPublicKey := public\<rparr> in
          if length fields = 4 then
            rbind (decodeKey (fields ! 3) PrivateKeyLength ''private'') (\<lambda>private.
            Inr (i\<lparr>idPrivateKey := private, idHasPrivate := True\<rparr>))
          else Inr i)))"

definition ParseBinary :: "bytes \<Rightarrow> Identity result" where
  "ParseBinary value =
     (if length value \<noteq> PublicBinaryLength \<and> length value \<noteq> SecretBinaryLength
      then Inl (Errorf ''invalid binary identity length %d'')
      else
        rbind (ParseNodeID (hex_encode (take 5 value))) (\<lambda>address.
        if isReserved address then Inl (Errorf ''identity uses a reserved address'')
        else if value ! 5 \<noteq> TypeC25519 then Inl (Errorf ''unsupported identity type %d'')
        else
          let i = zeroIdentity\<lparr>idAddress := address, idPublicKey := slice 6 (6 + PublicKeyLength) value\<rparr>;
              privateLength = unat (value ! (6 + PublicKeyLength)) in
          if privateLength = 0 \<and> length value = PublicBinaryLength then Inr i
          else if privateLength = PrivateKeyLength \<and> length value = SecretBinaryLength
          then Inr (i\<lparr>idPrivateKey := drop PublicBinaryLength value, idHasPrivate := True\<rparr>)
          else Inl (Errorf ''private key length does not match identity payload'')))"

definition Public :: "Identity \<Rightarrow> Identity" where
  "Public i = i\<lparr>idPrivateKey := replicate PrivateKeyLength 0, idHasPrivate := False\<rparr>"

definition Identity_String :: "Identity \<Rightarrow> string" where
  "Identity_String i = idAddress i @ '':0:'' @ hex_encode (idPublicKey i)"

definition SecretString :: "Identity \<Rightarrow> string result" where
  "SecretString i =
     (if \<not> idHasPrivate i then Inl (Errorf ''identity has no private key'')
      else let value = Identity_String i in
        if idHasPrivate i then Inr (value @ '':'' @ hex_encode (idPrivateKey i)) else Inr value)"

definition Identity_MarshalBinary :: "Identity \<Rightarrow> bytes result" where
  "Identity_MarshalBinary i =
     rbind (NodeID_Validate (idAddress i)) (\<lambda>_.
     if isReserved (idAddress i) then Inl (Errorf ''identity uses a reserved address'')
     else
       case hex_decode (idAddress i) of Inl e \<Rightarrow> Inl e | Inr address \<Rightarrow>
       Inr (address @ [TypeC25519] @ idPublicKey i
         @ (if idHasPrivate i then of_nat PrivateKeyLength # idPrivateKey i else [0])))"

section \<open>Signatures and key agreement\<close>

definition Sign :: "Crypto \<Rightarrow> Identity \<Rightarrow> bytes \<Rightarrow> Signature result" where
  "Sign cr i message =
     (if \<not> idHasPrivate i then Inl (Errorf ''identity has no private key'')
      else
        let seed = drop 32 (idPrivateKey i) in
        if edPublic cr seed \<noteq> drop 32 (idPublicKey i)
        then Inl (Errorf ''private signing key does not match public identity'')
        else
          let digest = Sum512 cr message in
          Inr (edSign cr seed (take 32 digest) @ take 32 digest))"

definition Verify :: "Crypto \<Rightarrow> Identity \<Rightarrow> bytes \<Rightarrow> Signature \<Rightarrow> bool" where
  "Verify cr i message signature =
     (let digest = Sum512 cr message in
      if drop 64 signature \<noteq> take 32 digest then False
      else crEdVerify cr (drop 32 (idPublicKey i)) (take 32 digest) (take 64 signature))"

text \<open>The expansion loop of \<^verbatim>\<open>AgreeRawPublic\<close>: \<open>key\<close> is what has been written so far.\<close>

function agreeLoop :: "Crypto \<Rightarrow> nat \<Rightarrow> bytes \<Rightarrow> 512 word \<Rightarrow> bytes" where
  "agreeLoop cr len key digest =
     (if length key < len then
        agreeLoop cr len (key @ take (len - length key) (be_bytes 64 digest)) (crSum512 cr (be_bytes 64 digest))
      else key)"
  by pat_completeness auto
termination
  by (relation "measure (\<lambda>(cr, len, key, digest). len - length key)") auto

declare agreeLoop.simps [simp del]

definition AgreeRawPublic :: "Crypto \<Rightarrow> Identity \<Rightarrow> bytes \<Rightarrow> int \<Rightarrow> bytes result" where
  "AgreeRawPublic cr i public len =
     (if \<not> idHasPrivate i then Inl (Errorf ''identity has no private key'')
      else if len \<le> 0 \<or> len > int MaxAgreementKeyLength
      then Inl (Errorf ''agreement key length must be between 1 and %d'')
      else
        rbind (wrapErr ''agree keys: %w'' (crX25519 cr (take 32 (idPrivateKey i)) public)) (\<lambda>raw.
        Inr (agreeLoop cr (nat len) [] (crSum512 cr (be_bytes 32 raw)))))"

definition Agree :: "Crypto \<Rightarrow> Identity \<Rightarrow> Identity \<Rightarrow> int \<Rightarrow> bytes result" where
  "Agree cr i p len = AgreeRawPublic cr i (take 32 (idPublicKey p)) len"

section \<open>Proof of work\<close>

definition proofMemorySize :: nat where "proofMemorySize = 2 * 1024 * 1024"
definition proofThreshold :: byte where "proofThreshold = 17"
definition salsaBlockSize :: nat where "salsaBlockSize = 64"

definition splice :: "nat \<Rightarrow> bytes \<Rightarrow> bytes \<Rightarrow> bytes" where
  "splice off new xs = take off xs @ new @ drop (off + length new) xs"

definition le_bytes :: "nat \<Rightarrow> uint64 \<Rightarrow> bytes" where
  "le_bytes n w = rev (be_bytes n w)"

definition le_word :: "bytes \<Rightarrow> uint64" where
  "le_word bs = be_word (rev bs)"

function chainLoop :: "nat \<Rightarrow> bytes \<Rightarrow> bytes" where
  "chainLoop offset memory =
     (if offset < proofMemorySize then
        chainLoop (offset + salsaBlockSize)
          (splice offset (map2 (XOR) (slice offset (offset + salsaBlockSize) memory)
             (slice (offset - salsaBlockSize) offset memory)) memory)
      else memory)"
  by pat_completeness auto
termination
  by (relation "measure (\<lambda>(offset, memory). proofMemorySize - offset)") (auto simp: salsaBlockSize_def)

declare chainLoop.simps [simp del]

definition incrementSalsaCounter :: "bytes \<Rightarrow> bytes" where
  "incrementSalsaCounter counter = take 8 counter @ le_bytes 8 (le_word (drop 8 counter) + 1)"

function mixLoop :: "Crypto \<Rightarrow> bytes \<Rightarrow> nat \<Rightarrow> bytes \<Rightarrow> bytes \<Rightarrow> bytes \<Rightarrow> bytes" where
  "mixLoop cr key offset memory digest counter =
     (if offset < proofMemorySize then
        let first = be_word (slice offset (offset + 8) memory) :: uint64;
            second = be_word (slice (offset + 8) (offset + 16) memory) :: uint64;
            digestOffset = unat (first mod 8) * 8;
            memoryOffset = unat (second mod of_nat (proofMemorySize div 8)) * 8;
            temporary = slice memoryOffset (memoryOffset + 8) memory;
            memory = splice memoryOffset (slice digestOffset (digestOffset + 8) digest) memory;
            digest = splice digestOffset temporary digest;
            digest = xorKeyStream cr digest counter key
        in mixLoop cr key (offset + 16) memory digest (incrementSalsaCounter counter)
      else digest)"
  by pat_completeness auto
termination
  by (relation "measure (\<lambda>(cr, key, offset, memory, digest, counter). proofMemorySize - offset)") auto

declare mixLoop.simps [simp del]

definition memoryHardHash :: "Crypto \<Rightarrow> bytes \<Rightarrow> bytes" where
  "memoryHardHash cr publicKey =
     (let digest = Sum512 cr publicKey;
          key = take 32 digest;
          counter = slice 32 40 digest @ replicate 8 0;
          memory = xorKeyStream cr (replicate proofMemorySize 0) counter key;
          memory = chainLoop salsaBlockSize memory;
          counter = take 8 counter @ le_bytes 8 (of_nat (proofMemorySize div salsaBlockSize))
      in mixLoop cr key 0 memory digest counter)"

definition hexNibble :: "byte \<Rightarrow> byte" where
  "hexNibble value = (if value \<le> 57 then value - 48 else value - 97 + 10)"

definition byteValue :: "string \<Rightarrow> nat \<Rightarrow> byte" where
  "byteValue address index =
     (let high = hexNibble (byte_of_char (address ! (index * 2)));
          low = hexNibble (byte_of_char (address ! (index * 2 + 1)))
      in push_bit 4 high OR low)"

definition LocallyValidate :: "Crypto \<Rightarrow> Identity \<Rightarrow> bool" where
  "LocallyValidate cr i =
     (if isReserved (idAddress i) then False
      else
        let digest = memoryHardHash cr (idPublicKey i) in
        if digest ! 0 \<ge> proofThreshold then False
        else list_all (\<lambda>index. digest ! (59 + index) = byteValue (idAddress i) index) [0..<5])"

section \<open>Generation\<close>

definition incrementCandidate :: "bytes \<Rightarrow> bytes" where
  "incrementCandidate privateKey =
     (let first = le_word (slice 8 16 privateKey); second = le_word (slice 16 24 privateKey)
      in splice 16 (le_bytes 8 (second - 1)) (splice 8 (le_bytes 8 (first + 1)) privateKey))"

text \<open>
  The search loop. It may not end, so not returning is \<open>None\<close>; \<open>ctx n\<close> is \<^verbatim>\<open>ctx.Err()\<close> at the
  start of round \<open>n\<close>.
\<close>

partial_function (option) generateLoop ::
    "Crypto \<Rightarrow> (nat \<Rightarrow> error option) \<Rightarrow> nat \<Rightarrow> Identity \<Rightarrow> Identity result option" where
  "generateLoop cr ctx n i =
     (case ctx n of Some e \<Rightarrow> Some (Inl e) | None \<Rightarrow>
        let candidate = incrementCandidate (take 32 (idPrivateKey i));
            i = i\<lparr>idPrivateKey := candidate @ drop 32 (idPrivateKey i),
                  idPublicKey := xPublic cr candidate @ drop 32 (idPublicKey i)\<rparr>;
            digest = memoryHardHash cr (idPublicKey i) in
        if digest ! 0 \<ge> proofThreshold then generateLoop cr ctx (Suc n) i
        else
          let address = hex_encode (drop 59 digest) in
          if isReserved address then generateLoop cr ctx (Suc n) i
          else Some (Inr (i\<lparr>idAddress := address\<rparr>)))"

text \<open>\<^verbatim>\<open>Generate\<close> with a non-nil context; \<open>random\<close> is what \<^verbatim>\<open>io.ReadFull\<close> gives for the 64 bytes.\<close>

definition Generate :: "Crypto \<Rightarrow> (nat \<Rightarrow> error option) \<Rightarrow> bytes result \<Rightarrow> Identity result option" where
  "Generate cr ctx random =
     (case random of Inl e \<Rightarrow> Some (Inl e) | Inr private \<Rightarrow>
        generateLoop cr ctx 0 (zeroIdentity\<lparr>idHasPrivate := True, idPrivateKey := private,
          idPublicKey := replicate 32 0 @ edPublic cr (drop 32 private)\<rparr>))"

section \<open>Encodings\<close>

definition wfIdentity :: "Identity \<Rightarrow> bool" where
  "wfIdentity i = (canonicalHex 10 (idAddress i) \<and> \<not> isReserved (idAddress i)
     \<and> length (idPublicKey i) = PublicKeyLength \<and> length (idPrivateKey i) = PrivateKeyLength
     \<and> (\<not> idHasPrivate i \<longrightarrow> idPrivateKey i = replicate PrivateKeyLength 0))"

lemma splitOn_not_Nil [simp]: "splitOn c s \<noteq> []"
  by (induction s) (auto split: list.splits)

lemma splitOn_none: "c \<notin> set s \<Longrightarrow> splitOn c s = [s]"
  by (induction s) auto

lemma splitOn_append: "c \<notin> set a \<Longrightarrow> splitOn c (a @ c # b) = a # splitOn c b"
  by (induction a) auto

fun joinWith :: "char \<Rightarrow> string list \<Rightarrow> string" where
  "joinWith c [] = []"
| "joinWith c [x] = x"
| "joinWith c (x # y # xs) = x @ c # joinWith c (y # xs)"

lemma joinWith_Cons: "xs \<noteq> [] \<Longrightarrow> joinWith c (x # xs) = x @ c # joinWith c xs"
  by (cases xs) auto

lemma joinWith_splitOn: "joinWith c (splitOn c s) = s"
proof (induction s)
  case (Cons x s)
  obtain h t where "splitOn c s = h # t" by (cases "splitOn c s") auto
  with Cons show ?case by (cases t) (auto simp: joinWith_Cons)
qed simp

lemma colon_not_lowerhex: "list_all lowerhex s \<Longrightarrow> CHR '':'' \<notin> set s"
  by (auto simp: list_all_iff lowerhex_def)

lemma colon_hex: "CHR '':'' \<notin> set (hex_encode bs)"
  using lowerhex_hex_encode [of "CHR '':''" bs] by (auto simp: lowerhex_def)

lemma hex_decode_hexval: "hex_decode s = Inr bs \<Longrightarrow> even (length s) \<and> (\<forall>c \<in> set s. hexval c \<noteq> None)"
proof (induction s arbitrary: bs rule: hex_decode.induct)
  case (3 h l cs)
  then show ?case by (auto simp: rbind_eq_Inr split: option.splits)
qed auto

lemma decodeKey_iff: "decodeKey s n name = Inr bs \<longleftrightarrow> s = hex_encode bs \<and> length bs = n"
proof
  assume d: "decodeKey s n name = Inr bs"
  then have h: "hex_decode s = Inr bs" and u: "\<not> list_ex isUpperAZ s" and l: "length s = n * 2"
    by (auto simp: decodeKey_def split: if_splits sum.splits)
  have "lowerhex c" if "c \<in> set s" for c
    using hex_decode_hexval [OF h] u that
    by (auto simp: lowerhex_iff isUpperAF_def isUpperAZ_def list_ex_iff Let_def)
  then obtain bs' where "hex_decode s = Inr bs'" "hex_encode bs' = s" "length bs' = length s div 2"
    using hex_decode_lower [of s] hex_decode_hexval [OF h] by (auto simp: list_all_iff)
  with h l show "s = hex_encode bs \<and> length bs = n" by auto
next
  assume a: "s = hex_encode bs \<and> length bs = n"
  then have "\<not> isUpperAZ c" if "c \<in> set s" for c
    using lowerhex_hex_encode [of c bs] that by (auto simp: lowerhex_def isUpperAZ_def Let_def)
  with a show "decodeKey s n name = Inr bs" by (auto simp: decodeKey_def list_ex_iff)
qed

text \<open>The text form of an identity, and the field list it splits into.\<close>

definition textForm :: "Identity \<Rightarrow> string" where
  "textForm i = (if idHasPrivate i then Identity_String i @ '':'' @ hex_encode (idPrivateKey i) else Identity_String i)"

lemma splitOn_textForm:
  assumes "wfIdentity i"
  shows "splitOn CHR '':'' (textForm i) = [idAddress i, ''0'', hex_encode (idPublicKey i)]
    @ (if idHasPrivate i then [hex_encode (idPrivateKey i)] else [])"
proof -
  have "CHR '':'' \<notin> set (idAddress i)"
    using assms by (auto simp: wfIdentity_def canonicalHex_def dest: colon_not_lowerhex)
  then show ?thesis
    by (simp add: textForm_def Identity_String_def splitOn_append splitOn_none colon_hex)
qed

lemma Parse_textForm: "wfIdentity i \<Longrightarrow> Parse (textForm i) = Inr i"
  by (cases i) (auto simp: Parse_def splitOn_textForm Let_def ParseNodeID_iff wfIdentity_def decodeKey_iff rbind_eq_Inr
      zeroIdentity_def identity_consts)

lemma Parse_Inr: 
  assumes "Parse s = Inr i"
  shows "wfIdentity i \<and> s = textForm i"
proof -
  define fs where "fs = splitOn CHR '':'' s"
  have l: "length fs = 3 \<or> length fs = 4" using assms by (auto simp: Parse_def fs_def Let_def split: if_splits)
  have j: "joinWith CHR '':'' fs = s" by (simp add: fs_def joinWith_splitOn)
  from l show ?thesis
  proof
    assume "length fs = 3"
    then obtain a b c where f: "fs = [a, b, c]" by (auto simp: length_Suc_conv numeral_eq_Suc)
    with assms j show ?thesis
      by (auto simp: Parse_def fs_def [symmetric] Let_def rbind_eq_Inr ParseNodeID_iff decodeKey_iff wfIdentity_def
          zeroIdentity_def identity_consts textForm_def Identity_String_def split: if_splits)
  next
    assume "length fs = 4"
    then obtain a b c d where f: "fs = [a, b, c, d]" by (auto simp: length_Suc_conv numeral_eq_Suc)
    with assms j show ?thesis
      by (auto simp: Parse_def fs_def [symmetric] Let_def rbind_eq_Inr ParseNodeID_iff decodeKey_iff wfIdentity_def
          zeroIdentity_def identity_consts textForm_def Identity_String_def split: if_splits)
  qed
qed

text \<open>
  Identity text format: \<^verbatim>\<open>Parse\<close> accepts exactly the texts that \<^verbatim>\<open>SecretString\<close> (for an identity
  with a private key) and \<^verbatim>\<open>String\<close> (for a public one) print for well-formed identities, and gives
  back the identity that was printed.
\<close>

theorem identity_text_roundtrip:
  "Parse s = Inr i \<longleftrightarrow> wfIdentity i \<and> (if idHasPrivate i then SecretString i = Inr s else Identity_String i = s)"
  using Parse_Inr [of s i] Parse_textForm [of i]
  by (auto simp: textForm_def SecretString_def split: if_splits)

lemma Marshal_Inr:
  assumes "wfIdentity i" "hex_decode (idAddress i) = Inr a" "hex_encode a = idAddress i" "length a = 5"
  shows "Identity_MarshalBinary i = Inr (a @ [0] @ idPublicKey i
      @ (if idHasPrivate i then 64 # idPrivateKey i else [0]))"
  using assms by (simp add: Identity_MarshalBinary_def wfIdentity_def identity_consts)

lemma ParseBinary_Marshal:
  assumes "wfIdentity i" "Identity_MarshalBinary i = Inr b"
  shows "ParseBinary b = Inr i"
proof -
  obtain a where a: "hex_decode (idAddress i) = Inr a" "hex_encode a = idAddress i" "length a = 5"
    using canonicalHex_decode [of 5 "idAddress i"] assms(1) by (auto simp: wfIdentity_def)
  from Marshal_Inr [OF assms(1) this] assms(2)
  have b: "b = a @ [0] @ idPublicKey i @ (if idHasPrivate i then 64 # idPrivateKey i else [0])" by simp
  have l: "length (idPublicKey i) = 64" "length (idPrivateKey i) = 64" "ParseNodeID (idAddress i) = Inr (idAddress i)"
    "\<not> isReserved (idAddress i)"
    using assms(1) by (auto simp: wfIdentity_def identity_consts ParseNodeID_iff)
  have parts: "take 5 b = a" "b ! 5 = 0" "slice 6 70 b = idPublicKey i"
    "b ! 70 = (if idHasPrivate i then 64 else 0)" "length b = (if idHasPrivate i then 135 else 71)"
    "idHasPrivate i \<Longrightarrow> drop 71 b = idPrivateKey i"
    unfolding b using a(3) l by (simp_all add: nth_append slice_def)
  show ?thesis
    using assms(1) parts l a(2)
    by (cases i) (auto simp: ParseBinary_def Let_def identity_consts zeroIdentity_def wfIdentity_def)
qed

lemma ParseBinary_Inr:
  assumes "ParseBinary b = Inr i"
  shows "wfIdentity i \<and> Identity_MarshalBinary i = Inr b"
proof -
  have l: "length b = 71 \<or> length b = 135"
    using assms by (auto simp: ParseBinary_def identity_consts split: if_splits)
  have "b = take 5 b @ drop 5 b" "drop 5 b = b ! 5 # drop 6 b" "drop 6 b = slice 6 70 b @ drop 70 b"
    "drop 70 b = b ! 70 # drop 71 b"
    using l Cons_nth_drop_Suc [of 5 b] Cons_nth_drop_Suc [of 70 b] by (auto simp: take_slice_drop)
  then have b: "b = take 5 b @ [b ! 5] @ slice 6 70 b @ [b ! 70] @ drop 71 b" by simp
  have lens: "length (take 5 b) = 5" "length (slice 6 70 b) = 64" using l by auto
  from assms l have parts: "idAddress i = hex_encode (take 5 b)" "\<not> isReserved (idAddress i)" "b ! 5 = 0"
    "idPublicKey i = slice 6 70 b"
    "if idHasPrivate i then unat (b ! 70) = 64 \<and> length b = 135 \<and> idPrivateKey i = drop 71 b
     else b ! 70 = 0 \<and> length b = 71 \<and> idPrivateKey i = replicate 64 0"
    by (auto simp: ParseBinary_def Let_def identity_consts rbind_eq_Inr ParseNodeID_iff zeroIdentity_def unat_eq_0
        split: if_splits)
  have b70: "b ! 70 = 64" if "unat (b ! 70) = 64" using that by (simp add: word_unat_eq_iff)
  have wf: "wfIdentity i"
    using parts lens canonicalHex_encode [of "take 5 b" 5]
    by (auto simp: wfIdentity_def identity_consts split: if_splits)
  then have "Identity_MarshalBinary i = Inr (take 5 b @ [0] @ idPublicKey i
      @ (if idHasPrivate i then 64 # idPrivateKey i else [0]))"
    using parts lens by (intro Marshal_Inr) auto
  also have "\<dots> = Inr b"
    using parts b b70 by (auto split: if_splits)
  finally show ?thesis using wf by simp
qed

text \<open>
  Identity binary format: \<^verbatim>\<open>ParseBinary\<close> accepts exactly the byte strings that \<^verbatim>\<open>MarshalBinary\<close>
  produces for well-formed identities, and gives back the identity that was encoded.
\<close>

theorem identity_binary_roundtrip:
  "ParseBinary b = Inr i \<longleftrightarrow> wfIdentity i \<and> Identity_MarshalBinary i = Inr b"
  using ParseBinary_Inr [of b i] ParseBinary_Marshal [of i b] by blast

section \<open>Signatures and agreement\<close>

lemma Verify_Sign:
  assumes "ed25519_law cr" "wfIdentity i" "Sign cr i m = Inr s"
  shows "length s = SignatureLength \<and> Verify cr (Public i) m s"
proof -
  have "length (drop 32 (idPrivateKey i)) = 32" using assms(2) by (simp add: wfIdentity_def identity_consts)
  with assms(1) have "crEdVerify cr (edPublic cr (drop 32 (idPrivateKey i))) d (edSign cr (drop 32 (idPrivateKey i)) d)" for d
    unfolding ed25519_law_def by blast
  with assms(3) show ?thesis
    by (auto simp: Sign_def Verify_def Public_def Let_def SignatureLength_def split: if_splits)
qed

lemma Verify_digest: "Verify cr i m s \<Longrightarrow> Verify cr j m' s \<Longrightarrow> take 32 (Sum512 cr m) = take 32 (Sum512 cr m')"
  by (auto simp: Verify_def Let_def split: if_splits)

text \<open>The first \<open>n\<close> bytes of the digest chain.\<close>

lemma agreeLoop_step:
  "length key < len \<Longrightarrow> agreeLoop cr len key d =
     agreeLoop cr len (key @ take (len - length key) (be_bytes 64 d)) (crSum512 cr (be_bytes 64 d))"
  "\<not> length key < len \<Longrightarrow> agreeLoop cr len key d = key"
  by (simp_all add: agreeLoop.simps [of cr len key d])

lemma take_mono_eq: "take n xs = ys \<Longrightarrow> m \<le> n \<Longrightarrow> take m xs = take m ys"
  by (metis min.absorb1 take_take)

lemma agreeLoop_extends:
  "length key \<le> len \<Longrightarrow> length (agreeLoop cr len key d) = len \<and> take (length key) (agreeLoop cr len key d) = key"
proof (induction cr len key d rule: agreeLoop.induct)
  case (1 cr len key d)
  show ?case
  proof (cases "length key < len")
    case True
    let ?k = "key @ take (len - length key) (be_bytes 64 d)"
    have "length ?k \<le> len" using True by auto
    from "1.IH" [OF True this] take_mono_eq [of "length ?k" _ ?k "length key"] show ?thesis
      unfolding agreeLoop_step(1) [OF True] by simp
  qed (use "1.prems" in \<open>simp add: agreeLoop_step\<close>)
qed

lemma agreeLoop_prefix:
  "length key \<le> len \<Longrightarrow> len \<le> len' \<Longrightarrow> take len (agreeLoop cr len' key d) = agreeLoop cr len key d"
proof (induction cr len key d rule: agreeLoop.induct)
  case (1 cr len key d)
  let ?B = "be_bytes 64 d" and ?d' = "crSum512 cr (be_bytes 64 d)"
  consider "length key = len" | "length key < len" "64 < len - length key" | "length key < len" "len - length key \<le> 64"
    using 1(2) by linarith
  then show ?case
  proof cases
    case 1
    then show ?thesis using agreeLoop_extends [of key len' cr d] \<open>len \<le> len'\<close> by (simp add: agreeLoop_step)
  next
    case 2
    then have "take (len - length key) ?B = ?B" "take (len' - length key) ?B = ?B" using 1(3) by simp_all
    then show ?thesis using "1.IH" 2 1(3) by (simp add: agreeLoop_step)
  next
    case 3
    let ?k' = "key @ take (len' - length key) ?B"
    have "take (length ?k') (agreeLoop cr len' ?k' ?d') = ?k'"
      using agreeLoop_extends [of ?k' len' cr ?d'] 3 1(3) by auto
    then have "take len (agreeLoop cr len' ?k' ?d') = take len ?k'"
      using 3 1(3) by (intro take_mono_eq [where n = "length ?k'"]) auto
    with 3 1(3) show ?thesis by (simp add: agreeLoop_step min_def)
  qed
qed


text \<open>
  Signatures: when \<^verbatim>\<open>Sign\<close> succeeds its 96-byte signature is accepted by \<^verbatim>\<open>Verify\<close> with the public
  identity alone; \<^verbatim>\<open>Sign\<close> succeeds exactly when the private signing key belongs to the public one;
  and a signature \<^verbatim>\<open>Verify\<close> accepts for two messages exhibits a collision of the 32-byte digest.
\<close>

theorem signature_sound:
  assumes "ed25519_law cr" "wfIdentity i"
  shows "(case Sign cr i m of
       Inr s \<Rightarrow> length s = SignatureLength \<and> Verify cr (Public i) m s
         \<and> (Verify cr j m' s \<longrightarrow> take 32 (Sum512 cr m) = take 32 (Sum512 cr m'))
     | Inl _ \<Rightarrow> \<not> (idHasPrivate i \<and> edPublic cr (drop 32 (idPrivateKey i)) = drop 32 (idPublicKey i)))"
proof (cases "Sign cr i m")
  case (Inr s)
  note v = Verify_Sign [OF assms this]
  show ?thesis using Inr v Verify_digest [OF conjunct2 [OF v]] by simp
qed (auto simp: Sign_def Let_def split: if_splits)

text \<open>A toy instance of the primitives that satisfies both laws, and an identity for it.\<close>

definition toyCrypto :: Crypto where
  "toyCrypto = \<lparr> crSum512 = (\<lambda>m. of_nat (length m)), crEdPublic = be_word,
     crEdSign = (\<lambda>seed m. be_word (be_bytes 32 (be_word seed :: 256 word) @ m)),
     crEdVerify = (\<lambda>pub m s. s = be_bytes 64 (be_word (pub @ m) :: 512 word)), crXPublic = be_word,
     crX25519 = (\<lambda>a b. Inr (be_word a XOR be_word b)), crSalsaStream = (\<lambda>c k i. 0),
     crSum384 = (\<lambda>m. of_nat (length m)), crHMAC384 = (\<lambda>k m. of_nat (length m)),
     crPoly1305 = (\<lambda>m k. of_nat (length m)), crAESEncrypt = (\<lambda>k b. b + 1), crAESDecrypt = (\<lambda>k b. b - 1) \<rparr>"

definition toyIdentity :: "byte \<Rightarrow> Identity" where
  "toyIdentity b = \<lparr> idAddress = ''8056c2e21c'', idPublicKey = replicate 64 b, idPrivateKey = replicate 64 b,
     idHasPrivate = True \<rparr>"

lemma toy_laws: "ed25519_law toyCrypto" "x25519_law toyCrypto"
  by (simp_all add: ed25519_law_def x25519_law_def toyCrypto_def edPublic_def edSign_def xPublic_def
      be_word_be_bytes xor.commute)

lemma toy_wf: "wfIdentity (toyIdentity b)"
  by (simp add: wfIdentity_def toyIdentity_def canonicalHex_def lowerhex_def isReserved_def identity_consts)

lemma toy_public: "be_bytes 32 (be_word (replicate 32 b) :: 256 word) = replicate 32 b"
  by (rule be_bytes_be_word) simp_all

lemma toy_keys:
  "idHasPrivate (toyIdentity b)"
  "edPublic toyCrypto (drop 32 (idPrivateKey (toyIdentity b))) = drop 32 (idPublicKey (toyIdentity b))"
  "take 32 (idPublicKey (toyIdentity b)) = xPublic toyCrypto (take 32 (idPrivateKey (toyIdentity b)))"
  by (simp_all add: toyIdentity_def toyCrypto_def edPublic_def xPublic_def toy_public)

theorem signature_sound_witness:
  "\<exists>s. Sign toyCrypto (toyIdentity 7) [1, 2, 3] = Inr s \<and> Verify toyCrypto (Public (toyIdentity 7)) [1, 2, 3] s"
  using signature_sound [OF toy_laws(1) toy_wf, of 7 "[1, 2, 3]"] toy_keys [of 7]
  by (cases "Sign toyCrypto (toyIdentity 7) [1, 2, 3]") auto

text \<open>
  Key agreement: two identities whose agreement public keys belong to their private keys derive
  the same key material from each other's public documents; the material has the length asked for,
  and a shorter key is a prefix of a longer one.
\<close>

theorem agreement_symmetric:
  assumes "x25519_law cr" "wfIdentity a" "wfIdentity b" "idHasPrivate a" "idHasPrivate b"
    and "take 32 (idPublicKey a) = xPublic cr (take 32 (idPrivateKey a))"
    and "take 32 (idPublicKey b) = xPublic cr (take 32 (idPrivateKey b))"
  shows "Agree cr a (Public b) n = Agree cr b (Public a) n
    \<and> (case Agree cr a (Public b) n of
         Inr k \<Rightarrow> int (length k) = n \<and> (1 \<le> m \<longrightarrow> m \<le> n \<longrightarrow> Agree cr a (Public b) m = Inr (take (nat m) k))
       | Inl _ \<Rightarrow> True)"
proof -
  have l: "length (take 32 (idPrivateKey a)) = 32" "length (take 32 (idPrivateKey b)) = 32"
    using assms(2,3) by (simp_all add: wfIdentity_def identity_consts)
  have e: "crX25519 cr (take 32 (idPrivateKey a)) (xPublic cr (take 32 (idPrivateKey b)))
      = crX25519 cr (take 32 (idPrivateKey b)) (xPublic cr (take 32 (idPrivateKey a)))"
    using assms(1) l unfolding x25519_law_def by blast
  show ?thesis
    using assms(4-7) e agreeLoop_extends [of "[]" "nat n" cr] agreeLoop_prefix [of "[]" "nat m" "nat n" cr]
    by (auto simp: Agree_def AgreeRawPublic_def Public_def nat_le_iff rbind_eq_Inr split: sum.splits)
qed

theorem agreement_symmetric_witness:
  "Agree toyCrypto (toyIdentity 3) (Public (toyIdentity 5)) 48 = Agree toyCrypto (toyIdentity 5) (Public (toyIdentity 3)) 48"
  using agreement_symmetric [OF toy_laws(2) toy_wf toy_wf toy_keys(1) toy_keys(1) toy_keys(3) toy_keys(3), of 3 5 48]
  by blast

section \<open>Generation\<close>

lemma length_splice [simp]: "off + length new \<le> length xs \<Longrightarrow> length (splice off new xs) = length xs"
  by (simp add: splice_def)

lemma length_le_bytes [simp]: "length (le_bytes n w) = n"
  by (simp add: le_bytes_def)

lemma length_incrementCandidate: "length k = 32 \<Longrightarrow> length (incrementCandidate k) = 32"
  by (simp add: incrementCandidate_def Let_def)

lemma length_mixLoop: "length digest = 64 \<Longrightarrow> length memory = proofMemorySize
    \<Longrightarrow> length (mixLoop cr key offset memory digest counter) = 64"
proof (induction cr key offset memory digest counter rule: mixLoop.induct)
  case (1 cr key offset memory digest counter)
  show ?case
  proof (cases "offset < proofMemorySize")
    case True
    let ?d = "unat (be_word (slice offset (offset + 8) memory) mod 8 :: uint64) * 8"
    let ?m = "unat (be_word (slice (offset + 8) (offset + 16) memory) mod of_nat (proofMemorySize div 8) :: uint64) * 8"
    have d: "?d + 8 \<le> 64" using word_mod_less_divisor [of 8 "be_word (slice offset (offset + 8) memory) :: uint64"]
      by (simp add: word_less_nat_alt)
    have m: "?m + 8 \<le> proofMemorySize"
      using word_mod_less_divisor [of "of_nat (proofMemorySize div 8)" "be_word (slice (offset + 8) (offset + 16) memory) :: uint64"]
      by (simp add: word_less_nat_alt proofMemorySize_def)
    show ?thesis
      unfolding mixLoop.simps [of cr key offset] Let_def if_P [OF True]
      using d m "1.prems" by (intro "1.IH" [OF True refl refl refl refl refl refl refl refl]) auto
  qed (use "1.prems" in \<open>simp add: mixLoop.simps [of cr key offset]\<close>)
qed

lemma length_chainLoop: "length memory = proofMemorySize \<Longrightarrow> 64 dvd offset \<Longrightarrow> 64 \<le> offset
   \<Longrightarrow> length (chainLoop offset memory) = proofMemorySize"
proof (induction offset memory rule: chainLoop.induct)
  case (1 offset memory)
  show ?case
  proof (cases "offset < proofMemorySize")
    case True
    have "offset + 64 \<le> proofMemorySize"
      using True "1.prems"(2) by (auto simp: proofMemorySize_def elim!: dvdE)
    then show ?thesis
      unfolding chainLoop.simps [of offset] if_P [OF True]
      using "1.prems" by (intro "1.IH" [OF True]) (auto simp: salsaBlockSize_def)
  qed (use "1.prems" in \<open>simp add: chainLoop.simps [of offset]\<close>)
qed

lemma length_memoryHardHash [simp]: "length (memoryHardHash cr p) = 64"
  unfolding memoryHardHash_def Let_def
  by (intro length_mixLoop length_chainLoop) (simp_all add: salsaBlockSize_def)

lemma hexNibble_hexdigit: "n < 16 \<Longrightarrow> hexNibble (byte_of_char (hexdigit n)) = of_nat n"
proof -
  have "list_all (\<lambda>n. hexNibble (byte_of_char (hexdigit n)) = of_nat n) [0..<16]"
    by (simp add: upt_rec hexdigit_def byte_of_char_def hexNibble_def)
  then show "n < 16 \<Longrightarrow> ?thesis" by (simp add: list_all_iff)
qed

lemma nth_hex_encode: "i < length bs \<Longrightarrow> hex_encode bs ! (2 * i) = hexdigit (unat (bs ! i) div 16)
    \<and> hex_encode bs ! (2 * i + 1) = hexdigit (unat (bs ! i) mod 16)"
proof (induction bs arbitrary: i)
  case (Cons b bs)
  then show ?case by (cases i) auto
qed simp

lemma nibbles_byte: "push_bit 4 (of_nat (unat b div 16)) OR of_nat (unat b mod 16) = (b :: byte)"
proof -
  have "of_nat (unat b div 16) = drop_bit 4 b" "of_nat (unat b mod 16) = take_bit 4 b"
    using unat_byte_div16 [of b] by (simp_all add: drop_bit_eq_div take_bit_eq_mod word_unat_eq_iff unat_div unat_mod unat_of_nat)
  moreover have "push_bit 4 (drop_bit 4 b) OR take_bit 4 b = b"
    by (rule bit_word_eqI) (auto simp: bit_simps)
  ultimately show ?thesis by simp
qed

lemma byteValue_hex: "i < length bs \<Longrightarrow> byteValue (hex_encode bs) i = bs ! i"
  using nth_hex_encode [of i bs] nibbles_byte [of "bs ! i"]
  by (simp add: byteValue_def hexNibble_hexdigit unat_byte_div16 mult.commute)


text \<open>The identity the search is at after \<open>n\<close> candidates, and whether it is acceptable.\<close>

definition nextCandidate :: "Crypto \<Rightarrow> Identity \<Rightarrow> Identity" where
  "nextCandidate cr i = (let candidate = incrementCandidate (take 32 (idPrivateKey i)) in
     i\<lparr>idPrivateKey := candidate @ drop 32 (idPrivateKey i), idPublicKey := xPublic cr candidate @ drop 32 (idPublicKey i)\<rparr>)"

definition acceptable :: "Crypto \<Rightarrow> Identity \<Rightarrow> bool" where
  "acceptable cr i = (let digest = memoryHardHash cr (idPublicKey i) in
     digest ! 0 < proofThreshold \<and> \<not> isReserved (hex_encode (drop 59 digest)))"

definition withAddress :: "Crypto \<Rightarrow> Identity \<Rightarrow> Identity" where
  "withAddress cr i = i\<lparr>idAddress := hex_encode (drop 59 (memoryHardHash cr (idPublicKey i)))\<rparr>"

lemma generateLoop_step:
  "generateLoop cr ctx n i = (case ctx n of Some e \<Rightarrow> Some (Inl e) | None \<Rightarrow>
     if acceptable cr (nextCandidate cr i) then Some (Inr (withAddress cr (nextCandidate cr i)))
     else generateLoop cr ctx (Suc n) (nextCandidate cr i))"
  by (subst generateLoop.simps)
    (auto simp: acceptable_def nextCandidate_def withAddress_def Let_def not_less split: option.splits)

text \<open>The key pairs match: what \<^verbatim>\<open>Generate\<close> maintains between rounds.\<close>

definition keyPair :: "Crypto \<Rightarrow> Identity \<Rightarrow> bool" where
  "keyPair cr i = (idHasPrivate i \<and> length (idPrivateKey i) = 64 \<and> length (idPublicKey i) = 64
     \<and> take 32 (idPublicKey i) = xPublic cr (take 32 (idPrivateKey i))
     \<and> drop 32 (idPublicKey i) = edPublic cr (drop 32 (idPrivateKey i)))"

definition searching :: "Crypto \<Rightarrow> Identity \<Rightarrow> bool" where
  "searching cr i = (idHasPrivate i \<and> length (idPrivateKey i) = 64 \<and> length (idPublicKey i) = 64
     \<and> drop 32 (idPublicKey i) = edPublic cr (drop 32 (idPrivateKey i)))"

lemma nextCandidate_keyPair: "searching cr i \<Longrightarrow> keyPair cr (nextCandidate cr i)"
  using length_incrementCandidate [of "take 32 (idPrivateKey i)"]
  by (simp add: searching_def keyPair_def nextCandidate_def Let_def)

lemma keyPair_searching: "keyPair cr i \<Longrightarrow> searching cr i"
  by (simp add: searching_def keyPair_def)

lemma withAddress_valid:
  assumes "keyPair cr i" "acceptable cr i"
  shows "wfIdentity (withAddress cr i) \<and> keyPair cr (withAddress cr i) \<and> LocallyValidate cr (withAddress cr i)"
proof -
  let ?d = "drop 59 (memoryHardHash cr (idPublicKey i))"
  have l: "length ?d = 5" by simp
  have "byteValue (hex_encode ?d) k = memoryHardHash cr (idPublicKey i) ! (59 + k)" if "k < 5" for k
    using byteValue_hex [of k ?d] that by simp
  then have "LocallyValidate cr (withAddress cr i)"
    using assms(2) by (auto simp: LocallyValidate_def withAddress_def acceptable_def Let_def list_all_iff not_le)
  moreover have "canonicalHex 10 (hex_encode ?d)" using canonicalHex_encode [of ?d 5] l by simp
  ultimately show ?thesis
    using assms by (simp add: wfIdentity_def withAddress_def keyPair_def acceptable_def Let_def identity_consts)
qed

lemma generateLoop_finds:
  "\<lbrakk> searching cr i; \<And>k. k \<le> n \<Longrightarrow> ctx (s + k) = None; acceptable cr ((nextCandidate cr ^^ Suc n) i) \<rbrakk> \<Longrightarrow>
    \<exists>j. generateLoop cr ctx s i = Some (Inr j) \<and> wfIdentity j \<and> keyPair cr j \<and> LocallyValidate cr j"
proof (induction n arbitrary: s i)
  case 0
  then show ?case using withAddress_valid [OF nextCandidate_keyPair] by (auto simp: generateLoop_step [of cr ctx s])
next
  case (Suc n)
  show ?case
  proof (cases "acceptable cr (nextCandidate cr i)")
    case True
    then show ?thesis using Suc.prems(1) Suc.prems(2) [of 0] withAddress_valid [OF nextCandidate_keyPair]
      by (auto simp: generateLoop_step [of cr ctx s])
  next
    case False
    have "\<exists>j. generateLoop cr ctx (Suc s) (nextCandidate cr i) = Some (Inr j) \<and> wfIdentity j \<and> keyPair cr j \<and> LocallyValidate cr j"
    proof (rule Suc.IH)
      show "searching cr (nextCandidate cr i)" by (rule keyPair_searching [OF nextCandidate_keyPair [OF Suc.prems(1)]])
      show "ctx (Suc s + k) = None" if "k \<le> n" for k using Suc.prems(2) [of "Suc k"] that by simp
      show "acceptable cr ((nextCandidate cr ^^ Suc n) (nextCandidate cr i))"
        using Suc.prems(3) by (simp add: funpow_swap1)
    qed
    with False Suc.prems(2) [of 0] show ?thesis by (simp add: generateLoop_step [of cr ctx s])
  qed
qed

definition searchStart :: "Crypto \<Rightarrow> bytes \<Rightarrow> Identity" where
  "searchStart cr private = zeroIdentity\<lparr>idHasPrivate := True, idPrivateKey := private,
     idPublicKey := replicate 32 0 @ edPublic cr (drop 32 private)\<rparr>"

text \<open>
  C38. Identity generation: if the context is alive for the first \<open>n + 1\<close> rounds and the \<open>n + 1\<close>-st
  candidate after the 64 random bytes meets the proof of work with an unreserved address, \<^verbatim>\<open>Generate\<close>
  returns; the identity it returns is well formed, carries matching signing and agreement key pairs
  and passes \<^verbatim>\<open>LocallyValidate\<close>.
\<close>

theorem generate_valid:
  assumes "length private = 64" "list_all (\<lambda>k. ctx k = None) [0..<Suc n]"
    and "acceptable cr ((nextCandidate cr ^^ Suc n) (searchStart cr private))"
  shows "\<exists>i. Generate cr ctx (Inr private) = Some (Inr i)
    \<and> wfIdentity i \<and> keyPair cr i \<and> LocallyValidate cr i"
proof -
  have "searching cr (searchStart cr private)"
    using assms(1) by (simp add: searching_def searchStart_def zeroIdentity_def)
  moreover have "ctx (0 + k) = None" if "k \<le> n" for k
    using assms(2) that by (simp add: list_all_iff del: upt_Suc)
  ultimately show ?thesis
    using generateLoop_finds [of cr "searchStart cr private" n ctx 0] assms(3)
    by (simp add: Generate_def searchStart_def)
qed

lemma toy_stream: "xorKeyStream toyCrypto inp c k = inp"
  by (simp add: xorKeyStream_def toyCrypto_def map_nth)

lemma slice_zeros: "slice a b (replicate n 0) = replicate (min (b - a) (n - a)) (0 :: byte)"
  by (simp add: slice_def min.commute)

lemma splice_zeros: "off + k \<le> n \<Longrightarrow> splice off (replicate k 0) (replicate n 0) = replicate n 0"
  by (simp add: splice_def replicate_add [symmetric])

lemma be_word_zeros: "be_word (replicate n 0) = 0"
  by (induction n) (simp_all add: be_word_def)

lemma toy_chain: "chainLoop offset (replicate proofMemorySize 0) = replicate proofMemorySize 0"
proof (induction "proofMemorySize - offset" arbitrary: offset rule: less_induct)
  case less
  show ?case
  proof (cases "offset < proofMemorySize")
    case True
    then have "chainLoop offset (replicate proofMemorySize 0) = chainLoop (offset + salsaBlockSize) (replicate proofMemorySize 0)"
      by (simp add: chainLoop.simps [of offset] slice_zeros zip_replicate splice_zeros)
    also have "\<dots> = replicate proofMemorySize 0"
      using True by (intro less) (simp add: salsaBlockSize_def)
    finally show ?thesis .
  qed (simp add: chainLoop.simps [of offset])
qed

lemma toy_mix:
  assumes "take 8 digest = replicate 8 0"
  shows "mixLoop toyCrypto key offset (replicate proofMemorySize 0) digest counter = digest"
proof (induction "proofMemorySize - offset" arbitrary: offset counter rule: less_induct)
  case less
  have sp: "splice 0 (replicate 8 0) digest = digest"
    using append_take_drop_id [of 8 digest] by (simp add: splice_def assms)
  show ?case
  proof (cases "offset < proofMemorySize")
    case True
    have "8 \<le> proofMemorySize" by (simp add: proofMemorySize_def)
    then have "mixLoop toyCrypto key offset (replicate proofMemorySize 0) digest counter
        = mixLoop toyCrypto key (offset + 16) (replicate proofMemorySize 0) digest (incrementSalsaCounter counter)"
      using True by (simp add: mixLoop.simps [of _ _ offset] Let_def slice_zeros be_word_zeros assms splice_zeros
          sp toy_stream)
    also have "\<dots> = digest" using True by (intro less) simp
    finally show ?thesis .
  qed (simp add: mixLoop.simps [of _ _ offset])
qed

lemma toy_hash: "length p = 64 \<Longrightarrow> memoryHardHash toyCrypto p = replicate 63 0 @ [64]"
proof -
  assume "length p = 64"
  then have d: "Sum512 toyCrypto p = replicate 63 0 @ [64]"
    by (simp add: Sum512_def toyCrypto_def) code_simp
  show ?thesis
    by (simp add: memoryHardHash_def Let_def toy_stream toy_chain d toy_mix)
qed

theorem generate_valid_witness:
  "\<exists>i. Generate toyCrypto (\<lambda>_. None) (Inr (replicate 64 9)) = Some (Inr i) \<and> LocallyValidate toyCrypto i"
proof -
  have l: "length (idPublicKey ((nextCandidate toyCrypto ^^ Suc 0) (searchStart toyCrypto (replicate 64 9)))) = 64"
    by (simp add: nextCandidate_def searchStart_def zeroIdentity_def Let_def)
  have "acceptable toyCrypto ((nextCandidate toyCrypto ^^ Suc 0) (searchStart toyCrypto (replicate 64 9)))"
    unfolding acceptable_def toy_hash [OF l] by code_simp
  with generate_valid [of "replicate 64 9" "\<lambda>_. None" 0 toyCrypto] show ?thesis by auto
qed

end
