(* ===== verification/Credential.thy ===== *)
theory Credential
  imports Identity
begin

text \<open>
  What the signed documents of package \<^verbatim>\<open>networkconfig\<close> have in common. \<open>signed_document\<close> is the
  contract between a credential type and its issuer: the signature field is not part of the signed
  bytes, and verification is the check of the named signer's signature on a document in order.
  \<open>codec\<close> is the contract of a pair of wire functions. The credential theories interpret both.
\<close>

locale signed_document =
  fixes payload :: "'c \<Rightarrow> bytes"
    and signatureOf :: "'c \<Rightarrow> Signature"
    and withSignature :: "'c \<Rightarrow> Signature \<Rightarrow> 'c"
    and signedBy :: "'c \<Rightarrow> NodeID"
    and inOrder :: "'c \<Rightarrow> bool"
    and accepts :: "Crypto \<Rightarrow> 'c \<Rightarrow> Identity \<Rightarrow> bool"
  assumes payload_unsigned: "payload (withSignature c s) = payload c"
    and signature_set: "signatureOf (withSignature c s) = s"
    and signer_kept: "signedBy (withSignature c s) = signedBy c"
    and order_kept: "inOrder (withSignature c s) \<longleftrightarrow> inOrder c"
    and accepts_iff: "accepts cr c i \<longleftrightarrow>
      inOrder c \<and> idAddress i = signedBy c \<and> Verify cr i (payload c) (signatureOf c)"
begin

lemma issued_accepted:
  assumes "ed25519_law cr" "wfIdentity signer" "Sign cr signer (payload c) = Inr s"
    and "inOrder c" "signedBy c = idAddress signer"
  shows "accepts cr (withSignature c s) (Public signer)"
  using Verify_Sign [OF assms(1-3)] assms(4,5)
  by (simp add: accepts_iff payload_unsigned signature_set signer_kept order_kept Public_def)

lemma accepted_digest:
  assumes "accepts cr c i" "accepts cr d j" "signatureOf c = signatureOf d"
  shows "take 32 (Sum512 cr (payload c)) = take 32 (Sum512 cr (payload d))"
  using assms Verify_digest by (metis accepts_iff)

lemma only_named_signer: "accepts cr c i \<Longrightarrow> accepts cr c j \<Longrightarrow> idAddress i = idAddress j"
  by (simp add: accepts_iff)

end

locale codec =
  fixes marshal :: "'c \<Rightarrow> bytes result"
    and parse :: "bytes \<Rightarrow> 'c result"
    and wellformed :: "'c \<Rightarrow> bool"
  assumes parse_marshal: "wellformed c \<Longrightarrow> marshal c = Inr bs \<Longrightarrow> parse bs = Inr c"
    and marshal_parse: "parse bs = Inr c \<Longrightarrow> wellformed c \<and> marshal c = Inr bs"
begin

lemma exact: "parse bs = Inr c \<longleftrightarrow> wellformed c \<and> marshal c = Inr bs"
  using parse_marshal marshal_parse by blast

lemma injective: "wellformed c \<Longrightarrow> wellformed d \<Longrightarrow> marshal c = Inr bs \<Longrightarrow> marshal d = Inr bs \<Longrightarrow> c = d"
  using parse_marshal [of c bs] parse_marshal [of d bs] by simp

lemma canonical: "parse bs = Inr c \<Longrightarrow> parse bs' = Inr c \<Longrightarrow> bs = bs'"
  using marshal_parse [of bs c] marshal_parse [of bs' c] by simp

end

interpretation identity_codec: codec Identity_MarshalBinary ParseBinary wfIdentity
  by unfold_locales (auto intro: ParseBinary_Marshal dest: ParseBinary_Inr)

lemma Sign_keyPair: "keyPair cr i \<Longrightarrow> \<exists>s. Sign cr i m = Inr s"
  by (simp add: Sign_def Let_def keyPair_def)

lemma Sign_length: "Sign cr i m = Inr s \<Longrightarrow> length s = SignatureLength"
  by (auto simp: Sign_def Let_def SignatureLength_def split: if_splits)

lemma toy_keyPair: "keyPair toyCrypto (toyIdentity b)"
  using toy_keys [of b] by (simp add: keyPair_def toyIdentity_def)

text \<open>A network identifier of the toy controller.\<close>

definition toyNetworkID :: NetworkID where
  "toyNetworkID = ''8056c2e21c000001''"

lemma toyNetworkID_canonical: "canonicalHex 16 toyNetworkID"
  by (simp add: toyNetworkID_def canonicalHex_def lowerhex_def)

end
