(* ===== verification/Membership.thy ===== *)
theory Membership
  imports Packet Credential
begin

unbundle bit_operations_syntax

text \<open>
  \<^verbatim>\<open>internal/zerotier/networkconfig/membership.go\<close>: the certificate of membership (COM), a sorted list
  of qualifiers signed by the network's controller.
\<close>

section \<open>The certificate\<close>

definition membershipFormatVersion :: byte where "membershipFormatVersion = 1"
definition maxCOMQualifiers :: nat where "maxCOMQualifiers = 8"

lemmas membership_consts = membershipFormatVersion_def maxCOMQualifiers_def SignatureLength_def

record COMQualifier =
  cqID :: uint64
  cqValue :: uint64
  cqMaxDelta :: uint64

record CertificateOfMembership =
  cmQualifiers :: "COMQualifier list"
  cmSignedBy :: NodeID
  cmSignature :: Signature

definition mustControllerID :: "NetworkID \<Rightarrow> NodeID" where
  "mustControllerID networkID = (case ControllerID networkID of Inr c \<Rightarrow> c | Inl _ \<Rightarrow> [])"

text \<open>\<^verbatim>\<open>padded[8-len(decoded):]\<close> panics when more than eight bytes were decoded.\<close>

definition parseHexUint :: "string \<Rightarrow> uint64 result" where
  "parseHexUint value =
     rbind (hex_decode value) (\<lambda>decoded.
     if length decoded > 8 then Inl (Panic ''slice bounds out of range'')
     else Inr (be_word (replicate (8 - length decoded) 0 @ decoded)))"

definition identityPublicHash :: "Crypto \<Rightarrow> Identity \<Rightarrow> bytes result" where
  "identityPublicHash cr i =
     rbind (hex_decode (idAddress i)) (\<lambda>address. Inr (Sum384 cr (address @ idPublicKey i)))"

definition qualifierBytes :: "COMQualifier \<Rightarrow> bytes" where
  "qualifierBytes q = be_bytes 8 (cqID q) @ be_bytes 8 (cqValue q) @ be_bytes 8 (cqMaxDelta q)"

definition signedPayload :: "CertificateOfMembership \<Rightarrow> bytes" where
  "signedPayload certificate = concat (map qualifierBytes (cmQualifiers certificate))"

definition COM_validate :: "CertificateOfMembership \<Rightarrow> unit result" where
  "COM_validate certificate =
     (let qs = cmQualifiers certificate in
      if length qs = 0 \<or> length qs > maxCOMQualifiers
      then Inl (Errorf ''COM must contain between 1 and %d qualifiers'')
      else if list_ex (\<lambda>index. index > 0 \<and> cqID (qs ! index) < cqID (qs ! (index - 1))) [0..<length qs]
      then Inl (Errorf ''COM qualifiers are not sorted'')
      else wrapErr ''COM signer: %w'' (NodeID_Validate (cmSignedBy certificate)))"

definition NewCertificateOfMembership ::
    "Crypto \<Rightarrow> uint64 \<Rightarrow> uint64 \<Rightarrow> NetworkID \<Rightarrow> Identity \<Rightarrow> Identity \<Rightarrow> CertificateOfMembership result" where
  "NewCertificateOfMembership cr timestamp timestampMaxDelta networkID issuedTo signer =
     (if idAddress signer \<noteq> mustControllerID networkID
      then Inl (Errorf ''COM signer is not the network controller'')
      else
        rbind (parseHexUint networkID) (\<lambda>networkValue.
        rbind (parseHexUint (idAddress issuedTo)) (\<lambda>issuedValue.
        rbind (identityPublicHash cr issuedTo) (\<lambda>publicHash.
        let certificate = \<lparr> cmQualifiers =
              [\<lparr> cqID = 0, cqValue = timestamp, cqMaxDelta = timestampMaxDelta \<rparr>,
               \<lparr> cqID = 1, cqValue = networkValue, cqMaxDelta = 0 \<rparr>,
               \<lparr> cqID = 2, cqValue = issuedValue, cqMaxDelta = - 1 \<rparr>,
               \<lparr> cqID = 3, cqValue = be_word (slice 0 8 publicHash), cqMaxDelta = - 1 \<rparr>,
               \<lparr> cqID = 4, cqValue = be_word (slice 8 16 publicHash), cqMaxDelta = - 1 \<rparr>,
               \<lparr> cqID = 5, cqValue = be_word (slice 16 24 publicHash), cqMaxDelta = - 1 \<rparr>,
               \<lparr> cqID = 6, cqValue = be_word (slice 24 32 publicHash), cqMaxDelta = - 1 \<rparr>],
              cmSignedBy = idAddress signer, cmSignature = replicate SignatureLength 0 \<rparr> in
        rbind (wrapErr ''sign COM: %w'' (Sign cr signer (signedPayload certificate))) (\<lambda>signature.
        Inr (certificate\<lparr>cmSignature := signature\<rparr>))))))"

definition COM_Verify :: "Crypto \<Rightarrow> CertificateOfMembership \<Rightarrow> NetworkID \<Rightarrow> Identity \<Rightarrow> unit result" where
  "COM_Verify cr certificate networkID signer =
     rbind (COM_validate certificate) (\<lambda>_.
     if cmSignedBy certificate \<noteq> mustControllerID networkID
     then Inl (Errorf ''COM was not signed by the network controller'')
     else if idAddress signer \<noteq> cmSignedBy certificate
     then Inl (Errorf ''provided signer identity does not match COM signer'')
     else if \<not> Verify cr signer (signedPayload certificate) (cmSignature certificate)
     then Inl (Errorf ''invalid COM signature'')
     else Inr ())"

definition COM_MarshalBinary :: "CertificateOfMembership \<Rightarrow> bytes result" where
  "COM_MarshalBinary certificate =
     rbind (COM_validate certificate) (\<lambda>_.
     Inr ([membershipFormatVersion] @ be_bytes 2 (of_nat (length (cmQualifiers certificate)) :: uint16)
       @ signedPayload certificate @ decodedHex (cmSignedBy certificate) @ cmSignature certificate))"

text \<open>The loop of the parser: \<open>count\<close> qualifiers from \<open>offset\<close>.\<close>

fun parseQualifiers :: "bytes \<Rightarrow> nat \<Rightarrow> nat \<Rightarrow> COMQualifier list" where
  "parseQualifiers serialized offset 0 = []"
| "parseQualifiers serialized offset (Suc count) =
     \<lparr> cqID = be_word (slice offset (offset + 8) serialized),
       cqValue = be_word (slice (offset + 8) (offset + 16) serialized),
       cqMaxDelta = be_word (slice (offset + 16) (offset + 24) serialized) \<rparr>
     # parseQualifiers serialized (offset + 24) count"

definition ParseCertificateOfMembership :: "bytes \<Rightarrow> CertificateOfMembership result" where
  "ParseCertificateOfMembership serialized =
     (if length serialized < 1 + 2 + 5 then Inl (Errorf ''COM is truncated'')
      else if serialized ! 0 \<noteq> membershipFormatVersion then Inl (Errorf ''unsupported COM version %d'')
      else
        let count = unat (be_word (slice 1 3 serialized) :: uint16) in
        if count = 0 \<or> count > maxCOMQualifiers then Inl (Errorf ''invalid COM qualifier count %d'')
        else
          let expected = 3 + count * 24 + 5 + SignatureLength in
          if length serialized \<noteq> expected then Inl (Errorf ''COM length %d, want %d'')
          else
            let offset = 3 + count * 24 in
            rbind (ParseNodeID (hex_encode (slice offset (offset + 5) serialized))) (\<lambda>signer.
            let certificate = \<lparr> cmQualifiers = parseQualifiers serialized 3 count, cmSignedBy = signer,
                  cmSignature = drop (offset + 5) serialized \<rparr> in
            rbind (COM_validate certificate) (\<lambda>_. Inr certificate)))"

section \<open>Encoding\<close>

lemma qualifierBytes_simps [simp]:
  "qualifierBytes \<lparr> cqID = a, cqValue = b, cqMaxDelta = d \<rparr> = be_bytes 8 a @ be_bytes 8 b @ be_bytes 8 d"
  by (simp add: qualifierBytes_def)

lemma length_qualifierBytes [simp]: "length (qualifierBytes q) = 24"
  by (simp add: qualifierBytes_def)

lemma length_qualifiers [simp]: "length (concat (map qualifierBytes qs)) = 24 * length qs"
  by (induction qs) auto

lemma length_parseQualifiers [simp]: "length (parseQualifiers s off n) = n"
  by (induction n arbitrary: off) auto

lemma parse_qualifierBytes:
  assumes "length p = off"
  shows "parseQualifiers (p @ concat (map qualifierBytes qs) @ r) off (length qs) = qs"
  using assms
proof (induction qs arbitrary: p off)
  case (Cons q qs)
  from Cons.IH [of "p @ qualifierBytes q" "off + 24"] Cons.prems show ?case
    by (cases q) (simp add: qualifierBytes_def slice_def)
qed simp

lemma qualifierBytes_parse:
  "off + 24 * n \<le> length s \<Longrightarrow>
     concat (map qualifierBytes (parseQualifiers s off n)) = slice off (off + 24 * n) s"
proof (induction n arbitrary: off)
  case (Suc n)
  have "be_bytes 8 (be_word (slice (off + 8) (off + 16) s) :: uint64) = slice (off + 8) (off + 16) s"
    "be_bytes 8 (be_word (slice (off + 16) (off + 24) s) :: uint64) = slice (off + 16) (off + 24) s"
    using Suc.prems by simp_all
  moreover have "slice off (off + 8) s @ slice (off + 8) (off + 16) s @ slice (off + 16) (off + 24) s
      @ slice (off + 24) (off + 24 * Suc n) s = slice off (off + 24 * Suc n) s"
    by (simp add: slice_split)
  moreover have "concat (map qualifierBytes (parseQualifiers s (off + 24) n)) = slice (off + 24) (off + 24 * Suc n) s"
    using Suc.IH [of "off + 24"] Suc.prems by (simp add: add.assoc)
  ultimately show ?case
    using Suc.prems by simp
qed (simp add: slice_def)

lemma COM_validate_iff: "COM_validate c = Inr u \<longleftrightarrow>
    cmQualifiers c \<noteq> [] \<and> length (cmQualifiers c) \<le> maxCOMQualifiers
    \<and> sorted (map cqID (cmQualifiers c)) \<and> canonicalHex 10 (cmSignedBy c)"
proof -
  let ?qs = "cmQualifiers c"
  have "list_ex (\<lambda>index. index > 0 \<and> cqID (?qs ! index) < cqID (?qs ! (index - 1))) [0..<length ?qs]
      \<longleftrightarrow> \<not> sorted (map cqID ?qs)" (is "?l \<longleftrightarrow> _")
  proof
    assume ?l
    then obtain i where "i > 0" "i < length ?qs" "cqID (?qs ! i) < cqID (?qs ! (i - 1))"
      by (auto simp: list_ex_iff)
    then show "\<not> sorted (map cqID ?qs)"
      by (auto simp: sorted_iff_nth_Suc not_le intro!: exI [of _ "i - 1"])
  next
    assume "\<not> sorted (map cqID ?qs)"
    then obtain i where "Suc i < length ?qs" "cqID (?qs ! Suc i) < cqID (?qs ! i)"
      by (auto simp: sorted_iff_nth_Suc not_le)
    then show ?l by (auto simp: list_ex_iff intro!: bexI [of _ "Suc i"])
  qed
  then show ?thesis by (auto simp: COM_validate_def Let_def)
qed

lemma unat_small16: "n < 65536 \<Longrightarrow> unat (of_nat n :: uint16) = n"
  by (simp add: unat_of_nat)

lemma ParseCOM_Marshal:
  assumes "length (cmSignature c) = SignatureLength" "COM_MarshalBinary c = Inr bs"
  shows "ParseCertificateOfMembership bs = Inr c"
proof -
  let ?qs = "cmQualifiers c"
  from assms(2) have v: "COM_validate c = Inr ()" and bs: "bs = [membershipFormatVersion]
      @ be_bytes 2 (of_nat (length ?qs) :: uint16) @ signedPayload c @ decodedHex (cmSignedBy c) @ cmSignature c"
    by (auto simp: COM_MarshalBinary_def rbind_eq_Inr)
  from v have q: "?qs \<noteq> []" "length ?qs \<le> 8" "canonicalHex 10 (cmSignedBy c)"
    by (auto simp: COM_validate_iff maxCOMQualifiers_def)
  have c: "\<lparr>cmQualifiers = ?qs, cmSignedBy = cmSignedBy c, cmSignature = cmSignature c\<rparr> = c" by simp
  have p: "parseQualifiers bs 3 (length ?qs) = ?qs"
    unfolding bs signedPayload_def
    using parse_qualifierBytes [of "[membershipFormatVersion] @ be_bytes 2 (of_nat (length ?qs) :: uint16)" 3 ?qs]
    by simp
  have "slice 1 3 bs = be_bytes 2 (of_nat (length ?qs) :: uint16)" by (simp add: bs slice_def)
  then have "unat (be_word (slice 1 3 bs) :: uint16) = length ?qs"
    using q by (simp add: unat_small16)
  moreover have "length bs = 3 + length ?qs * 24 + 5 + SignatureLength"
    using q assms(1) by (simp add: bs signedPayload_def)
  moreover have "slice (3 + length ?qs * 24) (3 + length ?qs * 24 + 5) bs = decodedHex (cmSignedBy c)"
    "drop (3 + length ?qs * 24 + 5) bs = cmSignature c"
    using q by (auto intro!: slice_at [of _ "[membershipFormatVersion] @ be_bytes 2 (of_nat (length ?qs) :: uint16) @ signedPayload c"]
        drop_at [of _ "[membershipFormatVersion] @ be_bytes 2 (of_nat (length ?qs) :: uint16) @ signedPayload c @ decodedHex (cmSignedBy c)"]
        simp: bs signedPayload_def)
  moreover have "bs ! 0 = membershipFormatVersion" by (simp add: bs)
  ultimately show ?thesis
    using q v p by (simp add: c ParseCertificateOfMembership_def Let_def maxCOMQualifiers_def SignatureLength_def)
qed

lemma ParseCOM_Inr:
  assumes "ParseCertificateOfMembership bs = Inr c"
  shows "length (cmSignature c) = SignatureLength \<and> COM_MarshalBinary c = Inr bs"
proof -
  define n where "n = unat (be_word (slice 1 3 bs) :: uint16)"
  from assms have len: "length bs = 3 + n * 24 + 5 + SignatureLength" and v: "COM_validate c = Inr ()"
    and b0: "bs ! 0 = membershipFormatVersion"
    and c: "c = \<lparr> cmQualifiers = parseQualifiers bs 3 n,
        cmSignedBy = hex_encode (slice (3 + n * 24) (3 + n * 24 + 5) bs),
        cmSignature = drop (3 + n * 24 + 5) bs \<rparr>"
    by (auto simp: ParseCertificateOfMembership_def Let_def n_def rbind_eq_Inr ParseNodeID_iff split: if_splits)
  have "signedPayload c = slice 3 (3 + n * 24) bs"
    using len by (simp add: c signedPayload_def qualifierBytes_parse mult.commute)
  moreover have "be_bytes 2 (of_nat n :: uint16) = slice 1 3 bs"
    using len by (simp add: n_def be_bytes_be_word)
  moreover have "[bs ! 0] = take 1 bs" using len by (cases bs) simp_all
  moreover have "bs = take 1 bs @ slice 1 3 bs @ slice 3 (3 + n * 24) bs
      @ slice (3 + n * 24) (3 + n * 24 + 5) bs @ drop (3 + n * 24 + 5) bs"
    by (simp add: take_slice_drop)
  ultimately show ?thesis
    using v len b0 by (simp add: COM_MarshalBinary_def c)
qed

interpretation com_codec: codec COM_MarshalBinary ParseCertificateOfMembership
    "\<lambda>c. length (cmSignature c) = SignatureLength"
  by unfold_locales (auto intro: ParseCOM_Marshal dest: ParseCOM_Inr)

interpretation com: signed_document signedPayload cmSignature "\<lambda>c s. c\<lparr>cmSignature := s\<rparr>" cmSignedBy
    "\<lambda>c. COM_validate c = Inr () \<and> cmSignedBy c = mustControllerID networkID"
    "\<lambda>cr c i. COM_Verify cr c networkID i = Inr ()" for networkID
  by unfold_locales (auto simp: signedPayload_def COM_validate_iff COM_Verify_def rbind_eq_Inr)

text \<open>
  Membership certificates on the wire: \<^verbatim>\<open>ParseCertificateOfMembership\<close> accepts exactly the bytes
  \<^verbatim>\<open>MarshalBinary\<close> produces for certificates with a 96-byte signature, and gives back the certificate.
\<close>

theorem com_roundtrip:
  "ParseCertificateOfMembership bs = Inr c \<longleftrightarrow>
     length (cmSignature c) = SignatureLength \<and> COM_MarshalBinary c = Inr bs"
  by (rule com_codec.exact)

section \<open>Issuing\<close>

lemma mustControllerID_canonical [simp]: "canonicalHex 16 networkID \<Longrightarrow> mustControllerID networkID = take 10 networkID"
proof -
  assume "canonicalHex 16 networkID"
  then have "ControllerID networkID = Inr (take 10 networkID)" by (simp add: ControllerID_iff)
  then show ?thesis by (simp add: mustControllerID_def)
qed

lemma hex_decode_canonical [simp]:
  "canonicalHex 10 s \<Longrightarrow> hex_decode s = Inr (decodedHex s)"
  "canonicalHex 16 s \<Longrightarrow> hex_decode s = Inr (decodedHex s)"
  using canonicalHex_decode [of 5 s] canonicalHex_decode [of 8 s] by (auto dest: decodedHex_decode)

lemma parseHexUint_canonical [simp]:
  "canonicalHex 10 s \<Longrightarrow> parseHexUint s = Inr (be_word (replicate 3 0 @ decodedHex s))"
  "canonicalHex 16 s \<Longrightarrow> parseHexUint s = Inr (be_word (decodedHex s))"
  by (simp_all add: parseHexUint_def)

definition membershipOf :: "Crypto \<Rightarrow> uint64 \<Rightarrow> uint64 \<Rightarrow> NetworkID \<Rightarrow> Identity \<Rightarrow> CertificateOfMembership \<Rightarrow> bool" where
  "membershipOf cr timestamp delta networkID issuedTo c = (
     let qs = cmQualifiers c in
     map cqID qs = [0, 1, 2, 3, 4, 5, 6]
     \<and> map cqMaxDelta qs = [delta, 0, - 1, - 1, - 1, - 1, - 1]
     \<and> cqValue (qs ! 0) = timestamp
     \<and> hex_encode (be_bytes 8 (cqValue (qs ! 1))) = networkID
     \<and> hex_encode (drop 3 (be_bytes 8 (cqValue (qs ! 2)))) = idAddress issuedTo
     \<and> concat (map (\<lambda>q. be_bytes 8 (cqValue q)) (drop 3 qs))
         = take 32 (Sum384 cr (decodedHex (idAddress issuedTo) @ idPublicKey issuedTo)))"

lemma take_32_slices: "slice 0 8 h @ slice 8 16 h @ slice 16 24 h @ slice 24 32 h = take 32 h"
  by (simp add: slice_split flip: slice_0)

lemma NewCOM_Inr:
  assumes "NewCertificateOfMembership cr timestamp delta networkID issuedTo signer = Inr c"
    and "canonicalHex 16 networkID" "canonicalHex 10 (idAddress issuedTo)" "canonicalHex 10 (idAddress signer)"
  shows "membershipOf cr timestamp delta networkID issuedTo c \<and> COM_validate c = Inr ()
    \<and> length (cmQualifiers c) = 7 \<and> cmSignedBy c = idAddress signer \<and> idAddress signer = take 10 networkID
    \<and> Sign cr signer (signedPayload c) = Inr (cmSignature c)"
  using assms
  by (auto simp: NewCertificateOfMembership_def identityPublicHash_def rbind_eq_Inr membershipOf_def Let_def
      COM_validate_iff maxCOMQualifiers_def signedPayload_def take_32_slices simp flip: slice_0
      split: if_splits)

lemma NewCOM_total:
  assumes "keyPair cr signer" "canonicalHex 16 networkID" "canonicalHex 10 (idAddress issuedTo)"
    "idAddress signer = take 10 networkID"
  shows "\<exists>c. NewCertificateOfMembership cr timestamp delta networkID issuedTo signer = Inr c"
  using assms Sign_keyPair [OF assms(1)]
  by (simp add: NewCertificateOfMembership_def identityPublicHash_def rbind_eq_Inr Let_def)

lemma NewCOM_verifies:
  assumes "ed25519_law cr" "wfIdentity signer" "canonicalHex 16 networkID" "wfIdentity issuedTo"
    and new: "NewCertificateOfMembership cr timestamp delta networkID issuedTo signer = Inr c"
  shows "COM_Verify cr c networkID (Public signer) = Inr ()"
proof -
  note n = NewCOM_Inr [OF new assms(3)] assms(2,4)
  from com.issued_accepted [OF assms(1,2), of c "cmSignature c" networkID] n assms(3)
  show ?thesis by (simp add: wfIdentity_def)
qed

text \<open>
  Issued memberships: for a controller identity with a matching key pair and a network of that
  controller, \<^verbatim>\<open>NewCertificateOfMembership\<close> succeeds; the certificate names the time window, the
  network (no tolerance), the member's address and the first 32 bytes of the hash of its public
  identity; it verifies with the public identity of the controller, its encoding has 272 bytes and
  parses back to it.
\<close>

theorem com_issued_verifies:
  assumes "ed25519_law cr" "wfIdentity signer" "keyPair cr signer" "wfIdentity issuedTo"
    and "canonicalHex 16 networkID" "idAddress signer = take 10 networkID"
  shows "\<exists>c bs. NewCertificateOfMembership cr timestamp delta networkID issuedTo signer = Inr c
     \<and> membershipOf cr timestamp delta networkID issuedTo c
     \<and> COM_Verify cr c networkID (Public signer) = Inr ()
     \<and> COM_MarshalBinary c = Inr bs \<and> length bs = 272 \<and> ParseCertificateOfMembership bs = Inr c"
proof -
  from assms obtain c where c: "NewCertificateOfMembership cr timestamp delta networkID issuedTo signer = Inr c"
    using NewCOM_total [of cr signer networkID issuedTo timestamp delta] by (auto simp: wfIdentity_def)
  from NewCOM_Inr [OF c assms(5)] assms(2,4)
  have n: "membershipOf cr timestamp delta networkID issuedTo c" "COM_validate c = Inr ()"
    "length (cmQualifiers c) = 7" "Sign cr signer (signedPayload c) = Inr (cmSignature c)" "canonicalHex 10 (cmSignedBy c)"
    by (auto simp: wfIdentity_def)
  then obtain bs where "COM_MarshalBinary c = Inr bs" and "length bs = 272"
    using Sign_length [OF n(4)] by (simp add: COM_MarshalBinary_def signedPayload_def SignatureLength_def)
  then show ?thesis
    using c n Sign_length [OF n(4)] NewCOM_verifies [OF assms(1,2,5,4) c] com_codec.parse_marshal by blast
qed

theorem com_issued_verifies_witness:
  "\<exists>c. NewCertificateOfMembership toyCrypto 1000 60 toyNetworkID (toyIdentity 9) (toyIdentity 7) = Inr c
     \<and> COM_Verify toyCrypto c toyNetworkID (Public (toyIdentity 7)) = Inr ()"
proof -
  have "idAddress (toyIdentity 7) = take 10 toyNetworkID" by (simp add: toyIdentity_def toyNetworkID_def)
  from com_issued_verifies [OF toy_laws(1) toy_wf toy_keyPair toy_wf toyNetworkID_canonical this]
  show ?thesis by blast
qed

end
