(* ===== verification/Policy.thy ===== *)
theory Policy
  imports Rules Membership
begin

unbundle bit_operations_syntax

text \<open>
  \<^verbatim>\<open>internal/zerotier/networkconfig/policy_credentials.go\<close>: the signed capabilities and tags of a
  member.
\<close>

section \<open>Helpers\<close>

definition policySigningSentinel :: uint64 where "policySigningSentinel = 0x7f7f7f7f7f7f7f7f"
definition maxIssuedCapabilities :: nat where "maxIssuedCapabilities = 128"
definition maxIssuedTags :: nat where "maxIssuedTags = 128"
definition maxCapabilityRules :: nat where "maxCapabilityRules = 64"

definition nodeIDBytes :: "NodeID \<Rightarrow> bytes result" where
  "nodeIDBytes value =
     rbind (NodeID_Validate value) (\<lambda>_. case hex_decode value of
       Inl _ \<Rightarrow> Inl (Errorf ''node ID is not five bytes'')
     | Inr decoded \<Rightarrow> if length decoded \<noteq> 5 then Inl (Errorf ''node ID is not five bytes'') else Inr decoded)"

definition withPolicySentinels :: "bytes \<Rightarrow> bytes" where
  "withPolicySentinels payload = be_bytes 8 policySigningSentinel @ payload @ be_bytes 8 policySigningSentinel"

definition uint16Bytes :: "int \<Rightarrow> bytes" where
  "uint16Bytes value = be_bytes 2 (of_int value :: uint16)"

definition uint32Bytes :: "uint32 \<Rightarrow> bytes" where
  "uint32Bytes value = be_bytes 4 value"

definition policyCredentialBase :: "NetworkID \<Rightarrow> uint64 \<Rightarrow> uint32 \<Rightarrow> bytes result" where
  "policyCredentialBase networkID timestamp i =
     rbind (parseHexUint networkID) (\<lambda>networkValue.
     Inr (be_bytes 8 networkValue @ be_bytes 8 timestamp @ be_bytes 4 i))"

section \<open>Credentials\<close>

definition issueTag :: "Crypto \<Rightarrow> NetworkID \<Rightarrow> uint64 \<Rightarrow> NodeID \<Rightarrow> uint32 \<Rightarrow> uint32 \<Rightarrow> Identity \<Rightarrow> bytes result" where
  "issueTag cr networkID timestamp issuedTo i value signer =
     rbind (policyCredentialBase networkID timestamp i) (\<lambda>base.
     rbind (nodeIDBytes issuedTo) (\<lambda>issuedBytes.
     rbind (nodeIDBytes (idAddress signer)) (\<lambda>signerBytes.
     let base = base @ uint32Bytes value @ issuedBytes @ signerBytes in
     rbind (wrapErr ''sign tag %d: %w'' (Sign cr signer (withPolicySentinels (base @ [0, 0])))) (\<lambda>signature.
     Inr (base @ [1] @ uint16Bytes (int SignatureLength) @ signature @ [0, 0])))))"

definition issueCapability :: "Crypto \<Rightarrow> NetworkID \<Rightarrow> uint64 \<Rightarrow> NodeID \<Rightarrow> Capability \<Rightarrow> Identity \<Rightarrow> bytes result" where
  "issueCapability cr networkID timestamp issuedTo definition signer =
     (if length (cpRules definition) > maxCapabilityRules then Inl (Errorf ''capability %d exceeds %d rules'')
      else
        rbind (wrapErr ''capability %d: %w'' (SerializeRules (cpRules definition))) (\<lambda>rules.
        rbind (policyCredentialBase networkID timestamp (cpID definition)) (\<lambda>base.
        let base = base @ uint16Bytes (int (length (cpRules definition))) @ rules @ [1] in
        rbind (wrapErr ''sign capability %d: %w'' (Sign cr signer (withPolicySentinels (base @ [0, 0])))) (\<lambda>signature.
        rbind (nodeIDBytes issuedTo) (\<lambda>to.
        rbind (nodeIDBytes (idAddress signer)) (\<lambda>from.
        Inr (base @ to @ from @ [1] @ uint16Bytes (int SignatureLength) @ signature @ replicate 5 0 @ [0, 0])))))))"

text \<open>
  The maps the loops of \<^verbatim>\<open>issuePolicyCredentials\<close> build; a later entry replaces an earlier one with the
  same key.
\<close>

definition capabilityIDs :: "Network \<Rightarrow> Member \<Rightarrow> uint32 set" where
  "capabilityIDs network member = set (mbCapabilities member) \<union> set (map cpID (filter cpDefault (nwCapabilities network)))"

definition capabilityDefinitions :: "Network \<Rightarrow> (uint32 \<times> Capability) list" where
  "capabilityDefinitions network = rev (map (\<lambda>c. (cpID c, c)) (nwCapabilities network))"

definition tagValues :: "Network \<Rightarrow> Member \<Rightarrow> (uint32 \<times> uint32) list" where
  "tagValues network member =
     rev (map (\<lambda>t. (tvID t, tvValue t)) (mbTags member))
     @ rev (concat (map (\<lambda>d. case tdDefault d of None \<Rightarrow> [] | Some v \<Rightarrow> [(tdID d, v)]) (nwTags network)))"

definition orderedCapabilities :: "Network \<Rightarrow> Member \<Rightarrow> uint32 list" where
  "orderedCapabilities network member = take maxIssuedCapabilities (sorted_list_of_set (capabilityIDs network member))"

definition orderedTags :: "Network \<Rightarrow> Member \<Rightarrow> uint32 list" where
  "orderedTags network member = take maxIssuedTags (sorted_list_of_set (set (map fst (tagValues network member))))"

definition tagValue :: "Network \<Rightarrow> Member \<Rightarrow> uint32 \<Rightarrow> uint32" where
  "tagValue network member i = (case map_of (tagValues network member) i of Some v \<Rightarrow> v | None \<Rightarrow> 0)"

definition issuePolicyCredentials :: "Crypto \<Rightarrow> Network \<Rightarrow> Member \<Rightarrow> uint64 \<Rightarrow> Identity \<Rightarrow> (bytes \<times> bytes) result" where
  "issuePolicyCredentials cr network member timestamp signer =
     rbind (mapM (\<lambda>i. case map_of (capabilityDefinitions network) i of
         None \<Rightarrow> Inr []
       | Some definition \<Rightarrow> issueCapability cr (nwID network) timestamp (mbNodeID member) definition signer)
       (orderedCapabilities network member)) (\<lambda>capabilities.
     rbind (mapM (\<lambda>i. issueTag cr (nwID network) timestamp (mbNodeID member) i (tagValue network member i) signer)
       (orderedTags network member)) (\<lambda>tags.
     Inr (concat capabilities, concat tags)))"

section \<open>What is issued\<close>

lemma nodeIDBytes_canonical [simp]: "canonicalHex 10 i \<Longrightarrow> nodeIDBytes i = Inr (decodedHex i)"
  by (simp add: nodeIDBytes_def)

lemma policyCredentialBase_canonical [simp]:
  "canonicalHex 16 n \<Longrightarrow> policyCredentialBase n t i = Inr (decodedHex n @ be_bytes 8 t @ be_bytes 4 i)"
  by (simp add: policyCredentialBase_def)

lemma length_uint16Bytes [simp]: "length (uint16Bytes v) = 2"
  by (simp add: uint16Bytes_def)

text \<open>The wire form of a tag, and what makes it authentic.\<close>

definition tagCredential :: "Crypto \<Rightarrow> NetworkID \<Rightarrow> uint64 \<Rightarrow> NodeID \<Rightarrow> Identity \<Rightarrow> uint32 \<times> uint32 \<Rightarrow> bytes \<Rightarrow> bool" where
  "tagCredential cr networkID timestamp issuedTo signer tag bs = (
     length bs = 135 \<and> hex_encode (take 8 bs) = networkID \<and> be_word (slice 8 16 bs) = timestamp
     \<and> be_word (slice 16 20 bs) = fst tag \<and> be_word (slice 20 24 bs) = snd tag
     \<and> hex_encode (slice 24 29 bs) = issuedTo \<and> hex_encode (slice 29 34 bs) = idAddress signer
     \<and> slice 34 37 bs = [1, 0, 96] \<and> drop 133 bs = [0, 0]
     \<and> Verify cr (Public signer) (withPolicySentinels (take 34 bs @ [0, 0])) (slice 37 133 bs))"

definition capabilityCredential :: "Crypto \<Rightarrow> NetworkID \<Rightarrow> uint64 \<Rightarrow> NodeID \<Rightarrow> Identity \<Rightarrow> Capability \<Rightarrow> bytes \<Rightarrow> bool" where
  "capabilityCredential cr networkID timestamp issuedTo signer cap bs = (\<exists>rules signature.
     SerializeRules (cpRules cap) = Inr rules \<and> length (cpRules cap) \<le> maxCapabilityRules
     \<and> bs = decodedHex networkID @ be_bytes 8 timestamp @ be_bytes 4 (cpID cap)
         @ be_bytes 2 (of_nat (length (cpRules cap)) :: uint16) @ rules @ [1]
         @ decodedHex issuedTo @ decodedHex (idAddress signer) @ [1, 0, 96] @ signature @ replicate 5 0 @ [0, 0]
     \<and> length signature = 96
     \<and> Verify cr (Public signer) (withPolicySentinels (take (23 + length rules) bs @ [0, 0])) signature)"

lemma sigLen_bytes: "uint16Bytes (int SignatureLength) = [0, 96]"
proof -
  have "be_bytes 2 (w :: uint16) = [ucast (drop_bit 8 w), ucast w]" for w
    unfolding numeral_2_eq_2 by simp
  then show ?thesis by (simp add: uint16Bytes_def SignatureLength_def)
qed

lemma issueTag_credential:
  assumes "ed25519_law cr" "wfIdentity signer" "canonicalHex 16 networkID" "canonicalHex 10 issuedTo"
    and "issueTag cr networkID timestamp issuedTo i v signer = Inr bs"
  shows "tagCredential cr networkID timestamp issuedTo signer (i, v) bs"
proof -
  have a: "canonicalHex 10 (idAddress signer)" using assms(2) by (simp add: wfIdentity_def)
  define base where "base = decodedHex networkID @ be_bytes 8 timestamp @ be_bytes 4 i @ be_bytes 4 v
    @ decodedHex issuedTo @ decodedHex (idAddress signer)"
  have "issueTag cr networkID timestamp issuedTo i v signer
      = rbind (wrapErr ''sign tag %d: %w'' (Sign cr signer (withPolicySentinels (base @ [0, 0])))) (\<lambda>s.
          Inr (base @ [1, 0, 96] @ s @ [0, 0]))"
    using assms(3,4) a by (simp add: issueTag_def Let_def base_def uint32Bytes_def sigLen_bytes)
  with assms(5) obtain s where s: "Sign cr signer (withPolicySentinels (base @ [0, 0])) = Inr s"
    and bs: "bs = base @ [1, 0, 96] @ s @ [0, 0]"
    by (auto simp: rbind_eq_Inr)
  from Verify_Sign [OF assms(1,2) s] have l: "length s = 96"
    and v: "Verify cr (Public signer) (withPolicySentinels (base @ [0, 0])) s" by (simp_all add: SignatureLength_def)
  have lb: "length base = 34" using assms(3,4) a by (simp add: base_def)
  have "take 34 bs = base" using lb by (simp add: bs)
  moreover have "length bs = 135" using l lb by (simp add: bs)
  moreover have "slice 34 37 bs = [1, 0, 96]" by (rule slice_at [OF bs]) (simp_all add: lb)
  moreover have "slice 37 133 bs = s" by (rule slice_at [of _ "base @ [1, 0, 96]" _ "[0, 0]"]) (simp_all add: bs lb l)
  moreover have "drop 133 bs = [0, 0]" by (rule drop_at [of _ "base @ [1, 0, 96] @ s"]) (simp_all add: bs lb l)
  moreover have "take 8 bs = decodedHex networkID" "slice 8 16 bs = be_bytes 8 timestamp" "slice 16 20 bs = be_bytes 4 i"
    "slice 20 24 bs = be_bytes 4 v" "slice 24 29 bs = decodedHex issuedTo" "slice 29 34 bs = decodedHex (idAddress signer)"
    using assms(3,4) a by (simp_all add: bs base_def slice_def)
  ultimately show ?thesis using v assms(3,4) a by (simp add: tagCredential_def)
qed

lemma issueCapability_credential:
  assumes "ed25519_law cr" "wfIdentity signer" "canonicalHex 16 networkID" "canonicalHex 10 issuedTo"
    and "issueCapability cr networkID timestamp issuedTo cap signer = Inr bs"
  shows "capabilityCredential cr networkID timestamp issuedTo signer cap bs"
proof -
  have a: "canonicalHex 10 (idAddress signer)" using assms(2) by (simp add: wfIdentity_def)
  from assms(5) obtain rules where r: "SerializeRules (cpRules cap) = Inr rules"
    "length (cpRules cap) \<le> maxCapabilityRules"
    by (auto simp: issueCapability_def rbind_eq_Inr split: if_splits)
  define base where base: "base = decodedHex networkID @ be_bytes 8 timestamp @ be_bytes 4 (cpID cap)
         @ uint16Bytes (int (length (cpRules cap))) @ rules @ [1]"
  have "issueCapability cr networkID timestamp issuedTo cap signer
      = rbind (wrapErr ''sign capability %d: %w'' (Sign cr signer (withPolicySentinels (base @ [0, 0])))) (\<lambda>s.
          Inr (base @ decodedHex issuedTo @ decodedHex (idAddress signer) @ [1, 0, 96] @ s @ replicate 5 0 @ [0, 0]))"
    using assms(3,4) a r by (simp add: issueCapability_def Let_def base sigLen_bytes)
  with assms(5) obtain s where s: "Sign cr signer (withPolicySentinels (base @ [0, 0])) = Inr s"
    and bs: "bs = base @ decodedHex issuedTo @ decodedHex (idAddress signer) @ [1, 0, 96] @ s @ replicate 5 0 @ [0, 0]"
    by (auto simp: rbind_eq_Inr)
  have "length base = 23 + length rules" using assms(3) by (simp add: base)
  then have t: "take (23 + length rules) bs = base" by (simp add: bs)
  show ?thesis
    unfolding capabilityCredential_def
  proof (rule exI [of _ rules], rule exI [of _ s], intro conjI)
    show "bs = decodedHex networkID @ be_bytes 8 timestamp @ be_bytes 4 (cpID cap)
         @ be_bytes 2 (of_nat (length (cpRules cap)) :: uint16) @ rules @ [1]
         @ decodedHex issuedTo @ decodedHex (idAddress signer) @ [1, 0, 96] @ s @ replicate 5 0 @ [0, 0]"
      by (simp add: bs base uint16Bytes_def)
  qed (use Verify_Sign [OF assms(1,2) s] r in \<open>simp_all add: t SignatureLength_def\<close>)
qed

text \<open>The credentials a member is due: the defined capabilities and the effective tags, by ascending ID.\<close>

definition dueCapabilities :: "Network \<Rightarrow> Member \<Rightarrow> Capability list" where
  "dueCapabilities network member =
     concat (map (\<lambda>i. case map_of (capabilityDefinitions network) i of None \<Rightarrow> [] | Some c \<Rightarrow> [c])
       (orderedCapabilities network member))"

definition dueTags :: "Network \<Rightarrow> Member \<Rightarrow> (uint32 \<times> uint32) list" where
  "dueTags network member = map (\<lambda>i. (i, tagValue network member i)) (orderedTags network member)"

lemma mapM_optional:
  assumes "mapM (\<lambda>i. case m i of None \<Rightarrow> Inr [] | Some c \<Rightarrow> f c) ids = Inr parts"
    and "\<And>c bs. f c = Inr bs \<Longrightarrow> P c bs"
  shows "\<exists>recs. concat parts = concat recs
    \<and> list_all2 P (concat (map (\<lambda>i. case m i of None \<Rightarrow> [] | Some c \<Rightarrow> [c]) ids)) recs"
  using assms(1)
proof (induction ids arbitrary: parts)
  case (Cons i ids)
  then obtain part rest where p: "parts = part # rest" "(case m i of None \<Rightarrow> Inr [] | Some c \<Rightarrow> f c) = Inr part"
    "mapM (\<lambda>i. case m i of None \<Rightarrow> Inr [] | Some c \<Rightarrow> f c) ids = Inr rest"
    by (auto simp: rbind_eq_Inr)
  from Cons.IH [OF p(3)] obtain recs where recs: "concat rest = concat recs"
    "list_all2 P (concat (map (\<lambda>i. case m i of None \<Rightarrow> [] | Some c \<Rightarrow> [c]) ids)) recs" by blast
  show ?case
  proof (cases "m i")
    case None
    with p recs show ?thesis by auto
  next
    case (Some c)
    with p recs assms(2) show ?thesis by (auto intro!: exI [of _ "part # recs"])
  qed
qed simp

lemma tagValues_lookup:
  assumes "distinct (map tvID (mbTags member))" "distinct (map tdID (nwTags network))"
    and "map_of (tagValues network member) i = Some v"
  shows "(\<exists>t \<in> set (mbTags member). tvID t = i \<and> tvValue t = v)
    \<or> i \<notin> tvID ` set (mbTags member) \<and> (\<exists>d \<in> set (nwTags network). tdID d = i \<and> tdDefault d = Some v)"
proof -
  from assms(3) consider "map_of (rev (map (\<lambda>t. (tvID t, tvValue t)) (mbTags member))) i = Some v"
    | "map_of (rev (map (\<lambda>t. (tvID t, tvValue t)) (mbTags member))) i = None"
      "map_of (rev (concat (map (\<lambda>d. case tdDefault d of None \<Rightarrow> [] | Some v \<Rightarrow> [(tdID d, v)]) (nwTags network)))) i = Some v"
    by (auto simp: tagValues_def map_add_def split: option.splits)
  then show ?thesis
  proof cases
    case 1
    from map_of_SomeD [OF this] show ?thesis by force
  next
    case 2
    from 2(1) have "i \<notin> tvID ` set (mbTags member)" by (force simp: map_of_eq_None_iff)
    with map_of_SomeD [OF 2(2)] show ?thesis by (auto split: option.splits)
  qed
qed

lemma dueTags_sound:
  assumes "distinct (map tvID (mbTags member))" "distinct (map tdID (nwTags network))"
    and "(i, v) \<in> set (dueTags network member)"
  shows "(\<exists>t \<in> set (mbTags member). tvID t = i \<and> tvValue t = v)
    \<or> i \<notin> tvID ` set (mbTags member) \<and> (\<exists>d \<in> set (nwTags network). tdID d = i \<and> tdDefault d = Some v)"
proof -
  from assms(3) have "i \<in> fst ` set (tagValues network member)" "v = tagValue network member i"
    by (auto simp: dueTags_def orderedTags_def dest: in_set_takeD)
  then have "map_of (tagValues network member) i = Some v"
    by (auto simp: tagValue_def split: option.splits dest: weak_map_of_SomeI)
  then show ?thesis by (rule tagValues_lookup [OF assms(1,2)])
qed

lemma mapM_total: "(\<And>x. \<exists>y. f x = Inr y) \<Longrightarrow> \<exists>ys. mapM f xs = Inr ys"
proof (induction xs)
  case (Cons x xs)
  then obtain y ys where "f x = Inr y" "mapM f xs = Inr ys" by blast
  then show ?case by simp
qed simp

lemma issueTag_total:
  assumes "keyPair cr signer" "canonicalHex 16 networkID" "canonicalHex 10 issuedTo" "canonicalHex 10 (idAddress signer)"
  shows "\<exists>bs. issueTag cr networkID timestamp issuedTo i v signer = Inr bs"
  using Sign_keyPair [OF assms(1)] assms(2-4) by (simp add: issueTag_def rbind_eq_Inr Let_def)

lemma issueCapability_total:
  assumes "keyPair cr signer" "canonicalHex 16 networkID" "canonicalHex 10 issuedTo" "canonicalHex 10 (idAddress signer)"
    and "length (cpRules cap) \<le> maxCapabilityRules" "isOk (SerializeRules (cpRules cap))"
  shows "\<exists>bs. issueCapability cr networkID timestamp issuedTo cap signer = Inr bs"
proof -
  obtain rules where "SerializeRules (cpRules cap) = Inr rules" using assms(6) by (auto simp: isOk_iff)
  then show ?thesis
    using Sign_keyPair [OF assms(1)] assms(2-5) by (simp add: issueCapability_def rbind_eq_Inr Let_def)
qed

lemma issuePolicyCredentials_total:
  assumes "keyPair cr signer" "canonicalHex 16 (nwID network)" "canonicalHex 10 (mbNodeID member)"
    and "canonicalHex 10 (idAddress signer)"
    and "\<forall>c \<in> set (nwCapabilities network). length (cpRules c) \<le> maxCapabilityRules \<and> isOk (SerializeRules (cpRules c))"
  shows "\<exists>r. issuePolicyCredentials cr network member timestamp signer = Inr r"
proof -
  define f where "f = (\<lambda>i. case map_of (capabilityDefinitions network) i of None \<Rightarrow> Inr []
      | Some d \<Rightarrow> issueCapability cr (nwID network) timestamp (mbNodeID member) d signer)"
  have "\<exists>bs. f i = Inr bs" for i
    using issueCapability_total [OF assms(1-4)] assms(5)
    by (auto simp: f_def capabilityDefinitions_def split: option.splits dest!: map_of_SomeD)
  from mapM_total [of f, OF this] obtain cs where "mapM f (orderedCapabilities network member) = Inr cs" by blast
  moreover obtain ts where "mapM (\<lambda>i. issueTag cr (nwID network) timestamp (mbNodeID member) i (tagValue network member i) signer)
      (orderedTags network member) = Inr ts"
    using mapM_total [of "\<lambda>i. issueTag cr (nwID network) timestamp (mbNodeID member) i (tagValue network member i) signer",
        OF issueTag_total [OF assms(1-4)]] by blast
  ultimately show ?thesis by (simp add: issuePolicyCredentials_def f_def)
qed

text \<open>
  Policy credentials: what \<^verbatim>\<open>issuePolicyCredentials\<close> returns is the concatenation, by ascending ID
  and at most 128 each, of one capability credential for every defined capability the member has or
  inherits as a default, and one tag credential for every tag of the member or default of the
  network, the member's value winning; every credential is bound to the network, the member and the
  controller and its signature verifies with the controller's public identity.
\<close>

theorem policy_credentials_exact:
  assumes "ed25519_law cr" "wfIdentity signer" "canonicalHex 16 (nwID network)" "canonicalHex 10 (mbNodeID member)"
    and "distinct (map tvID (mbTags member))" "distinct (map tdID (nwTags network))"
    and "issuePolicyCredentials cr network member timestamp signer = Inr (caps, tags)"
  shows "(\<exists>recs. caps = concat recs \<and> list_all2 (capabilityCredential cr (nwID network) timestamp (mbNodeID member) signer)
            (dueCapabilities network member) recs)
    \<and> (\<exists>recs. tags = concat recs \<and> list_all2 (tagCredential cr (nwID network) timestamp (mbNodeID member) signer)
            (dueTags network member) recs)
    \<and> sorted (map fst (dueTags network member)) \<and> distinct (map fst (dueTags network member))
    \<and> length (dueTags network member) \<le> maxIssuedTags \<and> length (dueCapabilities network member) \<le> maxIssuedCapabilities
    \<and> (\<forall>(i, v) \<in> set (dueTags network member). (\<exists>t \<in> set (mbTags member). tvID t = i \<and> tvValue t = v)
        \<or> i \<notin> tvID ` set (mbTags member) \<and> (\<exists>d \<in> set (nwTags network). tdID d = i \<and> tdDefault d = Some v))"
proof (intro conjI)
  from assms(7) obtain cs ts
    where cs: "mapM (\<lambda>i. case map_of (capabilityDefinitions network) i of None \<Rightarrow> Inr []
         | Some d \<Rightarrow> issueCapability cr (nwID network) timestamp (mbNodeID member) d signer)
         (orderedCapabilities network member) = Inr cs"
      and ts: "mapM (\<lambda>i. issueTag cr (nwID network) timestamp (mbNodeID member) i (tagValue network member i) signer)
         (orderedTags network member) = Inr ts"
      and r: "caps = concat cs" "tags = concat ts"
    by (auto simp: issuePolicyCredentials_def rbind_eq_Inr)
  show "\<exists>recs. caps = concat recs \<and> list_all2 (capabilityCredential cr (nwID network) timestamp (mbNodeID member) signer)
      (dueCapabilities network member) recs"
    using mapM_optional [OF cs, of "capabilityCredential cr (nwID network) timestamp (mbNodeID member) signer"]
      issueCapability_credential [OF assms(1-4)]
    by (auto simp: r dueCapabilities_def)
  have "list_all2 (tagCredential cr (nwID network) timestamp (mbNodeID member) signer) (dueTags network member) ts"
    using ts issueTag_credential [OF assms(1-4)]
    by (auto simp: mapM_Inr_iff dueTags_def list_all2_map1 elim: list_all2_mono)
  then show "\<exists>recs. tags = concat recs \<and> list_all2 (tagCredential cr (nwID network) timestamp (mbNodeID member) signer)
      (dueTags network member) recs" using r by blast
  have o: "map fst (dueTags network member) = orderedTags network member" by (simp add: dueTags_def comp_def)
  show "sorted (map fst (dueTags network member))" "distinct (map fst (dueTags network member))"
    unfolding o by (simp_all add: orderedTags_def sorted_wrt_take)
  show "length (dueTags network member) \<le> maxIssuedTags" by (simp add: dueTags_def orderedTags_def)
  have "length (concat (map (\<lambda>i. case m i of None \<Rightarrow> [] | Some c \<Rightarrow> [c]) xs)) \<le> length xs" for m :: "uint32 \<Rightarrow> Capability option" and xs
    by (induction xs) (auto split: option.splits)
  from this [of "map_of (capabilityDefinitions network)" "orderedCapabilities network member"]
  show "length (dueCapabilities network member) \<le> maxIssuedCapabilities"
    by (simp add: dueCapabilities_def orderedCapabilities_def)
  show "\<forall>(i, v) \<in> set (dueTags network member). (\<exists>t \<in> set (mbTags member). tvID t = i \<and> tvValue t = v)
      \<or> i \<notin> tvID ` set (mbTags member) \<and> (\<exists>d \<in> set (nwTags network). tdID d = i \<and> tdDefault d = Some v)"
    using dueTags_sound [OF assms(5,6)] by blast
qed

text \<open>A network with a defaulted tag and a member with a tag of its own.\<close>

definition toyPolicyNetwork :: Network where
  "toyPolicyNetwork = (NewNetwork toyNetworkID 1)\<lparr>nwTags := [\<lparr>tdID = 3, tdDefault = Some 30\<rparr>, \<lparr>tdID = 5, tdDefault = Some 50\<rparr>]\<rparr>"

definition toyPolicyMember :: Member where
  "toyPolicyMember = (NewMember toyNetworkID ''8056c2e21c'' 1)\<lparr>mbTags := [\<lparr>tvID = 5, tvValue = 55\<rparr>]\<rparr>"

lemma toyPolicy_facts:
  "nwID toyPolicyNetwork = toyNetworkID" "mbNodeID toyPolicyMember = ''8056c2e21c''" "canonicalHex 10 ''8056c2e21c''"
  "nwCapabilities toyPolicyNetwork = []" "distinct (map tvID (mbTags toyPolicyMember))"
  "distinct (map tdID (nwTags toyPolicyNetwork))"
  by (simp_all add: toyPolicyNetwork_def toyPolicyMember_def NewNetwork_def NewMember_def canonicalHex_def lowerhex_def)

theorem policy_credentials_exact_witness:
  "\<exists>caps tags recs. issuePolicyCredentials toyCrypto toyPolicyNetwork toyPolicyMember 9 (toyIdentity 7) = Inr (caps, tags)
     \<and> tags = concat recs
     \<and> list_all2 (tagCredential toyCrypto toyNetworkID 9 ''8056c2e21c'' (toyIdentity 7)) [(3, 30), (5, 55)] recs"
proof -
  have a: "canonicalHex 10 (idAddress (toyIdentity 7))" using toy_wf [of 7] by (simp add: wfIdentity_def)
  have n: "canonicalHex 16 (nwID toyPolicyNetwork)" "canonicalHex 10 (mbNodeID toyPolicyMember)"
    by (simp_all add: toyPolicy_facts toyNetworkID_canonical)
  obtain caps tags where i: "issuePolicyCredentials toyCrypto toyPolicyNetwork toyPolicyMember 9 (toyIdentity 7) = Inr (caps, tags)"
    using issuePolicyCredentials_total [OF toy_keyPair n a, where timestamp = 9] by (auto simp: toyPolicy_facts)
  have "dueTags toyPolicyNetwork toyPolicyMember = [(3, 30), (5, 55)]"
    by (simp add: dueTags_def orderedTags_def tagValue_def tagValues_def toyPolicyNetwork_def toyPolicyMember_def
        NewNetwork_def NewMember_def maxIssuedTags_def)
  with policy_credentials_exact [OF toy_laws(1) toy_wf n toyPolicy_facts(5,6) i] i
  show ?thesis by (auto simp: toyPolicy_facts)
qed

end
