(* ===== verification/Ownership.thy ===== *)
theory Ownership
  imports Membership
begin

unbundle bit_operations_syntax

text \<open>
  \<^verbatim>\<open>internal/zerotier/networkconfig/ownership.go\<close>: the certificate of ownership (COO), the controller's
  signed statement of the addresses a member owns.
\<close>

section \<open>The certificate\<close>

definition maxOwnershipThings :: nat where "maxOwnershipThings = 16"
definition ownershipSentinel :: uint64 where "ownershipSentinel = 0x7f7f7f7f7f7f7f7f"
definition ownershipCrypto :: byte where "ownershipCrypto = 1"
definition ownershipThingIPv4 :: byte where "ownershipThingIPv4 = 2"
definition ownershipThingIPv6 :: byte where "ownershipThingIPv6 = 3"

lemmas ownership_consts = maxOwnershipThings_def ownershipSentinel_def ownershipCrypto_def
  ownershipThingIPv4_def ownershipThingIPv6_def SignatureLength_def

record OwnershipThing =
  otType :: byte
  otValue :: bytes

record CertificateOfOwnership =
  coNetworkID :: NetworkID
  coTimestamp :: uint64
  coFlags :: uint64
  coID :: uint32
  coThings :: "OwnershipThing list"
  coIssuedTo :: NodeID
  coSignedBy :: NodeID
  coSignature :: Signature

definition thingBytes :: "OwnershipThing \<Rightarrow> bytes" where
  "thingBytes t = otType t # otValue t"

definition appendCore :: "CertificateOfOwnership \<Rightarrow> bytes" where
  "appendCore c = decodedHex (coNetworkID c) @ be_bytes 8 (coTimestamp c) @ be_bytes 8 (coFlags c)
     @ be_bytes 4 (coID c) @ be_bytes 2 (of_nat (length (coThings c)) :: uint16)
     @ concat (map thingBytes (coThings c)) @ decodedHex (coIssuedTo c) @ decodedHex (coSignedBy c)"

definition signingPayload :: "CertificateOfOwnership \<Rightarrow> bytes" where
  "signingPayload c = be_bytes 8 ownershipSentinel @ appendCore c @ be_bytes 2 (0 :: uint16)
     @ be_bytes 8 ownershipSentinel"

definition COO_validate :: "CertificateOfOwnership \<Rightarrow> unit result" where
  "COO_validate c =
     rbind (NetworkID_Validate (coNetworkID c)) (\<lambda>_.
     rbind (NodeID_Validate (coIssuedTo c)) (\<lambda>_.
     rbind (NodeID_Validate (coSignedBy c)) (\<lambda>_.
     if length (coThings c) = 0 \<or> length (coThings c) > maxOwnershipThings
     then Inl (Errorf ''ownership certificate must contain between 1 and %d things'')
     else checkAll (\<lambda>thing. if otType thing \<noteq> ownershipThingIPv4 \<and> otType thing \<noteq> ownershipThingIPv6
       then Inl (Errorf ''ownership thing %d has unsupported type %d'') else Inr ()) (coThings c))))"

text \<open>One iteration of the constructor's loop.\<close>

definition thingOf :: "Addr \<Rightarrow> OwnershipThing result" where
  "thingOf address =
     (if Is4 address then rbind (As4 address) (\<lambda>value.
        Inr \<lparr> otType = ownershipThingIPv4, otValue = value @ replicate 12 0 \<rparr>)
      else if Is6 address then Inr \<lparr> otType = ownershipThingIPv6, otValue = As16 address \<rparr>
      else Inl (Errorf ''ownership address %d is invalid''))"

definition NewCertificateOfOwnership :: "Crypto \<Rightarrow> NetworkID \<Rightarrow> uint64 \<Rightarrow> uint32 \<Rightarrow> NodeID \<Rightarrow> Addr list
    \<Rightarrow> Identity \<Rightarrow> CertificateOfOwnership result" where
  "NewCertificateOfOwnership cr networkID timestamp i issuedTo addresses signer =
     (if length addresses = 0 \<or> length addresses > maxOwnershipThings
      then Inl (Errorf ''ownership certificate requires between 1 and %d addresses'')
      else if idAddress signer \<noteq> mustControllerID networkID
      then Inl (Errorf ''ownership signer is not the network controller'')
      else
        rbind (mapM thingOf addresses) (\<lambda>things.
        let certificate = \<lparr> coNetworkID = networkID, coTimestamp = timestamp, coFlags = 0, coID = i,
              coThings = things, coIssuedTo = issuedTo, coSignedBy = idAddress signer,
              coSignature = replicate SignatureLength 0 \<rparr> in
        rbind (wrapErr ''sign ownership certificate: %w'' (Sign cr signer (signingPayload certificate))) (\<lambda>signature.
        Inr (certificate\<lparr>coSignature := signature\<rparr>))))"

definition COO_Verify :: "Crypto \<Rightarrow> CertificateOfOwnership \<Rightarrow> Identity \<Rightarrow> unit result" where
  "COO_Verify cr c signer =
     rbind (COO_validate c) (\<lambda>_.
     if coSignedBy c \<noteq> mustControllerID (coNetworkID c)
     then Inl (Errorf ''ownership certificate was not signed by the network controller'')
     else if idAddress signer \<noteq> coSignedBy c
     then Inl (Errorf ''provided signer identity does not match ownership signer'')
     else if \<not> Verify cr signer (signingPayload c) (coSignature c)
     then Inl (Errorf ''invalid ownership certificate signature'')
     else Inr ())"

definition ownsThing :: "Addr \<Rightarrow> OwnershipThing \<Rightarrow> bool" where
  "ownsThing address thing =
     ((Is4 address \<and> otType thing = ownershipThingIPv4
         \<and> (case As4 address of Inr value \<Rightarrow> take 4 (otValue thing) = value | Inl _ \<Rightarrow> False))
      \<or> (Is6 address \<and> otType thing = ownershipThingIPv6 \<and> otValue thing = As16 address))"

definition Owns :: "CertificateOfOwnership \<Rightarrow> Addr \<Rightarrow> bool" where
  "Owns c address = list_ex (ownsThing address) (coThings c)"

definition COO_MarshalBinary :: "CertificateOfOwnership \<Rightarrow> bytes result" where
  "COO_MarshalBinary c =
     rbind (COO_validate c) (\<lambda>_.
     Inr (appendCore c @ [ownershipCrypto] @ be_bytes 2 (of_nat SignatureLength :: uint16) @ coSignature c
       @ be_bytes 2 (0 :: uint16)))"

fun parseThings :: "bytes \<Rightarrow> nat \<Rightarrow> nat \<Rightarrow> OwnershipThing list" where
  "parseThings serialized offset 0 = []"
| "parseThings serialized offset (Suc count) =
     \<lparr> otType = serialized ! offset, otValue = slice (offset + 1) (offset + 17) serialized \<rparr>
     # parseThings serialized (offset + 17) count"

definition ParseCertificateOfOwnership :: "bytes \<Rightarrow> CertificateOfOwnership result" where
  "ParseCertificateOfOwnership serialized =
     (let fixedPrefix = 8 + 8 + 8 + 4 + 2 in
      if length serialized < fixedPrefix + 5 + 5 + 1 + 2 + SignatureLength + 2
      then Inl (Errorf ''ownership certificate is truncated'')
      else
        rbind (ParseNetworkID (hex_encode (take 8 serialized))) (\<lambda>networkID.
        let count = unat (be_word (slice 28 30 serialized) :: uint16) in
        if count = 0 \<or> count > maxOwnershipThings then Inl (Errorf ''invalid ownership thing count %d'')
        else if length serialized < fixedPrefix + count * 17 + 5 + 5 + 1 + 2 + SignatureLength + 2
        then Inl (Errorf ''ownership certificate things are truncated'')
        else
          let offset = fixedPrefix + count * 17 in
          rbind (ParseNodeID (hex_encode (slice offset (offset + 5) serialized))) (\<lambda>issuedTo.
          rbind (ParseNodeID (hex_encode (slice (offset + 5) (offset + 10) serialized))) (\<lambda>signedBy.
          if serialized ! (offset + 10) \<noteq> ownershipCrypto
            \<or> (be_word (slice (offset + 11) (offset + 13) serialized) :: uint16) \<noteq> of_nat SignatureLength
          then Inl (Errorf ''unsupported ownership signature'')
          else
            let certificate = \<lparr> coNetworkID = networkID, coTimestamp = be_word (slice 8 16 serialized),
                  coFlags = be_word (slice 16 24 serialized), coID = be_word (slice 24 28 serialized),
                  coThings = parseThings serialized fixedPrefix count, coIssuedTo = issuedTo, coSignedBy = signedBy,
                  coSignature = slice (offset + 13) (offset + 13 + SignatureLength) serialized \<rparr>;
                offset = offset + 13 + SignatureLength;
                extraLength = unat (be_word (slice offset (offset + 2) serialized) :: uint16) in
            if offset + 2 + extraLength \<noteq> length serialized
            then Inl (Errorf ''invalid ownership additional-fields length'')
            else if extraLength \<noteq> 0 then Inl (Errorf ''ownership additional fields are not supported'')
            else rbind (COO_validate certificate) (\<lambda>_. Inr certificate)))))"

section \<open>Encoding\<close>

lemma thingBytes_simps [simp]: "thingBytes \<lparr> otType = t, otValue = v \<rparr> = t # v"
  by (simp add: thingBytes_def)

definition wfThings :: "OwnershipThing list \<Rightarrow> bool" where
  "wfThings ts = list_all (\<lambda>t. length (otValue t) = 16) ts"

lemma length_thingBytes: "wfThings ts \<Longrightarrow> length (concat (map thingBytes ts)) = length ts * 17"
  by (induction ts) (auto simp: wfThings_def thingBytes_def)

lemma length_parseThings [simp]: "length (parseThings s off n) = n"
  by (induction n arbitrary: off) auto

lemma parseThings_bytes:
  "wfThings ts \<Longrightarrow> length p = off \<Longrightarrow> parseThings (p @ concat (map thingBytes ts) @ r) off (length ts) = ts"
proof (induction ts arbitrary: p off)
  case (Cons t ts)
  from Cons.IH [of "p @ thingBytes t" "off + 17"] Cons.prems show ?case
    by (cases t) (simp add: slice_def nth_append wfThings_def)
qed simp

lemma nth_slice: "i < length s \<Longrightarrow> j = Suc i \<Longrightarrow> slice i j s = [s ! i]"
  by (simp add: slice_def take_Suc_conv_app_nth)

lemma parseThings_inverse:
  "off + 17 * n \<le> length s \<Longrightarrow> concat (map thingBytes (parseThings s off n)) = slice off (off + 17 * n) s
     \<and> wfThings (parseThings s off n)"
proof (induction n arbitrary: off)
  case (Suc n)
  have "slice off (off + 1) s = [s ! off]" using Suc.prems by (simp add: nth_slice)
  moreover have "slice off (off + 1) s @ slice (off + 1) (off + 17) s @ slice (off + 17) (off + 17 * Suc n) s
      = slice off (off + 17 * Suc n) s"
    by (simp add: slice_split)
  moreover have "concat (map thingBytes (parseThings s (off + 17) n)) = slice (off + 17) (off + 17 * Suc n) s
      \<and> wfThings (parseThings s (off + 17) n)"
    using Suc.IH [of "off + 17"] Suc.prems by (simp add: add.assoc)
  ultimately show ?case
    using Suc.prems by (simp add: wfThings_def)
qed (simp add: slice_def wfThings_def)

lemma COO_validate_iff: "COO_validate c = Inr u \<longleftrightarrow>
    canonicalHex 16 (coNetworkID c) \<and> canonicalHex 10 (coIssuedTo c) \<and> canonicalHex 10 (coSignedBy c)
    \<and> coThings c \<noteq> [] \<and> length (coThings c) \<le> maxOwnershipThings
    \<and> (\<forall>t \<in> set (coThings c). otType t = ownershipThingIPv4 \<or> otType t = ownershipThingIPv6)"
  by (auto simp: COO_validate_def rbind_eq_Inr)

definition wfCOO :: "CertificateOfOwnership \<Rightarrow> bool" where
  "wfCOO c = (wfThings (coThings c) \<and> length (coSignature c) = SignatureLength)"

lemma ParseCOO_Marshal:
  assumes "wfCOO c" "COO_MarshalBinary c = Inr bs"
  shows "ParseCertificateOfOwnership bs = Inr c"
proof -
  define n where "n = length (coThings c)"
  define th where "th = concat (map thingBytes (coThings c))"
  from assms(2) have v: "COO_validate c = Inr ()" and bs: "bs = decodedHex (coNetworkID c) @ be_bytes 8 (coTimestamp c)
      @ be_bytes 8 (coFlags c) @ be_bytes 4 (coID c) @ be_bytes 2 (of_nat n :: uint16) @ th
      @ decodedHex (coIssuedTo c) @ decodedHex (coSignedBy c) @ [ownershipCrypto]
      @ be_bytes 2 (of_nat SignatureLength :: uint16) @ coSignature c @ be_bytes 2 (0 :: uint16)"
    by (auto simp: COO_MarshalBinary_def rbind_eq_Inr appendCore_def n_def th_def)
  from v have q: "n \<noteq> 0" "n \<le> 16" "canonicalHex 16 (coNetworkID c)" "canonicalHex 10 (coIssuedTo c)"
    "canonicalHex 10 (coSignedBy c)" by (auto simp: COO_validate_iff maxOwnershipThings_def n_def)
  have l: "length th = n * 17" "length (coSignature c) = 96" "wfThings (coThings c)"
    using assms(1) by (simp_all add: wfCOO_def th_def n_def length_thingBytes SignatureLength_def)
  have c: "\<lparr> coNetworkID = coNetworkID c, coTimestamp = coTimestamp c, coFlags = coFlags c, coID = coID c,
      coThings = coThings c, coIssuedTo = coIssuedTo c, coSignedBy = coSignedBy c, coSignature = coSignature c \<rparr> = c"
    by simp
  have p: "parseThings bs 30 n = coThings c"
    unfolding bs th_def n_def using l(3) q
      parseThings_bytes [of "coThings c" "decodedHex (coNetworkID c) @ be_bytes 8 (coTimestamp c)
      @ be_bytes 8 (coFlags c) @ be_bytes 4 (coID c) @ be_bytes 2 (of_nat (length (coThings c)) :: uint16)" 30]
    by simp
  have len: "length bs = 30 + n * 17 + 111" using l q by (simp add: bs)
  have f: "take 8 bs = decodedHex (coNetworkID c)" "slice 8 16 bs = be_bytes 8 (coTimestamp c)"
    "slice 16 24 bs = be_bytes 8 (coFlags c)" "slice 24 28 bs = be_bytes 4 (coID c)"
    "slice 28 30 bs = be_bytes 2 (of_nat n :: uint16)"
    using q by (simp_all add: bs slice_def)
  have g: "slice (30 + n * 17) (35 + n * 17) bs = decodedHex (coIssuedTo c)"
    "slice (35 + n * 17) (40 + n * 17) bs = decodedHex (coSignedBy c)"
    "bs ! (40 + n * 17) = ownershipCrypto"
    "slice (41 + n * 17) (43 + n * 17) bs = be_bytes 2 (of_nat SignatureLength :: uint16)"
    "slice (43 + n * 17) (139 + n * 17) bs = coSignature c"
    "slice (139 + n * 17) (141 + n * 17) bs = be_bytes 2 (0 :: uint16)"
    using q l by (simp_all add: bs slice_def nth_append)
  show ?thesis
    unfolding ParseCertificateOfOwnership_def Let_def
    using q v by (simp add: c p f g len maxOwnershipThings_def SignatureLength_def unat_small16)
qed

lemma ParseCOO_Inr:
  assumes "ParseCertificateOfOwnership bs = Inr c"
  shows "wfCOO c \<and> COO_MarshalBinary c = Inr bs"
proof -
  define n where "n = unat (be_word (slice 28 30 bs) :: uint16)"
  define k where "k = 30 + n * 17"
  from assms have len: "length bs = k + 111" and v: "COO_validate c = Inr ()"
    and b: "bs ! (k + 10) = ownershipCrypto" "(be_word (slice (k + 11) (k + 13) bs) :: uint16) = of_nat SignatureLength"
    "unat (be_word (slice (k + 109) (k + 111) bs) :: uint16) = 0"
    and c: "c = \<lparr> coNetworkID = hex_encode (take 8 bs), coTimestamp = be_word (slice 8 16 bs),
        coFlags = be_word (slice 16 24 bs), coID = be_word (slice 24 28 bs), coThings = parseThings bs 30 n,
        coIssuedTo = hex_encode (slice k (k + 5) bs), coSignedBy = hex_encode (slice (k + 5) (k + 10) bs),
        coSignature = slice (k + 13) (k + 109) bs \<rparr>"
    by (auto simp: ParseCertificateOfOwnership_def Let_def n_def k_def rbind_eq_Inr ParseNodeID_iff ParseNetworkID_iff
        SignatureLength_def add.assoc add.commute [of _ "_ * 17"] split: if_splits)
  have z: "(be_word (slice (k + 109) (k + 111) bs) :: uint16) = 0" using b(3) by (simp add: unat_eq_zero)
  have "be_bytes 2 (of_nat n :: uint16) = slice 28 30 bs" using len by (simp add: n_def k_def)
  moreover have "be_bytes 2 (of_nat SignatureLength :: uint16) = slice (k + 11) (k + 13) bs"
    using len by (simp flip: b(2))
  moreover have "be_bytes 2 (0 :: uint16) = slice (k + 109) (k + 111) bs"
    using len be_bytes_be_word_fixed(1) [of "slice (k + 109) (k + 111) bs", unfolded z] by simp
  moreover have "[ownershipCrypto] = slice (k + 10) (k + 11) bs"
    using len b(1) by (simp add: nth_slice)
  moreover have "concat (map thingBytes (parseThings bs 30 n)) = slice 30 k bs" and "wfThings (parseThings bs 30 n)"
    using len parseThings_inverse [of 30 n bs] by (simp_all add: k_def mult.commute)
  moreover have "bs = take 8 bs @ slice 8 16 bs @ slice 16 24 bs @ slice 24 28 bs @ slice 28 30 bs @ slice 30 k bs
      @ slice k (k + 5) bs @ slice (k + 5) (k + 10) bs @ slice (k + 10) (k + 11) bs @ slice (k + 11) (k + 13) bs
      @ slice (k + 13) (k + 109) bs @ slice (k + 109) (k + 111) bs"
    using len by (simp add: slice_split k_def flip: slice_0) (simp add: slice_def)
  ultimately show ?thesis
    using v len by (simp add: COO_MarshalBinary_def appendCore_def wfCOO_def c k_def SignatureLength_def)
qed

interpretation coo_codec: codec COO_MarshalBinary ParseCertificateOfOwnership wfCOO
  by unfold_locales (auto intro: ParseCOO_Marshal dest: ParseCOO_Inr)

interpretation coo: signed_document signingPayload coSignature "\<lambda>c s. c\<lparr>coSignature := s\<rparr>" coSignedBy
    "\<lambda>c. COO_validate c = Inr () \<and> coSignedBy c = mustControllerID (coNetworkID c)"
    "\<lambda>cr c i. COO_Verify cr c i = Inr ()"
  by unfold_locales (auto simp: signingPayload_def appendCore_def COO_validate_iff COO_Verify_def rbind_eq_Inr)

text \<open>
  Ownership certificates on the wire: \<^verbatim>\<open>ParseCertificateOfOwnership\<close> accepts exactly the bytes
  \<^verbatim>\<open>MarshalBinary\<close> produces for certificates with 16-byte things and a 96-byte signature, and gives
  back the certificate.
\<close>

theorem coo_roundtrip:
  "ParseCertificateOfOwnership bs = Inr c \<longleftrightarrow> wfCOO c \<and> COO_MarshalBinary c = Inr bs"
  by (rule coo_codec.exact)

section \<open>Issuing\<close>

text \<open>An address without its zone: the certificate carries the bytes only.\<close>

fun stripZone :: "Addr \<Rightarrow> Addr" where
  "stripZone (Addr6 w z) = Addr6 w []"
| "stripZone a = a"

lemma thingOf_valid: "addrIsValid a \<Longrightarrow> \<exists>t. thingOf a = Inr t"
  by (cases a) (auto simp: thingOf_def)

lemma thingOf_Inr: "thingOf a = Inr t \<Longrightarrow> addrIsValid a \<and> length (otValue t) = 16
    \<and> (otType t = ownershipThingIPv4 \<or> otType t = ownershipThingIPv6)"
  by (cases a) (auto simp: thingOf_def)

lemma be_bytes_eq:
  "be_bytes 4 (x :: uint32) = be_bytes 4 y \<longleftrightarrow> x = y" "be_bytes 16 (u :: 128 word) = be_bytes 16 v \<longleftrightarrow> u = v"
  by (metis be_word_be_bytes_fixed(2), metis be_bytes16_128)

lemma ownsThing_thingOf: "thingOf b = Inr t \<Longrightarrow> ownsThing a t \<longleftrightarrow> addrIsValid a \<and> stripZone a = stripZone b"
  by (cases a; cases b) (auto simp: thingOf_def ownsThing_def ownership_consts be_bytes_eq)

lemma mapM_thingOf:
  assumes "mapM thingOf addresses = Inr things"
  shows "wfThings things" "list_ex (ownsThing a) things \<longleftrightarrow> addrIsValid a \<and> stripZone a \<in> stripZone ` set addresses"
    "\<forall>t \<in> set things. otType t = ownershipThingIPv4 \<or> otType t = ownershipThingIPv6" "length things = length addresses"
proof -
  have l: "list_all2 (\<lambda>x y. thingOf x = Inr y) addresses things" using assms by (simp add: mapM_Inr_iff)
  then show "wfThings things" by (induction rule: list_all2_induct) (auto simp: wfThings_def dest: thingOf_Inr)
  from l show "list_ex (ownsThing a) things \<longleftrightarrow> addrIsValid a \<and> stripZone a \<in> stripZone ` set addresses"
    by (induction rule: list_all2_induct) (auto simp: ownsThing_thingOf)
  from l show "\<forall>t \<in> set things. otType t = ownershipThingIPv4 \<or> otType t = ownershipThingIPv6"
    by (induction rule: list_all2_induct) (auto dest: thingOf_Inr)
  from l show "length things = length addresses" by (simp add: list_all2_lengthD)
qed

lemma mapM_thingOf_total:
  "\<forall>a \<in> set addresses. addrIsValid a \<Longrightarrow> \<exists>things. mapM thingOf addresses = Inr things"
  by (induction addresses) (auto dest: thingOf_valid)

lemma NewCOO_Inr:
  assumes "NewCertificateOfOwnership cr networkID timestamp i issuedTo addresses signer = Inr c"
    and "canonicalHex 16 networkID" "canonicalHex 10 issuedTo" "canonicalHex 10 (idAddress signer)"
  shows "COO_validate c = Inr () \<and> wfCOO c \<and> coNetworkID c = networkID \<and> coIssuedTo c = issuedTo
    \<and> coTimestamp c = timestamp \<and> coSignedBy c = idAddress signer \<and> coSignedBy c = mustControllerID networkID
    \<and> length (coThings c) = length addresses
    \<and> (\<forall>a. Owns c a \<longleftrightarrow> addrIsValid a \<and> stripZone a \<in> stripZone ` set addresses)
    \<and> Sign cr signer (signingPayload c) = Inr (coSignature c)"
proof -
  from assms(1) obtain things s where t: "mapM thingOf addresses = Inr things"
    and c: "c = \<lparr> coNetworkID = networkID, coTimestamp = timestamp, coFlags = 0, coID = i,
              coThings = things, coIssuedTo = issuedTo, coSignedBy = idAddress signer, coSignature = s \<rparr>"
    and sg: "Sign cr signer (signingPayload (c\<lparr>coSignature := replicate SignatureLength 0\<rparr>)) = Inr s"
    and a: "addresses \<noteq> []" "length addresses \<le> maxOwnershipThings" "idAddress signer = mustControllerID networkID"
    by (auto simp: NewCertificateOfOwnership_def rbind_eq_Inr Let_def split: if_splits)
  from sg have "Sign cr signer (signingPayload c) = Inr s"
    by (simp add: coo.payload_unsigned)
  with Sign_length [OF sg] mapM_thingOf [OF t] a assms(2-4) show ?thesis
    by (auto simp: c COO_validate_iff wfCOO_def Owns_def)
qed

text \<open>
  Issued ownership: for a controller with a matching key pair, a network of that controller and
  between one and sixteen valid addresses, \<^verbatim>\<open>NewCertificateOfOwnership\<close> succeeds; the certificate
  verifies with the controller's public identity, \<^verbatim>\<open>Owns\<close> holds exactly of the listed addresses (an
  IPv6 zone is not part of an address here), and its encoding parses back to it.
\<close>

theorem coo_issued_owns:
  assumes "ed25519_law cr" "wfIdentity signer" "keyPair cr signer" "canonicalHex 16 networkID"
    and "idAddress signer = take 10 networkID" "canonicalHex 10 issuedTo"
    and "addresses \<noteq> []" "length addresses \<le> maxOwnershipThings" "\<forall>a \<in> set addresses. addrIsValid a"
  shows "\<exists>c bs. NewCertificateOfOwnership cr networkID timestamp i issuedTo addresses signer = Inr c
     \<and> COO_Verify cr c (Public signer) = Inr () \<and> coIssuedTo c = issuedTo
     \<and> (\<forall>a. Owns c a \<longleftrightarrow> addrIsValid a \<and> stripZone a \<in> stripZone ` set addresses)
     \<and> COO_MarshalBinary c = Inr bs \<and> ParseCertificateOfOwnership bs = Inr c"
proof -
  from mapM_thingOf_total [OF assms(9)] obtain things where t: "mapM thingOf addresses = Inr things" by blast
  from Sign_keyPair [OF assms(3)] obtain s where "Sign cr signer (signingPayload \<lparr> coNetworkID = networkID,
      coTimestamp = timestamp, coFlags = 0, coID = i, coThings = things, coIssuedTo = issuedTo,
      coSignedBy = idAddress signer, coSignature = replicate SignatureLength 0 \<rparr>) = Inr s" by blast
  with t assms obtain c where c: "NewCertificateOfOwnership cr networkID timestamp i issuedTo addresses signer = Inr c"
    by (simp add: NewCertificateOfOwnership_def Let_def)
  note n = NewCOO_Inr [OF c assms(4,6)]
  have ca: "canonicalHex 10 (idAddress signer)" using assms(2) by (simp add: wfIdentity_def)
  have "COO_Verify cr c (Public signer) = Inr ()"
    using coo.issued_accepted [OF assms(1,2), of c "coSignature c"] n [OF ca] assms(4,5) by simp
  moreover obtain bs where "COO_MarshalBinary c = Inr bs"
    using n [OF ca] by (simp add: COO_MarshalBinary_def)
  ultimately show ?thesis
    using c n [OF ca] ParseCOO_Marshal [of c bs] by blast
qed

theorem coo_issued_owns_witness:
  "\<exists>c. NewCertificateOfOwnership toyCrypto toyNetworkID 1000 1 ''8056c2e21c'' [Addr4 0x0a000001] (toyIdentity 7) = Inr c
     \<and> Owns c (Addr4 0x0a000001) \<and> \<not> Owns c (Addr4 0x0a000002)"
proof -
  have "idAddress (toyIdentity 7) = take 10 toyNetworkID" by (simp add: toyIdentity_def toyNetworkID_def)
  moreover have "canonicalHex 10 ''8056c2e21c''" by (simp add: canonicalHex_def lowerhex_def)
  ultimately show ?thesis
    using coo_issued_owns [OF toy_laws(1) toy_wf toy_keyPair toyNetworkID_canonical, of 7 "''8056c2e21c''" "[Addr4 0x0a000001]" 1000 1]
    by (auto simp: maxOwnershipThings_def)
qed

end
