(* ===== verification/Chunk.thy ===== *)
theory Chunk
  imports Packet Identity
begin

unbundle bit_operations_syntax

text \<open>
  \<^verbatim>\<open>internal/zerotier/networkconfig/chunk.go\<close>: splitting a configuration dictionary into signed
  chunks, parsing them, and the OK and ERROR reply payloads. The lemmas show that every chunk of a
  dictionary parses and verifies with the public identity of the signer, that the chunks tile the
  dictionary, and that the default chunk size keeps every reply within the fragments of one packet.
\<close>

definition ChunkSignatureTypeEd25519 :: byte where "ChunkSignatureTypeEd25519 = 1"
definition DefaultMaxChunkData :: nat where "DefaultMaxChunkData = MaxPacketLength - (HeaderLength + 256)"
definition MaxConfigDictionary :: nat where "MaxConfigDictionary = 2 ^ 20"
definition chunkFixedOverhead :: nat where
  "chunkFixedOverhead = 8 + 2 + 1 + 8 + 4 + 4 + 1 + 2 + SignatureLength"

definition ErrorObjectNotFound :: byte where "ErrorObjectNotFound = 0x03"
definition ErrorAccessDenied :: byte where "ErrorAccessDenied = 0x07"

lemmas chunk_consts = ChunkSignatureTypeEd25519_def DefaultMaxChunkData_def MaxConfigDictionary_def
  chunkFixedOverhead_def SignatureLength_def packet_consts

record SignedChunk =
  scNetworkID :: NetworkID
  scData :: bytes
  scFlags :: byte
  scUpdateID :: uint64
  scTotalLength :: uint32
  scIndex :: uint32
  scSignature :: Signature
  scSignedPayload :: bytes

text \<open>The signed part of one chunk, and the loop of \<^verbatim>\<open>BuildSignedChunks\<close> from offset \<open>index\<close>.\<close>

definition chunkBody :: "bytes \<Rightarrow> bytes \<Rightarrow> uint64 \<Rightarrow> nat \<Rightarrow> nat \<Rightarrow> bytes" where
  "chunkBody networkBytes data updateID totalLength index =
     networkBytes @ be_bytes 2 (of_nat (length data) :: uint16) @ data @ [0] @ be_bytes 8 updateID
       @ be_bytes 4 (of_nat totalLength :: uint32) @ be_bytes 4 (of_nat index :: uint32)"

function chunkLoop :: "Crypto \<Rightarrow> Identity \<Rightarrow> bytes \<Rightarrow> bytes \<Rightarrow> uint64 \<Rightarrow> nat \<Rightarrow> nat \<Rightarrow> bytes list result" where
  "chunkLoop cr signer networkBytes dictionary updateID maxChunkData index =
     (if 0 < maxChunkData \<and> index < length dictionary then
        let end = min (index + maxChunkData) (length dictionary);
            data = slice index end dictionary;
            body = chunkBody networkBytes data updateID (length dictionary) index in
        rbind (Sign cr signer body) (\<lambda>signature.
        rbind (chunkLoop cr signer networkBytes dictionary updateID maxChunkData (index + maxChunkData)) (\<lambda>rest.
        Inr ((body @ [ChunkSignatureTypeEd25519] @ be_bytes 2 (of_nat SignatureLength :: uint16) @ signature) # rest)))
      else Inr [])"
  by pat_completeness auto
termination
  by (relation "measure (\<lambda>(cr, s, nb, d, u, m, index). length d - index)") auto

declare chunkLoop.simps [simp del]

text \<open>\<^verbatim>\<open>maxChunkData\<close> is a Go \<^verbatim>\<open>int\<close>; a value that is not positive selects the default.\<close>

definition BuildSignedChunks ::
    "Crypto \<Rightarrow> NetworkID \<Rightarrow> bytes \<Rightarrow> uint64 \<Rightarrow> int \<Rightarrow> Identity \<Rightarrow> bytes list result" where
  "BuildSignedChunks cr networkID dictionary updateID maxChunkData signer =
     rbind (NetworkID_Validate networkID) (\<lambda>_.
     if updateID = 0 then Inl (Errorf ''config update ID cannot be zero'')
     else if length dictionary = 0 \<or> length dictionary \<ge> MaxConfigDictionary
     then Inl (Errorf ''config dictionary length must be between 1 and %d'')
     else
       let maxChunkData = (if maxChunkData \<le> 0 then int DefaultMaxChunkData else maxChunkData) in
       if maxChunkData > 0xffff then Inl (Errorf ''chunk data limit exceeds 16-bit framing'')
       else chunkLoop cr signer (decodedHex networkID) dictionary updateID (nat maxChunkData) 0)"

definition ParseSignedChunk :: "Crypto \<Rightarrow> bytes \<Rightarrow> Identity \<Rightarrow> SignedChunk result" where
  "ParseSignedChunk cr payload signer =
     (if length payload < chunkFixedOverhead then Inl (Errorf ''signed config chunk is too short'')
      else
        rbind (ParseNetworkID (hex_encode (take 8 payload))) (\<lambda>networkID.
        let dataLength = unat (be_word (slice 8 10 payload) :: uint16);
            signedLength = 8 + 2 + dataLength + 1 + 8 + 4 + 4;
            totalLength = signedLength + 1 + 2 + SignatureLength in
        if length payload \<noteq> totalLength then Inl (Errorf ''signed config chunk length does not match framing'')
        else
          let offset = 10 + dataLength;
              flags = payload ! offset;
              updateID = be_word (slice (offset + 1) (offset + 9) payload) :: uint64;
              configLength = be_word (slice (offset + 9) (offset + 13) payload) :: uint32;
              index = be_word (slice (offset + 13) (offset + 17) payload) :: uint32 in
          if updateID = 0 then Inl (Errorf ''config update ID cannot be zero'')
          else if configLength = 0 \<or> unat configLength \<ge> MaxConfigDictionary
            \<or> unat index + dataLength > unat configLength
          then Inl (Errorf ''config chunk range is invalid'')
          else if payload ! signedLength \<noteq> ChunkSignatureTypeEd25519
            \<or> (be_word (slice (signedLength + 1) (signedLength + 3) payload) :: uint16) \<noteq> of_nat SignatureLength
          then Inl (Errorf ''unsupported config chunk signature'')
          else
            let signature = drop (signedLength + 3) payload in
            if \<not> Verify cr signer (take signedLength payload) signature
            then Inl (Errorf ''invalid config chunk signature'')
            else Inr \<lparr> scNetworkID = networkID, scData = slice 10 (10 + dataLength) payload, scFlags = flags,
              scUpdateID = updateID, scTotalLength = configLength, scIndex = index, scSignature = signature,
              scSignedPayload = take signedLength payload \<rparr>))"

definition WrapOK :: "uint64 \<Rightarrow> bytes \<Rightarrow> bytes" where
  "WrapOK requestPacketID signedChunk = VerbNetworkConfigRequest # be_bytes 8 requestPacketID @ signedChunk"

definition WrapError :: "uint64 \<Rightarrow> NetworkID \<Rightarrow> byte \<Rightarrow> bytes result" where
  "WrapError requestPacketID networkID code =
     rbind (NetworkID_Validate networkID) (\<lambda>_.
     if code \<noteq> ErrorObjectNotFound \<and> code \<noteq> ErrorAccessDenied
     then Inl (Errorf ''unsupported network config error code %d'')
     else Inr (VerbNetworkConfigRequest # be_bytes 8 requestPacketID @ [code] @ decodedHex networkID))"

section \<open>Chunks parse, verify and tile the dictionary\<close>

lemma length_chunkBody [simp]: "length nb = 8 \<Longrightarrow> length (chunkBody nb d u t i) = 27 + length d"
  by (simp add: chunkBody_def)

lemma ParseSignedChunk_body:
  assumes "length nb = 8" "length d \<le> 0xffff" "u \<noteq> 0" "0 < t" "t < 2 ^ 20" "i + length d \<le> t"
    and "Verify cr signer (chunkBody nb d u t i) s" "length s = 96"
  shows "ParseSignedChunk cr (chunkBody nb d u t i @ [1] @ be_bytes 2 (of_nat SignatureLength :: uint16) @ s) signer =
    Inr \<lparr> scNetworkID = hex_encode nb, scData = d, scFlags = 0, scUpdateID = u, scTotalLength = of_nat t,
      scIndex = of_nat i, scSignature = s, scSignedPayload = chunkBody nb d u t i \<rparr>"
proof -
  let ?b = "chunkBody nb d u t i" and ?sig = "be_bytes 2 (of_nat SignatureLength :: uint16)"
  let ?p = "?b @ [1] @ ?sig @ s" and ?n = "length d"
  have n: "unat (of_nat ?n :: uint16) = ?n" "unat (of_nat t :: uint32) = t" "unat (of_nat i :: uint32) = i"
    using assms(2,5,6) by (simp_all add: unat_of_nat)
  have lens: "length ?p = 126 + ?n" "length ?b = 27 + ?n" using assms(1,8) by simp_all
  have body: "take 8 ?p = nb" "slice 8 10 ?p = be_bytes 2 (of_nat ?n :: uint16)" "slice 10 (10 + ?n) ?p = d"
    "?p ! (10 + ?n) = 0" "slice (11 + ?n) (19 + ?n) ?p = be_bytes 8 u"
    "slice (19 + ?n) (23 + ?n) ?p = be_bytes 4 (of_nat t :: uint32)"
    "slice (23 + ?n) (27 + ?n) ?p = be_bytes 4 (of_nat i :: uint32)"
    using assms(1) by (simp_all add: chunkBody_def slice_def nth_append)
  have sig: "?p ! (27 + ?n) = 1" "slice (28 + ?n) (30 + ?n) ?p = ?sig" "drop (30 + ?n) ?p = s" "take (27 + ?n) ?p = ?b"
    using lens(2) by (simp_all add: slice_def nth_append)
  have id: "ParseNetworkID (hex_encode nb) = Inr (hex_encode nb)"
    using canonicalHex_encode [OF assms(1)] by (simp add: ParseNetworkID_iff)
  have "(of_nat t :: uint32) \<noteq> 0" using n(2) assms(4) by (metis less_numeral_extra(3) unat_0)
  then show ?thesis
    using assms(3-8) lens body sig id n
    by (simp add: ParseSignedChunk_def Let_def chunk_consts add.commute)
qed

definition chunkOf :: "NetworkID \<Rightarrow> bytes \<Rightarrow> uint64 \<Rightarrow> nat \<Rightarrow> SignedChunk \<Rightarrow> bool" where
  "chunkOf networkID dictionary updateID maxChunkData sc = (scNetworkID sc = networkID \<and> scUpdateID sc = updateID
     \<and> scFlags sc = 0 \<and> unat (scTotalLength sc) = length dictionary
     \<and> scData sc = slice (unat (scIndex sc)) (unat (scIndex sc) + maxChunkData) dictionary)"

lemma chunkLoop_parses:
  assumes law: "ed25519_law cr" "wfIdentity signer" and nb: "length nb = 8"
    and ok: "u \<noteq> 0" "length dict < 2 ^ 20" "0 < mx" "mx \<le> 0xffff"
  shows "chunkLoop cr signer nb dict u mx index = Inr chunks \<Longrightarrow>
    \<exists>scs. mapM (\<lambda>p. ParseSignedChunk cr p (Public signer)) chunks = Inr scs
      \<and> concat (map scData scs) = drop index dict \<and> list_all (chunkOf (hex_encode nb) dict u mx) scs
      \<and> list_all (\<lambda>p. length p \<le> chunkFixedOverhead + mx) chunks"
proof (induction "length dict - index" arbitrary: index chunks rule: less_induct)
  case less
  show ?case
  proof (cases "index < length dict")
    case False
    then show ?thesis using less.prems by (simp add: chunkLoop.simps [of _ _ _ _ _ _ index])
  next
    case True
    let ?d = "slice index (min (index + mx) (length dict)) dict"
    let ?b = "chunkBody nb ?d u (length dict) index"
    from less.prems True ok(3) obtain s rest where s: "Sign cr signer ?b = Inr s"
      and rest: "chunkLoop cr signer nb dict u mx (index + mx) = Inr rest"
      and ch: "chunks = (?b @ [1] @ be_bytes 2 (of_nat SignatureLength :: uint16) @ s) # rest"
      by (auto simp: chunkLoop.simps [of _ _ _ _ _ _ index] Let_def rbind_eq_Inr ChunkSignatureTypeEd25519_def)
    have lt: "length dict - (index + mx) < length dict - index" using True ok(3) by simp
    obtain scs where scs: "mapM (\<lambda>p. ParseSignedChunk cr p (Public signer)) rest = Inr scs"
        "concat (map scData scs) = drop (index + mx) dict" "list_all (chunkOf (hex_encode nb) dict u mx) scs"
        "list_all (\<lambda>p. length p \<le> chunkFixedOverhead + mx) rest"
      using less.hyps [OF lt rest] by blast
    from Verify_Sign [OF law s] have v: "Verify cr (Public signer) ?b s" "length s = 96" by (simp_all add: SignatureLength_def)
    have d: "?d = slice index (index + mx) dict" "length ?d \<le> mx" "index + length ?d \<le> length dict"
      using True by (auto simp: slice_def min_def)
    have u: "unat (of_nat index :: uint32) = index" "unat (of_nat (length dict) :: uint32) = length dict"
      using True ok(2) by (simp_all add: unat_of_nat)
    have p: "ParseSignedChunk cr (hd chunks) (Public signer) = Inr \<lparr> scNetworkID = hex_encode nb, scData = ?d, scFlags = 0,
        scUpdateID = u, scTotalLength = of_nat (length dict), scIndex = of_nat index, scSignature = s, scSignedPayload = ?b \<rparr>"
      unfolding ch list.sel using nb ok d True v by (intro ParseSignedChunk_body) auto
    have "?d @ drop (index + mx) dict = drop index dict" unfolding d(1) by (simp add: take_slice_drop)
    moreover have "length (hd chunks) \<le> chunkFixedOverhead + mx"
      using ch nb d(2) v(2) by (simp add: chunkFixedOverhead_def SignatureLength_def)
    ultimately show ?thesis
      using p scs u d(1) ch by (auto simp: chunkOf_def)
  qed
qed

lemma chunkLoop_total:
  assumes "\<And>m. \<exists>s. Sign cr signer m = Inr s"
  shows "\<exists>chunks. chunkLoop cr signer nb dict u mx index = Inr chunks"
proof (induction "length dict - index" arbitrary: index rule: less_induct)
  case less
  show ?case
  proof (cases "0 < mx \<and> index < length dict")
    case True
    then have "length dict - (index + mx) < length dict - index" by auto
    from less [OF this] obtain rest where "chunkLoop cr signer nb dict u mx (index + mx) = Inr rest" ..
    moreover obtain s where "Sign cr signer (chunkBody nb (slice index (min (index + mx) (length dict)) dict) u (length dict) index) = Inr s"
      using assms by blast
    ultimately show ?thesis using True by (simp add: chunkLoop.simps [of _ _ _ _ _ _ index] Let_def)
  qed (auto simp: chunkLoop.simps [of _ _ _ _ _ _ index])
qed

lemma Sign_total:
  "idHasPrivate i \<Longrightarrow> edPublic cr (drop 32 (idPrivateKey i)) = drop 32 (idPublicKey i) \<Longrightarrow> \<exists>s. Sign cr i m = Inr s"
  by (simp add: Sign_def Let_def)

text \<open>
  C36. Configuration transfer: whatever \<^verbatim>\<open>BuildSignedChunks\<close> produces, each chunk is accepted by
  \<^verbatim>\<open>ParseSignedChunk\<close> with the public identity of the signer, carries the network, update ID and total
  length of the dictionary and its own slice at its own offset, and the chunk data concatenate to
  the dictionary. A signer with a matching key never fails on an admissible request.
\<close>

theorem signed_chunks_roundtrip:
  assumes "ed25519_law cr" "wfIdentity signer" "keyPair cr signer" "canonicalHex 16 networkID" "updateID \<noteq> 0"
    and "0 < length dictionary" "length dictionary < MaxConfigDictionary" "maxChunkData \<le> 0xffff"
  shows "\<exists>chunks scs. BuildSignedChunks cr networkID dictionary updateID maxChunkData signer = Inr chunks
     \<and> mapM (\<lambda>p. ParseSignedChunk cr p (Public signer)) chunks = Inr scs
     \<and> concat (map scData scs) = dictionary
     \<and> list_all (chunkOf networkID dictionary updateID
         (if maxChunkData \<le> 0 then DefaultMaxChunkData else nat maxChunkData)) scs"
proof -
  let ?mx = "if maxChunkData \<le> 0 then DefaultMaxChunkData else nat maxChunkData"
  have mx: "0 < ?mx" "?mx \<le> 0xffff" using assms(8) by (auto simp: chunk_consts)
  have "BuildSignedChunks cr networkID dictionary updateID maxChunkData signer
      = chunkLoop cr signer (decodedHex networkID) dictionary updateID ?mx 0"
    using assms(4-8) by (auto simp: BuildSignedChunks_def Let_def chunk_consts)
  moreover obtain chunks where "chunkLoop cr signer (decodedHex networkID) dictionary updateID ?mx 0 = Inr chunks"
    using chunkLoop_total [OF Sign_total] assms(3) by (metis keyPair_def)
  ultimately show ?thesis
    using chunkLoop_parses [OF assms(1,2) _ assms(5) _ mx, of "decodedHex networkID" dictionary 0 chunks] assms(4,7)
    by (auto simp: MaxConfigDictionary_def)
qed

theorem signed_chunks_roundtrip_witness:
  "\<exists>chunks scs. BuildSignedChunks toyCrypto ''8056c2e21c000001'' [1, 2, 3, 4, 5] 9 2 (toyIdentity 7) = Inr chunks
     \<and> mapM (\<lambda>p. ParseSignedChunk toyCrypto p (Public (toyIdentity 7))) chunks = Inr scs
     \<and> concat (map scData scs) = [1, 2, 3, 4, 5]"
proof -
  have "canonicalHex 16 ''8056c2e21c000001''" by (simp add: canonicalHex_def lowerhex_def)
  moreover have "keyPair toyCrypto (toyIdentity 7)"
    using toy_keys [of 7] by (simp add: keyPair_def toyIdentity_def)
  ultimately show ?thesis
    using signed_chunks_roundtrip [OF toy_laws(1) toy_wf, of 7 "''8056c2e21c000001''" 9 "[1, 2, 3, 4, 5]" 2]
    by (auto simp: MaxConfigDictionary_def)
qed

lemma fragments_fit: "length a \<le> 9928 \<Longrightarrow> \<exists>frags. fragmentArmored a DefaultPhysicalMTU = Inr frags \<and> length frags \<le> MaxPacketFragments"
proof (cases "length a \<le> 1432")
  case False
  assume l: "length a \<le> 9928"
  define n where "n = (length a - 1432 + 1416 - 1) div 1416"
  have n: "n \<le> 6" using l False by (simp add: n_def)
  then have "fragmentArmored a DefaultPhysicalMTU = Inr (take 1432 a # fragmentLoop a 1416 (Suc n) 1 1432)"
    using False by (simp add: fragmentArmored_def packet_consts Let_def n_def)
  moreover have "length (fragmentLoop a 1416 (Suc n) 1 1432) = n"
    using False by (simp add: fragmentLoop_eq)
  ultimately show ?thesis using n by (simp add: packet_consts)
qed (simp add: fragmentArmored_def packet_consts)

text \<open>
  C37. Configuration replies fit: with the default chunk size every chunk of any dictionary, wrapped as
  an OK reply, is a packet \<^verbatim>\<open>Build\<close> accepts, and any armored packet of that length splits into at most
  seven datagrams at the default MTU.
\<close>

theorem config_reply_fits:
  assumes "ed25519_law cr" "wfIdentity signer" "BuildSignedChunks cr networkID dictionary updateID 0 signer = Inr chunks"
    and "chunk \<in> set chunks" "canonicalHex 10 destination" "canonicalHex 10 source"
  shows "\<exists>pkt. Build packetID destination source VerbOK (WrapOK requestID chunk) = Inr pkt
    \<and> (length armored = length pkt \<longrightarrow>
        (\<exists>frags. fragmentArmored armored DefaultPhysicalMTU = Inr frags \<and> length frags \<le> MaxPacketFragments))"
proof -
  from assms(3) have b: "canonicalHex 16 networkID" "updateID \<noteq> 0" "length dictionary < 2 ^ 20"
      "chunkLoop cr signer (decodedHex networkID) dictionary updateID DefaultMaxChunkData 0 = Inr chunks"
    by (auto simp: BuildSignedChunks_def Let_def rbind_eq_Inr MaxConfigDictionary_def split: if_splits)
  have mx: "0 < DefaultMaxChunkData" "DefaultMaxChunkData \<le> 0xffff" by (simp_all add: chunk_consts)
  have "length chunk \<le> chunkFixedOverhead + DefaultMaxChunkData"
    using chunkLoop_parses [OF assms(1,2) _ b(2,3) mx b(4)] b(1) assms(4) by (auto simp: list_all_iff)
  then have l: "length (WrapOK requestID chunk) \<le> 9875" by (simp add: WrapOK_def chunk_consts)
  then obtain pkt where pkt: "Build packetID destination source VerbOK (WrapOK requestID chunk) = Inr pkt"
    using assms(5,6) Build_Inr [of packetID destination source VerbOK "WrapOK requestID chunk"] by (auto simp: packet_consts)
  have "length pkt \<le> 9928" using length_Build [OF pkt] l by (simp add: packet_consts)
  with pkt show ?thesis using fragments_fit [of armored] by auto
qed

theorem config_reply_fits_witness:
  "\<exists>chunk pkt. BuildSignedChunks toyCrypto ''8056c2e21c000001'' [1, 2, 3] 9 0 (toyIdentity 7) = Inr [chunk]
    \<and> Build 5 ''0123456789'' ''8056c2e21c'' VerbOK (WrapOK 4 chunk) = Inr pkt"
proof -
  have hex: "canonicalHex 16 ''8056c2e21c000001''" "canonicalHex 10 ''8056c2e21c''" "canonicalHex 10 ''0123456789''"
    by (simp_all add: canonicalHex_def lowerhex_def)
  obtain s where "Sign toyCrypto (toyIdentity 7) (chunkBody (decodedHex ''8056c2e21c000001'') [1, 2, 3] 9 (Suc (Suc (Suc 0))) 0) = Inr s"
    using Sign_total toy_keys by blast
  then obtain chunk where c: "BuildSignedChunks toyCrypto ''8056c2e21c000001'' [1, 2, 3] 9 0 (toyIdentity 7) = Inr [chunk]"
    using hex by (simp add: BuildSignedChunks_def chunkLoop.simps chunk_consts Let_def slice_def)
  then show ?thesis using config_reply_fits [OF toy_laws(1) toy_wf c _ hex(3,2), of chunk 5 4 "[]"] by auto
qed

end
