(* ===== verification/Issue.thy ===== *)
theory Issue
  imports ConfigSpec Policy Ownership Chunk
begin

text \<open>
  \<^verbatim>\<open>internal/zerotier/networkconfig/issue.go\<close>: assembling the credentials, the dictionary and the signed
  chunks of one configuration. The theorem follows an issued configuration to the agent that receives
  it: the chunks verify, they reassemble to a dictionary, and the credentials found in the dictionary
  parse and verify with the controller's public identity.
\<close>

record IssueInput =
  iiNetwork :: Network
  iiMember :: Member
  iiNetworkMembers :: "Member list"
  iiRecipient :: Identity
  iiController :: Identity
  iiIssuedAt :: time
  iiRevision :: uint64
  iiMaxChunkData :: int
  iiCredentialDelta :: duration

record IssuedConfig =
  icDictionary :: bytes
  icChunks :: "bytes list"
  icCOM :: CertificateOfMembership
  icCOO :: "CertificateOfOwnership option"
  icCapabilities :: bytes
  icTags :: bytes

text \<open>The credentials and chunks issued once the guards have passed and the delta is resolved.\<close>

definition issueCOO :: "Crypto \<Rightarrow> IssueInput \<Rightarrow> uint64 \<Rightarrow> (CertificateOfOwnership option \<times> bytes) result" where
  "issueCOO cr input timestamp =
     (if length (mbIPAssignments (iiMember input)) > 0 then
        rbind (wrapErr ''issue COO: %w'' (NewCertificateOfOwnership cr (nwID (iiNetwork input)) timestamp 1
          (mbNodeID (iiMember input)) (mbIPAssignments (iiMember input)) (iiController input))) (\<lambda>credential.
        rbind (wrapErr ''serialize COO: %w'' (COO_MarshalBinary credential)) (\<lambda>cooBytes.
        Inr (Some credential, cooBytes)))
      else Inr (None, []))"

definition issueCredentials :: "Crypto \<Rightarrow> IssueInput \<Rightarrow> duration \<Rightarrow> IssuedConfig result" where
  "issueCredentials cr input credentialDelta =
     (let network = iiNetwork input; member = iiMember input; controller = iiController input;
          timestamp = of_int (UnixMilli (iiIssuedAt input)) :: uint64;
          delta = of_int (Milliseconds credentialDelta) :: uint64 in
      rbind (wrapErr ''issue COM: %w''
        (NewCertificateOfMembership cr timestamp delta (nwID network) (iiRecipient input) controller)) (\<lambda>com.
      rbind (wrapErr ''serialize COM: %w'' (COM_MarshalBinary com)) (\<lambda>comBytes.
      rbind (issueCOO cr input timestamp) (\<lambda>(coo, cooBytes).
      rbind (wrapErr ''issue policy credentials: %w''
        (issuePolicyCredentials cr network member timestamp controller)) (\<lambda>(capabilities, tags).
      rbind (wrapErr ''build dictionary: %w'' (BuildDictionary \<lparr> ciNetwork = network, ciMember = member,
        ciIssuedAt = iiIssuedAt input, ciRevision = iiRevision input, ciCredentialTimeMaxDelta = credentialDelta,
        ciCertificateOfMembership = comBytes, ciCertificatesOfOwnership = cooBytes, ciCapabilities = capabilities,
        ciTags = tags, ciNetworkMembers = iiNetworkMembers input \<rparr>)) (\<lambda>dictionary.
      rbind (wrapErr ''sign config chunks: %w''
        (BuildSignedChunks cr (nwID network) dictionary (iiRevision input) (iiMaxChunkData input) controller)) (\<lambda>chunks.
      Inr \<lparr> icDictionary = dictionary, icChunks = chunks, icCOM = com, icCOO = coo,
        icCapabilities = capabilities, icTags = tags \<rparr>)))))))"

definition IssueAuthorizedConfig :: "Crypto \<Rightarrow> IssueInput \<Rightarrow> IssuedConfig result" where
  "IssueAuthorizedConfig cr input =
     (let network = iiNetwork input; member = iiMember input in
      if \<not> mbAuthorized member then Inl (Errorf ''member is not authorized'')
      else if mbNetworkID member \<noteq> nwID network then Inl (Errorf ''member belongs to a different network'')
      else if idAddress (iiRecipient input) \<noteq> mbNodeID member then Inl (Errorf ''recipient identity does not match member'')
      else if \<not> LocallyValidate cr (iiRecipient input) then Inl (Errorf ''recipient identity failed local proof validation'')
      else
        rbind (ControllerID (nwID network)) (\<lambda>controllerID.
        if idAddress (iiController input) \<noteq> controllerID then Inl (Errorf ''controller identity does not own network'')
        else if \<not> idHasPrivate (iiController input) then Inl (Errorf ''controller identity has no private key'')
        else if IsZero (iiIssuedAt input) then Inl (Errorf ''issue time is required'')
        else if UnixMilli (iiIssuedAt input) < 0 then Inl (Errorf ''issue time cannot precede the Unix epoch'')
        else if iiRevision input = 0 then Inl (Errorf ''configuration revision cannot be zero'')
        else
          let credentialDelta = (if iiCredentialDelta input = 0 then DefaultCredentialTimeMaxDelta
                else iiCredentialDelta input) in
          if credentialDelta < 0 then Inl (Errorf ''credential delta cannot be negative'')
          else issueCredentials cr input credentialDelta))"

section \<open>What an agent makes of an issued configuration\<close>

text \<open>
  The agent's side, from the parts of this program that read the same formats: verify and join the
  chunks, parse the dictionary, take out the certificate of membership.
\<close>

definition receiveChunks :: "Crypto \<Rightarrow> Identity \<Rightarrow> bytes list \<Rightarrow> SignedChunk list result" where
  "receiveChunks cr controller chunks = mapM (\<lambda>p. ParseSignedChunk cr p controller) chunks"

definition issuedDelta :: "IssueInput \<Rightarrow> duration" where
  "issuedDelta input = (if iiCredentialDelta input = 0 then DefaultCredentialTimeMaxDelta else iiCredentialDelta input)"

definition issueTime :: "IssueInput \<Rightarrow> uint64" where
  "issueTime input = of_int (UnixMilli (iiIssuedAt input))"

definition mayIssue :: "Crypto \<Rightarrow> IssueInput \<Rightarrow> bool" where
  "mayIssue cr input = (mbAuthorized (iiMember input) \<and> mbNetworkID (iiMember input) = nwID (iiNetwork input)
     \<and> idAddress (iiRecipient input) = mbNodeID (iiMember input) \<and> LocallyValidate cr (iiRecipient input)
     \<and> canonicalHex 16 (nwID (iiNetwork input)) \<and> idAddress (iiController input) = take 10 (nwID (iiNetwork input))
     \<and> idHasPrivate (iiController input) \<and> \<not> IsZero (iiIssuedAt input) \<and> 0 \<le> UnixMilli (iiIssuedAt input)
     \<and> iiRevision input \<noteq> 0 \<and> 0 \<le> issuedDelta input)"

lemma IssueAuthorizedConfig_Inr:
  "IssueAuthorizedConfig cr input = Inr issued \<longleftrightarrow>
     mayIssue cr input \<and> issueCredentials cr input (issuedDelta input) = Inr issued"
  by (auto simp: IssueAuthorizedConfig_def mayIssue_def issuedDelta_def Let_def rbind_eq_Inr ControllerID_iff not_less
      split: if_splits)

lemma BuildSignedChunks_parses:
  assumes "ed25519_law cr" "wfIdentity signer" "BuildSignedChunks cr networkID dict u mx signer = Inr chunks"
  shows "\<exists>scs. receiveChunks cr (Public signer) chunks = Inr scs \<and> concat (map scData scs) = dict
    \<and> list_all (\<lambda>sc. scNetworkID sc = networkID \<and> scUpdateID sc = u) scs"
proof -
  let ?mx = "if mx \<le> 0 then DefaultMaxChunkData else nat mx"
  from assms(3) have b: "canonicalHex 16 networkID" "u \<noteq> 0" "length dict < 2 ^ 20" "0 < ?mx" "?mx \<le> 0xffff"
      "chunkLoop cr signer (decodedHex networkID) dict u ?mx 0 = Inr chunks"
    by (auto simp: BuildSignedChunks_def Let_def rbind_eq_Inr chunk_consts split: if_splits)
  from chunkLoop_parses [OF assms(1,2) _ b(2-6)] b(1) obtain scs
    where "receiveChunks cr (Public signer) chunks = Inr scs" "concat (map scData scs) = dict"
      "list_all (chunkOf networkID dict u ?mx) scs"
    by (auto simp: receiveChunks_def)
  then show ?thesis by (auto simp: chunkOf_def list_all_iff)
qed

lemma dictionary_credentials:
  assumes "BuildDictionary input = Inr d"
  shows "\<exists>m. ParseDictionary d = Inr m \<and> HexUint m ''r'' = Some (ciRevision input)
    \<and> fmlookup m ''C'' = present (ciCertificateOfMembership input)
    \<and> fmlookup m ''COO'' = present (ciCertificatesOfOwnership input)
    \<and> fmlookup m ''CAP'' = present (ciCapabilities input) \<and> fmlookup m ''TAG'' = present (ciTags input)
    \<and> canonicalHex 10 (mbNodeID (ciMember input))"
  using assms
proof (rule BuildDictionary_Inr)
  fix staticIPs routes dns rules specialists
  assume a: "addAll (configFields input staticIPs routes dns rules specialists) [] = Inr d"
    and v: "Member_Validate (ciMember input) = Inr ()"
  from addAll_readback [OF a] obtain m where m: "ParseDictionary d = Inr m"
    and f: "fmlookup m = map_of (configFields input staticIPs routes dns rules specialists)" by blast
  have "fmlookup m ''r'' = Some (bytes_of_string (FormatUint16 (ciRevision input)))"
    unfolding f by (rule configFields_head [OF configHead_lookup(2)])
  moreover have "canonicalHex 10 (mbNodeID (ciMember input))" using v by (auto simp: Member_Validate_def rbind_eq_Inr split: if_splits)
  ultimately show ?thesis using m present_lookup [OF f] HexUint_Format by auto
qed

lemma issueCOO_Inr:
  assumes "issueCOO cr input t = Inr (coo, bs)" "ed25519_law cr" "wfIdentity (iiController input)"
    "canonicalHex 16 (nwID (iiNetwork input))" "canonicalHex 10 (mbNodeID (iiMember input))"
  shows "case coo of None \<Rightarrow> mbIPAssignments (iiMember input) = [] \<and> bs = []
    | Some c \<Rightarrow> mbIPAssignments (iiMember input) \<noteq> [] \<and> ParseCertificateOfOwnership bs = Inr c \<and> bs \<noteq> []
        \<and> COO_Verify cr c (Public (iiController input)) = Inr ()
        \<and> coNetworkID c = nwID (iiNetwork input) \<and> coIssuedTo c = mbNodeID (iiMember input) \<and> coTimestamp c = t
        \<and> (\<forall>a. Owns c a \<longleftrightarrow> addrIsValid a \<and> stripZone a \<in> stripZone ` set (mbIPAssignments (iiMember input)))"
proof (cases coo)
  case (Some c)
  from assms(1) Some have n: "NewCertificateOfOwnership cr (nwID (iiNetwork input)) t 1
      (mbNodeID (iiMember input)) (mbIPAssignments (iiMember input)) (iiController input) = Inr c"
    and m: "COO_MarshalBinary c = Inr bs" "mbIPAssignments (iiMember input) \<noteq> []"
    by (auto simp: issueCOO_def rbind_eq_Inr split: if_splits)
  have ca: "canonicalHex 10 (idAddress (iiController input))" using assms(3) by (simp add: wfIdentity_def)
  note i = NewCOO_Inr [OF n assms(4,5) ca]
  have "COO_Verify cr (c\<lparr>coSignature := coSignature c\<rparr>) (Public (iiController input)) = Inr ()"
    by (rule coo.issued_accepted [OF assms(2,3)]) (use i in auto)
  then have "COO_Verify cr c (Public (iiController input)) = Inr ()" by simp
  moreover have "ParseCertificateOfOwnership bs = Inr c" using ParseCOO_Marshal [of c bs] i m by blast
  moreover have "bs \<noteq> []" using calculation(2) by (auto simp: ParseCertificateOfOwnership_def)
  ultimately show ?thesis using Some i m by simp
qed (use assms(1) in \<open>auto simp: issueCOO_def rbind_eq_Inr split: if_splits\<close>)

section \<open>Issuing succeeds\<close>

lemma dictionary_bounds: "BuildDictionary input = Inr d \<Longrightarrow> 0 < length d \<and> length d < MaxConfigDictionary"
proof -
  assume b: "BuildDictionary input = Inr d"
  then obtain kvs where k: "addAll kvs [] = Inr d" by (rule BuildDictionary_Inr)
  from dictionary_credentials [OF b] have "d \<noteq> []" by (auto simp: ParseDictionary_def parseDictionary_def HexUint_def splitLines.simps(1) split: option.splits)
  with addAll_readback [OF k] show ?thesis by (simp add: MaxDictionaryLength_def MaxConfigDictionary_def)
qed

text \<open>The size of the policy credentials, read off the documents.\<close>

definition policySize :: "Network \<Rightarrow> Member \<Rightarrow> nat" where
  "policySize network member =
     sum_list (map (\<lambda>i. case map_of (capabilityDefinitions network) i of None \<Rightarrow> 0
         | Some c \<Rightarrow> 139 + (case SerializeRules (cpRules c) of Inl _ \<Rightarrow> 0 | Inr rules \<Rightarrow> length rules))
       (orderedCapabilities network member))
     + 135 * length (orderedTags network member)"

lemma mapM_sizes:
  "mapM f xs = Inr ys \<Longrightarrow> (\<And>x y. f x = Inr y \<Longrightarrow> length y = g x) \<Longrightarrow> length (concat ys) = sum_list (map g xs)"
  by (induction xs arbitrary: ys) (auto simp: rbind_eq_Inr)

lemma policySize_exact:
  assumes "canonicalHex 16 (nwID network)" "canonicalHex 10 (mbNodeID member)" "canonicalHex 10 (idAddress signer)"
    and "issuePolicyCredentials cr network member timestamp signer = Inr (caps, tags)"
  shows "length caps + length tags = policySize network member"
proof -
  have tag: "length y = 135" if "issueTag cr (nwID network) timestamp (mbNodeID member) i v signer = Inr y" for i v y
    using that assms(1-3) by (auto simp: issueTag_def rbind_eq_Inr Let_def uint32Bytes_def SignatureLength_def dest!: Sign_length)
  have cap: "length y = 139 + (case SerializeRules (cpRules c) of Inl _ \<Rightarrow> 0 | Inr rules \<Rightarrow> length rules)"
    if "issueCapability cr (nwID network) timestamp (mbNodeID member) c signer = Inr y" for c y
    using that assms(1-3) by (auto simp: issueCapability_def rbind_eq_Inr Let_def SignatureLength_def split: if_splits dest!: Sign_length)
  obtain cs ts where r: "mapM (\<lambda>i. case map_of (capabilityDefinitions network) i of None \<Rightarrow> Inr []
       | Some d \<Rightarrow> issueCapability cr (nwID network) timestamp (mbNodeID member) d signer) (orderedCapabilities network member) = Inr cs"
    "mapM (\<lambda>i. issueTag cr (nwID network) timestamp (mbNodeID member) i (tagValue network member i) signer) (orderedTags network member) = Inr ts"
    "caps = concat cs" "tags = concat ts"
    using assms(4) by (auto simp: issuePolicyCredentials_def rbind_eq_Inr)
  have "length caps = sum_list (map (\<lambda>i. case map_of (capabilityDefinitions network) i of None \<Rightarrow> 0
         | Some c \<Rightarrow> 139 + (case SerializeRules (cpRules c) of Inl _ \<Rightarrow> 0 | Inr rules \<Rightarrow> length rules)) (orderedCapabilities network member))"
    unfolding r(3) by (rule mapM_sizes [OF r(1)]) (auto split: option.splits dest: cap)
  moreover have "length tags = sum_list (map (\<lambda>_. 135) (orderedTags network member))"
    unfolding r(4) by (rule mapM_sizes [OF r(2)]) (rule tag)
  ultimately show ?thesis by (simp add: policySize_def sum_list_triv)
qed

text \<open>
  What the stored documents must satisfy besides the guards: at most sixteen valid assigned addresses,
  capabilities of at most 64 rules that serialize, serializable sections, and a dictionary that fits. A
  certificate of membership has 272 bytes, one of ownership at most 413.
\<close>

definition issuable :: "Network \<Rightarrow> Member \<Rightarrow> Member list \<Rightarrow> bool" where
  "issuable network member members = (
     Network_Validate network = Inr () \<and> Member_Validate member = Inr ()
     \<and> length (mbIPAssignments member) \<le> maxOwnershipThings \<and> list_all addrIsValid (mbIPAssignments member)
     \<and> list_all (\<lambda>c. length (cpRules c) \<le> maxCapabilityRules \<and> isOk (SerializeRules (cpRules c))) (nwCapabilities network)
     \<and> (case (serializeStaticIPs network member, serializeRoutes (nwRoutes network), serializeDNS (nwDNS network),
             SerializeRules (nwRules network), serializeSpecialists (nwID network) members) of
          (Inr ips, Inr routes, Inr dns, Inr rules, Inr specialists) \<Rightarrow>
            500 + 2 * (10 + length (nwName network) + 272 + 413 + policySize network member
              + length ips + length routes + length dns + length rules + length specialists) \<le> MaxDictionaryLength
        | _ \<Rightarrow> False))"

lemma issuable_sections:
  assumes "issuable network member members"
  obtains ips routes dns rules specialists where
    "Network_Validate network = Inr ()" "Member_Validate member = Inr ()"
    "length (mbIPAssignments member) \<le> maxOwnershipThings" "list_all addrIsValid (mbIPAssignments member)"
    "serializeStaticIPs network member = Inr ips" "serializeRoutes (nwRoutes network) = Inr routes"
    "serializeDNS (nwDNS network) = Inr dns" "SerializeRules (nwRules network) = Inr rules"
    "serializeSpecialists (nwID network) members = Inr specialists"
    "500 + 2 * (10 + length (nwName network) + 272 + 413 + policySize network member
       + length ips + length routes + length dns + length rules + length specialists) \<le> MaxDictionaryLength"
  using assms unfolding issuable_def
  by (cases "serializeStaticIPs network member"; cases "serializeRoutes (nwRoutes network)"; cases "serializeDNS (nwDNS network)";
      cases "SerializeRules (nwRules network)"; cases "serializeSpecialists (nwID network) members") auto

lemma issueCOO_total:
  assumes "keyPair cr (iiController input)" "wfIdentity (iiController input)" "canonicalHex 16 (nwID (iiNetwork input))"
    and "idAddress (iiController input) = take 10 (nwID (iiNetwork input))" "canonicalHex 10 (mbNodeID (iiMember input))"
    and "length (mbIPAssignments (iiMember input)) \<le> maxOwnershipThings" "list_all addrIsValid (mbIPAssignments (iiMember input))"
  shows "\<exists>coo bs. issueCOO cr input t = Inr (coo, bs) \<and> length bs \<le> 413"
proof (cases "mbIPAssignments (iiMember input) = []")
  case False
  let ?n = "nwID (iiNetwork input)" and ?m = "mbNodeID (iiMember input)" and ?as = "mbIPAssignments (iiMember input)"
  from assms(7) obtain things where t: "mapM thingOf ?as = Inr things"
    using mapM_thingOf_total [of ?as] by (auto simp: list_all_iff)
  from Sign_keyPair [OF assms(1)] obtain s where "Sign cr (iiController input) (signingPayload \<lparr> coNetworkID = ?n,
      coTimestamp = t, coFlags = 0, coID = 1, coThings = things, coIssuedTo = ?m,
      coSignedBy = idAddress (iiController input), coSignature = replicate SignatureLength 0 \<rparr>) = Inr s" by blast
  with t False assms obtain c where c: "NewCertificateOfOwnership cr ?n t 1 ?m ?as (iiController input) = Inr c"
    by (simp add: NewCertificateOfOwnership_def Let_def)
  have ca: "canonicalHex 10 (idAddress (iiController input))" using assms(2) by (simp add: wfIdentity_def)
  note i = NewCOO_Inr [OF c assms(3,5) ca]
  then obtain bs where b: "COO_MarshalBinary c = Inr bs" by (simp add: COO_MarshalBinary_def)
  have "length (coSignature c) = 96" using i Sign_length [of cr "iiController input"] by (auto simp: SignatureLength_def)
  with b i assms(6) have "length bs \<le> 413"
    by (auto simp: COO_MarshalBinary_def appendCore_def wfCOO_def length_thingBytes maxOwnershipThings_def COO_validate_iff)
  with False b c show ?thesis by (simp add: issueCOO_def)
qed (simp add: issueCOO_def)

lemma IssueAuthorizedConfig_total:
  assumes "mayIssue cr input" "keyPair cr (iiController input)" "wfIdentity (iiController input)" "wfIdentity (iiRecipient input)"
    and doc: "issuable (iiNetwork input) (iiMember input) (iiNetworkMembers input)"
    and mx: "iiMaxChunkData input \<le> 0xffff"
  shows "\<exists>issued. IssueAuthorizedConfig cr input = Inr issued"
  using doc
proof (rule issuable_sections)
  fix ips routes dns rules specialists
  assume sec: "Network_Validate (iiNetwork input) = Inr ()" "Member_Validate (iiMember input) = Inr ()"
    "length (mbIPAssignments (iiMember input)) \<le> maxOwnershipThings" "list_all addrIsValid (mbIPAssignments (iiMember input))"
    "serializeStaticIPs (iiNetwork input) (iiMember input) = Inr ips" "serializeRoutes (nwRoutes (iiNetwork input)) = Inr routes"
    "serializeDNS (nwDNS (iiNetwork input)) = Inr dns" "SerializeRules (nwRules (iiNetwork input)) = Inr rules"
    "serializeSpecialists (nwID (iiNetwork input)) (iiNetworkMembers input) = Inr specialists"
    "500 + 2 * (10 + length (nwName (iiNetwork input)) + 272 + 413 + policySize (iiNetwork input) (iiMember input)
       + length ips + length routes + length dns + length rules + length specialists) \<le> MaxDictionaryLength"
  let ?n = "nwID (iiNetwork input)" and ?k = "iiController input" and ?d = "of_int (Milliseconds (issuedDelta input)) :: uint64"
  have hex: "canonicalHex 16 ?n" "canonicalHex 10 (idAddress (iiRecipient input))" "canonicalHex 10 (idAddress ?k)"
      "canonicalHex 10 (mbNodeID (iiMember input))" "idAddress ?k = take 10 ?n"
    using assms(1,3,4) by (auto simp: mayIssue_def wfIdentity_def)
  have "\<forall>c \<in> set (nwCapabilities (iiNetwork input)). length (cpRules c) \<le> maxCapabilityRules \<and> isOk (SerializeRules (cpRules c))"
    using doc by (simp add: issuable_def list_all_iff)
  from issuePolicyCredentials_total [OF assms(2) hex(1,4,3) this] obtain caps tags where
    pol: "issuePolicyCredentials cr (iiNetwork input) (iiMember input) (issueTime input) ?k = Inr (caps, tags)" by (metis prod.exhaust)
  note size = policySize_exact [OF hex(1,4,3) pol]
  from NewCOM_total [OF assms(2) hex(1,2,5)] obtain com where com: "NewCertificateOfMembership cr (issueTime input) ?d ?n (iiRecipient input) ?k = Inr com" ..
  note c = NewCOM_Inr [OF com hex(1,2,3)]
  then obtain comBytes where cb: "COM_MarshalBinary com = Inr comBytes" "length comBytes = 272"
    using Sign_length [of cr ?k] hex(3) by (auto simp: COM_MarshalBinary_def signedPayload_def SignatureLength_def)
  from issueCOO_total [OF assms(2,3) hex(1,5,4) sec(3,4)] obtain coo cooBytes
    where coo: "issueCOO cr input (issueTime input) = Inr (coo, cooBytes)" "length cooBytes \<le> 413" by blast
  define ci where "ci = \<lparr> ciNetwork = iiNetwork input, ciMember = iiMember input, ciIssuedAt = iiIssuedAt input,
        ciRevision = iiRevision input, ciCredentialTimeMaxDelta = issuedDelta input, ciCertificateOfMembership = comBytes,
        ciCertificatesOfOwnership = cooBytes, ciCapabilities = caps, ciTags = tags, ciNetworkMembers = iiNetworkMembers input \<rparr>"
  have "\<exists>d. BuildDictionary ci = Inr d"
    using sec assms(1) cb(2) coo(2) hex(4) size
    by (intro BuildDictionary_total [of ci ips routes dns rules specialists])
      (auto simp: ci_def mayIssue_def IsZero_def configDelta_def issuedDelta_def configSize_def canonicalHex_def
        DefaultCredentialTimeMaxDelta_def duration_defs)
  then obtain dict where d: "BuildDictionary ci = Inr dict" ..
  then have l: "0 < length dict" "length dict < MaxConfigDictionary" using dictionary_bounds by blast+
  have "\<exists>chunks. BuildSignedChunks cr ?n dict (iiRevision input) (iiMaxChunkData input) ?k = Inr chunks"
    using l hex(1) assms(1) mx chunkLoop_total [OF Sign_keyPair [OF assms(2)]]
    by (auto simp: BuildSignedChunks_def Let_def mayIssue_def chunk_consts)
  with com cb coo pol d assms(1) show ?thesis
    by (auto simp: IssueAuthorizedConfig_Inr issueCredentials_def Let_def issueTime_def ci_def)
qed

text \<open>
  C2. Configurations end to end: \<^verbatim>\<open>IssueAuthorizedConfig\<close> succeeds only for an authorized member of the
  network, addressed by its own locally valid identity, with the private identity of the controller
  the network ID names. The chunks it returns verify with the controller's public identity for that
  network and revision and join to the dictionary; the dictionary parses, has the revision, the
  issued capabilities and tags, and under its key a certificate of membership that parses, verifies
  and names recipient, network and time window. A certificate of ownership is present exactly when
  the member has assigned addresses, and then parses, verifies, and owns exactly them.
\<close>

theorem issued_config_sound:
  assumes "ed25519_law cr" "wfIdentity (iiRecipient input)" "wfIdentity (iiController input)"
    and "IssueAuthorizedConfig cr input = Inr issued"
  shows "mayIssue cr input
    \<and> (\<exists>scs m comBytes. receiveChunks cr (Public (iiController input)) (icChunks issued) = Inr scs
       \<and> list_all (\<lambda>sc. scNetworkID sc = nwID (iiNetwork input) \<and> scUpdateID sc = iiRevision input) scs
       \<and> ParseDictionary (concat (map scData scs)) = Inr m
       \<and> HexUint m ''r'' = Some (iiRevision input)
       \<and> fmlookup m ''CAP'' = present (icCapabilities issued) \<and> fmlookup m ''TAG'' = present (icTags issued)
       \<and> fmlookup m ''C'' = Some comBytes \<and> ParseCertificateOfMembership comBytes = Inr (icCOM issued)
       \<and> COM_Verify cr (icCOM issued) (nwID (iiNetwork input)) (Public (iiController input)) = Inr ()
       \<and> membershipOf cr (issueTime input) (of_int (Milliseconds (issuedDelta input))) (nwID (iiNetwork input))
           (iiRecipient input) (icCOM issued)
       \<and> (case icCOO issued of
            None \<Rightarrow> mbIPAssignments (iiMember input) = [] \<and> fmlookup m ''COO'' = None
          | Some c \<Rightarrow> mbIPAssignments (iiMember input) \<noteq> []
              \<and> (\<exists>cooBytes. fmlookup m ''COO'' = Some cooBytes \<and> ParseCertificateOfOwnership cooBytes = Inr c)
              \<and> COO_Verify cr c (Public (iiController input)) = Inr () \<and> coNetworkID c = nwID (iiNetwork input)
              \<and> coIssuedTo c = mbNodeID (iiMember input)
              \<and> (\<forall>a. Owns c a \<longleftrightarrow> addrIsValid a \<and> stripZone a \<in> stripZone ` set (mbIPAssignments (iiMember input)))))"
proof -
  let ?n = "nwID (iiNetwork input)" and ?k = "iiController input" and ?t = "issueTime input"
  let ?d = "of_int (Milliseconds (issuedDelta input)) :: uint64"
  from assms(4) have may: "mayIssue cr input" and "issueCredentials cr input (issuedDelta input) = Inr issued"
    by (auto simp: IssueAuthorizedConfig_Inr)
  then obtain com comBytes coo cooBytes caps tags dict where
      com: "NewCertificateOfMembership cr ?t ?d ?n (iiRecipient input) ?k = Inr com" "COM_MarshalBinary com = Inr comBytes"
    and coo: "issueCOO cr input ?t = Inr (coo, cooBytes)"
    and d: "BuildDictionary \<lparr> ciNetwork = iiNetwork input, ciMember = iiMember input, ciIssuedAt = iiIssuedAt input,
        ciRevision = iiRevision input, ciCredentialTimeMaxDelta = issuedDelta input, ciCertificateOfMembership = comBytes,
        ciCertificatesOfOwnership = cooBytes, ciCapabilities = caps, ciTags = tags,
        ciNetworkMembers = iiNetworkMembers input \<rparr> = Inr dict"
    and ch: "BuildSignedChunks cr ?n dict (iiRevision input) (iiMaxChunkData input) ?k = Inr (icChunks issued)"
    and r: "icCOM issued = com" "icCOO issued = coo" "icCapabilities issued = caps" "icTags issued = tags"
    by (auto simp: issueCredentials_def issueTime_def rbind_eq_Inr Let_def)
  have hex: "canonicalHex 16 ?n" "canonicalHex 10 (idAddress ?k)" "canonicalHex 10 (idAddress (iiRecipient input))"
    using may assms(2,3) by (auto simp: mayIssue_def wfIdentity_def)
  note c = NewCOM_Inr [OF com(1) hex(1,3,2)]
  have s: "length (cmSignature com) = SignatureLength" using c Sign_length by blast
  have p: "ParseCertificateOfMembership comBytes = Inr com" using com_codec.parse_marshal s com(2) by blast
  then have ne: "present comBytes = Some comBytes" by (auto simp: present_def ParseCertificateOfMembership_def)
  have v: "COM_Verify cr com ?n (Public ?k) = Inr ()" by (rule NewCOM_verifies [OF assms(1,3) hex(1) assms(2) com(1)])
  from dictionary_credentials [OF d] obtain m where m: "ParseDictionary dict = Inr m" "HexUint m ''r'' = Some (iiRevision input)"
      "fmlookup m ''C'' = Some comBytes" "fmlookup m ''COO'' = present cooBytes" "fmlookup m ''CAP'' = present caps"
      "fmlookup m ''TAG'' = present tags" "canonicalHex 10 (mbNodeID (iiMember input))" by (auto simp: ne)
  note o = issueCOO_Inr [OF coo assms(1,3) hex(1) m(7)]
  from BuildSignedChunks_parses [OF assms(1,3) ch] obtain scs where "receiveChunks cr (Public ?k) (icChunks issued) = Inr scs"
      "concat (map scData scs) = dict" "list_all (\<lambda>sc. scNetworkID sc = ?n \<and> scUpdateID sc = iiRevision input) scs" by blast
  with may m p v c o r show ?thesis
    by (intro conjI exI [of _ scs] exI [of _ m] exI [of _ comBytes]) (auto simp: present_def split: option.splits)
qed

text \<open>A member whose identity passes the proof of work of the concrete primitives.\<close>

definition toyRecipient :: Identity where
  "toyRecipient = withAddress toyCrypto (toyIdentity 9)"

lemma toyRecipient_valid:
  "wfIdentity toyRecipient" "LocallyValidate toyCrypto toyRecipient" "idAddress toyRecipient = ''0000000040''"
proof -
  have l: "length (idPublicKey (toyIdentity 9)) = 64" by (simp add: toyIdentity_def)
  show a: "idAddress toyRecipient = ''0000000040''"
    unfolding toyRecipient_def withAddress_def toy_hash [OF l] by simp code_simp
  have "acceptable toyCrypto (toyIdentity 9)" unfolding acceptable_def toy_hash [OF l] by code_simp
  from withAddress_valid [OF toy_keyPair this] show "wfIdentity toyRecipient" "LocallyValidate toyCrypto toyRecipient"
    by (simp_all add: toyRecipient_def)
qed

definition toyMember :: Member where
  "toyMember = (NewMember toyNetworkID ''0000000040'' 1)\<lparr>mbAuthorized := True, mbRevision := 1\<rparr>"

definition toyIssue :: IssueInput where
  "toyIssue = \<lparr> iiNetwork = plainNetwork\<lparr>nwRevision := 1\<rparr>, iiMember = toyMember, iiNetworkMembers = [toyMember],
     iiRecipient = toyRecipient, iiController = toyIdentity 7, iiIssuedAt = 62135596800001000000, iiRevision = 5,
     iiMaxChunkData = 0, iiCredentialDelta = 0 \<rparr>"

lemma toyMember_issuable: "issuable (plainNetwork\<lparr>nwRevision := r\<rparr>) toyMember [toyMember]"
proof -
  have "canonicalHex 10 ''0000000040''" by (simp add: canonicalHex_def lowerhex_def)
  then have v: "Member_Validate toyMember = Inr ()"
    by (simp add: toyMember_def Member_Validate_def NewMember_def toyNetworkID_canonical CurrentSchemaVersion_def IsZero_def
        validateUniqueMemberValues_def)
  obtain dns where "serializeDNS (nwDNS plainNetwork) = Inr dns" "length dns = 132" using plain_serialized(3) by blast
  moreover have "serializeStaticIPs (plainNetwork\<lparr>nwRevision := r\<rparr>) toyMember = Inr []"
    by (simp add: serializeStaticIPs_def plainNetwork_def toyMember_def NewNetwork_def NewMember_def
        derivedIPv6Assignments_def split: sum.splits)
  moreover have "serializeSpecialists (nwID plainNetwork) [toyMember] = Inr []"
    by (simp add: serializeSpecialists_def plainNetwork_def toyMember_def NewNetwork_def NewMember_def toyNetworkID_def
        memberRole_def fcard_fempty)
  moreover have "Network_Validate (plainNetwork\<lparr>nwRevision := r\<rparr>) = Inr ()"
    using plain_valid(1) by (simp add: Network_Validate_iff wfNetwork_def)
  moreover have "policySize (plainNetwork\<lparr>nwRevision := r\<rparr>) toyMember = 0"
    by (simp add: policySize_def orderedCapabilities_def orderedTags_def capabilityIDs_def tagValues_def
        plainNetwork_def NewNetwork_def toyMember_def NewMember_def)
  ultimately show ?thesis
    using v plain_serialized(2,4)
    by (simp add: issuable_def MaxDictionaryLength_def toyMember_def NewMember_def plainNetwork_def NewNetwork_def)
qed

lemma toyIssue_may: "mayIssue toyCrypto toyIssue"
  using toyRecipient_valid toyNetworkID_canonical
  by (simp add: mayIssue_def toyIssue_def toyMember_def NewMember_def plainNetwork_def NewNetwork_def toyNetworkID_def
      toyIdentity_def IsZero_def UnixMilli_def issuedDelta_def DefaultCredentialTimeMaxDelta_def duration_defs)

theorem issued_config_sound_witness:
  "\<exists>issued scs m. IssueAuthorizedConfig toyCrypto toyIssue = Inr issued
     \<and> receiveChunks toyCrypto (Public (toyIdentity 7)) (icChunks issued) = Inr scs
     \<and> ParseDictionary (concat (map scData scs)) = Inr m \<and> HexUint m ''r'' = Some 5 \<and> fmlookup m ''COO'' = None"
proof -
  have c: "iiController toyIssue = toyIdentity 7" "iiRecipient toyIssue = toyRecipient" "iiRevision toyIssue = 5"
      "mbIPAssignments (iiMember toyIssue) = []"
    by (simp_all add: toyIssue_def toyMember_def NewMember_def)
  have "\<exists>issued. IssueAuthorizedConfig toyCrypto toyIssue = Inr issued"
    by (rule IssueAuthorizedConfig_total)
      (simp_all add: toyIssue_may c toy_keyPair toy_wf toyRecipient_valid, simp_all add: toyIssue_def toyMember_issuable)
  then obtain issued where i: "IssueAuthorizedConfig toyCrypto toyIssue = Inr issued" ..
  have "wfIdentity (iiRecipient toyIssue)" "wfIdentity (iiController toyIssue)"
    by (simp_all add: c toy_wf toyRecipient_valid)
  from issued_config_sound [OF toy_laws(1) this i] i show ?thesis
    by (cases "icCOO issued") (auto simp: c)
qed

end
