(* ===== verification/ConfigHandler.thy ===== *)
theory ConfigHandler
  imports Issue Ipam Dictionary
begin

text \<open>
  \<^verbatim>\<open>internal/controller/config.go\<close>: answering a network configuration request. The handler joins the
  request parser, the service, automatic address assignment and the issuing of configurations. The
  lemmas show what each outcome means for the stored documents, that no request ever authorizes a
  member, and that an authorized member with issuable documents is served.
\<close>

record ConfigReply =
  rpVerb :: byte
  rpPayload :: bytes

definition configErrorReply :: "uint64 \<Rightarrow> NetworkID \<Rightarrow> byte \<Rightarrow> ConfigReply list result" where
  "configErrorReply packetID networkID code =
     rbind (WrapError packetID networkID code) (\<lambda>payload. Inr [\<lparr> rpVerb = VerbError, rpPayload = payload \<rparr>])"

text \<open>The subtraction and the additions are those of \<^verbatim>\<open>uint64\<close>.\<close>

definition configRevision :: "uint64 \<Rightarrow> uint64 \<Rightarrow> uint64 result" where
  "configRevision networkRevision memberRevision =
     (if networkRevision = 0 \<or> memberRevision = 0 then Inl (Errorf ''persisted revisions must be nonzero'')
      else if networkRevision > 0xffffffffffffffff - memberRevision + 1
      then Inl (Errorf ''configuration revision overflow'')
      else Inr (networkRevision + memberRevision - 1))"

text \<open>The tail of the handler, for a registered and authorized member.\<close>

definition issueReplies ::
    "Crypto \<Rightarrow> 's Service \<Rightarrow> Context \<Rightarrow> uint64 \<Rightarrow> Network \<Rightarrow> Member \<Rightarrow> Identity \<Rightarrow> Identity \<Rightarrow> ('s, ConfigReply list) operation" where
  "issueReplies cr sv ctx packetID network member recipient controllerIdentity =
     sbind (ensureAutomaticAssignments sv ctx network member) (\<lambda>member.
     sbind (swrap ''list network specialists: %w'' (sread (stListMembers (svStore sv) ctx (nwID network)))) (\<lambda>networkMembers.
     sbind (slift (configRevision (nwRevision network) (mbRevision member))) (\<lambda>revision.
     sbind (snow sv) (\<lambda>now.
     sbind (slift (IssueAuthorizedConfig cr \<lparr> iiNetwork = network, iiMember = member, iiNetworkMembers = networkMembers,
       iiRecipient = recipient, iiController = controllerIdentity, iiIssuedAt = UTC now, iiRevision = revision,
       iiMaxChunkData = 0, iiCredentialDelta = 0 \<rparr>)) (\<lambda>issued.
     sret (map (\<lambda>chunk. \<lparr> rpVerb = VerbOK, rpPayload = WrapOK packetID chunk \<rparr>) (icChunks issued)))))))"

definition HandleConfigRequest ::
    "Crypto \<Rightarrow> 's Service \<Rightarrow> Context \<Rightarrow> Decoded \<Rightarrow> Identity \<Rightarrow> Identity \<Rightarrow> ('s, ConfigReply list) operation" where
  "HandleConfigRequest cr sv ctx decoded recipient controllerIdentity =
     sbind (slift (ParseRequest decoded)) (\<lambda>request.
     if rhSource (dcRouting decoded) \<noteq> idAddress recipient
     then sfail (Errorf ''packet source does not match recipient identity'')
     else if rhDestination (dcRouting decoded) \<noteq> svControllerID sv
     then sfail (Errorf ''config request is addressed to a different controller'')
     else if idAddress controllerIdentity \<noteq> svControllerID sv \<or> \<not> idHasPrivate controllerIdentity
     then sfail (Errorf ''controller signing identity does not match service'')
     else
       scatch (sread (stGetNetwork (svStore sv) ctx (rqNetworkID request))) (\<lambda>r. case r of
         Inl e \<Rightarrow>
           if errorsIs e ErrNotFound
           then slift (configErrorReply (rhPacketID (dcRouting decoded)) (rqNetworkID request) ErrorObjectNotFound)
           else sfail (Wrap ''get requested network: %w'' e)
       | Inr network \<Rightarrow>
           sbind (RegisterMember sv ctx (rqNetworkID request) (idAddress recipient)) (\<lambda>member.
           sbind (snow sv) (\<lambda>now.
           sbind (swrap ''persist agent metadata: %w'' (swrite (stUpsertAgentMetadata (svStore sv) ctx
             (Request_AgentMetadata request (rqNetworkID request) (idAddress recipient) now)))) (\<lambda>_.
           if \<not> mbAuthorized member
           then slift (configErrorReply (rhPacketID (dcRouting decoded)) (rqNetworkID request) ErrorAccessDenied)
           else issueReplies cr sv ctx (rhPacketID (dcRouting decoded)) network member recipient controllerIdentity)))))"

section \<open>The revision of a configuration\<close>

lemma configRevision_Inr:
  "configRevision n m = Inr r \<longleftrightarrow> n \<noteq> 0 \<and> m \<noteq> 0 \<and> unat n + unat m \<le> 2 ^ 64 \<and> unat r + 1 = unat n + unat m"
proof (cases "n = 0 \<or> m = 0")
  case False
  then have m: "0 < unat m" "0 < unat n" by (auto simp: unat_eq_zero zero_less_iff_neq_zero)
  have lt: "unat m < 2 ^ 64" using unsigned_less [of m] by simp
  have "unat (0xffffffffffffffff - m) = 2 ^ 64 - 1 - unat m"
  proof -
    have "m \<le> 0xffffffffffffffff" using lt by (simp add: word_le_nat_alt)
    then show ?thesis by (simp add: unat_sub)
  qed
  then have l: "unat (0xffffffffffffffff - m + 1) = 2 ^ 64 - unat m"
    using m lt by (subst unat_add_lem [THEN iffD1]) auto
  have s: "n \<le> 0xffffffffffffffff - m + 1 \<longleftrightarrow> unat n + unat m \<le> 2 ^ 64"
    unfolding word_le_nat_alt l using lt by auto
  have "unat (n + m - 1) + 1 = unat n + unat m" if "unat n + unat m \<le> 2 ^ 64"
  proof -
    have e: "n + m - 1 = n + (m - 1)" by simp
    have "unat (m - 1) = unat m - 1" using False by (simp add: unat_minus_one)
    moreover have "unat (n + (m - 1)) = (unat n + unat (m - 1)) mod 2 ^ 64" by (simp add: unat_word_ariths(1))
    ultimately show ?thesis unfolding e using that m by simp
  qed
  then show ?thesis
    using False s by (auto simp: configRevision_def not_less word_unat_eq_iff)
qed (auto simp: configRevision_def)

lemma configRevision_total:
  assumes "n \<noteq> 0" "m \<noteq> 0" "unat n + unat m \<le> 2 ^ 64"
  shows "\<exists>r. configRevision n m = Inr r"
proof -
  have "0 < unat n" using assms(1) by (simp add: unat_gt_0)
  moreover define x where "x = unat n + unat m - 1"
  moreover have "x < 2 ^ 64" using calculation assms(3) by simp
  then have "unat (of_nat x :: uint64) = x" by (simp add: unat_of_nat)
  ultimately have "unat (of_nat x :: uint64) + 1 = unat n + unat m" by simp
  then show ?thesis using assms configRevision_Inr by blast
qed

section \<open>Effects on the store\<close>

text \<open>No network changes and no member becomes or ceases to be authorized.\<close>

definition keepsAuthorization :: "AStore \<Rightarrow> AStore \<Rightarrow> bool" where
  "keepsAuthorization a a' = (wfAStore a' \<and> asNetworks a' = asNetworks a \<and> (\<forall>i j. authorizedIn i j a' \<longleftrightarrow> authorizedIn i j a))"

lemma keepsAuthorization_refl: "wfAStore a \<Longrightarrow> keepsAuthorization a a"
  by (simp add: keepsAuthorization_def)

lemma keepsAuthorization_trans: "keepsAuthorization a b \<Longrightarrow> keepsAuthorization b c \<Longrightarrow> keepsAuthorization a c"
  by (simp add: keepsAuthorization_def)

definition keeping :: "(AStore, 'a) operation \<Rightarrow> bool" where
  "keeping m = (\<forall>w. wfAStore (wStore w) \<longrightarrow> keepsAuthorization (wStore w) (wStore (snd (m w))))"

lemma keeping_basic:
  "keeping (sret x)" "keeping (sfail e)" "keeping (slift r)" "keeping (sread f)" "keeping (snow sv)"
  by (simp_all add: keeping_def operation_defs keepsAuthorization_refl)

lemma keeping_swrap: "keeping m \<Longrightarrow> keeping (swrap s m)"
  by (simp add: keeping_def swrap_def case_prod_unfold)

lemma keeping_sbind: "keeping m \<Longrightarrow> (\<And>x. keeping (f x)) \<Longrightarrow> keeping (sbind m f)"
proof (unfold keeping_def [of "sbind m f"], intro allI impI)
  fix w :: "AStore World"
  assume m: "keeping m" and f: "\<And>x. keeping (f x)" and w: "wfAStore (wStore w)"
  obtain r w1 where r: "m w = (r, w1)" by force
  with m w have k: "keepsAuthorization (wStore w) (wStore w1)" unfolding keeping_def by (metis snd_conv)
  then have w1: "wfAStore (wStore w1)" by (simp add: keepsAuthorization_def)
  show "keepsAuthorization (wStore w) (wStore (snd (sbind m f w)))"
  proof (cases r)
    case (Inr x)
    have "keepsAuthorization (wStore w1) (wStore (snd (f x w1)))" using f w1 unfolding keeping_def by blast
    with k show ?thesis using r Inr by (auto simp: sbind_def intro: keepsAuthorization_trans)
  qed (use k r in \<open>simp add: sbind_def\<close>)
qed

lemma keeping_scatch: "keeping (sread g) \<Longrightarrow> (\<And>r. keeping (f r)) \<Longrightarrow> keeping (scatch (sread g) f)"
  by (simp add: keeping_def scatch_def sread_def)

lemmas keeping_intros = keeping_basic keeping_swrap keeping_sbind keeping_scatch

lemma keeping_metadata: "keeping (swrite (aUpsertAgentMetadata md))"
proof (unfold keeping_def, intro allI impI)
  fix w :: "AStore World"
  assume "wfAStore (wStore w)"
  from aUpsertAgentMetadata_wf [OF this, of md]
  show "keepsAuthorization (wStore w) (wStore (snd (swrite (aUpsertAgentMetadata md) w)))"
    by (auto simp: swrite_def keepsAuthorization_def authorizedIn_def aUpsertAgentMetadata_def split: sum.splits)
qed

lemma keeping_RegisterMember:
  assumes "svStore sv = absStore" shows "keeping (RegisterMember sv None k l)"
proof (unfold keeping_def, intro allI impI)
  fix w :: "AStore World"
  assume w: "wfAStore (wStore w)"
  obtain r w' where r: "RegisterMember sv None k l w = (r, w')" by force
  have "wfAStore (wStore w')"
    using abs_RegisterMember_safe [OF assms w, where k = k and l = l] r by (simp add: safeStep_def)
  with abs_RegisterMember [OF assms r] r
  show "keepsAuthorization (wStore w) (wStore (snd (RegisterMember sv None k l w)))"
    by (auto simp: keepsAuthorization_def authorizedIn_def NewMember_def split: sum.splits option.splits if_splits)
qed

text \<open>The same from one known store, to follow a document that was read.\<close>

definition keepingAt :: "AStore \<Rightarrow> (AStore, 'a) operation \<Rightarrow> bool" where
  "keepingAt a m = (\<forall>w. wStore w = a \<longrightarrow> keepsAuthorization a (wStore (snd (m w))))"

lemma keepingAt_intros:
  "wfAStore a \<Longrightarrow> keepingAt a (sret x)"
  "wfAStore a \<Longrightarrow> (\<And>x. f a = Inr x \<Longrightarrow> keepingAt a (g1 x)) \<Longrightarrow> keepingAt a (sbind (sread f) g1)"
  "(\<And>t. keepingAt a (g2 t)) \<Longrightarrow> keepingAt a (sbind (snow sv) g2)"
  "wfAStore a \<Longrightarrow> (\<And>x. keepingAt a (g3 x)) \<Longrightarrow> keepingAt a (sbind (swrap s (slift r)) g3)"
  "keepsAuthorization a (snd (save a)) \<Longrightarrow> keepingAt a (sbind (swrap s (swrite save)) (\<lambda>_. sread h))"
  by (auto simp: keepingAt_def operation_defs keepsAuthorization_refl split: sum.splits prod.splits)

lemma keeping_ensure:
  assumes "svStore sv = absStore" shows "keeping (ensureAutomaticAssignments sv None n m)"
proof -
  have save: "keepsAuthorization a (snd (aSaveMember (c\<lparr>mbIPAssignments := as, mbUpdatedAt := t\<rparr>) a))"
    if w: "wfAStore a" and "asMembers a (i, j) = Some c" for a c as t i j
    using aSaveMember_wf [OF w, of "c\<lparr>mbIPAssignments := as, mbUpdatedAt := t\<rparr>"] wfAStoreD(2) [OF that] that
    by (auto simp: keepsAuthorization_def authorizedIn_def aSaveMember_def split: sum.splits option.splits)
  have "keepingAt a (ensureAutomaticAssignments sv None n m)" if "wfAStore a" for a
    unfolding ensureAutomaticAssignments_def Let_def
    using that assms by (auto intro!: keepingAt_intros save)
  then show ?thesis by (auto simp: keeping_def keepingAt_def)
qed

lemma keeping_HandleConfigRequest:
  assumes "svStore sv = absStore" shows "keeping (HandleConfigRequest cr sv None d recipient k)"
  unfolding HandleConfigRequest_def issueReplies_def assms absStore_def Store.simps
  using keeping_RegisterMember [OF assms] keeping_ensure [OF assms]
  by (auto intro!: keeping_intros keeping_metadata split: sum.splits)

context persistent_store
begin

lemma sim_HandleConfigRequest:
  "sim sinv sabs (HandleConfigRequest cr (sv\<lparr>svStore := S\<rparr>) None d recipient k)
     (HandleConfigRequest cr (absService (sv\<lparr>svStore := S\<rparr>)) None d recipient k)"
  unfolding HandleConfigRequest_def issueReplies_def
  by (auto intro!: sim_store sim_RegisterMember sim_ensureAutomaticAssignments split: sum.split)

end

lemma mem_HandleConfigRequest:
  assumes "svStore sv = memoryStore" "memInv (wStore w)" "HandleConfigRequest cr sv None d recipient k w = (r, w')"
  shows "memInv (wStore w')"
    and "HandleConfigRequest cr (absService sv) None d recipient k (absWorld memAbs w) = (r, absWorld memAbs w')"
proof -
  have "sim memInv memAbs (HandleConfigRequest cr sv None d recipient k) (HandleConfigRequest cr (absService sv) None d recipient k)"
    using mem.sim_HandleConfigRequest [of cr sv d recipient k] unfolding memService_same [OF assms(1)] .
  from mem_sim [OF this assms(2,3)] show "memInv (wStore w')"
    and "HandleConfigRequest cr (absService sv) None d recipient k (absWorld memAbs w) = (r, absWorld memAbs w')" by auto
qed

section \<open>Outcomes\<close>

lemma sbind_Inr: "sbind m f w = (Inr x, w') \<longleftrightarrow> (\<exists>y w1. m w = (Inr y, w1) \<and> f y w1 = (Inr x, w'))"
  by (cases "m w") (auto simp: sbind_def split: sum.splits)

lemma swrap_Inr: "swrap s m w = (Inr x, w') \<longleftrightarrow> m w = (Inr x, w')"
  by (cases "m w") (auto simp: swrap_def)

lemma snow_Inr: "snow sv w = (Inr t, w') \<longleftrightarrow> t = svNow sv (wClock w) \<and> w' = w\<lparr>wClock := Suc (wClock w)\<rparr>"
  by (auto simp: snow_def)

text \<open>The reply to a request that is refused, and the guards of the handler.\<close>

definition errorReply :: "Decoded \<Rightarrow> NetworkID \<Rightarrow> byte \<Rightarrow> ConfigReply" where
  "errorReply d i code = \<lparr> rpVerb = VerbError,
     rpPayload = VerbNetworkConfigRequest # be_bytes 8 (rhPacketID (dcRouting d)) @ [code] @ decodedHex i \<rparr>"

definition requestAdmissible :: "'s Service \<Rightarrow> Decoded \<Rightarrow> Identity \<Rightarrow> Identity \<Rightarrow> bool" where
  "requestAdmissible sv d recipient k = (rhSource (dcRouting d) = idAddress recipient
     \<and> rhDestination (dcRouting d) = svControllerID sv \<and> idAddress k = svControllerID sv \<and> idHasPrivate k)"

definition servedConfig :: "Crypto \<Rightarrow> Network \<Rightarrow> Member \<Rightarrow> Member list \<Rightarrow> Identity \<Rightarrow> Identity \<Rightarrow> time \<Rightarrow> uint64 \<Rightarrow> IssueInput" where
  "servedConfig cr network member members recipient k t revision = \<lparr> iiNetwork = network, iiMember = member,
     iiNetworkMembers = members, iiRecipient = recipient, iiController = k, iiIssuedAt = t, iiRevision = revision,
     iiMaxChunkData = 0, iiCredentialDelta = 0 \<rparr>"

lemma configErrorReply_eq:
  "canonicalHex 16 i \<Longrightarrow> code = ErrorObjectNotFound \<or> code = ErrorAccessDenied \<Longrightarrow>
     configErrorReply (rhPacketID (dcRouting d)) i code = Inr [errorReply d i code]"
  by (auto simp: configErrorReply_def WrapError_def errorReply_def)

lemma ParseRequest_network: "ParseRequest d = Inr rq \<Longrightarrow> canonicalHex 16 (rqNetworkID rq)"
  by (auto simp: ParseRequest_def Let_def rbind_eq_Inr ParseNetworkID_iff split: if_splits)

lemma abs_issueReplies:
  assumes "svStore sv = absStore" "wfAStore (wStore w)" "finite {j. asMembers (wStore w) (nwID n, j) \<noteq> None}"
    and "asMembers (wStore w) (nwID n, mbNodeID m) = Some m"
    and "issueReplies cr sv None pid n m recipient k w = (Inr replies, w')"
  shows "\<exists>m' ms t rev issued. asMembers (wStore w') (nwID n, mbNodeID m) = Some m' \<and> asMetadata (wStore w') = asMetadata (wStore w)
    \<and> aListMembers (nwID n) (wStore w') = Inr ms \<and> configRevision (nwRevision n) (mbRevision m') = Inr rev
    \<and> IssueAuthorizedConfig cr (servedConfig cr n m' ms recipient k t rev) = Inr issued
    \<and> replies = map (\<lambda>chunk. \<lparr> rpVerb = VerbOK, rpPayload = WrapOK pid chunk \<rparr>) (icChunks issued)"
proof -
  from assms(5) obtain m' w1 ms rev issued where e: "ensureAutomaticAssignments sv None n m w = (Inr m', w1)"
    and l: "aListMembers (nwID n) (wStore w1) = Inr ms" "wStore w' = wStore w1"
    and r: "configRevision (nwRevision n) (mbRevision m') = Inr rev"
    and i: "IssueAuthorizedConfig cr (servedConfig cr n m' ms recipient k (UTC (svNow sv (wClock w1))) rev) = Inr issued"
      "replies = map (\<lambda>chunk. \<lparr> rpVerb = VerbOK, rpPayload = WrapOK pid chunk \<rparr>) (icChunks issued)"
    using assms(1) by (auto simp: issueReplies_def sbind_Inr swrap_Inr snow_Inr slift_def sread_def sret_def servedConfig_def)
  have "asMembers (wStore w1) (nwID n, mbNodeID m) = Some m' \<and> asMetadata (wStore w1) = asMetadata (wStore w)"
    using abs_ensure [OF assms(1-3) e] assms(4) by auto
  then show ?thesis using l r i by metis
qed

lemma abs_HandleConfigRequest:
  assumes "svStore sv = absStore" "wfAStore (wStore w)" "\<And>i. finite {j. asMembers (wStore w) (i, j) \<noteq> None}"
    and "HandleConfigRequest cr sv None d recipient k w = (Inr replies, w')"
  shows "\<exists>rq. ParseRequest d = Inr rq \<and> requestAdmissible sv d recipient k
    \<and> (case asNetworks (wStore w) (rqNetworkID rq) of
         None \<Rightarrow> wStore w' = wStore w \<and> replies = [errorReply d (rqNetworkID rq) ErrorObjectNotFound]
       | Some n \<Rightarrow>
           (\<exists>t. asMetadata (wStore w') (rqNetworkID rq, idAddress recipient)
              = Some (Request_AgentMetadata rq (rqNetworkID rq) (idAddress recipient) t))
           \<and> (if authorizedIn (rqNetworkID rq) (idAddress recipient) (wStore w)
              then \<exists>m ms t rev issued. asMembers (wStore w') (rqNetworkID rq, idAddress recipient) = Some m \<and> mbAuthorized m
                \<and> aListMembers (rqNetworkID rq) (wStore w') = Inr ms
                \<and> configRevision (nwRevision n) (mbRevision m) = Inr rev
                \<and> IssueAuthorizedConfig cr (servedConfig cr n m ms recipient k t rev) = Inr issued
                \<and> replies = map (\<lambda>chunk. \<lparr> rpVerb = VerbOK, rpPayload = WrapOK (rhPacketID (dcRouting d)) chunk \<rparr>) (icChunks issued)
              else replies = [errorReply d (rqNetworkID rq) ErrorAccessDenied]
                \<and> (\<exists>m. asMembers (wStore w') (rqNetworkID rq, idAddress recipient) = Some m \<and> \<not> mbAuthorized m)))"
proof -
  from assms(4) obtain rq where rq: "ParseRequest d = Inr rq" and adm: "requestAdmissible sv d recipient k"
    by (auto simp: HandleConfigRequest_def sbind_Inr slift_def sfail_def requestAdmissible_def split: if_splits)
  let ?i = "rqNetworkID rq" and ?j = "idAddress recipient"
  note hex = ParseRequest_network [OF rq]
  show ?thesis
  proof (cases "asNetworks (wStore w) ?i")
    case None
    have "(Inr [errorReply d ?i ErrorObjectNotFound], w) = (Inr replies, w')"
      using assms(4) rq adm None assms(1) configErrorReply_eq [OF hex, of ErrorObjectNotFound d]
      by (simp add: HandleConfigRequest_def requestAdmissible_def run_simps)
    then show ?thesis using rq adm None by auto
  next
    case (Some n)
    from assms(4) rq adm Some assms(1) obtain m w1 where reg: "RegisterMember sv None ?i ?j w = (Inr m, w1)"
      and rest: "sbind (snow sv) (\<lambda>now. sbind (swrap ''persist agent metadata: %w'' (swrite (stUpsertAgentMetadata (svStore sv) None
             (Request_AgentMetadata rq ?i ?j now)))) (\<lambda>_.
           if \<not> mbAuthorized m then slift (configErrorReply (rhPacketID (dcRouting d)) ?i ErrorAccessDenied)
           else issueReplies cr sv None (rhPacketID (dcRouting d)) n m recipient k)) w1 = (Inr replies, w')"
      by (auto simp: HandleConfigRequest_def requestAdmissible_def run_bind_slift run_scatch run_sread sbind_Inr [of "RegisterMember sv None _ _"])
    define md where "md = Request_AgentMetadata rq ?i ?j (svNow sv (wClock w1))"
    have kp: "keepsAuthorization (wStore w) (wStore w1)"
      using keeping_RegisterMember [OF assms(1), of ?i ?j] assms(2) reg unfolding keeping_def by (metis snd_conv)
    note R = abs_RegisterMember [OF assms(1) reg]
    have "finite {j. asMembers (wStore w1) (?i, j) \<noteq> None}"
    proof (cases "asMembers (wStore w) (?i, ?j)")
      case None
      with R have "{j. asMembers (wStore w1) (?i, j) \<noteq> None} = insert ?j {j. asMembers (wStore w) (?i, j) \<noteq> None}" by auto
      then show ?thesis using assms(3) [of ?i] by simp
    qed (use R assms(3) [of ?i] in simp)
    moreover have "asMembers (wStore w1) (?i, ?j) = Some m" using R by simp
    moreover have "authorizedIn ?i ?j (wStore w1) \<longleftrightarrow> mbAuthorized m" using calculation(2) by (simp add: authorizedIn_def)
    ultimately have w1: "wfAStore (wStore w1)" "asMembers (wStore w1) (?i, ?j) = Some m" "asNetworks (wStore w1) ?i = Some n"
        "authorizedIn ?i ?j (wStore w) \<longleftrightarrow> mbAuthorized m" "finite {j. asMembers (wStore w1) (?i, j) \<noteq> None}"
      using kp Some by (auto simp: keepsAuthorization_def)
    obtain s2 where up: "aUpsertAgentMetadata md (wStore w1) = (Inr (), s2)"
      and fin: "(if \<not> mbAuthorized m then slift (configErrorReply (rhPacketID (dcRouting d)) ?i ErrorAccessDenied)
           else issueReplies cr sv None (rhPacketID (dcRouting d)) n m recipient k) (w1\<lparr>wClock := Suc (wClock w1), wStore := s2\<rparr>)
         = (Inr replies, w')"
      using rest assms(1) by (auto simp: sbind_Inr swrap_Inr snow_Inr md_def swrite_def split: prod.splits)
    define w2 where "w2 = w1\<lparr>wClock := Suc (wClock w1), wStore := s2\<rparr>"
    have fin: "(if \<not> mbAuthorized m then slift (configErrorReply (rhPacketID (dcRouting d)) ?i ErrorAccessDenied)
           else issueReplies cr sv None (rhPacketID (dcRouting d)) n m recipient k) w2 = (Inr replies, w')"
      and up: "aUpsertAgentMetadata md (wStore w1) = (Inr (), wStore w2)" using fin up by (simp_all add: w2_def)
    have w2: "wStore w2 = (wStore w1)\<lparr>asMetadata := (asMetadata (wStore w1))((?i, ?j) \<mapsto> md)\<rparr>"
      using up by (auto simp: aUpsertAgentMetadata_def md_def Request_AgentMetadata_def split: sum.splits if_splits)
    have wf2: "wfAStore (wStore w2)" using aUpsertAgentMetadata_wf [OF w1(1), of md] up by simp
    have k: "nwID n = ?i" "mbNodeID m = ?j" using wfAStoreD(1) [OF w1(1,3)] wfAStoreD(2) [OF w1(1,2)] by simp_all
    show ?thesis
    proof (cases "mbAuthorized m")
      case False
      then have "replies = [errorReply d ?i ErrorAccessDenied]" "wStore w' = wStore w2"
        using fin configErrorReply_eq [OF hex, of ErrorAccessDenied d] by (auto simp: slift_def)
      then show ?thesis using rq adm Some False w1 w2 by (auto simp: md_def)
    next
      case True
      then have "issueReplies cr sv None (rhPacketID (dcRouting d)) n m recipient k w2 = (Inr replies, w')" using fin by simp
      from abs_issueReplies [OF assms(1) wf2 _ _ this] w1 w2 k
      obtain m' ms t rev issued where "asMembers (wStore w') (?i, ?j) = Some m'" "asMetadata (wStore w') = asMetadata (wStore w2)"
        "aListMembers ?i (wStore w') = Inr ms" "configRevision (nwRevision n) (mbRevision m') = Inr rev"
        "IssueAuthorizedConfig cr (servedConfig cr n m' ms recipient k t rev) = Inr issued"
        "replies = map (\<lambda>chunk. \<lparr> rpVerb = VerbOK, rpPayload = WrapOK (rhPacketID (dcRouting d)) chunk \<rparr>) (icChunks issued)"
        by auto
      moreover from this(5) have "mbAuthorized m'" by (auto simp: IssueAuthorizedConfig_Inr mayIssue_def servedConfig_def)
      ultimately show ?thesis using rq adm Some True w1 w2 by (auto simp: md_def)
    qed
  qed
qed

text \<open>
  C1. Configuration requests: an answer other than an error means the request parsed, came from the
  recipient's address and was addressed to the controller that signs. For an unknown network it is one
  object-not-found reply and nothing is stored. Otherwise the agent's metadata is stored, and the
  answer is one access-denied reply unless the member was already authorized; then it is the signed
  chunks of a configuration issued for the stored network and the stored member, whose revision is
  one less than the sum of theirs.
\<close>

theorem config_request_outcomes:
  assumes "svStore sv = memoryStore" "memInv (wStore w)"
    and "HandleConfigRequest cr sv None d recipient k w = (Inr replies, w')"
  shows "memInv (wStore w') \<and> (\<exists>rq. ParseRequest d = Inr rq \<and> requestAdmissible sv d recipient k
    \<and> (case memGetNetwork None (rqNetworkID rq) (wStore w) of
         Inl _ \<Rightarrow> memAbs (wStore w') = memAbs (wStore w) \<and> replies = [errorReply d (rqNetworkID rq) ErrorObjectNotFound]
       | Inr n \<Rightarrow>
           (\<exists>t. memGetAgentMetadata None (rqNetworkID rq) (idAddress recipient) (wStore w')
              = Inr (Request_AgentMetadata rq (rqNetworkID rq) (idAddress recipient) t))
           \<and> (\<exists>m. memGetMember None (rqNetworkID rq) (idAddress recipient) (wStore w') = Inr m
             \<and> (mbAuthorized m \<longleftrightarrow> authorizedIn (rqNetworkID rq) (idAddress recipient) (memAbs (wStore w)))
             \<and> (if mbAuthorized m
                then \<exists>ms t rev issued. memListMembers None (rqNetworkID rq) (wStore w') = Inr ms
                  \<and> unat rev + 1 = unat (nwRevision n) + unat (mbRevision m)
                  \<and> IssueAuthorizedConfig cr (servedConfig cr n m ms recipient k t rev) = Inr issued
                  \<and> replies = map (\<lambda>chunk. \<lparr> rpVerb = VerbOK, rpPayload = WrapOK (rhPacketID (dcRouting d)) chunk \<rparr>) (icChunks issued)
                else replies = [errorReply d (rqNetworkID rq) ErrorAccessDenied]))))"
proof -
  note M = mem_HandleConfigRequest [OF assms]
  have ad: "requestAdmissible (absService sv) = requestAdmissible sv" by (simp add: fun_eq_iff requestAdmissible_def)
  have st: "svStore (absService sv) = absStore" by simp
  have "wfAStore (wStore (absWorld memAbs w))" "\<And>i. finite {j. asMembers (wStore (absWorld memAbs w)) (i, j) \<noteq> None}"
    using memInv_wf [OF assms(2)] memAbs_finite [of "wStore w"] by simp_all
  from abs_HandleConfigRequest [OF st this M(2), unfolded absWorld_simps ad] obtain rq where rq: "ParseRequest d = Inr rq" "requestAdmissible sv d recipient k"
    and c: "case asNetworks (memAbs (wStore w)) (rqNetworkID rq) of
         None \<Rightarrow> memAbs (wStore w') = memAbs (wStore w) \<and> replies = [errorReply d (rqNetworkID rq) ErrorObjectNotFound]
       | Some n \<Rightarrow>
           (\<exists>t. asMetadata (memAbs (wStore w')) (rqNetworkID rq, idAddress recipient)
              = Some (Request_AgentMetadata rq (rqNetworkID rq) (idAddress recipient) t))
           \<and> (if authorizedIn (rqNetworkID rq) (idAddress recipient) (memAbs (wStore w))
              then \<exists>m ms t rev issued. asMembers (memAbs (wStore w')) (rqNetworkID rq, idAddress recipient) = Some m \<and> mbAuthorized m
                \<and> aListMembers (rqNetworkID rq) (memAbs (wStore w')) = Inr ms
                \<and> configRevision (nwRevision n) (mbRevision m) = Inr rev
                \<and> IssueAuthorizedConfig cr (servedConfig cr n m ms recipient k t rev) = Inr issued
                \<and> replies = map (\<lambda>chunk. \<lparr> rpVerb = VerbOK, rpPayload = WrapOK (rhPacketID (dcRouting d)) chunk \<rparr>) (icChunks issued)
              else replies = [errorReply d (rqNetworkID rq) ErrorAccessDenied]
                \<and> (\<exists>m. asMembers (memAbs (wStore w')) (rqNetworkID rq, idAddress recipient) = Some m \<and> \<not> mbAuthorized m))"
    by blast
  have g: "memGetNetwork None i s = found (asNetworks (memAbs s) i)" "memGetMember None i j s = found (asMembers (memAbs s) (i, j))"
    "memGetAgentMetadata None i j s = found (asMetadata (memAbs s) (i, j))" "memListMembers None i s = aListMembers i (memAbs s)"
    if "memInv s" for i j s
    using mem.get_network [OF that] mem.get_member [OF that] mem.get_metadata [OF that] mem.list_members_abs [OF that] by simp_all
  show ?thesis
  proof (cases "asNetworks (memAbs (wStore w)) (rqNetworkID rq)")
    case None
    then show ?thesis using M(1) rq c unfolding g [OF assms(2)] by (auto simp del: memAbs_sel)
  next
    case (Some n)
    note c = c [unfolded Some option.case]
    show ?thesis
    proof (cases "authorizedIn (rqNetworkID rq) (idAddress recipient) (memAbs (wStore w))")
      case True
      with c obtain m ms t rev issued where "asMembers (memAbs (wStore w')) (rqNetworkID rq, idAddress recipient) = Some m"
        "mbAuthorized m" "aListMembers (rqNetworkID rq) (memAbs (wStore w')) = Inr ms"
        "configRevision (nwRevision n) (mbRevision m) = Inr rev"
        "IssueAuthorizedConfig cr (servedConfig cr n m ms recipient k t rev) = Inr issued"
        "replies = map (\<lambda>chunk. \<lparr> rpVerb = VerbOK, rpPayload = WrapOK (rhPacketID (dcRouting d)) chunk \<rparr>) (icChunks issued)"
        by auto
      note a = this
      have "\<exists>ms t rev issued. aListMembers (rqNetworkID rq) (memAbs (wStore w')) = Inr ms
          \<and> unat rev + 1 = unat (nwRevision n) + unat (mbRevision m)
          \<and> IssueAuthorizedConfig cr (servedConfig cr n m ms recipient k t rev) = Inr issued
          \<and> replies = map (\<lambda>chunk. \<lparr> rpVerb = VerbOK, rpPayload = WrapOK (rhPacketID (dcRouting d)) chunk \<rparr>) (icChunks issued)"
        using a(3-6) unfolding configRevision_Inr by blast
      then show ?thesis
        using M(1) rq conjunct1 [OF c] True Some a(1,2) unfolding g [OF assms(2)] g [OF M(1)]
        by (intro conjI exI [of _ rq]) (auto simp del: memAbs_sel)
    next
      case False
      then show ?thesis
        using M(1) rq c Some unfolding g [OF assms(2)] g [OF M(1)]
        by (intro conjI exI [of _ rq]) (auto simp del: memAbs_sel)
    qed
  qed
qed

lemma mem_request_keeps:
  assumes "svStore sv = memoryStore" "memInv (wStore w)" "HandleConfigRequest cr sv None d recipient k w = (r, w')"
  shows "memInv (wStore w') \<and> asNetworks (memAbs (wStore w')) = asNetworks (memAbs (wStore w))
    \<and> (\<forall>i j. authorizedIn i j (memAbs (wStore w')) \<longleftrightarrow> authorizedIn i j (memAbs (wStore w)))"
proof -
  note M = mem_HandleConfigRequest [OF assms]
  have "keeping (HandleConfigRequest cr (absService sv) None d recipient k)" by (rule keeping_HandleConfigRequest) simp
  then have "keepsAuthorization (memAbs (wStore w)) (memAbs (wStore w'))"
    unfolding keeping_def using M(2) memInv_wf [OF assms(2)] by (metis absWorld_simps(1) snd_conv)
  then show ?thesis using M(1) by (simp add: keepsAuthorization_def)
qed

text \<open>
  C3. Requests never authorize: whatever packet arrives from whatever identity, and whether it is
  answered or fails, the in-memory store keeps its invariant, no network document changes, and exactly
  the members that were authorized before are authorized afterwards.
\<close>

theorem config_request_keeps_authorization:
  assumes "svStore sv = memoryStore" "memInv (wStore w)" "HandleConfigRequest cr sv None d recipient k w = (r, w')"
  shows "memInv (wStore w') \<and> asNetworks (memAbs (wStore w')) = asNetworks (memAbs (wStore w))
    \<and> (\<forall>i j. authorizedIn i j (memAbs (wStore w')) \<longleftrightarrow> authorizedIn i j (memAbs (wStore w)))"
  by (rule mem_request_keeps [OF assms])

section \<open>Requests that are served\<close>

text \<open>
  An authorized member of an owned network with a locally valid identity, asking at a time after the
  epoch; the two revisions are set and their sum fits.
\<close>

definition mayServe :: "Crypto \<Rightarrow> 's Service \<Rightarrow> Network \<Rightarrow> Member \<Rightarrow> Identity \<Rightarrow> Identity \<Rightarrow> time \<Rightarrow> bool" where
  "mayServe cr sv n m recipient k t = (keyPair cr k \<and> wfIdentity k \<and> wfIdentity recipient \<and> LocallyValidate cr recipient
     \<and> validateOwnedNetwork sv (nwID n) = Inr () \<and> mbAuthorized m
     \<and> nwRevision n \<noteq> 0 \<and> mbRevision m \<noteq> 0 \<and> unat (nwRevision n) + unat (mbRevision m) \<le> 2 ^ 64
     \<and> t \<noteq> 0 \<and> 0 \<le> UnixMilli t)"

text \<open>
  The member after automatic assignment among the members \<open>ms\<close> of its network: with the first free address
  of each family that the network assigns and the member lacks, or as it was.
\<close>

definition assignedMember :: "Network \<Rightarrow> Member list \<Rightarrow> time \<Rightarrow> Member \<Rightarrow> Member" where
  "assignedMember n ms t m =
    (let used = (\<Union>x \<in> set ms. set (mbIPAssignments x));
         address4 = (if amIPv4ZeroTier (nwAssignment n) \<and> \<not> hasAddressFamily (mbIPAssignments m) True
                     then firstAvailableAddress n used True else None);
         address6 = (if amIPv6ZeroTier (nwAssignment n) \<and> \<not> hasAddressFamily (mbIPAssignments m) False
                     then firstAvailableAddress n (used \<union> set_option address4) False else None);
         new = optionList address4 @ optionList address6 in
     if mbNoAutoAssign m \<or> nwIPPools n = [] \<or> new = [] then m
     else m\<lparr>mbIPAssignments := mbIPAssignments m @ new, mbUpdatedAt := t, mbRevision := mbRevision m + 1\<rparr>)"

lemma assignedMember_keeps:
  "mbNetworkID (assignedMember n ms t m) = mbNetworkID m" "mbNodeID (assignedMember n ms t m) = mbNodeID m"
  "mbAuthorized (assignedMember n ms t m) = mbAuthorized m"
  by (simp_all add: assignedMember_def Let_def)

lemma optionList_eq_Nil [simp]: "optionList x = [] \<longleftrightarrow> x = None"
  by (simp add: optionList_def split: option.split)

lemma abs_ensure_run:
  assumes "svStore sv = absStore" "wfAStore (wStore w)" "asMembers (wStore w) (nwID n, mbNodeID m) = Some m"
    and "aListMembers (nwID n) (wStore w) = Inr ms"
  defines "m' \<equiv> assignedMember n ms (svNow sv (wClock w)) m"
  assumes "Member_Validate m' = Inr ()"
  shows "ensureAutomaticAssignments sv None n m w = (Inr m', if m' = m then w
    else w\<lparr>wClock := Suc (wClock w), wStore := (wStore w)\<lparr>asMembers := (asMembers (wStore w))((nwID n, mbNodeID m) \<mapsto> m')\<rparr>\<rparr>)"
proof -
  define used where "used = (\<Union>x \<in> set ms. set (mbIPAssignments x))"
  define a4 where "a4 = (if amIPv4ZeroTier (nwAssignment n) \<and> \<not> hasAddressFamily (mbIPAssignments m) True
    then firstAvailableAddress n used True else None)"
  define a6 where "a6 = (if amIPv6ZeroTier (nwAssignment n) \<and> \<not> hasAddressFamily (mbIPAssignments m) False
    then firstAvailableAddress n (used \<union> set_option a4) False else None)"
  define c where "c = m\<lparr>mbIPAssignments := mbIPAssignments m @ optionList a4 @ optionList a6, mbUpdatedAt := svNow sv (wClock w)\<rparr>"
  have m': "m' = (if mbNoAutoAssign m \<or> nwIPPools n = [] \<or> (a4 = None \<and> a6 = None) then m else c\<lparr>mbRevision := mbRevision m + 1\<rparr>)"
    unfolding m'_def assignedMember_def Let_def used_def [symmetric] a4_def [symmetric] a6_def [symmetric] by (simp add: c_def)
  have k: "mbNetworkID c = nwID n" "mbNodeID c = mbNodeID m" "mbRevision c = mbRevision m" using wfAStoreD(2) [OF assms(2,3)] by (simp_all add: c_def)
  have saved: "aSaveMember c (wStore w) = (Inr (), (wStore w)\<lparr>asMembers := (asMembers (wStore w))((nwID n, mbNodeID m) \<mapsto> c\<lparr>mbRevision := mbRevision m + 1\<rparr>)\<rparr>)"
      "Member_Validate c = Inr ()" if "m' = c\<lparr>mbRevision := mbRevision m + 1\<rparr>"
  proof -
    show v: "Member_Validate c = Inr ()" using assms(6) that by (simp add: Member_Validate_iff)
    then show "aSaveMember c (wStore w) = (Inr (), (wStore w)\<lparr>asMembers := (asMembers (wStore w))((nwID n, mbNodeID m) \<mapsto> c\<lparr>mbRevision := mbRevision m + 1\<rparr>)\<rparr>)"
      using assms(3) k by (simp add: aSaveMember_def)
  qed
  have new: "c\<lparr>mbRevision := mbRevision m + 1\<rparr> \<noteq> m"
  proof
    assume "c\<lparr>mbRevision := mbRevision m + 1\<rparr> = m"
    from arg_cong [OF this, of mbRevision] show False by simp
  qed
  let ?need4 = "\<lambda>x. amIPv4ZeroTier (nwAssignment n) \<and> \<not> hasAddressFamily (mbIPAssignments x) True"
  let ?need6 = "\<lambda>x. amIPv6ZeroTier (nwAssignment n) \<and> \<not> hasAddressFamily (mbIPAssignments x) False"
  define rest where "rest = (\<lambda>current (members :: Member list). let used = (\<Union>existing \<in> set members. set (mbIPAssignments existing));
      address4 = (if ?need4 current then firstAvailableAddress n used True else None);
      used = used \<union> set_option address4;
      address6 = (if ?need6 current then firstAvailableAddress n used False else None) in
    if address4 = None \<and> address6 = None then sret current
    else sbind (snow sv) (\<lambda>now.
      let current = current\<lparr>mbIPAssignments := mbIPAssignments current @ optionList address4 @ optionList address6, mbUpdatedAt := UTC now\<rparr> in
      sbind (swrap ''automatic IP assignment: %w'' (slift (Member_Validate current))) (\<lambda>_.
      sbind (swrap ''save automatic IP assignment: %w'' (swrite (stSaveMember (svStore sv) None current))) (\<lambda>_.
      sread (stGetMember (svStore sv) None (nwID n) (mbNodeID current))))))"
  have "ensureAutomaticAssignments sv None n m = (if mbNoAutoAssign m \<or> length (nwIPPools n) = 0 then sret m
      else if \<not> ?need4 m \<and> \<not> ?need6 m then sret m
      else sbind (sread (stGetMember (svStore sv) None (nwID n) (mbNodeID m))) (\<lambda>current.
        if mbNoAutoAssign current \<or> (\<not> ?need4 current \<and> \<not> ?need6 current) then sret current
        else sbind (sread (stListMembers (svStore sv) None (nwID n))) (rest current)))"
    unfolding ensureAutomaticAssignments_def rest_def Let_def by (rule refl)
  then have start: "ensureAutomaticAssignments sv None n m w
      = (if mbNoAutoAssign m \<or> nwIPPools n = [] \<or> (\<not> ?need4 m \<and> \<not> ?need6 m) then (Inr m, w) else rest m ms w)"
    using assms(1,3,4)
    by (cases "mbNoAutoAssign m \<or> nwIPPools n = [] \<or> (\<not> ?need4 m \<and> \<not> ?need6 m)") (auto simp: run_simps)
  have rest: "rest m ms w = (if a4 = None \<and> a6 = None then (Inr m, w)
      else (Inr (c\<lparr>mbRevision := mbRevision m + 1\<rparr>), w\<lparr>wClock := Suc (wClock w), wStore := (wStore w)\<lparr>asMembers :=
         (asMembers (wStore w))((nwID n, mbNodeID m) \<mapsto> c\<lparr>mbRevision := mbRevision m + 1\<rparr>)\<rparr>\<rparr>))"
    if "m' = (if a4 = None \<and> a6 = None then m else c\<lparr>mbRevision := mbRevision m + 1\<rparr>)"
    unfolding rest_def Let_def used_def [symmetric] a4_def [symmetric] a6_def [symmetric]
    using saved that k assms(1) by (cases "a4 = None \<and> a6 = None") (auto simp: run_simps c_def [symmetric] simp del: not_None_eq)
  have none: "a4 = None \<and> a6 = None" if "\<not> ?need4 m \<and> \<not> ?need6 m" using that by (auto simp: a4_def a6_def)
  show ?thesis
    using start rest m' new none by (cases "mbNoAutoAssign m \<or> nwIPPools n = [] \<or> (\<not> ?need4 m \<and> \<not> ?need6 m)") auto
qed

lemma keyPair_private: "keyPair cr k \<Longrightarrow> idHasPrivate k" by (simp add: keyPair_def)

lemma served_may:
  assumes "mayServe cr sv n m recipient k t" "requestAdmissible sv d recipient k" "mbNetworkID m = nwID n"
    "mbNodeID m = idAddress recipient" "configRevision (nwRevision n) (mbRevision m) = Inr revision"
  shows "mayIssue cr (servedConfig cr n m ms recipient k t revision)"
proof -
  have "revision \<noteq> 0"
  proof
    assume "revision = 0"
    with assms(5) have "nwRevision n \<noteq> 0" "mbRevision m \<noteq> 0" "unat (nwRevision n) + unat (mbRevision m) = 1"
      by (auto simp: configRevision_Inr)
    moreover from this have "0 < unat (nwRevision n)" "0 < unat (mbRevision m)" by (simp_all add: unat_gt_0)
    ultimately show False by simp
  qed
  moreover have "canonicalHex 16 (nwID n)" "take 10 (nwID n) = svControllerID sv"
    using assms(1) by (auto simp: mayServe_def validateOwnedNetwork_def rbind_eq_Inr ControllerID_iff split: if_splits)
  ultimately show ?thesis
    using assms keyPair_private
    by (auto simp: mayIssue_def servedConfig_def mayServe_def requestAdmissible_def issuedDelta_def IsZero_def
        DefaultCredentialTimeMaxDelta_def duration_defs)
qed

lemma served_issued:
  assumes "mayServe cr sv n m recipient k t" "requestAdmissible sv d recipient k" "mbNetworkID m = nwID n"
    "mbNodeID m = idAddress recipient" "issuable n m ms"
  obtains revision issued where "configRevision (nwRevision n) (mbRevision m) = Inr revision"
    "IssueAuthorizedConfig cr (servedConfig cr n m ms recipient k t revision) = Inr issued"
proof -
  obtain revision where r: "configRevision (nwRevision n) (mbRevision m) = Inr revision"
    using configRevision_total [of "nwRevision n" "mbRevision m"] assms(1) by (auto simp: mayServe_def)
  have "\<exists>issued. IssueAuthorizedConfig cr (servedConfig cr n m ms recipient k t revision) = Inr issued"
    by (rule IssueAuthorizedConfig_total [OF served_may [OF assms(1-4) r]])
      (use assms in \<open>auto simp: servedConfig_def mayServe_def\<close>)
  then show thesis using that r by blast
qed

lemma BuildSignedChunks_nonempty: "BuildSignedChunks cr i dict u mx k = Inr chunks \<Longrightarrow> chunks \<noteq> []"
proof -
  assume a: "BuildSignedChunks cr i dict u mx k = Inr chunks"
  then obtain x where "chunkLoop cr k (decodedHex i) dict u x 0 = Inr chunks" "0 < x" "0 < length dict"
    by (auto simp: BuildSignedChunks_def Let_def rbind_eq_Inr chunk_consts split: if_splits)
  then show ?thesis by (auto simp: chunkLoop.simps [of _ _ _ _ _ _ 0] Let_def rbind_eq_Inr)
qed

lemma issued_nonempty: "IssueAuthorizedConfig cr input = Inr issued \<Longrightarrow> icChunks issued \<noteq> []"
  by (auto simp: IssueAuthorizedConfig_Inr issueCredentials_def Let_def rbind_eq_Inr dest: BuildSignedChunks_nonempty)

lemma aListMembers_replaced:
  assumes "wfAStore a" "asMembers a (i, j) = Some m" "aListMembers i a = Inr ms"
  shows "aListMembers i (a\<lparr>asMembers := (asMembers a)((i, j) \<mapsto> m')\<rparr>) = Inr (map (\<lambda>x. if mbNodeID x = j then m' else x) ms)"
proof -
  let ?S = "{j. asMembers a (i, j) \<noteq> None}"
  have key: "mbNodeID (the (asMembers a (i, l))) = l" if "l \<in> set (sorted_list_of_set ?S)" for l
  proof -
    have "l \<in> ?S" using that by (cases "finite ?S") auto
    then show ?thesis using wfAStoreD(2) [OF assms(1)] by force
  qed
  have S: "{l. ((asMembers a)((i, j) \<mapsto> m')) (i, l) \<noteq> None} = ?S" using assms(2) by auto
  have "asNetworks a i \<noteq> None" "ms = map (\<lambda>l. the (asMembers a (i, l))) (sorted_list_of_set ?S)"
    using assms(3) by (auto simp: aListMembers_def split: if_splits)
  then show ?thesis using S key by (auto simp: aListMembers_def)
qed

text \<open>The replies that carry an issued configuration.\<close>

definition configReplies :: "Decoded \<Rightarrow> IssuedConfig \<Rightarrow> ConfigReply list" where
  "configReplies d issued = map (\<lambda>chunk. \<lparr> rpVerb = VerbOK, rpPayload = WrapOK (rhPacketID (dcRouting d)) chunk \<rparr>) (icChunks issued)"

lemma abs_HandleConfigRequest_served:
  assumes "svStore sv = absStore" "wfAStore (wStore w)" "ParseRequest d = Inr rq" "requestAdmissible sv d recipient k"
    and "asNetworks (wStore w) (rqNetworkID rq) = Some n" "asMembers (wStore w) (rqNetworkID rq, idAddress recipient) = Some m"
    and "aListMembers (rqNetworkID rq) (wStore w) = Inr ms"
    and m': "m' = assignedMember n ms (svNow sv (Suc (wClock w))) m"
    and ms': "ms' = map (\<lambda>x. if mbNodeID x = idAddress recipient then m' else x) ms"
    and t: "t = svNow sv (if m' = m then Suc (wClock w) else Suc (Suc (wClock w)))"
    and may: "mayServe cr sv n m' recipient k t" "svNow sv (wClock w) \<noteq> 0"
    and "length (agTarget (Request_AgentMetadata rq (rqNetworkID rq) (idAddress recipient) (svNow sv (wClock w)))) \<le> 128"
    and doc: "issuable n m' ms'"
  shows "\<exists>issued revision w'. configRevision (nwRevision n) (mbRevision m') = Inr revision
    \<and> IssueAuthorizedConfig cr (servedConfig cr n m' ms' recipient k t revision) = Inr issued \<and> configReplies d issued \<noteq> []
    \<and> HandleConfigRequest cr sv None d recipient k w = (Inr (configReplies d issued), w')
    \<and> asMembers (wStore w') (rqNetworkID rq, idAddress recipient) = Some m'"
proof -
  let ?i = "rqNetworkID rq" and ?j = "idAddress recipient"
  let ?md = "Request_AgentMetadata rq ?i ?j (svNow sv (wClock w))"
  let ?a = "(wStore w)\<lparr>asMetadata := (asMetadata (wStore w))((?i, ?j) \<mapsto> ?md)\<rparr>"
  let ?w = "w\<lparr>wClock := Suc (wClock w), wStore := ?a\<rparr>"
  have hex: "canonicalHex 16 ?i" "canonicalHex 10 ?j"
    using ParseRequest_network [OF assms(3)] may by (auto simp: mayServe_def wfIdentity_def)
  have n: "nwID n = ?i" "nwRevision n \<noteq> 0" using wfAStoreD(1) [OF assms(2,5)] may by (auto simp: mayServe_def)
  have m: "mbNetworkID m = ?i" "mbNodeID m = ?j" "mbRevision m' \<noteq> 0" "mbAuthorized m"
    using wfAStoreD(2) [OF assms(2,6)] may assignedMember_keeps [of n ms _ m] m' by (auto simp: mayServe_def)
  obtain revision issued where revision: "configRevision (nwRevision n) (mbRevision m') = Inr revision"
      and issued: "IssueAuthorizedConfig cr (servedConfig cr n m' ms' recipient k t revision) = Inr issued"
    using served_issued [OF may(1) assms(4) _ _ doc] n m m' assignedMember_keeps [of n ms _ m] by metis
  have reg: "RegisterMember sv None ?i ?j w = (Inr m, w)"
    using assms(1,6) may n hex by (simp add: RegisterMember_def run_simps mayServe_def)
  have up: "aUpsertAgentMetadata ?md (wStore w) = (Inr (), ?a)"
    using hex assms(6,12,13) by (auto simp: aUpsertAgentMetadata_def AgentMetadata_Validate_def IsZero_def Request_AgentMetadata_def)
  have wf: "wfAStore ?a" using aUpsertAgentMetadata_wf [OF assms(2), of ?md] up by simp
  have l: "aListMembers ?i ?a = Inr ms" using assms(7) by (auto simp: aListMembers_def split: if_splits)
  let ?w1 = "if m' = m then ?w
      else ?w\<lparr>wClock := Suc (Suc (wClock w)), wStore := ?a\<lparr>asMembers := (asMembers ?a)((?i, ?j) \<mapsto> m')\<rparr>\<rparr>"
  have e: "ensureAutomaticAssignments sv None n m ?w = (Inr m', ?w1)"
    using abs_ensure_run [OF assms(1), of ?w n m ms] wf l assms(6) n m doc by (simp add: m' issuable_def)
  have stored: "asMembers (wStore ?w1) (?i, ?j) = Some m'" using assms(6) by simp
  have "map (\<lambda>x. if mbNodeID x = ?j then m else x) ms = ms"
    using aListMembers_replaced [OF wf _ l, of ?j m m] l assms(6) by (simp add: fun_upd_idem)
  then have "ms' = ms" if "m' = m" unfolding ms' that .
  then have l1: "aListMembers ?i (wStore ?w1) = Inr ms'"
    using aListMembers_replaced [OF wf _ l, of ?j m m'] l assms(6) by (cases "m' = m") (simp_all add: ms')
  have c1: "svNow sv (wClock ?w1) = t" by (simp add: t)
  have "HandleConfigRequest cr sv None d recipient k w = issueReplies cr sv None (rhPacketID (dcRouting d)) n m recipient k ?w"
    using assms(1,3-5) m(4)
    by (simp add: HandleConfigRequest_def run_simps requestAdmissible_def sbind_def [of "RegisterMember sv None _ _"] reg up)
  also have "\<dots> = (Inr (configReplies d issued), ?w1\<lparr>wClock := Suc (wClock ?w1)\<rparr>)"
    using assms(1) e l1 c1 revision issued n
    by (simp add: issueReplies_def sbind_def [of "ensureAutomaticAssignments sv None n m"] run_simps servedConfig_def configReplies_def
        del: if_split)
  finally show ?thesis using revision issued issued_nonempty [OF issued] stored by (auto simp: configReplies_def)
qed

lemma mem_HandleConfigRequest_served:
  assumes "svStore sv = memoryStore" "memInv (wStore w)" "ParseRequest d = Inr rq" "requestAdmissible sv d recipient k"
    and "memGetNetwork None (rqNetworkID rq) (wStore w) = Inr n"
    and "memGetMember None (rqNetworkID rq) (idAddress recipient) (wStore w) = Inr m"
    and "memListMembers None (rqNetworkID rq) (wStore w) = Inr ms"
    and "m' = assignedMember n ms (svNow sv (Suc (wClock w))) m"
    and "ms' = map (\<lambda>x. if mbNodeID x = idAddress recipient then m' else x) ms"
    and "t = svNow sv (if m' = m then Suc (wClock w) else Suc (Suc (wClock w)))"
    and "mayServe cr sv n m' recipient k t" "svNow sv (wClock w) \<noteq> 0"
    and "length (agTarget (Request_AgentMetadata rq (rqNetworkID rq) (idAddress recipient) (svNow sv (wClock w)))) \<le> 128"
    and "issuable n m' ms'"
  shows "\<exists>issued revision w'. configRevision (nwRevision n) (mbRevision m') = Inr revision
    \<and> IssueAuthorizedConfig cr (servedConfig cr n m' ms' recipient k t revision) = Inr issued \<and> configReplies d issued \<noteq> []
    \<and> HandleConfigRequest cr sv None d recipient k w = (Inr (configReplies d issued), w')
    \<and> memGetMember None (rqNetworkID rq) (idAddress recipient) (wStore w') = Inr m'"
proof -
  obtain r w' where h: "HandleConfigRequest cr sv None d recipient k w = (r, w')" by force
  note M = mem_HandleConfigRequest [OF assms(1,2) h]
  have a: "requestAdmissible (absService sv) d recipient k" "mayServe cr (absService sv) n m' recipient k t"
    using assms(4,11) by (simp_all add: requestAdmissible_def mayServe_def validateOwnedNetwork_def)
  have g: "asNetworks (memAbs (wStore w)) (rqNetworkID rq) = Some n" "asMembers (memAbs (wStore w)) (rqNetworkID rq, idAddress recipient) = Some m"
    "aListMembers (rqNetworkID rq) (memAbs (wStore w)) = Inr ms"
    using mem.get_network [OF assms(2)] mem.get_member [OF assms(2)] mem.list_members_abs [OF assms(2)] assms(5-7) by simp_all
  have "\<exists>issued revision w''. configRevision (nwRevision n) (mbRevision m') = Inr revision
    \<and> IssueAuthorizedConfig cr (servedConfig cr n m' ms' recipient k t revision) = Inr issued \<and> configReplies d issued \<noteq> []
    \<and> HandleConfigRequest cr (absService sv) None d recipient k (absWorld memAbs w) = (Inr (configReplies d issued), w'')
    \<and> asMembers (wStore w'') (rqNetworkID rq, idAddress recipient) = Some m'"
    by (rule abs_HandleConfigRequest_served [where n = n and m = m and ms = ms])
      (use memInv_wf [OF assms(2)] assms(3,8-10,12-14) a g in \<open>simp_all del: memAbs_sel\<close>)
  then show ?thesis using M h mem_get [OF M(1)] by auto
qed

text \<open>
  C4. Authorized members are served, over the in-memory store with a live context. Let the request parse, come from the recipient and be addressed to
  this controller, whose identity signs, and let the network and the member be stored. Let \<open>m'\<close> be the
  member after automatic assignment among the members of the network (itself if it has opted out, the
  network has no pools, it has its addresses or none is free), and \<open>t\<close> the next clock reading, one later
  if an assignment was saved. If \<open>m'\<close> is authorized in a network of this controller, the identities are
  valid, the revisions are set and do not overflow, the clock is past the epoch, the target the agent
  announces has at most 128 characters, and the documents are issuable (valid, at most sixteen
  addresses each on a managed route, serializable rules and sections, a dictionary that fits), then
  the handler answers with at least one reply: exactly the chunks of the configuration issued for \<open>m'\<close>
  and the members with \<open>m'\<close> among them, all with verb OK; and \<open>m'\<close> is what the store holds afterwards.
\<close>

theorem config_request_served:
  assumes "svStore sv = memoryStore" "memInv (wStore w)" "ParseRequest d = Inr rq" "requestAdmissible sv d recipient k"
    and "memGetNetwork None (rqNetworkID rq) (wStore w) = Inr n"
    and "memGetMember None (rqNetworkID rq) (idAddress recipient) (wStore w) = Inr m"
    and "memListMembers None (rqNetworkID rq) (wStore w) = Inr ms"
    and "m' = assignedMember n ms (svNow sv (Suc (wClock w))) m"
    and "ms' = map (\<lambda>x. if mbNodeID x = idAddress recipient then m' else x) ms"
    and "t = svNow sv (if m' = m then Suc (wClock w) else Suc (Suc (wClock w)))"
    and "mayServe cr sv n m' recipient k t" "svNow sv (wClock w) \<noteq> 0"
    and "length (agTarget (Request_AgentMetadata rq (rqNetworkID rq) (idAddress recipient) (svNow sv (wClock w)))) \<le> 128"
    and "issuable n m' ms'"
  shows "\<exists>issued revision w'. configRevision (nwRevision n) (mbRevision m') = Inr revision
    \<and> IssueAuthorizedConfig cr (servedConfig cr n m' ms' recipient k t revision) = Inr issued \<and> configReplies d issued \<noteq> []
    \<and> HandleConfigRequest cr sv None d recipient k w = (Inr (configReplies d issued), w')
    \<and> memGetMember None (rqNetworkID rq) (idAddress recipient) (wStore w') = Inr m'"
  by (rule mem_HandleConfigRequest_served [OF assms])

section \<open>A concrete request\<close>

definition toyService :: "MemStore Service" where
  "toyService = \<lparr> svControllerID = ''8056c2e21c'', svStore = memoryStore, svNow = (\<lambda>k. 62135596800001000000),
     svRandom = (\<lambda>k. Inr 7), svOnDeauthorize = True \<rparr>"

definition toyWorld :: "MemStore World" where
  "toyWorld = \<lparr> wStore = \<lparr> msNetworks = fmupd toyNetworkID (plainNetwork\<lparr>nwRevision := 1\<rparr>) fmempty,
     msMembers = fmupd toyNetworkID (fmupd ''0000000040'' toyMember fmempty) fmempty,
     msMetadata = fmempty \<rparr>, wClock = 0, wRandom = 0, wDeauthorized = [] \<rparr>"

definition toyRequest :: Decoded where
  "toyRequest = \<lparr> dcRouting = \<lparr> rhPacketID = 9, rhDestination = ''8056c2e21c'', rhSource = ''0000000040'', rhFlags = 0,
       rhHops = 0, rhCipher = 0, rhFragmented = False, rhExtendedArmor = False \<rparr>, dcAuthenticator = [],
     dcVerb = VerbNetworkConfigRequest, dcCompressed = False,
     dcPayload = [0x80, 0x56, 0xc2, 0xe2, 0x1c, 0, 0, 1, 0, 0] \<rparr>"

definition toyParsed :: Request where
  "toyParsed = \<lparr> rqNetworkID = toyNetworkID, rqMetadata = fmempty, rqHasCurrentState = False, rqCurrentRevision = 0,
     rqCurrentTimestamp = 0, rqExtensions = [] \<rparr>"

lemma toyRequest_parses: "ParseRequest toyRequest = Inr toyParsed"
proof -
  have h: "hex_encode [0x80, 0x56, 0xc2, 0xe2, 0x1c, 0, 0, 1] = toyNetworkID" unfolding toyNetworkID_def by code_simp
  have l: "unat (be_word [0, 0] :: uint16) = 0" by code_simp
  show ?thesis
    using h l toyNetworkID_canonical
    by (simp add: ParseRequest_def toyRequest_def Let_def slice_def ParseMetadata_def parseDictionary_def splitLines.simps(1)
        toyParsed_def)
qed

lemma toy_stored:
  "memGetNetwork None toyNetworkID (wStore toyWorld) = Inr (plainNetwork\<lparr>nwRevision := 1\<rparr>)"
  "memGetMember None toyNetworkID ''0000000040'' (wStore toyWorld) = Inr toyMember"
  by (simp_all add: toyWorld_def memGetNetwork_def memGetMember_def lookup2_def)

lemma toy_wfs: "wfNetwork (plainNetwork\<lparr>nwRevision := r\<rparr>)" "wfMember toyMember"
  "nwID plainNetwork = toyNetworkID" "mbNetworkID toyMember = toyNetworkID" "mbNodeID toyMember = ''0000000040''"
proof -
  show "nwID plainNetwork = toyNetworkID" "mbNetworkID toyMember = toyNetworkID" "mbNodeID toyMember = ''0000000040''"
    by (simp_all add: plainNetwork_def NewNetwork_def toyMember_def NewMember_def toyNetworkID_def)
  show "wfNetwork (plainNetwork\<lparr>nwRevision := r\<rparr>)"
    using Network_Validate_Inr [OF plain_valid(1)] by (simp add: wfNetwork_revision)
  have "Member_Validate toyMember = Inr ()" using toyMember_issuable [of 0] by (simp add: issuable_def)
  then show "wfMember toyMember" by (rule Member_Validate_Inr)
qed

lemma toyWorld_inv: "memInv (wStore toyWorld)"
  using toy_wfs by (auto simp: memInv_def wfAStore_def toyWorld_def lookup2_def)

lemma toy_listed: "memListMembers None toyNetworkID (wStore toyWorld) = Inr [toyMember]"
proof -
  have "{j. asMembers (memAbs (wStore toyWorld)) (toyNetworkID, j) \<noteq> None} = {''0000000040''}"
    by (auto simp: toyWorld_def lookup2_def)
  moreover have "asMembers (memAbs (wStore toyWorld)) (toyNetworkID, ''0000000040'') = Some toyMember"
    "asNetworks (memAbs (wStore toyWorld)) toyNetworkID \<noteq> None"
    by (simp_all add: toyWorld_def lookup2_def)
  ultimately show ?thesis
    using mem.list_members_abs [OF toyWorld_inv, of toyNetworkID] by (simp add: aListMembers_def del: memAbs_sel)
qed

lemma toy_admissible: "requestAdmissible toyService toyRequest toyRecipient (toyIdentity 7)"
  by (simp add: requestAdmissible_def toyService_def toyRequest_def toyRecipient_valid toyIdentity_def)

lemma toy_mayServe: "mayServe toyCrypto toyService (plainNetwork\<lparr>nwRevision := 1\<rparr>) toyMember toyRecipient (toyIdentity 7) 62135596800001000000"
proof -
  have "ControllerID toyNetworkID = Inr (take 10 toyNetworkID)" using toyNetworkID_canonical by (simp add: ControllerID_iff)
  then have "validateOwnedNetwork toyService toyNetworkID = Inr ()"
    by (simp add: validateOwnedNetwork_def toyService_def toyNetworkID_def)
  then show ?thesis
    using toy_wfs(3)
    by (simp add: mayServe_def toy_keyPair toy_wf toyRecipient_valid UnixMilli_def)
      (simp add: toyMember_def NewMember_def plainNetwork_def NewNetwork_def)
qed

lemma toy_target:
  "length (agTarget (Request_AgentMetadata toyParsed (rqNetworkID toyParsed) (idAddress toyRecipient) t)) \<le> 128"
  by (simp add: Request_AgentMetadata_def toyParsed_def)

lemma toyMember_unassigned: "assignedMember (plainNetwork\<lparr>nwRevision := r\<rparr>) ms t toyMember = toyMember"
  by (simp add: assignedMember_def Let_def plainNetwork_def NewNetwork_def)

lemmas toy_request_facts = toyWorld_inv toyRequest_parses toy_admissible toy_stored toy_listed toy_mayServe toy_target
  toyMember_unassigned toyMember_issuable toyRecipient_valid(3)

text \<open>The same member in a network that assigns addresses from a pool.\<close>

definition toyPoolNetwork :: Network where
  "toyPoolNetwork = plainNetwork\<lparr>nwRevision := 1, nwIPPools := [\<lparr> plStart = Addr4 0x0a000001, plEnd = Addr4 0x0a0000fe \<rparr>],
     nwRoutes := [\<lparr> rtTarget = \<lparr> pfAddr = Addr4 0x0a000000, pfBits = 24 \<rparr>, rtVia = NoAddr \<rparr>],
     nwAssignment := \<lparr> amIPv4ZeroTier = True, amIPv6ZeroTier = False, amIPv6RFC4193 = False, amIPv6SixPlane = False \<rparr>\<rparr>"

definition toyPoolWorld :: "MemStore World" where
  "toyPoolWorld = toyWorld\<lparr>wStore := (wStore toyWorld)\<lparr>msNetworks := fmupd toyNetworkID toyPoolNetwork fmempty\<rparr>\<rparr>"

definition toyAssigned :: Member where
  "toyAssigned = toyMember\<lparr>mbIPAssignments := [Addr4 0x0a000001], mbUpdatedAt := 62135596800001000000, mbRevision := 2\<rparr>"

lemma toyPool_wf: "wfNetwork toyPoolNetwork" "nwID toyPoolNetwork = toyNetworkID"
  using toy_wfs(1) [of 1] toy_wfs(3) by (simp_all add: toyPoolNetwork_def wfNetwork_def wfRoute_def wfPool_def prefixIsValid_def)

lemma toyPool_stored:
  "memInv (wStore toyPoolWorld)" "memGetNetwork None toyNetworkID (wStore toyPoolWorld) = Inr toyPoolNetwork"
  "memGetMember None toyNetworkID ''0000000040'' (wStore toyPoolWorld) = Inr toyMember"
  "memListMembers None toyNetworkID (wStore toyPoolWorld) = Inr [toyMember]" "wClock toyPoolWorld = 0"
proof -
  show "memInv (wStore toyPoolWorld)"
    using toy_wfs toyPool_wf by (auto simp: memInv_def wfAStore_def toyPoolWorld_def toyWorld_def lookup2_def)
  show "memListMembers None toyNetworkID (wStore toyPoolWorld) = Inr [toyMember]"
    using toy_listed by (simp add: memListMembers_def toyPoolWorld_def toyWorld_def)
qed (use toy_stored in \<open>simp_all add: toyPoolWorld_def toyWorld_def memGetNetwork_def memGetMember_def lookup2_def\<close>)

lemma toyMember_assigned: "assignedMember toyPoolNetwork [toyMember] 62135596800001000000 toyMember = toyAssigned"
proof -
  have "firstAvailableAddress toyPoolNetwork {} True = Some (Addr4 0x0a000001)"
    by (simp add: firstAvailableAddress_def toyPoolNetwork_def scanPool.simps maxIPAMPoolScan_def addressHasManagedRoute_def prefixIsValid_def)
  then show ?thesis
    by (simp add: assignedMember_def Let_def hasAddressFamily_def optionList_def toyMember_def NewMember_def toyAssigned_def)
      (simp add: toyPoolNetwork_def)
qed

lemma toyAssigned_issuable: "issuable toyPoolNetwork toyAssigned [toyAssigned]"
proof -
  have v: "Network_Validate toyPoolNetwork = Inr ()" "Member_Validate toyAssigned = Inr ()"
    using toyPool_wf(1) toy_wfs(2) by (simp_all add: toyAssigned_def wfMember_def toyMember_def NewMember_def)
  obtain dns where dns: "serializeDNS (nwDNS toyPoolNetwork) = Inr dns" "length dns = 132"
    using plain_serialized(3) by (auto simp: toyPoolNetwork_def)
  have "derivedIPv6Assignments i j (nwAssignment toyPoolNetwork) = []" for i j
    by (simp add: derivedIPv6Assignments_def toyPoolNetwork_def split: sum.splits)
  moreover have "managedPrefixBits (nwRoutes toyPoolNetwork) (Addr4 0x0a000001) = 24"
    by (simp add: managedPrefixBits_def toyPoolNetwork_def prefixIsValid_def)
  moreover have a4: "\<exists>bs. appendInetAddress (Addr4 x) 24 = Inr bs \<and> length bs = 7" for x
    by (simp add: appendInetAddress_def)
  moreover obtain ip where "appendInetAddress (Addr4 0x0a000001) 24 = Inr ip" "length ip = 7" using a4 by blast
  ultimately obtain ips where ips: "serializeStaticIPs toyPoolNetwork toyAssigned = Inr ips" "length ips = 7"
    by (auto simp: serializeStaticIPs_def toyAssigned_def toyMember_def NewMember_def)
  obtain target where target: "appendInetAddress (Addr4 0x0a000000) 24 = Inr target" "length target = 7" using a4 by blast
  obtain routes where routes: "serializeRoutes (nwRoutes toyPoolNetwork) = Inr routes" "length routes = 12"
    using target by (auto simp: serializeRoutes_def serializeRoute_def toyPoolNetwork_def)
  have "serializeSpecialists (nwID toyPoolNetwork) [toyAssigned] = Inr []"
    using toyPool_wf(2) toy_wfs(4)
    by (simp add: serializeSpecialists_def toyAssigned_def toyMember_def NewMember_def memberRole_def fcard_fempty)
  moreover have "SerializeRules (nwRules toyPoolNetwork) = Inr [1, 0]"
    using plain_serialized(4) by (simp add: toyPoolNetwork_def)
  moreover have "policySize toyPoolNetwork toyAssigned = 0"
    by (simp add: policySize_def orderedCapabilities_def orderedTags_def capabilityIDs_def tagValues_def toyPoolNetwork_def
        plainNetwork_def NewNetwork_def toyAssigned_def toyMember_def NewMember_def)
  ultimately show ?thesis
    using v dns ips routes
    by (simp add: issuable_def MaxDictionaryLength_def toyAssigned_def maxOwnershipThings_def)
      (simp add: toyPoolNetwork_def plainNetwork_def NewNetwork_def)
qed

lemma toyPool_mayServe: "mayServe toyCrypto toyService toyPoolNetwork toyAssigned toyRecipient (toyIdentity 7) 62135596800001000000"
  using toy_mayServe toyPool_wf(2) by (simp add: mayServe_def toyAssigned_def toyPoolNetwork_def)

theorem config_request_served_witness:
  "\<exists>issued w'. HandleConfigRequest toyCrypto toyService None toyRequest toyRecipient (toyIdentity 7) toyPoolWorld
       = (Inr (configReplies toyRequest issued), w')
     \<and> configReplies toyRequest issued \<noteq> [] \<and> memGetMember None toyNetworkID ''0000000040'' (wStore w') = Inr toyAssigned"
proof -
  have "\<exists>issued revision w'. configRevision (nwRevision toyPoolNetwork) (mbRevision toyAssigned) = Inr revision
    \<and> IssueAuthorizedConfig toyCrypto (servedConfig toyCrypto toyPoolNetwork toyAssigned [toyAssigned] toyRecipient (toyIdentity 7)
        62135596800001000000 revision) = Inr issued \<and> configReplies toyRequest issued \<noteq> []
    \<and> HandleConfigRequest toyCrypto toyService None toyRequest toyRecipient (toyIdentity 7) toyPoolWorld = (Inr (configReplies toyRequest issued), w')
    \<and> memGetMember None (rqNetworkID toyParsed) (idAddress toyRecipient) (wStore w') = Inr toyAssigned"
    by (rule config_request_served [where m = toyMember and ms = "[toyMember]"])
      (use toy_request_facts toyPool_stored toyMember_assigned toyAssigned_issuable toyPool_mayServe toy_wfs(5)
        in \<open>simp_all add: toyService_def toyParsed_def\<close>)
  then show ?thesis by (auto simp: toyParsed_def toyRecipient_valid)
qed

theorem config_request_keeps_authorization_witness:
  "\<exists>r w'. HandleConfigRequest toyCrypto toyService None toyRequest toyRecipient (toyIdentity 7) toyWorld = (r, w')
     \<and> authorizedIn toyNetworkID ''0000000040'' (memAbs (wStore w'))"
proof -
  obtain r w' where h: "HandleConfigRequest toyCrypto toyService None toyRequest toyRecipient (toyIdentity 7) toyWorld = (r, w')" by force
  have "authorizedIn toyNetworkID ''0000000040'' (memAbs (wStore toyWorld))"
    by (simp add: authorizedIn_def toyWorld_def lookup2_def toyMember_def)
  then show ?thesis
    using config_request_keeps_authorization [OF _ toyWorld_inv h] h by (simp add: toyService_def)
qed

theorem config_request_outcomes_witness:
  "\<exists>issued input w'. HandleConfigRequest toyCrypto toyService None toyRequest toyRecipient (toyIdentity 7) toyWorld
       = (Inr (map (\<lambda>chunk. \<lparr> rpVerb = VerbOK, rpPayload = WrapOK 9 chunk \<rparr>) (icChunks issued)), w')
     \<and> IssueAuthorizedConfig toyCrypto input = Inr issued"
proof -
  have "\<exists>issued revision w'. configRevision (nwRevision (plainNetwork\<lparr>nwRevision := 1\<rparr>)) (mbRevision toyMember) = Inr revision
    \<and> IssueAuthorizedConfig toyCrypto (servedConfig toyCrypto (plainNetwork\<lparr>nwRevision := 1\<rparr>) toyMember [toyMember] toyRecipient (toyIdentity 7)
        62135596800001000000 revision) = Inr issued \<and> configReplies toyRequest issued \<noteq> []
    \<and> HandleConfigRequest toyCrypto toyService None toyRequest toyRecipient (toyIdentity 7) toyWorld = (Inr (configReplies toyRequest issued), w')
    \<and> memGetMember None (rqNetworkID toyParsed) (idAddress toyRecipient) (wStore w') = Inr toyMember"
    by (rule mem_HandleConfigRequest_served [where m = toyMember and ms = "[toyMember]"])
      (use toy_request_facts toy_wfs(5) in \<open>simp_all add: toyService_def toyParsed_def\<close>)
  then obtain replies w' where h: "HandleConfigRequest toyCrypto toyService None toyRequest toyRecipient (toyIdentity 7) toyWorld
      = (Inr replies, w')" "list_all (\<lambda>r. rpVerb r = VerbOK) replies"
    by (auto simp: configReplies_def list_all_iff)
  have "rpVerb (errorReply d i c) \<noteq> VerbOK" for d i c by (simp add: errorReply_def packet_consts)
  moreover have t: "svStore toyService = memoryStore" "rhPacketID (dcRouting toyRequest) = 9" "rqNetworkID toyParsed = toyNetworkID"
    by (simp_all add: toyService_def toyRequest_def toyParsed_def)
  ultimately have "\<exists>issued input. IssueAuthorizedConfig toyCrypto input = Inr issued
      \<and> replies = map (\<lambda>chunk. \<lparr> rpVerb = VerbOK, rpPayload = WrapOK 9 chunk \<rparr>) (icChunks issued)"
    using config_request_outcomes [OF t(1) toyWorld_inv h(1)] h(2) toyRequest_parses toy_stored(1)
    by (auto split: if_splits)
  then show ?thesis using h(1) by blast
qed

end
