(* ===== verification/Armor.thy ===== *)
theory Armor
  imports Packet Identity
begin

unbundle bit_operations_syntax

text \<open>
  Package \<^verbatim>\<open>internal/zerotier/packet\<close>, packet armor: the Salsa20/12 and Poly1305 suite (\<^verbatim>\<open>armor.go\<close>),
  AES-GMAC-SIV (\<^verbatim>\<open>aesarmor.go\<close>) and the choice between them for a session (\<^verbatim>\<open>session.go\<close>). Salsa20/12,
  GHASH and its multiplication are modelled as the program computes them; Poly1305, HMAC and the AES
  block cipher are the primitives of the record \<open>Crypto\<close>. The lemmas show that a session accepts what
  it armored, whatever the hop count has become in transit.
\<close>

section \<open>Salsa20/12\<close>

definition RotateLeft32 :: "uint32 \<Rightarrow> nat \<Rightarrow> uint32" where
  "RotateLeft32 x k = word_rotl k x"

definition salsaQuarter :: "nat \<Rightarrow> nat \<Rightarrow> nat \<Rightarrow> nat \<Rightarrow> uint32 list \<Rightarrow> uint32 list" where
  "salsaQuarter a b c d state =
     (let state = state[b := state ! b XOR RotateLeft32 (state ! a + state ! d) 7];
          state = state[c := state ! c XOR RotateLeft32 (state ! b + state ! a) 9];
          state = state[d := state ! d XOR RotateLeft32 (state ! c + state ! b) 13]
      in state[a := state ! a XOR RotateLeft32 (state ! d + state ! c) 18])"

definition salsaDoubleRound :: "uint32 list \<Rightarrow> uint32 list" where
  "salsaDoubleRound working =
     (let working = salsaQuarter 0 4 8 12 working;
          working = salsaQuarter 5 9 13 1 working;
          working = salsaQuarter 10 14 2 6 working;
          working = salsaQuarter 15 3 7 11 working;
          working = salsaQuarter 0 1 2 3 working;
          working = salsaQuarter 5 6 7 4 working;
          working = salsaQuarter 10 11 8 9 working
      in salsaQuarter 15 12 13 14 working)"

text \<open>\<^verbatim>\<open>binary.LittleEndian.Uint32\<close> and \<^verbatim>\<open>PutUint32\<close>.\<close>

definition leUint32 :: "bytes \<Rightarrow> uint32" where
  "leUint32 bs = be_word (rev (take 4 bs))"

definition lePutUint32 :: "uint32 \<Rightarrow> bytes" where
  "lePutUint32 w = rev (be_bytes 4 w)"

definition salsa12State :: "bytes \<Rightarrow> bytes \<Rightarrow> uint64 \<Rightarrow> uint32 list" where
  "salsa12State key nonce counter =
     [0x61707865] @ map (\<lambda>index. leUint32 (drop (index * 4) key)) [0..<4]
     @ [0x3320646e, leUint32 (take 4 nonce), leUint32 (slice 4 8 nonce), ucast counter, ucast (drop_bit 32 counter), 0x79622d32]
     @ map (\<lambda>index. leUint32 (drop (16 + index * 4) key)) [0..<4] @ [0x6b206574]"

definition salsa12Block :: "bytes \<Rightarrow> bytes \<Rightarrow> uint64 \<Rightarrow> bytes" where
  "salsa12Block key nonce counter =
     (let state = salsa12State key nonce counter;
          working = (salsaDoubleRound ^^ 6) state
      in concat (map (\<lambda>index. lePutUint32 (working ! index + state ! index)) [0..<16]))"

function salsa12Loop :: "bytes \<Rightarrow> bytes \<Rightarrow> nat \<Rightarrow> uint64 \<Rightarrow> bytes" where
  "salsa12Loop key nonce len counter =
     (if len = 0 then []
      else take len (salsa12Block key nonce counter) @ salsa12Loop key nonce (len - 64) (counter + 1))"
  by pat_completeness auto
termination
  by (relation "measure (\<lambda>(key, nonce, len, counter). len)") auto

declare salsa12Loop.simps [simp del]

definition salsa12Stream :: "bytes \<Rightarrow> bytes \<Rightarrow> nat \<Rightarrow> bytes" where
  "salsa12Stream key nonce len = salsa12Loop key nonce len 0"

text \<open>The key stream is always as long as the data it is applied to.\<close>

definition xorBytes :: "bytes \<Rightarrow> bytes \<Rightarrow> bytes" where
  "xorBytes destination keyStream = map2 (XOR) destination keyStream"

section \<open>Poly1305 and Salsa20/12 armor\<close>

definition Poly1305Sum :: "Crypto \<Rightarrow> bytes \<Rightarrow> bytes \<Rightarrow> bytes" where
  "Poly1305Sum cr message key = be_bytes 16 (crPoly1305 cr message key)"

definition mangleKey :: "bytes \<Rightarrow> bytes \<Rightarrow> bytes" where
  "mangleKey packet sharedKey = map (\<lambda>index. sharedKey ! index XOR
     (if index < 18 then packet ! index
      else if index = 18 then packet ! 18 AND 0xf8
      else if index = 19 then of_nat (length packet)
      else if index = 20 then of_nat (length packet div 256)
      else 0)) [0..<32]"

definition armorFlags :: "byte \<Rightarrow> bool \<Rightarrow> bool \<Rightarrow> byte" where
  "armorFlags flags encrypt extended =
     (let cipher = (if encrypt then CipherC25519Poly1305Salsa else CipherC25519Poly1305Clear);
          flags = (flags AND 0xc7) OR push_bit 3 cipher;
          flags = (if extended then flags OR FlagExtendedArmor else flags AND NOT FlagExtendedArmor)
      in if encrypt then flags OR FlagExtendedArmor else flags)"

definition armor :: "Crypto \<Rightarrow> bytes \<Rightarrow> bytes \<Rightarrow> bool \<Rightarrow> bool \<Rightarrow> bytes result" where
  "armor cr unarmored sharedKey encrypt extended =
     (if length unarmored < HeaderLength \<or> length unarmored > MaxPacketLength
      then Inl (Errorf ''unarmored packet has invalid length'')
      else
        let packet = unarmored[18 := armorFlags (unarmored ! 18) encrypt extended];
            key = mangleKey packet sharedKey;
            stream = salsa12Stream key (take 8 packet) (64 + length (drop 27 packet));
            body = (if encrypt then xorBytes (drop 27 packet) (drop 64 stream) else drop 27 packet);
            tag = Poly1305Sum cr body (take 32 stream)
        in Inr (take 19 packet @ take 8 tag @ body))"

definition Armor :: "Crypto \<Rightarrow> bytes \<Rightarrow> bytes \<Rightarrow> bool \<Rightarrow> bytes result" where
  "Armor cr unarmored sharedKey encrypt = armor cr unarmored sharedKey encrypt False"

definition Dearmor :: "Crypto \<Rightarrow> bytes \<Rightarrow> bytes \<Rightarrow> Decoded result" where
  "Dearmor cr armored sharedKey =
     (if length armored < HeaderLength \<or> length armored > MaxPacketLength
      then Inl (Errorf ''armored packet has invalid length'')
      else
        rbind (ParseRouting armored) (\<lambda>routing.
        if rhCipher routing \<noteq> CipherC25519Poly1305Clear \<and> rhCipher routing \<noteq> CipherC25519Poly1305Salsa
        then Inl (Errorf ''unsupported packet cipher %d'')
        else
          let key = mangleKey armored sharedKey;
              stream = salsa12Stream key (take 8 armored) (64 + length (drop 27 armored));
              tag = Poly1305Sum cr (drop 27 armored) (take 32 stream)
          in if slice 19 27 armored \<noteq> take 8 tag then Inl (Errorf ''packet authentication failed'')
             else ParseDecoded (take 27 armored
               @ (if rhCipher routing = CipherC25519Poly1305Salsa then xorBytes (drop 27 armored) (drop 64 stream)
                  else drop 27 armored))))"

section \<open>AES-GMAC-SIV armor\<close>

definition SessionKeyLength :: nat where "SessionKeyLength = 48"

definition aesEncrypt :: "Crypto \<Rightarrow> bytes \<Rightarrow> bytes \<Rightarrow> bytes" where
  "aesEncrypt cr key block = be_bytes 16 (crAESEncrypt cr key (be_word block))"

definition aesDecrypt :: "Crypto \<Rightarrow> bytes \<Rightarrow> bytes \<Rightarrow> bytes" where
  "aesDecrypt cr key block = be_bytes 16 (crAESDecrypt cr key (be_word block))"

text \<open>\<^verbatim>\<open>cipher.NewCTR(block, counter).XORKeyStream\<close>: the counter is a big-endian 128-bit integer.\<close>

definition ctrStream :: "Crypto \<Rightarrow> bytes \<Rightarrow> bytes \<Rightarrow> nat \<Rightarrow> bytes" where
  "ctrStream cr key counter len =
     concat (map (\<lambda>i. be_bytes 16 (crAESEncrypt cr key (be_word counter + of_nat i))) [0..<(len + 15) div 16])"

definition ctrXOR :: "Crypto \<Rightarrow> bytes \<Rightarrow> bytes \<Rightarrow> bytes \<Rightarrow> bytes" where
  "ctrXOR cr key counter data = map2 (XOR) data (ctrStream cr key counter (length data))"

definition xorBlock :: "bytes \<Rightarrow> bytes \<Rightarrow> bytes" where
  "xorBlock destination source = map2 (XOR) destination source"

text \<open>One bit of \<^verbatim>\<open>galoisMultiply\<close>: the shift of \<^verbatim>\<open>value\<close> reads the old neighbours, as the descending
  loop does.\<close>

definition galoisShift :: "bytes \<Rightarrow> bytes" where
  "galoisShift v =
     (let least = (v ! 15) AND 1;
          shifted = map (\<lambda>index. if index = 0 then drop_bit 1 (v ! 0)
            else drop_bit 1 (v ! index) OR push_bit 7 (v ! (index - 1))) [0..<16]
      in if least \<noteq> 0 then shifted[0 := shifted ! 0 XOR 0xe1] else shifted)"

definition galoisMultiply :: "bytes \<Rightarrow> bytes \<Rightarrow> bytes" where
  "galoisMultiply left right =
     fst (foldl (\<lambda>(product, v) i.
       (if (left ! (i div 8)) AND push_bit (7 - i mod 8) 1 \<noteq> 0 then xorBlock product v else product, galoisShift v))
       (replicate 16 0, right) [0..<128])"

function gmacLoop :: "bytes \<Rightarrow> bytes \<Rightarrow> bytes \<Rightarrow> bytes" where
  "gmacLoop hash data accumulator =
     (if data = [] then accumulator
      else let chunk = take 16 data @ replicate (16 - length (take 16 data)) 0
           in gmacLoop hash (drop 16 data) (galoisMultiply (xorBlock accumulator chunk) hash))"
  by pat_completeness auto
termination
  by (relation "measure (\<lambda>(hash, data, accumulator). length data)") auto

declare gmacLoop.simps [simp del]

definition computeGMAC :: "Crypto \<Rightarrow> bytes \<Rightarrow> bytes \<Rightarrow> bytes \<Rightarrow> bytes" where
  "computeGMAC cr key iv data =
     (let hash = aesEncrypt cr key (replicate 16 0);
          accumulator = gmacLoop hash data (replicate 16 0);
          bitLength = of_nat (length data) * 8 :: uint64;
          accumulator = galoisMultiply (xorBlock accumulator (be_bytes 8 bitLength @ replicate 8 0)) hash
      in xorBlock accumulator (aesEncrypt cr key (iv @ [0, 0, 0, 1])))"

definition deriveAESKey :: "Crypto \<Rightarrow> bytes \<Rightarrow> char \<Rightarrow> bytes" where
  "deriveAESKey cr sessionKey label =
     be_bytes 48 (crHMAC384 cr sessionKey ([0, 0, 0, 0] @ bytes_of_string ''ZT'' @ [byte_of_char label, 0, 0, 0, 0, 1, 0x80]))"

text \<open>\<^verbatim>\<open>aes.NewCipher\<close> accepts every 32-byte key.\<close>

definition aesSessionKeys :: "Crypto \<Rightarrow> bytes \<Rightarrow> (bytes \<times> bytes) result" where
  "aesSessionKeys cr sessionKey =
     Inr (take 32 (deriveAESKey cr sessionKey CHR ''0''), take 32 (deriveAESKey cr sessionKey CHR ''1''))"

definition foldMac :: "bytes \<Rightarrow> bytes" where
  "foldMac gmac = map (\<lambda>index. gmac ! index XOR gmac ! (8 + index)) [0..<8]"

definition ArmorAES :: "Crypto \<Rightarrow> bytes \<Rightarrow> bytes \<Rightarrow> bytes result" where
  "ArmorAES cr unarmored sessionKey =
     (if length unarmored < HeaderLength \<or> length unarmored > MaxPacketLength
      then Inl (Errorf ''unarmored packet has invalid length'')
      else
        rbind (aesSessionKeys cr sessionKey) (\<lambda>(key0, key1).
        let packet = unarmored[18 := ((unarmored ! 18 AND 0xc7) OR push_bit 3 CipherAESGMACSIV) AND NOT FlagExtendedArmor];
            plaintext = drop 27 packet;
            authenticated = slice 8 19 packet @ replicate 5 0 @ plaintext;
            gmac = computeGMAC cr key0 (take 8 packet @ replicate 4 0) authenticated;
            synthetic = aesEncrypt cr key1 (take 8 packet @ foldMac gmac);
            counter = synthetic[12 := synthetic ! 12 AND 0x7f]
        in Inr (take 8 synthetic @ slice 8 19 packet @ drop 8 synthetic @ ctrXOR cr key1 counter plaintext)))"

definition DearmorAES :: "Crypto \<Rightarrow> bytes \<Rightarrow> bytes \<Rightarrow> Decoded result" where
  "DearmorAES cr armored sessionKey =
     (if length armored < HeaderLength \<or> length armored > MaxPacketLength
      then Inl (Errorf ''armored packet has invalid length'')
      else
        rbind (ParseRouting armored) (\<lambda>routing.
        if rhCipher routing \<noteq> CipherAESGMACSIV then Inl (Errorf ''packet cipher %d is not AES-GMAC-SIV'')
        else
          rbind (aesSessionKeys cr sessionKey) (\<lambda>(key0, key1).
          let synthetic = take 8 armored @ slice 19 27 armored;
              counter = synthetic[12 := synthetic ! 12 AND 0x7f];
              plaintext = ctrXOR cr key1 counter (drop 27 armored);
              ivMac = aesDecrypt cr key1 synthetic;
              header = slice 8 19 armored;
              authenticated = header[10 := header ! 10 AND 0xf8] @ replicate 5 0 @ plaintext;
              gmac = computeGMAC cr key0 (take 8 ivMac @ replicate 4 0) authenticated
          in if foldMac gmac \<noteq> drop 8 ivMac then Inl (Errorf ''AES-GMAC-SIV packet authentication failed'')
             else ParseDecoded (take 27 armored @ plaintext))))"

section \<open>Sessions\<close>

definition salsaKey :: "bytes \<Rightarrow> bytes" where
  "salsaKey key = take 32 key"

definition DearmorSession :: "Crypto \<Rightarrow> bytes \<Rightarrow> bytes \<Rightarrow> Decoded result" where
  "DearmorSession cr armored key =
     rbind (ParseRouting armored) (\<lambda>routing.
     if rhCipher routing = CipherAESGMACSIV then DearmorAES cr armored key
     else Dearmor cr armored (salsaKey key))"

definition ArmorSession :: "Crypto \<Rightarrow> bytes \<Rightarrow> bytes \<Rightarrow> bool \<Rightarrow> bool \<Rightarrow> bytes result" where
  "ArmorSession cr unarmored key encrypt useAES =
     (if useAES then ArmorAES cr unarmored key else Armor cr unarmored (salsaKey key) encrypt)"

section \<open>Key streams\<close>

lemma map2_xor_twice: "length xs \<le> length ks \<Longrightarrow> map2 (XOR) (map2 (XOR) xs ks) ks = (xs :: bytes)"
  by (induction xs ks rule: list_induct2') (auto simp: xor.assoc)

lemma length_lePutUint32 [simp]: "length (lePutUint32 w) = 4"
  by (simp add: lePutUint32_def)

lemma length_salsa12Block [simp]: "length (salsa12Block key nonce counter) = 64"
  by (simp add: salsa12Block_def Let_def length_concat comp_def sum_list_triv)

lemma length_salsa12Stream [simp]: "length (salsa12Stream key nonce len) = len"
proof -
  have "length (salsa12Loop key nonce len counter) = len" for counter
  proof (induction len arbitrary: counter rule: less_induct)
    case (less len)
    show ?case
    proof (cases "len = 0")
      case False
      then show ?thesis using less [of "len - 64"] by (simp add: salsa12Loop.simps [of _ _ len])
    qed (simp add: salsa12Loop.simps)
  qed
  then show ?thesis by (simp add: salsa12Stream_def)
qed

lemma length_xorBytes [simp]: "length (xorBytes a k) = min (length a) (length k)"
  by (simp add: xorBytes_def)

lemma xorBytes_twice: "length a \<le> length k \<Longrightarrow> xorBytes (xorBytes a k) k = a"
  by (simp add: xorBytes_def map2_xor_twice)

lemma length_ctrStream: "len \<le> length (ctrStream cr key counter len)"
  by (simp add: ctrStream_def length_concat comp_def sum_list_triv)

lemma length_ctrXOR [simp]: "length (ctrXOR cr key counter data) = length data"
  using length_ctrStream [of "length data" cr key counter] by (simp add: ctrXOR_def)

lemma ctrXOR_twice: "ctrXOR cr key counter (ctrXOR cr key counter data) = data"
  using map2_xor_twice [OF length_ctrStream, of data cr key counter]
  by (simp add: ctrXOR_def [of _ _ _ "ctrXOR cr key counter data"]) (simp add: ctrXOR_def)

lemma length_foldMac [simp]: "length (foldMac g) = 8"
  by (simp add: foldMac_def)

lemma length_aes [simp]: "length (aesEncrypt cr key b) = 16" "length (aesDecrypt cr key b) = 16"
  by (simp_all add: aesEncrypt_def aesDecrypt_def)

definition aes_law :: "Crypto \<Rightarrow> bool" where
  "aes_law cr = (\<forall>key b. crAESDecrypt cr key (crAESEncrypt cr key b) = b)"

lemma be_bytes16_word: "length b = 16 \<Longrightarrow> be_bytes 16 (be_word b :: 128 word) = b"
  by (rule be_bytes_be_word) simp_all

lemma aesDecrypt_Encrypt: "aes_law cr \<Longrightarrow> length b = 16 \<Longrightarrow> aesDecrypt cr key (aesEncrypt cr key b) = b"
  by (simp add: aesDecrypt_def aesEncrypt_def aes_law_def be_bytes16_word)

section \<open>Flags\<close>

text \<open>What a forwarding node may change: the hop count in the low three bits of the flags.\<close>

definition withHops :: "byte \<Rightarrow> bytes \<Rightarrow> bytes" where
  "withHops h packet = packet[18 := (packet ! 18 AND 0xf8) OR (h AND 0x07)]"

lemma length_withHops [simp]: "length (withHops h p) = length p"
  by (simp add: withHops_def)

lemma flag_bits:
  fixes b h :: byte
  shows "((b AND 0xf8) OR (h AND 0x07)) AND 0xf8 = b AND 0xf8" "((b AND 0xf8) OR (h AND 0x07)) AND 0x07 = h AND 0x07"
    "((b AND 0xf8) OR (h AND 0x07)) AND 0x38 = b AND 0x38" "b AND 0x07 = 0 \<Longrightarrow> b AND 0xf8 = b"
proof -
  show "((b AND 0xf8) OR (h AND 0x07)) AND 0xf8 = b AND 0xf8" "((b AND 0xf8) OR (h AND 0x07)) AND 0x07 = h AND 0x07"
    "((b AND 0xf8) OR (h AND 0x07)) AND 0x38 = b AND 0x38"
    by (rule bit_word_eqI; auto simp: bit_simps dest!: byte_index)+
  assume z: "b AND 0x07 = 0"
  have "b = (b AND 0xf8) OR (b AND 0x07)" by (rule bit_word_eqI) (auto simp: bit_simps dest!: byte_index)
  with z show "b AND 0xf8 = b" by simp
qed

lemma cipher_bits:
  fixes b :: byte
  shows "drop_bit 3 (armorFlags b encrypt extended AND 0x38) =
      (if encrypt then CipherC25519Poly1305Salsa else CipherC25519Poly1305Clear)"
    "drop_bit 3 ((((b AND 0xc7) OR push_bit 3 CipherAESGMACSIV) AND NOT FlagExtendedArmor) AND 0x38) = CipherAESGMACSIV"
    "(((b AND 0xc7) OR push_bit 3 CipherAESGMACSIV) AND NOT FlagExtendedArmor) AND 0x07 = b AND 0x07"
  by (rule bit_word_eqI; auto simp: armorFlags_def Let_def packet_consts bit_simps dest!: byte_index)+

section \<open>A session accepts what it armored\<close>

text \<open>The decoded packet carries the message of \<open>unarmored\<close> and the hop count it arrived with.\<close>

definition sameMessage :: "Decoded \<Rightarrow> Decoded \<Rightarrow> bool" where
  "sameMessage m d = (dcVerb d = dcVerb m \<and> dcCompressed d = dcCompressed m \<and> dcPayload d = dcPayload m
     \<and> rhDestination (dcRouting d) = rhDestination (dcRouting m) \<and> rhSource (dcRouting d) = rhSource (dcRouting m))"

lemma ParseDecoded_eq:
  "28 \<le> length p \<Longrightarrow> ParseDecoded p = Inr \<lparr> dcRouting = routingOf p, dcAuthenticator = slice 19 27 p,
     dcVerb = (p ! 27) AND 0x1f, dcCompressed = ((p ! 27) AND 0x80 \<noteq> 0), dcPayload = drop 28 p \<rparr>"
  by (simp add: ParseDecoded_def ParseRouting_eq packet_consts)

lemma ParseDecoded_length: "ParseDecoded p = Inr d \<Longrightarrow> 28 \<le> length p"
  by (auto simp: ParseDecoded_def ParseRouting_eq rbind_eq_Inr split: if_splits)

text \<open>A packet in transit: its addresses, its flags and its body are known, its first eight bytes and
  its authentication tag may be anything.\<close>

lemma ParseDecoded_transit:
  assumes "ParseDecoded u = Inr m" "length i = 8" "length tg = 8"
    and xdef: "x = withHops h (i @ slice 8 18 u @ [f] @ tg @ drop 27 u)"
  shows "\<exists>d. ParseDecoded x = Inr d \<and> sameMessage m d \<and> rhHops (dcRouting d) = h AND 0x07
    \<and> rhPacketID (dcRouting d) = be_word i \<and> rhCipher (dcRouting d) = drop_bit 3 (f AND 0x38)"
proof -
  from ParseDecoded_length [OF assms(1)] have l: "28 \<le> length u" .
  then have s: "length (slice 8 18 u) = 10" by simp
  have x: "x = i @ slice 8 18 u @ [(f AND 0xf8) OR (h AND 0x07)] @ tg @ drop 27 u"
    using assms(2) s by (simp add: xdef withHops_def list_update_append nth_append)
  have lx: "28 \<le> length x" using l assms(2,3) s by (simp add: x)
  have c: "drop 27 u = u ! 27 # drop 28 u" using Cons_nth_drop_Suc [of 27 u] l by simp
  have body: "drop 28 x = drop 28 u" "x ! 27 = u ! 27"
    using assms(2,3) s by (simp_all add: x c nth_append)
  have addr: "slice 8 13 x = slice 8 13 u" "slice 13 18 x = slice 13 18 u" "take 8 x = i" "x ! 18 = (f AND 0xf8) OR (h AND 0x07)"
    using assms(2) s l by (simp_all add: x slice_def drop_take nth_append)
  show ?thesis
    using assms(1) body addr
    by (auto simp: ParseDecoded_eq [OF lx] ParseDecoded_eq [OF l] sameMessage_def routingOf_def flag_bits)
qed

lemma mangleKey_cong:
  assumes "length a = length b" "18 < length b" "take 18 a = take 18 b" "a ! 18 AND 0xf8 = b ! 18 AND 0xf8"
  shows "mangleKey a k = mangleKey b k"
proof -
  have "a ! i = b ! i" if "i < 18" for i using assms(3) that by (metis nth_take)
  then show ?thesis unfolding mangleKey_def using assms by (intro map_cong) auto
qed

lemma take_eighteen: "28 \<le> length u \<Longrightarrow> take 18 u = take 8 u @ slice 8 18 u"
  by (simp add: slice_def flip: take_add)

lemma Dearmor_armor:
  assumes a: "armor cr u k e ext = Inr a" and m: "ParseDecoded u = Inr m"
  shows "\<exists>d. Dearmor cr (withHops h a) k = Inr d \<and> sameMessage m d \<and> rhHops (dcRouting d) = h AND 0x07
    \<and> rhPacketID (dcRouting d) = rhPacketID (dcRouting m)"
    and "\<not> rhCipher (routingOf (withHops h a)) = CipherAESGMACSIV" and "length a = length u"
proof -
  define f where "f = armorFlags (u ! 18) e ext"
  define p where "p = u[18 := f]"
  define stream where "stream = salsa12Stream (mangleKey p k) (take 8 p) (64 + length (drop 27 p))"
  define body where "body = (if e then xorBytes (drop 27 p) (drop 64 stream) else drop 27 p)"
  define tg where "tg = take 8 (Poly1305Sum cr body (take 32 stream))"
  from ParseDecoded_length [OF m] have l: "28 \<le> length u" .
  from a have u: "length u \<le> 10024" and a: "a = take 19 p @ tg @ body"
    by (auto simp: armor_def Let_def f_def p_def stream_def body_def tg_def packet_consts split: if_splits)
  have p: "length p = length u" "take 19 p = take 18 u @ [f]" "take 18 p = take 18 u" "p ! 18 = f" "drop 27 p = drop 27 u" "take 8 p = take 8 u"
    using l by (simp_all add: p_def take_Suc_conv_app_nth [of 18, simplified])
  have lb: "length body = length u - 27" "length tg = 8"
    using p by (simp_all add: body_def stream_def tg_def Poly1305Sum_def)
  show la: "length a = length u" using l lb p by (simp add: a)
  define f' where "f' = (f AND 0xf8) OR (h AND 0x07)"
  have w: "withHops h a = take 18 u @ [f'] @ tg @ body"
    using l p lb by (simp add: withHops_def a f'_def list_update_append nth_append)
  have parts: "take 18 (withHops h a) = take 18 u" "withHops h a ! 18 = f'" "slice 19 27 (withHops h a) = tg"
      "drop 27 (withHops h a) = body" "take 8 (withHops h a) = take 8 u" "take 27 (withHops h a) = take 18 u @ [f'] @ tg"
    using l lb by (simp_all add: w nth_append slice_def)
  have key: "mangleKey (withHops h a) k = mangleKey p k"
    using parts p l la by (intro mangleKey_cong) (simp_all add: f'_def flag_bits)
  have str: "salsa12Stream (mangleKey (withHops h a) k) (take 8 (withHops h a)) (64 + length (drop 27 (withHops h a))) = stream"
    using parts p lb unfolding key by (simp add: stream_def)
  have ci: "rhCipher (routingOf (withHops h a)) = (if e then CipherC25519Poly1305Salsa else CipherC25519Poly1305Clear)"
    using parts cipher_bits(1) [of "u ! 18" e ext] by (simp add: routingOf_def f'_def flag_bits f_def)
  then show "\<not> rhCipher (routingOf (withHops h a)) = CipherAESGMACSIV" by (simp add: packet_consts)
  have plain: "(if e then xorBytes body (drop 64 stream) else body) = drop 27 u"
    using p by (simp add: body_def stream_def xorBytes_twice)
  have "take 27 (withHops h a) @ drop 27 u = withHops h (take 8 u @ slice 8 18 u @ [f] @ tg @ drop 27 u)"
    unfolding parts(6) using l by (simp add: withHops_def f'_def take_eighteen list_update_append nth_append)
  from ParseDecoded_transit [OF m _ lb(2) this] l obtain d where
    d: "ParseDecoded (take 27 (withHops h a) @ drop 27 u) = Inr d" "sameMessage m d" "rhHops (dcRouting d) = h AND 0x07"
      "rhPacketID (dcRouting d) = be_word (take 8 u)" by auto
  have "Dearmor cr (withHops h a) k = ParseDecoded (take 27 (withHops h a) @ drop 27 u)"
    unfolding Dearmor_def Let_def str
    using ci plain l u la parts tg_def by (auto simp: ParseRouting_eq packet_consts split: if_splits)
  moreover have "rhPacketID (dcRouting m) = be_word (take 8 u)"
    using m l by (auto simp: ParseDecoded_eq routingOf_def)
  ultimately show "\<exists>d. Dearmor cr (withHops h a) k = Inr d \<and> sameMessage m d \<and> rhHops (dcRouting d) = h AND 0x07
      \<and> rhPacketID (dcRouting d) = rhPacketID (dcRouting m)"
    using d by auto
qed

lemma DearmorAES_Armor:
  assumes law: "aes_law cr" and a: "ArmorAES cr u k = Inr a" and m: "ParseDecoded u = Inr m" and z: "rhHops (dcRouting m) = 0"
  shows "\<exists>d. DearmorAES cr (withHops h a) k = Inr d \<and> sameMessage m d \<and> rhHops (dcRouting d) = h AND 0x07"
    and "rhCipher (routingOf (withHops h a)) = CipherAESGMACSIV" and "length a = length u"
proof -
  obtain key0 key1 where ks: "aesSessionKeys cr k = Inr (key0, key1)" by (auto simp: aesSessionKeys_def)
  define f where "f = ((u ! 18 AND 0xc7) OR push_bit 3 CipherAESGMACSIV) AND NOT FlagExtendedArmor"
  define p where "p = u[18 := f]"
  define auth where "auth = slice 8 19 p @ replicate 5 0 @ drop 27 p"
  define gmac where "gmac = computeGMAC cr key0 (take 8 p @ replicate 4 0) auth"
  define syn where "syn = aesEncrypt cr key1 (take 8 p @ foldMac gmac)"
  define counter where "counter = syn[12 := syn ! 12 AND 0x7f]"
  define body where "body = ctrXOR cr key1 counter (drop 27 p)"
  from ParseDecoded_length [OF m] have l: "28 \<le> length u" .
  from a ks have u: "length u \<le> 10024" and a: "a = take 8 syn @ slice 8 19 p @ drop 8 syn @ body"
    by (auto simp: ArmorAES_def Let_def f_def p_def auth_def gmac_def syn_def counter_def body_def packet_consts split: if_splits)
  have p: "length p = length u" "slice 8 19 p = slice 8 18 u @ [f]" "drop 27 p = drop 27 u" "take 8 p = take 8 u"
  proof -
    have e: "p = take 8 u @ slice 8 18 u @ [f] @ drop 19 u"
      using l by (simp add: p_def upd_conv_take_nth_drop take_eighteen)
    show "length p = length u" by (simp add: p_def)
    show "slice 8 19 p = slice 8 18 u @ [f]" "drop 27 p = drop 27 u" "take 8 p = take 8 u"
      using l by (simp_all add: e slice_def drop_take)
  qed
  have sl: "length syn = 16" "take 8 syn @ drop 8 syn = syn" by (simp_all add: syn_def)
  show la: "length a = length u" using l p by (simp add: a body_def sl)
  define f' where "f' = (f AND 0xf8) OR (h AND 0x07)"
  have w: "withHops h a = take 8 syn @ slice 8 18 u @ [f'] @ drop 8 syn @ body"
    using l p sl by (simp add: withHops_def a f'_def list_update_append nth_append)
  have parts: "take 8 (withHops h a) = take 8 syn" "withHops h a ! 18 = f'" "slice 19 27 (withHops h a) = drop 8 syn"
      "drop 27 (withHops h a) = body" "slice 8 19 (withHops h a) = slice 8 18 u @ [f']"
      "take 27 (withHops h a) = take 8 syn @ slice 8 18 u @ [f'] @ drop 8 syn"
    using l sl by (simp_all add: w nth_append slice_def)
  show ci: "rhCipher (routingOf (withHops h a)) = CipherAESGMACSIV"
    using parts cipher_bits(2) [of "u ! 18"] by (simp add: routingOf_def f'_def flag_bits f_def)
  have "f AND 0x07 = 0" using z m l cipher_bits(3) [of "u ! 18"] by (auto simp: f_def ParseDecoded_eq routingOf_def)
  then have f: "f' AND 0xf8 = f" unfolding f'_def flag_bits(1) by (rule flag_bits(4))
  have hd: "(slice 8 19 (withHops h a))[10 := slice 8 19 (withHops h a) ! 10 AND 0xf8] = slice 8 19 p"
    using l f by (simp add: parts p list_update_append nth_append)
  have iv: "aesDecrypt cr key1 syn = take 8 p @ foldMac gmac"
    using l p by (simp add: syn_def aesDecrypt_Encrypt [OF law])
  have plain: "ctrXOR cr key1 counter body = drop 27 u" by (simp add: body_def ctrXOR_twice p)
  have "take 27 (withHops h a) @ drop 27 u = withHops h (take 8 syn @ slice 8 18 u @ [f] @ drop 8 syn @ drop 27 u)"
    unfolding parts(6) using l sl by (simp add: withHops_def f'_def list_update_append nth_append)
  from ParseDecoded_transit [OF m _ _ this] sl obtain d where
    d: "ParseDecoded (take 27 (withHops h a) @ drop 27 u) = Inr d" "sameMessage m d" "rhHops (dcRouting d) = h AND 0x07" by auto
  have "DearmorAES cr (withHops h a) k = ParseDecoded (take 27 (withHops h a) @ drop 27 u)"
    unfolding DearmorAES_def Let_def parts(1,3,4) sl(2) hd ks rbind_simps prod.case counter_def [symmetric] plain iv
    using ci l u la p by (simp add: ParseRouting_eq packet_consts auth_def gmac_def)
  then show "\<exists>d. DearmorAES cr (withHops h a) k = Inr d \<and> sameMessage m d \<and> rhHops (dcRouting d) = h AND 0x07"
    using d by auto
qed

lemma DearmorSession_Armor:
  assumes "aes_law cr" "ArmorSession cr unarmored key encrypt useAES = Inr armored" "ParseDecoded unarmored = Inr m"
    and "rhHops (dcRouting m) = 0"
  shows "length armored = length unarmored \<and> (\<exists>d. DearmorSession cr (withHops h armored) key = Inr d \<and> sameMessage m d
    \<and> rhHops (dcRouting d) = h AND 0x07 \<and> (useAES \<or> rhPacketID (dcRouting d) = rhPacketID (dcRouting m)))"
proof (cases useAES)
  case True
  with assms(2) have a: "ArmorAES cr unarmored key = Inr armored" by (simp add: ArmorSession_def)
  note A = DearmorAES_Armor [OF assms(1) a assms(3,4)]
  then have "DearmorSession cr (withHops h armored) key = DearmorAES cr (withHops h armored) key"
    using ParseDecoded_length [OF assms(3)] by (simp add: DearmorSession_def ParseRouting_eq)
  then show ?thesis using A True by auto
next
  case False
  with assms(2) have a: "armor cr unarmored (salsaKey key) encrypt False = Inr armored" by (simp add: ArmorSession_def Armor_def)
  note A = Dearmor_armor [OF a assms(3)]
  then have "DearmorSession cr (withHops h armored) key = Dearmor cr (withHops h armored) (salsaKey key)"
    using ParseDecoded_length [OF assms(3)] by (simp add: DearmorSession_def ParseRouting_eq)
  then show ?thesis using A by auto
qed

lemma DearmorSession_routing:
  assumes "DearmorSession cr a key = Inr d"
  shows "dcRouting d = routingOf a" "28 \<le> length a"
proof -
  have l: "28 \<le> length a" using assms by (auto simp: DearmorSession_def rbind_eq_Inr ParseRouting_Inr)
  have "\<exists>rest. ParseDecoded (take 27 a @ rest) = Inr d"
    using assms l
    by (auto simp: DearmorSession_def Dearmor_def DearmorAES_def ParseRouting_eq rbind_eq_Inr Let_def aesSessionKeys_def
        split: if_splits) (metis append_take_drop_id)+
  then obtain rest where p: "ParseDecoded (take 27 a @ rest) = Inr d" by blast
  moreover have "routingOf (take 27 a @ rest) = routingOf a" using l by (intro routingOf_cong) simp
  ultimately show "dcRouting d = routingOf a" using ParseDecoded_length [OF p] by (auto simp: ParseDecoded_eq)
  show "28 \<le> length a" by (rule l)
qed

text \<open>
  Sessions accept their own packets: for every cipher suite, what \<^verbatim>\<open>ArmorSession\<close> produces from a
  packet with a fresh hop count has the packet's length, and \<^verbatim>\<open>DearmorSession\<close> with the same key
  accepts it, whatever the hop count has become in transit, and yields the same verb, compression
  flag, payload, source and destination. The Salsa20/12 and clear suites keep the packet ID as well;
  AES-GMAC-SIV replaces it on the wire.
\<close>

theorem session_armor_roundtrip:
  assumes "aes_law cr" "ArmorSession cr unarmored key encrypt useAES = Inr armored" "ParseDecoded unarmored = Inr m"
    and "rhHops (dcRouting m) = 0"
  shows "length armored = length unarmored \<and> (\<exists>d. DearmorSession cr (withHops h armored) key = Inr d \<and> sameMessage m d
    \<and> rhHops (dcRouting d) = h AND 0x07 \<and> (useAES \<or> rhPacketID (dcRouting d) = rhPacketID (dcRouting m)))"
  by (rule DearmorSession_Armor [OF assms])

definition toyPacket :: bytes where
  "toyPacket = replicate 8 7 @ [0x80, 0x56, 0xc2, 0xe2, 0x1c, 0, 0, 0, 0, 0x40] @ replicate 9 0 @ [0x0b, 1, 2, 3]"

theorem session_armor_roundtrip_witness:
  "\<exists>m a b d e. ParseDecoded toyPacket = Inr m
     \<and> ArmorSession toyCrypto toyPacket (replicate 48 5) True True = Inr a
     \<and> DearmorSession toyCrypto (withHops 3 a) (replicate 48 5) = Inr d \<and> dcPayload d = [1, 2, 3]
     \<and> ArmorSession toyCrypto toyPacket (replicate 48 5) True False = Inr b
     \<and> DearmorSession toyCrypto (withHops 3 b) (replicate 48 5) = Inr e \<and> dcPayload e = [1, 2, 3]"
proof -
  have l: "length toyPacket = 31" by (simp add: toyPacket_def)
  then obtain m where m: "ParseDecoded toyPacket = Inr m" "rhHops (dcRouting m) = 0" "dcPayload m = [1, 2, 3]"
    by (simp add: ParseDecoded_eq) (simp add: toyPacket_def routingOf_def nth_append)
  have law: "aes_law toyCrypto" by (simp add: aes_law_def toyCrypto_def)
  obtain a where a: "ArmorSession toyCrypto toyPacket (replicate 48 5) True True = Inr a"
    using l by (simp add: ArmorSession_def ArmorAES_def aesSessionKeys_def Let_def packet_consts)
  obtain b where b: "ArmorSession toyCrypto toyPacket (replicate 48 5) True False = Inr b"
    using l by (simp add: ArmorSession_def Armor_def armor_def Let_def packet_consts)
  from session_armor_roundtrip [OF law a m(1,2), of 3] session_armor_roundtrip [OF law b m(1,2), of 3] m(1,3) a b
  show ?thesis by (auto simp: sameMessage_def)
qed

end
