(* ===== verification/ExtendedArmor.thy ===== *)
theory ExtendedArmor
  imports Armor
begin

unbundle bit_operations_syntax

text \<open>
  \<^verbatim>\<open>internal/zerotier/packet/extendedarmor.go\<close>: the ephemeral X25519 and AES-CTR layer around a clear
  HELLO. The ephemeral private key drawn by \<^verbatim>\<open>curve.GenerateKey(rand.Reader)\<close> is an argument. The
  lemmas show that the owner of the destination identity removes exactly the layer that was added.
\<close>

definition ephemeralPublicKeyLength :: nat where "ephemeralPublicKeyLength = 32"

text \<open>\<^verbatim>\<open>aes.NewCipher\<close> accepts every 32-byte key.\<close>

definition cryptExtendedArmor :: "Crypto \<Rightarrow> bytes \<Rightarrow> bytes \<Rightarrow> bytes result" where
  "cryptExtendedArmor cr packet key =
     (if length packet < HeaderLength then Inl (Errorf ''extended armor packet is shorter than its header'')
      else if length key \<noteq> 32 then Inl (Errorf ''extended armor key must contain 32 bytes'')
      else Inr (take 19 packet @ ctrXOR cr key (take 12 packet @ replicate 4 0) (drop 19 packet)))"

definition ArmorExtended :: "Crypto \<Rightarrow> bytes result \<Rightarrow> bytes \<Rightarrow> bytes \<Rightarrow> Identity \<Rightarrow> bytes result" where
  "ArmorExtended cr ephemeral unarmored sessionKey destination =
     (if \<not> LocallyValidate cr destination then Inl (Errorf ''extended armor destination identity is invalid'')
      else
        rbind (armor cr unarmored (salsaKey sessionKey) False True) (\<lambda>packet.
        if length packet + ephemeralPublicKeyLength > MaxPacketLength
        then Inl (Errorf ''extended armor packet exceeds %d bytes'')
        else
          rbind (wrapErr ''generate extended armor key: %w'' ephemeral) (\<lambda>private.
          rbind (wrapErr ''derive extended armor key: %w'' (crX25519 cr private (take 32 (idPublicKey destination)))) (\<lambda>raw.
          rbind (cryptExtendedArmor cr packet (take 32 (Sum512 cr (be_bytes 32 raw)))) (\<lambda>packet.
          Inr (packet @ xPublic cr private))))))"

definition DearmorExtended :: "Crypto \<Rightarrow> bytes \<Rightarrow> Identity \<Rightarrow> bytes result" where
  "DearmorExtended cr armored local =
     (if \<not> idHasPrivate local then Inl (Errorf ''extended armor requires a private local identity'')
      else if length armored < HeaderLength + ephemeralPublicKeyLength
      then Inl (Errorf ''extended armor packet is truncated'')
      else if length armored > MaxPacketLength then Inl (Errorf ''extended armor packet exceeds %d bytes'')
      else
        rbind (ParseRouting armored) (\<lambda>routing.
        if \<not> rhExtendedArmor routing \<or> rhCipher routing \<noteq> CipherC25519Poly1305Clear
        then Inl (Errorf ''packet does not use extended clear armor'')
        else
          let ciphertextEnd = length armored - ephemeralPublicKeyLength in
          if ciphertextEnd < HeaderLength then Inl (Errorf ''extended armor ciphertext is truncated'')
          else
            rbind (wrapErr ''derive extended armor key: %w'' (AgreeRawPublic cr local (drop ciphertextEnd armored) 32)) (\<lambda>key.
            cryptExtendedArmor cr (take ciphertextEnd armored) key)))"

section \<open>The layer is removed by the destination\<close>

lemma agree_32: "idHasPrivate i \<Longrightarrow> AgreeRawPublic cr i public 32 =
    rbind (wrapErr ''agree keys: %w'' (crX25519 cr (take 32 (idPrivateKey i)) public)) (\<lambda>raw. Inr (take 32 (Sum512 cr (be_bytes 32 raw))))"
  by (auto simp: AgreeRawPublic_def MaxAgreementKeyLength_def agreeLoop_step Sum512_def)

lemma crypt_twice:
  assumes "length packet \<ge> 28" "length key = 32"
  shows "\<exists>x. cryptExtendedArmor cr packet key = Inr x \<and> length x = length packet \<and> take 19 x = take 19 packet
    \<and> cryptExtendedArmor cr (withHops h x) key = Inr (withHops h packet)"
proof -
  let ?iv = "take 12 packet @ replicate 4 0"
  let ?x = "take 19 packet @ ctrXOR cr key ?iv (drop 19 packet)"
  have c: "cryptExtendedArmor cr packet key = Inr ?x" using assms by (simp add: cryptExtendedArmor_def packet_consts)
  have l: "length ?x = length packet" by simp
  have "take 19 (withHops h ?x) = take 19 (withHops h packet)" "drop 19 (withHops h ?x) = ctrXOR cr key ?iv (drop 19 packet)"
      "take 12 (withHops h ?x) = take 12 packet" "drop 19 (withHops h packet) = drop 19 packet"
    using assms(1) by (simp_all add: withHops_def take_update_swap nth_append list_update_beyond)
  then have "cryptExtendedArmor cr (withHops h ?x) key = Inr (take 19 (withHops h packet) @ drop 19 (withHops h packet))"
    using assms l by (simp add: cryptExtendedArmor_def packet_consts ctrXOR_twice)
  then show ?thesis using c l assms(1) by (intro exI [of _ ?x]) simp
qed

lemma extended_flags: "(armorFlags b False True) AND 0x80 \<noteq> 0"
proof -
  have "bit (armorFlags b False True) 7" by (simp add: armorFlags_def packet_consts Let_def bit_simps)
  then have "bit (armorFlags b False True AND 0x80) 7" by (simp add: bit_simps)
  then show ?thesis by (metis bit_0_eq bot_apply bot_bool_def)
qed

lemma extended_hops: "((b AND 0xf8) OR (h AND 0x07)) AND 0x80 = b AND (0x80 :: byte)"
  by (rule bit_word_eqI) (auto simp: bit_simps dest!: byte_index)

text \<open>
  Extended armor: a packet wrapped for a destination identity with any ephemeral key is unwrapped
  by the owner of that identity, whatever the hop count has become, into the clear session armor; that
  armor authenticates with the session key and yields the packet that was wrapped.
\<close>

theorem extended_armor_roundtrip:
  assumes "x25519_law cr" "wfIdentity local" "idHasPrivate local"
    and "take 32 (idPublicKey local) = xPublic cr (take 32 (idPrivateKey local))"
    and "length private = 32" "ArmorExtended cr (Inr private) unarmored key (Public local) = Inr extended"
    and "ParseDecoded unarmored = Inr m"
  shows "length extended = length unarmored + 32 \<and> (\<exists>clear d. DearmorExtended cr (withHops h extended) local = Inr clear
    \<and> DearmorSession cr clear key = Inr d \<and> sameMessage m d \<and> rhPacketID (dcRouting d) = rhPacketID (dcRouting m))"
proof -
  from assms(6) obtain packet raw x where p: "armor cr unarmored (salsaKey key) False True = Inr packet"
    and sz: "length packet + 32 \<le> MaxPacketLength"
    and raw: "crX25519 cr private (take 32 (idPublicKey local)) = Inr raw"
    and x: "cryptExtendedArmor cr packet (take 32 (Sum512 cr (be_bytes 32 raw))) = Inr x" "extended = x @ xPublic cr private"
    by (auto simp: ArmorExtended_def rbind_eq_Inr Public_def ephemeralPublicKeyLength_def not_less split: if_splits)
  have lp: "length packet = length unarmored" by (rule Dearmor_armor(3) [OF p assms(7)])
  have l: "28 \<le> length packet" using ParseDecoded_length [OF assms(7)] lp by simp
  let ?key = "take 32 (Sum512 cr (be_bytes 32 raw))"
  from crypt_twice [OF l, of ?key cr h] x(1) have c: "length x = length packet" "take 19 x = take 19 packet"
    "cryptExtendedArmor cr (withHops h x) ?key = Inr (withHops h packet)" by auto
  have w: "withHops h extended = withHops h x @ xPublic cr private"
    using l c(1) by (simp add: withHops_def x(2) list_update_append nth_append)
  have "crX25519 cr (take 32 (idPrivateKey local)) (xPublic cr private) = Inr raw"
    using assms(1,2,4,5) raw unfolding x25519_law_def by (simp add: wfIdentity_def identity_consts)
  then have agree: "AgreeRawPublic cr local (xPublic cr private) 32 = Inr ?key" using assms(3) by (simp add: agree_32)
  have "packet ! 18 = armorFlags (unarmored ! 18) False True"
    using p l lp by (auto simp: armor_def Let_def nth_append split: if_splits)
  moreover have "x ! 18 = packet ! 18" using arg_cong [OF c(2), of "\<lambda>t. t ! 18"] by simp
  ultimately have fx: "withHops h x ! 18 = (armorFlags (unarmored ! 18) False True AND 0xf8) OR (h AND 0x07)"
    using l c(1) by (simp add: withHops_def)
  have routing: "ParseRouting (withHops h extended) = Inr (routingOf (withHops h x @ xPublic cr private))"
      "rhExtendedArmor (routingOf (withHops h x @ xPublic cr private))"
      "rhCipher (routingOf (withHops h x @ xPublic cr private)) = CipherC25519Poly1305Clear"
    using l c(1) fx extended_flags cipher_bits(1) [of "unarmored ! 18" False True]
    by (simp_all add: w ParseRouting_eq) (simp_all add: routingOf_def nth_append extended_hops flag_bits)
  have "DearmorExtended cr (withHops h extended) local = Inr (withHops h packet)"
    unfolding DearmorExtended_def routing(1)
    using l c(1,3) sz agree assms(3) routing(2,3) by (simp add: w Let_def ephemeralPublicKeyLength_def packet_consts)
  moreover have "\<exists>d. DearmorSession cr (withHops h packet) key = Inr d \<and> sameMessage m d
      \<and> rhPacketID (dcRouting d) = rhPacketID (dcRouting m)"
    using Dearmor_armor(1,2) [OF p assms(7), of h] l by (auto simp: DearmorSession_def ParseRouting_eq)
  ultimately show ?thesis using x(2) c(1) lp by auto
qed

definition toyLocal :: Identity where
  "toyLocal = withAddress toyCrypto (toyIdentity 9)"

theorem extended_armor_roundtrip_witness:
  "\<exists>x clear d. ArmorExtended toyCrypto (Inr (replicate 32 3)) toyPacket (replicate 48 5) (Public toyLocal) = Inr x
     \<and> DearmorExtended toyCrypto (withHops 2 x) toyLocal = Inr clear
     \<and> DearmorSession toyCrypto clear (replicate 48 5) = Inr d \<and> dcPayload d = [1, 2, 3]"
proof -
  have l: "length toyPacket = 31" by (simp add: toyPacket_def)
  obtain m where m: "ParseDecoded toyPacket = Inr m" "dcPayload m = [1, 2, 3]"
    using l by (simp add: ParseDecoded_eq) (simp add: toyPacket_def)
  have h: "length (idPublicKey (toyIdentity 9)) = 64" by (simp add: toyIdentity_def)
  have "acceptable toyCrypto (toyIdentity 9)" unfolding acceptable_def toy_hash [OF h] by code_simp
  moreover have "keyPair toyCrypto (toyIdentity 9)" using toy_keys [of 9] by (simp add: keyPair_def toyIdentity_def)
  ultimately have t: "wfIdentity toyLocal" "LocallyValidate toyCrypto toyLocal" using withAddress_valid [of toyCrypto "toyIdentity 9"] by (simp_all add: toyLocal_def)
  have k: "idHasPrivate toyLocal" "take 32 (idPublicKey toyLocal) = xPublic toyCrypto (take 32 (idPrivateKey toyLocal))"
    using toy_keys [of 9] by (simp_all add: toyLocal_def withAddress_def)
  have "LocallyValidate toyCrypto (Public toyLocal)" using t(2) by (auto simp: LocallyValidate_def Public_def Let_def split: if_splits)
  then obtain x where x: "ArmorExtended toyCrypto (Inr (replicate 32 3)) toyPacket (replicate 48 5) (Public toyLocal) = Inr x"
    using l by (simp add: ArmorExtended_def armor_def Let_def packet_consts ephemeralPublicKeyLength_def cryptExtendedArmor_def
        Poly1305Sum_def) (simp add: toyCrypto_def)
  from extended_armor_roundtrip [OF toy_laws(2) t(1) k _ x m(1), of 2] x m(2) show ?thesis by (auto simp: sameMessage_def)
qed

end
