(* ===== verification/Hello.thy ===== *)
theory Hello
  imports ExtendedArmor Netip
begin

unbundle bit_operations_syntax

text \<open>
  \<^verbatim>\<open>internal/zerotier/packet/hello.go\<close>: the bootstrap exchange in which two identities agree on a
  session key. The lemmas show that a HELLO built for an identity authenticates there and agrees on
  the key, that nothing else is accepted, and that the answer reads back.
\<close>

record InetAddress =
  iaAddress :: Addr
  iaPort :: uint16

record Hello =
  hlRouting :: RoutingHeader
  hlProtocolVersion :: byte
  hlMajor :: byte
  hlMinor :: byte
  hlRevision :: uint16
  hlTimestamp :: uint64
  hlIdentity :: Identity
  hlExternalSurface :: "InetAddress option"
  hlPlanetWorldID :: uint64
  hlPlanetWorldTimestamp :: uint64
  hlEncryptedWorldExtension :: bytes

record LocalVersion =
  lvProtocol :: byte
  lvMajor :: byte
  lvMinor :: byte
  lvRevision :: uint16

record HelloOK =
  hkRequestPacketID :: uint64
  hkTimestamp :: uint64
  hkVersion :: LocalVersion
  hkExternalSurface :: "InetAddress option"
  hkWorldUpdate :: bytes

definition helloFixedLength :: nat where
  "helloFixedLength = 1 + 1 + 1 + 2 + 8 + PublicBinaryLength"

section \<open>Addresses\<close>

definition parseInetAddress :: "bytes \<Rightarrow> (InetAddress option \<times> nat) result" where
  "parseInetAddress serialized =
     (if length serialized < 1 then Inl (Errorf ''missing address family'')
      else if serialized ! 0 = 0 then Inr (None, 1)
      else if serialized ! 0 = 4 then
        (if length serialized < 7 then Inl (Errorf ''truncated IPv4 address'')
         else Inr (Some \<lparr> iaAddress = AddrFrom4 (slice 1 5 serialized), iaPort = be_word (slice 5 7 serialized) \<rparr>, 7))
      else if serialized ! 0 = 6 then
        (if length serialized < 19 then Inl (Errorf ''truncated IPv6 address'')
         else Inr (Some \<lparr> iaAddress = AddrFrom16 (slice 1 17 serialized), iaPort = be_word (slice 17 19 serialized) \<rparr>, 19))
      else Inl (Errorf ''unsupported address family %d''))"

definition serializeInetAddress :: "InetAddress \<Rightarrow> bytes result" where
  "serializeInetAddress address =
     (if Is4 (iaAddress address) then
        rbind (As4 (iaAddress address)) (\<lambda>value. Inr ([4] @ value @ be_bytes 2 (iaPort address)))
      else if Is6 (iaAddress address) then Inr ([6] @ As16 (iaAddress address) @ be_bytes 2 (iaPort address))
      else Inl (Errorf ''observed physical address is invalid''))"

section \<open>HELLO\<close>

definition BuildHello ::
    "Crypto \<Rightarrow> uint64 \<Rightarrow> Identity \<Rightarrow> Identity \<Rightarrow> LocalVersion \<Rightarrow> uint64 \<Rightarrow> uint64 \<Rightarrow> uint64 \<Rightarrow> bytes \<Rightarrow> bytes result" where
  "BuildHello cr packetID destination local version timestamp planetWorldID planetWorldTimestamp sharedKey =
     (if \<not> idHasPrivate local then Inl (Errorf ''local identity must include its private key'')
      else if \<not> LocallyValidate cr destination then Inl (Errorf ''destination identity failed local validation'')
      else if lvProtocol version < MinimumProtocolVersion
      then Inl (Errorf ''local protocol version is below the supported minimum'')
      else
        rbind (Identity_MarshalBinary (Public local)) (\<lambda>public.
        let payload = [lvProtocol version, lvMajor version, lvMinor version] @ be_bytes 2 (lvRevision version)
              @ be_bytes 8 timestamp @ public @ [0] @ be_bytes 8 planetWorldID @ be_bytes 8 planetWorldTimestamp in
        rbind (Build packetID (idAddress destination) (idAddress local) VerbHello payload) (\<lambda>draft.
        ArmorSession cr draft sharedKey False False)))"

definition parseHelloPayload :: "Decoded \<Rightarrow> Identity \<Rightarrow> Hello result" where
  "parseHelloPayload decoded peer =
     (let payload = dcPayload decoded in
      if length payload < helloFixedLength then Inl (Errorf ''HELLO payload is truncated'')
      else if payload ! 0 < MinimumProtocolVersion then Inl (Errorf ''HELLO protocol %d is below minimum %d'')
      else
        rbind (if helloFixedLength < length payload
               then rbind (wrapErr ''HELLO external surface: %w'' (parseInetAddress (drop helloFixedLength payload)))
                 (\<lambda>(address, consumed). Inr (address, helloFixedLength + consumed))
               else Inr (None, helloFixedLength)) (\<lambda>(surface, offset).
        let (worldID, worldTimestamp, offset) =
              (if length payload - offset \<ge> 16
               then (be_word (slice offset (offset + 8) payload), be_word (slice (offset + 8) (offset + 16) payload), offset + 16)
               else (0, 0, offset)) in
        Inr \<lparr> hlRouting = dcRouting decoded, hlProtocolVersion = payload ! 0, hlMajor = payload ! 1, hlMinor = payload ! 2,
          hlRevision = be_word (slice 3 5 payload), hlTimestamp = be_word (slice 5 13 payload), hlIdentity = peer,
          hlExternalSurface = surface, hlPlanetWorldID = worldID, hlPlanetWorldTimestamp = worldTimestamp,
          hlEncryptedWorldExtension = drop offset payload \<rparr>))"

definition clearHello :: "Crypto \<Rightarrow> bytes \<Rightarrow> Identity \<Rightarrow> (bytes \<times> RoutingHeader) result" where
  "clearHello cr armored local =
     rbind (ParseRouting armored) (\<lambda>routing.
     if rhExtendedArmor routing
     then rbind (DearmorExtended cr armored local) (\<lambda>armored. rbind (ParseRouting armored) (\<lambda>routing. Inr (armored, routing)))
     else Inr (armored, routing))"

definition AuthenticateHello :: "Crypto \<Rightarrow> bytes \<Rightarrow> Identity \<Rightarrow> (Hello \<times> bytes) result" where
  "AuthenticateHello cr armored local =
     rbind (clearHello cr armored local) (\<lambda>(armored, routing).
     if rhCipher routing \<noteq> CipherC25519Poly1305Clear
     then Inl (Errorf ''initial HELLO must use authenticated clear armor'')
     else if length armored < HeaderLength + helloFixedLength \<or> (armored ! 27) AND 0x1f \<noteq> VerbHello
     then Inl (Errorf ''HELLO is truncated or has the wrong verb'')
     else
       let identityStart = HeaderLength + 13 in
       rbind (wrapErr ''parse HELLO identity: %w'' (ParseBinary (slice identityStart (identityStart + PublicBinaryLength) armored))) (\<lambda>peer.
       rbind (wrapErr ''derive HELLO key: %w'' (Agree cr local peer (int SessionKeyLength))) (\<lambda>sharedKey.
       rbind (DearmorSession cr armored sharedKey) (\<lambda>decoded.
       if dcVerb decoded \<noteq> VerbHello then Inl (Errorf ''authenticated packet is not HELLO'')
       else if rhSource (dcRouting decoded) \<noteq> idAddress peer
       then Inl (Errorf ''HELLO source and identity address differ'')
       else if rhDestination (dcRouting decoded) \<noteq> idAddress local
       then Inl (Errorf ''HELLO is addressed to another identity'')
       else if \<not> LocallyValidate cr peer then Inl (Errorf ''HELLO identity failed local proof validation'')
       else
         rbind (parseHelloPayload decoded peer) (\<lambda>hello. Inr (hello, sharedKey))))))"

section \<open>The answer\<close>

definition BuildHelloOK ::
    "Crypto \<Rightarrow> uint64 \<Rightarrow> Hello \<Rightarrow> Identity \<Rightarrow> InetAddress \<Rightarrow> LocalVersion \<Rightarrow> bytes \<Rightarrow> bytes result" where
  "BuildHelloOK cr responsePacketID request local observed version sharedKey =
     (if lvProtocol version < MinimumProtocolVersion
      then Inl (Errorf ''local protocol version is below the supported minimum'')
      else
        rbind (serializeInetAddress observed) (\<lambda>serializedAddress.
        let payload = [VerbHello] @ be_bytes 8 (rhPacketID (hlRouting request)) @ be_bytes 8 (hlTimestamp request)
              @ [lvProtocol version, lvMajor version, lvMinor version] @ be_bytes 2 (lvRevision version)
              @ serializedAddress @ be_bytes 2 (0 :: uint16) in
        rbind (Build responsePacketID (idAddress (hlIdentity request)) (idAddress local) VerbOK payload) (\<lambda>draft.
        Armor cr draft (salsaKey sharedKey) True)))"

definition ParseHelloOK :: "Decoded \<Rightarrow> HelloOK result" where
  "ParseHelloOK decoded =
     (let payload = dcPayload decoded in
      if dcVerb decoded \<noteq> VerbOK \<or> length payload < 22 \<or> payload ! 0 \<noteq> VerbHello
      then Inl (Errorf ''packet is not a complete HELLO OK'')
      else if payload ! 17 < MinimumProtocolVersion then Inl (Errorf ''HELLO OK protocol version is unsupported'')
      else
        rbind (if 22 < length payload
               then rbind (parseInetAddress (drop 22 payload)) (\<lambda>(address, consumed). Inr (address, 22 + consumed))
               else Inr (None, 22)) (\<lambda>(surface, offset).
        rbind (if length payload - offset \<ge> 2
               then let len = unat (be_word (slice offset (offset + 2) payload) :: uint16) in
                 if len > length payload - (offset + 2) then Inl (Errorf ''HELLO OK world update is truncated'')
                 else Inr (slice (offset + 2) (offset + 2 + len) payload)
               else Inr []) (\<lambda>worldUpdate.
        Inr \<lparr> hkRequestPacketID = be_word (slice 1 9 payload), hkTimestamp = be_word (slice 9 17 payload),
          hkVersion = \<lparr> lvProtocol = payload ! 17, lvMajor = payload ! 18, lvMinor = payload ! 19,
            lvRevision = be_word (slice 20 22 payload) \<rparr>,
          hkExternalSurface = surface, hkWorldUpdate = worldUpdate \<rparr>)))"

section \<open>Lemmas\<close>

text \<open>The address as the wire carries it: without its zone.\<close>

fun wireAddress :: "Addr \<Rightarrow> Addr" where
  "wireAddress (Addr6 w _) = Addr6 w []"
| "wireAddress a = a"

lemma parse_serializeInetAddress:
  assumes "serializeInetAddress a = Inr b"
  shows "parseInetAddress (b @ r) = Inr (Some (a\<lparr>iaAddress := wireAddress (iaAddress a)\<rparr>), length b)"
  using assms
  by (cases "iaAddress a"; cases a)
    (auto simp: serializeInetAddress_def parseInetAddress_def slice_def)

lemma serializeInetAddress_total: "addrIsValid (iaAddress a) \<Longrightarrow> \<exists>b. serializeInetAddress a = Inr b \<and> length b \<le> 19"
  by (cases "iaAddress a") (auto simp: serializeInetAddress_def)

lemma armor_clear:
  assumes "armor cr u k False ext = Inr a" "28 \<le> length u"
  shows "drop 27 a = drop 27 u" "length a = length u" "a ! 18 = armorFlags (u ! 18) False ext"
  using assms by (auto simp: armor_def Let_def Poly1305Sum_def nth_append split: if_splits)

lemma Public_simps [simp]:
  "idAddress (Public i) = idAddress i" "idPublicKey (Public i) = idPublicKey i" "\<not> idHasPrivate (Public i)"
  by (simp_all add: Public_def)

lemma wf_Public: "wfIdentity i \<Longrightarrow> wfIdentity (Public i)"
  by (simp add: wfIdentity_def Public_def)

lemma LocallyValidate_Public [simp]: "LocallyValidate cr (Public i) = LocallyValidate cr i"
  by (simp add: LocallyValidate_def)

lemma Marshal_Public:
  assumes "wfIdentity i"
  shows "\<exists>b. Identity_MarshalBinary (Public i) = Inr b \<and> length b = 71 \<and> ParseBinary b = Inr (Public i)"
proof -
  have c: "canonicalHex 10 (idAddress i)" using assms by (simp add: wfIdentity_def)
  from c canonicalHex_decode [of 5 "idAddress i"] obtain x where
    x: "hex_decode (idAddress i) = Inr x" "hex_encode x = idAddress i" "length x = 5" by auto
  from Marshal_Inr [OF wf_Public [OF assms], of x] x assms obtain b where
    b: "Identity_MarshalBinary (Public i) = Inr b" "length b = 71" by (simp add: wfIdentity_def identity_consts)
  with ParseBinary_Marshal [OF wf_Public [OF assms] b(1)] show ?thesis by blast
qed

lemma plain_flags: "(armorFlags 0 False False AND 0xf8 OR (h AND 0x07)) AND 0x80 = (0 :: byte)"
  by (rule bit_word_eqI) (auto simp: armorFlags_def Let_def packet_consts bit_simps dest!: byte_index)

lemma Agree_commute:
  assumes "x25519_law cr" "keyPair cr a" "keyPair cr b" "idHasPrivate a" "idHasPrivate b"
  shows "Agree cr b (Public a) n = Agree cr a (Public b) n"
  using assms unfolding x25519_law_def keyPair_def
  by (simp add: Agree_def AgreeRawPublic_def)

lemma parseHelloPayload_Build:
  assumes "length public = 71" "\<not> lvProtocol version < MinimumProtocolVersion"
    and "dcPayload d = [lvProtocol version, lvMajor version, lvMinor version] @ be_bytes 2 (lvRevision version)
      @ be_bytes 8 ts @ public @ [0] @ be_bytes 8 wid @ be_bytes 8 wts"
  shows "parseHelloPayload d peer = Inr \<lparr> hlRouting = dcRouting d, hlProtocolVersion = lvProtocol version,
    hlMajor = lvMajor version, hlMinor = lvMinor version, hlRevision = lvRevision version, hlTimestamp = ts,
    hlIdentity = peer, hlExternalSurface = None, hlPlanetWorldID = wid, hlPlanetWorldTimestamp = wts,
    hlEncryptedWorldExtension = [] \<rparr>"
proof -
  have f: "helloFixedLength = 84" by (simp add: helloFixedLength_def identity_consts)
  have "parseInetAddress (drop 84 (dcPayload d)) = Inr (None, 1)" using assms(1) by (simp add: assms(3) parseInetAddress_def)
  moreover have "length (dcPayload d) = 101" using assms(1) by (simp add: assms(3))
  moreover have "slice 3 5 (dcPayload d) = be_bytes 2 (lvRevision version)" "slice 5 13 (dcPayload d) = be_bytes 8 ts"
    "slice 85 93 (dcPayload d) = be_bytes 8 wid" "slice 93 101 (dcPayload d) = be_bytes 8 wts"
    "dcPayload d ! 0 = lvProtocol version" "dcPayload d ! 1 = lvMajor version" "dcPayload d ! 2 = lvMinor version"
    using assms(1) by (simp_all add: assms(3) slice_def)
  ultimately show ?thesis using assms(2) unfolding parseHelloPayload_def Let_def f by simp
qed

lemma Build_layout:
  assumes "Build i d s v p = Inr pkt"
  shows "pkt ! 18 = 0" "pkt ! 27 = v" "drop 28 pkt = p" "28 \<le> k \<Longrightarrow> slice k j pkt = slice (k - 28) (j - 28) p"
proof -
  have l: "length (be_bytes 8 i @ decodedHex d @ decodedHex s @ replicate 9 0 @ [v]) = 28"
    and e: "pkt = (be_bytes 8 i @ decodedHex d @ decodedHex s @ replicate 9 0 @ [v]) @ p" using assms by (auto simp: Build_Inr)
  show "pkt ! 18 = 0" "pkt ! 27 = v" using assms by (auto simp: Build_Inr nth_append)
  show "drop 28 pkt = p" "28 \<le> k \<Longrightarrow> slice k j pkt = slice (k - 28) (j - 28) p"
    unfolding e using l slice_append_right [of "be_bytes 8 i @ decodedHex d @ decodedHex s @ replicate 9 0 @ [v]" k j p] by simp_all
qed

lemma Build_Dearmor:
  assumes "Build i d s v p = Inr draft" "armor cr draft k e ext = Inr a"
  obtains m where "Dearmor cr (withHops h a) k = Inr m" "dcVerb m = v" "dcPayload m = p"
    "rhDestination (dcRouting m) = d" "rhSource (dcRouting m) = s" "rhPacketID (dcRouting m) = i"
    "\<not> rhCipher (routingOf (withHops h a)) = CipherAESGMACSIV" "length a = length draft"
  using Dearmor_armor(1,2) [OF assms(2) ParseDecoded_Build [OF assms(1)], of h]
    Dearmor_armor(3) [OF assms(2) ParseDecoded_Build [OF assms(1)]] by (auto simp: sameMessage_def)

lemma Build_armored: "Build i d s v p = Inr draft \<Longrightarrow> \<exists>a. armor cr draft k e ext = Inr a"
  by (auto simp: Build_Inr armor_def packet_consts Let_def)

lemma AuthenticateHello_clear:
  assumes "clearHello cr armored local = Inr (clear, routing)" "rhCipher routing = CipherC25519Poly1305Clear"
    and "112 \<le> length clear" "drop 27 clear = drop 27 draft" "(draft ! 27) AND 0x1f = VerbHello"
    and "ParseBinary (slice 41 112 draft) = Inr peer" "Agree cr local peer 48 = Inr key" "LocallyValidate cr peer"
    and "DearmorSession cr clear key = Inr d" "dcVerb d = VerbHello" "rhSource (dcRouting d) = idAddress peer"
    and "rhDestination (dcRouting d) = idAddress local" "parseHelloPayload d peer = Inr hello"
  shows "AuthenticateHello cr armored local = Inr (hello, key)"
proof -
  have k: "x ! (27 + i) = drop 27 x ! i" if "27 \<le> length x" for x :: bytes and i using that by (simp add: nth_drop)
  have l: "length draft = length clear" using arg_cong [OF assms(4), of length] assms(3) by simp
  have n: "clear ! 27 = draft ! 27" using k [of clear 0] k [of draft 0] l assms(3,4) by simp
  have s: "slice 41 112 clear = slice 41 112 draft"
  proof -
    have "slice 41 112 x = slice 14 85 (drop 27 x)" for x :: bytes by (simp add: slice_def)
    then show ?thesis using assms(4) by simp
  qed
  have c: "HeaderLength + helloFixedLength = 112" "HeaderLength + 13 = 41" "41 + PublicBinaryLength = 112"
    "int SessionKeyLength = 48"
    by (simp_all add: packet_consts helloFixedLength_def identity_consts SessionKeyLength_def)
  show ?thesis unfolding AuthenticateHello_def Let_def c using assms n s by simp
qed

lemma hello_exchange:
  assumes "x25519_law cr" "wfIdentity a" "keyPair cr a" "LocallyValidate cr a" "wfIdentity b" "keyPair cr b" "LocallyValidate cr b"
    and "Agree cr a (Public b) 48 = Inr key" "MinimumProtocolVersion \<le> lvProtocol version"
  shows "\<exists>armored hello. BuildHello cr packetID (Public b) a version ts wid wts key = Inr armored
    \<and> AuthenticateHello cr (withHops h armored) b = Inr (hello, key)
    \<and> hlIdentity hello = Public a \<and> rhPacketID (hlRouting hello) = packetID \<and> rhSource (hlRouting hello) = idAddress a
    \<and> hlProtocolVersion hello = lvProtocol version \<and> hlMajor hello = lvMajor version \<and> hlMinor hello = lvMinor version
    \<and> hlRevision hello = lvRevision version \<and> hlTimestamp hello = ts \<and> hlExternalSurface hello = None
    \<and> hlPlanetWorldID hello = wid \<and> hlPlanetWorldTimestamp hello = wts \<and> hlEncryptedWorldExtension hello = []"
proof -
  have p: "idHasPrivate a" "idHasPrivate b" using assms(3,6) by (simp_all add: keyPair_def)
  from Marshal_Public [OF assms(2)] obtain public where
    public: "Identity_MarshalBinary (Public a) = Inr public" "length public = 71" "ParseBinary public = Inr (Public a)" by blast
  define payload where "payload = [lvProtocol version, lvMajor version, lvMinor version] @ be_bytes 2 (lvRevision version)
    @ be_bytes 8 ts @ public @ [0] @ be_bytes 8 wid @ be_bytes 8 wts"
  have lp: "length payload = 101" using public(2) by (simp add: payload_def)
  have c: "canonicalHex 10 (idAddress a)" "canonicalHex 10 (idAddress b)" using assms(2,5) by (simp_all add: wfIdentity_def)
  obtain draft where dr: "Build packetID (idAddress b) (idAddress a) VerbHello payload = Inr draft"
    using c lp by (simp add: Build_Inr packet_consts)
  have ld: "length draft = 129" using length_Build [OF dr] lp by simp
  have dd: "draft ! 18 = 0" "draft ! 27 = VerbHello" "drop 28 draft = payload" "slice 41 112 draft = public"
    using Build_layout(1-3) [OF dr] Build_layout(4) [OF dr, of 41 112] public(2) by (simp_all add: payload_def slice_def)
  obtain armored where a: "armor cr draft (salsaKey key) False False = Inr armored" using Build_armored [OF dr] by blast
  have built: "BuildHello cr packetID (Public b) a version ts wid wts key = Inr armored"
    using p assms(7,9) public(1) dr a by (simp add: BuildHello_def payload_def ArmorSession_def Armor_def)
  note ac = armor_clear [OF a]
  have la: "length armored = 129" "drop 27 armored = drop 27 draft" "armored ! 18 = armorFlags 0 False False" using ac ld dd by auto
  from Build_Dearmor [OF dr a, of h] obtain d where d: "Dearmor cr (withHops h armored) (salsaKey key) = Inr d"
      "dcVerb d = VerbHello" "dcPayload d = payload" "rhDestination (dcRouting d) = idAddress b"
      "rhSource (dcRouting d) = idAddress a" "rhPacketID (dcRouting d) = packetID" by metis
  have ci: "rhCipher (routingOf (withHops h armored)) = CipherC25519Poly1305Clear" "\<not> rhExtendedArmor (routingOf (withHops h armored))"
    using la(1,3) cipher_bits(1) [of 0 False False] plain_flags [of h] by (simp_all add: routingOf_def withHops_def flag_bits)
  have clear: "clearHello cr (withHops h armored) b = Inr (withHops h armored, routingOf (withHops h armored))"
    using la(1) ci by (simp add: clearHello_def ParseRouting_eq)
  have ds: "DearmorSession cr (withHops h armored) key = Inr d"
    using d(1) la(1) ci by (simp add: DearmorSession_def ParseRouting_eq packet_consts)
  have w: "drop 27 (withHops h armored) = drop 27 draft" using la(1,2) by (simp add: withHops_def)
  have ag: "Agree cr b (Public a) 48 = Inr key" using Agree_commute [OF assms(1,3,6) p] assms(8) by simp
  have "AuthenticateHello cr (withHops h armored) b = Inr (\<lparr> hlRouting = dcRouting d, hlProtocolVersion = lvProtocol version,
    hlMajor = lvMajor version, hlMinor = lvMinor version, hlRevision = lvRevision version, hlTimestamp = ts,
    hlIdentity = Public a, hlExternalSurface = None, hlPlanetWorldID = wid, hlPlanetWorldTimestamp = wts,
    hlEncryptedWorldExtension = [] \<rparr>, key)"
    by (rule AuthenticateHello_clear [OF clear ci(1) _ w _ _ ag _ ds d(2)])
      (use la(1) dd public(3) assms(4) d assms(9) parseHelloPayload_Build [OF public(2), of version d ts wid wts "Public a"]
       in \<open>simp_all add: payload_def packet_consts\<close>)
  then show ?thesis using built d by auto
qed

section \<open>Properties\<close>

text \<open>
  C28. The bootstrap agrees: a HELLO that identity \<open>a\<close> builds for identity \<open>b\<close> with their agreed key is
  built whenever the version is supported, and \<open>b\<close> authenticates it, whatever the hop count has
  become, with the same session key, the public half of \<open>a\<close>'s identity and every field \<open>a\<close> put into it.
\<close>

theorem hello_authenticates:
  assumes "x25519_law cr" "wfIdentity a" "keyPair cr a" "LocallyValidate cr a" "wfIdentity b" "keyPair cr b" "LocallyValidate cr b"
    and "Agree cr a (Public b) 48 = Inr key" "MinimumProtocolVersion \<le> lvProtocol version"
  shows "\<exists>armored hello. BuildHello cr packetID (Public b) a version ts wid wts key = Inr armored
    \<and> AuthenticateHello cr (withHops h armored) b = Inr (hello, key)
    \<and> hlIdentity hello = Public a \<and> rhPacketID (hlRouting hello) = packetID \<and> rhSource (hlRouting hello) = idAddress a
    \<and> hlProtocolVersion hello = lvProtocol version \<and> hlMajor hello = lvMajor version \<and> hlMinor hello = lvMinor version
    \<and> hlRevision hello = lvRevision version \<and> hlTimestamp hello = ts \<and> hlExternalSurface hello = None
    \<and> hlPlanetWorldID hello = wid \<and> hlPlanetWorldTimestamp hello = wts \<and> hlEncryptedWorldExtension hello = []"
  by (rule hello_exchange [OF assms])

definition toyPeer :: "byte \<Rightarrow> Identity" where
  "toyPeer b = withAddress toyCrypto (toyIdentity b)"

lemma toyPeer:
  "wfIdentity (toyPeer b)" "keyPair toyCrypto (toyPeer b)" "LocallyValidate toyCrypto (toyPeer b)" "idAddress (toyPeer b) = ''0000000040''"
proof -
  have h: "length (idPublicKey (toyIdentity b)) = 64" by (simp add: toyIdentity_def)
  have "acceptable toyCrypto (toyIdentity b)" unfolding acceptable_def toy_hash [OF h] by code_simp
  moreover have "keyPair toyCrypto (toyIdentity b)" using toy_keys [of b] by (simp add: keyPair_def toyIdentity_def)
  ultimately show "wfIdentity (toyPeer b)" "keyPair toyCrypto (toyPeer b)" "LocallyValidate toyCrypto (toyPeer b)"
    using withAddress_valid [of toyCrypto "toyIdentity b"] by (simp_all add: toyPeer_def)
  show "idAddress (toyPeer b) = ''0000000040''" by (simp add: toyPeer_def withAddress_def toy_hash [OF h]) code_simp
qed

definition toyVersion :: LocalVersion where
  "toyVersion = \<lparr> lvProtocol = 13, lvMajor = 1, lvMinor = 14, lvRevision = 2 \<rparr>"

lemma toy_agree: "\<exists>key. Agree toyCrypto (toyPeer 3) (Public (toyPeer 5)) 48 = Inr key"
  by (simp add: Agree_def AgreeRawPublic_def toyPeer_def withAddress_def toyIdentity_def identity_consts) (simp add: toyCrypto_def)

definition toyRequest :: "Identity \<Rightarrow> Hello" where
  "toyRequest i = \<lparr> hlRouting = routingOf (replicate 28 0), hlProtocolVersion = 13, hlMajor = 1, hlMinor = 14, hlRevision = 2,
     hlTimestamp = 100, hlIdentity = i, hlExternalSurface = None, hlPlanetWorldID = 1, hlPlanetWorldTimestamp = 2,
     hlEncryptedWorldExtension = [] \<rparr>"

lemma toyHello: "\<exists>armored hello key. AuthenticateHello toyCrypto armored (toyPeer 5) = Inr (hello, key)"
proof -
  obtain key where "Agree toyCrypto (toyPeer 3) (Public (toyPeer 5)) 48 = Inr key" using toy_agree by blast
  from hello_exchange [OF toy_laws(2) toyPeer(1-3) toyPeer(1-3) this, of toyVersion 0 0 0 0 0]
  show ?thesis by (auto simp: toyVersion_def packet_consts)
qed

theorem hello_authenticates_witness:
  "\<exists>key armored hello. BuildHello toyCrypto 77 (Public (toyPeer 5)) (toyPeer 3) toyVersion 100 1 2 key = Inr armored
     \<and> AuthenticateHello toyCrypto (withHops 2 armored) (toyPeer 5) = Inr (hello, key) \<and> hlIdentity hello = Public (toyPeer 3)
     \<and> rhPacketID (hlRouting hello) = 77 \<and> hlRevision hello = 2"
proof -
  obtain key where "Agree toyCrypto (toyPeer 3) (Public (toyPeer 5)) 48 = Inr key" using toy_agree by blast
  from hello_authenticates [OF toy_laws(2) toyPeer(1-3) toyPeer(1-3) this, of toyVersion 77 100 1 2 2]
  show ?thesis by (auto simp: toyVersion_def packet_consts)
qed

lemma hello_accepted:
  assumes "AuthenticateHello cr armored local = Inr (hello, key)"
  shows "\<exists>clear d. (clear = armored \<or> DearmorExtended cr armored local = Inr clear)
    \<and> rhCipher (routingOf clear) = CipherC25519Poly1305Clear \<and> Dearmor cr clear (salsaKey key) = Inr d
    \<and> dcVerb d = VerbHello \<and> hlRouting hello = dcRouting d
    \<and> Identity_MarshalBinary (hlIdentity hello) = Inr (slice 13 84 (drop 28 clear))
    \<and> wfIdentity (hlIdentity hello) \<and> \<not> idHasPrivate (hlIdentity hello) \<and> LocallyValidate cr (hlIdentity hello)
    \<and> Agree cr local (hlIdentity hello) (int SessionKeyLength) = Inr key
    \<and> rhSource (hlRouting hello) = idAddress (hlIdentity hello) \<and> rhDestination (hlRouting hello) = idAddress local
    \<and> MinimumProtocolVersion \<le> hlProtocolVersion hello"
proof -
  have c: "HeaderLength + helloFixedLength = 112" "HeaderLength + 13 = 41" "41 + PublicBinaryLength = 112"
    by (simp_all add: packet_consts helloFixedLength_def identity_consts)
  from assms [unfolded AuthenticateHello_def Let_def c] obtain clear routing peer d where
    clear: "clearHello cr armored local = Inr (clear, routing)" "rhCipher routing = CipherC25519Poly1305Clear" "112 \<le> length clear"
    and peer: "ParseBinary (slice 41 112 clear) = Inr peer" "LocallyValidate cr peer"
      "Agree cr local peer (int SessionKeyLength) = Inr key"
    and d: "DearmorSession cr clear key = Inr d" "dcVerb d = VerbHello" "rhSource (dcRouting d) = idAddress peer"
      "rhDestination (dcRouting d) = idAddress local" "parseHelloPayload d peer = Inr hello"
    by (auto simp: rbind_eq_Inr split: if_splits)
  have r: "routing = routingOf clear" "clear = armored \<or> DearmorExtended cr armored local = Inr clear"
    using clear(1) by (auto simp: clearHello_def rbind_eq_Inr ParseRouting_Inr split: if_splits)
  have "Dearmor cr clear (salsaKey key) = Inr d"
    using d(1) r(1) clear(2,3) by (auto simp: DearmorSession_def ParseRouting_eq packet_consts split: if_splits)
  moreover have "hlRouting hello = dcRouting d" "hlIdentity hello = peer" "MinimumProtocolVersion \<le> hlProtocolVersion hello"
    using d(5) by (auto simp: parseHelloPayload_def Let_def rbind_eq_Inr not_less split: if_splits)
  moreover have "wfIdentity peer \<and> Identity_MarshalBinary peer = Inr (slice 41 112 clear)" by (rule ParseBinary_Inr [OF peer(1)])
  moreover from this have "\<not> idHasPrivate peer"
    using clear(3) by (auto simp: Identity_MarshalBinary_def rbind_eq_Inr wfIdentity_def identity_consts case_sum_eq_Inr
        dest!: arg_cong [where f = length])
  moreover have "slice 13 84 (drop 28 clear) = slice 41 112 clear" by (simp add: slice_def)
  ultimately show ?thesis using r clear(2) d peer by (intro exI [of _ clear] exI [of _ d]) simp
qed

text \<open>
  C29. Nothing unauthenticated is accepted: when \<^verbatim>\<open>AuthenticateHello\<close> succeeds, the (unwrapped) packet is
  clear-armored and its tag verifies under the key agreed with the identity in its payload; that
  identity is well-formed, public, and its address passes the proof of work and is the packet's
  source; the packet is addressed to the local identity and its protocol version is supported.
\<close>

theorem hello_accepted_sound:
  assumes "AuthenticateHello cr armored local = Inr (hello, key)"
  shows "\<exists>clear d. (clear = armored \<or> DearmorExtended cr armored local = Inr clear)
    \<and> rhCipher (routingOf clear) = CipherC25519Poly1305Clear \<and> Dearmor cr clear (salsaKey key) = Inr d
    \<and> dcVerb d = VerbHello \<and> hlRouting hello = dcRouting d
    \<and> Identity_MarshalBinary (hlIdentity hello) = Inr (slice 13 84 (drop 28 clear))
    \<and> wfIdentity (hlIdentity hello) \<and> \<not> idHasPrivate (hlIdentity hello) \<and> LocallyValidate cr (hlIdentity hello)
    \<and> Agree cr local (hlIdentity hello) (int SessionKeyLength) = Inr key
    \<and> rhSource (hlRouting hello) = idAddress (hlIdentity hello) \<and> rhDestination (hlRouting hello) = idAddress local
    \<and> MinimumProtocolVersion \<le> hlProtocolVersion hello"
  by (rule hello_accepted [OF assms])

lemma hello_ok_exchange:
  assumes "canonicalHex 10 (idAddress (hlIdentity request))" "canonicalHex 10 (idAddress local)"
    and "addrIsValid (iaAddress observed)" "MinimumProtocolVersion \<le> lvProtocol version"
  shows "\<exists>armored d. BuildHelloOK cr packetID request local observed version key = Inr armored
    \<and> DearmorSession cr (withHops h armored) key = Inr d \<and> rhPacketID (dcRouting d) = packetID
    \<and> rhSource (dcRouting d) = idAddress local \<and> rhDestination (dcRouting d) = idAddress (hlIdentity request)
    \<and> ParseHelloOK d = Inr \<lparr> hkRequestPacketID = rhPacketID (hlRouting request), hkTimestamp = hlTimestamp request,
        hkVersion = version, hkExternalSurface = Some (observed\<lparr>iaAddress := wireAddress (iaAddress observed)\<rparr>),
        hkWorldUpdate = [] \<rparr>"
proof -
  obtain sa where sa: "serializeInetAddress observed = Inr sa" "length sa \<le> 19"
    using serializeInetAddress_total [OF assms(3)] by blast
  define head where "head = [VerbHello] @ be_bytes 8 (rhPacketID (hlRouting request)) @ be_bytes 8 (hlTimestamp request)
    @ [lvProtocol version, lvMajor version, lvMinor version] @ be_bytes 2 (lvRevision version)"
  define payload where "payload = head @ sa @ be_bytes 2 (0 :: uint16)"
  have lh: "length head = 22" by (simp add: head_def)
  have lp: "length payload = 24 + length sa" by (simp add: payload_def lh)
  obtain draft where dr: "Build packetID (idAddress (hlIdentity request)) (idAddress local) VerbOK payload = Inr draft"
    using assms(1,2) lp sa(2) by (simp add: Build_Inr packet_consts)
  have ld: "length draft = 52 + length sa" using length_Build [OF dr] lp by simp
  obtain armored where a: "armor cr draft (salsaKey key) True False = Inr armored" using Build_armored [OF dr] by blast
  have built: "BuildHelloOK cr packetID request local observed version key = Inr armored"
    using assms(4) sa(1) dr a by (simp add: BuildHelloOK_def payload_def head_def Armor_def)
  from Build_Dearmor [OF dr a, of h] obtain d where d: "Dearmor cr (withHops h armored) (salsaKey key) = Inr d"
      "dcVerb d = VerbOK" "dcPayload d = payload" "rhDestination (dcRouting d) = idAddress (hlIdentity request)"
      "rhSource (dcRouting d) = idAddress local" "rhPacketID (dcRouting d) = packetID"
      "\<not> rhCipher (routingOf (withHops h armored)) = CipherAESGMACSIV" "length armored = length draft" by metis
  have ds: "DearmorSession cr (withHops h armored) key = Inr d"
    using d(1,7,8) ld by (simp add: DearmorSession_def ParseRouting_eq)
  have "parseInetAddress (drop 22 payload) = Inr (Some (observed\<lparr>iaAddress := wireAddress (iaAddress observed)\<rparr>), length sa)"
    using parse_serializeInetAddress [OF sa(1)] lh by (simp add: payload_def)
  moreover have "slice (22 + length sa) (24 + length sa) payload = be_bytes 2 (0 :: uint16)" "slice 1 9 payload = be_bytes 8 (rhPacketID (hlRouting request))"
      "slice 9 17 payload = be_bytes 8 (hlTimestamp request)" "slice 20 22 payload = be_bytes 2 (lvRevision version)"
      "payload ! 0 = VerbHello" "payload ! 17 = lvProtocol version" "payload ! 18 = lvMajor version" "payload ! 19 = lvMinor version"
    using lh by (simp_all add: payload_def slice_def) (simp_all add: head_def nth_append)
  ultimately have "ParseHelloOK d = Inr \<lparr> hkRequestPacketID = rhPacketID (hlRouting request), hkTimestamp = hlTimestamp request,
        hkVersion = version, hkExternalSurface = Some (observed\<lparr>iaAddress := wireAddress (iaAddress observed)\<rparr>), hkWorldUpdate = [] \<rparr>"
    using assms(4) lp unfolding ParseHelloOK_def Let_def d(2,3) by (simp add: not_less slice_def [of "24 + length sa"])
  then show ?thesis using built ds d by blast
qed

text \<open>
  The answer reads back: for a supported version and a valid observed address, \<^verbatim>\<open>BuildHelloOK\<close>
  builds a packet that the holder of the session key decrypts, from and to the right identities, and
  that \<^verbatim>\<open>ParseHelloOK\<close> reads as the request's packet ID and timestamp, the version, the observed
  address without its zone, and no world update.
\<close>

theorem hello_ok_roundtrip:
  assumes "canonicalHex 10 (idAddress (hlIdentity request))" "canonicalHex 10 (idAddress local)"
    and "addrIsValid (iaAddress observed)" "MinimumProtocolVersion \<le> lvProtocol version"
  shows "\<exists>armored d. BuildHelloOK cr packetID request local observed version key = Inr armored
    \<and> DearmorSession cr (withHops h armored) key = Inr d \<and> rhPacketID (dcRouting d) = packetID
    \<and> rhSource (dcRouting d) = idAddress local \<and> rhDestination (dcRouting d) = idAddress (hlIdentity request)
    \<and> ParseHelloOK d = Inr \<lparr> hkRequestPacketID = rhPacketID (hlRouting request), hkTimestamp = hlTimestamp request,
        hkVersion = version, hkExternalSurface = Some (observed\<lparr>iaAddress := wireAddress (iaAddress observed)\<rparr>),
        hkWorldUpdate = [] \<rparr>"
  by (rule hello_ok_exchange [OF assms])

theorem hello_accepted_sound_witness:
  "\<exists>armored hello key. AuthenticateHello toyCrypto armored (toyPeer 5) = Inr (hello, key)
     \<and> wfIdentity (hlIdentity hello) \<and> LocallyValidate toyCrypto (hlIdentity hello)
     \<and> rhDestination (hlRouting hello) = ''0000000040''"
proof -
  from toyHello obtain armored hello key where a: "AuthenticateHello toyCrypto armored (toyPeer 5) = Inr (hello, key)" by blast
  from hello_accepted_sound [OF a] a toyPeer(4) [of 5] show ?thesis by auto
qed

theorem hello_ok_roundtrip_witness:
  "\<exists>request armored d ok. BuildHelloOK toyCrypto 5 request (toyPeer 5) \<lparr> iaAddress = Addr4 0x01020304, iaPort = 9993 \<rparr> toyVersion (replicate 48 1)
       = Inr armored
     \<and> DearmorSession toyCrypto (withHops 1 armored) (replicate 48 1) = Inr d \<and> ParseHelloOK d = Inr ok
     \<and> hkExternalSurface ok = Some \<lparr> iaAddress = Addr4 0x01020304, iaPort = 9993 \<rparr>"
proof -
  have "canonicalHex 10 (idAddress (toyPeer 3))" "canonicalHex 10 (idAddress (toyPeer 5))"
    using toyPeer(1) [of 3] toyPeer(1) [of 5] by (simp_all add: wfIdentity_def)
  then show ?thesis
    using hello_ok_roundtrip [of "toyRequest (toyPeer 3)" "toyPeer 5" "\<lparr> iaAddress = Addr4 0x01020304, iaPort = 9993 \<rparr>" toyVersion
        toyCrypto 5 "replicate 48 1" 1]
    by (intro exI [of _ "toyRequest (toyPeer 3)"]) (auto simp: toyRequest_def toyVersion_def packet_consts)
qed

end
