(* ===== verification/PeerRegistry.thy ===== *)
theory PeerRegistry
  imports Hello
begin

text \<open>
  \<^verbatim>\<open>internal/zerotier/peer/registry.go\<close>: the sessions of authenticated peers. Every method that takes
  the lock is one step; \<^verbatim>\<open>Authenticate\<close> takes it twice and is two steps with anything in between. The
  lemmas show that an address stays bound to the identity that claimed it, what is pruned, how far
  the table can grow, and that a learned session accepts exactly what its key protects.
\<close>

definition sessionIdleTTL :: duration where "sessionIdleTTL = 10 * Minute"
definition sessionPruneEvery :: duration where "sessionPruneEvery = Minute"
definition maxRegistrySessions :: nat where "maxRegistrySessions = 16384"

record Session =
  ssIdentity :: Identity
  ssSharedKey :: bytes
  ssEndpoint :: AddrPort
  ssExternalSurface :: "InetAddress option"
  ssProtocolVersion :: byte
  ssMajor :: byte
  ssMinor :: byte
  ssRevision :: uint16
  ssLastSeen :: time
  ssConfigured :: bool

record Registry =
  rgSessions :: "(NodeID, Session) fmap"
  rgLastPrune :: time

definition NewRegistry :: Registry where
  "NewRegistry = \<lparr> rgSessions = fmempty, rgLastPrune = 0 \<rparr>"

text \<open>\<^verbatim>\<open>cloneInetAddress\<close> copies a value and is the identity here.\<close>

definition cloneSession :: "Session \<Rightarrow> Session" where
  "cloneSession session = session\<lparr>ssIdentity := Public (ssIdentity session)\<rparr>"

definition collides :: "Registry \<Rightarrow> NodeID \<Rightarrow> Session \<Rightarrow> bool" where
  "collides r nodeID session = (case fmlookup (rgSessions r) nodeID of
     Some existing \<Rightarrow> Identity_String (ssIdentity existing) \<noteq> Identity_String (ssIdentity session)
   | None \<Rightarrow> False)"

definition putSession :: "NodeID \<Rightarrow> Session \<Rightarrow> Registry \<Rightarrow> Registry" where
  "putSession nodeID session r = r\<lparr>rgSessions := fmupd nodeID session (rgSessions r)\<rparr>"

definition configuredSession :: "Identity \<Rightarrow> bytes \<Rightarrow> AddrPort \<Rightarrow> time \<Rightarrow> Session" where
  "configuredSession peerIdentity sharedKey endpoint now =
     \<lparr> ssIdentity = Public peerIdentity, ssSharedKey = sharedKey, ssEndpoint = endpoint, ssExternalSurface = None,
       ssProtocolVersion = 0, ssMajor = 0, ssMinor = 0, ssRevision = 0, ssLastSeen = UTC now, ssConfigured = True \<rparr>"

definition RegisterConfigured ::
    "Crypto \<Rightarrow> Identity \<Rightarrow> bytes \<Rightarrow> AddrPort \<Rightarrow> time \<Rightarrow> Registry \<Rightarrow> Session result \<times> Registry" where
  "RegisterConfigured cr peerIdentity sharedKey endpoint now r =
     (if \<not> LocallyValidate cr peerIdentity then (Inl ErrInvalidIdentity, r)
      else if \<not> addrPortIsValid endpoint \<or> IsZero now
      then (Inl (Errorf ''configured peer endpoint and observation time are required''), r)
      else
        let session = configuredSession peerIdentity sharedKey endpoint now in
        if collides r (idAddress peerIdentity) session
        then (Inl (Wrap ''%w for address %s'' ErrIdentityCollision), r)
        else (Inr (cloneSession session), putSession (idAddress peerIdentity) session r))"

definition idleSession :: "time \<Rightarrow> Session \<Rightarrow> bool" where
  "idleSession now session = (\<not> ssConfigured session \<and> timeSub now (ssLastSeen session) \<ge> sessionIdleTTL)"

definition pruneLocked :: "time \<Rightarrow> bool \<Rightarrow> Registry \<Rightarrow> nat \<times> Registry" where
  "pruneLocked now force r =
     (if \<not> force \<and> \<not> IsZero (rgLastPrune r) \<and> timeSub now (rgLastPrune r) < sessionPruneEvery then (0, r)
      else
        let stale = fmfilter (\<lambda>n. case fmlookup (rgSessions r) n of Some s \<Rightarrow> idleSession now s | None \<Rightarrow> False) (rgSessions r)
        in (fcard (fmdom stale),
            r\<lparr>rgSessions := fmdrop_fset (fmdom stale) (rgSessions r), rgLastPrune := now\<rparr>))"

definition Prune :: "time \<Rightarrow> Registry \<Rightarrow> nat \<times> Registry" where
  "Prune now r = (if IsZero now then (0, r) else pruneLocked (UTC now) True r)"

definition learnedSession :: "Hello \<Rightarrow> bytes \<Rightarrow> AddrPort \<Rightarrow> time \<Rightarrow> Session" where
  "learnedSession hello sharedKey endpoint now =
     \<lparr> ssIdentity = Public (hlIdentity hello), ssSharedKey = sharedKey, ssEndpoint = endpoint,
       ssExternalSurface = hlExternalSurface hello, ssProtocolVersion = hlProtocolVersion hello, ssMajor = hlMajor hello,
       ssMinor = hlMinor hello, ssRevision = hlRevision hello, ssLastSeen = UTC now, ssConfigured = False \<rparr>"

definition LearnValidatedHello ::
    "Hello \<Rightarrow> bytes \<Rightarrow> AddrPort \<Rightarrow> time \<Rightarrow> Registry \<Rightarrow> Session result \<times> Registry" where
  "LearnValidatedHello hello sharedKey endpoint now r =
     (if \<not> addrPortIsValid endpoint then (Inl (Errorf ''peer endpoint is invalid''), r)
      else if IsZero now then (Inl (Errorf ''peer observation time is required''), r)
      else
        let nodeID = idAddress (hlIdentity hello) in
        if \<not> isOk (NodeID_Validate nodeID) then (Inl ErrInvalidIdentity, r)
        else
          let session = learnedSession hello sharedKey endpoint now;
              r = snd (pruneLocked (UTC now) False r) in
          if collides r nodeID session then (Inl (Wrap ''%w for address %s'' ErrIdentityCollision), r)
          else if fmlookup (rgSessions r) nodeID = None \<and> fcard (fmdom (rgSessions r)) \<ge> maxRegistrySessions
          then (Inl (Errorf ''peer session capacity exhausted''), r)
          else (Inr (cloneSession session), putSession nodeID session r))"

definition LearnHello ::
    "Crypto \<Rightarrow> Hello \<Rightarrow> bytes \<Rightarrow> AddrPort \<Rightarrow> time \<Rightarrow> Registry \<Rightarrow> Session result \<times> Registry" where
  "LearnHello cr hello sharedKey endpoint now r =
     (if \<not> addrPortIsValid endpoint then (Inl (Errorf ''peer endpoint is invalid''), r)
      else if IsZero now then (Inl (Errorf ''peer observation time is required''), r)
      else if \<not> LocallyValidate cr (hlIdentity hello) then (Inl ErrInvalidIdentity, r)
      else LearnValidatedHello hello sharedKey endpoint now r)"

definition GetSession :: "NodeID \<Rightarrow> Registry \<Rightarrow> Session result" where
  "GetSession nodeID r =
     rbind (NodeID_Validate nodeID) (\<lambda>_.
     case fmlookup (rgSessions r) nodeID of None \<Rightarrow> Inl ErrPeerNotFound | Some session \<Rightarrow> Inr (cloneSession session))"

definition ListSessions :: "Registry \<Rightarrow> Session list" where
  "ListSessions r = sort_key (\<lambda>s. idAddress (ssIdentity s)) (map cloneSession (mapValues (rgSessions r)))"

text \<open>
  \<^verbatim>\<open>Authenticate\<close>: what it reads under the first lock, with the session as it will report it, and what
  it writes under the second.
\<close>

definition authenticateRead ::
    "Crypto \<Rightarrow> bytes \<Rightarrow> NodeID \<Rightarrow> AddrPort \<Rightarrow> time \<Rightarrow> Registry \<Rightarrow> (Decoded \<times> NodeID \<times> Session) result" where
  "authenticateRead cr armored destination endpoint now r =
     rbind (ParseRouting armored) (\<lambda>routing.
     if rhDestination routing \<noteq> destination then Inl (Errorf ''packet is addressed to another identity'')
     else case fmlookup (rgSessions r) (rhSource routing) of
       None \<Rightarrow> Inl ErrPeerNotFound
     | Some session \<Rightarrow>
         rbind (DearmorSession cr armored (ssSharedKey session)) (\<lambda>decoded.
         if IsZero now then Inl (Errorf ''packet observation time is required'')
         else if \<not> addrPortIsValid endpoint then Inl (Errorf ''packet endpoint is invalid'')
         else Inr (decoded, rhSource routing, session\<lparr>ssLastSeen := UTC now, ssEndpoint := endpoint\<rparr>)))"

definition authenticateCommit :: "NodeID \<Rightarrow> Session \<Rightarrow> AddrPort \<Rightarrow> Registry \<Rightarrow> Session \<times> Registry" where
  "authenticateCommit source session endpoint r =
     (case fmlookup (rgSessions r) source of
        Some current \<Rightarrow>
          if Identity_String (ssIdentity current) = Identity_String (ssIdentity session)
          then let current = current\<lparr>ssLastSeen := ssLastSeen session, ssEndpoint := endpoint\<rparr>
               in (current, putSession source current r)
          else (session, r)
      | None \<Rightarrow> (session, r))"

definition Authenticate ::
    "Crypto \<Rightarrow> bytes \<Rightarrow> NodeID \<Rightarrow> AddrPort \<Rightarrow> time \<Rightarrow> Registry \<Rightarrow> (Decoded \<times> Session) result \<times> Registry" where
  "Authenticate cr armored destination endpoint now r =
     (case authenticateRead cr armored destination endpoint now r of
        Inl e \<Rightarrow> (Inl e, r)
      | Inr (decoded, source, session) \<Rightarrow>
          (case authenticateCommit source session endpoint r of
             (session, r) \<Rightarrow> (Inr (decoded, cloneSession session), r)))"

section \<open>Steps\<close>

datatype registryEvent =
    Configure Identity bytes AddrPort time
  | Learn Hello bytes AddrPort time
  | LearnValidated Hello bytes AddrPort time
  | PruneAt time
  | Commit NodeID Session AddrPort

fun registryStep :: "Crypto \<Rightarrow> registryEvent \<Rightarrow> Registry \<Rightarrow> Registry" where
  "registryStep cr (Configure i k e t) r = snd (RegisterConfigured cr i k e t r)"
| "registryStep cr (Learn hello k e t) r = snd (LearnHello cr hello k e t r)"
| "registryStep cr (LearnValidated hello k e t) r = snd (LearnValidatedHello hello k e t r)"
| "registryStep cr (PruneAt t) r = snd (Prune t r)"
| "registryStep cr (Commit source session e) r = snd (authenticateCommit source session e r)"

text \<open>
  The events that occur: identities come from the identity parsers, configured peers are those of a
  given set, a commit follows a successful read.
\<close>

fun registryEventOk :: "NodeID set \<Rightarrow> registryEvent \<Rightarrow> bool" where
  "registryEventOk upstreams (Configure i k e t) = (wfIdentity i \<and> idAddress i \<in> upstreams)"
| "registryEventOk upstreams (Learn hello k e t) = wfIdentity (hlIdentity hello)"
| "registryEventOk upstreams (LearnValidated hello k e t) = wfIdentity (hlIdentity hello)"
| "registryEventOk upstreams (PruneAt t) = True"
| "registryEventOk upstreams (Commit source session e) = (\<not> IsZero (ssLastSeen session) \<and> addrPortIsValid e)"

fun eventTime :: "registryEvent \<Rightarrow> time" where
  "eventTime (Configure i k e t) = t"
| "eventTime (Learn hello k e t) = t"
| "eventTime (LearnValidated hello k e t) = t"
| "eventTime (PruneAt t) = t"
| "eventTime (Commit source session e) = ssLastSeen session"

inductive reachableRegistry :: "Crypto \<Rightarrow> NodeID set \<Rightarrow> Registry \<Rightarrow> bool" for cr upstreams where
  start: "reachableRegistry cr upstreams NewRegistry"
| step: "reachableRegistry cr upstreams r \<Longrightarrow> registryEventOk upstreams ev \<Longrightarrow> reachableRegistry cr upstreams (registryStep cr ev r)"

definition wfSession :: "NodeID \<Rightarrow> Session \<Rightarrow> bool" where
  "wfSession n s = (idAddress (ssIdentity s) = n \<and> wfIdentity (ssIdentity s) \<and> \<not> idHasPrivate (ssIdentity s)
     \<and> addrPortIsValid (ssEndpoint s) \<and> \<not> IsZero (ssLastSeen s))"

definition wfRegistry :: "NodeID set \<Rightarrow> Registry \<Rightarrow> bool" where
  "wfRegistry upstreams r = ((\<forall>n s. fmlookup (rgSessions r) n = Some s \<longrightarrow> wfSession n s)
     \<and> card (fset (fmdom (rgSessions r)) - upstreams) \<le> maxRegistrySessions)"

section \<open>Lemmas\<close>

definition pruneDue :: "time \<Rightarrow> bool \<Rightarrow> Registry \<Rightarrow> bool" where
  "pruneDue now force r = (force \<or> IsZero (rgLastPrune r) \<or> sessionPruneEvery \<le> timeSub now (rgLastPrune r))"

lemma lookup_pruneLocked [simp]:
  "fmlookup (rgSessions (snd (pruneLocked now force r))) n = (case fmlookup (rgSessions r) n of
     None \<Rightarrow> None | Some s \<Rightarrow> if pruneDue now force r \<and> idleSession now s then None else Some s)"
  by (auto simp: pruneLocked_def pruneDue_def Let_def fmlookup_dom_iff not_less split: option.splits)

lemma lookup_putSession [simp]:
  "fmlookup (rgSessions (putSession m s r)) n = (if n = m then Some s else fmlookup (rgSessions r) n)"
  by (simp add: putSession_def)

lemma dom_putSession [simp]: "fset (fmdom (rgSessions (putSession m s r))) = insert m (fset (fmdom (rgSessions r)))"
  by (simp add: putSession_def)

lemma dom_pruneLocked: "fset (fmdom (rgSessions (snd (pruneLocked now force r)))) \<subseteq> fset (fmdom (rgSessions r))"
  by (auto simp: fmlookup_dom_iff split: option.splits if_splits)

lemma Identity_String_inject:
  "wfIdentity i \<Longrightarrow> wfIdentity j \<Longrightarrow> \<not> idHasPrivate i \<Longrightarrow> \<not> idHasPrivate j \<Longrightarrow> Identity_String i = Identity_String j \<longleftrightarrow> i = j"
  using Parse_textForm [of i] Parse_textForm [of j] unfolding textForm_def by (metis sum.inject(2))

lemma card_diff_mono: "A \<subseteq> B \<Longrightarrow> finite B \<Longrightarrow> card (B - U) \<le> k \<Longrightarrow> card (A - U) \<le> k"
  by (meson Diff_mono card_mono finite_Diff order_refl order_trans)

lemma wfRegistry_prune: "wfRegistry upstreams r \<Longrightarrow> wfRegistry upstreams (snd (pruneLocked now force r))"
  using card_diff_mono [OF dom_pruneLocked, of r upstreams maxRegistrySessions now force]
  by (auto simp: wfRegistry_def split: option.splits if_splits)

lemma wfRegistry_put:
  assumes "wfRegistry upstreams r" "wfSession n s"
    and "n \<in> upstreams \<or> fmlookup (rgSessions r) n \<noteq> None \<or> fcard (fmdom (rgSessions r)) < maxRegistrySessions"
  shows "wfRegistry upstreams (putSession n s r)"
proof -
  let ?D = "fset (fmdom (rgSessions r))"
  have "card (insert n ?D - upstreams) \<le> maxRegistrySessions"
  proof (cases "n \<in> upstreams \<or> n \<in> ?D")
    case True
    then have "insert n ?D - upstreams = ?D - upstreams" by auto
    with assms(1) show ?thesis by (simp add: wfRegistry_def)
  next
    case False
    with assms(3) have "card ?D < maxRegistrySessions" by (auto simp: fcard.rep_eq fmlookup_dom_iff)
    moreover have "card (insert n ?D - upstreams) \<le> card (insert n ?D)" by (rule card_mono) auto
    ultimately show ?thesis using card_insert_le_m1 [of "card ?D + 1" ?D n] by simp
  qed
  with assms(1,2) show ?thesis by (simp add: wfRegistry_def)
qed

lemma wf_configuredSession:
  "wfIdentity i \<Longrightarrow> addrPortIsValid e \<Longrightarrow> \<not> IsZero t \<Longrightarrow> wfSession (idAddress i) (configuredSession i k e t)"
  by (simp add: wfSession_def configuredSession_def wf_Public)

lemma wf_learnedSession:
  "wfIdentity (hlIdentity h) \<Longrightarrow> addrPortIsValid e \<Longrightarrow> \<not> IsZero t \<Longrightarrow> wfSession (idAddress (hlIdentity h)) (learnedSession h k e t)"
  by (simp add: wfSession_def learnedSession_def wf_Public)

lemma wfRegistry_LearnValidated:
  "wfRegistry upstreams r \<Longrightarrow> wfIdentity (hlIdentity hello) \<Longrightarrow> wfRegistry upstreams (snd (LearnValidatedHello hello k e t r))"
  using wfRegistry_prune [of upstreams r t False]
  by (auto simp: LearnValidatedHello_def Let_def not_le intro!: wfRegistry_put wf_learnedSession)

lemma wfRegistry_Commit:
  "wfRegistry upstreams r \<Longrightarrow> \<not> IsZero (ssLastSeen session) \<Longrightarrow> addrPortIsValid e
   \<Longrightarrow> wfRegistry upstreams (snd (authenticateCommit source session e r))"
  by (auto simp: authenticateCommit_def Let_def split: option.splits intro!: wfRegistry_put)
    (simp add: wfRegistry_def wfSession_def)

lemma wfRegistry_step: "wfRegistry upstreams r \<Longrightarrow> registryEventOk upstreams ev \<Longrightarrow> wfRegistry upstreams (registryStep cr ev r)"
proof (cases ev)
  case (Configure i k e t)
  then show "wfRegistry upstreams r \<Longrightarrow> registryEventOk upstreams ev \<Longrightarrow> ?thesis"
    by (auto simp: RegisterConfigured_def Let_def intro!: wfRegistry_put wf_configuredSession)
qed (auto simp: LearnHello_def Prune_def wfRegistry_LearnValidated wfRegistry_prune wfRegistry_Commit)

lemma reachable_wfRegistry: "reachableRegistry cr upstreams r \<Longrightarrow> wfRegistry upstreams r"
  by (induction rule: reachableRegistry.induct) (simp_all add: wfRegistry_step, simp add: wfRegistry_def NewRegistry_def)

text \<open>One step keeps a session that is not idle, and with it the identity that owns the address.\<close>

lemma collides_wf:
  "wfRegistry upstreams r \<Longrightarrow> wfSession n s' \<Longrightarrow> fmlookup (rgSessions r) n = Some s \<Longrightarrow> \<not> collides r n s' \<Longrightarrow> ssIdentity s' = ssIdentity s"
  by (auto simp: collides_def wfRegistry_def wfSession_def Identity_String_inject)

lemma binding_LearnValidated:
  assumes "wfRegistry upstreams r" "wfIdentity (hlIdentity hello)" "fmlookup (rgSessions r) n = Some s" "\<not> idleSession t s"
  shows "\<exists>s'. fmlookup (rgSessions (snd (LearnValidatedHello hello k e t r))) n = Some s' \<and> ssIdentity s' = ssIdentity s"
proof -
  let ?r = "snd (pruneLocked t False r)"
  have l: "fmlookup (rgSessions ?r) n = Some s" using assms(3,4) by simp
  have "ssIdentity (learnedSession hello k e t) = ssIdentity s"
    if "n = idAddress (hlIdentity hello)" "\<not> collides ?r n (learnedSession hello k e t)" "addrPortIsValid e" "\<not> IsZero t"
    using collides_wf [OF wfRegistry_prune [OF assms(1)] _ l that(2)] wf_learnedSession [OF assms(2) that(3,4)] that(1) by blast
  then show ?thesis using l assms(3) by (auto simp: LearnValidatedHello_def Let_def)
qed

lemma binding_step:
  assumes "wfRegistry upstreams r" "registryEventOk upstreams ev" "fmlookup (rgSessions r) n = Some s" "\<not> idleSession (eventTime ev) s"
  shows "\<exists>s'. fmlookup (rgSessions (registryStep cr ev r)) n = Some s' \<and> ssIdentity s' = ssIdentity s"
proof (cases ev)
  case (Configure i k e t)
  have "ssIdentity (configuredSession i k e t) = ssIdentity s"
    if "n = idAddress i" "\<not> collides r n (configuredSession i k e t)" "addrPortIsValid e" "\<not> IsZero t"
    using collides_wf [OF assms(1) _ assms(3) that(2)] wf_configuredSession [of i e t k] assms(2) Configure that by auto
  then show ?thesis using assms(3) Configure by (auto simp: RegisterConfigured_def Let_def)
next
  case (Commit source session e)
  then show ?thesis using assms(3) by (auto simp: authenticateCommit_def Let_def split: option.splits)
qed (use assms binding_LearnValidated [OF assms(1) _ assms(3)] in \<open>auto simp: LearnHello_def Prune_def\<close>)

text \<open>\<^verbatim>\<open>List\<close> gives every session once, ordered by address.\<close>

lemma cloneSession_wf: "wfSession n s \<Longrightarrow> cloneSession s = s"
  by (cases s, cases "ssIdentity s") (auto simp: wfSession_def cloneSession_def Public_def wfIdentity_def)

lemma ListSessions_exact:
  assumes "wfRegistry upstreams r"
  shows "sorted (map (\<lambda>s. idAddress (ssIdentity s)) (ListSessions r)) \<and> distinct (map (\<lambda>s. idAddress (ssIdentity s)) (ListSessions r))
    \<and> set (ListSessions r) = ran (fmlookup (rgSessions r))"
proof -
  have "map cloneSession (mapValues (rgSessions r)) = mapValues (rgSessions r)"
    using assms by (intro map_idI) (auto simp: mapValues_set ran_def wfRegistry_def intro: cloneSession_wf)
  then show ?thesis
    using sorted_values [of "rgSessions r" "\<lambda>s. idAddress (ssIdentity s)"] assms
    by (auto simp: ListSessions_def wfRegistry_def wfSession_def)
qed

section \<open>Authentication\<close>

lemma authenticateRead_Inr:
  "authenticateRead cr armored destination endpoint now r = Inr (d, source, session) \<longleftrightarrow>
     (\<exists>s. 28 \<le> length armored \<and> rhDestination (routingOf armored) = destination \<and> source = rhSource (routingOf armored)
       \<and> fmlookup (rgSessions r) source = Some s \<and> DearmorSession cr armored (ssSharedKey s) = Inr d
       \<and> \<not> IsZero now \<and> addrPortIsValid endpoint \<and> session = s\<lparr>ssLastSeen := now, ssEndpoint := endpoint\<rparr>)"
  by (auto simp: authenticateRead_def rbind_eq_Inr ParseRouting_Inr split: option.splits if_splits)

lemma Authenticate_Inr:
  "Authenticate cr armored destination endpoint now r = (Inr (d, session), r') \<longleftrightarrow>
     (\<exists>s. 28 \<le> length armored \<and> rhDestination (routingOf armored) = destination
       \<and> fmlookup (rgSessions r) (rhSource (routingOf armored)) = Some s \<and> DearmorSession cr armored (ssSharedKey s) = Inr d
       \<and> \<not> IsZero now \<and> addrPortIsValid endpoint
       \<and> session = cloneSession (s\<lparr>ssLastSeen := now, ssEndpoint := endpoint\<rparr>)
       \<and> r' = putSession (rhSource (routingOf armored)) (s\<lparr>ssLastSeen := now, ssEndpoint := endpoint\<rparr>) r)"
proof (cases "authenticateRead cr armored destination endpoint now r")
  case (Inl e)
  with authenticateRead_Inr [of cr armored destination endpoint now r] show ?thesis by (auto simp: Authenticate_def)
next
  case (Inr x)
  then obtain a b c where x: "authenticateRead cr armored destination endpoint now r = Inr (a, b, c)" by (cases x) auto
  note y = x [unfolded authenticateRead_Inr]
  show ?thesis unfolding Authenticate_def x using y by (auto simp: authenticateCommit_def Let_def)
qed

lemma LearnValidatedHello_Inr:
  assumes "LearnValidatedHello hello key e t r = (Inr session, r')"
  shows "\<exists>r0. r' = putSession (idAddress (hlIdentity hello)) (learnedSession hello key e t) r0 \<and> session = cloneSession (learnedSession hello key e t)"
  using assms by (auto simp: LearnValidatedHello_def Let_def split: if_splits)

text \<open>
  A configured peer that sends a HELLO is recorded as a learned one, and is pruned ten minutes after
  its last packet like any other.
\<close>

lemma configured_session_evicted:
  assumes "RegisterConfigured cr i k e t r = (Inr s, r1)" "LearnValidatedHello hello k' e' t' r1 = (Inr s', r2)"
    and "hlIdentity hello = Public i" "\<not> IsZero now" "10 * Minute \<le> timeSub now t'"
  shows "fmlookup (rgSessions r1) (idAddress i) = Some (configuredSession i k e t)
    \<and> fmlookup (rgSessions (snd (Prune now r2))) (idAddress i) = None"
proof
  show "fmlookup (rgSessions r1) (idAddress i) = Some (configuredSession i k e t)"
    using assms(1) by (auto simp: RegisterConfigured_def Let_def split: if_splits)
  obtain r0 where "r2 = putSession (idAddress i) (learnedSession hello k' e' t') r0"
    using LearnValidatedHello_Inr [OF assms(2)] assms(3) by auto
  then show "fmlookup (rgSessions (snd (Prune now r2))) (idAddress i) = None"
    using assms(4,5) by (simp add: Prune_def pruneDue_def idleSession_def learnedSession_def sessionIdleTTL_def)
qed

lemma learned_session:
  assumes "aes_law cr" "LearnValidatedHello hello key e t r = (Inr session, r1)"
    and "ArmorSession cr unarmored key encrypt useAES = Inr armored" "ParseDecoded unarmored = Inr m"
    and "rhHops (dcRouting m) = 0" "rhSource (dcRouting m) = idAddress (hlIdentity hello)"
    and "\<not> IsZero now" "addrPortIsValid remote"
  shows "\<exists>d s r2. Authenticate cr (withHops h armored) (rhDestination (dcRouting m)) remote now r1 = (Inr (d, s), r2)
    \<and> sameMessage m d \<and> ssIdentity s = Public (hlIdentity hello) \<and> ssSharedKey s = key \<and> ssEndpoint s = remote
    \<and> fmlookup (rgSessions r2) (idAddress (hlIdentity hello)) = Some s"
proof -
  obtain d where d: "DearmorSession cr (withHops h armored) key = Inr d" "sameMessage m d"
    using DearmorSession_Armor [OF assms(1,3-5), of h] by blast
  note rt = DearmorSession_routing [OF d(1)]
  have src: "rhSource (routingOf (withHops h armored)) = idAddress (hlIdentity hello)"
      "rhDestination (routingOf (withHops h armored)) = rhDestination (dcRouting m)"
    using d(2) rt(1) assms(6) by (simp_all add: sameMessage_def)
  obtain r0 where "r1 = putSession (idAddress (hlIdentity hello)) (learnedSession hello key e t) r0"
    using LearnValidatedHello_Inr [OF assms(2)] by blast
  then have "Authenticate cr (withHops h armored) (rhDestination (dcRouting m)) remote now r1
    = (Inr (d, (learnedSession hello key e t)\<lparr>ssLastSeen := now, ssEndpoint := remote\<rparr>),
       putSession (idAddress (hlIdentity hello)) ((learnedSession hello key e t)\<lparr>ssLastSeen := now, ssEndpoint := remote\<rparr>) r1)"
    using d rt assms(7,8) src by (simp add: Authenticate_Inr learnedSession_def cloneSession_def Public_def)
  then show ?thesis using d(2) by (auto simp: learnedSession_def)
qed

section \<open>A concrete run\<close>

definition toyEndpoint :: AddrPort where
  "toyEndpoint = \<lparr> apAddr = Addr4 0x0a000001, apPort = 9993 \<rparr>"

definition toySender :: "NodeID \<Rightarrow> Identity" where
  "toySender a = Public ((toyIdentity 7)\<lparr>idAddress := a\<rparr>)"

definition toyLearn :: "NodeID \<Rightarrow> time \<Rightarrow> registryEvent" where
  "toyLearn a t = LearnValidated (toyRequest (toySender a)) (replicate 48 5) toyEndpoint t"

definition toyRegistry :: Registry where
  "toyRegistry = registryStep toyCrypto (toyLearn ''0000000040'' 1) NewRegistry"

lemma toySender: "wfIdentity (toySender ''0000000040'')"
  by (simp add: toySender_def Public_def wfIdentity_def toyIdentity_def canonicalHex_def lowerhex_def isReserved_def identity_consts)

lemma toyLearn_result:
  "LearnValidatedHello (toyRequest (toySender ''0000000040'')) (replicate 48 5) toyEndpoint 1 NewRegistry
    = (Inr (learnedSession (toyRequest (toySender ''0000000040'')) (replicate 48 5) toyEndpoint 1), toyRegistry)"
  using toySender
  by (simp add: toyRegistry_def toyLearn_def LearnValidatedHello_def Let_def toyEndpoint_def addrPortIsValid_def IsZero_def
      collides_def maxRegistrySessions_def toyRequest_def wfIdentity_def NewRegistry_def pruneLocked_def sessionPruneEvery_def fcard_fempty)
    (simp add: learnedSession_def cloneSession_def toyRequest_def toySender_def Public_def)

lemma toyRegistry_reachable: "reachableRegistry toyCrypto {} toyRegistry"
  unfolding toyRegistry_def toyLearn_def
  by (rule reachableRegistry.intros(2) [OF reachableRegistry.intros(1)]) (simp add: toyRequest_def toySender)

lemma toyRegistry_lookup:
  "fmlookup (rgSessions toyRegistry) ''0000000040'' = Some (learnedSession (toyRequest (toySender ''0000000040'')) (replicate 48 5) toyEndpoint 1)"
proof -
  have "idAddress (hlIdentity (toyRequest (toySender ''0000000040''))) = ''0000000040''" by (simp add: toyRequest_def toySender_def)
  with LearnValidatedHello_Inr [OF toyLearn_result] show ?thesis by (metis lookup_putSession)
qed

lemma toyMessage:
  "\<exists>m a. ParseDecoded toyPacket = Inr m \<and> ArmorSession toyCrypto toyPacket (replicate 48 5) True True = Inr a
     \<and> rhHops (dcRouting m) = 0 \<and> rhSource (dcRouting m) = ''0000000040'' \<and> rhDestination (dcRouting m) = ''8056c2e21c''
     \<and> dcPayload m = [1, 2, 3]"
proof -
  have l: "length toyPacket = 31" by (simp add: toyPacket_def)
  have "hex_encode (slice 13 18 toyPacket) = ''0000000040''" "hex_encode (slice 8 13 toyPacket) = ''8056c2e21c''" by code_simp+
  moreover have "toyPacket ! 18 = 0" "drop 28 toyPacket = [1, 2, 3]" by (simp_all add: toyPacket_def nth_append)
  ultimately show ?thesis using l
    by (simp add: ParseDecoded_eq routingOf_def ArmorSession_def ArmorAES_def aesSessionKeys_def Let_def packet_consts)
qed

lemma toyAuthenticate:
  "\<exists>armored d s r. Authenticate toyCrypto armored ''8056c2e21c'' toyEndpoint 2 toyRegistry = (Inr (d, s), r)
     \<and> rhSource (routingOf armored) = ''0000000040''"
proof -
  obtain m a where m: "ParseDecoded toyPacket = Inr m" "ArmorSession toyCrypto toyPacket (replicate 48 5) True True = Inr a"
    "rhHops (dcRouting m) = 0" "rhSource (dcRouting m) = ''0000000040''" "rhDestination (dcRouting m) = ''8056c2e21c''"
    using toyMessage by blast
  have law: "aes_law toyCrypto" by (simp add: aes_law_def toyCrypto_def)
  from learned_session [OF law toyLearn_result m(2,1,3), of 2 toyEndpoint 0] m(4,5) obtain d s r where
    a: "Authenticate toyCrypto (withHops 0 a) ''8056c2e21c'' toyEndpoint 2 toyRegistry = (Inr (d, s), r)" "sameMessage m d"
    by (auto simp: toyRequest_def toySender_def IsZero_def toyEndpoint_def addrPortIsValid_def)
  then have "rhSource (routingOf (withHops 0 a)) = ''0000000040''"
    using m(4) by (auto simp: Authenticate_Inr sameMessage_def dest: DearmorSession_routing(1))
  with a(1) show ?thesis by blast
qed

section \<open>Properties\<close>

text \<open>
  C31. Invariant of the registry: in every state reachable from an empty registry by any interleaving of
  its operations (a commit of \<^verbatim>\<open>Authenticate\<close> with any session read earlier included), every session is
  stored under the address of its identity, which is well-formed and holds no private key, has a
  valid endpoint and a time of observation; and the sessions of peers that were never configured
  number at most \<^verbatim>\<open>maxRegistrySessions\<close>, whatever arrives.
\<close>

theorem registry_invariant:
  assumes "reachableRegistry cr upstreams r"
  shows "(fmlookup (rgSessions r) n = Some s \<longrightarrow> idAddress (ssIdentity s) = n \<and> wfIdentity (ssIdentity s)
      \<and> \<not> idHasPrivate (ssIdentity s) \<and> addrPortIsValid (ssEndpoint s) \<and> \<not> IsZero (ssLastSeen s))
    \<and> card (fset (fmdom (rgSessions r)) - upstreams) \<le> 16384"
  using reachable_wfRegistry [OF assms] by (auto simp: wfRegistry_def wfSession_def maxRegistrySessions_def)

theorem registry_invariant_witness:
  "idAddress (ssIdentity (learnedSession (toyRequest (toySender ''0000000040'')) (replicate 48 5) toyEndpoint 1)) = ''0000000040''
   \<and> card (fset (fmdom (rgSessions toyRegistry)) - {}) \<le> 16384"
  using registry_invariant [OF toyRegistry_reachable, of "''0000000040''"] toyRegistry_lookup by blast

text \<open>
  C30. An address stays with its identity: in every reachable state, a session that is configured or was
  seen less than ten minutes before an operation is still there after it, for the same identity;
  another identity that claims the address is refused.
\<close>

theorem session_identity_bound:
  assumes "reachableRegistry cr upstreams r" "registryEventOk upstreams ev" "fmlookup (rgSessions r) n = Some s"
    and "ssConfigured s \<or> timeSub (eventTime ev) (ssLastSeen s) < sessionIdleTTL"
  shows "\<exists>s'. fmlookup (rgSessions (registryStep cr ev r)) n = Some s' \<and> ssIdentity s' = ssIdentity s"
  using binding_step [OF reachable_wfRegistry [OF assms(1)] assms(2,3)] assms(4) by (auto simp: idleSession_def)

theorem session_identity_bound_witness:
  "\<exists>s. fmlookup (rgSessions (registryStep toyCrypto (PruneAt 2) toyRegistry)) ''0000000040'' = Some s
     \<and> ssIdentity s = toySender ''0000000040''"
  using session_identity_bound [OF toyRegistry_reachable _ toyRegistry_lookup, of "PruneAt 2"]
  by (simp add: learnedSession_def timeSub_def sessionIdleTTL_def duration_defs toyRequest_def toySender_def Public_def)

text \<open>
  What \<^verbatim>\<open>Prune\<close> removes: exactly the sessions that are not configured and were last seen at least ten
  minutes before; it reports their number, keeps every other session unchanged and notes its time.
\<close>

theorem prune_exact:
  assumes "\<not> IsZero now"
  shows "fmlookup (rgSessions (snd (Prune now r))) n = (case fmlookup (rgSessions r) n of
       Some s \<Rightarrow> if \<not> ssConfigured s \<and> 10 * Minute \<le> timeSub now (ssLastSeen s) then None else Some s
     | None \<Rightarrow> None)
    \<and> fst (Prune now r) + fcard (fmdom (rgSessions (snd (Prune now r)))) = fcard (fmdom (rgSessions r))
    \<and> rgLastPrune (snd (Prune now r)) = now"
proof -
  let ?stale = "fmfilter (\<lambda>n. case fmlookup (rgSessions r) n of Some s \<Rightarrow> idleSession now s | None \<Rightarrow> False) (rgSessions r)"
  have "fmdom ?stale |\<subseteq>| fmdom (rgSessions r)" by (simp add: fmfilter_alt_defs fsubset_iff)
  then have "fcard (fmdom ?stale) + fcard (fmdom (rgSessions r) |-| fmdom ?stale) = fcard (fmdom (rgSessions r))"
    by (simp add: fcard_funion_fsubset fcard_mono)
  then have "fst (pruneLocked now True r) + fcard (fmdom (rgSessions (snd (pruneLocked now True r)))) = fcard (fmdom (rgSessions r))"
      "rgLastPrune (snd (pruneLocked now True r)) = now"
    by (simp_all add: pruneLocked_def Let_def del: fmdom_filter)
  moreover have "pruneDue now True r" by (simp add: pruneDue_def)
  ultimately show ?thesis using assms by (simp add: Prune_def idleSession_def sessionIdleTTL_def split: option.splits)
qed

theorem prune_exact_witness:
  "fmlookup (rgSessions (snd (Prune 600000000001 toyRegistry))) ''0000000040'' = None \<and> rgLastPrune (snd (Prune 600000000001 toyRegistry)) = 600000000001"
  using prune_exact [of 600000000001 toyRegistry "''0000000040''"]
  by (simp add: IsZero_def toyRegistry_lookup learnedSession_def timeSub_def duration_defs)

text \<open>
  C33. What \<^verbatim>\<open>Authenticate\<close> accepts: a packet for the destination whose source has a session under whose
  key it dearmors; only the endpoint and the time of observation of that session change, and the
  session is returned as stored, without any private key.
\<close>

theorem authenticate_sound:
  assumes "Authenticate cr armored destination endpoint now r = (Inr (d, session), r')"
  shows "\<exists>source s. DearmorSession cr armored (ssSharedKey s) = Inr d \<and> rhDestination (routingOf armored) = destination
    \<and> rhSource (routingOf armored) = source \<and> fmlookup (rgSessions r) source = Some s
    \<and> session = s\<lparr>ssIdentity := Public (ssIdentity s), ssLastSeen := now, ssEndpoint := endpoint\<rparr>
    \<and> rgLastPrune r' = rgLastPrune r
    \<and> fmlookup (rgSessions r') = (fmlookup (rgSessions r))(source \<mapsto> s\<lparr>ssLastSeen := now, ssEndpoint := endpoint\<rparr>)"
  using assms unfolding Authenticate_Inr by (auto simp: cloneSession_def putSession_def fun_eq_iff)

theorem authenticate_sound_witness:
  "\<exists>armored d s r. Authenticate toyCrypto armored ''8056c2e21c'' toyEndpoint 2 toyRegistry = (Inr (d, s), r)
     \<and> DearmorSession toyCrypto armored (replicate 48 5) = Inr d \<and> ssLastSeen s = 2"
proof -
  from toyAuthenticate obtain armored d s r where
    a: "Authenticate toyCrypto armored ''8056c2e21c'' toyEndpoint 2 toyRegistry = (Inr (d, s), r)"
      "rhSource (routingOf armored) = ''0000000040''" by blast
  from authenticate_sound [OF a(1)] a(2) toyRegistry_lookup have "DearmorSession toyCrypto armored (replicate 48 5) = Inr d \<and> ssLastSeen s = 2"
    by (auto simp: learnedSession_def)
  with a(1) show ?thesis by blast
qed

text \<open>
  C32. A learned session works: once \<^verbatim>\<open>LearnValidatedHello\<close> has accepted a HELLO, every packet from that
  identity armored with the agreed key, under any cipher suite and with any hop count, authenticates
  at its destination and yields its message together with the identity and key of the HELLO.
\<close>

theorem learned_session_authenticates:
  assumes "aes_law cr" "LearnValidatedHello hello key e t r = (Inr session, r1)"
    and "ArmorSession cr unarmored key encrypt useAES = Inr armored" "ParseDecoded unarmored = Inr m"
    and "rhHops (dcRouting m) = 0" "rhSource (dcRouting m) = idAddress (hlIdentity hello)"
    and "\<not> IsZero now" "addrPortIsValid remote"
  shows "\<exists>d s r2. Authenticate cr (withHops h armored) (rhDestination (dcRouting m)) remote now r1 = (Inr (d, s), r2)
    \<and> sameMessage m d \<and> ssIdentity s = Public (hlIdentity hello) \<and> ssSharedKey s = key \<and> ssEndpoint s = remote
    \<and> fmlookup (rgSessions r2) (idAddress (hlIdentity hello)) = Some s"
  by (rule learned_session [OF assms])

theorem learned_session_authenticates_witness:
  "\<exists>a d s r. ArmorSession toyCrypto toyPacket (replicate 48 5) True True = Inr a
     \<and> Authenticate toyCrypto (withHops 4 a) ''8056c2e21c'' toyEndpoint 2 toyRegistry = (Inr (d, s), r)
     \<and> dcPayload d = [1, 2, 3] \<and> ssIdentity s = toySender ''0000000040''"
proof -
  obtain m a where m: "ParseDecoded toyPacket = Inr m" "ArmorSession toyCrypto toyPacket (replicate 48 5) True True = Inr a"
    "rhHops (dcRouting m) = 0" "rhSource (dcRouting m) = ''0000000040''" "rhDestination (dcRouting m) = ''8056c2e21c''" "dcPayload m = [1, 2, 3]"
    using toyMessage by blast
  have law: "aes_law toyCrypto" by (simp add: aes_law_def toyCrypto_def)
  from learned_session_authenticates [OF law toyLearn_result m(2,1,3), of 2 toyEndpoint 4] m(2,4-6) show ?thesis
    by (auto simp: toyRequest_def toySender_def IsZero_def toyEndpoint_def addrPortIsValid_def sameMessage_def Public_def)
qed

end
