(* ===== verification/Float64.thy ===== *)
theory Float64
  imports Prelude "HOL-Library.Log_Nat"
begin

text \<open>
  Go's \<^verbatim>\<open>float64\<close> for finite, non-negative values far from the limits of the exponent range: a value is
  the rational number it denotes, and every operation is the exact one followed by rounding to 53
  significant bits, ties to even (IEEE 754). The lemmas give what proofs about accumulated values
  need: rounding is monotone, exact on small integers, and has a relative error of at most \<open>2\<^sup>-\<^sup>5\<^sup>3\<close>.
\<close>

text \<open>The exponent: \<open>2 powi e \<le> x < 2 powi (e + 1)\<close>.\<close>

definition floatExponent :: "rat \<Rightarrow> int" where
  "floatExponent x =
     (let (p, q) = quotient_of x; e = bitlen p - bitlen q in if 2 powi e \<le> x then e else e - 1)"

definition roundHalfEven :: "rat \<Rightarrow> int" where
  "roundHalfEven y =
     (let f = \<lfloor>y\<rfloor>; d = y - of_int f in
      if d < 1 / 2 then f else if 1 / 2 < d then f + 1 else if even f then f else f + 1)"

definition fround :: "rat \<Rightarrow> rat" where
  "fround x = (if x \<le> 0 then 0
     else let e = floatExponent x in of_int (roundHalfEven (x * 2 powi (52 - e))) * 2 powi (e - 52))"

section \<open>Rounding\<close>

lemma bitlen_powi:
  assumes "0 < p"
  shows "2 powi (bitlen p - 1) \<le> (of_int p :: rat)" "(of_int p :: rat) < 2 powi bitlen p"
proof -
  have b: "1 \<le> bitlen p" using assms bitlen_eq_zero_iff [of p] bitlen_nonneg [of p] by linarith
  have "(of_int (2 ^ nat (bitlen p - 1)) :: rat) \<le> of_int p" "(of_int p :: rat) < of_int (2 ^ nat (bitlen p))"
    using bitlen_bounds [OF assms] unfolding of_int_le_iff of_int_less_iff by auto
  then show "2 powi (bitlen p - 1) \<le> (of_int p :: rat)" "(of_int p :: rat) < 2 powi bitlen p"
    using b by (simp_all add: power_int_def)
qed

lemma floatExponent_bounds:
  assumes "0 < x"
  shows "2 powi floatExponent x \<le> x \<and> x < 2 powi (floatExponent x + 1)"
proof -
  obtain p q where pq: "quotient_of x = (p, q)" by (cases "quotient_of x")
  have x: "x = of_int p / of_int q" "0 < q" using quotient_of_div [OF pq] quotient_of_denom_pos [OF pq] by simp_all
  have p: "0 < p" using assms x by (simp add: zero_less_divide_iff)
  note P = bitlen_powi [OF p] and Q = bitlen_powi [OF x(2)]
  let ?e = "bitlen p - bitlen q"
  have "x < 2 powi bitlen p / 2 powi (bitlen q - 1)"
    unfolding x(1) by (rule frac_less) (use P Q p x(2) in auto)
  then have "x < 2 powi (?e + 1)" by (simp add: power_int_diff [symmetric] algebra_simps)
  moreover have "2 powi (bitlen p - 1) / 2 powi bitlen q \<le> x"
    unfolding x(1) by (rule frac_le) (use P Q p x(2) in auto)
  then have "2 powi (?e - 1) \<le> x" by (simp add: power_int_diff [symmetric] algebra_simps)
  ultimately show ?thesis by (simp add: floatExponent_def pq Let_def not_le)
qed

lemma roundHalfEven_bounds: "\<bar>of_int (roundHalfEven y) - y\<bar> \<le> 1 / 2" "\<lfloor>y\<rfloor> \<le> roundHalfEven y" "roundHalfEven y \<le> \<lfloor>y\<rfloor> + 1"
proof -
  define f where "f = \<lfloor>y\<rfloor>"
  have "of_int f \<le> y" "y < of_int f + 1" using floor_correct [of y] by (simp_all add: f_def)
  then show "\<bar>of_int (roundHalfEven y) - y\<bar> \<le> 1 / 2" unfolding roundHalfEven_def Let_def abs_le_iff f_def [symmetric] by simp
  show "\<lfloor>y\<rfloor> \<le> roundHalfEven y" "roundHalfEven y \<le> \<lfloor>y\<rfloor> + 1" by (simp_all add: roundHalfEven_def Let_def)
qed

lemma roundHalfEven_int [simp]: "roundHalfEven (of_int n) = n"
  by (simp add: roundHalfEven_def Let_def)

lemma roundHalfEven_mono:
  assumes "x \<le> y"
  shows "roundHalfEven x \<le> roundHalfEven y"
proof (cases "\<lfloor>x\<rfloor> = \<lfloor>y\<rfloor>")
  case True
  then show ?thesis using assms by (auto simp: roundHalfEven_def Let_def)
next
  case False
  then have "\<lfloor>x\<rfloor> + 1 \<le> \<lfloor>y\<rfloor>" using floor_mono [OF assms] by simp
  then show ?thesis using roundHalfEven_bounds(3) [of x] roundHalfEven_bounds(2) [of y] by linarith
qed

lemma fround_pos: "0 < x \<Longrightarrow> fround x = of_int (roundHalfEven (x * 2 powi (52 - floatExponent x))) * 2 powi (floatExponent x - 52)"
  by (simp add: fround_def Let_def)

lemma powi_inverse: "(2 :: rat) powi (52 - e) * 2 powi (e - 52) = 1"
  by (simp add: power_int_add [symmetric])

text \<open>The relative error.\<close>

lemma fround_error:
  assumes "0 \<le> x"
  shows "\<bar>fround x - x\<bar> \<le> x / 2 ^ 53"
proof (cases "x = 0")
  case False
  then have x: "0 < x" using assms by simp
  let ?e = "floatExponent x" and ?m = "x * 2 powi (52 - floatExponent x)"
  have "fround x - x = (of_int (roundHalfEven ?m) - ?m) * 2 powi (?e - 52)"
    using powi_inverse [of ?e] by (simp add: fround_pos [OF x] algebra_simps)
  then have "\<bar>fround x - x\<bar> = \<bar>of_int (roundHalfEven ?m) - ?m\<bar> * 2 powi (?e - 52)" by (simp add: abs_mult)
  also have "\<dots> \<le> 1 / 2 * 2 powi (?e - 52)" by (rule mult_right_mono [OF roundHalfEven_bounds(1)]) simp
  also have "\<dots> = 2 powi ?e / 2 ^ 53" by (simp add: power_int_diff)
  also have "\<dots> \<le> x / 2 ^ 53" using floatExponent_bounds [OF x] by (intro divide_right_mono) auto
  finally show ?thesis .
qed (simp add: fround_def)

text \<open>A value lies between the powers of two around it, also after rounding.\<close>

lemma fround_between:
  assumes "0 < x"
  shows "2 powi floatExponent x \<le> fround x \<and> fround x \<le> 2 powi (floatExponent x + 1)"
proof -
  let ?e = "floatExponent x" and ?m = "x * 2 powi (52 - floatExponent x)"
  have "2 powi ?e * 2 powi (52 - ?e) \<le> ?m" "?m \<le> 2 powi (?e + 1) * 2 powi (52 - ?e)"
    using floatExponent_bounds [OF assms] by (auto intro!: mult_right_mono)
  then have "of_int (2 ^ 52) \<le> ?m" "?m \<le> of_int (2 ^ 53)" by (simp_all add: power_int_add [symmetric])
  from this [THEN roundHalfEven_mono] have "2 ^ 52 \<le> roundHalfEven ?m" "roundHalfEven ?m \<le> 2 ^ 53"
    unfolding roundHalfEven_int by simp_all
  then have "(of_int (2 ^ 52) :: rat) \<le> of_int (roundHalfEven ?m)" "of_int (roundHalfEven ?m) \<le> (of_int (2 ^ 53) :: rat)"
    unfolding of_int_le_iff by simp_all
  then have "(2 :: rat) ^ 52 * 2 powi (?e - 52) \<le> fround x" "fround x \<le> (2 :: rat) ^ 53 * 2 powi (?e - 52)"
    unfolding fround_pos [OF assms] by (auto intro!: mult_right_mono)
  moreover have "(2 :: rat) ^ 52 * 2 powi (?e - 52) = 2 powi ?e" "(2 :: rat) ^ 53 * 2 powi (?e - 52) = 2 powi (?e + 1)"
    by (simp_all add: power_int_diff power_int_add)
  ultimately show ?thesis by simp
qed

lemma fround_nonneg: "0 \<le> fround x"
proof (cases "0 < x")
  case True
  have "(0 :: rat) \<le> 2 powi floatExponent x" by simp
  then show ?thesis using fround_between [OF True] by linarith
qed (simp add: fround_def)

lemma fround_mono:
  assumes "x \<le> y"
  shows "fround x \<le> fround y"
proof (cases "0 < x")
  case True
  then have y: "0 < y" using assms by simp
  note X = floatExponent_bounds [OF True] and Y = floatExponent_bounds [OF y]
  have le: "floatExponent x \<le> floatExponent y"
  proof (rule ccontr)
    assume "\<not> ?thesis"
    then have "(2 :: rat) powi (floatExponent y + 1) \<le> 2 powi floatExponent x" by (intro power_int_increasing) auto
    then show False using X Y assms by linarith
  qed
  show ?thesis
  proof (cases "floatExponent x = floatExponent y")
    case True
    have "roundHalfEven (x * 2 powi (52 - floatExponent y)) \<le> roundHalfEven (y * 2 powi (52 - floatExponent y))"
      using assms by (intro roundHalfEven_mono mult_right_mono) auto
    then show ?thesis using \<open>0 < x\<close> y True by (simp add: fround_pos mult_right_mono)
  next
    case False
    then have "(2 :: rat) powi (floatExponent x + 1) \<le> 2 powi floatExponent y" using le by (intro power_int_increasing) auto
    then show ?thesis using fround_between [OF \<open>0 < x\<close>] fround_between [OF y] by linarith
  qed
qed (use fround_nonneg in \<open>simp add: fround_def [of x]\<close>)

lemma fround_nat:
  assumes "n < 2 ^ 53"
  shows "fround (of_nat n) = of_nat n"
proof (cases "n = 0")
  case False
  let ?x = "of_nat n :: rat"
  let ?e = "floatExponent ?x"
  have x: "0 < ?x" using False by simp
  have "?e < 53"
  proof (rule ccontr)
    assume "\<not> ?thesis"
    then have "(2 :: rat) powi 53 \<le> 2 powi ?e" by (intro power_int_increasing) auto
    then have "(2 :: rat) ^ 53 \<le> of_nat n" using floatExponent_bounds [OF x] by simp
    then have "of_nat (2 ^ 53) \<le> (of_nat n :: rat)" by simp
    then show False using assms unfolding of_nat_le_iff by simp
  qed
  then have "?x * 2 powi (52 - ?e) = of_int (int n * 2 ^ nat (52 - ?e))" by (simp add: power_int_def)
  then have "roundHalfEven (?x * 2 powi (52 - ?e)) = int n * 2 ^ nat (52 - ?e)" by (metis roundHalfEven_int)
  then have "fround ?x = ?x * (2 powi (52 - ?e) * 2 powi (?e - 52))"
    using \<open>?e < 53\<close> by (simp add: fround_pos [OF x] power_int_def)
  then show ?thesis by (simp only: powi_inverse mult_1_right)
qed (simp add: fround_def)

end
