(* ===== verification/Limiter.thy ===== *)
theory Limiter
  imports Float64 Netip
begin

unbundle bit_operations_syntax

text \<open>
  \<^verbatim>\<open>internal/zerotier/transport/limiter.go\<close>: the token buckets that limit how many HELLOs a group of
  addresses may have processed. The lemmas show that the table never grows, that a bucket holds
  between zero and four tokens, and how many requests it can let through in a span of time, with the
  rounding of \<^verbatim>\<open>float64\<close> taken into account.
\<close>

definition helloBurst :: rat where "helloBurst = 4"
definition helloRefillPerSecond :: rat where "helloRefillPerSecond = 1"
definition limiterCleanupAfter :: duration where "limiterCleanupAfter = 10 * Minute"
definition helloLimiterSlots :: nat where "helloLimiterSlots = 2 ^ 14"

record helloBucket =
  hbTokens :: rat
  hbObserved :: time

type_synonym helloLimiter = "helloBucket list"

definition newHelloLimiter :: helloLimiter where
  "newHelloLimiter = replicate helloLimiterSlots \<lparr> hbTokens = 0, hbObserved = 0 \<rparr>"

text \<open>
  \<^verbatim>\<open>Duration.Seconds\<close>: the whole seconds and the remaining nanoseconds divided by \<^verbatim>\<open>1e9\<close>, added; used on
  positive durations only.
\<close>

definition Seconds :: "duration \<Rightarrow> rat" where
  "Seconds d = fround (fround (of_int (d div Second)) + fround (of_int (d mod Second) / 1000000000))"

definition fnvStep :: "uint32 \<Rightarrow> byte \<Rightarrow> uint32" where
  "fnvStep hash octet = (hash XOR ucast octet) * 16777619"

definition helloRateGateHash :: "Addr \<Rightarrow> uint16" where
  "helloRateGateHash address =
     (if \<not> addrIsValid address then 0
      else
        let address = Unmap address;
            start = (if Is4 address then 12 else 0);
            len = (if Is4 address then 3 else 6);
            hash = foldl fnvStep 2166136261 (slice start (start + len) (As16 address))
        in ucast (hash AND of_nat (helloLimiterSlots - 1)))"

text \<open>What \<^verbatim>\<open>allow\<close> does with one bucket.\<close>

definition refillBucket :: "time \<Rightarrow> helloBucket \<Rightarrow> helloBucket" where
  "refillBucket now bucket =
     (if IsZero (hbObserved bucket) \<or> timeSub now (hbObserved bucket) \<ge> limiterCleanupAfter
      then \<lparr> hbTokens = helloBurst, hbObserved = now \<rparr>
      else
        let elapsed = timeSub now (hbObserved bucket) in
        if elapsed > 0
        then let tokens = fround (hbTokens bucket + fround (Seconds elapsed * helloRefillPerSecond))
             in \<lparr> hbTokens = (if tokens > helloBurst then helloBurst else tokens), hbObserved = now \<rparr>
        else bucket)"

definition takeToken :: "helloBucket \<Rightarrow> bool \<times> helloBucket" where
  "takeToken bucket =
     (if hbTokens bucket < 1 then (False, bucket)
      else (True, bucket\<lparr>hbTokens := fround (hbTokens bucket - 1)\<rparr>))"

definition allow :: "Addr \<Rightarrow> time \<Rightarrow> helloLimiter \<Rightarrow> bool \<times> helloLimiter" where
  "allow address now limiter =
     (let index = unat (helloRateGateHash address) in
      case takeToken (refillBucket now (limiter ! index)) of (ok, bucket) \<Rightarrow> (ok, limiter[index := bucket]))"

section \<open>The hash\<close>

lemma helloRateGateHash_less: "unat (helloRateGateHash address) < helloLimiterSlots"
proof -
  have "unat (ucast (h AND 0x3fff) :: uint16) < 2 ^ 14" for h :: uint32
  proof -
    have "(h AND 0x3fff) = take_bit 14 h" using take_bit_eq_mask [of 14 h] by (simp add: mask_eq_exp_minus_1)
    moreover have "unat (ucast (take_bit 14 h) :: uint16) = take_bit 16 (take_bit 14 (unat h))"
      by (simp add: unsigned_ucast_eq unsigned_take_bit_eq)
    moreover have "\<dots> < 2 ^ 14" using take_bit_nat_less_exp [of 14 "unat h"] by (simp add: take_bit_take_bit)
    ultimately show ?thesis by simp
  qed
  then show ?thesis by (simp add: helloRateGateHash_def helloLimiterSlots_def Let_def)
qed

text \<open>The hash sees the first 24 bits of an IPv4 address, mapped or not, and the first 48 of an IPv6 one.\<close>

definition rateGroup :: "Addr \<Rightarrow> bytes" where
  "rateGroup address = (case Unmap address of
     NoAddr \<Rightarrow> [] | Addr4 w \<Rightarrow> take 3 (be_bytes 4 w) | Addr6 w _ \<Rightarrow> take 6 (be_bytes 16 w))"

lemma helloRateGateHash_group:
  "addrIsValid address \<Longrightarrow> helloRateGateHash address = ucast (foldl fnvStep 2166136261 (rateGroup address) AND 0x3fff)"
  by (cases address) (auto simp: helloRateGateHash_def rateGroup_def Unmap_def Let_def helloLimiterSlots_def slice_def)

section \<open>One bucket\<close>

definition bucketOk :: "time \<Rightarrow> helloBucket \<Rightarrow> bool" where
  "bucketOk t b = (0 \<le> hbTokens b \<and> hbTokens b \<le> 4 \<and> hbObserved b \<le> t)"

lemma fround_upper: "0 \<le> x \<Longrightarrow> fround x \<le> x + x / 2 ^ 53"
  using abs_le_D1 [OF fround_error [of x]] by linarith

lemma Seconds_bounds:
  assumes "0 < d" "d < 600 * Second"
  shows "0 \<le> Seconds d" "Seconds d \<le> of_int d / 1000000000 + 1 / 2 ^ 42"
proof -
  let ?a = "of_int (d div Second) :: rat" and ?b = "of_int (d mod Second) / 1000000000 :: rat"
  have n: "0 \<le> d div Second" "d div Second < 600" "0 \<le> d mod Second" "d mod Second < Second"
    using assms by (simp_all add: Second_def pos_imp_zdiv_nonneg_iff)
  then have ab: "0 \<le> ?a" "?a \<le> 600" "0 \<le> ?b" "?b \<le> 1" by (simp_all add: Second_def)
  have "of_int d = of_int (d div Second) * of_int Second + (of_int (d mod Second) :: rat)"
    unfolding of_int_mult [symmetric] of_int_add [symmetric] by simp
  then have d: "of_int d / 1000000000 = ?a + ?b" by (simp add: Second_def field_simps)
  have "fround ?a \<le> ?a + 600 / 2 ^ 53" "fround ?b \<le> ?b + 1 / 2 ^ 53"
    using fround_upper [of ?a] fround_upper [of ?b] ab by (auto intro: order_trans)
  then have s: "fround ?a + fround ?b \<le> ?a + ?b + 601 / 2 ^ 53" by simp
  have p: "0 \<le> fround ?a + fround ?b" using fround_nonneg [of ?a] fround_nonneg [of ?b] by simp
  show "0 \<le> Seconds d" by (simp add: Seconds_def fround_nonneg)
  define x where "x = fround ?a + fround ?b"
  have "x / 2 ^ 53 \<le> 602 / 2 ^ 53" using s ab by (intro divide_right_mono) (simp_all add: x_def)
  moreover have "Seconds d \<le> x + x / 2 ^ 53" unfolding Seconds_def x_def by (rule fround_upper [OF p])
  moreover have "(601 / 2 ^ 53 + 602 / 2 ^ 53 :: rat) \<le> 1 / 2 ^ 42" by simp
  ultimately show "Seconds d \<le> of_int d / 1000000000 + 1 / 2 ^ 42" using s unfolding d x_def by linarith
qed

lemma refill_Ok:
  assumes "bucketOk now b" "0 < now"
  shows "bucketOk now (refillBucket now b)" "hbObserved (refillBucket now b) = now"
    and "0 < hbObserved b \<Longrightarrow> hbTokens (refillBucket now b) \<le> hbTokens b + of_int (now - hbObserved b) / 1000000000 + 1 / 2 ^ 41"
proof -
  let ?d = "timeSub now (hbObserved b)"
  have d: "?d \<le> now - hbObserved b" "0 < ?d \<longleftrightarrow> hbObserved b < now" "?d < 600 * Second \<Longrightarrow> ?d = now - hbObserved b"
    using assms(1) by (auto simp: timeSub_def bucketOk_def Second_def)
  show "bucketOk now (refillBucket now b)" "hbObserved (refillBucket now b) = now"
    using assms d(2) by (auto simp: refillBucket_def bucketOk_def Let_def helloBurst_def fround_nonneg)
  show "hbTokens (refillBucket now b) \<le> hbTokens b + of_int (now - hbObserved b) / 1000000000 + 1 / 2 ^ 41" if o: "0 < hbObserved b"
  proof (cases "limiterCleanupAfter \<le> ?d")
    case True
    then have "600 * Second \<le> now - hbObserved b" using d(1) by (simp add: limiterCleanupAfter_def Minute_def)
    then have "(600 :: rat) \<le> of_int (now - hbObserved b) / 1000000000"
      unfolding of_int_le_iff [where 'a = rat, symmetric] by (simp add: Second_def field_simps)
    moreover have "hbTokens (refillBucket now b) = 4" "0 \<le> hbTokens b"
      using True assms(1) by (simp_all add: refillBucket_def bucketOk_def helloBurst_def)
    moreover have "(0 :: rat) \<le> 1 / 2 ^ 41" by simp
    ultimately show ?thesis by linarith
  next
    case False
    then have lt: "?d < 600 * Second" by (simp add: limiterCleanupAfter_def Minute_def)
    note e = d(3) [OF lt]
    show ?thesis
    proof (cases "0 < ?d")
      case True
      let ?s = "Seconds ?d" and ?t = "hbTokens b"
      have s: "0 \<le> ?s" "?s \<le> of_int (now - hbObserved b) / 1000000000 + 1 / 2 ^ 42" using Seconds_bounds [OF True lt] by (simp_all add: e)
      have s': "?s \<le> 601"
      proof -
        have "of_int ?d \<le> (of_int (600 * Second) :: rat)" using lt by (simp only: of_int_le_iff)
        then have "of_int ?d / 1000000000 \<le> (600 :: rat)" by (simp add: Second_def)
        moreover have "(1 / 2 ^ 42 :: rat) \<le> 1" by simp
        ultimately show ?thesis using s(2) unfolding e by linarith
      qed
      have r: "fround ?s \<le> ?s + 601 / 2 ^ 53" using fround_upper [OF s(1)] s' by (auto intro: order_trans)
      have t: "0 \<le> ?t" "?t \<le> 4" using assms(1) by (auto simp: bucketOk_def)
      define x where "x = ?t + fround ?s"
      have "x \<le> 606" "0 \<le> x" using r s' t fround_nonneg [of ?s] by (simp_all add: x_def)
      then have "x / 2 ^ 53 \<le> 606 / 2 ^ 53" by (intro divide_right_mono) simp_all
      moreover have "fround x \<le> x + x / 2 ^ 53" by (rule fround_upper [OF \<open>0 \<le> x\<close>])
      moreover have "(601 / 2 ^ 53 + 606 / 2 ^ 53 + 1 / 2 ^ 42 :: rat) \<le> 1 / 2 ^ 41" by simp
      ultimately have "fround (?t + fround ?s) \<le> ?t + of_int (now - hbObserved b) / 1000000000 + 1 / 2 ^ 41"
        using r s(2) unfolding x_def by linarith
      then show ?thesis using True False o
        by (auto simp: refillBucket_def Let_def helloRefillPerSecond_def helloBurst_def IsZero_def)
    next
      case False
      then show ?thesis using \<open>\<not> limiterCleanupAfter \<le> ?d\<close> o assms(1) by (simp add: refillBucket_def IsZero_def bucketOk_def)
    qed
  qed
qed

lemma takeToken_Ok:
  assumes "bucketOk t b"
  shows "bucketOk t (snd (takeToken b))" "hbObserved (snd (takeToken b)) = hbObserved b"
    "of_bool (fst (takeToken b)) + hbTokens (snd (takeToken b)) \<le> hbTokens b + 1 / 2 ^ 41"
proof -
  have r: "0 \<le> fround (hbTokens b - 1)" "fround (hbTokens b - 1) \<le> (hbTokens b - 1) + 3 / 2 ^ 53" if "1 \<le> hbTokens b"
  proof -
    have "(hbTokens b - 1) / 2 ^ 53 \<le> 3 / 2 ^ 53" using assms by (intro divide_right_mono) (auto simp: bucketOk_def)
    then show "fround (hbTokens b - 1) \<le> (hbTokens b - 1) + 3 / 2 ^ 53" using fround_upper [of "hbTokens b - 1"] that by linarith
  qed (rule fround_nonneg)
  show "bucketOk t (snd (takeToken b))" "hbObserved (snd (takeToken b)) = hbObserved b"
    "of_bool (fst (takeToken b)) + hbTokens (snd (takeToken b)) \<le> hbTokens b + 1 / 2 ^ 41"
    using assms r by (auto simp: takeToken_def bucketOk_def not_less)
qed

section \<open>Runs\<close>

fun runLimiter :: "(Addr \<times> time) list \<Rightarrow> helloLimiter \<Rightarrow> helloLimiter" where
  "runLimiter [] l = l"
| "runLimiter ((a, t) # cs) l = runLimiter cs (snd (allow a t l))"

text \<open>How many of the calls in a run that fall into slot \<open>i\<close> are let through.\<close>

fun allowedFor :: "uint16 \<Rightarrow> (Addr \<times> time) list \<Rightarrow> helloLimiter \<Rightarrow> nat" where
  "allowedFor i [] l = 0"
| "allowedFor i ((a, t) # cs) l =
     (if helloRateGateHash a = i \<and> fst (allow a t l) then 1 else 0) + allowedFor i cs (snd (allow a t l))"

definition limiterOk :: "time \<Rightarrow> helloLimiter \<Rightarrow> bool" where
  "limiterOk t l = (length l = helloLimiterSlots \<and> (\<forall>b \<in> set l. bucketOk t b))"

lemma bucketOk_mono: "bucketOk t b \<Longrightarrow> t \<le> t' \<Longrightarrow> bucketOk t' b"
  by (simp add: bucketOk_def)

lemma limiterOk_mono: "limiterOk t l \<Longrightarrow> t \<le> t' \<Longrightarrow> limiterOk t' l"
  by (auto simp: limiterOk_def intro: bucketOk_mono)

lemma limiterOk_nth: "limiterOk t l \<Longrightarrow> bucketOk t (l ! unat (helloRateGateHash a))"
  using helloRateGateHash_less [of a] by (simp add: limiterOk_def)

lemma allow_simps:
  "fst (allow a t l) = fst (takeToken (refillBucket t (l ! unat (helloRateGateHash a))))"
  "snd (allow a t l) = l[unat (helloRateGateHash a) := snd (takeToken (refillBucket t (l ! unat (helloRateGateHash a))))]"
  by (simp_all add: allow_def Let_def split: prod.splits)

lemma allow_Ok: "limiterOk t l \<Longrightarrow> 0 < t \<Longrightarrow> limiterOk t (snd (allow a t l))"
  using takeToken_Ok(1) [OF refill_Ok(1) [OF limiterOk_nth [of t l a]]]
  by (auto simp: limiterOk_def allow_simps dest!: set_update_subset_insert [THEN subsetD])

lemma newHelloLimiter_Ok: "0 \<le> t \<Longrightarrow> limiterOk t newHelloLimiter"
  by (auto simp: limiterOk_def newHelloLimiter_def bucketOk_def)

lemma runLimiter_Ok:
  "limiterOk t l \<Longrightarrow> 0 \<le> t \<Longrightarrow> sorted (t # map snd cs) \<Longrightarrow> \<forall>c \<in> set cs. 0 < snd c \<Longrightarrow> limiterOk (last (t # map snd cs)) (runLimiter cs l)"
proof (induction cs arbitrary: t l)
  case (Cons c cs)
  obtain a t' where c: "c = (a, t')" by (cases c)
  have "limiterOk t' (snd (allow a t' l))" using Cons.prems c by (intro allow_Ok limiterOk_mono [OF Cons.prems(1)]) auto
  from Cons.IH [OF this] Cons.prems c show ?case by simp
qed simp

text \<open>A call that falls into a slot: what it lets through and what it leaves add up to at most what was there.\<close>

lemma allow_potential:
  fixes a :: Addr
  assumes "limiterOk t l" "0 < t"
  defines "b \<equiv> l ! unat (helloRateGateHash a)" and "b' \<equiv> snd (allow a t l) ! unat (helloRateGateHash a)"
  shows "hbObserved b' = t" "of_bool (fst (allow a t l)) + hbTokens b' \<le> 4 + 1 / 2 ^ 40"
    "0 < hbObserved b \<Longrightarrow> of_bool (fst (allow a t l)) + hbTokens b' \<le> hbTokens b + of_int (t - hbObserved b) / 1000000000 + 1 / 2 ^ 40"
proof -
  have l: "unat (helloRateGateHash a) < length l" using assms(1) helloRateGateHash_less [of a] by (simp add: limiterOk_def)
  have b': "b' = snd (takeToken (refillBucket t b))" using l by (simp add: b'_def b_def allow_simps)
  note R = refill_Ok [OF limiterOk_nth [OF assms(1), of a, folded b_def] assms(2)] and T = takeToken_Ok [OF R(1)]
  have e: "(1 / 2 ^ 41 + 1 / 2 ^ 41 :: rat) = 1 / 2 ^ 40" "(0 :: rat) \<le> 1 / 2 ^ 41" by simp_all
  have m: "hbTokens (refillBucket t b) \<le> 4" using R(1) by (simp add: bucketOk_def)
  show "hbObserved b' = t" using T(2) R(2) by (simp add: b')
  show "of_bool (fst (allow a t l)) + hbTokens b' \<le> 4 + 1 / 2 ^ 40"
    using T(3) m e by (simp only: allow_simps b' b_def [symmetric]; linarith)
  show "of_bool (fst (allow a t l)) + hbTokens b' \<le> hbTokens b + of_int (t - hbObserved b) / 1000000000 + 1 / 2 ^ 40"
    if "0 < hbObserved b"
    using T(3) R(3) [OF that] e by (simp only: allow_simps b' b_def [symmetric]; linarith)
qed

lemma allow_other: "helloRateGateHash a \<noteq> i \<Longrightarrow> snd (allow a t l) ! unat i = l ! unat i"
  by (simp add: allow_simps word_unat_eq_iff)

lemma rate_from_bucket:
  "limiterOk t l \<Longrightarrow> 0 < hbObserved (l ! unat i) \<Longrightarrow> sorted (t # map snd cs) \<Longrightarrow> unat i < helloLimiterSlots \<Longrightarrow>
   of_nat (allowedFor i cs l) \<le> hbTokens (l ! unat i) + of_int (last (t # map snd cs) - hbObserved (l ! unat i)) / 1000000000
     + of_nat (length cs) / 2 ^ 40"
proof (induction cs arbitrary: t l)
  case Nil
  then have "bucketOk t (l ! unat i)" by (simp add: limiterOk_def)
  then have "0 \<le> hbTokens (l ! unat i)" "0 \<le> (of_int (t - hbObserved (l ! unat i)) / 1000000000 :: rat)" by (simp_all add: bucketOk_def)
  then show ?case by simp
next
  case (Cons c cs)
  obtain a t' where c: "c = (a, t')" by (cases c)
  have t: "t \<le> t'" "sorted (t' # map snd cs)" using Cons.prems(3) c by auto
  have "hbObserved (l ! unat i) \<le> t" using Cons.prems(1,4) by (simp add: limiterOk_def bucketOk_def)
  then have t0: "0 < t'" using Cons.prems(2) t(1) by linarith
  let ?l = "snd (allow a t' l)" and ?T = "last (t' # map snd cs)"
  have ok: "limiterOk t' l" "limiterOk t' ?l" using limiterOk_mono [OF Cons.prems(1) t(1)] allow_Ok t0 by auto
  have len: "(of_nat (length (c # cs)) / 2 ^ 40 :: rat) = of_nat (length cs) / 2 ^ 40 + 1 / 2 ^ 40" by (simp add: add_divide_distrib)
  show ?case
  proof (cases "helloRateGateHash a = i")
    case True
    note P = allow_potential [OF ok(1) t0, of a, unfolded True]
    have "of_nat (allowedFor i cs ?l) \<le> hbTokens (?l ! unat i) + of_int (?T - t') / 1000000000 + of_nat (length cs) / 2 ^ 40"
      using Cons.IH [OF ok(2) _ t(2) Cons.prems(4)] P(1) t0 by simp
    moreover have "(of_int (?T - t') / 1000000000 + of_int (t' - hbObserved (l ! unat i)) / 1000000000 :: rat)
        = of_int (?T - hbObserved (l ! unat i)) / 1000000000" by (simp add: diff_divide_distrib)
    moreover have "of_nat (allowedFor i (c # cs) l) = (of_bool (fst (allow a t' l)) :: rat) + of_nat (allowedFor i cs ?l)"
      using True by (simp add: c)
    moreover have "last (t # map snd (c # cs)) = ?T" by (simp add: c)
    ultimately show ?thesis using P(3) [OF Cons.prems(2)] unfolding len by (simp only:; linarith)
  next
    case False
    from Cons.IH [OF ok(2) _ t(2) Cons.prems(4)] Cons.prems(2)
    have "of_nat (allowedFor i cs ?l) \<le> hbTokens (l ! unat i) + of_int (?T - hbObserved (l ! unat i)) / 1000000000 + of_nat (length cs) / 2 ^ 40"
      by (simp add: allow_other [OF False])
    moreover have "(0 :: rat) \<le> 1 / 2 ^ 40" by simp
    moreover have "allowedFor i (c # cs) l = allowedFor i cs ?l" "last (t # map snd (c # cs)) = ?T" using False by (simp_all add: c)
    ultimately show ?thesis unfolding len by (simp only:; linarith)
  qed
qed

lemma rate_from_any:
  "limiterOk t l \<Longrightarrow> 0 < t \<Longrightarrow> sorted (t # map snd cs) \<Longrightarrow> unat i < helloLimiterSlots \<Longrightarrow>
   of_nat (allowedFor i cs l) \<le> (4 :: rat) + of_int (last (t # map snd cs) - t) / 1000000000 + of_nat (length cs) / 2 ^ 40"
proof (induction cs arbitrary: t l)
  case (Cons c cs)
  obtain a t' where c: "c = (a, t')" by (cases c)
  have t: "t \<le> t'" "sorted (t' # map snd cs)" using Cons.prems(3) c by auto
  then have t0: "0 < t'" using Cons.prems(2) by linarith
  let ?l = "snd (allow a t' l)" and ?T = "last (t' # map snd cs)"
  have ok: "limiterOk t' l" "limiterOk t' ?l" using limiterOk_mono [OF Cons.prems(1) t(1)] allow_Ok t0 by auto
  have len: "(of_nat (length (c # cs)) / 2 ^ 40 :: rat) = of_nat (length cs) / 2 ^ 40 + 1 / 2 ^ 40" by (simp add: add_divide_distrib)
  have T: "last (t # map snd (c # cs)) = ?T" "(of_int (?T - t') / 1000000000 :: rat) \<le> of_int (?T - t) / 1000000000"
    by (simp add: c, intro divide_right_mono) (use t(1) in simp_all)
  show ?case
  proof (cases "helloRateGateHash a = i")
    case True
    note P = allow_potential [OF ok(1) t0, of a, unfolded True]
    have "of_nat (allowedFor i cs ?l) \<le> hbTokens (?l ! unat i) + of_int (?T - t') / 1000000000 + of_nat (length cs) / 2 ^ 40"
      using rate_from_bucket [OF ok(2) _ t(2) Cons.prems(4)] P(1) t0 by simp
    moreover have "of_nat (allowedFor i (c # cs) l) = (of_bool (fst (allow a t' l)) :: rat) + of_nat (allowedFor i cs ?l)"
      using True by (simp add: c)
    ultimately show ?thesis using P(2) T unfolding len by (simp only:; linarith)
  next
    case False
    from Cons.IH [OF ok(2) t0 t(2) Cons.prems(4)]
    have "of_nat (allowedFor i cs ?l) \<le> (4 :: rat) + of_int (?T - t') / 1000000000 + of_nat (length cs) / 2 ^ 40" .
    moreover have "(0 :: rat) \<le> 1 / 2 ^ 40" by simp
    moreover have "allowedFor i (c # cs) l = allowedFor i cs ?l" using False by (simp add: c)
    ultimately show ?thesis using T unfolding len by (simp only:; linarith)
  qed
qed simp

section \<open>Properties\<close>

text \<open>
  C34. The rate limit: after any calls with a clock that does not go back, a further run of calls lets at
  most four requests of one slot through, plus one for every second between its first and last
  call; the rounding of \<^verbatim>\<open>float64\<close> adds less than one request in a million million calls.
\<close>

theorem hello_rate_limited:
  assumes "sorted (map snd (earlier @ calls))" "\<forall>c \<in> set (earlier @ calls). 0 < snd c" "calls \<noteq> []"
    and "i = helloRateGateHash address"
  shows "of_nat (allowedFor i calls (runLimiter earlier newHelloLimiter))
    \<le> (4 :: rat) + of_int (snd (last calls) - snd (hd calls)) / 1000000000 + of_nat (length calls) / 2 ^ 40"
proof -
  let ?t = "snd (hd calls)"
  have s: "sorted (map snd calls)" "sorted (0 # map snd earlier)" "\<forall>c \<in> set earlier. snd c \<le> ?t" "0 < ?t"
    using assms(1-3) by (auto simp: sorted_append less_imp_le)
  have "last (0 # map snd earlier) \<le> ?t" using s(3,4) by (cases earlier rule: rev_cases) auto
  with runLimiter_Ok [OF newHelloLimiter_Ok _ s(2)] assms(2) have "limiterOk ?t (runLimiter earlier newHelloLimiter)"
    by (auto intro: limiterOk_mono)
  moreover have "sorted (?t # map snd calls)" using s(1) assms(3) by (cases calls) auto
  ultimately have "of_nat (allowedFor i calls (runLimiter earlier newHelloLimiter))
      \<le> (4 :: rat) + of_int (last (?t # map snd calls) - ?t) / 1000000000 + of_nat (length calls) / 2 ^ 40"
    using rate_from_any s(4) helloRateGateHash_less assms(4) by blast
  then show ?thesis using assms(3) by (simp add: last_map)
qed

theorem hello_rate_limited_witness:
  "allowedFor (helloRateGateHash (Addr4 0x0a000001)) (replicate 9 (Addr4 0x0a000001, 1000000000)) newHelloLimiter \<le> 4"
proof -
  have "of_nat (allowedFor (helloRateGateHash (Addr4 0x0a000001)) (replicate 9 (Addr4 0x0a000001, 1000000000)) newHelloLimiter)
      \<le> (4 :: rat) + 9 / 2 ^ 40"
    using hello_rate_limited [of "[]" "replicate 9 (Addr4 0x0a000001, 1000000000)" "helloRateGateHash (Addr4 0x0a000001)" "Addr4 0x0a000001"]
    by simp
  also have "\<dots> < of_nat 5" by simp
  finally show ?thesis unfolding of_nat_less_iff by simp
qed

text \<open>
  The limiter's table is fixed and its state is sane: after any calls with a clock that does not go
  back there are 16384 buckets, each with between zero and four tokens; every address falls into one
  of them, the same for all addresses of an IPv4 /24, mapped or not, or of an IPv6 /48.
\<close>

theorem hello_limiter_bounded:
  assumes "sorted (map snd calls)" "\<forall>c \<in> set calls. 0 < snd c"
  shows "length (runLimiter calls newHelloLimiter) = 16384
    \<and> (\<forall>b \<in> set (runLimiter calls newHelloLimiter). 0 \<le> hbTokens b \<and> hbTokens b \<le> 4)
    \<and> unat (helloRateGateHash a) < length (runLimiter calls newHelloLimiter)
    \<and> (addrIsValid a \<longrightarrow> addrIsValid b \<longrightarrow> rateGroup a = rateGroup b \<longrightarrow> helloRateGateHash a = helloRateGateHash b)"
proof -
  have "limiterOk (last (0 # map snd calls)) (runLimiter calls newHelloLimiter)"
    using assms by (intro runLimiter_Ok newHelloLimiter_Ok) (auto simp: less_imp_le)
  then show ?thesis
    using helloRateGateHash_less [of a] by (auto simp: limiterOk_def bucketOk_def helloLimiterSlots_def helloRateGateHash_group)
qed

theorem hello_limiter_bounded_witness:
  "length (runLimiter [(Addr4 0x0a000001, 5), (Addr4 0x0a0000ff, 7)] newHelloLimiter) = 16384
   \<and> helloRateGateHash (Addr4 0x0a000001) = helloRateGateHash (Addr6 0xffff0a0000ff [])"
proof -
  have "rateGroup (Addr4 0x0a000001) = rateGroup (Addr6 0xffff0a0000ff [])" by code_simp
  with hello_limiter_bounded [of "[(Addr4 0x0a000001, 5), (Addr4 0x0a0000ff, 7)]" "Addr4 0x0a000001" "Addr6 0xffff0a0000ff []"]
  show ?thesis by simp
qed

end
