(* ===== verification/Compression.thy ===== *)
theory Compression
  imports Packet
begin

unbundle bit_operations_syntax

text \<open>
  \<^verbatim>\<open>internal/zerotier/packet/compression.go\<close>: expansion of a raw LZ4 block with an output limit. The
  lemmas show that the expansion stays within the limit, ends on every input, and recovers the data
  from every well-formed sequence of literals and matches.
\<close>

function lz4LengthLoop :: "bytes \<Rightarrow> nat \<Rightarrow> nat \<Rightarrow> (nat \<times> nat) result" where
  "lz4LengthLoop input cursor len =
     (if cursor \<ge> length input then Inl (Errorf ''LZ4 extended length is truncated'')
      else
        let v = unat (input ! cursor) in
        if len > MaxPacketLength - v then Inl (Errorf ''LZ4 length exceeds %d bytes'')
        else if v \<noteq> 255 then Inr (len + v, cursor + 1)
        else lz4LengthLoop input (cursor + 1) (len + v))"
  by pat_completeness auto
termination
  by (relation "measure (\<lambda>(input, cursor, len). length input - cursor)") auto

declare lz4LengthLoop.simps [simp del]

definition lz4Length :: "bytes \<Rightarrow> nat \<Rightarrow> nat \<Rightarrow> (nat \<times> nat) result" where
  "lz4Length input cursor base = (if base \<noteq> 15 then Inr (base, cursor) else lz4LengthLoop input cursor base)"

text \<open>The byte-by-byte copy of a match, which may overlap what it appends.\<close>

fun copyMatch :: "bytes \<Rightarrow> nat \<Rightarrow> nat \<Rightarrow> bytes" where
  "copyMatch output offset 0 = output"
| "copyMatch output offset (Suc n) = copyMatch (output @ [output ! (length output - offset)]) offset n"

lemma lz4LengthLoop_cursor: "lz4LengthLoop input cursor len = Inr (l, next') \<Longrightarrow> cursor < next' \<and> next' \<le> length input"
proof (induction input cursor len rule: lz4LengthLoop.induct)
  case (1 input cursor len)
  let ?v = "unat (input ! cursor)"
  show ?case
  proof (cases "cursor \<ge> length input \<or> len > MaxPacketLength - ?v \<or> ?v \<noteq> 255")
    case False
    then have "lz4LengthLoop input (cursor + 1) (len + ?v) = Inr (l, next')"
      using "1.prems" by (auto simp: lz4LengthLoop.simps [of input cursor len] Let_def split: if_splits)
    with "1.IH" [OF _ refl] False have "cursor + 1 < next' \<and> next' \<le> length input" by blast
    then show ?thesis by simp
  qed (use "1.prems" in \<open>auto simp: lz4LengthLoop.simps [of input cursor len] Let_def split: if_splits\<close>)
qed

lemma lz4Length_cursor: "lz4Length input cursor base = Inr (l, next') \<Longrightarrow> cursor \<le> next'"
  by (auto simp: lz4Length_def split: if_splits dest: lz4LengthLoop_cursor)

text \<open>The loop of \<^verbatim>\<open>Decompress\<close> from \<open>cursor\<close> with the output so far.\<close>

function decompressLoop :: "bytes \<Rightarrow> nat \<Rightarrow> nat \<Rightarrow> bytes \<Rightarrow> bytes result" where
  "decompressLoop input maximum cursor output =
     (if cursor \<ge> length input then Inr output
      else
        let token = input ! cursor; cursor1 = cursor + 1 in
        case lz4Length input cursor1 (unat (drop_bit 4 token)) of Inl e \<Rightarrow> Inl e | Inr (literalLength, cursor2) \<Rightarrow>
        if literalLength > length input - cursor2 \<or> literalLength > maximum - length output
        then Inl (Errorf ''LZ4 literal exceeds input or output limit'')
        else
          let output1 = output @ slice cursor2 (cursor2 + literalLength) input; cursor3 = cursor2 + literalLength in
          if cursor3 = length input then Inr output1
          else if length input - cursor3 < 2 then Inl (Errorf ''LZ4 match offset is truncated'')
          else
            let offset = unat (input ! cursor3) + unat (input ! (cursor3 + 1)) * 256; cursor4 = cursor3 + 2 in
            if offset = 0 \<or> offset > length output1 then Inl (Errorf ''LZ4 match offset is invalid'')
            else
              case lz4Length input cursor4 (unat (token AND 0x0f)) of Inl e \<Rightarrow> Inl e | Inr (matchLength, cursor5) \<Rightarrow>
              if matchLength + 4 > maximum - length output1 then Inl (Errorf ''LZ4 match exceeds output limit'')
              else decompressLoop input maximum cursor5 (copyMatch output1 offset (matchLength + 4)))"
  by pat_completeness auto
termination
  by (relation "measure (\<lambda>(input, maximum, cursor, output). length input - cursor)")
    (auto dest!: lz4Length_cursor)

declare decompressLoop.simps [simp del]

definition Decompress :: "Decoded \<Rightarrow> int \<Rightarrow> Decoded result" where
  "Decompress decoded maximum =
     (if \<not> dcCompressed decoded then Inr decoded
      else if maximum \<le> 0 \<or> maximum > int (MaxPacketLength - HeaderLength)
      then Inl (Errorf ''invalid decompression limit'')
      else
        rbind (decompressLoop (dcPayload decoded) (nat maximum) 0 []) (\<lambda>output.
        if length output = 0 then Inl (Errorf ''LZ4 block expands to an empty payload'')
        else Inr (decoded\<lparr>dcPayload := output, dcCompressed := False\<rparr>)))"

section \<open>Matches\<close>

lemma copyMatch_eq:
  assumes "0 < offset" "offset \<le> length out"
  shows "copyMatch out offset n = out @ map (\<lambda>i. out ! (length out - offset + i mod offset)) [0..<n]"
  using assms
proof (induction n arbitrary: out)
  case (Suc n)
  let ?c = "out ! (length out - offset)"
  have "copyMatch out offset (Suc n) = (out @ [?c]) @
      map (\<lambda>i. (out @ [?c]) ! (length (out @ [?c]) - offset + i mod offset)) [0..<n]"
    using Suc.IH [of "out @ [?c]"] Suc.prems by simp
  also have "map (\<lambda>i. (out @ [?c]) ! (length (out @ [?c]) - offset + i mod offset)) [0..<n]
      = map (\<lambda>i. out ! (length out - offset + Suc i mod offset)) [0..<n]"
  proof (rule map_cong [OF refl])
    fix i assume "i \<in> set [0..<n]"
    show "(out @ [?c]) ! (length (out @ [?c]) - offset + i mod offset) = out ! (length out - offset + Suc i mod offset)"
    proof (cases "Suc (i mod offset) = offset")
      case True
      then show ?thesis using Suc.prems by (simp add: mod_Suc nth_append)
    next
      case False
      then have "Suc (i mod offset) < offset" using Suc.prems(1) by (metis Suc_lessI mod_less_divisor)
      then have "length (out @ [?c]) - offset + i mod offset = length out - offset + Suc i mod offset"
        "length out - offset + Suc i mod offset < length out"
        using Suc.prems by (simp_all add: mod_Suc)
      then show ?thesis by (simp only: nth_append if_True)
    qed
  qed
  also have "(out @ [?c]) @ map (\<lambda>i. out ! (length out - offset + Suc i mod offset)) [0..<n]
      = out @ map (\<lambda>i. out ! (length out - offset + i mod offset)) [0..<Suc n]"
    by (simp add: upt_conv_Cons [of 0 "Suc n"] map_Suc_upt [symmetric] comp_def del: upt_Suc)
  finally show ?case .
qed simp

lemma length_copyMatch [simp]: "length (copyMatch out offset n) = length out + n"
  by (induction out offset n rule: copyMatch.induct) auto

section \<open>Bounds\<close>

lemma decompressLoop_bound:
  "decompressLoop input maximum cursor out = Inr r \<Longrightarrow> length out \<le> maximum \<Longrightarrow> length r \<le> maximum"
proof (induction input maximum cursor out rule: decompressLoop.induct)
  case (1 input maximum cursor out)
  show ?case
  proof (cases "cursor \<ge> length input")
    case True
    then show ?thesis using "1.prems" by (simp add: decompressLoop.simps)
  next
    case False
    from "1.prems"(1) False obtain l c where l: "lz4Length input (cursor + 1) (unat (drop_bit 4 (input ! cursor))) = Inr (l, c)"
      by (auto simp: decompressLoop.simps [of input] Let_def split: sum.splits prod.splits)
    let ?o = "out @ slice c (c + l) input"
    have lim: "l \<le> length input - c" "l \<le> maximum - length out"
      using "1.prems"(1) False l by (auto simp: decompressLoop.simps [of input maximum cursor] Let_def split: if_splits)
    then have o: "length ?o \<le> maximum" using "1.prems"(2) by simp
    show ?thesis
    proof (cases "c + l = length input")
      case True
      then show ?thesis using "1.prems"(1) False l lim o by (auto simp: decompressLoop.simps [of input maximum cursor] Let_def)
    next
      case ne: False
      let ?off = "unat (input ! (c + l)) + unat (input ! (c + l + 1)) * 256"
      obtain ml c' where m: "lz4Length input (c + l + 2) (unat (input ! cursor AND 0x0f)) = Inr (ml, c')"
        and f: "\<not> length input - (c + l) < 2" "\<not> (?off = 0 \<or> ?off > length ?o)" "\<not> ml + 4 > maximum - length ?o"
        and r: "decompressLoop input maximum c' (copyMatch ?o ?off (ml + 4)) = Inr r"
        using "1.prems"(1) False l lim ne
        by (auto simp: decompressLoop.simps [of input maximum cursor] Let_def split: sum.splits prod.splits if_splits)
      have "length (copyMatch ?o ?off (ml + 4)) \<le> maximum" using f(3) o by simp
      then show ?thesis
        using "1.IH" [OF False refl refl l refl _ refl refl ne f(1) refl refl f(2) m refl f(3) r] lim by auto
    qed
  qed
qed

section \<open>Blocks\<close>

text \<open>
  The LZ4 block format, from the side of a compressor: a block is a list of sequences, each some
  literals and a match of at least four bytes at an offset into what has been produced, and final
  literals.
\<close>

type_synonym sequence = "bytes \<times> nat \<times> nat"

definition lengthNibble :: "nat \<Rightarrow> nat" where
  "lengthNibble n = min n 15"

definition lengthBytes :: "nat \<Rightarrow> bytes" where
  "lengthBytes n = (if n < 15 then [] else replicate ((n - 15) div 255) 255 @ [of_nat ((n - 15) mod 255)])"

fun encodeSequence :: "sequence \<Rightarrow> bytes" where
  "encodeSequence (literals, offset, n) =
     [of_nat (16 * lengthNibble (length literals) + lengthNibble (n - 4))] @ lengthBytes (length literals) @ literals
     @ [of_nat (offset mod 256), of_nat (offset div 256)] @ lengthBytes (n - 4)"

definition encodeBlock :: "sequence list \<Rightarrow> bytes \<Rightarrow> bytes" where
  "encodeBlock sequences literals = concat (map encodeSequence sequences)
     @ [of_nat (16 * lengthNibble (length literals))] @ lengthBytes (length literals) @ literals"

text \<open>A match repeats the last \<open>offset\<close> bytes for as long as it lasts.\<close>

fun expandSequence :: "bytes \<Rightarrow> sequence \<Rightarrow> bytes" where
  "expandSequence out (literals, offset, n) =
     (let produced = out @ literals
      in produced @ map (\<lambda>i. produced ! (length produced - offset + i mod offset)) [0..<n])"

fun wfSequences :: "bytes \<Rightarrow> sequence list \<Rightarrow> bool" where
  "wfSequences out [] = True"
| "wfSequences out ((literals, offset, n) # rest) = (0 < offset \<and> offset \<le> length out + length literals \<and> offset < 65536
     \<and> 4 \<le> n \<and> wfSequences (expandSequence out (literals, offset, n)) rest)"

definition expandBlock :: "bytes \<Rightarrow> sequence list \<Rightarrow> bytes \<Rightarrow> bytes" where
  "expandBlock out sequences literals = foldl expandSequence out sequences @ literals"

lemma lz4LengthLoop_bytes:
  "r < 255 \<Longrightarrow> len + 255 * k + r \<le> MaxPacketLength \<Longrightarrow>
   lz4LengthLoop (pre @ replicate k 255 @ [of_nat r] @ post) (length pre) len = Inr (len + 255 * k + r, length pre + k + 1)"
proof (induction k arbitrary: pre len)
  case 0
  have "(pre @ replicate 0 255 @ [of_nat r] @ post) ! length pre = of_nat r" "unat (of_nat r :: byte) = r"
    using 0 by (simp_all add: unat_of_nat_byte)
  then show ?case using 0 by (simp add: lz4LengthLoop.simps [of _ "length pre"])
next
  case (Suc k)
  let ?i = "pre @ replicate (Suc k) 255 @ [of_nat r] @ post"
  have "lz4LengthLoop ?i (length (pre @ [255])) (len + 255) = Inr (len + 255 + 255 * k + r, length (pre @ [255]) + k + 1)"
    using Suc.IH [of "len + 255" "pre @ [255]"] Suc.prems by simp
  moreover have "?i ! length pre = 255" by simp
  ultimately show ?case
    using Suc.prems by (subst lz4LengthLoop.simps) (simp add: MaxPacketLength_def)
qed

lemma lz4Length_bytes:
  assumes "n \<le> MaxPacketLength" "c = length pre"
  shows "lz4Length (pre @ lengthBytes n @ post) c (lengthNibble n) = Inr (n, length pre + length (lengthBytes n))"
proof (cases "n < 15")
  case False
  have e: "15 + 255 * ((n - 15) div 255) + (n - 15) mod 255 = n" using False by (simp add: mult_div_mod_eq)
  have "(n - 15) mod 255 < 255" by simp
  from lz4LengthLoop_bytes [OF this, of 15 "(n - 15) div 255" pre post] assms(1) False
  show ?thesis unfolding e by (simp add: lz4Length_def lengthBytes_def lengthNibble_def assms(2))
qed (simp add: lz4Length_def lengthBytes_def lengthNibble_def assms(2))

lemma offset_bytes: "offset < 65536 \<Longrightarrow> unat (of_nat (offset mod 256) :: byte) + unat (of_nat (offset div 256) :: byte) * 256 = offset"
proof -
  assume "offset < 65536"
  then have "offset div 256 < 256" by (simp add: div_less_iff_less_mult)
  then show ?thesis by (simp add: unat_of_nat_byte)
qed

lemma lengthNibble_less: "lengthNibble n < 16"
  by (simp add: lengthNibble_def)

lemma token_nibbles:
  "unat (drop_bit 4 (of_nat (16 * lengthNibble a + lengthNibble b) :: byte)) = lengthNibble a"
  "unat ((of_nat (16 * lengthNibble a + lengthNibble b) :: byte) AND 0x0f) = lengthNibble b"
  using nibbles_of_byte [OF lengthNibble_less lengthNibble_less, of a b] lengthNibble_less [of a] lengthNibble_less [of b]
  by (simp_all add: unat_of_nat_byte)

lemma decompressLoop_match:
  assumes "c < length input" "lz4Length input (c + 1) (unat (drop_bit 4 (input ! c))) = Inr (m, c2)"
    and "m \<le> length input - c2" "m \<le> maximum - length out" "slice c2 (c2 + m) input = literals"
    and "c3 = c2 + m" "c3 + 2 \<le> length input" "unat (input ! c3) + unat (input ! (c3 + 1)) * 256 = offset"
    and "0 < offset" "offset \<le> length (out @ literals)"
    and "lz4Length input (c3 + 2) (unat (input ! c AND 0x0f)) = Inr (k, c5)" "k + 4 \<le> maximum - length (out @ literals)"
  shows "decompressLoop input maximum c out = decompressLoop input maximum c5 (copyMatch (out @ literals) offset (k + 4))"
proof -
  have "\<not> length input - (c2 + m) < 2" "c2 + m \<noteq> length input" using assms(6,7) by simp_all
  then show ?thesis
    by (subst decompressLoop.simps) (use assms in \<open>simp add: Let_def del: One_nat_def add_2_eq_Suc'\<close>)
qed

lemma decompress_sequence:
  assumes "0 < offset" "offset \<le> length out + length literals" "offset < 65536" "4 \<le> n"
    and "length out + length literals + n \<le> maximum" "maximum \<le> MaxPacketLength"
    and input: "input = pre @ encodeSequence (literals, offset, n) @ rest"
  shows "decompressLoop input maximum (length pre) out
    = decompressLoop input maximum (length (pre @ encodeSequence (literals, offset, n))) (expandSequence out (literals, offset, n))"
proof -
  define t :: byte where "t = of_nat (16 * lengthNibble (length literals) + lengthNibble (n - 4))"
  note nib = token_nibbles [of "length literals" "n - 4", folded t_def]
  let ?c2 = "length pre + 1 + length (lengthBytes (length literals))"
  let ?c3 = "?c2 + length literals"
  let ?ob = "[of_nat (offset mod 256), of_nat (offset div 256)] :: bytes"
  have e: "input = pre @ [t] @ lengthBytes (length literals) @ literals @ ?ob @ lengthBytes (n - 4) @ rest"
    by (simp add: input t_def)
  have tok: "input ! length pre = t" by (simp add: e)
  have l1: "lz4Length input (length pre + 1) (unat (drop_bit 4 t)) = Inr (length literals, ?c2)"
    using lz4Length_bytes [of "length literals" "length pre + 1" "pre @ [t]" "literals @ ?ob @ lengthBytes (n - 4) @ rest"] assms(5,6)
    by (simp add: e nib)
  have sl: "slice ?c2 ?c3 input = literals" by (simp add: e slice_def)
  have ln: "length input = ?c3 + 2 + length (lengthBytes (n - 4)) + length rest" by (simp add: e)
  have ob: "input ! ?c3 = of_nat (offset mod 256)" "input ! (?c3 + 1) = of_nat (offset div 256)" by (simp_all add: e nth_append)
  have l2: "lz4Length input (?c3 + 2) (unat (t AND 0x0f)) = Inr (n - 4, ?c3 + 2 + length (lengthBytes (n - 4)))"
    using lz4Length_bytes [of "n - 4" "?c3 + 2" "pre @ [t] @ lengthBytes (length literals) @ literals @ ?ob" rest] assms(5,6)
    by (simp add: e nib)
  have off: "unat (input ! ?c3) + unat (input ! (?c3 + 1)) * 256 = offset" unfolding ob by (rule offset_bytes [OF assms(3)])
  have "decompressLoop input maximum (length pre) out
      = decompressLoop input maximum (?c3 + 2 + length (lengthBytes (n - 4))) (copyMatch (out @ literals) offset (n - 4 + 4))"
    by (rule decompressLoop_match [OF _ l1 [folded tok] _ _ sl refl _ off assms(1) _ l2 [folded tok]]) (use assms ln in auto)
  moreover have "copyMatch (out @ literals) offset (n - 4 + 4) = expandSequence out (literals, offset, n)"
    using copyMatch_eq [of offset "out @ literals" n] assms(1,2,4) by (simp add: Let_def)
  moreover have "length (pre @ encodeSequence (literals, offset, n)) = ?c3 + 2 + length (lengthBytes (n - 4))" by simp
  ultimately show ?thesis by metis
qed

lemma decompress_last:
  assumes "length out + length literals \<le> maximum" "maximum \<le> MaxPacketLength"
    and input: "input = pre @ [of_nat (16 * lengthNibble (length literals))] @ lengthBytes (length literals) @ literals"
  shows "decompressLoop input maximum (length pre) out = Inr (out @ literals)"
proof -
  let ?c2 = "length pre + 1 + length (lengthBytes (length literals))"
  have l1: "lz4Length input (length pre + 1) (unat (drop_bit 4 (input ! length pre))) = Inr (length literals, ?c2)"
    using lz4Length_bytes [of "length literals" "length pre + 1" "pre @ [of_nat (16 * lengthNibble (length literals))]" literals]
      token_nibbles(1) [of "length literals" 0] assms(1,2)
    by (simp add: input lengthNibble_def [of 0])
  have "slice ?c2 (?c2 + length literals) input = literals" "length input = ?c2 + length literals" by (simp_all add: input slice_def)
  then show ?thesis by (subst decompressLoop.simps) (use assms(1,2) l1 in \<open>simp add: Let_def\<close>)
qed

lemma length_expand: "length (expandSequence out s) = length out + length (fst s) + snd (snd s)"
  by (cases s) (simp add: Let_def)

lemma length_foldl_expand: "length out \<le> length (foldl expandSequence out ss)"
proof (induction ss arbitrary: out)
  case (Cons s ss)
  from Cons [of "expandSequence out s"] show ?case by (simp add: length_expand)
qed simp

lemma decompress_block:
  "wfSequences out sequences \<Longrightarrow> length (expandBlock out sequences literals) \<le> maximum \<Longrightarrow> maximum \<le> MaxPacketLength \<Longrightarrow>
   decompressLoop (pre @ encodeBlock sequences literals) maximum (length pre) out = Inr (expandBlock out sequences literals)"
proof (induction sequences arbitrary: pre out)
  case Nil
  have "expandBlock out [] literals = out @ literals" by (simp add: expandBlock_def)
  with Nil decompress_last [of out literals maximum "pre @ encodeBlock [] literals" pre] show ?case by (simp add: encodeBlock_def)
next
  case (Cons s ss)
  obtain l off n where s: "s = (l, off, n)" by (cases s) auto
  have e: "encodeBlock (s # ss) literals = encodeSequence s @ encodeBlock ss literals"
    and x: "expandBlock out (s # ss) literals = expandBlock (expandSequence out s) ss literals"
    by (simp_all add: encodeBlock_def expandBlock_def)
  have wf: "0 < off" "off \<le> length out + length l" "off < 65536" "4 \<le> n" "wfSequences (expandSequence out s) ss"
    using Cons.prems(1) by (simp_all add: s del: expandSequence.simps)
  have "length (expandSequence out s) \<le> length (expandBlock (expandSequence out s) ss literals)"
    using length_foldl_expand [of "expandSequence out s" ss] by (simp add: expandBlock_def)
  then have "length out + length l + n \<le> maximum" using Cons.prems(2) unfolding x by (simp add: length_expand s del: expandSequence.simps)
  from decompress_sequence [OF wf(1-4) this Cons.prems(3) refl, of pre "encodeBlock ss literals", folded s]
    Cons.IH [OF wf(5), of "pre @ encodeSequence s"] Cons.prems(2,3)
  show ?case unfolding e x by simp
qed

section \<open>Properties\<close>

definition toyCompressed :: "bytes \<Rightarrow> Decoded" where
  "toyCompressed payload =
     \<lparr> dcRouting = \<lparr> rhPacketID = 1, rhDestination = ''8056c2e21c'', rhSource = ''0000000001'', rhFlags = 0, rhHops = 0,
         rhCipher = 0, rhFragmented = False, rhExtendedArmor = False \<rparr>,
       dcAuthenticator = replicate 8 0, dcVerb = VerbNetworkConfigRequest, dcCompressed = True, dcPayload = payload \<rparr>"

definition toySequences :: "sequence list" where
  "toySequences = [([1, 2, 3], 2, 5), ([], 8, 4)]"

text \<open>
  Decompression inverts LZ4 block encoding: for any list of sequences (literals, offset and match
  length, as the format defines them, with overlapping matches) and final literals that expand to
  between one byte and the output limit, \<^verbatim>\<open>Decompress\<close> of the encoded block returns the packet with
  exactly the expansion as its payload and the compressed flag cleared.
\<close>
theorem decompress_inverts:
  assumes "dcCompressed decoded" "dcPayload decoded = encodeBlock sequences literals"
    and "wfSequences [] sequences" "expandBlock [] sequences literals \<noteq> []"
    and "int (length (expandBlock [] sequences literals)) \<le> maximum" "maximum \<le> int (MaxPacketLength - HeaderLength)"
  shows "Decompress decoded maximum
    = Inr (decoded\<lparr>dcPayload := expandBlock [] sequences literals, dcCompressed := False\<rparr>)"
proof -
  have "0 < maximum" using assms(4,5) by (cases "expandBlock [] sequences literals") auto
  moreover have "length (expandBlock [] sequences literals) \<le> nat maximum" "nat maximum \<le> MaxPacketLength"
    using assms(5,6) by linarith+
  from decompress_block [OF assms(3) this, of "[]"]
  have "decompressLoop (dcPayload decoded) (nat maximum) 0 [] = Inr (expandBlock [] sequences literals)" by (simp add: assms(2))
  ultimately show ?thesis using assms(1,4,6) by (simp add: Decompress_def)
qed

theorem decompress_inverts_witness:
  "Decompress (toyCompressed (encodeBlock toySequences [9])) 64 = Inr ((toyCompressed [1, 2, 3, 2, 3, 2, 3, 2, 1, 2, 3, 2, 9])\<lparr>dcCompressed := False\<rparr>)"
proof -
  have x: "expandBlock [] toySequences [9] = [1, 2, 3, 2, 3, 2, 3, 2, 1, 2, 3, 2, 9]" by code_simp
  show ?thesis
    using decompress_inverts [of "toyCompressed (encodeBlock toySequences [9])" toySequences "[9]" 64, unfolded x]
    by (simp add: toyCompressed_def toySequences_def MaxPacketLength_def HeaderLength_def)
qed

text \<open>
  Decompression is total and bounded: whatever the packet carries, \<^verbatim>\<open>Decompress\<close> either returns one
  of its errors or a packet whose payload is not empty and no longer than the limit, which it leaves
  otherwise unchanged; a packet that is not compressed is returned as it is, and a limit that is not
  positive or that exceeds the payload capacity of a packet is refused.
\<close>
theorem decompress_bounded:
  "case Decompress decoded maximum of
     Inl e \<Rightarrow> dcCompressed decoded
   | Inr d \<Rightarrow> if dcCompressed decoded
             then dcPayload d \<noteq> [] \<and> int (length (dcPayload d)) \<le> maximum \<and> maximum \<le> int (MaxPacketLength - HeaderLength)
               \<and> d = decoded\<lparr>dcPayload := dcPayload d, dcCompressed := False\<rparr>
             else d = decoded"
proof (cases "decompressLoop (dcPayload decoded) (nat maximum) 0 []")
  case (Inr r)
  with decompressLoop_bound [OF Inr] show ?thesis by (auto simp: Decompress_def)
qed (simp add: Decompress_def)

end
