(* ===== verification/Reassembly.thy ===== *)
theory Reassembly
  imports Packet
begin

unbundle bit_operations_syntax

text \<open>
  \<^verbatim>\<open>internal/zerotier/transport/reassembly.go\<close>: the bounded table of partially received packets. The
  table maps (endpoint, packet ID) to a partial packet; the Go code mutates partial packets through
  a pointer held in the table, which is an update of the table here. The lemmas show that the table
  stays within its slot and byte budgets whatever arrives, and that the datagrams of a fragmented
  packet reassemble to it in whatever order they arrive.
\<close>

definition reassemblyTTL :: duration where "reassemblyTTL = 5 * Second"
definition maxReassemblySlots :: nat where "maxReassemblySlots = 32"

type_synonym reassemblyKey = "AddrPort \<times> uint64"

record partialPacket =
  ppCreated :: time
  ppFirst :: bytes
  ppTotal :: byte
  ppBytes :: nat
  ppFragments :: "(byte, bytes) fmap"

type_synonym reassembler = "(reassemblyKey, partialPacket) fmap"

definition newReassembler :: reassembler where
  "newReassembler = fmempty"

definition expire :: "time \<Rightarrow> reassembler \<Rightarrow> reassembler" where
  "expire now m = fmfilter (\<lambda>k. case fmlookup m k of
     Some p \<Rightarrow> \<not> timeSub now (ppCreated p) \<ge> reassemblyTTL | None \<Rightarrow> False) m"

definition slot :: "reassemblyKey \<Rightarrow> time \<Rightarrow> reassembler \<Rightarrow> (partialPacket \<times> reassembler) result" where
  "slot key now m = (case fmlookup m key of
     Some p \<Rightarrow> Inr (p, m)
   | None \<Rightarrow>
       if fcard (fmdom m) \<ge> maxReassemblySlots then Inl (Errorf ''fragment reassembly capacity exhausted'')
       else let p = \<lparr> ppCreated = now, ppFirst = [], ppTotal = 0, ppBytes = 0, ppFragments = fmempty \<rparr>
            in Inr (p, fmupd key p m))"

text \<open>The assembly loop from fragment \<open>number\<close>: \<open>None\<close> when a fragment is missing.\<close>

function assemble :: "(byte, bytes) fmap \<Rightarrow> nat \<Rightarrow> nat \<Rightarrow> bytes \<Rightarrow> bytes option result" where
  "assemble fragments totalFragments number assembled =
     (if number < totalFragments then
        (case fmlookup fragments (of_nat number) of
           None \<Rightarrow> Inr None
         | Some payload \<Rightarrow>
             if length assembled + length payload > MaxPacketLength
             then Inl (Errorf ''reassembled packet exceeds %d bytes'')
             else assemble fragments totalFragments (Suc number) (assembled @ payload))
      else Inr (Some assembled))"
  by pat_completeness auto
termination
  by (relation "measure (\<lambda>(f, totalFragments, number, a). totalFragments - number)") auto

declare assemble.simps [simp del]

definition complete ::
    "reassemblyKey \<Rightarrow> partialPacket \<Rightarrow> reassembler \<Rightarrow> bytes option result \<times> reassembler" where
  "complete key p m =
     (if length (ppFirst p) = 0 \<or> ppTotal p = 0
         \<or> int (fcard (fmdom (ppFragments p))) \<noteq> int (unat (ppTotal p)) - 1
      then (Inr None, m)
      else case assemble (ppFragments p) (unat (ppTotal p)) 1 (ppFirst p) of
        Inr None \<Rightarrow> (Inr None, m)
      | Inl e \<Rightarrow> (Inl e, fmdrop key m)
      | Inr (Some assembled) \<Rightarrow> (Inr (Some assembled), fmdrop key m))"

text \<open>What \<^verbatim>\<open>push\<close> does with a fragment, and with the head of a packet, once it has its slot.\<close>

definition storeFragment ::
    "reassemblyKey \<Rightarrow> Fragment \<Rightarrow> partialPacket \<Rightarrow> reassembler \<Rightarrow> bytes option result \<times> reassembler" where
  "storeFragment key fragment p m =
     (if ppTotal p \<noteq> 0 \<and> ppTotal p \<noteq> fgTotalFragments fragment
      then (Inl (Errorf ''fragment total changed within packet''), fmdrop key m)
      else
        let p = p\<lparr>ppTotal := fgTotalFragments fragment\<rparr> in
        case fmlookup (ppFragments p) (fgNumber fragment) of
          Some _ \<Rightarrow> complete key p (fmupd key p m)
        | None \<Rightarrow>
            if ppBytes p + length (fgPayload fragment) > MaxPacketLength
            then (Inl (Errorf ''fragment set exceeds reassembly byte budget''), fmdrop key m)
            else
              let p = p\<lparr>ppFragments := fmupd (fgNumber fragment) (fgPayload fragment) (ppFragments p),
                        ppBytes := ppBytes p + length (fgPayload fragment)\<rparr>
              in complete key p (fmupd key p m))"

definition storeHead ::
    "reassemblyKey \<Rightarrow> bytes \<Rightarrow> partialPacket \<Rightarrow> reassembler \<Rightarrow> bytes option result \<times> reassembler" where
  "storeHead key datagram p m =
     (if length (ppFirst p) = 0 then
        if ppBytes p + length datagram > MaxPacketLength
        then (Inl (Errorf ''fragment set exceeds reassembly byte budget''), fmdrop key m)
        else
          let p = p\<lparr>ppFirst := datagram, ppBytes := ppBytes p + length datagram\<rparr>
          in complete key p (fmupd key p m)
      else complete key p m)"

definition pushFragment ::
    "bytes \<Rightarrow> AddrPort \<Rightarrow> time \<Rightarrow> reassembler \<Rightarrow> bytes option result \<times> reassembler" where
  "pushFragment datagram endpoint now m =
     (case ParseFragment datagram of Inl e \<Rightarrow> (Inl e, m) | Inr fragment \<Rightarrow>
      if fgNumber fragment = 0 \<or> fgTotalFragments fragment < 2
         \<or> fgTotalFragments fragment > of_nat MaxPacketFragments
         \<or> fgNumber fragment \<ge> fgTotalFragments fragment
      then (Inl (Errorf ''fragment numbering is invalid''), m)
      else
        let key = (endpoint, fgPacketID fragment) in
        case slot key now m of Inl e \<Rightarrow> (Inl e, m) | Inr (p, m) \<Rightarrow> storeFragment key fragment p m)"

definition pushHead ::
    "bytes \<Rightarrow> AddrPort \<Rightarrow> time \<Rightarrow> reassembler \<Rightarrow> bytes option result \<times> reassembler" where
  "pushHead datagram endpoint now m =
     (case ParseRouting datagram of Inl e \<Rightarrow> (Inl e, m) | Inr routing \<Rightarrow>
      if \<not> rhFragmented routing then (Inr (Some datagram), m)
      else
        let key = (endpoint, rhPacketID routing) in
        case slot key now m of Inl e \<Rightarrow> (Inl e, m) | Inr (p, m) \<Rightarrow> storeHead key datagram p m)"

text \<open>\<^verbatim>\<open>push\<close>: \<open>Inr (Some d)\<close> is \<^verbatim>\<open>(d, true, nil)\<close> and \<open>Inr None\<close> is \<^verbatim>\<open>(nil, false, nil)\<close>.\<close>

definition push ::
    "bytes \<Rightarrow> AddrPort \<Rightarrow> time \<Rightarrow> reassembler \<Rightarrow> bytes option result \<times> reassembler" where
  "push datagram endpoint now m =
     (let m = expire now m in
      if IsFragment datagram then pushFragment datagram endpoint now m
      else pushHead datagram endpoint now m)"

section \<open>Budgets\<close>

definition fragBytes :: "(byte, bytes) fmap \<Rightarrow> nat" where
  "fragBytes fr = (\<Sum>k \<in> fset (fmdom fr). length (the (fmlookup fr k)))"

definition wfPartial :: "partialPacket \<Rightarrow> bool" where
  "wfPartial p = (ppBytes p = length (ppFirst p) + fragBytes (ppFragments p)
     \<and> ppBytes p \<le> MaxPacketLength \<and> unat (ppTotal p) \<le> MaxPacketFragments
     \<and> (\<forall>k. k |\<in>| fmdom (ppFragments p) \<longrightarrow> k \<noteq> 0 \<and> k < ppTotal p))"

definition reassemblerInv :: "reassembler \<Rightarrow> bool" where
  "reassemblerInv m = (fcard (fmdom m) \<le> maxReassemblySlots \<and> (\<forall>k p. fmlookup m k = Some p \<longrightarrow> wfPartial p))"

text \<open>The bytes the table holds.\<close>

definition heldBytes :: "reassembler \<Rightarrow> nat" where
  "heldBytes m = (\<Sum>k \<in> fset (fmdom m). let p = the (fmlookup m k) in
     length (ppFirst p) + fragBytes (ppFragments p))"

lemma fragBytes_empty [simp]: "fragBytes fmempty = 0"
  by (simp add: fragBytes_def)

lemma fragBytes_upd: "fmlookup fr k = None \<Longrightarrow> fragBytes (fmupd k v fr) = length v + fragBytes fr"
proof -
  assume n: "fmlookup fr k = None"
  then have "k \<notin> fset (fmdom fr)" by (simp add: fmdom_notI)
  then have "(\<Sum>j \<in> fset (fmdom fr). length (the (fmlookup (fmupd k v fr) j))) = fragBytes fr"
    unfolding fragBytes_def by (intro sum.cong) auto
  with \<open>k \<notin> fset (fmdom fr)\<close> show ?thesis by (simp add: fragBytes_def)
qed

lemma fcard_drop: "fcard (fmdom (fmdrop k m)) \<le> fcard (fmdom m)"
  by (intro fcard_mono) auto

lemma inv_drop: "reassemblerInv m \<Longrightarrow> reassemblerInv (fmdrop k m)"
  using fcard_drop [of k m] by (auto simp: reassemblerInv_def)

lemma inv_upd: "reassemblerInv m \<Longrightarrow> fmlookup m k \<noteq> None \<Longrightarrow> wfPartial p \<Longrightarrow> reassemblerInv (fmupd k p m)"
  by (auto simp: reassemblerInv_def finsert_absorb fmlookup_dom_iff)

lemma expire_lookup:
  "fmlookup (expire now m) k = (case fmlookup m k of
     Some p \<Rightarrow> if timeSub now (ppCreated p) \<ge> reassemblyTTL then None else Some p | None \<Rightarrow> None)"
  by (simp add: expire_def split: option.splits)

lemma expire_dom: "fmdom (expire now m) |\<subseteq>| fmdom m"
  by (auto simp: expire_def)

lemma expire_inv: "reassemblerInv m \<Longrightarrow> reassemblerInv (expire now m)"
  using fcard_mono [OF expire_dom [of now m]]
  by (auto simp: reassemblerInv_def expire_lookup split: option.splits if_splits)

lemma slot_inv:
  assumes "reassemblerInv m" "slot key now m = Inr (p, m')"
  shows "reassemblerInv m' \<and> fmlookup m' key = Some p"
proof (cases "fmlookup m key")
  case None
  with assms have m': "m' = fmupd key p m" "fcard (fmdom m) < maxReassemblySlots" "wfPartial p"
    by (auto simp: slot_def Let_def wfPartial_def MaxPacketLength_def split: if_splits)
  moreover have "fcard (finsert key (fmdom m)) \<le> Suc (fcard (fmdom m))"
    using None by (simp add: fcard_finsert_disjoint fmdom_notI)
  ultimately show ?thesis using assms(1) by (auto simp: reassemblerInv_def)
qed (use assms in \<open>auto simp: slot_def\<close>)

lemma complete_inv: "reassemblerInv m \<Longrightarrow> reassemblerInv (snd (complete key p m))"
  by (auto simp: complete_def inv_drop split: sum.splits option.splits)

lemma inv_lookup: "reassemblerInv m \<Longrightarrow> fmlookup m k = Some p \<Longrightarrow> wfPartial p"
  unfolding reassemblerInv_def by blast

lemma storeHead_inv:
  assumes "reassemblerInv m" "fmlookup m k = Some p"
  shows "reassemblerInv (snd (storeHead k d p m))"
proof -
  have "wfPartial (p\<lparr>ppFirst := d, ppBytes := ppBytes p + length d\<rparr>)"
    if "ppFirst p = []" "ppBytes p + length d \<le> MaxPacketLength"
    using inv_lookup [OF assms] that by (simp add: wfPartial_def)
  with assms show ?thesis
    by (auto simp: storeHead_def Let_def inv_drop intro!: complete_inv inv_upd)
qed

lemma storeFragment_inv:
  assumes "reassemblerInv m" "fmlookup m k = Some p"
    and "fgNumber f \<noteq> 0" "fgNumber f < fgTotalFragments f" "unat (fgTotalFragments f) \<le> MaxPacketFragments"
  shows "reassemblerInv (snd (storeFragment k f p m))"
proof -
  let ?p = "p\<lparr>ppTotal := fgTotalFragments f\<rparr>"
  have wf: "wfPartial ?p" if "ppTotal p = 0 \<or> ppTotal p = fgTotalFragments f"
    using inv_lookup [OF assms(1,2)] that assms(5) by (auto simp: wfPartial_def)
  moreover have "wfPartial (?p\<lparr>ppFragments := fmupd (fgNumber f) (fgPayload f) (ppFragments p),
      ppBytes := ppBytes p + length (fgPayload f)\<rparr>)"
    if "ppTotal p = 0 \<or> ppTotal p = fgTotalFragments f" "fmlookup (ppFragments p) (fgNumber f) = None"
      "ppBytes p + length (fgPayload f) \<le> MaxPacketLength"
    using wf [OF that(1)] that(2,3) assms(3,4) by (auto simp: wfPartial_def fragBytes_upd)
  ultimately show ?thesis
    using assms(1,2)
    by (auto simp: storeFragment_def Let_def inv_drop not_less intro!: complete_inv inv_upd split: option.splits)
qed

lemma pushHead_inv:
  assumes "reassemblerInv m"
  shows "reassemblerInv (snd (pushHead d e now m))"
  using assms
  by (auto simp: pushHead_def Let_def dest!: slot_inv [OF assms] intro!: storeHead_inv
      split: sum.splits)

lemma small_total: "\<not> fgTotalFragments f > of_nat MaxPacketFragments \<Longrightarrow> unat (fgTotalFragments f) \<le> MaxPacketFragments"
  by (simp add: MaxPacketFragments_def word_le_nat_alt not_less)

lemma pushFragment_inv:
  assumes "reassemblerInv m"
  shows "reassemblerInv (snd (pushFragment d e now m))"
  using assms
  by (auto simp: pushFragment_def Let_def not_le dest!: slot_inv [OF assms] intro!: storeFragment_inv
      small_total split: sum.splits)

lemma push_inv: "reassemblerInv m \<Longrightarrow> reassemblerInv (snd (push d e now m))"
  by (simp add: push_def Let_def expire_inv pushHead_inv pushFragment_inv)

lemma heldBytes_bound: "reassemblerInv m \<Longrightarrow> heldBytes m \<le> maxReassemblySlots * MaxPacketLength"
proof -
  assume inv: "reassemblerInv m"
  have "heldBytes m \<le> (\<Sum>k \<in> fset (fmdom m). MaxPacketLength)"
    unfolding heldBytes_def
  proof (rule sum_mono)
    fix k assume "k \<in> fset (fmdom m)"
    then obtain p where "fmlookup m k = Some p" by (meson fmlookup_dom_iff)
    with inv_lookup [OF inv this] show "(let p = the (fmlookup m k) in length (ppFirst p) + fragBytes (ppFragments p))
        \<le> MaxPacketLength"
      by (simp add: wfPartial_def)
  qed
  also have "\<dots> = fcard (fmdom m) * MaxPacketLength" by (simp add: fcard.rep_eq)
  also have "\<dots> \<le> maxReassemblySlots * MaxPacketLength"
    using inv by (simp add: reassemblerInv_def)
  finally show ?thesis .
qed

text \<open>A sequence of arriving datagrams, with their endpoints and arrival times.\<close>

fun pushAll :: "(bytes \<times> AddrPort \<times> time) list \<Rightarrow> reassembler \<Rightarrow> bytes option result list \<times> reassembler" where
  "pushAll [] m = ([], m)"
| "pushAll ((d, e, t) # ds) m =
     (let (r, m1) = push d e t m; (rs, m2) = pushAll ds m1 in (r # rs, m2))"

text \<open>
  C35. Memory bound of reassembly: whatever datagrams arrive from whatever endpoints at whatever times,
  the table never holds more than 32 partial packets nor more than 32 packets' worth of bytes, and
  the byte count kept in each slot is exact.
\<close>

theorem reassembly_bounded:
  "let m = snd (pushAll ds newReassembler) in
     fcard (fmdom m) \<le> maxReassemblySlots
     \<and> heldBytes m \<le> maxReassemblySlots * MaxPacketLength
     \<and> fmpred (\<lambda>_ p. ppBytes p = length (ppFirst p) + fragBytes (ppFragments p)) m"
proof -
  have "reassemblerInv (snd (pushAll ds m))" if "reassemblerInv m" for m
    using that
  proof (induction ds m rule: pushAll.induct)
    case (2 d e t ds m)
    then show ?case using push_inv [of m d e t] by (auto simp: Let_def split: prod.splits)
  qed simp
  moreover have "reassemblerInv newReassembler" 
    by (simp add: reassemblerInv_def newReassembler_def fcard.rep_eq)
  ultimately have inv: "reassemblerInv (snd (pushAll ds newReassembler))" by blast
  have "fmpred (\<lambda>_ p. ppBytes p = length (ppFirst p) + fragBytes (ppFragments p))
      (snd (pushAll ds newReassembler))"
    using inv_lookup [OF inv] by (auto simp: fmpred_iff wfPartial_def)
  with inv heldBytes_bound [OF inv] show ?thesis by (simp add: Let_def reassemblerInv_def)
qed

section \<open>Reassembly inverts fragmentation\<close>

lemma ParseFragment_datagramOf:
  assumes "0 < i" "i < n" "n \<le> 7" "13 \<le> length a"
  shows "IsFragment (datagramOf a mtu n i)"
    and "ParseFragment (datagramOf a mtu n i) = Inr \<lparr> fgPacketID = be_word (take 8 a),
      fgDestination = hex_encode (slice 8 13 a), fgTotalFragments = of_nat n, fgNumber = of_nat i,
      fgHops = 0, fgPayload = datagramPayload a mtu i \<rparr>"
proof -
  let ?d = "datagramOf a mtu n i"
  have d: "?d = take 13 a @ [0xff, of_nat (16 * n + i), 0] @ datagramPayload a mtu i"
    using assms by (simp add: datagramOf_def fragmentHeader_def)
  have l: "length (take 13 a) = 13" using assms by simp
  have nth: "?d ! 13 = 0xff" "?d ! 14 = of_nat (16 * n + i)" "?d ! 15 = 0" "16 \<le> length ?d"
    unfolding d using l by (simp_all add: nth_append)
  have sl: "take 8 ?d = take 8 a" "slice 8 13 ?d = slice 8 13 a" "drop 16 ?d = datagramPayload a mtu i"
    unfolding d using assms(4) by (simp_all add: slice_def drop_take)
  show "IsFragment ?d" using nth by (simp add: IsFragment_def FragmentLength_def)
  have p: "ParseNodeID (hex_encode (slice 8 13 a)) = Inr (hex_encode (slice 8 13 a))"
    using assms(4) by simp
  have "drop_bit 4 (?d ! 14) = of_nat n" "(?d ! 14) AND 0x0f = of_nat i"
    unfolding nth using nibbles_of_byte [of n i] assms by simp_all
  then show "ParseFragment ?d = Inr \<lparr> fgPacketID = be_word (take 8 a),
      fgDestination = hex_encode (slice 8 13 a), fgTotalFragments = of_nat n, fgNumber = of_nat i,
      fgHops = 0, fgPayload = datagramPayload a mtu i \<rparr>"
    using nth p by (simp add: ParseFragment_def FragmentLength_def sl)
qed

text \<open>What the slot of packet \<open>a\<close> holds after the datagrams in \<open>X\<close> have arrived.\<close>

definition holds :: "bytes \<Rightarrow> nat \<Rightarrow> nat \<Rightarrow> time \<Rightarrow> nat set \<Rightarrow> partialPacket \<Rightarrow> bool" where
  "holds a mtu n t0 X p = (ppCreated p = t0
     \<and> ppFirst p = (if 0 \<in> X then take mtu a else [])
     \<and> ppTotal p = (if X \<subseteq> {0} then 0 else of_nat n)
     \<and> ppBytes p = (\<Sum>i \<in> X. length (datagramPayload a mtu i))
     \<and> (\<forall>k. fmlookup (ppFragments p) k = (if k \<noteq> 0 \<and> unat k \<in> X then Some (datagramPayload a mtu (unat k)) else None)))"

lemma holds_dom:
  assumes "holds a mtu n t0 X p" "X \<subseteq> {..<n}" "n \<le> 7"
  shows "fcard (fmdom (ppFragments p)) = card (X - {0})"
proof -
  have "fset (fmdom (ppFragments p)) = of_nat ` (X - {0})"
  proof (intro equalityI subsetI)
    fix k assume "k \<in> fset (fmdom (ppFragments p))"
    then obtain v where "fmlookup (ppFragments p) k = Some v" by (meson fmlookup_dom_iff)
    then have "k \<noteq> 0" "unat k \<in> X" using assms(1) by (auto simp: holds_def split: if_splits)
    then show "k \<in> of_nat ` (X - {0})" by (intro image_eqI [of _ _ "unat k"]) (auto simp: unat_eq_0)
  next
    fix k :: byte assume "k \<in> of_nat ` (X - {0})"
    then obtain i where i: "i \<in> X" "i \<noteq> 0" "k = of_nat i" by auto
    then have u: "unat k = i" using assms(2,3) by (auto simp: unat_of_nat)
    then have "fmlookup (ppFragments p) k = Some (datagramPayload a mtu i)"
      using assms(1) i by (auto simp: holds_def)
    then show "k \<in> fset (fmdom (ppFragments p))" by (simp add: fmdomI)
  qed
  moreover have "inj_on (of_nat :: nat \<Rightarrow> byte) (X - {0})"
  proof (rule inj_onI)
    fix x y assume "x \<in> X - {0}" "y \<in> X - {0}" "(of_nat x :: byte) = of_nat y"
    moreover from this have "x < 256" "y < 256" using assms(2,3) by force+
    ultimately show "x = y" by (metis unat_of_nat_byte)
  qed
  ultimately show ?thesis by (simp add: fcard.rep_eq card_image)
qed

lemma assemble_all:
  assumes "\<And>k. number \<le> k \<Longrightarrow> k < n \<Longrightarrow> fmlookup fr (of_nat k) = Some (f k)"
    and "length acc + length (concat (map f [number..<n])) \<le> MaxPacketLength"
  shows "assemble fr n number acc = Inr (Some (acc @ concat (map f [number..<n])))"
  using assms
proof (induction fr n number acc rule: assemble.induct)
  case (1 fr n number acc)
  show ?case
  proof (cases "number < n")
    case True
    have look: "fmlookup fr (of_nat number) = Some (f number)" using "1.prems"(1) True by simp
    have up: "[number..<n] = number # [Suc number..<n]" using True by (rule upt_conv_Cons)
    have small: "\<not> length acc + length (f number) > MaxPacketLength"
      using "1.prems"(2) unfolding up by simp
    have "assemble fr n (Suc number) (acc @ f number) =
        Inr (Some ((acc @ f number) @ concat (map f [Suc number..<n])))"
      using "1.prems" unfolding up by (intro "1.IH" [OF True look small]) auto
    then show ?thesis using True look small unfolding up by (simp add: assemble.simps [of fr n number])
  qed (simp add: assemble.simps [of fr n number])
qed

lemma payload_sum:
  assumes "length a \<le> mtu + n * (mtu - 16)"
  shows "(\<Sum>i \<in> {..<Suc n}. length (datagramPayload a mtu i)) = length a"
proof -
  have "length (concat (map (datagramPayload a mtu) [0..<Suc n])) = length a"
    unfolding concat_datagramPayload [OF assms] by simp
  then show ?thesis
    by (simp add: length_concat comp_def interv_sum_list_conv_sum_set_nat atLeast0LessThan del: upt_Suc)
qed

lemma complete_holds:
  assumes h: "holds a mtu (Suc n) t0 X p" and X: "X \<subseteq> {..<Suc n}" and n: "0 < n" "n \<le> 6"
    and a: "mtu < length a" "0 < mtu" "length a \<le> mtu + n * (mtu - 16)" "length a \<le> MaxPacketLength"
  shows "complete key p m = (if X = {..<Suc n} then (Inr (Some a), fmdrop key m) else (Inr None, m))"
proof (cases "X = {..<Suc n}")
  case True
  have c: "fcard (fmdom (ppFragments p)) = n"
    using holds_dom [OF h X] n True by (simp add: card_Diff_singleton)
  have not0: "\<not> X \<subseteq> {0}" using True n by auto
  have tot: "ppTotal p = of_nat (Suc n)" "unat (ppTotal p) = Suc n" "ppFirst p = take mtu a"
    using h not0 True n unat_of_nat_byte [of "Suc n"] by (auto simp: holds_def simp del: of_nat_Suc)
  have look: "fmlookup (ppFragments p) (of_nat k) = Some (datagramPayload a mtu k)" if "1 \<le> k" "k < Suc n" for k
    using h that True n unat_of_nat_byte [of k] by (auto simp: holds_def)
  have cc: "take mtu a @ concat (map (datagramPayload a mtu) [1..<Suc n]) = a"
    using concat_datagramPayload [OF a(3)] by (simp add: upt_conv_Cons [of 0] datagramPayload_def del: upt_Suc)
  then have "length (take mtu a) + length (concat (map (datagramPayload a mtu) [1..<Suc n])) \<le> MaxPacketLength"
    using a(4) by (metis length_append)
  from assemble_all [OF look this] have "assemble (ppFragments p) (Suc n) 1 (take mtu a) = Inr (Some a)"
    unfolding cc by simp
  moreover have "ppTotal p \<noteq> 0" using tot(2) by auto
  ultimately show ?thesis using True tot c a by (simp add: complete_def)
next
  case False
  have "X \<noteq> {..<Suc n} \<Longrightarrow> 0 \<in> X \<Longrightarrow> card (X - {0}) < n"
  proof -
    assume "X \<noteq> {..<Suc n}" "0 \<in> X"
    then have "X \<subset> {..<Suc n}" using X by auto
    then have "card X < Suc n" by (metis card_lessThan finite_lessThan psubset_card_mono)
    moreover have "finite X" using X by (rule finite_subset) simp
    ultimately show ?thesis using \<open>0 \<in> X\<close> n by (simp add: card_Diff_singleton)
  qed
  then have "ppFirst p = [] \<or> ppTotal p = 0 \<or> fcard (fmdom (ppFragments p)) < n"
    using h False holds_dom [OF h X] n by (auto simp: holds_def)
  moreover have "unat (ppTotal p) = Suc n" if "ppTotal p \<noteq> 0"
    using h that n unat_of_nat_byte [of "Suc n"] by (auto simp: holds_def simp del: of_nat_Suc split: if_splits)
  ultimately have "complete key p m = (Inr None, m)" by (cases "ppTotal p = 0") (auto simp: complete_def)
  then show ?thesis using False by simp
qed

text \<open>One more datagram arrives.\<close>

lemma holds_new: "holds a mtu n t {} \<lparr> ppCreated = t, ppFirst = [], ppTotal = 0, ppBytes = 0, ppFragments = fmempty \<rparr>"
  by (simp add: holds_def)

lemma holds_head:
  assumes "holds a mtu n t0 X p" "0 \<notin> X" "finite X"
  shows "holds a mtu n t0 (insert 0 X) (p\<lparr>ppFirst := take mtu a, ppBytes := ppBytes p + length (take mtu a)\<rparr>)"
proof -
  have "datagramPayload a mtu 0 = take mtu a" by (simp add: datagramPayload_def)
  with assms show ?thesis by (auto simp: holds_def unat_eq_0)
qed

lemma holds_fragment:
  assumes "holds a mtu n t0 X p" "i \<notin> X" "0 < i" "i < 256" "finite X"
  shows "holds a mtu n t0 (insert i X) (p\<lparr>ppTotal := of_nat n,
      ppFragments := fmupd (of_nat i) (datagramPayload a mtu i) (ppFragments p),
      ppBytes := ppBytes p + length (datagramPayload a mtu i)\<rparr>)"
proof -
  have u: "unat (of_nat i :: byte) = i" using assms(4) by (rule unat_of_nat_byte)
  then have nz: "(of_nat i :: byte) \<noteq> 0" using assms(3) by auto
  have k: "(k = of_nat i) = (unat k = i)" for k :: byte using u by auto
  have s: "\<not> insert i X \<subseteq> {0}" using assms(3) by auto
  show ?thesis using assms u nz s by (auto simp: holds_def k)
qed

definition arrived :: "bytes \<Rightarrow> nat \<Rightarrow> nat \<Rightarrow> AddrPort \<Rightarrow> time \<Rightarrow> nat set \<Rightarrow> reassembler \<Rightarrow> bool" where
  "arrived a mtu n e t0 X m = (let key = (e, be_word (take 8 a)) in
     if X = {} then fmlookup m key = None \<and> fcard (fmdom m) < maxReassemblySlots
     else (\<exists>p. fmlookup m key = Some p \<and> holds a mtu n t0 X p))"

lemma arrived_slot:
  assumes "arrived a mtu n e t0 X m" "timeSub t t0 < reassemblyTTL" "X = {} \<longrightarrow> t = t0"
  obtains p m' where "slot (e, be_word (take 8 a)) t (expire t m) = Inr (p, m')" "holds a mtu n t0 X p"
    "fmlookup m' (e, be_word (take 8 a)) = Some p"
proof (cases "X = {}")
  case True
  have "fcard (fmdom (expire t m)) \<le> fcard (fmdom m)" by (rule fcard_mono [OF expire_dom])
  with True assms have "fmlookup (expire t m) (e, be_word (take 8 a)) = None"
    "\<not> fcard (fmdom (expire t m)) \<ge> maxReassemblySlots"
    by (auto simp: arrived_def expire_lookup)
  moreover have "holds a mtu n t0 X \<lparr> ppCreated = t, ppFirst = [], ppTotal = 0, ppBytes = 0, ppFragments = fmempty \<rparr>"
    using True assms(3) holds_new by simp
  ultimately show ?thesis using that by (simp add: slot_def Let_def)
next
  case False
  with assms obtain p where p: "fmlookup m (e, be_word (take 8 a)) = Some p" "holds a mtu n t0 X p"
    by (auto simp: arrived_def)
  with assms(2) have "fmlookup (expire t m) (e, be_word (take 8 a)) = Some p"
    by (simp add: expire_lookup holds_def)
  with p(2) show ?thesis using that by (simp add: slot_def)
qed

lemma push_arrived:
  assumes ar: "arrived a mtu (Suc n) e t0 X m" "timeSub t t0 < reassemblyTTL" "X = {} \<longrightarrow> t = t0"
    and X: "X \<subseteq> {..<Suc n}" "i < Suc n" "i \<notin> X" and n: "0 < n" "n \<le> 6"
    and a: "mtu < length a" "28 \<le> mtu" "length a \<le> mtu + n * (mtu - 16)" "length a \<le> MaxPacketLength"
    and hd: "a ! 13 \<noteq> 0xff" "(a ! 18) AND 0x40 \<noteq> 0"
  shows "\<exists>m'. push (datagramOf a mtu (Suc n) i) e t m = (if insert i X = {..<Suc n} then Inr (Some a) else Inr None, m')
    \<and> (if insert i X = {..<Suc n} then fmlookup m' (e, be_word (take 8 a)) = None
       else arrived a mtu (Suc n) e t0 (insert i X) m')"
proof -
  let ?key = "(e, be_word (take 8 a))" and ?d = "datagramOf a mtu (Suc n) i"
  obtain p m1 where s: "slot ?key t (expire t m) = Inr (p, m1)" and h: "holds a mtu (Suc n) t0 X p"
    and l: "fmlookup m1 ?key = Some p"
    using arrived_slot [OF ar] by blast
  have fin: "finite X" using X(1) by (rule finite_subset) simp
  have sum: "(\<Sum>j \<in> insert i X. length (datagramPayload a mtu j)) \<le> MaxPacketLength"
    using sum_mono2 [of "{..<Suc n}" "insert i X" "\<lambda>j. length (datagramPayload a mtu j)"] X payload_sum [OF a(3)] a(4)
    by auto
  have budget: "ppBytes p + length (datagramPayload a mtu i) \<le> MaxPacketLength"
    using sum X(3) fin h by (simp add: holds_def)
  have fin_step: "\<exists>m'. complete ?key q (fmupd ?key q m1) = (if insert i X = {..<Suc n} then Inr (Some a) else Inr None, m')
      \<and> (if insert i X = {..<Suc n} then fmlookup m' ?key = None else arrived a mtu (Suc n) e t0 (insert i X) m')"
    if "holds a mtu (Suc n) t0 (insert i X) q" for q
  proof -
    have "complete ?key q (fmupd ?key q m1) =
        (if insert i X = {..<Suc n} then (Inr (Some a), fmdrop ?key (fmupd ?key q m1)) else (Inr None, fmupd ?key q m1))"
      using X a by (intro complete_holds [OF that _ n]) auto
    with that show ?thesis by (auto simp: arrived_def)
  qed
  show ?thesis
  proof (cases "i = 0")
    case True
    have "?d = take mtu a" using True by (simp add: datagramOf_def)
    moreover have "\<not> IsFragment (take mtu a)" using hd(1) a(1,2) by (simp add: IsFragment_def)
    moreover have "ParseRouting (take mtu a) = Inr (routingOf a)"
      using a(1,2) by (simp add: ParseRouting_eq routingOf_take)
    moreover have "rhFragmented (routingOf a)" "rhPacketID (routingOf a) = be_word (take 8 a)"
      using hd(2) by (simp_all add: routingOf_def)
    moreover have "ppFirst p = []" using h X(3) True by (simp add: holds_def)
    moreover have "datagramPayload a mtu i = take mtu a" using True by (simp add: datagramPayload_def)
    ultimately show ?thesis
      using s budget fin_step [of "p\<lparr>ppFirst := take mtu a, ppBytes := ppBytes p + length (take mtu a)\<rparr>"]
        holds_head [OF h _ fin] X(3) True
      by (simp add: push_def pushHead_def storeHead_def Let_def)
  next
    case False
    then have i: "0 < i" "i < Suc n" "Suc n \<le> 7" "13 \<le> length a" using X(2) n a by auto
    have w: "unat (of_nat i :: byte) = i" "unat (of_nat (Suc n) :: byte) = Suc n"
      using i by (simp_all add: unat_of_nat_byte del: of_nat_Suc)
    have ok: "\<not> ((of_nat i :: byte) = 0 \<or> (of_nat (Suc n) :: byte) < 2
         \<or> (of_nat (Suc n) :: byte) > of_nat MaxPacketFragments \<or> (of_nat i :: byte) \<ge> of_nat (Suc n))"
      using w i n by (auto simp: word_less_nat_alt word_le_nat_alt MaxPacketFragments_def simp del: of_nat_Suc)
    have tot: "ppTotal p = 0 \<or> ppTotal p = of_nat (Suc n)" using h by (simp add: holds_def)
    have fresh: "fmlookup (ppFragments p) (of_nat i) = None" using h X(3) w(1) by (simp add: holds_def)
    note pf = ParseFragment_datagramOf [OF i, of mtu]
    let ?q = "p\<lparr>ppTotal := of_nat (Suc n),
      ppFragments := fmupd (of_nat i) (datagramPayload a mtu i) (ppFragments p),
      ppBytes := ppBytes p + length (datagramPayload a mtu i)\<rparr>"
    let ?f = "\<lparr> fgPacketID = be_word (take 8 a), fgDestination = hex_encode (slice 8 13 a),
      fgTotalFragments = of_nat (Suc n), fgNumber = of_nat i, fgHops = 0, fgPayload = datagramPayload a mtu i \<rparr> :: Fragment"
    have "storeFragment ?key ?f p m1 = complete ?key ?q (fmupd ?key ?q m1)"
      using tot fresh budget by (auto simp: storeFragment_def Let_def simp del: of_nat_Suc)
    then have "push ?d e t m = complete ?key ?q (fmupd ?key ?q m1)"
      using pf ok s by (simp add: push_def pushFragment_def Let_def del: of_nat_Suc)
    moreover have "holds a mtu (Suc n) t0 (insert i X) ?q"
      using i by (intro holds_fragment [OF h X(3) _ _ fin]) auto
    ultimately show ?thesis using fin_step [of ?q] by simp
  qed
qed

lemma pushAll_arrived:
  assumes n: "0 < n" "n \<le> 6"
    and a: "mtu < length a" "28 \<le> mtu" "length a \<le> mtu + n * (mtu - 16)" "length a \<le> MaxPacketLength"
    and hd: "a ! 13 \<noteq> 0xff" "(a ! 18) AND 0x40 \<noteq> 0"
  shows "\<lbrakk> arrived a mtu (Suc n) e t0 X m; arr \<noteq> []; distinct (map fst arr); X \<inter> set (map fst arr) = {};
      X \<union> set (map fst arr) = {..<Suc n}; X = {} \<longrightarrow> snd (hd arr) = t0;
      \<forall>(i, t) \<in> set arr. timeSub t t0 < reassemblyTTL \<rbrakk> \<Longrightarrow>
    \<exists>m'. pushAll (map (\<lambda>(i, t). (datagramOf a mtu (Suc n) i, e, t)) arr) m
       = (replicate (length arr - 1) (Inr None) @ [Inr (Some a)], m') \<and> fmlookup m' (e, be_word (take 8 a)) = None"
proof (induction arr arbitrary: X m)
  case (Cons x arr)
  obtain i t where x: "x = (i, t)" by force
  have X: "X \<subseteq> {..<Suc n}" "i < Suc n" "i \<notin> X" using Cons.prems x by auto
  have fut: "timeSub t t0 < reassemblyTTL" "X = {} \<longrightarrow> t = t0" using Cons.prems x by auto
  obtain m1 where m1: "push (datagramOf a mtu (Suc n) i) e t m = (if insert i X = {..<Suc n} then Inr (Some a) else Inr None, m1)"
    "if insert i X = {..<Suc n} then fmlookup m1 (e, be_word (take 8 a)) = None else arrived a mtu (Suc n) e t0 (insert i X) m1"
    using push_arrived [OF Cons.prems(1) fut X n a hd] by blast
  show ?case
  proof (cases "arr = []")
    case True
    then have "insert i X = {..<Suc n}" using Cons.prems(5) x by auto
    with True m1 x show ?thesis by simp
  next
    case False
    then obtain j s where j: "(j, s) \<in> set arr" by (cases arr) auto
    then have "j \<notin> insert i X" "j < Suc n" using Cons.prems(3,4,5) x by (force, force)
    then have more: "insert i X \<noteq> {..<Suc n}" by blast
    with m1 have ar: "arrived a mtu (Suc n) e t0 (insert i X) m1" by simp
    have "\<exists>m'. pushAll (map (\<lambda>(i, t). (datagramOf a mtu (Suc n) i, e, t)) arr) m1
       = (replicate (length arr - 1) (Inr None) @ [Inr (Some a)], m') \<and> fmlookup m' (e, be_word (take 8 a)) = None"
      by (rule Cons.IH [OF ar False]) (use Cons.prems x in auto)
    moreover have "length arr = Suc (length arr - 1)" using False by (cases arr) auto
    ultimately show ?thesis using m1(1) more x by (auto simp: replicate_Suc [symmetric] simp del: replicate_Suc)
  qed
qed simp

lemma reassembles:
  assumes "fragmentArmored a mtu = Inr frags" "mtu < length a" "28 \<le> mtu" "length a \<le> MaxPacketLength"
    and "a ! 13 \<noteq> 0xff" "(a ! 18) AND 0x40 \<noteq> 0"
    and "fmlookup m (e, be_word (take 8 a)) = None" "fcard (fmdom m) < maxReassemblySlots"
    and "distinct (map fst arr)" "set (map fst arr) = {..<length frags}"
    and "list_all (\<lambda>(i, t). timeSub t (snd (hd arr)) < reassemblyTTL) arr"
  shows "let (rs, m') = pushAll (map (\<lambda>(i, t). (frags ! i, e, t)) arr) m in
     rs = replicate (length frags - 1) (Inr None) @ [Inr (Some a)] \<and> fmlookup m' (e, be_word (take 8 a)) = None"
proof -
  obtain n where n: "0 < n" "n \<le> 6" "frags = map (datagramOf a mtu (Suc n)) [0..<Suc n]"
      "length a \<le> mtu + n * (mtu - 16)"
    using fragmentArmored_Inr [OF assms(1,2)] by metis
  have len: "length frags = Suc n" "length arr = Suc n" "arr \<noteq> []"
    using n(1,3) assms(9,10) distinct_card [OF assms(9)] by auto
  have same: "map (\<lambda>(i, t). (frags ! i, e, t)) arr = map (\<lambda>(i, t). (datagramOf a mtu (Suc n) i, e, t)) arr"
  proof (rule map_cong [OF refl])
    fix x assume "x \<in> set arr"
    then have "fst x < Suc n" using assms(10) len by force
    then show "(case x of (i, t) \<Rightarrow> (frags ! i, e, t)) = (case x of (i, t) \<Rightarrow> (datagramOf a mtu (Suc n) i, e, t))"
      using n(3) by (cases x) (simp del: upt_Suc)
  qed
  have "arrived a mtu (Suc n) e (snd (hd arr)) {} m" using assms(7,8) by (simp add: arrived_def)
  then have "\<exists>m'. pushAll (map (\<lambda>(i, t). (datagramOf a mtu (Suc n) i, e, t)) arr) m
       = (replicate (length arr - 1) (Inr None) @ [Inr (Some a)], m') \<and> fmlookup m' (e, be_word (take 8 a)) = None"
    by (rule pushAll_arrived [OF n(1,2) assms(2,3) n(4) assms(4,5,6)])
      (use len assms(9,10,11) in \<open>auto simp: list_all_iff\<close>)
  then show ?thesis unfolding same using len by auto
qed

text \<open>
  Reassembly inverts fragmentation: when an armored packet is longer than the MTU, its datagrams,
  arriving in any order within the reassembly lifetime of the first to arrive, give the packet back
  byte for byte with the last datagram and nothing before it, and leave no slot behind.
\<close>

theorem reassembly_inverts_fragmentation:
  assumes "fragmentArmored a mtu = Inr frags" "mtu < length a" "28 \<le> mtu" "length a \<le> MaxPacketLength"
    and "a ! 13 \<noteq> 0xff" "(a ! 18) AND 0x40 \<noteq> 0"
    and "fmlookup m (e, be_word (take 8 a)) = None" "fcard (fmdom m) < maxReassemblySlots"
    and "distinct (map fst arr)" "set (map fst arr) = {..<length frags}"
    and "list_all (\<lambda>(i, t). timeSub t (snd (hd arr)) < reassemblyTTL) arr"
  shows "let (rs, m') = pushAll (map (\<lambda>(i, t). (frags ! i, e, t)) arr) m in
     rs = replicate (length frags - 1) (Inr None) @ [Inr (Some a)] \<and> fmlookup m' (e, be_word (take 8 a)) = None"
  by (rule reassembles [OF assms])

definition exPacket :: bytes where
  "exPacket = replicate 18 0x11 @ [0x40] @ replicate 22 0x22"

lemma exPacket_fragments: "fragmentArmored exPacket 28 = Inr
    [take 28 exPacket, replicate 13 0x11 @ [0xff, 0x31, 0] @ replicate 12 0x22, replicate 13 0x11 @ [0xff, 0x32, 0, 0x22]]"
  by code_simp

theorem reassembly_inverts_fragmentation_witness:
  "let (rs, m') = pushAll (map (\<lambda>(i, t). ([take 28 exPacket, replicate 13 0x11 @ [0xff, 0x31, 0] @ replicate 12 0x22,
        replicate 13 0x11 @ [0xff, 0x32, 0, 0x22]] ! i, \<lparr> apAddr = Addr4 0x0a000001, apPort = 9993 \<rparr>, t))
        [(2, 1000), (0, 1001), (1, 2000)]) newReassembler in
     rs = [Inr None, Inr None, Inr (Some exPacket)]
     \<and> fmlookup m' (\<lparr> apAddr = Addr4 0x0a000001, apPort = 9993 \<rparr>, be_word (take 8 exPacket)) = None"
proof -
  have "length exPacket = 41" "exPacket ! 13 \<noteq> 0xff" "(exPacket ! 18) AND 0x40 \<noteq> 0"
    by (simp_all add: exPacket_def nth_append)
  moreover have "{2, 0, Suc 0} = {..<Suc (Suc (Suc 0))}" by auto
  ultimately show ?thesis
    using reassembly_inverts_fragmentation [OF exPacket_fragments, of newReassembler
        "\<lparr> apAddr = Addr4 0x0a000001, apPort = 9993 \<rparr>" "[(2, 1000), (0, 1001), (1, 2000)]"]
    by (auto simp: newReassembler_def packet_consts maxReassemblySlots_def timeSub_def reassemblyTTL_def
        Second_def fcard.rep_eq)
qed

end
