(* ===== verification/Delivery.thy ===== *)
theory Delivery
  imports Armor Reassembly
begin

unbundle bit_operations_syntax

text \<open>
  Armor followed by fragmentation (\<^verbatim>\<open>fragment.go\<close>, \<^verbatim>\<open>session.go\<close>), composed with the receiver's
  reassembly and authentication: a message sent over a session arrives, whatever its size, cipher
  suite and the order of its datagrams.
\<close>

text \<open>The MTU is a Go \<^verbatim>\<open>int\<close>; zero selects the default. The draft is armored with the fragmented flag.\<close>

definition draftOf :: "bytes \<Rightarrow> int \<Rightarrow> bytes" where
  "draftOf unarmored mtu = (if int (length unarmored) > mtu then unarmored[18 := unarmored ! 18 OR FlagFragmented] else unarmored)"

definition ArmorAndFragment :: "Crypto \<Rightarrow> bytes \<Rightarrow> bytes \<Rightarrow> bool \<Rightarrow> int \<Rightarrow> bytes list result" where
  "ArmorAndFragment cr unarmored sharedKey encrypt mtu =
     (let mtu = (if mtu = 0 then int DefaultPhysicalMTU else mtu) in
      if mtu < int HeaderLength \<or> mtu \<le> int FragmentLength
      then Inl (Errorf ''physical MTU is too small for ZeroTier framing'')
      else
        let maxAssembled = mtu + (int MaxPacketFragments - 1) * (mtu - int FragmentLength) in
        if int (length unarmored) > maxAssembled
        then Inl (Errorf ''packet length %d exceeds %d-byte fragmented capacity'')
        else
          rbind (Armor cr (draftOf unarmored mtu) sharedKey encrypt) (\<lambda>armored.
          fragmentArmored armored (nat mtu)))"

definition ArmorSessionAndFragment :: "Crypto \<Rightarrow> bytes \<Rightarrow> bytes \<Rightarrow> bool \<Rightarrow> bool \<Rightarrow> int \<Rightarrow> bytes list result" where
  "ArmorSessionAndFragment cr unarmored key encrypt useAES mtu =
     (if \<not> useAES then ArmorAndFragment cr unarmored (salsaKey key) encrypt mtu
      else
        let mtu = (if mtu = 0 then int DefaultPhysicalMTU else mtu);
            maxAssembled = mtu + (int MaxPacketFragments - 1) * (mtu - int FragmentLength) in
        if int (length unarmored) > maxAssembled
        then Inl (Errorf ''packet length %d exceeds %d-byte fragmented capacity'')
        else
          rbind (ArmorAES cr (draftOf unarmored mtu) key) (\<lambda>armored.
          fragmentArmored armored (nat mtu)))"

section \<open>Armored drafts\<close>

lemma length_draftOf [simp]: "length (draftOf u n) = length u"
  by (simp add: draftOf_def)

lemma draftOf_source [simp]: "draftOf u n ! 13 = u ! 13"
  by (simp add: draftOf_def)

lemma draftOf_flags: "28 \<le> length u \<Longrightarrow> draftOf u n ! 18 = (if int (length u) > n then u ! 18 OR FlagFragmented else u ! 18)"
  by (simp add: draftOf_def)

definition effectiveMTU :: "int \<Rightarrow> nat" where
  "effectiveMTU mtu = (if mtu = 0 then DefaultPhysicalMTU else nat mtu)"

lemma ArmorSessionAndFragment_Inr:
  assumes "ArmorSessionAndFragment cr u key e x mtu = Inr frags" "28 \<le> effectiveMTU mtu"
  obtains armored where "ArmorSession cr (draftOf u (int (effectiveMTU mtu))) key e x = Inr armored"
    "fragmentArmored armored (effectiveMTU mtu) = Inr frags"
proof -
  have "int (effectiveMTU mtu) = (if mtu = 0 then int DefaultPhysicalMTU else mtu)"
    using assms(2) by (auto simp: effectiveMTU_def split: if_splits)
  then show thesis
    using that assms(1)
    by (auto simp: ArmorSessionAndFragment_def ArmorAndFragment_def ArmorSession_def Let_def rbind_eq_Inr
        effectiveMTU_def packet_consts split: if_splits)
qed

lemma draftOf_message:
  assumes "ParseDecoded u = Inr m"
  shows "\<exists>m'. ParseDecoded (draftOf u n) = Inr m' \<and> sameMessage m m' \<and> rhHops (dcRouting m') = rhHops (dcRouting m)
    \<and> rhPacketID (dcRouting m') = rhPacketID (dcRouting m)"
proof -
  have l: "28 \<le> length u" "28 \<le> length (draftOf u n)" using ParseDecoded_length [OF assms] by (simp_all add: draftOf_def)
  have "slice i j (u[18 := b]) = slice i j u" if "j \<le> 18" for i j b
    using that by (simp add: slice_def drop_take [symmetric])
  then have "slice 8 13 (draftOf u n) = slice 8 13 u" "slice 13 18 (draftOf u n) = slice 13 18 u" "take 8 (draftOf u n) = take 8 u"
    by (simp_all add: draftOf_def)
  moreover have "(b OR 0x40) AND 0x07 = b AND (0x07 :: byte)" for b
    by (rule bit_word_eqI) (auto simp: bit_simps dest!: byte_index)
  then have "draftOf u n ! 18 AND 0x07 = u ! 18 AND 0x07" using l by (simp add: draftOf_def packet_consts)
  moreover have "drop 28 (draftOf u n) = drop 28 u" "draftOf u n ! 27 = u ! 27" by (simp_all add: draftOf_def)
  ultimately show ?thesis
    using assms by (auto simp: ParseDecoded_eq [OF l(1)] ParseDecoded_eq [OF l(2)] sameMessage_def routingOf_def)
qed

lemma flag_fragmented:
  fixes b :: byte
  shows "armorFlags b e x AND 0x40 = b AND 0x40"
    "(((b AND 0xc7) OR push_bit 3 CipherAESGMACSIV) AND NOT FlagExtendedArmor) AND 0x40 = b AND 0x40"
  by (rule bit_word_eqI; auto simp: armorFlags_def Let_def packet_consts bit_simps dest!: byte_index)+

lemma ArmorSession_header:
  assumes "ArmorSession cr p key e x = Inr a" "28 \<le> length p"
  shows "a ! 13 = p ! 13 \<and> a ! 18 AND 0x40 = p ! 18 AND 0x40"
proof (cases x)
  case True
  with assms show ?thesis
    by (auto simp: ArmorSession_def ArmorAES_def aesSessionKeys_def Let_def nth_append slice_def flag_fragmented split: if_splits)
next
  case False
  with assms show ?thesis
    by (auto simp: ArmorSession_def Armor_def armor_def Let_def nth_append flag_fragmented split: if_splits)
qed

lemma withHops_same: "withHops (a ! 18) a = a"
proof -
  have "(b AND 0xf8) OR (b AND 0x07) = (b :: byte)" for b
    by (rule bit_word_eqI) (auto simp: bit_simps dest!: byte_index)
  then show ?thesis by (simp add: withHops_def)
qed

lemma push_whole:
  assumes "28 \<le> length a" "a ! 13 \<noteq> 0xff" "a ! 18 AND 0x40 = 0"
  shows "\<exists>tbl'. push a ep t tbl = (Inr (Some a), tbl')"
  using assms by (simp add: push_def Let_def IsFragment_def pushHead_def ParseRouting_eq routingOf_def)

lemma delivers:
  assumes "aes_law cr" "ParseDecoded unarmored = Inr m" "rhFlags (dcRouting m) = 0" "unarmored ! 13 \<noteq> 0xff"
    and "ArmorSessionAndFragment cr unarmored key encrypt useAES mtu = Inr frags" "28 \<le> effectiveMTU mtu"
    and "fmlookup table (ep, be_word (take 8 (hd frags))) = None" "fcard (fmdom table) < maxReassemblySlots"
    and "distinct (map fst arr)" "set (map fst arr) = {..<length frags}"
    and "list_all (\<lambda>(i, t). timeSub t (snd (hd arr)) < reassemblyTTL) arr"
  shows "\<exists>packet d table'. pushAll (map (\<lambda>(i, t). (frags ! i, ep, t)) arr) table
       = (replicate (length frags - 1) (Inr None) @ [Inr (Some packet)], table')
     \<and> DearmorSession cr packet key = Inr d \<and> sameMessage m d"
proof -
  let ?mtu = "effectiveMTU mtu"
  let ?u = "draftOf unarmored (int ?mtu)"
  obtain a where a: "ArmorSession cr ?u key encrypt useAES = Inr a" "fragmentArmored a ?mtu = Inr frags"
    using ArmorSessionAndFragment_Inr [OF assms(5,6)] by blast
  have l: "28 \<le> length unarmored" by (rule ParseDecoded_length [OF assms(2)])
  have z: "unarmored ! 18 = 0" using assms(2,3) l by (auto simp: ParseDecoded_eq routingOf_def)
  obtain m' where m': "ParseDecoded ?u = Inr m'" "sameMessage m m'" "rhHops (dcRouting m') = 0"
    using draftOf_message [OF assms(2), of "int ?mtu"] assms(2) z l by (auto simp: ParseDecoded_eq routingOf_def)
  from DearmorSession_Armor [OF assms(1) a(1) m'(1,3), of "a ! 18", unfolded withHops_same] obtain d
    where la: "length a = length ?u" and d: "DearmorSession cr a key = Inr d" "sameMessage m' d" by blast
  have h: "a ! 13 = ?u ! 13 \<and> a ! 18 AND 0x40 = ?u ! 18 AND 0x40"
    using ArmorSession_header [OF a(1)] l by simp
  have same: "sameMessage m d" using d(2) m'(2) by (simp add: sameMessage_def)
  have sz: "length a \<le> MaxPacketLength"
    using a(1) la by (auto simp: ArmorSession_def ArmorAES_def Armor_def armor_def split: if_splits)
  show ?thesis
  proof (cases "length a \<le> ?mtu")
    case True
    then have f: "frags = [a]" using a(2) by (simp add: fragmentArmored_def)
    have "a ! 18 AND 0x40 = 0" using h z True la l by (simp add: draftOf_flags)
    moreover have "length arr = 1" using distinct_card [OF assms(9)] assms(10) f by simp
    then obtain t where "arr = [(0, t)]" using assms(10) f by (cases arr) (auto simp: lessThan_Suc)
    ultimately show ?thesis using push_whole [of a ep t table] h l la assms(4) d same f
      by auto
  next
    case False
    then have "a ! 18 AND 0x40 \<noteq> 0" using h z la l by (simp add: draftOf_flags packet_consts)
    moreover have "a ! 13 \<noteq> 0xff" using h assms(4) by simp
    moreover have "take 8 (hd frags) = take 8 a" using a(2) False assms(6)
      by (auto simp: fragmentArmored_def Let_def split: if_splits)
    ultimately show ?thesis
      using reassembles [OF a(2) _ assms(6) sz, where m = table and e = ep and arr = arr] False assms(7-11) d same
      by (auto split: prod.splits)
  qed
qed

text \<open>
  C27. Delivery: a fresh packet armored for a session and split for any admissible MTU reaches the
  receiver's handler exactly once and intact. Whatever the cipher suite, and in whatever order and at
  whatever times within the reassembly window its datagrams arrive from one endpoint, only the last
  of them completes a packet, and \<^verbatim>\<open>DearmorSession\<close> with the session key reads from it the verb,
  payload, source and destination that were sent.
\<close>

theorem message_delivery:
  assumes "aes_law cr" "ParseDecoded unarmored = Inr m" "rhFlags (dcRouting m) = 0" "unarmored ! 13 \<noteq> 0xff"
    and "ArmorSessionAndFragment cr unarmored key encrypt useAES mtu = Inr frags" "28 \<le> effectiveMTU mtu"
    and "fmlookup table (ep, be_word (take 8 (hd frags))) = None" "fcard (fmdom table) < maxReassemblySlots"
    and "distinct (map fst arr)" "set (map fst arr) = {..<length frags}"
    and "list_all (\<lambda>(i, t). timeSub t (snd (hd arr)) < reassemblyTTL) arr"
  shows "\<exists>packet d table'. pushAll (map (\<lambda>(i, t). (frags ! i, ep, t)) arr) table
       = (replicate (length frags - 1) (Inr None) @ [Inr (Some packet)], table')
     \<and> DearmorSession cr packet key = Inr d \<and> sameMessage m d"
  by (rule delivers [OF assms])

theorem message_delivery_witness:
  "\<exists>frags packet d table'. ArmorSessionAndFragment toyCrypto toyPacket (replicate 48 5) True True 28 = Inr frags
     \<and> pushAll [(frags ! 1, \<lparr> apAddr = Addr4 0x0a000001, apPort = 9993 \<rparr>, 1000),
                (frags ! 0, \<lparr> apAddr = Addr4 0x0a000001, apPort = 9993 \<rparr>, 2000)] newReassembler
         = ([Inr None, Inr (Some packet)], table')
     \<and> DearmorSession toyCrypto packet (replicate 48 5) = Inr d \<and> dcPayload d = [1, 2, 3]"
proof -
  have l: "length toyPacket = 31" "toyPacket ! 13 \<noteq> 0xff" by (simp_all add: toyPacket_def nth_append)
  obtain m where m: "ParseDecoded toyPacket = Inr m" "rhFlags (dcRouting m) = 0" "rhHops (dcRouting m) = 0" "dcPayload m = [1, 2, 3]"
    using l by (simp add: ParseDecoded_eq) (simp add: toyPacket_def routingOf_def nth_append)
  obtain m' where m': "ParseDecoded (draftOf toyPacket 28) = Inr m'" "rhHops (dcRouting m') = 0"
    using draftOf_message [OF m(1), of 28] m(3) by auto
  have law: "aes_law toyCrypto" by (simp add: aes_law_def toyCrypto_def)
  obtain a where a: "ArmorAES toyCrypto (draftOf toyPacket 28) (replicate 48 5) = Inr a"
    using l by (simp add: ArmorAES_def aesSessionKeys_def Let_def packet_consts)
  have "length a = 31" using DearmorAES_Armor(3) [OF law a m'] l by simp
  then obtain frags where f: "ArmorSessionAndFragment toyCrypto toyPacket (replicate 48 5) True True 28 = Inr frags" "length frags = 2"
    using a l by (auto simp: ArmorSessionAndFragment_def fragmentArmored_def packet_consts Let_def fragmentLoop.simps)
  have "{Suc 0, 0} = {..<Suc (Suc 0)}" by auto
  then show ?thesis
    using message_delivery [OF law m(1,2) l(2) f(1), of newReassembler "\<lparr> apAddr = Addr4 0x0a000001, apPort = 9993 \<rparr>"
        "[(1, 1000), (0, 2000)]"] f m(4)
    by (auto simp: effectiveMTU_def newReassembler_def maxReassemblySlots_def timeSub_def reassemblyTTL_def Second_def fcard.rep_eq
        sameMessage_def numeral_2_eq_2)
qed

end
