(* ===== verification/Revocation.thy ===== *)
theory Revocation
  imports Policy Ownership
begin

unbundle bit_operations_syntax

text \<open>
  \<^verbatim>\<open>internal/zerotier/networkconfig/revocation.go\<close>: the signed revocation of a certificate of
  membership and the payload that carries it.
\<close>

definition credentialTypeCOM :: byte where "credentialTypeCOM = 1"
definition revocationFastPropagate :: uint64 where "revocationFastPropagate = 1"

record Revocation =
  rvID :: uint32
  rvNetworkID :: NetworkID
  rvCredentialID :: uint32
  rvThreshold :: uint64
  rvFlags :: uint64
  rvTarget :: NodeID
  rvSignedBy :: NodeID
  rvType :: byte
  rvSignature :: Signature

text \<open>
  \<^verbatim>\<open>base\<close> ignores the errors of its helpers, which then give zero and nil. A hexadecimal network ID of
  more than 16 digits would make \<^verbatim>\<open>parseHexUint\<close> panic; the constructor never lets one through.
\<close>

definition Revocation_base :: "Revocation \<Rightarrow> bytes" where
  "Revocation_base r =
     be_bytes 4 (0 :: uint32) @ be_bytes 4 (rvID r)
     @ be_bytes 8 (case parseHexUint (rvNetworkID r) of Inr v \<Rightarrow> v | Inl _ \<Rightarrow> 0)
     @ be_bytes 4 (0 :: uint32) @ be_bytes 4 (rvCredentialID r) @ be_bytes 8 (rvThreshold r) @ be_bytes 8 (rvFlags r)
     @ (case nodeIDBytes (rvTarget r) of Inr b \<Rightarrow> b | Inl _ \<Rightarrow> [])
     @ (case nodeIDBytes (rvSignedBy r) of Inr b \<Rightarrow> b | Inl _ \<Rightarrow> [])
     @ [rvType r]"

text \<open>\<open>random\<close> is what \<^verbatim>\<open>io.ReadFull\<close> gives for the four bytes of the identifier.\<close>

definition NewCOMRevocation :: "Crypto \<Rightarrow> NetworkID \<Rightarrow> NodeID \<Rightarrow> time \<Rightarrow> Identity \<Rightarrow> bytes result \<Rightarrow> Revocation result" where
  "NewCOMRevocation cr networkID target threshold signer random =
     (if idAddress signer \<noteq> mustControllerID networkID \<or> \<not> idHasPrivate signer
      then Inl (Errorf ''revocation signer is not the network controller'')
      else
        rbind (NodeID_Validate target) (\<lambda>_.
        if IsZero threshold \<or> UnixMilli threshold < 0 then Inl (Errorf ''revocation threshold is invalid'')
        else
          rbind (wrapErr ''generate revocation ID: %w'' random) (\<lambda>idBytes.
          let revocation = \<lparr> rvID = be_word idBytes, rvNetworkID = networkID, rvCredentialID = 0,
                rvThreshold = of_int (UnixMilli threshold), rvFlags = revocationFastPropagate, rvTarget = target,
                rvSignedBy = idAddress signer, rvType = credentialTypeCOM, rvSignature = replicate SignatureLength 0 \<rparr> in
          rbind (wrapErr ''sign revocation: %w''
            (Sign cr signer (withPolicySentinels (Revocation_base revocation @ [0, 0])))) (\<lambda>signature.
          Inr (revocation\<lparr>rvSignature := signature\<rparr>)))))"

definition Revocation_MarshalBinary :: "Revocation \<Rightarrow> bytes result" where
  "Revocation_MarshalBinary r =
     (if rvType r = 0 \<or> rvSignedBy r = [] then Inl (Errorf ''revocation is incomplete'')
      else Inr (Revocation_base r @ [1] @ uint16Bytes (int SignatureLength) @ rvSignature r @ [0, 0]))"

definition Revocation_Verify :: "Crypto \<Rightarrow> Revocation \<Rightarrow> Identity \<Rightarrow> bool" where
  "Revocation_Verify cr r signer =
     (idAddress signer = rvSignedBy r
      \<and> Verify cr signer (withPolicySentinels (Revocation_base r @ [0, 0])) (rvSignature r))"

definition BuildRevocationCredentialsPayload :: "bytes \<Rightarrow> bytes" where
  "BuildRevocationCredentialsPayload serialized = [0, 0, 0, 0, 0, 0, 1] @ serialized @ [0, 0]"

interpretation revocation: signed_document "\<lambda>r. withPolicySentinels (Revocation_base r @ [0, 0])" rvSignature
    "\<lambda>r s. r\<lparr>rvSignature := s\<rparr>" rvSignedBy "\<lambda>_. True" Revocation_Verify
  by unfold_locales (auto simp: Revocation_base_def Revocation_Verify_def)

lemma length_Revocation_base:
  "canonicalHex 10 (rvTarget r) \<Longrightarrow> canonicalHex 10 (rvSignedBy r) \<Longrightarrow> length (Revocation_base r) = 51"
  by (simp add: Revocation_base_def)

lemma NewCOMRevocation_Inr:
  assumes "NewCOMRevocation cr networkID target threshold signer random = Inr r"
  shows "rvNetworkID r = networkID \<and> rvTarget r = target \<and> rvSignedBy r = idAddress signer
    \<and> rvSignedBy r = mustControllerID networkID \<and> rvType r = 1 \<and> canonicalHex 10 target
    \<and> int (unat (rvThreshold r)) = UnixMilli threshold mod 2 ^ 64 \<and> 0 \<le> UnixMilli threshold
    \<and> Sign cr signer (withPolicySentinels (Revocation_base r @ [0, 0])) = Inr (rvSignature r)"
proof -
  from assms obtain b s where c: "\<not> (idAddress signer \<noteq> mustControllerID networkID \<or> \<not> idHasPrivate signer)"
    "canonicalHex 10 target" "\<not> (IsZero threshold \<or> UnixMilli threshold < 0)"
    and r: "r = \<lparr> rvID = be_word b, rvNetworkID = networkID, rvCredentialID = 0,
                rvThreshold = of_int (UnixMilli threshold), rvFlags = revocationFastPropagate, rvTarget = target,
                rvSignedBy = idAddress signer, rvType = credentialTypeCOM, rvSignature = s \<rparr>"
    and s: "Sign cr signer (withPolicySentinels (Revocation_base (r\<lparr>rvSignature := replicate SignatureLength 0\<rparr>) @ [0, 0])) = Inr s"
    by (auto simp: NewCOMRevocation_def rbind_eq_Inr Let_def split: if_splits)
  from s have "Sign cr signer (withPolicySentinels (Revocation_base r @ [0, 0])) = Inr s"
    by (simp only: revocation.payload_unsigned)
  moreover have "int (unat (of_int (UnixMilli threshold) :: uint64)) = UnixMilli threshold mod 2 ^ 64"
    by (simp add: unsigned_of_int take_bit_eq_mod)
  ultimately show ?thesis using c by (auto simp: r credentialTypeCOM_def)
qed

lemma revocation_issued:
  assumes "wfIdentity signer" "keyPair cr signer" "canonicalHex 16 networkID" "idAddress signer = take 10 networkID"
    and "canonicalHex 10 target" "threshold \<noteq> 0" "0 \<le> UnixMilli threshold"
  shows "\<exists>r. NewCOMRevocation cr networkID target threshold signer (Inr random) = Inr r
    \<and> Revocation_MarshalBinary r = Inr (Revocation_base r @ [1, 0, 96] @ rvSignature r @ [0, 0])
    \<and> length (Revocation_base r) = 51 \<and> length (rvSignature r) = 96"
proof -
  have hp: "idHasPrivate signer" using assms(2) by (simp add: keyPair_def)
  have "\<exists>r. NewCOMRevocation cr networkID target threshold signer (Inr random) = Inr r"
    using assms hp Sign_keyPair [OF assms(2)] by (simp add: NewCOMRevocation_def Let_def IsZero_def rbind_eq_Inr)
  then obtain r where r: "NewCOMRevocation cr networkID target threshold signer (Inr random) = Inr r" by blast
  note n = NewCOMRevocation_Inr [OF r]
  have a: "canonicalHex 10 (rvSignedBy r)" "rvSignedBy r \<noteq> []" using n assms(1) by (auto simp: wfIdentity_def canonicalHex_def)
  have l: "length (Revocation_base r) = 51" "length (rvSignature r) = 96"
    using n a length_Revocation_base [of r] Sign_length [of cr signer _ "rvSignature r"] by (auto simp: SignatureLength_def)
  then show ?thesis using r n a by (simp add: Revocation_MarshalBinary_def sigLen_bytes)
qed

text \<open>
  Revocations: for a network of the controller, a valid target and a threshold after the epoch,
  \<^verbatim>\<open>NewCOMRevocation\<close> succeeds; it names the target, the controller and the threshold in milliseconds,
  it verifies with the controller's public identity and no other address, and its encoding is the
  signed part followed by the signature, 152 bytes in all.
\<close>

theorem revocation_verifies:
  assumes "ed25519_law cr" "wfIdentity signer" "keyPair cr signer" "canonicalHex 16 networkID"
    and "idAddress signer = take 10 networkID" "canonicalHex 10 target"
    and "threshold \<noteq> 0" "0 \<le> UnixMilli threshold" "UnixMilli threshold < 2 ^ 64"
  shows "\<exists>r bs. NewCOMRevocation cr networkID target threshold signer (Inr random) = Inr r
     \<and> rvNetworkID r = networkID \<and> rvTarget r = target \<and> int (unat (rvThreshold r)) = UnixMilli threshold
     \<and> Revocation_Verify cr r (Public signer) \<and> (Revocation_Verify cr r other \<longrightarrow> idAddress other = idAddress signer)
     \<and> Revocation_MarshalBinary r = Inr bs \<and> length bs = 152 \<and> take 51 bs = Revocation_base r
     \<and> slice 54 150 bs = rvSignature r"
proof -
  from revocation_issued [OF assms(2-8), of random] obtain r where
    r: "NewCOMRevocation cr networkID target threshold signer (Inr random) = Inr r"
    and bs: "Revocation_MarshalBinary r = Inr (Revocation_base r @ [1, 0, 96] @ rvSignature r @ [0, 0])"
    and l: "length (Revocation_base r) = 51" "length (rvSignature r) = 96" by blast
  let ?bs = "Revocation_base r @ [1, 0, 96] @ rvSignature r @ [0, 0]"
  note n = NewCOMRevocation_Inr [OF r]
  have v: "Revocation_Verify cr r (Public signer)"
    using revocation.issued_accepted [OF assms(1,2), of r "rvSignature r"] n by simp
  have "slice 54 150 ?bs = rvSignature r"
    by (rule slice_at [of _ "Revocation_base r @ [1, 0, 96]" _ "[0, 0]"]) (simp_all add: l)
  moreover have "take 51 ?bs = Revocation_base r" "length ?bs = 152" using l by simp_all
  moreover have "Revocation_Verify cr r other \<longrightarrow> idAddress other = idAddress signer"
    using n by (simp add: Revocation_Verify_def)
  ultimately show ?thesis using r n v bs assms(9) by (auto simp: mod_pos_pos_trivial)
qed

theorem revocation_verifies_witness:
  "\<exists>r. NewCOMRevocation toyCrypto toyNetworkID ''8056c2e21c'' 62135596800001000000 (toyIdentity 7) (Inr [1, 2, 3, 4]) = Inr r
     \<and> Revocation_Verify toyCrypto r (Public (toyIdentity 7))"
proof -
  have "idAddress (toyIdentity 7) = take 10 toyNetworkID" by (simp add: toyIdentity_def toyNetworkID_def)
  from revocation_verifies [OF toy_laws(1) toy_wf toy_keyPair toyNetworkID_canonical this toyPolicy_facts(3),
      of 62135596800001000000 "[1, 2, 3, 4]" "toyIdentity 7"]
  show ?thesis by (auto simp: UnixMilli_def)
qed

end
