(* ===== verification/TransportHandler.thy ===== *)
theory TransportHandler
  imports ConfigHandler PeerRegistry Limiter Compression Delivery Revocation
begin

unbundle bit_operations_syntax

text \<open>
  \<^verbatim>\<open>internal/zerotier/transport/handler.go\<close> and \<^verbatim>\<open>revocation.go\<close>: what the controller does with one
  complete datagram, and the revocations it sends. The state joins the documents, the sessions, the
  rate limiter, the clock and the random source; an action is a function of the state whose value
  \<open>None\<close> means that it does not return, which only the search for a nonzero packet ID can cause.
\<close>

record 's Handler =
  hdService :: "'s Service"
  hdIdentity :: Identity
  hdRandom :: "nat \<Rightarrow> uint64 result"
  hdNow :: "nat \<Rightarrow> time"
  hdVersion :: LocalVersion

record 's HandlerState =
  hsWorld :: "'s World"
  hsPeers :: Registry
  hsHellos :: helloLimiter
  hsClock :: nat
  hsRandom :: nat

type_synonym ('s, 'a) handling = "'s HandlerState \<Rightarrow> ('a result \<times> 's HandlerState) option"

definition hret :: "'a \<Rightarrow> ('s, 'a) handling" where
  "hret x st = Some (Inr x, st)"

definition hfail :: "error \<Rightarrow> ('s, 'a) handling" where
  "hfail e st = Some (Inl e, st)"

definition hlift :: "'a result \<Rightarrow> ('s, 'a) handling" where
  "hlift r st = Some (r, st)"

definition hbind :: "('s, 'a) handling \<Rightarrow> ('a \<Rightarrow> ('s, 'b) handling) \<Rightarrow> ('s, 'b) handling" where
  "hbind m f st = (case m st of None \<Rightarrow> None | Some (Inl e, st') \<Rightarrow> Some (Inl e, st') | Some (Inr x, st') \<Rightarrow> f x st')"

definition hservice :: "('s, 'a) operation \<Rightarrow> ('s, 'a) handling" where
  "hservice m st = (case m (hsWorld st) of (r, w) \<Rightarrow> Some (r, st\<lparr>hsWorld := w\<rparr>))"

definition hpeers :: "(Registry \<Rightarrow> 'a result \<times> Registry) \<Rightarrow> ('s, 'a) handling" where
  "hpeers m st = (case m (hsPeers st) of (r, p) \<Rightarrow> Some (r, st\<lparr>hsPeers := p\<rparr>))"

definition hallow :: "Addr \<Rightarrow> time \<Rightarrow> ('s, bool) handling" where
  "hallow address now st = (case allow address now (hsHellos st) of (ok, l) \<Rightarrow> Some (Inr ok, st\<lparr>hsHellos := l\<rparr>))"

text \<open>\<^verbatim>\<open>handler.now()\<close>.\<close>

definition hnow :: "'s Handler \<Rightarrow> ('s, time) handling" where
  "hnow h st = Some (Inr (hdNow h (hsClock st)), st\<lparr>hsClock := Suc (hsClock st)\<rparr>)"

lemmas handling_defs = hret_def hfail_def hlift_def hservice_def hpeers_def hallow_def hnow_def

section \<open>\<^verbatim>\<open>handler.go\<close>\<close>

partial_function (option) packetIDLoop :: "(nat \<Rightarrow> uint64 result) \<Rightarrow> nat \<Rightarrow> (uint64 result \<times> nat) option" where
  "packetIDLoop random n = (case random n of
     Inl e \<Rightarrow> Some (Inl (Wrap ''generate packet ID: %w'' e), Suc n)
   | Inr v \<Rightarrow> if v \<noteq> 0 then Some (Inr v, Suc n) else packetIDLoop random (Suc n))"

definition packetID :: "'s Handler \<Rightarrow> ('s, uint64) handling" where
  "packetID h st = (case packetIDLoop (hdRandom h) (hsRandom st) of
     None \<Rightarrow> None | Some (r, n) \<Rightarrow> Some (r, st\<lparr>hsRandom := n\<rparr>))"

text \<open>The handler with its registry, which is a new one unless the caller brings one, and a new rate limiter.\<close>

definition NewHandler ::
    "'s Service option \<Rightarrow> Identity \<Rightarrow> Registry option \<Rightarrow> (nat \<Rightarrow> uint64 result) \<Rightarrow> (nat \<Rightarrow> time)
      \<Rightarrow> ('s Handler \<times> Registry \<times> helloLimiter) result" where
  "NewHandler service controllerIdentity peers random clock = (case service of
     None \<Rightarrow> Inl (Errorf ''controller service is required'')
   | Some sv \<Rightarrow>
       if \<not> idHasPrivate controllerIdentity then Inl (Errorf ''controller identity must include its private key'')
       else Inr (\<lparr> hdService = sv, hdIdentity = controllerIdentity, hdRandom = random, hdNow = clock,
           hdVersion = \<lparr> lvProtocol = ProtocolVersionCurrent, lvMajor = 0, lvMinor = 1, lvRevision = 0 \<rparr> \<rparr>,
         case peers of None \<Rightarrow> NewRegistry | Some registry \<Rightarrow> registry, newHelloLimiter))"

definition handleHello :: "Crypto \<Rightarrow> 's Handler \<Rightarrow> bytes \<Rightarrow> AddrPort \<Rightarrow> ('s, bytes list) handling" where
  "handleHello cr h datagram remote =
     hbind (hlift (AuthenticateHello cr datagram (hdIdentity h))) (\<lambda>(hello, sharedKey).
     hbind (hnow h) (\<lambda>now.
     hbind (hpeers (LearnValidatedHello hello sharedKey remote now)) (\<lambda>_.
     hbind (packetID h) (\<lambda>i.
     hbind (hlift (BuildHelloOK cr i hello (hdIdentity h) \<lparr> iaAddress = apAddr remote, iaPort = apPort remote \<rparr>
       (hdVersion h) sharedKey)) (\<lambda>reply.
     if length reply > DefaultPhysicalMTU then hfail (Errorf ''HELLO OK unexpectedly exceeds physical MTU'')
     else hret [reply])))))"

text \<open>A message for a session: \<^verbatim>\<open>Build\<close>, then \<^verbatim>\<open>ArmorSessionAndFragment\<close>.\<close>

definition sessionDatagrams ::
    "Crypto \<Rightarrow> 's Handler \<Rightarrow> NodeID \<Rightarrow> Session \<Rightarrow> byte \<Rightarrow> bytes \<Rightarrow> ('s, bytes list) handling" where
  "sessionDatagrams cr h destination session verb payload =
     hbind (packetID h) (\<lambda>i.
     hbind (hlift (Build i destination (idAddress (hdIdentity h)) verb payload)) (\<lambda>draft.
     hlift (ArmorSessionAndFragment cr draft (ssSharedKey session) True (ssProtocolVersion session \<ge> 12)
       (int DefaultPhysicalMTU))))"

text \<open>The loop over the replies.\<close>

fun replyDatagrams :: "Crypto \<Rightarrow> 's Handler \<Rightarrow> Session \<Rightarrow> ConfigReply list \<Rightarrow> ('s, bytes list) handling" where
  "replyDatagrams cr h session [] = hret []"
| "replyDatagrams cr h session (reply # replies) =
     hbind (sessionDatagrams cr h (idAddress (ssIdentity session)) session (rpVerb reply) (rpPayload reply)) (\<lambda>armored.
     hbind (replyDatagrams cr h session replies) (\<lambda>datagrams. hret (armored @ datagrams)))"

definition isHello :: "bytes \<Rightarrow> RoutingHeader \<Rightarrow> bool" where
  "isHello datagram routing = (rhCipher routing = CipherC25519Poly1305Clear
     \<and> (rhExtendedArmor routing \<or> length datagram > 27 \<and> (datagram ! 27) AND 0x1f = VerbHello))"

definition handlePacket :: "Crypto \<Rightarrow> 's Handler \<Rightarrow> Context \<Rightarrow> bytes \<Rightarrow> AddrPort \<Rightarrow> ('s, bytes list) handling" where
  "handlePacket cr h ctx datagram remote =
     hbind (hnow h) (\<lambda>now.
     hbind (hpeers (Authenticate cr datagram (idAddress (hdIdentity h)) remote now)) (\<lambda>(decoded, session).
     hbind (hlift (Decompress decoded (int (MaxPacketLength - HeaderLength)))) (\<lambda>decoded.
     if dcVerb decoded = VerbNetworkConfigRequest
     then
       hbind (hservice (HandleConfigRequest cr (hdService h) ctx decoded (ssIdentity session) (hdIdentity h))) (\<lambda>replies.
       replyDatagrams cr h session replies)
     else hfail (Errorf ''unsupported authenticated verb %d''))))"

definition Handle :: "Crypto \<Rightarrow> 's Handler \<Rightarrow> Context \<Rightarrow> bytes \<Rightarrow> AddrPort \<Rightarrow> ('s, bytes list) handling" where
  "Handle cr h ctx datagram remote =
     (if \<not> addrPortIsValid remote then hfail (Errorf ''remote endpoint is invalid'')
      else if IsFragment datagram then hfail (Errorf ''fragment reassembly is not yet available'')
      else
        hbind (hlift (ParseRouting datagram)) (\<lambda>routing.
        if rhDestination routing \<noteq> idAddress (hdIdentity h)
        then hfail (Errorf ''datagram is addressed to another controller'')
        else if isHello datagram routing
        then
          hbind (hnow h) (\<lambda>now.
          hbind (hallow (apAddr remote) now) (\<lambda>ok.
          if \<not> ok then hfail (Errorf ''HELLO rate limit exceeded'') else handleHello cr h datagram remote))
        else handlePacket cr h ctx datagram remote))"

section \<open>\<^verbatim>\<open>revocation.go\<close>\<close>

record OutboundDatagram =
  odEndpoint :: AddrPort
  odPayload :: bytes

text \<open>The loop over the members; a member without a session is skipped.\<close>

fun revocationDatagrams ::
    "Crypto \<Rightarrow> 's Handler \<Rightarrow> bytes \<Rightarrow> Member list \<Rightarrow> ('s, OutboundDatagram list) handling" where
  "revocationDatagrams cr h payload [] st = Some (Inr [], st)"
| "revocationDatagrams cr h payload (member # members) st =
     (case GetSession (mbNodeID member) (hsPeers st) of
        Inl _ \<Rightarrow> revocationDatagrams cr h payload members st
      | Inr session \<Rightarrow>
          hbind (packetID h) (\<lambda>i.
          hbind (hlift (Build i (mbNodeID member) (idAddress (hdIdentity h)) VerbNetworkCredentials payload)) (\<lambda>draft.
          hbind (hlift (wrapErr ''armor revocation for %s: %w'' (ArmorSessionAndFragment cr draft (ssSharedKey session) True
            (ssProtocolVersion session \<ge> 12) (int DefaultPhysicalMTU)))) (\<lambda>armored.
          hbind (revocationDatagrams cr h payload members) (\<lambda>rest.
          hret (map (\<lambda>datagram. \<lparr> odEndpoint = ssEndpoint session, odPayload = datagram \<rparr>) armored @ rest))))) st)"

text \<open>
  The random source is read once for the credential ID (\<open>credentialID\<close>), then for the packet IDs.
\<close>

definition BuildCOMRevocationBroadcast ::
    "Crypto \<Rightarrow> 's Handler \<Rightarrow> bytes result \<Rightarrow> Context \<Rightarrow> NetworkID \<Rightarrow> NodeID \<Rightarrow> time \<Rightarrow> ('s, OutboundDatagram list) handling" where
  "BuildCOMRevocationBroadcast cr h credentialID ctx networkID target threshold =
     hbind (hlift (NewCOMRevocation cr networkID target threshold (hdIdentity h) credentialID)) (\<lambda>revocation.
     hbind (hlift (Revocation_MarshalBinary revocation)) (\<lambda>serialized.
     hbind (hservice (svcListMembers (hdService h) ctx networkID)) (\<lambda>members.
     revocationDatagrams cr h (BuildRevocationCredentialsPayload serialized) members)))"

section \<open>Actions\<close>

lemma hbind_Inr:
  "hbind m f st = Some (Inr y, st') \<longleftrightarrow> (\<exists>x st1. m st = Some (Inr x, st1) \<and> f x st1 = Some (Inr y, st'))"
  by (auto simp: hbind_def split: option.splits sum.splits)

lemma hbind_Some:
  "hbind m f st = Some (r, st') \<longleftrightarrow>
     (\<exists>e. m st = Some (Inl e, st') \<and> r = Inl e) \<or> (\<exists>x st1. m st = Some (Inr x, st1) \<and> f x st1 = Some (r, st'))"
  by (auto simp: hbind_def split: option.splits sum.splits)

lemma handling_Inr [simp]:
  "hret x st = Some (Inr y, st') \<longleftrightarrow> y = x \<and> st' = st" "hfail e st \<noteq> Some (Inr y, st')"
  "hlift r st = Some (Inr y, st') \<longleftrightarrow> r = Inr y \<and> st' = st"
  "hnow h st = Some (Inr t, st') \<longleftrightarrow> t = hdNow h (hsClock st) \<and> st' = st\<lparr>hsClock := Suc (hsClock st)\<rparr>"
  "hpeers m st = Some (Inr p, st') \<longleftrightarrow> (\<exists>r. m (hsPeers st) = (Inr p, r) \<and> st' = st\<lparr>hsPeers := r\<rparr>)"
  "hservice n st = Some (Inr q, st') \<longleftrightarrow> (\<exists>w. n (hsWorld st) = (Inr q, w) \<and> st' = st\<lparr>hsWorld := w\<rparr>)"
  by (auto simp: handling_defs split: prod.splits)

text \<open>An action that returns, and an invariant that an action keeps.\<close>

definition returns :: "('s, 'a) handling \<Rightarrow> bool" where
  "returns m = (\<forall>st. m st \<noteq> None)"

definition keepsState :: "('s HandlerState \<Rightarrow> bool) \<Rightarrow> ('s, 'a) handling \<Rightarrow> bool" where
  "keepsState I m = (\<forall>st r st'. I st \<longrightarrow> m st = Some (r, st') \<longrightarrow> I st')"

lemma returns_intros:
  "returns (hret x)" "returns (hfail e)" "returns (hlift r)" "returns (hnow h)" "returns (hallow a t)"
  "returns (hpeers p)" "returns (hservice n)"
  "returns m \<Longrightarrow> (\<And>x. returns (f x)) \<Longrightarrow> returns (hbind m f)"
  by (auto simp: returns_def handling_defs hbind_def split: prod.splits option.splits sum.splits)

lemma keepsState_basic:
  "keepsState I (hret x)" "keepsState I (hfail e)" "keepsState I (hlift r)"
  by (auto simp: keepsState_def handling_defs)

lemma keepsState_hbind: "keepsState I m \<Longrightarrow> (\<And>x. keepsState I (f x)) \<Longrightarrow> keepsState I (hbind m f)"
  unfolding keepsState_def hbind_Some by blast

lemma keepsState_hlift: "(\<And>x. r = Inr x \<Longrightarrow> keepsState I (f x)) \<Longrightarrow> keepsState I (hbind (hlift r) f)"
  by (cases r) (auto simp: keepsState_def hbind_def hlift_def)

section \<open>Packet IDs\<close>

text \<open>The random source fails or eventually gives a nonzero number.\<close>

definition randomAlive :: "(nat \<Rightarrow> uint64 result) \<Rightarrow> bool" where
  "randomAlive random = (\<forall>n. \<exists>k. random (n + k) \<noteq> Inr 0)"

lemma packetIDLoop_step:
  "random n \<noteq> Inr 0 \<Longrightarrow> packetIDLoop random n = Some (case random n of Inl e \<Rightarrow> Inl (Wrap ''generate packet ID: %w'' e) | Inr v \<Rightarrow> Inr v, Suc n)"
  by (subst packetIDLoop.simps) (auto split: sum.splits)

lemma packetIDLoop_returns: "random (n + k) \<noteq> Inr 0 \<Longrightarrow> \<exists>r m. packetIDLoop random n = Some (r, m)"
proof (induction k arbitrary: n)
  case 0
  then show ?case using packetIDLoop_step [of random n] by simp
next
  case (Suc k)
  show ?case
  proof (cases "random n = Inr 0")
    case True
    then have "packetIDLoop random n = packetIDLoop random (Suc n)" by (subst packetIDLoop.simps) simp
    then show ?thesis using Suc.IH [of "Suc n"] Suc.prems by simp
  qed (simp add: packetIDLoop_step)
qed

lemma packetIDLoop_nonzero:
  assumes "packetIDLoop random n = Some (Inr v, m)"
  shows "v \<noteq> 0"
proof -
  have "\<forall>v. fst x = Inr v \<longrightarrow> v \<noteq> 0" if "packetIDLoop random n = Some x" for x
    by (rule packetIDLoop.raw_induct [where P = "\<lambda>_ _ x. \<forall>v. fst x = Inr v \<longrightarrow> v \<noteq> 0", OF _ that])
      (auto split: sum.splits if_splits)
  from this [OF assms] show ?thesis by simp
qed

lemma packetID_Inr:
  assumes "packetID h st = Some (Inr i, st')"
  shows "i \<noteq> 0" "hsWorld st' = hsWorld st" "hsPeers st' = hsPeers st" "hsHellos st' = hsHellos st"
  using assms packetIDLoop_nonzero [of "hdRandom h" "hsRandom st" i]
  by (auto simp: packetID_def split: option.splits prod.splits)

lemma returns_packetID:
  fixes h :: "'s Handler"
  shows "randomAlive (hdRandom h) \<Longrightarrow> returns (packetID h)"
  unfolding returns_def
proof
  fix st :: "'s HandlerState"
  assume "randomAlive (hdRandom h)"
  then obtain k where "hdRandom h (hsRandom st + k) \<noteq> Inr 0" unfolding randomAlive_def by blast
  from packetIDLoop_returns [of "hdRandom h" "hsRandom st" k] this show "packetID h st \<noteq> None" by (auto simp: packetID_def)
qed

section \<open>The handler returns\<close>

lemma returns_session: "randomAlive (hdRandom h) \<Longrightarrow> returns (sessionDatagrams cr h n s v p)"
  unfolding sessionDatagrams_def by (intro returns_intros returns_packetID)

lemma returns_replies: "randomAlive (hdRandom h) \<Longrightarrow> returns (replyDatagrams cr h s replies)"
  by (induction replies) (auto intro!: returns_intros returns_session)

lemma returns_Handle:
  assumes "randomAlive (hdRandom h)"
  shows "returns (Handle cr h ctx datagram remote)"
  using assms unfolding Handle_def handlePacket_def handleHello_def
  by (auto intro!: returns_intros returns_packetID returns_replies split: prod.splits)

lemma returns_revocations: "randomAlive (hdRandom h) \<Longrightarrow> returns (revocationDatagrams cr h payload members)"
proof (induction members)
  case (Cons m ms)
  let ?f = "\<lambda>session. hbind (packetID h) (\<lambda>i.
          hbind (hlift (Build i (mbNodeID m) (idAddress (hdIdentity h)) VerbNetworkCredentials payload)) (\<lambda>draft.
          hbind (hlift (wrapErr ''armor revocation for %s: %w'' (ArmorSessionAndFragment cr draft (ssSharedKey session) True
            (ssProtocolVersion session \<ge> 12) (int DefaultPhysicalMTU)))) (\<lambda>armored.
          hbind (revocationDatagrams cr h payload ms) (\<lambda>rest.
          hret (map (\<lambda>datagram. \<lparr> odEndpoint = ssEndpoint session, odPayload = datagram \<rparr>) armored @ rest)))))"
  have "returns (?f session)" for session using Cons by (intro returns_intros returns_packetID)
  moreover have "revocationDatagrams cr h payload ms st \<noteq> None" for st using Cons by (simp add: returns_def)
  ultimately show ?case unfolding returns_def revocationDatagrams.simps by (auto split: sum.splits)
qed (simp add: returns_def)

section \<open>What the handler changes\<close>

text \<open>
  What a datagram cannot touch: the network documents and the authorizations, the well-formedness of
  the store, and the invariant of the registry.
\<close>

definition handlerSafe :: "Crypto \<Rightarrow> NodeID set \<Rightarrow> MemStore HandlerState \<Rightarrow> MemStore HandlerState \<Rightarrow> bool" where
  "handlerSafe cr upstreams st0 st = (memInv (wStore (hsWorld st)) \<and> reachableRegistry cr upstreams (hsPeers st)
     \<and> asNetworks (memAbs (wStore (hsWorld st))) = asNetworks (memAbs (wStore (hsWorld st0)))
     \<and> (\<forall>i j. authorizedIn i j (memAbs (wStore (hsWorld st))) \<longleftrightarrow> authorizedIn i j (memAbs (wStore (hsWorld st0)))))"

lemma keeps_clock:
  "keepsState (handlerSafe cr upstreams st0) (hnow h)" "keepsState (handlerSafe cr upstreams st0) (hallow a t)"
  "keepsState (handlerSafe cr upstreams st0) (packetID h)"
  by (auto simp: keepsState_def handlerSafe_def handling_defs packetID_def split: prod.splits option.splits)

lemma reachable_Authenticate:
  assumes "reachableRegistry cr upstreams r"
  shows "reachableRegistry cr upstreams (snd (Authenticate cr armored destination remote now r))"
proof (cases "authenticateRead cr armored destination remote now r")
  case (Inr x)
  then obtain d source session where x: "authenticateRead cr armored destination remote now r = Inr (d, source, session)"
    by (cases x) auto
  then have "registryEventOk upstreams (Commit source session remote)" by (auto simp: authenticateRead_Inr)
  from reachableRegistry.step [OF assms this] show ?thesis using x by (auto simp: Authenticate_def split: prod.splits)
qed (use assms in \<open>simp add: Authenticate_def\<close>)

lemma keeps_Authenticate: "keepsState (handlerSafe cr upstreams st0) (hpeers (Authenticate cr datagram n remote now))"
proof (unfold keepsState_def, intro allI impI)
  fix st r st'
  assume "handlerSafe cr upstreams st0 st" "hpeers (Authenticate cr datagram n remote now) st = Some (r, st')"
  then show "handlerSafe cr upstreams st0 st'"
    using reachable_Authenticate [of cr upstreams "hsPeers st" datagram n remote now]
    by (auto simp: handlerSafe_def hpeers_def split: prod.splits)
qed

lemma keeps_Learn:
  assumes "wfIdentity (hlIdentity hello)"
  shows "keepsState (handlerSafe cr upstreams st0) (hpeers (LearnValidatedHello hello key remote now))"
proof (unfold keepsState_def, intro allI impI)
  fix st r st'
  assume st: "handlerSafe cr upstreams st0 st" "hpeers (LearnValidatedHello hello key remote now) st = Some (r, st')"
  then have "reachableRegistry cr upstreams (registryStep cr (LearnValidated hello key remote now) (hsPeers st))"
    using assms by (intro reachableRegistry.step) (auto simp: handlerSafe_def)
  then show "handlerSafe cr upstreams st0 st'" using st by (auto simp: handlerSafe_def hpeers_def split: prod.splits)
qed

lemma keeps_Config:
  assumes "svStore sv = memoryStore"
  shows "keepsState (handlerSafe cr upstreams st0) (hservice (HandleConfigRequest cr sv None d recipient k))"
proof (unfold keepsState_def, intro allI impI)
  fix st r st'
  assume st: "handlerSafe cr upstreams st0 st" "hservice (HandleConfigRequest cr sv None d recipient k) st = Some (r, st')"
  obtain q w where w: "HandleConfigRequest cr sv None d recipient k (hsWorld st) = (q, w)" by force
  from mem_request_keeps [OF assms _ w] st w show "handlerSafe cr upstreams st0 st'"
    by (auto simp: handlerSafe_def hservice_def)
qed

lemma keeps_replies: "keepsState (handlerSafe cr upstreams st0) (replyDatagrams cr h s replies)"
  by (induction replies) (auto simp: sessionDatagrams_def intro!: keepsState_basic keepsState_hbind keeps_clock)

lemma keeps_Handle:
  assumes "svStore (hdService h) = memoryStore"
  shows "keepsState (handlerSafe cr upstreams st0) (Handle cr h None datagram remote)"
proof -
  have hello: "keepsState (handlerSafe cr upstreams st0) (handleHello cr h datagram remote)"
    unfolding handleHello_def
    by (rule keepsState_hlift) (auto intro!: keepsState_basic keepsState_hbind keeps_clock keeps_Learn dest: hello_accepted split: prod.splits)
  have "keepsState (handlerSafe cr upstreams st0) (handlePacket cr h None datagram remote)"
    unfolding handlePacket_def
    by (auto intro!: keepsState_basic keepsState_hbind keeps_clock keeps_Authenticate keeps_Config [OF assms] keeps_replies split: prod.splits)
  then show ?thesis unfolding Handle_def by (auto intro!: keepsState_basic keepsState_hbind keeps_clock hello)
qed

section \<open>What the peer receives\<close>

definition messageFor :: "Crypto \<Rightarrow> 's Handler \<Rightarrow> NodeID \<Rightarrow> Session \<Rightarrow> byte \<Rightarrow> bytes \<Rightarrow> bytes list \<Rightarrow> bool" where
  "messageFor cr h destination session verb payload frags = (\<exists>i draft. i \<noteq> 0
     \<and> Build i destination (idAddress (hdIdentity h)) verb payload = Inr draft
     \<and> ArmorSessionAndFragment cr draft (ssSharedKey session) True (ssProtocolVersion session \<ge> 12) (int DefaultPhysicalMTU) = Inr frags)"

text \<open>
  The datagrams \<open>frags\<close> bring a message: from whatever endpoint, in whatever order and at whatever times
  within the reassembly window they arrive, a receiver with a free slot completes one packet with
  the last of them, and the key reads from it this verb and payload, from this source to this
  destination.
\<close>

definition brings :: "Crypto \<Rightarrow> bytes \<Rightarrow> bytes list \<Rightarrow> byte \<Rightarrow> bytes \<Rightarrow> NodeID \<Rightarrow> NodeID \<Rightarrow> bool" where
  "brings cr key frags verb payload source destination = (\<forall>table ep arr.
     fmlookup table (ep, be_word (take 8 (frags ! 0))) = None \<longrightarrow> fcard (fmdom table) < maxReassemblySlots \<longrightarrow>
     distinct (map fst arr) \<longrightarrow> set (map fst arr) = {..<length frags} \<longrightarrow>
     list_all (\<lambda>(i, t). timeSub t (snd (arr ! 0)) < reassemblyTTL) arr \<longrightarrow>
     (\<exists>packet d table'. pushAll (map (\<lambda>(i, t). (frags ! i, ep, t)) arr) table
         = (replicate (length frags - 1) (Inr None) @ [Inr (Some packet)], table')
       \<and> DearmorSession cr packet key = Inr d \<and> dcVerb d = verb \<and> dcPayload d = payload
       \<and> rhSource (dcRouting d) = source \<and> rhDestination (dcRouting d) = destination))"

lemma unreserved_byte:
  assumes "wfIdentity i"
  shows "decodedHex (idAddress i) ! 0 \<noteq> 0xff"
proof
  assume f: "decodedHex (idAddress i) ! 0 = 0xff"
  have c: "canonicalHex 10 (idAddress i)" using assms by (simp add: wfIdentity_def)
  obtain b bs where b: "decodedHex (idAddress i) = b # bs" using decodedHex_node(1) [OF c] by (cases "decodedHex (idAddress i)") auto
  have "hexdigit 15 = CHR ''f''" by code_simp
  then have "take 2 (hex_encode (0xff # bs)) = ''ff''" by simp
  moreover have "hex_encode (0xff # bs) = idAddress i" using decodedHex_node(2) [OF c] f b by simp
  ultimately have "take 2 (idAddress i) = ''ff''" by metis
  then show False using assms by (simp add: wfIdentity_def isReserved_def)
qed

lemma fragments_nonempty: "fragmentArmored a mtu = Inr frags \<Longrightarrow> frags \<noteq> []"
  by (auto simp: fragmentArmored_def Let_def split: if_splits)

lemma messageFor_brings:
  assumes "aes_law cr" "wfIdentity (hdIdentity h)" "messageFor cr h destination session verb payload frags"
  shows "brings cr (ssSharedKey session) frags verb payload (idAddress (hdIdentity h)) destination"
proof -
  obtain i draft where b: "Build i destination (idAddress (hdIdentity h)) verb payload = Inr draft"
    and f: "ArmorSessionAndFragment cr draft (ssSharedKey session) True (ssProtocolVersion session \<ge> 12) (int DefaultPhysicalMTU) = Inr frags"
    using assms(3) unfolding messageFor_def by blast
  have m: "28 \<le> effectiveMTU (int DefaultPhysicalMTU)" by (simp add: effectiveMTU_def packet_consts)
  have n: "frags \<noteq> []" using ArmorSessionAndFragment_Inr [OF f m] fragments_nonempty by blast
  have c: "canonicalHex 10 (idAddress (hdIdentity h))" "canonicalHex 10 destination" using b by (auto simp: Build_Inr)
  have s: "draft ! 13 \<noteq> 0xff"
    using unreserved_byte [OF assms(2)] b c by (auto simp: Build_Inr nth_append)
  show ?thesis unfolding brings_def
  proof (intro allI impI)
    fix table :: reassembler and ep :: AddrPort and arr :: "(nat \<times> time) list"
    assume a: "fmlookup table (ep, be_word (take 8 (frags ! 0))) = None" "fcard (fmdom table) < maxReassemblySlots"
      "distinct (map fst arr)" "set (map fst arr) = {..<length frags}" "list_all (\<lambda>(i, t). timeSub t (snd (arr ! 0)) < reassemblyTTL) arr"
    then have "arr \<noteq> []" using n by auto
    then show "\<exists>packet d table'. pushAll (map (\<lambda>(i, t). (frags ! i, ep, t)) arr) table
         = (replicate (length frags - 1) (Inr None) @ [Inr (Some packet)], table')
       \<and> DearmorSession cr packet (ssSharedKey session) = Inr d \<and> dcVerb d = verb \<and> dcPayload d = payload
       \<and> rhSource (dcRouting d) = idAddress (hdIdentity h) \<and> rhDestination (dcRouting d) = destination"
      using delivers [OF assms(1) ParseDecoded_Build [OF b] _ s f m, of table ep arr] a n
      by (auto simp: hd_conv_nth sameMessage_def)
  qed
qed

lemma sessionDatagrams_Inr:
  assumes "sessionDatagrams cr h destination session verb payload st = Some (Inr frags, st')"
  shows "messageFor cr h destination session verb payload frags" "hsWorld st' = hsWorld st" "hsPeers st' = hsPeers st"
  using assms by (auto simp: sessionDatagrams_def hbind_Inr messageFor_def dest: packetID_Inr)

lemma replyDatagrams_Inr:
  "replyDatagrams cr h session replies st = Some (Inr out, st') \<Longrightarrow>
   hsWorld st' = hsWorld st \<and> hsPeers st' = hsPeers st \<and> (\<exists>groups. out = concat groups
     \<and> list_all2 (\<lambda>reply frags. messageFor cr h (idAddress (ssIdentity session)) session (rpVerb reply) (rpPayload reply) frags) replies groups)"
proof (induction replies arbitrary: st out)
  case (Cons reply replies)
  then obtain frags st1 rest where f: "sessionDatagrams cr h (idAddress (ssIdentity session)) session (rpVerb reply) (rpPayload reply) st
      = Some (Inr frags, st1)" and r: "replyDatagrams cr h session replies st1 = Some (Inr rest, st')" "out = frags @ rest"
    by (auto simp: hbind_Inr)
  from Cons.IH [OF r(1)] obtain groups where g: "rest = concat groups" "hsWorld st' = hsWorld st1" "hsPeers st' = hsPeers st1"
    "list_all2 (\<lambda>reply frags. messageFor cr h (idAddress (ssIdentity session)) session (rpVerb reply) (rpPayload reply) frags) replies groups"
    by blast
  show ?case using sessionDatagrams_Inr [OF f] g r(2) by (intro conjI exI [of _ "frags # groups"]) auto
qed simp

lemma handlePacket_Inr:
  assumes "handlePacket cr h ctx datagram remote st = Some (Inr out, st')"
  shows "\<exists>d session peers decoded replies w.
    Authenticate cr datagram (idAddress (hdIdentity h)) remote (hdNow h (hsClock st)) (hsPeers st) = (Inr (d, session), peers)
    \<and> Decompress d (int (MaxPacketLength - HeaderLength)) = Inr decoded \<and> dcVerb decoded = VerbNetworkConfigRequest
    \<and> HandleConfigRequest cr (hdService h) ctx decoded (ssIdentity session) (hdIdentity h) (hsWorld st) = (Inr replies, w)
    \<and> replyDatagrams cr h session replies (st\<lparr>hsClock := Suc (hsClock st), hsPeers := peers, hsWorld := w\<rparr>) = Some (Inr out, st')"
  using assms by (auto simp: handlePacket_def hbind_Inr split: if_splits)

section \<open>The handshake\<close>

lemma BuildHello_wire:
  assumes "BuildHello cr i (Public b) a version ts wid wts key = Inr armored" "wfIdentity a"
  shows "28 \<le> length armored" "\<not> IsFragment (withHops x armored)" "rhDestination (routingOf (withHops x armored)) = idAddress b"
    "isHello (withHops x armored) (routingOf (withHops x armored))"
proof -
  obtain payload draft where dr: "Build i (idAddress b) (idAddress a) VerbHello payload = Inr draft"
    and ar: "armor cr draft (salsaKey key) False False = Inr armored"
    using assms(1) by (auto simp: BuildHello_def Let_def rbind_eq_Inr ArmorSession_def Armor_def split: if_splits)
  have l: "28 \<le> length draft" using length_Build [OF dr] by simp
  note c = armor_clear [OF ar l]
  have n: "armored ! 13 = draft ! 13" "take 18 armored = take 18 draft"
    using ar l by (auto simp: armor_def Let_def nth_append split: if_splits)
  from Build_Dearmor [OF dr ar, of x] obtain m where
    m: "Dearmor cr (withHops x armored) (salsaKey key) = Inr m" "rhDestination (dcRouting m) = idAddress b"
      "\<not> rhCipher (routingOf (withHops x armored)) = CipherAESGMACSIV" by metis
  show la: "28 \<le> length armored" using l c(2) by simp
  have "DearmorSession cr (withHops x armored) key = Inr m" using m(1,3) la by (simp add: DearmorSession_def ParseRouting_eq)
  from DearmorSession_routing(1) [OF this] m(2) show "rhDestination (routingOf (withHops x armored)) = idAddress b" by simp
  have "draft ! 13 \<noteq> 0xff" using unreserved_byte [OF assms(2)] dr by (auto simp: Build_Inr nth_append)
  then show "\<not> IsFragment (withHops x armored)" using la n(1) by (simp add: IsFragment_def withHops_def)
  have "armored ! 27 = VerbHello"
    using arg_cong [OF c(1), of "\<lambda>t. t ! 0"] Build_layout(2) [OF dr] la l by simp
  then show "isHello (withHops x armored) (routingOf (withHops x armored))"
    using la c(3) Build_layout(1) [OF dr] cipher_bits(1) [of 0 False False]
    by (simp add: isHello_def routingOf_def withHops_def flag_bits packet_consts)
qed

lemma LearnValidatedHello_accepts:
  assumes "addrPortIsValid remote" "\<not> IsZero now" "canonicalHex 10 (idAddress (hlIdentity hello))"
    and "case fmlookup (rgSessions r) (idAddress (hlIdentity hello)) of
      Some s \<Rightarrow> ssIdentity s = Public (hlIdentity hello) | None \<Rightarrow> True"
    and "fcard (fmdom (rgSessions r)) < maxRegistrySessions"
  shows "\<exists>session r'. LearnValidatedHello hello key remote now r = (Inr session, r')"
proof -
  let ?r = "snd (pruneLocked now False r)"
  have "\<not> collides ?r (idAddress (hlIdentity hello)) (learnedSession hello key remote now)"
    using assms(4) by (auto simp: collides_def learnedSession_def split: option.splits)
  moreover have "fcard (fmdom (rgSessions ?r)) < maxRegistrySessions"
    using card_mono [OF _ dom_pruneLocked [of now False r]] assms(5) by (simp add: fcard.rep_eq)
  ultimately show ?thesis using assms(1-3) by (simp add: LearnValidatedHello_def Let_def)
qed

lemma BuildHelloOK_length:
  assumes "BuildHelloOK cr i request local observed version key = Inr reply"
  shows "length reply \<le> DefaultPhysicalMTU"
proof -
  obtain sa draft where "serializeInetAddress observed = Inr sa"
    and dr: "Build i (idAddress (hlIdentity request)) (idAddress local) VerbOK ([VerbHello] @ be_bytes 8 (rhPacketID (hlRouting request))
      @ be_bytes 8 (hlTimestamp request) @ [lvProtocol version, lvMajor version, lvMinor version] @ be_bytes 2 (lvRevision version)
      @ sa @ be_bytes 2 (0 :: uint16)) = Inr draft"
    and ar: "armor cr draft (salsaKey key) True False = Inr reply"
    using assms by (auto simp: BuildHelloOK_def Let_def rbind_eq_Inr Armor_def split: if_splits)
  moreover have "length sa \<le> 19"
    using \<open>serializeInetAddress observed = Inr sa\<close> by (cases "iaAddress observed") (auto simp: serializeInetAddress_def)
  ultimately show ?thesis
    using length_Build [OF dr] Dearmor_armor(3) [OF ar ParseDecoded_Build [OF dr]] by (simp add: packet_consts)
qed

section \<open>Revocations\<close>

text \<open>The members of a list that have a session.\<close>

fun online :: "Registry \<Rightarrow> Member list \<Rightarrow> (Member \<times> Session) list" where
  "online r [] = []"
| "online r (m # ms) = (case GetSession (mbNodeID m) r of Inl _ \<Rightarrow> online r ms | Inr s \<Rightarrow> (m, s) # online r ms)"

definition revocationFor :: "Crypto \<Rightarrow> 's Handler \<Rightarrow> bytes \<Rightarrow> Member \<times> Session \<Rightarrow> OutboundDatagram list \<Rightarrow> bool" where
  "revocationFor cr h payload ms ods = (list_all (\<lambda>od. odEndpoint od = ssEndpoint (snd ms)) ods
     \<and> messageFor cr h (mbNodeID (fst ms)) (snd ms) VerbNetworkCredentials payload (map odPayload ods))"

lemma revocationDatagrams_Inr:
  "revocationDatagrams cr h payload members st = Some (Inr out, st') \<Longrightarrow>
   hsWorld st' = hsWorld st \<and> hsPeers st' = hsPeers st
   \<and> (\<exists>groups. out = concat groups \<and> list_all2 (revocationFor cr h payload) (online (hsPeers st) members) groups)"
proof (induction members arbitrary: st out)
  case (Cons m ms)
  show ?case
  proof (cases "GetSession (mbNodeID m) (hsPeers st)")
    case (Inl e)
    with Cons.IH [of st out] Cons.prems show ?thesis by simp
  next
    case (Inr session)
    with Cons.prems obtain i st1 draft frags rest where
      i: "packetID h st = Some (Inr i, st1)" and b: "Build i (mbNodeID m) (idAddress (hdIdentity h)) VerbNetworkCredentials payload = Inr draft"
      and f: "ArmorSessionAndFragment cr draft (ssSharedKey session) True (ssProtocolVersion session \<ge> 12) (int DefaultPhysicalMTU) = Inr frags"
      and r: "revocationDatagrams cr h payload ms st1 = Some (Inr rest, st')"
      and out: "out = map (\<lambda>datagram. \<lparr> odEndpoint = ssEndpoint session, odPayload = datagram \<rparr>) frags @ rest"
      by (auto simp: hbind_Inr)
    note P = packetID_Inr [OF i]
    from Cons.IH [OF r] P obtain groups where g: "rest = concat groups" "hsWorld st' = hsWorld st" "hsPeers st' = hsPeers st"
      "list_all2 (revocationFor cr h payload) (online (hsPeers st) ms) groups" by auto
    have "revocationFor cr h payload (m, session) (map (\<lambda>datagram. \<lparr> odEndpoint = ssEndpoint session, odPayload = datagram \<rparr>) frags)"
      using P(1) b f by (auto simp: revocationFor_def messageFor_def comp_def list_all_iff)
    then show ?thesis using g out Inr
      by (intro conjI exI [of _ "map (\<lambda>datagram. \<lparr> odEndpoint = ssEndpoint session, odPayload = datagram \<rparr>) frags # groups"]) auto
  qed
qed simp

section \<open>A concrete controller\<close>

definition toyHandler :: "MemStore Handler" where
  "toyHandler = \<lparr> hdService = toyService, hdIdentity = toyIdentity 7, hdRandom = (\<lambda>_. Inr 1), hdNow = (\<lambda>_. 2), hdVersion = toyVersion \<rparr>"

definition toyState :: "MemStore HandlerState" where
  "toyState = \<lparr> hsWorld = toyWorld\<lparr>wStore := memNew\<rparr>, hsPeers = toyRegistry, hsHellos = newHelloLimiter, hsClock = 0, hsRandom = 0 \<rparr>"

lemma toy_random: "randomAlive (hdRandom toyHandler)" "packetID toyHandler st = Some (Inr 1, st\<lparr>hsRandom := Suc (hsRandom st)\<rparr>)"
  by (simp_all add: toyHandler_def randomAlive_def packetID_def packetIDLoop_step)

lemma ParseRequest_cong:
  "dcVerb d = dcVerb e \<Longrightarrow> dcCompressed d = dcCompressed e \<Longrightarrow> dcPayload d = dcPayload e \<Longrightarrow> ParseRequest d = ParseRequest e"
  by (simp add: ParseRequest_def)

lemma toy_config_reply:
  assumes "sameMessage ConfigHandler.toyRequest d"
  shows "\<exists>payload. HandleConfigRequest toyCrypto toyService None d (toySender ''0000000040'') (toyIdentity 7) (toyWorld\<lparr>wStore := memNew\<rparr>)
      = (Inr [\<lparr> rpVerb = VerbError, rpPayload = payload \<rparr>], toyWorld\<lparr>wStore := memNew\<rparr>) \<and> length payload = 18"
proof -
  have "ParseRequest d = Inr toyParsed"
    using assms ParseRequest_cong [of d ConfigHandler.toyRequest] toyRequest_parses by (simp add: sameMessage_def)
  moreover have "stGetNetwork memoryStore None toyNetworkID memNew = Inl ErrNotFound" by (simp add: memGetNetwork_def memNew_def)
  moreover have "requestAdmissible toyService d (toySender ''0000000040'') (toyIdentity 7)"
    using assms by (simp add: sameMessage_def requestAdmissible_def ConfigHandler.toyRequest_def toySender_def toyService_def toyIdentity_def)
  ultimately show ?thesis
    using toyNetworkID_canonical
    by (simp add: HandleConfigRequest_def requestAdmissible_def sbind_def slift_def scatch_def sread_def toyParsed_def
        configErrorReply_def WrapError_def toyService_def toyIdentity_def)
qed

lemma toy_message:
  assumes "length payload \<le> 1000" "verb \<le> 31"
  shows "\<exists>draft frags. Build 1 ''0000000040'' (idAddress (hdIdentity toyHandler)) verb payload = Inr draft
    \<and> ArmorSessionAndFragment toyCrypto draft key True x (int DefaultPhysicalMTU) = Inr frags \<and> frags \<noteq> []"
proof -
  have c: "canonicalHex 10 ''0000000040''" "canonicalHex 10 (idAddress (hdIdentity toyHandler))"
    by (simp_all add: canonicalHex_def lowerhex_def toyHandler_def toyIdentity_def)
  obtain draft where dr: "Build 1 ''0000000040'' (idAddress (hdIdentity toyHandler)) verb payload = Inr draft"
    using c assms by (simp add: Build_Inr packet_consts)
  have l: "28 \<le> length draft" "length draft \<le> 1028" using length_Build [OF dr] assms by simp_all
  obtain a where a: "ArmorSession toyCrypto draft key True x = Inr a" "length a = length draft"
    using l by (cases x) (auto simp: ArmorSession_def Armor_def armor_def ArmorAES_def aesSessionKeys_def Let_def packet_consts Poly1305Sum_def)
  then have "\<exists>frags. ArmorSessionAndFragment toyCrypto draft key True x (int DefaultPhysicalMTU) = Inr frags \<and> frags \<noteq> []"
    using l by (cases x) (auto simp: ArmorSessionAndFragment_def ArmorAndFragment_def ArmorSession_def draftOf_def Let_def packet_consts fragmentArmored_def)
  then show ?thesis using dr by blast
qed

lemma toy_session:
  assumes "length payload \<le> 1000" "verb \<le> 31"
  shows "\<exists>frags. sessionDatagrams toyCrypto toyHandler ''0000000040'' s verb payload st = Some (Inr frags, st\<lparr>hsRandom := Suc (hsRandom st)\<rparr>)"
  using toy_message [OF assms] by (fastforce simp: sessionDatagrams_def hbind_def toy_random hlift_def)

lemma memNew_inv: "memInv memNew"
  by (simp add: memInv_def wfAStore_def memNew_def lookup2_def)

lemma toy_handled:
  "\<exists>datagram out st'. Handle toyCrypto toyHandler None datagram toyEndpoint toyState = Some (Inr out, st')
     \<and> \<not> isHello datagram (routingOf datagram)"
proof -
  have c: "canonicalHex 10 ''0000000040''" "canonicalHex 10 ''8056c2e21c''" by (simp_all add: canonicalHex_def lowerhex_def)
  obtain draft where dr: "Build 9 ''8056c2e21c'' ''0000000040'' VerbNetworkConfigRequest (dcPayload ConfigHandler.toyRequest) = Inr draft"
    using c by (simp add: Build_Inr packet_consts ConfigHandler.toyRequest_def)
  note m = ParseDecoded_Build [OF dr]
  have l: "length draft = 38" using length_Build [OF dr] by (simp add: ConfigHandler.toyRequest_def)
  obtain a where a: "ArmorSession toyCrypto draft (replicate 48 5) True True = Inr a"
    using l by (simp add: ArmorSession_def ArmorAES_def aesSessionKeys_def Let_def packet_consts)
  have law: "aes_law toyCrypto" by (simp add: aes_law_def toyCrypto_def)
  have a': "ArmorAES toyCrypto draft (replicate 48 5) = Inr a" using a by (simp add: ArmorSession_def)
  have A: "rhCipher (routingOf a) = CipherAESGMACSIV" "length a = length draft"
    using DearmorAES_Armor(2) [OF law a' m, of "a ! 18"] DearmorAES_Armor(3) [OF law a' m] by (simp_all add: withHops_same)
  from learned_session [OF law toyLearn_result a m, of 2 toyEndpoint "a ! 18"] obtain d session peers where
    d: "Authenticate toyCrypto a ''8056c2e21c'' toyEndpoint 2 toyRegistry = (Inr (d, session), peers)" "ssIdentity session = toySender ''0000000040''"
    and sm: "sameMessage ConfigHandler.toyRequest d"
    by (auto simp: withHops_same toyRequest_def toySender_def IsZero_def toyEndpoint_def addrPortIsValid_def Public_def sameMessage_def
        ConfigHandler.toyRequest_def)
  have wire: "rhCipher (routingOf a) = CipherAESGMACSIV" "28 \<le> length a" "rhDestination (routingOf a) = ''8056c2e21c''"
    using A a l d(1) by (auto simp: ArmorSession_def Authenticate_Inr)
  then have nh: "\<not> isHello a (routingOf a)" by (simp add: isHello_def packet_consts)
  have "a ! 13 = draft ! 13" using ArmorSession_header [OF a] l by simp
  moreover have "decodedHex ''0000000040'' ! 0 = 0" by code_simp
  moreover have "draft ! 13 = decodedHex ''0000000040'' ! 0"
    using dr decodedHex_node(1) [OF c(1)] decodedHex_node(1) [OF c(2)] by (auto simp: Build_Inr nth_append simp del: decodedHex.simps)
  ultimately have "a ! 13 = 0" by simp
  then have nf: "\<not> IsFragment a" by (simp add: IsFragment_def)
  obtain payload where p: "HandleConfigRequest toyCrypto toyService None d (toySender ''0000000040'') (toyIdentity 7) (toyWorld\<lparr>wStore := memNew\<rparr>)
      = (Inr [\<lparr> rpVerb = VerbError, rpPayload = payload \<rparr>], toyWorld\<lparr>wStore := memNew\<rparr>)" "length payload = 18"
    using toy_config_reply [OF sm] by blast
  have dc: "Decompress d (int (MaxPacketLength - HeaderLength)) = Inr d" "dcVerb d = VerbNetworkConfigRequest"
    using sm by (simp_all add: Decompress_def sameMessage_def ConfigHandler.toyRequest_def)
  have id: "idAddress (ssIdentity session) = ''0000000040''" by (simp add: d(2) toySender_def)
  obtain frags where f: "sessionDatagrams toyCrypto toyHandler ''0000000040'' session VerbError payload
      (toyState\<lparr>hsClock := 1, hsPeers := peers\<rparr>) = Some (Inr frags, (toyState\<lparr>hsClock := 1, hsPeers := peers\<rparr>)\<lparr>hsRandom := Suc 0\<rparr>)"
    using toy_session [of payload VerbError session "toyState\<lparr>hsClock := 1, hsPeers := peers\<rparr>"] p(2) by (auto simp: toyState_def packet_consts)
  have "Handle toyCrypto toyHandler None a toyEndpoint toyState = handlePacket toyCrypto toyHandler None a toyEndpoint toyState"
    using nf nh wire by (simp add: Handle_def toyEndpoint_def addrPortIsValid_def hbind_def hlift_def ParseRouting_eq toyHandler_def toyIdentity_def)
  also have "\<dots> = Some (Inr (frags @ []), (toyState\<lparr>hsClock := 1, hsPeers := peers\<rparr>)\<lparr>hsRandom := Suc 0\<rparr>)"
    using d dc p(1) f id
    by (simp add: handlePacket_def hbind_def hnow_def hpeers_def hlift_def hservice_def hret_def toyHandler_def toyState_def toyIdentity_def)
  finally show ?thesis using nh by blast
qed

lemma toy_broadcast:
  "\<exists>out st'. BuildCOMRevocationBroadcast toyCrypto toyHandler (Inr [0, 0, 0, 9]) None toyNetworkID ''0000000040'' 62135596800001000000
     (toyState\<lparr>hsWorld := toyWorld\<rparr>) = Some (Inr out, st') \<and> out \<noteq> []"
proof -
  have t: "idAddress (toyIdentity 7) = take 10 toyNetworkID" "canonicalHex 10 ''0000000040''"
    by (simp_all add: toyIdentity_def toyNetworkID_def canonicalHex_def lowerhex_def)
  obtain r bs where r: "NewCOMRevocation toyCrypto toyNetworkID ''0000000040'' 62135596800001000000 (toyIdentity 7) (Inr [0, 0, 0, 9]) = Inr r"
      "Revocation_MarshalBinary r = Inr bs" and l: "length bs = 152"
    using revocation_issued [OF toy_wf toy_keyPair toyNetworkID_canonical t, of 62135596800001000000 "[0, 0, 0, 9]"]
    by (auto simp: UnixMilli_def)
  have ms: "svcListMembers toyService None toyNetworkID toyWorld = (Inr [toyMember], toyWorld)"
    using toy_listed toy_stored(1) toyNetworkID_canonical
    by (simp add: svcListMembers_def sbind_def slift_def sread_def toyService_def validateOwnedNetwork_def ControllerID_def nodeIDHexLength_def rbind_def toyNetworkID_def)
  obtain s where s: "GetSession ''0000000040'' toyRegistry = Inr s"
    using t(2) toyRegistry_lookup by (simp add: GetSession_def)
  have "length (BuildRevocationCredentialsPayload bs) \<le> 1000" using l by (simp add: BuildRevocationCredentialsPayload_def)
  from toy_message [OF this, of VerbNetworkCredentials "ssSharedKey s" "ssProtocolVersion s \<ge> 12"] obtain draft frags where
    f: "Build 1 ''0000000040'' (idAddress (hdIdentity toyHandler)) VerbNetworkCredentials (BuildRevocationCredentialsPayload bs) = Inr draft"
      "ArmorSessionAndFragment toyCrypto draft (ssSharedKey s) True (ssProtocolVersion s \<ge> 12) (int DefaultPhysicalMTU) = Inr frags" "frags \<noteq> []"
    by (auto simp: packet_consts)
  have "revocationDatagrams toyCrypto toyHandler (BuildRevocationCredentialsPayload bs) [toyMember] (toyState\<lparr>hsWorld := toyWorld\<rparr>)
    = Some (Inr (map (\<lambda>datagram. \<lparr> odEndpoint = ssEndpoint s, odPayload = datagram \<rparr>) frags), toyState\<lparr>hsWorld := toyWorld, hsRandom := Suc 0\<rparr>)"
    using s f(1,2) by (simp add: toy_wfs toyState_def hbind_def toy_random hlift_def hret_def)
  then show ?thesis using r ms f(3)
    by (simp add: BuildCOMRevocationBroadcast_def hbind_def hlift_def hservice_def toyHandler_def toyState_def)
qed

section \<open>Properties\<close>

text \<open>
  The handler always returns: for every datagram, endpoint and state \<^verbatim>\<open>Handle\<close> gives a result, an error
  or the datagrams to send, provided the random source fails or eventually gives a nonzero number.
\<close>

theorem handle_returns:
  assumes "randomAlive (hdRandom h)"
  shows "\<exists>r st'. Handle cr h ctx datagram remote st = Some (r, st')"
  using returns_Handle [OF assms] unfolding returns_def by fast

theorem handle_returns_witness:
  "\<exists>r st'. Handle toyCrypto toyHandler None toyPacket toyEndpoint toyState = Some (r, st')"
  by (rule handle_returns [OF toy_random(1)])

text \<open>
  Nothing that arrives on the network grants access: whatever datagram comes from wherever, and
  whether \<^verbatim>\<open>Handle\<close> answers it or fails, no network document changes, exactly the members authorized
  before are authorized afterwards, the store keeps its invariant and the registry stays in a
  reachable state, so that its own invariants hold.
\<close>

theorem handle_safe:
  assumes "svStore (hdService h) = memoryStore" "memInv (wStore (hsWorld st))" "reachableRegistry cr upstreams (hsPeers st)"
    and "Handle cr h None datagram remote st = Some (r, st')"
  shows "memInv (wStore (hsWorld st')) \<and> reachableRegistry cr upstreams (hsPeers st')
    \<and> asNetworks (memAbs (wStore (hsWorld st'))) = asNetworks (memAbs (wStore (hsWorld st)))
    \<and> (\<forall>i j. authorizedIn i j (memAbs (wStore (hsWorld st'))) \<longleftrightarrow> authorizedIn i j (memAbs (wStore (hsWorld st))))"
proof -
  have "handlerSafe cr upstreams st st" using assms(2,3) by (simp add: handlerSafe_def)
  then have "handlerSafe cr upstreams st st'" using keeps_Handle [OF assms(1)] assms(4) unfolding keepsState_def by blast
  then show ?thesis by (simp add: handlerSafe_def)
qed

theorem handle_safe_witness:
  "\<exists>r st'. Handle toyCrypto toyHandler None toyPacket toyEndpoint toyState = Some (r, st') \<and> memInv (wStore (hsWorld st'))
     \<and> reachableRegistry toyCrypto {} (hsPeers st')"
proof -
  obtain r st' where h: "Handle toyCrypto toyHandler None toyPacket toyEndpoint toyState = Some (r, st')"
    using returns_Handle [OF toy_random(1), of toyCrypto None toyPacket toyEndpoint] unfolding returns_def by fast
  from handle_safe [OF _ _ _ h, of "{}"] h show ?thesis
    using toyRegistry_reachable memNew_inv by (auto simp: toyHandler_def toyService_def toyState_def)
qed

text \<open>
  C5. What an answer to an authenticated packet is: when \<^verbatim>\<open>Handle\<close> answers a datagram that is not a HELLO,
  the datagram was addressed to the controller, its source had a session under whose key it
  dearmored, it expanded to a configuration request, and the answer is that of
  \<^verbatim>\<open>HandleConfigRequest\<close> for the identity of that session. The datagrams returned are one group for
  each reply, and each group brings its verb and payload to the holder of the session key, from the
  controller, in whatever order its datagrams arrive.
\<close>

theorem handle_answers:
  assumes "aes_law cr" "wfIdentity (hdIdentity h)" "Handle cr h ctx datagram remote st = Some (Inr out, st')"
    and "\<not> isHello datagram (routingOf datagram)"
  shows "\<exists>s d decoded replies groups. fmlookup (rgSessions (hsPeers st)) (rhSource (routingOf datagram)) = Some s
    \<and> rhDestination (routingOf datagram) = idAddress (hdIdentity h)
    \<and> DearmorSession cr datagram (ssSharedKey s) = Inr d \<and> Decompress d (int (MaxPacketLength - HeaderLength)) = Inr decoded
    \<and> dcVerb decoded = VerbNetworkConfigRequest
    \<and> HandleConfigRequest cr (hdService h) ctx decoded (Public (ssIdentity s)) (hdIdentity h) (hsWorld st) = (Inr replies, hsWorld st')
    \<and> out = concat groups
    \<and> list_all2 (\<lambda>reply frags. brings cr (ssSharedKey s) frags (rpVerb reply) (rpPayload reply)
        (idAddress (hdIdentity h)) (idAddress (ssIdentity s))) replies groups"
proof -
  have r: "28 \<le> length datagram" "rhDestination (routingOf datagram) = idAddress (hdIdentity h)"
    and hp: "handlePacket cr h ctx datagram remote st = Some (Inr out, st')"
    using assms(3,4) by (auto simp: Handle_def hbind_Inr ParseRouting_Inr split: if_splits)
  define now where "now = hdNow h (hsClock st)"
  from handlePacket_Inr [OF hp, folded now_def] obtain d session peers decoded replies w where
    a: "Authenticate cr datagram (idAddress (hdIdentity h)) remote now (hsPeers st) = (Inr (d, session), peers)"
    and dec: "Decompress d (int (MaxPacketLength - HeaderLength)) = Inr decoded" "dcVerb decoded = VerbNetworkConfigRequest"
    and c: "HandleConfigRequest cr (hdService h) ctx decoded (ssIdentity session) (hdIdentity h) (hsWorld st) = (Inr replies, w)"
    and rep: "replyDatagrams cr h session replies (st\<lparr>hsClock := Suc (hsClock st), hsPeers := peers, hsWorld := w\<rparr>) = Some (Inr out, st')"
    by blast
  from a [unfolded Authenticate_Inr] obtain s where
    s: "fmlookup (rgSessions (hsPeers st)) (rhSource (routingOf datagram)) = Some s" "DearmorSession cr datagram (ssSharedKey s) = Inr d"
      "session = cloneSession (s\<lparr>ssLastSeen := now, ssEndpoint := remote\<rparr>)" by blast
  then have sess: "ssIdentity session = Public (ssIdentity s)" "ssSharedKey session = ssSharedKey s" by (simp_all add: cloneSession_def)
  from replyDatagrams_Inr [OF rep] obtain groups where g: "out = concat groups" "hsWorld st' = w"
    "list_all2 (\<lambda>reply frags. messageFor cr h (idAddress (ssIdentity session)) session (rpVerb reply) (rpPayload reply) frags) replies groups"
    by auto
  have "list_all2 (\<lambda>reply frags. brings cr (ssSharedKey s) frags (rpVerb reply) (rpPayload reply)
      (idAddress (hdIdentity h)) (idAddress (ssIdentity s))) replies groups"
    using g(3) by (rule list_all2_mono) (use messageFor_brings [OF assms(1,2)] sess in \<open>metis Public_simps(1)\<close>)
  then show ?thesis using r s(1,2) dec c g(1,2) unfolding sess(1)
    by (intro exI [of _ s] exI [of _ d] exI [of _ decoded] exI [of _ replies] exI [of _ groups]) simp
qed

theorem handle_answers_witness:
  "\<exists>datagram out st' s. Handle toyCrypto toyHandler None datagram toyEndpoint toyState = Some (Inr out, st')
     \<and> fmlookup (rgSessions toyRegistry) (rhSource (routingOf datagram)) = Some s"
proof -
  obtain datagram out st' where h: "Handle toyCrypto toyHandler None datagram toyEndpoint toyState = Some (Inr out, st')"
    "\<not> isHello datagram (routingOf datagram)" using toy_handled by blast
  have law: "aes_law toyCrypto" "wfIdentity (hdIdentity toyHandler)" by (simp_all add: aes_law_def toyCrypto_def toyHandler_def toy_wf)
  from handle_answers [OF law h] h(1) show ?thesis by (auto simp: toyState_def)
qed

text \<open>
  C6. The handshake: when a peer sends the HELLO it built for the controller's identity and the rate
  limiter lets it through, \<^verbatim>\<open>Handle\<close> returns one datagram; with the agreed key the peer reads from it
  the answer to its request, with its own packet ID and timestamp and the address the controller
  saw. The controller then has a session for the peer's public identity under the same key.
\<close>

theorem handle_hello:
  assumes "x25519_law cr" "wfIdentity a" "keyPair cr a" "LocallyValidate cr a"
    and "wfIdentity b" "keyPair cr b" "LocallyValidate cr b" "hdIdentity h = b"
    and "Agree cr a (Public b) 48 = Inr key" "BuildHello cr i (Public b) a version ts wid wts key = Inr armored"
    and "addrPortIsValid remote" "\<And>n. \<not> IsZero (hdNow h n)" "fst (allow (apAddr remote) (hdNow h (hsClock st)) (hsHellos st))"
    and "case fmlookup (rgSessions (hsPeers st)) (idAddress a) of Some s \<Rightarrow> ssIdentity s = Public a | None \<Rightarrow> True"
    and "fcard (fmdom (rgSessions (hsPeers st))) < maxRegistrySessions"
    and "hdRandom h (hsRandom st) = Inr j" "j \<noteq> 0" "MinimumProtocolVersion \<le> lvProtocol (hdVersion h)"
  shows "\<exists>reply st' d s. Handle cr h ctx (withHops x armored) remote st = Some (Inr [reply], st')
    \<and> DearmorSession cr reply key = Inr d
    \<and> ParseHelloOK d = Inr \<lparr> hkRequestPacketID = i, hkTimestamp = ts, hkVersion = hdVersion h,
        hkExternalSurface = Some \<lparr> iaAddress = wireAddress (apAddr remote), iaPort = apPort remote \<rparr>, hkWorldUpdate = [] \<rparr>
    \<and> fmlookup (rgSessions (hsPeers st')) (idAddress a) = Some s \<and> ssIdentity s = Public a \<and> ssSharedKey s = key
    \<and> ssEndpoint s = remote \<and> ssProtocolVersion s = lvProtocol version"
proof -
  note W = BuildHello_wire(1) [OF assms(10,2)] BuildHello_wire(2-4) [OF assms(10,2), of x]
  have v: "MinimumProtocolVersion \<le> lvProtocol version" using assms(10) by (auto simp: BuildHello_def not_less split: if_splits)
  from hello_exchange [OF assms(1-7,9) v, of i ts wid wts x] assms(10) obtain hello where
    hello: "AuthenticateHello cr (withHops x armored) b = Inr (hello, key)" "hlIdentity hello = Public a"
      "rhPacketID (hlRouting hello) = i" "hlProtocolVersion hello = lvProtocol version" "hlTimestamp hello = ts" by auto
  let ?now = "hdNow h (Suc (hsClock st))"
  have c: "canonicalHex 10 (idAddress a)" "canonicalHex 10 (idAddress b)" using assms(2,5) by (simp_all add: wfIdentity_def)
  have ad: "idAddress (hlIdentity hello) = idAddress a" by (simp add: hello(2))
  have "case fmlookup (rgSessions (hsPeers st)) (idAddress (hlIdentity hello)) of
      Some s \<Rightarrow> ssIdentity s = Public (hlIdentity hello) | None \<Rightarrow> True"
    unfolding ad using assms(14) by (simp add: hello(2) Public_def split: option.splits)
  then obtain session peers where L: "LearnValidatedHello hello key remote ?now (hsPeers st) = (Inr session, peers)"
    using LearnValidatedHello_accepts [of remote ?now hello "hsPeers st" key] assms(11,12,15) ad c by auto
  let ?obs = "\<lparr> iaAddress = apAddr remote, iaPort = apPort remote \<rparr>"
  have "addrIsValid (iaAddress ?obs)" using assms(11) by (simp add: addrPortIsValid_def)
  from hello_ok_exchange [OF _ c(2) this assms(18), of hello cr j key] c(1) hello(2) obtain reply where
    R: "BuildHelloOK cr j hello b ?obs (hdVersion h) key = Inr reply" by auto
  from hello_ok_exchange [OF _ c(2) \<open>addrIsValid (iaAddress ?obs)\<close> assms(18), of hello cr j key "reply ! 18"] c(1) hello R obtain d where
    D: "DearmorSession cr reply key = Inr d" "ParseHelloOK d = Inr \<lparr> hkRequestPacketID = i, hkTimestamp = ts, hkVersion = hdVersion h,
        hkExternalSurface = Some \<lparr> iaAddress = wireAddress (apAddr remote), iaPort = apPort remote \<rparr>, hkWorldUpdate = [] \<rparr>"
    by (auto simp: withHops_same)
  have len: "length reply \<le> DefaultPhysicalMTU" by (rule BuildHelloOK_length [OF R])
  have pid: "packetIDLoop (hdRandom h) (hsRandom st) = Some (Inr j, Suc (hsRandom st))"
    using packetIDLoop_step [of "hdRandom h" "hsRandom st"] assms(16,17) by simp
  obtain l where l: "allow (apAddr remote) (hdNow h (hsClock st)) (hsHellos st) = (True, l)" using assms(13) by (cases "allow (apAddr remote) (hdNow h (hsClock st)) (hsHellos st)") auto
  have "Handle cr h ctx (withHops x armored) remote st = handleHello cr h (withHops x armored) remote (st\<lparr>hsClock := Suc (hsClock st), hsHellos := l\<rparr>)"
    using W assms(8,11) l by (simp add: Handle_def ParseRouting_eq hbind_def hlift_def hnow_def hallow_def)
  also have "\<dots> = Some (Inr [reply], st\<lparr>hsClock := Suc (Suc (hsClock st)), hsHellos := l, hsPeers := peers, hsRandom := Suc (hsRandom st)\<rparr>)"
    using hello(1) L R len pid assms(8)
    by (simp add: handleHello_def hbind_def hlift_def hnow_def hpeers_def packetID_def hret_def)
  finally have H: "Handle cr h ctx (withHops x armored) remote st
    = Some (Inr [reply], st\<lparr>hsClock := Suc (Suc (hsClock st)), hsHellos := l, hsPeers := peers, hsRandom := Suc (hsRandom st)\<rparr>)" .
  have "fmlookup (rgSessions peers) (idAddress a) = Some (learnedSession hello key remote ?now)"
    using LearnValidatedHello_Inr [OF L] hello(2) by auto
  then show ?thesis using H D hello by (auto simp: learnedSession_def Public_def)
qed

theorem handle_hello_witness:
  "\<exists>key armored reply st' d ok.
     BuildHello toyCrypto 77 (Public (toyPeer 5)) (toyPeer 3) toyVersion 100 1 2 key = Inr armored
     \<and> Handle toyCrypto (toyHandler\<lparr>hdIdentity := toyPeer 5\<rparr>) None (withHops 1 armored) toyEndpoint (toyState\<lparr>hsPeers := NewRegistry\<rparr>)
        = Some (Inr [reply], st')
     \<and> DearmorSession toyCrypto reply key = Inr d \<and> ParseHelloOK d = Inr ok \<and> hkRequestPacketID ok = 77"
proof -
  obtain key where k: "Agree toyCrypto (toyPeer 3) (Public (toyPeer 5)) 48 = Inr key" using toy_agree by blast
  from hello_exchange [OF toy_laws(2) toyPeer(1-3) toyPeer(1-3) k, of toyVersion 77 100 1 2 1] obtain armored where
    b: "BuildHello toyCrypto 77 (Public (toyPeer 5)) (toyPeer 3) toyVersion 100 1 2 key = Inr armored"
    by (auto simp: toyVersion_def packet_consts)
  have al: "fst (allow (apAddr toyEndpoint) 2 newHelloLimiter)"
    using helloRateGateHash_less [of "apAddr toyEndpoint"]
    by (simp add: allow_simps newHelloLimiter_def refillBucket_def IsZero_def takeToken_def helloBurst_def)
  let ?h = "toyHandler\<lparr>hdIdentity := toyPeer 5\<rparr>" and ?st = "toyState\<lparr>hsPeers := NewRegistry\<rparr>"
  have "\<exists>reply st' d s. Handle toyCrypto ?h None (withHops 1 armored) toyEndpoint ?st = Some (Inr [reply], st')
    \<and> DearmorSession toyCrypto reply key = Inr d
    \<and> ParseHelloOK d = Inr \<lparr> hkRequestPacketID = 77, hkTimestamp = 100, hkVersion = hdVersion ?h,
        hkExternalSurface = Some \<lparr> iaAddress = wireAddress (apAddr toyEndpoint), iaPort = apPort toyEndpoint \<rparr>, hkWorldUpdate = [] \<rparr>
    \<and> fmlookup (rgSessions (hsPeers st')) (idAddress (toyPeer 3)) = Some s \<and> ssIdentity s = Public (toyPeer 3) \<and> ssSharedKey s = key
    \<and> ssEndpoint s = toyEndpoint \<and> ssProtocolVersion s = lvProtocol toyVersion"
    by (rule handle_hello [OF toy_laws(2) toyPeer(1-3) toyPeer(1-3) _ k b, where j = 1])
      (use al in \<open>simp_all add: toyHandler_def toyState_def toyEndpoint_def addrPortIsValid_def IsZero_def NewRegistry_def
        maxRegistrySessions_def fcard_fempty toyVersion_def packet_consts\<close>)
  with b show ?thesis by fastforce
qed

text \<open>
  C7. Revocations reach the members that are online: what \<^verbatim>\<open>BuildCOMRevocationBroadcast\<close> returns is one
  group of datagrams for each listed member of the network that has a session, in the order of the
  list, addressed to the endpoint of the session; each group brings the serialized revocation to the
  holder of the session key. Nothing is changed but the random source.
\<close>

theorem revocation_broadcast:
  assumes "aes_law cr" "wfIdentity (hdIdentity h)"
    and "BuildCOMRevocationBroadcast cr h credentialID ctx networkID target threshold st = Some (Inr out, st')"
  shows "\<exists>revocation bs members groups. NewCOMRevocation cr networkID target threshold (hdIdentity h) credentialID = Inr revocation
    \<and> Revocation_MarshalBinary revocation = Inr bs
    \<and> svcListMembers (hdService h) ctx networkID (hsWorld st) = (Inr members, hsWorld st') \<and> hsPeers st' = hsPeers st
    \<and> out = concat groups
    \<and> list_all2 (\<lambda>(member, session) ods. list_all (\<lambda>od. odEndpoint od = ssEndpoint session) ods
        \<and> brings cr (ssSharedKey session) (map odPayload ods) VerbNetworkCredentials (BuildRevocationCredentialsPayload bs)
            (idAddress (hdIdentity h)) (mbNodeID member)) (online (hsPeers st) members) groups"
proof -
  from assms(3) obtain revocation bs members w where
    r: "NewCOMRevocation cr networkID target threshold (hdIdentity h) credentialID = Inr revocation" "Revocation_MarshalBinary revocation = Inr bs"
      "svcListMembers (hdService h) ctx networkID (hsWorld st) = (Inr members, w)"
    and d: "revocationDatagrams cr h (BuildRevocationCredentialsPayload bs) members (st\<lparr>hsWorld := w\<rparr>) = Some (Inr out, st')"
    by (auto simp: BuildCOMRevocationBroadcast_def hbind_Inr)
  from revocationDatagrams_Inr [OF d] obtain groups where g: "out = concat groups" "hsWorld st' = w" "hsPeers st' = hsPeers st"
    "list_all2 (revocationFor cr h (BuildRevocationCredentialsPayload bs)) (online (hsPeers st) members) groups" by auto
  have "list_all2 (\<lambda>(member, session) ods. list_all (\<lambda>od. odEndpoint od = ssEndpoint session) ods
        \<and> brings cr (ssSharedKey session) (map odPayload ods) VerbNetworkCredentials (BuildRevocationCredentialsPayload bs)
            (idAddress (hdIdentity h)) (mbNodeID member)) (online (hsPeers st) members) groups"
    using g(4) by (rule list_all2_mono) (auto simp: revocationFor_def intro: messageFor_brings [OF assms(1,2)])
  then show ?thesis using r g by blast
qed

theorem revocation_broadcast_witness:
  "\<exists>out st'. BuildCOMRevocationBroadcast toyCrypto toyHandler (Inr [0, 0, 0, 9]) None toyNetworkID ''0000000040'' 62135596800001000000
       (toyState\<lparr>hsWorld := toyWorld\<rparr>) = Some (Inr out, st') \<and> out \<noteq> [] \<and> hsPeers st' = toyRegistry"
proof -
  obtain out st' where h: "BuildCOMRevocationBroadcast toyCrypto toyHandler (Inr [0, 0, 0, 9]) None toyNetworkID ''0000000040'' 62135596800001000000
       (toyState\<lparr>hsWorld := toyWorld\<rparr>) = Some (Inr out, st')" "out \<noteq> []" using toy_broadcast by blast
  have law: "aes_law toyCrypto" "wfIdentity (hdIdentity toyHandler)" by (simp_all add: aes_law_def toyCrypto_def toyHandler_def toy_wf)
  from revocation_broadcast [OF law h(1)] h show ?thesis by (auto simp: toyState_def)
qed

end
