(* ===== verification/NetString.thy ===== *)
theory NetString
  imports NetText
begin

unbundle bit_operations_syntax

text \<open>
  The text forms of \<^verbatim>\<open>net/netip\<close>: \<^verbatim>\<open>String\<close> and \<^verbatim>\<open>MarshalText\<close> of addresses, prefixes and endpoints, and
  \<^verbatim>\<open>ParseAddrPort\<close>. An IPv6 address is written as RFC 5952 says: lower case, no leading zeros, the
  first longest run of at least two zero groups as a double colon. Every text form reads back.
\<close>

section \<open>Printing\<close>

text \<open>\<^verbatim>\<open>strconv.FormatUint(v, 10)\<close>.\<close>

fun decstring :: "nat \<Rightarrow> string" where
  "decstring n = (if n < 10 then [char_of (48 + n)] else decstring (n div 10) @ [char_of (48 + n mod 10)])"

declare decstring.simps [simp del]

fun joinWith :: "string \<Rightarrow> string list \<Rightarrow> string" where
  "joinWith sep [] = []"
| "joinWith sep [x] = x"
| "joinWith sep (x # y # zs) = x @ sep @ joinWith sep (y # zs)"

definition string4 :: "uint32 \<Rightarrow> string" where
  "string4 w = joinWith ''.'' (map (\<lambda>b. decstring (unat b)) (be_bytes 4 w))"

fun groups16 :: "bytes \<Rightarrow> nat list" where
  "groups16 (a # b # bs) = (256 * unat a + unat b) # groups16 bs"
| "groups16 _ = []"

text \<open>The first longest run of at least two zero groups: where it starts and ends, or 255 and 255.\<close>

definition zeroRunStep :: "nat list \<Rightarrow> nat \<times> nat \<Rightarrow> nat \<Rightarrow> nat \<times> nat" where
  "zeroRunStep g run i = (let j = i + length (takeWhile (\<lambda>x. x = 0) (drop i g)) in
     if j - i \<ge> 2 \<and> j - i > snd run - fst run then (i, j) else run)"

definition zeroRun :: "nat list \<Rightarrow> nat \<times> nat" where
  "zeroRun g = foldl (zeroRunStep g) (255, 255) [0..<8]"

definition groupsText :: "nat list \<Rightarrow> string" where
  "groupsText g = joinWith '':'' (map hexstring g)"

definition string6 :: "128 word \<Rightarrow> string" where
  "string6 w = (let g = groups16 (be_bytes 16 w) in case zeroRun g of (s, e) \<Rightarrow>
     if s \<ge> 8 then groupsText g else groupsText (take s g) @ ''::'' @ groupsText (drop e g))"

definition zoneText :: "string \<Rightarrow> string" where
  "zoneText z = (if z = [] then [] else ''%'' @ z)"

definition appendAddr :: "Addr \<Rightarrow> string" where
  "appendAddr a = (case a of NoAddr \<Rightarrow> [] | Addr4 w \<Rightarrow> string4 w
     | Addr6 w z \<Rightarrow> (if Is4In6 a then ''::ffff:'' @ string4 (ucast w) else string6 w) @ zoneText z)"

definition Addr_String :: "Addr \<Rightarrow> string" where
  "Addr_String a = (if a = NoAddr then ''invalid IP'' else appendAddr a)"

definition Addr_MarshalText :: "Addr \<Rightarrow> string" where
  "Addr_MarshalText a = appendAddr a"

definition Addr_UnmarshalText :: "string \<Rightarrow> Addr result" where
  "Addr_UnmarshalText s = (if s = [] then Inr NoAddr else ParseAddr s)"

definition Prefix_String :: "Prefix \<Rightarrow> string" where
  "Prefix_String p = (if \<not> prefixIsValid p then ''invalid Prefix''
     else Addr_String (pfAddr p) @ ''/'' @ decstring (nat (pfBits p)))"

definition AddrPort_String :: "AddrPort \<Rightarrow> string" where
  "AddrPort_String e = (case apAddr e of
       NoAddr \<Rightarrow> ''invalid AddrPort''
     | Addr4 w \<Rightarrow> string4 w @ '':'' @ decstring (unat (apPort e))
     | Addr6 w z \<Rightarrow> ''['' @ appendAddr (apAddr e) @ '']:'' @ decstring (unat (apPort e)))"

text \<open>\<^verbatim>\<open>ParseAddrPort\<close>: the port is after the last colon, an IPv6 address is in brackets.\<close>

definition ParseAddrPort :: "string \<Rightarrow> AddrPort result" where
  "ParseAddrPort s =
     (let port = rev (takeWhile (\<lambda>c. c \<noteq> CHR '':'') (rev s)); ip = take (length s - length port - 1) s in
      if CHR '':'' \<notin> set s \<or> ip = [] \<or> port = [] then parseFailure
      else
        let v6 = (hd ip = CHR ''['') in
        if v6 \<and> (length ip < 2 \<or> last ip \<noteq> CHR '']'') then parseFailure
        else
          rbind (ParseUint10 port) (\<lambda>port16.
          if unat port16 > 65535 then parseFailure
          else
            rbind (ParseAddr (if v6 then butlast (tl ip) else ip)) (\<lambda>a.
            if v6 = Is4 a then parseFailure else Inr \<lparr> apAddr = a, apPort = ucast port16 \<rparr>)))"

section \<open>Decimal numbers\<close>

lemma decstring_digits: "list_all isDigit (decstring n)" "decstring n \<noteq> []"
proof -
  show "list_all isDigit (decstring n)"
  proof (induction n rule: decstring.induct)
    case (1 n)
    then show ?case by (cases "n < 10") (simp_all add: decstring.simps [of n] isDigit_def Let_def)
  qed
  show "decstring n \<noteq> []" by (subst decstring.simps) simp
qed

lemma decstring_value: "foldl (\<lambda>acc c. 10 * acc + digitValue c) 0 (decstring n) = n"
proof (induction n rule: decstring.induct)
  case (1 n)
  then show ?case by (cases "n < 10") (simp_all add: decstring.simps [of n] digitValue_def)
qed

lemma ParseUint10_decstring: "n < 2 ^ 64 \<Longrightarrow> ParseUint10 (decstring n) = Inr (of_nat n)"
  using decstring_digits by (simp add: ParseUint10_def decstring_value)

section \<open>Reading back\<close>

lemma div_step: "m div (k * l) * l + m div k mod l = (m :: nat) div k"
  by (metis div_mult2_eq div_mult_mod_eq)

text \<open>Three digits at most: the shapes of an octet.\<close>

lemma decstring_octet:
  assumes "n < 256"
  shows "decstring n = (if n < 10 then [char_of (48 + n)] else if n < 100 then [char_of (48 + n div 10), char_of (48 + n mod 10)]
    else [char_of (48 + n div 100), char_of (48 + n div 10 mod 10), char_of (48 + n mod 10)])"
proof -
  have d: "n div 10 < 10 \<longleftrightarrow> n < 100" "n div 10 div 10 = n div 100" "n div 100 < 10" using assms by auto
  show ?thesis
    by (simp add: decstring.simps [of n] decstring.simps [of "n div 10"] decstring.simps [of "n div 100"] d del: div_mult2_eq)
qed

lemma isDigit_char [simp]: "n < 10 \<Longrightarrow> isDigit (char_of (48 + n))" "n < 10 \<Longrightarrow> digitValue (char_of (48 + n)) = n"
  by (simp_all add: isDigit_def digitValue_def Let_def)

lemma parseIPv4Fields_octet:
  assumes "n < 256"
  shows "parseIPv4Fields octets 0 0 f (decstring n @ rest) = parseIPv4Fields octets n (length (decstring n)) False rest"
proof -
  have e: "n div 10 * 10 + n mod 10 = n" "n div 100 * 10 + n div 10 mod 10 = n div 10" using div_step [of n 10 10] by simp_all
  have l: "n div 10 \<le> 255" "n div 100 \<le> 255" "n div 100 < 10" using assms by auto
  consider "n < 10" | "\<not> n < 10" "n < 100" "n div 10 < 10" "n div 10 \<noteq> 0" | "\<not> n < 10" "\<not> n < 100" "n div 100 \<noteq> 0" "n div 10 \<noteq> 0"
    by fastforce
  then show ?thesis using assms l by cases (simp_all add: decstring_octet Let_def e del: mult.commute)
qed

lemma be_bytes4_list: "\<exists>a b c d. be_bytes 4 (w :: uint32) = [a, b, c, d]"
  by (simp add: eval_nat_numeral)

lemma parseIPv4Fields_string4: "parseIPv4Fields [] 0 0 True (string4 w) = Inr (be_bytes 4 w)"
proof -
  obtain a b c d where w: "be_bytes 4 w = [a, b, c, d]" using be_bytes4_list by blast
  have step: "parseIPv4Fields octets 0 0 True (decstring (unat x) @ ''.'' @ y) = parseIPv4Fields (octets @ [x]) 0 0 True y"
    if "y \<noteq> []" "length octets \<noteq> 3" for octets x y
    using parseIPv4Fields_octet [of "unat x" octets True "''.'' @ y"] unsigned_less [of x] that by (auto simp: isDigit_def)
  have last: "parseIPv4Fields octets 0 0 True (decstring (unat x)) = Inr (octets @ [x])" if "length octets = 3" for octets x
    using parseIPv4Fields_octet [of "unat x" octets True "[]"] unsigned_less [of x] that by auto
  show ?thesis unfolding string4_def w using decstring_digits(2) by (simp add: step [simplified] last)
qed

lemma string4_chars: "c \<in> set (string4 w) \<Longrightarrow> isDigit c \<or> c = CHR ''.''"
proof -
  obtain a b c d where w: "be_bytes 4 w = [a, b, c, d]" using be_bytes4_list by blast
  show "e \<in> set (string4 w) \<Longrightarrow> isDigit e \<or> e = CHR ''.''" for e
    using decstring_digits(1) unfolding string4_def w by (auto simp: list_all_iff)
qed

lemma addrKind_prefix: "(\<And>c. c \<in> set xs \<Longrightarrow> c \<noteq> CHR ''.'' \<and> c \<noteq> CHR '':'' \<and> c \<noteq> CHR ''%'') \<Longrightarrow> addrKind (xs @ ys) = addrKind ys"
  by (induction xs) auto

lemma digits_plain: "isDigit c \<Longrightarrow> c \<noteq> CHR ''.'' \<and> c \<noteq> CHR '':'' \<and> c \<noteq> CHR ''%'' \<and> c \<noteq> CHR '']'' \<and> c \<noteq> CHR ''[''"
  by (auto simp: isDigit_def)

lemma string4_head: "\<exists>x y. string4 w = decstring x @ ''.'' @ y"
proof -
  obtain a b c d where w: "be_bytes 4 w = [a, b, c, d]" using be_bytes4_list by blast
  show ?thesis unfolding string4_def w by simp blast
qed

lemma ParseAddr_string4: "ParseAddr (string4 w) = Inr (Addr4 w)"
proof -
  obtain x y where xy: "string4 w = decstring x @ ''.'' @ y" using string4_head by blast
  have "addrKind (string4 w) = Some (CHR ''.'')" unfolding xy
    by (subst addrKind_prefix) (use decstring_digits(1) [of x] digits_plain in \<open>auto simp: list_all_iff\<close>)
  then show ?thesis by (simp add: ParseAddr_def parseIPv4_def parseIPv4Fields_string4)
qed

text \<open>One group of an IPv6 address.\<close>

lemma hexstring_group:
  assumes "n < 65536"
  shows "hexstring n = (if n < 16 then [hexdigit n] else if n < 256 then [hexdigit (n div 16), hexdigit (n mod 16)]
    else if n < 4096 then [hexdigit (n div 256), hexdigit (n div 16 mod 16), hexdigit (n mod 16)]
    else [hexdigit (n div 4096), hexdigit (n div 256 mod 16), hexdigit (n div 16 mod 16), hexdigit (n mod 16)])"
proof -
  have d: "n div 16 < 16 \<longleftrightarrow> n < 256" "n div 16 div 16 = n div 256" "n div 256 < 16 \<longleftrightarrow> n < 4096" "n div 256 div 16 = n div 4096" "n div 4096 < 16"
    using assms by auto
  show ?thesis
    by (simp add: hexstring.simps [of n] hexstring.simps [of "n div 16"] hexstring.simps [of "n div 256"] hexstring.simps [of "n div 4096"] d
        del: div_mult2_eq)
qed

lemma hexGroup_stop: "(\<And>c cs. rest = c # cs \<Longrightarrow> hexval c = None) \<Longrightarrow> hexGroup off acc rest = Inr (off, acc)"
  by (cases rest) auto

lemma hexGroup_hexstring:
  assumes "n < 65536" "\<And>c cs. rest = c # cs \<Longrightarrow> hexval c = None"
  shows "hexGroup 0 0 (hexstring n @ rest) = Inr (length (hexstring n), n)"
proof -
  have e: "n div 16 * 16 + n mod 16 = n" "n div 256 * 16 + n div 16 mod 16 = n div 16" "n div 4096 * 16 + n div 256 mod 16 = n div 256"
    using div_step [of n 16 16] div_step [of n 256 16] by simp_all
  have l: "n div 16 \<le> 65535" "n div 256 \<le> 65535" "n div 4096 \<le> 65535" "n div 4096 < 16" "n < 4096 \<Longrightarrow> n div 256 < 16" "n < 256 \<Longrightarrow> n div 16 < 16"
    using assms(1) by auto
  show ?thesis using assms(1) l
    by (simp add: hexstring_group Let_def e hexGroup_stop [OF assms(2)] del: mult.commute)
qed

fun bytesOf :: "nat list \<Rightarrow> bytes" where
  "bytesOf [] = []"
| "bytesOf (n # ns) = of_nat (n div 256) # of_nat (n mod 256) # bytesOf ns"

lemma bytesOf_groups16: "even (length bs) \<Longrightarrow> bytesOf (groups16 bs) = bs"
proof (induction bs rule: groups16.induct)
  case (1 a b bs)
  have "unat b < 256" using unsigned_less [of b] by simp
  then show ?case using 1 by simp
qed auto

lemma length_bytesOf [simp]: "length (bytesOf g) = 2 * length g"
  by (induction g) auto

lemma length_groups16: "length (groups16 bs) = length bs div 2"
  by (induction bs rule: groups16.induct) auto

lemma groups16_less: "list_all (\<lambda>n. n < 65536) (groups16 bs)"
proof (induction bs rule: groups16.induct)
  case (1 a b bs)
  have "unat x < 256" for x :: byte using unsigned_less [of x, where 'a = nat] by simp
  from this [of a] this [of b] have "256 * unat a + unat b < 65536" by linarith
  with 1 show ?case by simp
qed auto

lemma bytesOf_append: "bytesOf (g @ h) = bytesOf g @ bytesOf h"
  by (induction g) auto

lemma bytesOf_zeros: "bytesOf (replicate k 0) = replicate (2 * k) 0"
  by (induction k) auto

lemma groupsText_Cons: "g \<noteq> [] \<Longrightarrow> groupsText (n # g) = hexstring n @ '':'' @ groupsText g"
  by (cases g) (simp_all add: groupsText_def)

lemma groupsText_single [simp]: "groupsText [n] = hexstring n" "groupsText [] = []"
  by (simp_all add: groupsText_def)

lemma hexstring_hd: "\<exists>c cs. hexstring n = c # cs \<and> c \<noteq> CHR '':'' \<and> c \<noteq> CHR ''.'' \<and> c \<noteq> CHR ''%''"
proof -
  obtain c cs where "hexstring n = c # cs" using hexstring_not_Nil [of n] by (cases "hexstring n") auto
  moreover have "lowerhex c" using lowerhex_hexstring [of n] calculation by simp
  ultimately show ?thesis by (auto simp: lowerhex_def Let_def)
qed

lemma groupsText_hd: "g \<noteq> [] \<Longrightarrow> \<exists>c cs. groupsText g = c # cs \<and> c \<noteq> CHR '':''"
proof -
  assume "g \<noteq> []"
  then obtain n h where g: "g = n # h" by (cases g) auto
  obtain c cs where "hexstring n = c # cs" "c \<noteq> CHR '':''" using hexstring_hd by blast
  then show ?thesis using g by (cases "h = []") (simp_all add: groupsText_Cons)
qed

lemma hexval_colon: "hexval (CHR '':'') = None" "hexval (CHR ''.'') = None"
  by (simp_all add: hexval_def)

text \<open>A group at the end, before another group, and before a double colon.\<close>

lemma loop_last:
  assumes "length ip < 16" "n < 65536"
  shows "ipv6Loop ip e (hexstring n) = Inr (ip @ bytesOf [n], e, [])"
  using assms hexGroup_hexstring [of n "[]"] by (subst ipv6Loop.simps) simp

lemma loop_group:
  assumes "length ip < 16" "n < 65536" "s = c # cs" "c \<noteq> CHR '':''"
  shows "ipv6Loop ip e (hexstring n @ '':'' @ s) = ipv6Loop (ip @ bytesOf [n]) e s"
  using assms hexGroup_hexstring [of n "'':'' @ s"]
  by (subst ipv6Loop.simps) (simp add: hexval_colon nth_append)

lemma loop_ellipsis:
  assumes "length ip < 16" "n < 65536"
  shows "ipv6Loop ip None (hexstring n @ ''::'' @ s)
    = (if s = [] then Inr (ip @ bytesOf [n], Some (length ip + 2), []) else ipv6Loop (ip @ bytesOf [n]) (Some (length ip + 2)) s)"
  using assms hexGroup_hexstring [of n "''::'' @ s"]
  by (subst ipv6Loop.simps) (simp add: hexval_colon nth_append)

lemma loop_groups:
  "g \<noteq> [] \<Longrightarrow> list_all (\<lambda>n. n < 65536) g \<Longrightarrow> length ip + 2 * length g \<le> 16 \<Longrightarrow>
   ipv6Loop ip e (groupsText g) = Inr (ip @ bytesOf g, e, [])"
proof (induction g arbitrary: ip)
  case (Cons n g)
  show ?case
  proof (cases "g = []")
    case False
    then obtain c cs where "groupsText g = c # cs" "c \<noteq> CHR '':''" using groupsText_hd by blast
    with loop_group [of ip n "groupsText g" c cs e] Cons.IH [of "ip @ bytesOf [n]"] Cons.prems False
    show ?thesis by (simp add: groupsText_Cons)
  qed (use Cons.prems loop_last [of ip n e] in simp)
qed simp

lemma loop_compressed:
  "pre \<noteq> [] \<Longrightarrow> list_all (\<lambda>n. n < 65536) (pre @ post) \<Longrightarrow> length ip + 2 * length (pre @ post) \<le> 16 \<Longrightarrow>
   ipv6Loop ip None (groupsText pre @ ''::'' @ groupsText post)
     = Inr (ip @ bytesOf pre @ bytesOf post, Some (length ip + 2 * length pre), [])"
proof (induction pre arbitrary: ip)
  case (Cons n pre)
  show ?case
  proof (cases "pre = []")
    case True
    show ?thesis
    proof (cases "post = []")
      case False
      then have "groupsText post \<noteq> []" using groupsText_hd by force
      then show ?thesis
        using True False Cons.prems loop_ellipsis [of ip n "groupsText post"] loop_groups [of post "ip @ bytesOf [n]" "Some (length ip + 2)"]
        by simp
    qed (use True Cons.prems loop_ellipsis [of ip n "[]"] in simp)
  next
    case False
    then obtain c cs where "groupsText pre = c # cs" "c \<noteq> CHR '':''" using groupsText_hd by blast
    with loop_group [of ip n "groupsText pre @ ''::'' @ groupsText post" c "cs @ ''::'' @ groupsText post" None]
      Cons.IH [of "ip @ bytesOf [n]"] Cons.prems False
    show ?thesis by (simp add: groupsText_Cons)
  qed
qed simp

text \<open>The run that is left out really is a run of zeros.\<close>

lemma zeroRun_cases:
  assumes "length g = 8" "zeroRun g = (i, j)"
  shows "i \<ge> 8 \<or> i < j \<and> j \<le> 8 \<and> slice i j g = replicate (j - i) 0"
proof -
  let ?P = "\<lambda>r. fst r \<ge> 8 \<or> fst r < snd r \<and> snd r \<le> 8 \<and> slice (fst r) (snd r) g = replicate (snd r - fst r) 0"
  have z: "takeWhile (\<lambda>x. x = 0) xs = replicate (length (takeWhile (\<lambda>x. x = 0) xs)) 0" for xs :: "nat list"
    by (induction xs) auto
  have step: "?P (zeroRunStep g r k)" if "?P r" "k < 8" for r k
  proof -
    let ?l = "length (takeWhile (\<lambda>x. x = 0) (drop k g))"
    have "take ?l (drop k g) = takeWhile (\<lambda>x. x = 0) (drop k g)" by (metis takeWhile_eq_take)
    then have "slice k (k + ?l) g = replicate ?l 0" using z by (simp add: slice_def)
    moreover have "k + ?l \<le> 8" using length_takeWhile_le [of "\<lambda>x. x = 0" "drop k g"] assms(1) that(2) by simp
    ultimately show ?thesis using that by (auto simp: zeroRunStep_def Let_def)
  qed
  have "?P (foldl (zeroRunStep g) r ks)" if "?P r" "list_all (\<lambda>k. k < 8) ks" for r ks
    using that by (induction ks arbitrary: r) (auto simp: step)
  from this [of "(255, 255)" "[0..<8]"] show ?thesis using assms(2) by (simp add: zeroRun_def list_all_iff)
qed

lemma parseIPv6_zone:
  assumes "CHR ''%'' \<notin> set s" "parseIPv6 s = Inr (Addr6 w [])"
  shows "parseIPv6 (s @ zoneText z) = Inr (Addr6 w z)"
proof -
  have t: "takeWhile (\<lambda>c. c \<noteq> CHR ''%'') (s @ zoneText z) = s" "takeWhile (\<lambda>c. c \<noteq> CHR ''%'') s = s"
    using assms(1) by (auto simp: zoneText_def takeWhile_append takeWhile_eq_all_conv)
  show ?thesis using assms t
    by (auto simp: parseIPv6_def Let_def zoneText_def rbind_eq_Inr split: if_splits prod.splits option.splits)
qed

lemma groupsText_chars: "c \<in> set (groupsText g) \<Longrightarrow> lowerhex c \<or> c = CHR '':''"
proof (induction g)
  case (Cons n g)
  then show ?case using lowerhex_hexstring [of n] by (cases "g = []") (auto simp: groupsText_Cons list_all_iff)
qed simp

lemma lowerhex_plain: "lowerhex c \<Longrightarrow> c \<noteq> CHR ''.'' \<and> c \<noteq> CHR '':'' \<and> c \<noteq> CHR ''%'' \<and> c \<noteq> CHR '']'' \<and> c \<noteq> CHR ''[''"
  by (auto simp: lowerhex_def Let_def)

lemma string6_chars: "c \<in> set (string6 w) \<Longrightarrow> lowerhex c \<or> c = CHR '':''"
  by (auto simp: string6_def Let_def split: prod.splits if_splits dest: groupsText_chars)

lemma addr6_of_groups:
  assumes "g = groups16 (be_bytes 16 (w :: 128 word))" "i \<le> j" "slice i j g = replicate (j - i) 0" "j \<le> 8"
  shows "be_word (bytesOf (take i g) @ replicate (16 - (2 * i + 2 * (8 - j))) 0 @ bytesOf (drop j g)) = w"
proof -
  have l: "length g = 8" using assms(1) by (simp add: length_groups16)
  have "g = take i g @ slice i j g @ drop j g" using assms(2) by (simp add: slice_def) (metis append_take_drop_id drop_drop le_add_diff_inverse2 append_assoc take_drop)
  then have "be_bytes 16 w = bytesOf (take i g) @ bytesOf (replicate (j - i) 0) @ bytesOf (drop j g)"
    using bytesOf_groups16 [of "be_bytes 16 w"] assms(1,3) by (metis bytesOf_append length_be_bytes even_numeral)
  moreover have "2 * (j - i) = 16 - (2 * i + 2 * (8 - j))" using assms(2,4) by simp
  ultimately show ?thesis by (metis bytesOf_zeros be_bytes16_128)
qed

lemma foldl_replicate_zero: "foldl (\<lambda>acc b. push_bit 8 acc OR ucast b) 0 (replicate n (0 :: byte)) = (0 :: 'a::len word)"
  by (induction n) auto

lemma parseIPv6_noZone:
  assumes "CHR ''%'' \<notin> set v"
  shows "parseIPv6 v = (if v = ''::'' then Inr (Addr6 0 [])
    else rbind (ipv6Loop [] (if take 2 v = ''::'' then Some 0 else None) (if take 2 v = ''::'' then drop 2 v else v)) (\<lambda>(ip, ellipsis, rest).
      if rest \<noteq> [] then parseFailure
      else if length ip < 16 then
        case ellipsis of None \<Rightarrow> parseFailure
        | Some e \<Rightarrow> Inr (Addr6 (be_word (take e ip @ replicate (16 - length ip) 0 @ drop e ip)) [])
      else if ellipsis \<noteq> None then parseFailure
      else Inr (Addr6 (be_word ip) [])))"
proof -
  have tw: "takeWhile (\<lambda>c. c \<noteq> CHR ''%'') v = v" using assms by (auto simp: takeWhile_eq_all_conv)
  have v: "v = ''::'' \<longleftrightarrow> take 2 v = ''::'' \<and> drop 2 v = []" by (metis append_Nil2 append_take_drop_id drop_eq_Nil numeral_2_eq_2 length_Cons list.size(3) order_refl take_all)
  have d: "drop (length v + 1) v = []" by simp
  show ?thesis unfolding parseIPv6_def tw Let_def v d using assms by simp
qed

lemma parseIPv6_string6: "parseIPv6 (string6 w) = Inr (Addr6 w [])"
proof -
  define g where "g = groups16 (be_bytes 16 w)"
  have l: "length g = 8" "list_all (\<lambda>n. n < 65536) g" by (simp_all add: g_def length_groups16 groups16_less)
  obtain i j where r: "zeroRun g = (i, j)" by force
  have "CHR ''%'' \<notin> set (string6 w)" using string6_chars [of "CHR ''%''" w] by (auto simp: lowerhex_def)
  note P = parseIPv6_noZone [OF this]
  consider "i \<ge> 8" | "i < j" "j \<le> 8" "slice i j g = replicate (j - i) 0" using zeroRun_cases [OF l(1) r] by blast
  then show ?thesis
  proof cases
    case 1
    then have s: "string6 w = groupsText g" using r by (simp add: string6_def g_def Let_def)
    have "g \<noteq> []" using l(1) by auto
    then obtain c cs where c: "groupsText g = c # cs" "c \<noteq> CHR '':''" using groupsText_hd by blast
    have "bytesOf g = be_bytes 16 w" using bytesOf_groups16 [of "be_bytes 16 w"] by (simp add: g_def)
    then have "ipv6Loop [] None (c # cs) = Inr (be_bytes 16 w, None, [])" using loop_groups [of g "[]" None] l \<open>g \<noteq> []\<close> c by simp
    then show ?thesis using P c s by simp
  next
    case 2
    then have s: "string6 w = groupsText (take i g) @ ''::'' @ groupsText (drop j g)" using r by (simp add: string6_def g_def Let_def)
    have a: "list_all (\<lambda>n. n < 65536) (take i g @ drop j g)" using l(2) by (auto simp: list_all_iff dest: in_set_takeD in_set_dropD)
    have m: "min 8 i = i" "2 * i + 2 * (8 - j) < 16" using 2 by simp_all
    have rb: "be_word (bytesOf (take i g) @ replicate (16 - (2 * i + 2 * (8 - j))) 0 @ bytesOf (drop j g)) = w"
      using addr6_of_groups [OF g_def _ 2(3,2)] 2 by simp
    consider "i = 0" "j = 8" | "i = 0" "j \<noteq> 8" | "i \<noteq> 0" by blast
    then show ?thesis
    proof cases
      case 1
      then show ?thesis using P s rb l by (simp add: be_word_def foldl_replicate_zero)
    next
      case q: 2
      then have n: "drop j g \<noteq> []" using l(1) 2 by simp
      then obtain c cs where c: "groupsText (drop j g) = c # cs" using groupsText_hd by blast
      have "ipv6Loop [] (Some 0) (c # cs) = Inr (bytesOf (drop j g), Some 0, [])"
        using loop_groups [of "drop j g" "[]" "Some 0"] n a l c by (simp add: list_all_append)
      then show ?thesis using P s q c rb l 2 by simp
    next
      case q: 3
      then have n: "take i g \<noteq> []" using l(1) by (cases g) auto
      then obtain c cs where c: "groupsText (take i g) = c # cs" "c \<noteq> CHR '':''" using groupsText_hd by blast
      have "ipv6Loop [] None (c # cs @ ''::'' @ groupsText (drop j g)) = Inr (bytesOf (take i g) @ bytesOf (drop j g), Some (2 * i), [])"
        using loop_compressed [of "take i g" "drop j g" "[]"] n a l c 2 m by simp
      then show ?thesis using P s q c rb l 2 m by simp
    qed
  qed
qed

lemma hexGroup_decimal:
  assumes "n < 256"
  shows "\<exists>acc. hexGroup 0 0 (decstring n @ ''.'' @ rest) = Inr (length (decstring n), acc)"
proof -
  have h: "hexval (char_of (48 + d)) = Some d" if "d < 10" for d :: nat using that by (simp add: hexval_def Let_def)
  have l: "n div 100 < 10" "n div 10 mod 10 < 10" "n mod 10 < 10" using assms by auto
  have b: "(n div 100 * 16 + n div 10 mod 10) * 16 + n mod 10 \<le> 65535" "n div 10 * 16 + n mod 10 \<le> 65535" "n div 100 * 16 + n div 10 mod 10 \<le> 65535"
    using assms l by (simp_all add: algebra_simps)
  consider "n < 10" | "\<not> n < 10" "n < 100" "n div 10 < 10" | "\<not> n < 100" by fastforce
  then show ?thesis using assms l b by cases (simp_all add: decstring_octet h Let_def hexval_colon)
qed

lemma loop_string4:
  assumes "length ip \<le> 12" "e \<noteq> None"
  shows "ipv6Loop ip e (string4 v) = Inr (ip @ be_bytes 4 v, e, [])"
proof -
  obtain a b c d where v: "be_bytes 4 v = [a, b, c, d]" using be_bytes4_list by blast
  let ?x = "decstring (unat a)"
  obtain y where y: "string4 v = ?x @ ''.'' @ y" unfolding string4_def v by simp
  have a: "unat a < 256" using unsigned_less [of a, where 'a = nat] by simp
  obtain acc where h: "hexGroup 0 0 (string4 v) = Inr (length ?x, acc)" unfolding y using hexGroup_decimal [OF a] by blast
  have "length ?x < length (string4 v)" "string4 v ! length ?x = CHR ''.''" by (simp_all add: y nth_append)
  then show ?thesis using assms h decstring_digits(2) [of "unat a"] parseIPv4Fields_string4 [of v]
    by (subst ipv6Loop.simps) auto
qed

lemma mapped_bytes:
  assumes "drop_bit 32 (w :: 128 word) = 0xffff"
  shows "replicate 10 0 @ [0xff, 0xff] @ be_bytes 4 (ucast w :: uint32) = be_bytes 16 w"
proof -
  have e: "be_bytes n v = map (\<lambda>i. ucast (drop_bit (8 * i) v)) (rev [0..<n])" for n and v :: "'c::len word"
    by (induction n) auto
  have b: "bit w k = (k < 48)" if "32 \<le> k" for k
  proof -
    have "bit w k = bit (drop_bit 32 w) (k - 32)" using that by (simp add: bit_drop_bit_eq)
    also have "\<dots> = bit (mask 16 :: 128 word) (k - 32)" using assms by (simp add: mask_eq_exp_minus_1)
    finally show ?thesis using that by (auto simp: bit_mask_iff)
  qed
  have m: "(0xff :: byte) = mask 8" by (simp add: mask_eq_exp_minus_1)
  have hi: "ucast (drop_bit (8 * i) w) = (if i < 6 then 0xff else 0 :: byte)" if "4 \<le> i" for i
    unfolding m by (rule bit_word_eqI) (use that in \<open>auto simp: bit_ucast_iff bit_drop_bit_eq b bit_mask_iff\<close>)
  have lo: "ucast (drop_bit k (ucast w :: uint32)) = (ucast (drop_bit k w) :: byte)" if "k \<le> 24" for k
    by (rule bit_word_eqI) (use that in \<open>auto simp: bit_ucast_iff bit_drop_bit_eq\<close>)
  have "map (\<lambda>i. ucast (drop_bit (8 * i) w)) [4..<16] = map (\<lambda>i. if i < 6 then 0xff else 0 :: byte) [4..<16]"
    by (intro map_cong refl hi) auto
  also have "\<dots> = rev (replicate 10 0 @ [0xff, 0xff])" by (simp add: upt_rec numeral_eq_Suc)
  finally have h: "map (\<lambda>i. ucast (drop_bit (8 * i) w)) [4..<16] = rev (replicate 10 0 @ [0xff, 0xff :: byte])" .
  have "rev (be_bytes 16 w) = map (\<lambda>i. ucast (drop_bit (8 * i) w)) ([0..<4] @ [4..<16])"
    unfolding e rev_map rev_rev_ident using upt_add_eq_append [of 0 4 12] by simp
  also have "\<dots> = rev (be_bytes 4 (ucast w :: uint32)) @ rev (replicate 10 0 @ [0xff, 0xff])"
    unfolding map_append h by (simp add: e rev_map lo)
  finally show ?thesis by (metis append.assoc rev_append rev_rev_ident)
qed

section \<open>Every text form reads back\<close>

lemma appendAddr6:
  "parseIPv6 (appendAddr (Addr6 w z)) = Inr (Addr6 w z)" "addrKind (appendAddr (Addr6 w z)) = Some (CHR '':'')"
proof -
  let ?s = "if Is4In6 (Addr6 w z) then ''::ffff:'' @ string4 (ucast w) else string6 w"
  have "parseIPv6 ?s = Inr (Addr6 w [])" "CHR ''%'' \<notin> set ?s" "addrKind (?s @ t) = Some (CHR '':'')" for t
  proof -
    show pc: "CHR ''%'' \<notin> set ?s"
      using string6_chars [of "CHR ''%''" w] string4_chars [of "CHR ''%''" "ucast w"] by (auto simp: lowerhex_def isDigit_def)
    show "parseIPv6 ?s = Inr (Addr6 w [])"
    proof (cases "Is4In6 (Addr6 w z)")
      case True
      then have m: "drop_bit 32 w = 0xffff" by (simp add: Is4In6_def)
      obtain c cs where c: "string4 (ucast w) = c # cs" using string4_head [of "ucast w"] by (cases "string4 (ucast w)") auto
      then have "c \<noteq> CHR '':''" using string4_chars [of c "ucast w"] by (auto simp: isDigit_def)
      note c = c this
      have "hexdigit 15 = CHR ''f''" by code_simp
      then have "hexstring 65535 = ''ffff''" by (simp add: hexstring_group)
      then have "ipv6Loop [] (Some 0) (''ffff:'' @ string4 (ucast w)) = Inr ([0xff, 0xff] @ be_bytes 4 (ucast w :: uint32), Some 0, [])"
        using loop_group [of "[]" 65535 "string4 (ucast w)" c cs "Some 0"] loop_string4 [of "[0xff, 0xff]" "Some 0" "ucast w"] c by simp
      then show ?thesis using True pc mapped_bytes [OF m] be_bytes16_128 [of w] by (simp add: parseIPv6_noZone c(1) eval_nat_numeral)
    qed (simp add: parseIPv6_string6)
    show "addrKind (?s @ t) = Some (CHR '':'')"
    proof (cases "Is4In6 (Addr6 w z)")
      case False
      define g where "g = groups16 (be_bytes 16 w)"
      have l: "length g = 8" by (simp add: g_def length_groups16)
      have "\<exists>xs ys. string6 w = xs @ '':'' @ ys \<and> list_all lowerhex xs"
      proof (cases "fst (zeroRun g) \<ge> 8")
        case True
        obtain n h where g: "g = n # h" "h \<noteq> []" using l by (cases g) fastforce+
        then show ?thesis using True lowerhex_hexstring [of n]
          by (auto simp: string6_def g_def [symmetric] Let_def groupsText_Cons split: prod.splits)
      next
        case f: False
        then obtain i j where r: "zeroRun g = (i, j)" "i < 8" by (cases "zeroRun g") auto
        then have s: "string6 w = groupsText (take i g) @ ''::'' @ groupsText (drop j g)" by (simp add: string6_def g_def Let_def)
        show ?thesis
        proof (cases "take i g")
          case Nil
          show ?thesis using s [unfolded Nil] by - (rule exI [of _ "[]"], simp)
        next
          case (Cons n h)
          then show ?thesis using s lowerhex_hexstring [of n]
            by - (rule exI [of _ "hexstring n"], cases "h = []", auto simp: groupsText_Cons)
        qed
      qed
      then obtain xs ys where "string6 w = xs @ '':'' @ ys" "list_all lowerhex xs" by blast
      then show ?thesis using False by (simp add: addrKind_prefix list_all_iff lowerhex_plain)
    qed simp
  qed
  then show "parseIPv6 (appendAddr (Addr6 w z)) = Inr (Addr6 w z)" "addrKind (appendAddr (Addr6 w z)) = Some (CHR '':'')"
    using parseIPv6_zone [of ?s w z] by (simp_all add: appendAddr_def)
qed

lemma ParseAddr_String: "addrIsValid a \<Longrightarrow> ParseAddr (Addr_String a) = Inr a"
  using appendAddr6 ParseAddr_string4 by (cases a) (auto simp: Addr_String_def ParseAddr_def appendAddr_def [of "Addr4 _"])

lemma Addr_UnmarshalText_Marshal: "Addr_UnmarshalText (Addr_MarshalText a) = Inr a"
proof (cases a)
  case (Addr6 w z)
  then show ?thesis using appendAddr6 [of w z] by (auto simp: Addr_UnmarshalText_def Addr_MarshalText_def ParseAddr_def)
next
  case (Addr4 w)
  then show ?thesis using ParseAddr_string4 [of w] string4_head [of w]
    by (auto simp: Addr_UnmarshalText_def Addr_MarshalText_def appendAddr_def)
qed (simp add: Addr_UnmarshalText_def Addr_MarshalText_def appendAddr_def)

lemma Addr_String_inj: "addrIsValid a \<Longrightarrow> addrIsValid b \<Longrightarrow> Addr_String a = Addr_String b \<Longrightarrow> a = b"
  by (metis ParseAddr_String sum.inject(2))

lemma appendAddr_chars: "c \<in> set (appendAddr (Addr4 w)) \<Longrightarrow> c \<noteq> CHR '':'' \<and> c \<noteq> CHR ''[''"
  using string4_chars [of c w] by (auto simp: appendAddr_def isDigit_def)

lemma split_port:
  assumes "list_all isDigit port"
  shows "rev (takeWhile (\<lambda>c. c \<noteq> CHR '':'') (rev (ip @ '':'' @ port))) = port"
proof -
  have "\<forall>c \<in> set (rev port). c \<noteq> CHR '':''" using assms by (auto simp: list_all_iff isDigit_def)
  then have "takeWhile (\<lambda>c. c \<noteq> CHR '':'') (rev port) = rev port" by (subst takeWhile_eq_all_conv) auto
  then show ?thesis by (simp add: takeWhile_append)
qed

lemma ParseAddrPort_text:
  assumes "ParseAddr ip = Inr a" "ip \<noteq> []" "Is4 a \<Longrightarrow> hd ip \<noteq> CHR ''[''"
  shows "ParseAddrPort ((if Is4 a then ip else ''['' @ ip @ '']'') @ '':'' @ decstring (unat (p :: uint16))) = Inr \<lparr> apAddr = a, apPort = p \<rparr>"
proof -
  let ?ip = "if Is4 a then ip else ''['' @ ip @ '']''" and ?port = "decstring (unat p)"
  have p: "unat p < 65536" using unsigned_less [of p, where 'a = nat] by simp
  then have u: "ParseUint10 ?port = Inr (of_nat (unat p))" "unat (of_nat (unat p) :: uint64) = unat p"
    by (simp_all add: ParseUint10_decstring unsigned_ucast_eq take_bit_nat_eq_self)
  have port: "rev (takeWhile (\<lambda>c. c \<noteq> CHR '':'') (rev (?ip @ '':'' @ ?port))) = ?port" by (rule split_port) (rule decstring_digits(1))
  have w: "ucast (of_nat (unat p) :: uint64) = p" by (rule bit_word_eqI) (auto simp: bit_ucast_iff)
  show ?thesis
    unfolding ParseAddrPort_def Let_def port
    using assms u p decstring_digits(2) [of "unat p"] w by (cases "Is4 a") (auto simp: Let_def)
qed

lemma ParseAddrPort_String:
  assumes "addrPortIsValid e"
  shows "ParseAddrPort (AddrPort_String e) = Inr e"
proof (cases "apAddr e")
  case NoAddr
  then show ?thesis using assms by (simp add: addrPortIsValid_def)
next
  case (Addr4 w)
  obtain x y where xy: "string4 w = decstring x @ ''.'' @ y" using string4_head by blast
  have ne: "string4 w \<noteq> []" by (simp add: xy)
  then have "hd (string4 w) \<noteq> CHR ''[''" using string4_chars [of "hd (string4 w)" w] by (auto simp: isDigit_def)
  then show ?thesis using ParseAddrPort_text [OF ParseAddr_string4 ne, of "apPort e"] Addr4 by (simp add: AddrPort_String_def)
next
  case (Addr6 w z)
  have "appendAddr (Addr6 w z) \<noteq> []" using appendAddr6(2) [of w z] by auto
  then show ?thesis using ParseAddrPort_text [of "appendAddr (Addr6 w z)" "Addr6 w z" "apPort e"] appendAddr6 [of w z] Addr6
    by (simp add: AddrPort_String_def ParseAddr_def)
qed

lemma AddrPort_String_inj: "addrPortIsValid a \<Longrightarrow> addrPortIsValid b \<Longrightarrow> AddrPort_String a = AddrPort_String b \<Longrightarrow> a = b"
  by (metis ParseAddrPort_String sum.inject(2))

end
