(* ===== verification/TimeText.thy ===== *)
theory TimeText
  imports NetString
begin

text \<open>
  The text form of \<^verbatim>\<open>time.Time\<close> in JSON: RFC 3339 with nanoseconds, in UTC. A time is the number of
  nanoseconds since the start of year 1, so that the calendar is arithmetic on days; every time whose
  year has four digits reads back.
\<close>

section \<open>The calendar\<close>

definition isLeap :: "int \<Rightarrow> bool" where
  "isLeap y = (y mod 4 = 0 \<and> (y mod 100 \<noteq> 0 \<or> y mod 400 = 0))"

text \<open>The days from 1 January of year 1 to 1 January of year \<open>y\<close>.\<close>

definition daysBeforeYear :: "int \<Rightarrow> int" where
  "daysBeforeYear y = 365 * (y - 1) + (y - 1) div 4 - (y - 1) div 100 + (y - 1) div 400"

definition monthLengths :: "int \<Rightarrow> int list" where
  "monthLengths y = [31, if isLeap y then 29 else 28, 31, 30, 31, 30, 31, 31, 30, 31, 30, 31]"

lemma daysBeforeYear_step: "daysBeforeYear (y + 1) = daysBeforeYear y + (if isLeap y then 366 else 365)"
proof -
  have s: "y div k = (y - 1) div k + (if y mod k = 0 then 1 else 0)" if "k > 0" for k :: int
  proof (cases "y mod k = 0")
    case True
    have "(y - 1) div k = y div k - 1"
      by (rule int_div_pos_eq [where r = "k - 1"]) (use True that div_mult_mod_eq [of y k] in \<open>auto simp: algebra_simps\<close>)
    then show ?thesis using True by simp
  next
    case False
    have "0 \<le> y mod k - 1" using False that pos_mod_sign [of k y] by linarith
    moreover have "y mod k - 1 < k" using that pos_mod_bound [of k y] by linarith
    ultimately have "(y - 1) div k = y div k"
      by (intro int_div_pos_eq [where r = "y mod k - 1"]) (use div_mult_mod_eq [of y k] in \<open>auto simp: algebra_simps\<close>)
    then show ?thesis using False by simp
  qed
  have "(4 :: int) dvd 100" "(100 :: int) dvd 400" by simp_all
  then have m: "y mod 100 = 0 \<Longrightarrow> y mod 4 = 0" "y mod 400 = 0 \<Longrightarrow> y mod 100 = 0"
    by (metis dvd_eq_mod_eq_0 dvd_trans)+
  define a b c where "a = (y - 1) div 4" "b = (y - 1) div 100" "c = (y - 1) div 400"
  define p q r where "p = (y mod 4 = 0)" "q = (y mod 100 = 0)" "r = (y mod 400 = 0)"
  note n = a_b_c_def p_q_r_def
  have "y div 4 = a + (if p then 1 else 0)" "y div 100 = b + (if q then 1 else 0)" "y div 400 = c + (if r then 1 else 0)"
    unfolding n by (rule s, simp)+
  then have D: "daysBeforeYear (y + 1) = 365 * y + (a + (if p then 1 else 0)) - (b + (if q then 1 else 0)) + (c + (if r then 1 else 0))"
    by (simp only: daysBeforeYear_def add_diff_cancel_right')
  have E: "daysBeforeYear y = 365 * (y - 1) + a - b + c" "isLeap y = (p \<and> (\<not> q \<or> r))"
    by (simp_all only: daysBeforeYear_def isLeap_def n)
  have "q \<longrightarrow> p" "r \<longrightarrow> q" unfolding n by (rule impI, rule m, assumption)+
  then consider "p" "q" "r" | "p" "q" "\<not> r" | "p" "\<not> q" "\<not> r" | "\<not> p" "\<not> q" "\<not> r" by blast
  then show ?thesis unfolding D E by cases simp_all
qed

function yearFrom :: "int \<Rightarrow> int \<Rightarrow> int" where
  "yearFrom y d = (if daysBeforeYear (y + 1) \<le> d then yearFrom (y + 1) d else y)"
  by pat_completeness auto
termination
  by (relation "measure (\<lambda>(y, d). nat (d - daysBeforeYear y))") (auto simp: daysBeforeYear_step split: if_splits)

declare yearFrom.simps [simp del]

text \<open>The year of a day and the day's position in it.\<close>

definition yearOf :: "int \<Rightarrow> int" where
  "yearOf d = yearFrom (if d < 0 then d div 365 else d div 366 + 1) d"

fun monthDay :: "int list \<Rightarrow> int \<Rightarrow> int \<times> int" where
  "monthDay [] d = (1, d + 1)"
| "monthDay (l # ls) d = (if d < l then (1, d + 1) else case monthDay ls (d - l) of (m, k) \<Rightarrow> (m + 1, k))"

definition civil :: "int \<Rightarrow> int \<times> int \<times> int" where
  "civil d = (let y = yearOf d in case monthDay (monthLengths y) (d - daysBeforeYear y) of (m, k) \<Rightarrow> (y, m, k))"

definition dayNumber :: "int \<Rightarrow> int \<Rightarrow> int \<Rightarrow> int" where
  "dayNumber y m k = daysBeforeYear y + sum_list (take (nat (m - 1)) (monthLengths y)) + (k - 1)"

lemma yearFrom_bounds:
  "daysBeforeYear y \<le> d \<Longrightarrow> daysBeforeYear (yearFrom y d) \<le> d \<and> d < daysBeforeYear (yearFrom y d + 1)"
proof (induction y d rule: yearFrom.induct)
  case (1 y d)
  then show ?case by (cases "daysBeforeYear (y + 1) \<le> d") (simp_all add: yearFrom.simps [of y d])
qed

lemma yearOf_bounds: "daysBeforeYear (yearOf d) \<le> d" "d < daysBeforeYear (yearOf d + 1)"
proof -
  have "daysBeforeYear (if d < 0 then d div 365 else d div 366 + 1) \<le> d"
  proof (cases "d < 0")
    case True
    let ?x = "d div 365 - 1"
    have x: "?x < 0" using True by (simp add: pos_imp_zdiv_neg_iff)
    then have "?x div 4 \<le> ?x div 100" "?x div 400 < 0" using zdiv_mono2_neg [of ?x 4 100] by (simp_all add: pos_imp_zdiv_neg_iff)
    moreover have "365 * (d div 365) \<le> d" using div_mult_mod_eq [of d 365] pos_mod_sign [of 365 d] by linarith
    ultimately show ?thesis using True by (simp add: daysBeforeYear_def)
  next
    case False
    let ?x = "d div 366"
    have x: "0 \<le> ?x" using False by (simp add: pos_imp_zdiv_nonneg_iff)
    then have "?x div 400 \<le> ?x div 100" "?x div 4 \<le> ?x" using zdiv_mono2 [of ?x 100 400] zdiv_mono2 [of ?x 1 4] by simp_all
    moreover have "366 * ?x \<le> d" using div_mult_mod_eq [of d 366] pos_mod_sign [of 366 d] by linarith
    ultimately show ?thesis using False by (simp add: daysBeforeYear_def)
  qed
  from yearFrom_bounds [OF this] show "daysBeforeYear (yearOf d) \<le> d" "d < daysBeforeYear (yearOf d + 1)"
    by (simp_all add: yearOf_def)
qed

lemma monthDay_bounds:
  assumes "0 \<le> d" "d < sum_list ls" "list_all (\<lambda>l. 0 < l) ls" "monthDay ls d = (m, k)"
  shows "1 \<le> m \<and> nat m \<le> length ls \<and> 1 \<le> k \<and> k \<le> ls ! nat (m - 1) \<and> sum_list (take (nat (m - 1)) ls) + (k - 1) = d"
  using assms
proof (induction ls arbitrary: d m)
  case (Cons l ls)
  show ?case
  proof (cases "d < l")
    case False
    then obtain n where n: "monthDay ls (d - l) = (n, k)" "m = n + 1" using Cons.prems(4) by (auto split: prod.splits)
    with Cons.IH [of "d - l" n] Cons.prems False have i: "1 \<le> n \<and> nat n \<le> length ls \<and> 1 \<le> k \<and> k \<le> ls ! nat (n - 1)
      \<and> sum_list (take (nat (n - 1)) ls) + (k - 1) = d - l" by simp
    then have "nat (m - 1) = Suc (nat (n - 1))" "nat m = Suc (nat n)" using n(2) by linarith+
    with i n(2) show ?thesis by simp
  qed (use Cons.prems in auto)
qed simp

lemma civil_dayNumber:
  assumes "civil d = (y, m, k)"
  shows "dayNumber y m k = d" "y = yearOf d" "1 \<le> m" "m \<le> 12" "1 \<le> k" "k \<le> monthLengths y ! nat (m - 1)"
proof -
  have y: "y = yearOf d" "monthDay (monthLengths y) (d - daysBeforeYear y) = (m, k)"
    using assms by (auto simp: civil_def Let_def split: prod.splits)
  have s: "sum_list (monthLengths y) = (if isLeap y then 366 else 365)" "list_all (\<lambda>l. 0 < l) (monthLengths y)" "length (monthLengths y) = 12"
    by (simp_all add: monthLengths_def)
  have "d - daysBeforeYear y < sum_list (monthLengths y)"
    using yearOf_bounds(2) [of d] unfolding s(1) y(1) [symmetric] daysBeforeYear_step by linarith
  from monthDay_bounds [OF _ this s(2) y(2)] yearOf_bounds(1) [of d] y(1) s(3)
  show "dayNumber y m k = d" "y = yearOf d" "1 \<le> m" "m \<le> 12" "1 \<le> k" "k \<le> monthLengths y ! nat (m - 1)"
    by (auto simp: dayNumber_def)
qed

section \<open>RFC 3339\<close>

text \<open>A number with leading zeros.\<close>

definition padded :: "nat \<Rightarrow> int \<Rightarrow> string" where
  "padded w n = replicate (w - length (decstring (nat n))) (CHR ''0'') @ decstring (nat n)"

text \<open>The fraction of a second: nine digits without trailing zeros, nothing for zero.\<close>

definition fraction :: "int \<Rightarrow> string" where
  "fraction ns = (if ns = 0 then [] else ''.'' @ rev (dropWhile (\<lambda>c. c = CHR ''0'') (rev (padded 9 ns))))"

definition Time_MarshalJSON :: "time \<Rightarrow> string result" where
  "Time_MarshalJSON t =
     (let secs = t div 1000000000; sod = secs mod 86400 in case civil (secs div 86400) of (y, m, d) \<Rightarrow>
      if y < 0 \<or> y \<ge> 10000 then Inl (Errorf ''Time.MarshalJSON: year outside of range [0,9999]'')
      else Inr (padded 4 y @ ''-'' @ padded 2 m @ ''-'' @ padded 2 d @ ''T'' @ padded 2 (sod div 3600) @ '':''
        @ padded 2 (sod div 60 mod 60) @ '':'' @ padded 2 (sod mod 60) @ fraction (t mod 1000000000) @ ''Z''))"

definition digitsValue :: "string \<Rightarrow> int" where
  "digitsValue s = int (foldl (\<lambda>acc c. 10 * acc + digitValue c) 0 s)"

text \<open>\<^verbatim>\<open>w\<close> digits at the front of a text, then the rest.\<close>

definition takeDigits :: "nat \<Rightarrow> string \<Rightarrow> (int \<times> string) result" where
  "takeDigits w s = (if length s < w \<or> \<not> list_all isDigit (take w s) then parseFailure
     else Inr (digitsValue (take w s), drop w s))"

definition expect :: "char \<Rightarrow> string \<Rightarrow> string result" where
  "expect c s = (case s of [] \<Rightarrow> parseFailure | x # xs \<Rightarrow> if x = c then Inr xs else parseFailure)"

text \<open>
  \<^verbatim>\<open>parseStrictRFC3339\<close>, for the offset \<^verbatim>\<open>Z\<close>: digits of a fraction after the ninth are dropped.
\<close>

definition fractionValue :: "string \<Rightarrow> int" where
  "fractionValue ds = digitsValue (take 9 (ds @ replicate 9 (CHR ''0'')))"

definition Time_UnmarshalJSON :: "string \<Rightarrow> time result" where
  "Time_UnmarshalJSON s =
     rbind (takeDigits 4 s) (\<lambda>(y, s). rbind (expect (CHR ''-'') s) (\<lambda>s.
     rbind (takeDigits 2 s) (\<lambda>(m, s). rbind (expect (CHR ''-'') s) (\<lambda>s.
     rbind (takeDigits 2 s) (\<lambda>(d, s). rbind (expect (CHR ''T'') s) (\<lambda>s.
     rbind (takeDigits 2 s) (\<lambda>(hh, s). rbind (expect (CHR '':'') s) (\<lambda>s.
     rbind (takeDigits 2 s) (\<lambda>(mm, s). rbind (expect (CHR '':'') s) (\<lambda>s.
     rbind (takeDigits 2 s) (\<lambda>(ss, s).
     let ds = (case s of c # cs \<Rightarrow> if c = CHR ''.'' then takeWhile isDigit cs else [] | [] \<Rightarrow> []);
         s' = (if ds = [] then s else drop (1 + length ds) s) in
     if m < 1 \<or> m > 12 \<or> d < 1 \<or> d > monthLengths y ! nat (m - 1) \<or> hh > 23 \<or> mm > 59 \<or> ss > 59 \<or> s' \<noteq> ''Z'' then parseFailure
     else Inr ((dayNumber y m d * 86400 + hh * 3600 + mm * 60 + ss) * 1000000000 + fractionValue ds))))))))))))"

lemma digitsValue_zeros: "foldl (\<lambda>acc c. 10 * acc + digitValue c) 0 (replicate k (CHR ''0'') @ s) = foldl (\<lambda>acc c. 10 * acc + digitValue c) 0 s"
  by (induction k) (simp_all add: digitValue_def)

lemma decstring_length: "0 < k \<Longrightarrow> n < 10 ^ k \<Longrightarrow> length (decstring n) \<le> k"
proof (induction k arbitrary: n)
  case (Suc k)
  show ?case
  proof (cases "n < 10")
    case False
    then have "0 < k" using Suc.prems by (cases k) auto
    moreover have "n div 10 < 10 ^ k" using Suc.prems by (simp add: less_mult_imp_div_less mult.commute)
    ultimately have "length (decstring (n div 10)) \<le> k" by (rule Suc.IH)
    with False show ?thesis by (simp add: decstring.simps [of n])
  qed (simp add: decstring.simps [of n])
qed simp

lemma padded:
  assumes "0 \<le> n" "n < 10 ^ w" "0 < w"
  shows "length (padded w n) = w" "list_all isDigit (padded w n)" "digitsValue (padded w n) = n"
proof -
  have "nat n < 10 ^ w" using assms by (simp add: nat_less_iff)
  then have l: "length (decstring (nat n)) \<le> w" by (rule decstring_length [OF assms(3)])
  then show "length (padded w n) = w" by (simp add: padded_def)
  show "list_all isDigit (padded w n)" using decstring_digits(1) by (auto simp: padded_def list_all_iff isDigit_def)
  show "digitsValue (padded w n) = n" using assms(1) by (simp add: padded_def digitsValue_def digitsValue_zeros decstring_value del: foldl_append)
qed

lemma takeDigits_padded:
  assumes "0 \<le> n" "n < 10 ^ w" "0 < w"
  shows "takeDigits w (padded w n @ s) = Inr (n, s)"
  using padded [OF assms] by (simp add: takeDigits_def)

lemma fraction_read:
  assumes "0 < ns" "ns < 1000000000"
  shows "\<exists>ds. fraction ns = ''.'' @ ds \<and> ds \<noteq> [] \<and> list_all isDigit ds \<and> fractionValue ds = ns"
proof -
  have p: "length (padded 9 ns) = 9" "list_all isDigit (padded 9 ns)" "digitsValue (padded 9 ns) = ns"
    using padded [of ns 9] assms by simp_all
  define ds where "ds = rev (dropWhile (\<lambda>c. c = CHR ''0'') (rev (padded 9 ns)))"
  define z where "z = rev (takeWhile (\<lambda>c. c = CHR ''0'') (rev (padded 9 ns)))"
  have z: "padded 9 ns = ds @ z" unfolding ds_def z_def by (metis rev_append rev_rev_ident takeWhile_dropWhile_id)
  have "takeWhile (\<lambda>c. c = CHR ''0'') xs = replicate (length (takeWhile (\<lambda>c. c = CHR ''0'') xs)) (CHR ''0'')" for xs
    by (induction xs) auto
  then have "z = replicate (length z) (CHR ''0'')" unfolding z_def by (metis length_rev rev_replicate)
  moreover have "length ds + length z = 9" using p(1) z by simp
  then have "length ds \<le> 9" "length z = 9 - length ds" by simp_all
  ultimately have "take 9 (ds @ replicate 9 (CHR ''0'')) = padded 9 ns" unfolding z by (simp add: min_def)
  then have v: "fractionValue ds = ns" using p(3) by (simp add: fractionValue_def)
  moreover have "ds \<noteq> []"
  proof
    assume "ds = []"
    then have "fractionValue ds = 0" by (simp add: fractionValue_def digitsValue_def digitsValue_zeros [of 9 "[]", simplified])
    then show False using v assms by simp
  qed
  moreover have "list_all isDigit ds" using p(2) z by simp
  ultimately show ?thesis using assms by (auto simp: fraction_def ds_def [symmetric])
qed

text \<open>What \<^verbatim>\<open>MarshalJSON\<close> writes reads back.\<close>

lemma Time_roundtrip:
  assumes "Time_MarshalJSON t = Inr s"
  shows "Time_UnmarshalJSON s = Inr t"
proof -
  define secs where "secs = t div 1000000000"
  define sod where "sod = secs mod 86400"
  obtain y m d where c: "civil (secs div 86400) = (y, m, d)" by (cases "civil (secs div 86400)") auto
  note C = civil_dayNumber [OF c]
  have y: "0 \<le> y" "y < 10000" and s: "s = padded 4 y @ ''-'' @ padded 2 m @ ''-'' @ padded 2 d @ ''T'' @ padded 2 (sod div 3600) @ '':''
        @ padded 2 (sod div 60 mod 60) @ '':'' @ padded 2 (sod mod 60) @ fraction (t mod 1000000000) @ ''Z''"
    using assms c by (auto simp: Time_MarshalJSON_def Let_def secs_def sod_def split: if_splits)
  have so: "0 \<le> sod" "sod < 86400" by (simp_all add: sod_def)
  have "monthLengths y ! nat (m - 1) \<le> 31"
  proof -
    have "nat (m - 1) < 12" using C(3,4) by simp
    then have "monthLengths y ! nat (m - 1) \<in> set (monthLengths y)" by (intro nth_mem) (simp add: monthLengths_def)
    then show ?thesis by (auto simp: monthLengths_def split: if_splits)
  qed
  then have dd: "d < 100" using C(6) by simp
  have h: "0 \<le> sod div 3600" "sod div 3600 \<le> 23" "0 \<le> sod div 60 mod 60" "sod div 60 mod 60 \<le> 59" "0 \<le> sod mod 60" "sod mod 60 \<le> 59"
    using so by (simp_all add: pos_imp_zdiv_nonneg_iff)
  let ?ns = "t mod 1000000000"
  have ns: "0 \<le> ?ns" "?ns < 1000000000" by simp_all
  have fr: "\<exists>ds. fraction ?ns = (if ds = [] then [] else ''.'' @ ds) \<and> list_all isDigit ds \<and> fractionValue ds = ?ns"
  proof (cases "?ns = 0")
    case True
    have "fractionValue [] = 0" by (simp add: fractionValue_def digitsValue_def digitsValue_zeros [of 9 "[]", simplified])
    then show ?thesis using True by (intro exI [of _ "[]"]) (simp add: fraction_def)
  next
    case False
    then show ?thesis using fraction_read [of ?ns] ns by auto
  qed
  then obtain ds where ds: "fraction ?ns = (if ds = [] then [] else ''.'' @ ds)" "list_all isDigit ds" "fractionValue ds = ?ns" by blast
  have tw: "takeWhile isDigit (ds @ ''Z'') = ds" using ds(2) by (induction ds) (simp_all add: isDigit_def)
  have t: "(dayNumber y m d * 86400 + sod div 3600 * 3600 + sod div 60 mod 60 * 60 + sod mod 60) * 1000000000 + ?ns = t"
  proof -
    have "sod div 3600 = sod div 60 div 60" using zdiv_zmult2_eq [of 60 sod 60] by simp
    then have "sod div 3600 * 3600 + sod div 60 mod 60 * 60 + sod mod 60 = sod"
      using div_mult_mod_eq [of sod 60] div_mult_mod_eq [of "sod div 60" 60] by linarith
    then have "dayNumber y m d * 86400 + sod div 3600 * 3600 + sod div 60 mod 60 * 60 + sod mod 60 = secs div 86400 * 86400 + sod"
      using C(1) by (simp only: add.assoc)
    also have "\<dots> = secs" unfolding sod_def by (rule div_mult_mod_eq)
    finally show ?thesis using div_mult_mod_eq [of t 1000000000] by (simp only: secs_def)
  qed
  have e: "expect c (c # x) = Inr x" for c x by (simp add: expect_def)
  define hh where "hh = sod div 3600"
  define mm where "mm = sod div 60 mod 60"
  define ss where "ss = sod mod 60"
  have "takeDigits 2 (padded 2 n @ x) = Inr (n, x)" if "0 \<le> n" "n < 100" for n x using takeDigits_padded [of n 2 x] that by simp
  note two = this
  have four: "takeDigits 4 (padded 4 y @ x) = Inr (y, x)" for x using takeDigits_padded [of y 4 x] y by simp
  have v: "\<not> (m < 1 \<or> m > 12 \<or> d < 1 \<or> d > monthLengths y ! nat (m - 1) \<or> hh > 23 \<or> mm > 59 \<or> ss > 59)"
    using C(3-6) h unfolding hh_def mm_def ss_def by linarith
  have "Time_UnmarshalJSON (padded 4 y @ ''-'' @ padded 2 m @ ''-'' @ padded 2 d @ ''T'' @ padded 2 hh @ '':''
        @ padded 2 mm @ '':'' @ padded 2 ss @ f @ ''Z'') = Inr ((dayNumber y m d * 86400 + hh * 3600 + mm * 60 + ss) * 1000000000 + fractionValue ds)"
    if "f = (if ds = [] then [] else ''.'' @ ds)" for f
    using two [of m] two [of d] two [of hh] two [of mm] two [of ss] four v C(3-5) dd h [folded hh_def mm_def ss_def] tw that
    by (cases "ds = []") (simp_all add: Time_UnmarshalJSON_def e Let_def)
  from this [OF ds(1)] show ?thesis unfolding s hh_def mm_def ss_def ds(3) t .
qed

end
