(* ===== verification/Json.thy ===== *)
theory Json
  imports TimeText Domain
begin

text \<open>
  The part of \<^verbatim>\<open>encoding/json\<close> the controller uses, on JSON values: a text is the value it spells. An
  encoder gives the value \<^verbatim>\<open>Marshal\<close> writes, a decoder what \<^verbatim>\<open>Unmarshal\<close> leaves in a variable that held
  a given value before. The locale \<open>json_codec\<close> is the contract between the two halves of a type.
\<close>

section \<open>Strings\<close>

text \<open>
  The length of the UTF-8 sequence at the front of a text, 0 when there is none (\<^verbatim>\<open>utf8.DecodeRune\<close>), and
  what the encoder makes of a Go string: each byte that is not UTF-8 becomes U+FFFD.
\<close>

definition contByte :: "nat \<Rightarrow> nat \<Rightarrow> char \<Rightarrow> bool" where
  "contByte lo hi c = (let n = of_char c :: nat in lo \<le> n \<and> n \<le> hi)"

definition runeLen :: "string \<Rightarrow> nat" where
  "runeLen s = (case s of [] \<Rightarrow> 0 | c # cs \<Rightarrow>
     let n = of_char c :: nat; any = contByte 0x80 0xbf;
         rest = (\<lambda>lo hi k. length cs \<ge> Suc k \<and> contByte lo hi (cs ! 0) \<and> list_all any (take k (drop 1 cs))) in
     if n < 0x80 then 1
     else if 0xc2 \<le> n \<and> n \<le> 0xdf then (if rest 0x80 0xbf 0 then 2 else 0)
     else if 0xe0 \<le> n \<and> n \<le> 0xef then
       (if rest (if n = 0xe0 then 0xa0 else 0x80) (if n = 0xed then 0x9f else 0xbf) 1 then 3 else 0)
     else if 0xf0 \<le> n \<and> n \<le> 0xf4 then
       (if rest (if n = 0xf0 then 0x90 else 0x80) (if n = 0xf4 then 0x8f else 0xbf) 2 then 4 else 0)
     else 0)"

function coerceUTF8 :: "string \<Rightarrow> string" where
  "coerceUTF8 s = (if s = [] then []
     else if runeLen s = 0 then [CHR 0xef, CHR 0xbf, CHR 0xbd] @ coerceUTF8 (tl s)
     else take (runeLen s) s @ coerceUTF8 (drop (runeLen s) s))"
  by pat_completeness auto
termination
  by (relation "measure length") auto

declare coerceUTF8.simps [simp del]

definition validUTF8 :: "string \<Rightarrow> bool" where
  "validUTF8 s = (coerceUTF8 s = s)"

lemma validUTF8_ascii: "list_all (\<lambda>c. (of_char c :: nat) < 128) s \<Longrightarrow> validUTF8 s"
proof (induction s)
  case (Cons c s)
  then have "runeLen (c # s) = 1" by (simp add: runeLen_def)
  with Cons show ?case by (simp add: validUTF8_def coerceUTF8.simps [of "c # s"])
qed (simp add: validUTF8_def coerceUTF8.simps)

lemma validUTF8_Nil [simp]: "validUTF8 []"
  by (simp add: validUTF8_ascii)

section \<open>Scalars\<close>

definition encString :: "string \<Rightarrow> RawMessage" where "encString s = JString (coerceUTF8 s)"
definition encUint :: "'a::len word \<Rightarrow> RawMessage" where "encUint w = JNumber (decstring (unat w))"
definition encInt :: "int \<Rightarrow> RawMessage" where
  "encInt i = JNumber (if i < 0 then CHR ''-'' # decstring (nat (- i)) else decstring (nat i))"
definition encAddr :: "Addr \<Rightarrow> RawMessage" where "encAddr a = encString (Addr_MarshalText a)"
definition encPrefix :: "Prefix \<Rightarrow> RawMessage" where
  "encPrefix p = encString (if p = \<lparr> pfAddr = NoAddr, pfBits = -1 \<rparr> then [] else Prefix_String p)"
definition encTime :: "time \<Rightarrow> RawMessage result" where "encTime t = rbind (Time_MarshalJSON t) (\<lambda>s. Inr (encString s))"

text \<open>Decoders take the value the variable had: null leaves it.\<close>

type_synonym 'a decoder = "'a \<Rightarrow> RawMessage \<Rightarrow> 'a result"

fun decBool :: "bool decoder" where
  "decBool cur JNull = Inr cur"
| "decBool cur (JBool b) = Inr b"
| "decBool cur _ = parseFailure"

fun decString :: "string decoder" where
  "decString cur JNull = Inr cur"
| "decString cur (JString s) = Inr s"
| "decString cur _ = parseFailure"

fun decUint :: "'a::len word decoder" where
  "decUint cur JNull = Inr cur"
| "decUint cur (JNumber literal) = rbind (ParseUint10 literal) (\<lambda>v.
     if unat v < 2 ^ LENGTH('a) then Inr (of_nat (unat v)) else parseFailure)"
| "decUint cur _ = parseFailure"

text \<open>Into an \<^verbatim>\<open>int\<close>: \<^verbatim>\<open>strconv.ParseInt\<close> with 64 bits.\<close>

definition ParseInt10 :: "string \<Rightarrow> int result" where
  "ParseInt10 s = (case s of
     [] \<Rightarrow> parseFailure
   | c # cs \<Rightarrow>
       if c = CHR ''-'' then rbind (ParseUint10 cs) (\<lambda>v. if uint v \<le> 2 ^ 63 then Inr (- uint v) else parseFailure)
       else rbind (ParseUint10 s) (\<lambda>v. if uint v < 2 ^ 63 then Inr (uint v) else parseFailure))"

fun decInt :: "int decoder" where
  "decInt cur JNull = Inr cur"
| "decInt cur (JNumber literal) = ParseInt10 literal"
| "decInt cur _ = parseFailure"

text \<open>Types with \<^verbatim>\<open>UnmarshalText\<close> take strings only; \<^verbatim>\<open>time.Time\<close> decodes itself and ignores null.\<close>

fun decAddr :: "Addr decoder" where
  "decAddr cur (JString s) = Addr_UnmarshalText s"
| "decAddr cur _ = parseFailure"

fun decPrefix :: "Prefix decoder" where
  "decPrefix cur (JString s) = (if s = [] then Inr \<lparr> pfAddr = NoAddr, pfBits = -1 \<rparr> else ParsePrefix s)"
| "decPrefix cur _ = parseFailure"

fun decTime :: "time decoder" where
  "decTime cur JNull = Inr cur"
| "decTime cur (JString s) = Time_UnmarshalJSON s"
| "decTime cur _ = parseFailure"

section \<open>Collections and structs\<close>

fun decList :: "'a decoder \<Rightarrow> 'a \<Rightarrow> 'a list decoder" where
  "decList dec zero cur JNull = Inr []"
| "decList dec zero cur (JArray xs) = mapM (dec zero) xs"
| "decList dec zero cur _ = parseFailure"

fun decPtr :: "'a decoder \<Rightarrow> 'a \<Rightarrow> 'a option decoder" where
  "decPtr dec zero cur JNull = Inr None"
| "decPtr dec zero cur j = rbind (dec (case cur of Some x \<Rightarrow> x | None \<Rightarrow> zero) j) (\<lambda>x. Inr (Some x))"

text \<open>A map keeps the entries it had; the encoder writes them in the order of the keys.\<close>

fun decEntries :: "'a decoder \<Rightarrow> 'a \<Rightarrow> (string \<times> RawMessage) list \<Rightarrow> (string, 'a) fmap \<Rightarrow> (string, 'a) fmap result" where
  "decEntries dec zero [] m = Inr m"
| "decEntries dec zero ((k, j) # js) m = rbind (dec zero j) (\<lambda>v. decEntries dec zero js (fmupd k v m))"

fun decMap :: "'a decoder \<Rightarrow> 'a \<Rightarrow> (string, 'a) fmap option decoder" where
  "decMap dec zero cur JNull = Inr None"
| "decMap dec zero cur (JObject js) =
     rbind (decEntries dec zero js (case cur of Some m \<Rightarrow> m | None \<Rightarrow> fmempty)) (\<lambda>m. Inr (Some m))"
| "decMap dec zero cur _ = parseFailure"

definition encMap :: "('a \<Rightarrow> RawMessage) \<Rightarrow> (string, 'a) fmap \<Rightarrow> RawMessage" where
  "encMap enc m = JObject (map (\<lambda>(k, v). (coerceUTF8 k, enc v)) (sorted_list_of_fmap m))"

text \<open>
  Struct fields: a key finds its field by its name, otherwise by its name up to case, where the long s
  and the Kelvin sign count as letters (\<^verbatim>\<open>foldName\<close>). The members are decoded in the order of the text.
\<close>

fun foldName :: "string \<Rightarrow> string" where
  "foldName [] = []"
| "foldName (c # cs) =
     (if take 2 (c # cs) = [CHR 0xc5, CHR 0xbf] then CHR ''s'' # foldName (drop 1 cs)
      else if take 3 (c # cs) = [CHR 0xe2, CHR 0x84, CHR 0xaa] then CHR ''k'' # foldName (drop 2 cs)
      else (let n = of_char c :: nat in if 65 \<le> n \<and> n \<le> 90 then char_of (n + 32) else c) # foldName cs)"

type_synonym 'r fields = "(string \<times> 'r decoder) list"

definition findField :: "'r fields \<Rightarrow> string \<Rightarrow> 'r decoder option" where
  "findField fs k = (case map_of fs k of
     Some d \<Rightarrow> Some d
   | None \<Rightarrow> map_option snd (find (\<lambda>(name, d). foldName name = foldName k) fs))"

fun decMembers :: "bool \<Rightarrow> 'r fields \<Rightarrow> (string \<times> RawMessage) list \<Rightarrow> 'r \<Rightarrow> 'r result" where
  "decMembers strict fs [] r = Inr r"
| "decMembers strict fs ((k, j) # js) r = (case findField fs k of
     None \<Rightarrow> if strict then parseFailure else decMembers strict fs js r
   | Some d \<Rightarrow> rbind (d r j) (decMembers strict fs js))"

fun decStruct :: "bool \<Rightarrow> 'r fields \<Rightarrow> 'r decoder" where
  "decStruct strict fs r JNull = Inr r"
| "decStruct strict fs r (JObject js) = decMembers strict fs js r"
| "decStruct strict fs r _ = parseFailure"

text \<open>A field given by the decoder of its type, what it reads and how it is set.\<close>

definition setField :: "'a decoder \<Rightarrow> ('r \<Rightarrow> 'a) \<Rightarrow> ('a \<Rightarrow> 'r \<Rightarrow> 'r) \<Rightarrow> 'r decoder" where
  "setField dec get put r j = rbind (dec (get r) j) (\<lambda>v. Inr (put v r))"

text \<open>The option \<^verbatim>\<open>omitempty\<close>.\<close>

definition omitIf :: "bool \<Rightarrow> string \<Rightarrow> RawMessage \<Rightarrow> (string \<times> RawMessage) list" where
  "omitIf absent k j = (if absent then [] else [(k, j)])"

declare decList.simps [simp del] decPtr.simps [simp del] decMap.simps [simp del]

section \<open>Codecs\<close>

lemma fmupd_add: "a |\<notin>| fmdom n \<Longrightarrow> fmupd a b m ++\<^sub>f n = fmupd a b (m ++\<^sub>f n)"
  by (rule fmap_ext) (auto simp: fmlookup_dom_iff)

locale json_codec =
  fixes enc :: "'a \<Rightarrow> RawMessage"
    and dec :: "'a decoder"
    and zero :: 'a
    and ok :: "'a \<Rightarrow> bool"
  assumes dec_enc: "ok x \<Longrightarrow> dec zero (enc x) = Inr x"
begin

lemma decList_enc: "list_all ok xs \<Longrightarrow> decList dec zero cur (JArray (map enc xs)) = Inr xs"
proof -
  assume "list_all ok xs"
  then have "mapM (\<lambda>x. dec zero (enc x)) xs = Inr (map (\<lambda>x. x) xs)" by (intro mapM_all_ok) (auto simp: list_all_iff dec_enc)
  moreover have "mapM (dec zero) (map enc xs) = mapM (\<lambda>x. dec zero (enc x)) xs" by (induction xs) auto
  ultimately show ?thesis by (simp add: decList.simps)
qed

lemma decList_total: "\<forall>x. ok x \<Longrightarrow> decList dec zero cur (JArray (map enc xs)) = Inr xs"
  by (rule decList_enc) (simp add: list_all_iff)

lemma decEntries_enc:
  "list_all (\<lambda>(k, v). validUTF8 k \<and> ok v) ps \<Longrightarrow> distinct (map fst ps) \<Longrightarrow>
   decEntries dec zero (map (\<lambda>(k, v). (coerceUTF8 k, enc v)) ps) m = Inr (m ++\<^sub>f fmap_of_list ps)"
proof (induction ps arbitrary: m)
  case (Cons p ps)
  then have "fst p |\<notin>| fmdom (fmap_of_list ps)" by (auto simp: fset_of_list_elem)
  with Cons show ?case by (cases p) (auto simp: validUTF8_def dec_enc fmupd_add)
qed simp

end

locale json_pointer = json_codec +
  assumes enc_not_null: "enc x \<noteq> JNull"
begin

lemma decPtr_enc: "ok x \<Longrightarrow> decPtr dec zero None (enc x) = Inr (Some x)"
  using enc_not_null [of x] dec_enc [of x] by (cases "enc x") (auto simp: decPtr.simps)

end

lemma fmap_of_sorted_list: "fmap_of_list (sorted_list_of_fmap m) = m" "distinct (map fst (sorted_list_of_fmap m))"
proof -
  show "fmap_of_list (sorted_list_of_fmap m) = m" by (rule fmap_ext) (simp add: fmlookup_of_list)
  show "distinct (map fst (sorted_list_of_fmap m))" by (simp add: sorted_list_of_fmap_def comp_def sorted_list_of_fset.rep_eq)
qed

context json_codec
begin

lemma decMap_enc: "fmpred (\<lambda>k v. validUTF8 k \<and> ok v) m \<Longrightarrow> decMap dec zero None (encMap enc m) = Inr (Some m)"
proof -
  assume "fmpred (\<lambda>k v. validUTF8 k \<and> ok v) m"
  then have "list_all (\<lambda>(k, v). validUTF8 k \<and> ok v) (sorted_list_of_fmap m)" by simp
  from decEntries_enc [OF this fmap_of_sorted_list(2), of fmempty] show ?thesis by (simp add: encMap_def decMap.simps fmap_of_sorted_list)
qed

end

lemma decUint_enc: "LENGTH('a) \<le> 64 \<Longrightarrow> decUint cur (encUint (w :: 'a::len word)) = Inr w"
proof -
  assume l: "LENGTH('a) \<le> 64"
  have "unat w < 2 ^ LENGTH('a)" by (rule unsigned_less)
  also have "(2 :: nat) ^ LENGTH('a) \<le> 2 ^ 64" using l by (rule power_increasing) simp
  finally have "unat w < 2 ^ 64" .
  then have "ParseUint10 (decstring (unat w)) = Inr (of_nat (unat w))" "unat (of_nat (unat w) :: uint64) = unat w"
    by (simp_all add: ParseUint10_decstring unsigned_ucast_eq take_bit_nat_eq_self)
  then show ?thesis using unsigned_less [of w] by (simp add: encUint_def)
qed

lemma decInt_enc:
  assumes "- (2 ^ 63) \<le> i" "i < 2 ^ 63"
  shows "decInt cur (encInt i) = Inr i"
proof -
  have u: "uint (of_nat n :: uint64) = int n" if "n < 2 ^ 64" for n using that by (simp add: unsigned_of_nat take_bit_nat_eq_self)
  show ?thesis
  proof (cases "i < 0")
    case True
    then have n: "nat (- i) < 2 ^ 64" using assms by simp
    obtain v where "ParseUint10 (decstring (nat (- i))) = Inr v" "uint v = - i" using ParseUint10_decstring [OF n] u [OF n] True by simp
    then show ?thesis using True assms by (simp add: encInt_def ParseInt10_def)
  next
    case False
    obtain c cs where c: "decstring (nat i) = c # cs" "c \<noteq> CHR ''-''"
    proof (cases "decstring (nat i)")
      case (Cons c cs)
      then have "isDigit c" using decstring_digits(1) [of "nat i"] by simp
      then have "c \<noteq> CHR ''-''" by (auto simp: isDigit_def)
      with Cons that show thesis by blast
    qed (use decstring_digits(2) in simp)
    have "nat i < 2 ^ 64" using assms by simp
    with ParseUint10_decstring [OF this] u [OF this] show ?thesis using False assms c by (simp add: encInt_def ParseInt10_def)
  qed
qed

lemma decString_enc: "validUTF8 s \<Longrightarrow> decString cur (encString s) = Inr s"
  by (simp add: encString_def validUTF8_def)

lemma ParsePrefix_String:
  assumes "addrIsValid (pfAddr p)" "addrZone (pfAddr p) = []" "0 \<le> pfBits p" "pfBits p \<le> int (BitLen (pfAddr p))"
  shows "ParsePrefix (Prefix_String p) = Inr p"
proof -
  let ?d = "decstring (nat (pfBits p))" and ?a = "Addr_String (pfAddr p)"
  have "BitLen (pfAddr p) \<le> 128" by (cases "pfAddr p") auto
  then have n: "nat (pfBits p) < 256" using assms(4) by linarith
  have s: "Prefix_String p = ?a @ ''/'' @ ?d" using assms(3) by (simp add: Prefix_String_def prefixIsValid_def)
  have dg: "list_all isDigit ?d" "?d \<noteq> []" by (rule decstring_digits)+
  then have "\<forall>c \<in> set (rev ?d). c \<noteq> CHR ''/''" by (auto simp: list_all_iff isDigit_def)
  then have "takeWhile (\<lambda>c. c \<noteq> CHR ''/'') (rev ?d) = rev ?d" by (subst takeWhile_eq_all_conv) auto
  then have t: "rev (takeWhile (\<lambda>c. c \<noteq> CHR ''/'') (rev (Prefix_String p))) = ?d" unfolding s by (simp add: takeWhile_append)
  have l: "\<not> (length ?d > 1 \<and> (hd ?d < CHR ''1'' \<or> hd ?d > CHR ''9''))"
  proof -
    have "of_char (hd ?d) \<in> {49 :: nat..57}" if "length ?d > 1"
      using that decstring_octet [OF n] n by (auto split: if_splits)
    then show ?thesis by (auto simp: less_char_def)
  qed
  have u: "ParseUint10 ?d = Inr (of_nat (nat (pfBits p)))" "unat (of_nat (nat (pfBits p)) :: uint64) = nat (pfBits p)"
    using n by (simp_all add: ParseUint10_decstring unsigned_of_nat take_bit_nat_eq_self)
  show ?thesis
    unfolding ParsePrefix_def Let_def t
    using s l u assms ParseAddr_String [OF assms(1)] by simp
qed

end
