(* ===== verification/Documents.thy ===== *)
theory Documents
  imports Json
begin

text \<open>
  The JSON form of the documents: the struct tags of \<^verbatim>\<open>internal/domain\<close>. \<^verbatim>\<open>omitempty\<close> leaves out what is
  empty; it has no effect on fields of a struct type (times and addresses). A nil slice is written
  as an empty one. Every document that the encoder can write faithfully reads back.
\<close>

abbreviation fld :: "'a decoder \<Rightarrow> ('r \<Rightarrow> 'a) \<Rightarrow> (('a \<Rightarrow> 'a) \<Rightarrow> 'r \<Rightarrow> 'r) \<Rightarrow> 'r decoder" where
  "fld dec get upd \<equiv> setField dec get (\<lambda>v. upd (\<lambda>_. v))"

section \<open>The parts of a network\<close>

definition zeroPrefix :: Prefix where "zeroPrefix = \<lparr> pfAddr = NoAddr, pfBits = -1 \<rparr>"

definition encModes :: "AssignmentModes \<Rightarrow> RawMessage" where
  "encModes a = JObject [(''ipv4ZeroTier'', JBool (amIPv4ZeroTier a)), (''ipv6ZeroTier'', JBool (amIPv6ZeroTier a)),
     (''ipv6RFC4193'', JBool (amIPv6RFC4193 a)), (''ipv6SixPlane'', JBool (amIPv6SixPlane a))]"

definition modesFields :: "AssignmentModes fields" where
  "modesFields = [(''ipv4ZeroTier'', fld decBool amIPv4ZeroTier amIPv4ZeroTier_update),
     (''ipv6ZeroTier'', fld decBool amIPv6ZeroTier amIPv6ZeroTier_update),
     (''ipv6RFC4193'', fld decBool amIPv6RFC4193 amIPv6RFC4193_update),
     (''ipv6SixPlane'', fld decBool amIPv6SixPlane amIPv6SixPlane_update)]"

definition zeroModes :: AssignmentModes where
  "zeroModes = \<lparr> amIPv4ZeroTier = False, amIPv6ZeroTier = False, amIPv6RFC4193 = False, amIPv6SixPlane = False \<rparr>"

definition encRoute :: "Route \<Rightarrow> RawMessage" where
  "encRoute r = JObject [(''target'', encPrefix (rtTarget r)), (''via'', encAddr (rtVia r))]"

definition routeFields :: "Route fields" where
  "routeFields = [(''target'', fld decPrefix rtTarget rtTarget_update), (''via'', fld decAddr rtVia rtVia_update)]"

definition zeroRoute :: Route where "zeroRoute = \<lparr> rtTarget = zeroPrefix, rtVia = NoAddr \<rparr>"

definition encPool :: "IPPool \<Rightarrow> RawMessage" where
  "encPool p = JObject [(''start'', encAddr (plStart p)), (''end'', encAddr (plEnd p))]"

definition poolFields :: "IPPool fields" where
  "poolFields = [(''start'', fld decAddr plStart plStart_update), (''end'', fld decAddr plEnd plEnd_update)]"

definition zeroPool :: IPPool where "zeroPool = \<lparr> plStart = NoAddr, plEnd = NoAddr \<rparr>"

definition encDNS :: "DNSConfig \<Rightarrow> RawMessage" where
  "encDNS d = JObject (omitIf (dnsDomain d = []) ''domain'' (encString (dnsDomain d))
     @ omitIf (dnsServers d = []) ''servers'' (JArray (map encAddr (dnsServers d))))"

definition dnsFields :: "DNSConfig fields" where
  "dnsFields = [(''domain'', fld decString dnsDomain dnsDomain_update),
     (''servers'', fld (decList decAddr NoAddr) dnsServers dnsServers_update)]"

definition zeroDNS :: DNSConfig where "zeroDNS = \<lparr> dnsDomain = [], dnsServers = [] \<rparr>"

text \<open>A nil map of parameters and an empty one are the same value here.\<close>

fun decRaw :: "RawMessage decoder" where
  "decRaw cur j = Inr j"

definition decParameters :: "(string, RawMessage) fmap decoder" where
  "decParameters cur j = rbind (decMap decRaw JNull (Some cur) j) (\<lambda>m. Inr (case m of Some p \<Rightarrow> p | None \<Rightarrow> fmempty))"

definition encRule :: "Rule \<Rightarrow> RawMessage" where
  "encRule r = JObject ([(''type'', encString (ruType r))] @ omitIf (\<not> ruNegate r) ''negate'' (JBool (ruNegate r))
     @ omitIf (\<not> ruOr r) ''or'' (JBool (ruOr r))
     @ omitIf (ruParameters r = fmempty) ''parameters'' (encMap (\<lambda>j. j) (ruParameters r)))"

definition ruleFields :: "Rule fields" where
  "ruleFields = [(''type'', fld decString ruType ruType_update), (''negate'', fld decBool ruNegate ruNegate_update),
     (''or'', fld decBool ruOr ruOr_update), (''parameters'', fld decParameters ruParameters ruParameters_update)]"

definition zeroRule :: Rule where
  "zeroRule = \<lparr> ruType = [], ruNegate = False, ruOr = False, ruParameters = fmempty \<rparr>"

definition encCapability :: "Capability \<Rightarrow> RawMessage" where
  "encCapability c = JObject ([(''id'', encUint (cpID c)), (''default'', JBool (cpDefault c))]
     @ omitIf (cpRules c = []) ''rules'' (JArray (map encRule (cpRules c))))"

definition capabilityFields :: "bool \<Rightarrow> Capability fields" where
  "capabilityFields strict = [(''id'', fld decUint cpID cpID_update), (''default'', fld decBool cpDefault cpDefault_update),
     (''rules'', fld (decList (decStruct strict ruleFields) zeroRule) cpRules cpRules_update)]"

definition zeroCapability :: Capability where "zeroCapability = \<lparr> cpID = 0, cpDefault = False, cpRules = [] \<rparr>"

definition encTagDefinition :: "TagDefinition \<Rightarrow> RawMessage" where
  "encTagDefinition t = JObject [(''id'', encUint (tdID t)), (''default'', case tdDefault t of None \<Rightarrow> JNull | Some v \<Rightarrow> encUint v)]"

definition tagDefinitionFields :: "TagDefinition fields" where
  "tagDefinitionFields = [(''id'', fld decUint tdID tdID_update), (''default'', fld (decPtr decUint 0) tdDefault tdDefault_update)]"

definition zeroTagDefinition :: TagDefinition where "zeroTagDefinition = \<lparr> tdID = 0, tdDefault = None \<rparr>"

definition encTagValue :: "TagValue \<Rightarrow> RawMessage" where
  "encTagValue t = JObject [(''id'', encUint (tvID t)), (''value'', encUint (tvValue t))]"

definition tagValueFields :: "TagValue fields" where
  "tagValueFields = [(''id'', fld decUint tvID tvID_update), (''value'', fld decUint tvValue tvValue_update)]"

definition zeroTagValue :: TagValue where "zeroTagValue = \<lparr> tvID = 0, tvValue = 0 \<rparr>"

section \<open>Fields\<close>

text \<open>Leaving out a field whose value would change nothing is the same as writing it.\<close>

lemma decMembers_omit:
  assumes "c \<Longrightarrow> decMembers strict fs [(k, j)] r = Inr r"
  shows "decMembers strict fs (omitIf c k j @ js) r = decMembers strict fs ((k, j) # js) r"
proof (cases c)
  case True
  have "decMembers strict fs ((k, j) # js) r = rbind (decMembers strict fs [(k, j)] r) (decMembers strict fs js)"
    by (cases "findField fs k") (auto simp: rbind_def split: sum.splits)
  then show ?thesis using assms True by (simp add: omitIf_def)
qed (simp add: omitIf_def)

text \<open>What reads back: strings are UTF-8, addresses have an ASCII text, prefixes are proper.\<close>

definition okAddr :: "Addr \<Rightarrow> bool" where "okAddr a = validUTF8 (Addr_MarshalText a)"

definition okPrefix :: "Prefix \<Rightarrow> bool" where
  "okPrefix p = (addrIsValid (pfAddr p) \<and> addrZone (pfAddr p) = [] \<and> 0 \<le> pfBits p \<and> pfBits p \<le> int (BitLen (pfAddr p)))"

definition okRule :: "Rule \<Rightarrow> bool" where
  "okRule r = (validUTF8 (ruType r) \<and> fmpred (\<lambda>k _. validUTF8 k) (ruParameters r))"

interpretation addr: json_codec encAddr decAddr NoAddr okAddr
  by unfold_locales (auto simp: okAddr_def validUTF8_def encAddr_def encString_def Addr_UnmarshalText_Marshal)

interpretation raw: json_codec "\<lambda>j. j" decRaw JNull "\<lambda>_. True"
  by unfold_locales simp

interpretation uint32: json_pointer "encUint :: uint32 \<Rightarrow> RawMessage" decUint 0 "\<lambda>_. True"
  by unfold_locales (simp_all add: decUint_enc, simp add: encUint_def)

interpretation uint64: json_codec "encUint :: uint64 \<Rightarrow> RawMessage" decUint 0 "\<lambda>_. True"
  by unfold_locales (simp add: decUint_enc)

interpretation modes: json_codec encModes "decStruct strict modesFields" zeroModes "\<lambda>_. True" for strict
  by unfold_locales (simp add: encModes_def modesFields_def zeroModes_def findField_def setField_def)

definition okRoute :: "Route \<Rightarrow> bool" where "okRoute r = (okPrefix (rtTarget r) \<and> validUTF8 (Prefix_String (rtTarget r)) \<and> okAddr (rtVia r))"

lemma decPrefix_enc:
  assumes "okPrefix p" "validUTF8 (Prefix_String p)"
  shows "decPrefix cur (encPrefix p) = Inr p"
proof -
  have "Prefix_String p \<noteq> []" using assms(1) by (simp add: okPrefix_def Prefix_String_def)
  moreover have "p \<noteq> \<lparr> pfAddr = NoAddr, pfBits = -1 \<rparr>" using assms(1) by (auto simp: okPrefix_def)
  ultimately show ?thesis
    using ParsePrefix_String [of p] assms by (simp add: okPrefix_def encPrefix_def encString_def validUTF8_def)
qed

interpretation route: json_codec encRoute "decStruct strict routeFields" zeroRoute okRoute for strict
  by unfold_locales (simp add: encRoute_def routeFields_def zeroRoute_def findField_def setField_def okRoute_def decPrefix_enc addr.dec_enc)

definition okPool :: "IPPool \<Rightarrow> bool" where "okPool p = (okAddr (plStart p) \<and> okAddr (plEnd p))"

interpretation pool: json_codec encPool "decStruct strict poolFields" zeroPool okPool for strict
  by unfold_locales (simp add: encPool_def poolFields_def zeroPool_def findField_def setField_def okPool_def addr.dec_enc)

definition okDNS :: "DNSConfig \<Rightarrow> bool" where "okDNS d = (validUTF8 (dnsDomain d) \<and> list_all okAddr (dnsServers d))"

interpretation dns: json_pointer encDNS "decStruct strict dnsFields" zeroDNS okDNS for strict
  by unfold_locales (simp_all add: encDNS_def dnsFields_def zeroDNS_def findField_def setField_def okDNS_def omitIf_def decString_enc addr.decList_enc)

lemma decParameters_enc:
  "fmpred (\<lambda>k _. validUTF8 k) m \<Longrightarrow> decParameters fmempty (encMap (\<lambda>j. j) m) = Inr m"
  using raw.decMap_enc [of m] by (simp add: decParameters_def encMap_def decMap.simps)

interpretation rule: json_codec encRule "decStruct strict ruleFields" zeroRule okRule for strict
  by unfold_locales (simp add: encRule_def ruleFields_def zeroRule_def findField_def setField_def okRule_def omitIf_def decString_enc decParameters_enc)

definition okCapability :: "Capability \<Rightarrow> bool" where "okCapability c = list_all okRule (cpRules c)"

interpretation capability: json_codec encCapability "decStruct strict (capabilityFields strict)" zeroCapability okCapability for strict
  by unfold_locales (simp add: encCapability_def capabilityFields_def zeroCapability_def findField_def setField_def okCapability_def omitIf_def
      rule.decList_enc uint32.dec_enc)

interpretation tagDefinition: json_codec encTagDefinition "decStruct strict tagDefinitionFields" zeroTagDefinition "\<lambda>_. True" for strict
  by unfold_locales (simp add: encTagDefinition_def tagDefinitionFields_def zeroTagDefinition_def findField_def setField_def
      uint32.decPtr_enc uint32.dec_enc decPtr.simps(1) split: option.split)

interpretation tagValue: json_codec encTagValue "decStruct strict tagValueFields" zeroTagValue "\<lambda>_. True" for strict
  by unfold_locales (simp add: encTagValue_def tagValueFields_def zeroTagValue_def findField_def setField_def uint32.dec_enc)

section \<open>Documents\<close>

definition marshalNetwork :: "Network \<Rightarrow> RawMessage result" where
  "marshalNetwork n =
     rbind (encTime (nwCreatedAt n)) (\<lambda>tCreatedAt. rbind (encTime (nwUpdatedAt n)) (\<lambda>tUpdatedAt. 
     Inr (JObject ([(''schemaVersion'', encInt (nwSchemaVersion n))] @ [(''id'', encString (nwID n))]
       @ [(''name'', encString (nwName n))] @ [(''private'', JBool (nwPrivate n))] @ [(''mtu'', encInt (nwMTU n))]
       @ [(''multicastLimit'', encInt (nwMulticastLimit n))]
       @ [(''enableBroadcast'', JBool (nwEnableBroadcast n))] @ [(''assignment'', encModes (nwAssignment n))]
       @ omitIf (nwRoutes n = []) ''routes'' (JArray (map encRoute (nwRoutes n)))
       @ omitIf (nwIPPools n = []) ''ipPools'' (JArray (map encPool (nwIPPools n)))
       @ omitIf (nwDNS n = None) ''dns'' (case nwDNS n of None \<Rightarrow> JNull | Some d \<Rightarrow> encDNS d)
       @ [(''rules'', JArray (map encRule (nwRules n)))]
       @ omitIf (nwCapabilities n = []) ''capabilities'' (JArray (map encCapability (nwCapabilities n)))
       @ omitIf (nwTags n = []) ''tags'' (JArray (map encTagDefinition (nwTags n)))
       @ omitIf (nwAuthTokens n = None \<or> nwAuthTokens n = Some fmempty) ''authTokens''
         (case nwAuthTokens n of None \<Rightarrow> JNull | Some m \<Rightarrow> encMap encUint m)
       @ omitIf (nwRulesSource n = []) ''rulesSource'' (encString (nwRulesSource n))
       @ omitIf (nwRemoteTraceTarget n = []) ''remoteTraceTarget'' (encString (nwRemoteTraceTarget n))
       @ omitIf (nwRemoteTraceLevel n = 0) ''remoteTraceLevel'' (encUint (nwRemoteTraceLevel n))
       @ omitIf (\<not> nwSSOEnabled n) ''ssoEnabled'' (JBool (nwSSOEnabled n)) @ [(''createdAt'', tCreatedAt)]
       @ [(''updatedAt'', tUpdatedAt)] @ [(''revision'', encUint (nwRevision n))]))))"

definition networkFields :: "bool \<Rightarrow> Network fields" where
  "networkFields strict = [(''schemaVersion'', fld decInt nwSchemaVersion nwSchemaVersion_update),
     (''id'', fld decString nwID nwID_update),
     (''name'', fld decString nwName nwName_update),
     (''private'', fld decBool nwPrivate nwPrivate_update),
     (''mtu'', fld decInt nwMTU nwMTU_update),
     (''multicastLimit'', fld decInt nwMulticastLimit nwMulticastLimit_update),
     (''enableBroadcast'', fld decBool nwEnableBroadcast nwEnableBroadcast_update),
     (''assignment'', fld (decStruct strict modesFields) nwAssignment nwAssignment_update),
     (''routes'', fld (decList (decStruct strict routeFields) zeroRoute) nwRoutes nwRoutes_update),
     (''ipPools'', fld (decList (decStruct strict poolFields) zeroPool) nwIPPools nwIPPools_update),
     (''dns'', fld (decPtr (decStruct strict dnsFields) zeroDNS) nwDNS nwDNS_update),
     (''rules'', fld (decList (decStruct strict ruleFields) zeroRule) nwRules nwRules_update),
     (''capabilities'', fld (decList (decStruct strict (capabilityFields strict)) zeroCapability) nwCapabilities nwCapabilities_update),
     (''tags'', fld (decList (decStruct strict tagDefinitionFields) zeroTagDefinition) nwTags nwTags_update),
     (''authTokens'', fld (decMap decUint 0) nwAuthTokens nwAuthTokens_update),
     (''rulesSource'', fld decString nwRulesSource nwRulesSource_update),
     (''remoteTraceTarget'', fld decString nwRemoteTraceTarget nwRemoteTraceTarget_update),
     (''remoteTraceLevel'', fld decUint nwRemoteTraceLevel nwRemoteTraceLevel_update),
     (''ssoEnabled'', fld decBool nwSSOEnabled nwSSOEnabled_update),
     (''createdAt'', fld decTime nwCreatedAt nwCreatedAt_update),
     (''updatedAt'', fld decTime nwUpdatedAt nwUpdatedAt_update),
     (''revision'', fld decUint nwRevision nwRevision_update)]"

definition zeroNetwork :: Network where
  "zeroNetwork = \<lparr> nwSchemaVersion = 0, nwID = [], nwName = [], nwPrivate = False, nwMTU = 0, nwMulticastLimit = 0, nwEnableBroadcast = False, nwAssignment = zeroModes, nwRoutes = [], nwIPPools = [], nwDNS = None, nwRules = [], nwCapabilities = [], nwTags = [], nwAuthTokens = None, nwRulesSource = [], nwRemoteTraceTarget = [], nwRemoteTraceLevel = 0, nwSSOEnabled = False, nwCreatedAt = 0, nwUpdatedAt = 0, nwRevision = 0 \<rparr>"

definition unmarshalNetwork :: "RawMessage \<Rightarrow> Network result" where
  "unmarshalNetwork = decStruct False (networkFields False) zeroNetwork"

definition marshalMember :: "Member \<Rightarrow> RawMessage result" where
  "marshalMember m =
     rbind (encTime (mbLastAuthorizedAt m)) (\<lambda>tLastAuthorizedAt. rbind (encTime (mbLastDeauthorizedAt m)) (\<lambda>tLastDeauthorizedAt. rbind (encTime (mbCreatedAt m)) (\<lambda>tCreatedAt. rbind (encTime (mbUpdatedAt m)) (\<lambda>tUpdatedAt. 
     Inr (JObject ([(''schemaVersion'', encInt (mbSchemaVersion m))] @ [(''networkId'', encString (mbNetworkID m))]
       @ [(''nodeId'', encString (mbNodeID m))] @ [(''authorized'', JBool (mbAuthorized m))]
       @ omitIf (mbName m = []) ''name'' (encString (mbName m)) @ [(''activeBridge'', JBool (mbActiveBridge m))]
       @ omitIf (\<not> mbNetworkRelay m) ''networkRelay'' (JBool (mbNetworkRelay m))
       @ omitIf (\<not> mbMulticastReplicator m) ''multicastReplicator'' (JBool (mbMulticastReplicator m))
       @ [(''noAutoAssignIps'', JBool (mbNoAutoAssign m))]
       @ omitIf (mbIPAssignments m = []) ''ipAssignments'' (JArray (map encAddr (mbIPAssignments m)))
       @ omitIf (mbCapabilities m = []) ''capabilities'' (JArray (map encUint (mbCapabilities m)))
       @ omitIf (mbTags m = []) ''tags'' (JArray (map encTagValue (mbTags m)))
       @ omitIf (mbAuthenticationExpiryTime m = 0) ''authenticationExpiryTime'' (encUint (mbAuthenticationExpiryTime m))
       @ omitIf (mbAuthenticationURL m = []) ''authenticationURL'' (encString (mbAuthenticationURL m))
       @ omitIf (mbRemoteTraceTarget m = []) ''remoteTraceTarget'' (encString (mbRemoteTraceTarget m))
       @ omitIf (mbRemoteTraceLevel m = 0) ''remoteTraceLevel'' (encUint (mbRemoteTraceLevel m))
       @ omitIf (\<not> mbSSOExempt m) ''ssoExempt'' (JBool (mbSSOExempt m))
       @ [(''lastAuthorizedAt'', tLastAuthorizedAt)] @ [(''lastDeauthorizedAt'', tLastDeauthorizedAt)]
       @ [(''createdAt'', tCreatedAt)] @ [(''updatedAt'', tUpdatedAt)] @ [(''revision'', encUint (mbRevision m))]))))))"

definition memberFields :: "bool \<Rightarrow> Member fields" where
  "memberFields strict = [(''schemaVersion'', fld decInt mbSchemaVersion mbSchemaVersion_update),
     (''networkId'', fld decString mbNetworkID mbNetworkID_update),
     (''nodeId'', fld decString mbNodeID mbNodeID_update),
     (''authorized'', fld decBool mbAuthorized mbAuthorized_update),
     (''name'', fld decString mbName mbName_update),
     (''activeBridge'', fld decBool mbActiveBridge mbActiveBridge_update),
     (''networkRelay'', fld decBool mbNetworkRelay mbNetworkRelay_update),
     (''multicastReplicator'', fld decBool mbMulticastReplicator mbMulticastReplicator_update),
     (''noAutoAssignIps'', fld decBool mbNoAutoAssign mbNoAutoAssign_update),
     (''ipAssignments'', fld (decList decAddr NoAddr) mbIPAssignments mbIPAssignments_update),
     (''capabilities'', fld (decList decUint 0) mbCapabilities mbCapabilities_update),
     (''tags'', fld (decList (decStruct strict tagValueFields) zeroTagValue) mbTags mbTags_update),
     (''authenticationExpiryTime'', fld decUint mbAuthenticationExpiryTime mbAuthenticationExpiryTime_update),
     (''authenticationURL'', fld decString mbAuthenticationURL mbAuthenticationURL_update),
     (''remoteTraceTarget'', fld decString mbRemoteTraceTarget mbRemoteTraceTarget_update),
     (''remoteTraceLevel'', fld decUint mbRemoteTraceLevel mbRemoteTraceLevel_update),
     (''ssoExempt'', fld decBool mbSSOExempt mbSSOExempt_update),
     (''lastAuthorizedAt'', fld decTime mbLastAuthorizedAt mbLastAuthorizedAt_update),
     (''lastDeauthorizedAt'', fld decTime mbLastDeauthorizedAt mbLastDeauthorizedAt_update),
     (''createdAt'', fld decTime mbCreatedAt mbCreatedAt_update),
     (''updatedAt'', fld decTime mbUpdatedAt mbUpdatedAt_update),
     (''revision'', fld decUint mbRevision mbRevision_update)]"

definition zeroMember :: Member where
  "zeroMember = \<lparr> mbSchemaVersion = 0, mbNetworkID = [], mbNodeID = [], mbAuthorized = False, mbName = [], mbActiveBridge = False, mbNetworkRelay = False, mbMulticastReplicator = False, mbNoAutoAssign = False, mbIPAssignments = [], mbCapabilities = [], mbTags = [], mbAuthenticationExpiryTime = 0, mbAuthenticationURL = [], mbRemoteTraceTarget = [], mbRemoteTraceLevel = 0, mbSSOExempt = False, mbLastAuthorizedAt = 0, mbLastDeauthorizedAt = 0, mbCreatedAt = 0, mbUpdatedAt = 0, mbRevision = 0 \<rparr>"

definition unmarshalMember :: "RawMessage \<Rightarrow> Member result" where
  "unmarshalMember = decStruct False (memberFields False) zeroMember"

definition marshalAgentMetadata :: "AgentMetadata \<Rightarrow> RawMessage result" where
  "marshalAgentMetadata a =
     rbind (encTime (agUpdatedAt a)) (\<lambda>tUpdatedAt. 
     Inr (JObject ([(''networkId'', encString (agNetworkID a))] @ [(''nodeId'', encString (agNodeID a))]
       @ omitIf (agTarget a = []) ''target'' (encString (agTarget a))
       @ omitIf (agVendor a = 0) ''vendor'' (encUint (agVendor a))
       @ omitIf (agProtocol a = 0) ''protocol'' (encUint (agProtocol a))
       @ omitIf (agMajor a = 0) ''major'' (encUint (agMajor a))
       @ omitIf (agMinor a = 0) ''minor'' (encUint (agMinor a))
       @ omitIf (agRevision a = 0) ''revision'' (encUint (agRevision a))
       @ omitIf (agRulesEngineRevision a = 0) ''rulesEngineRevision'' (encUint (agRulesEngineRevision a))
       @ omitIf (agMaxRules a = 0) ''maxRules'' (encUint (agMaxRules a))
       @ omitIf (agMaxCapabilities a = 0) ''maxCapabilities'' (encUint (agMaxCapabilities a))
       @ omitIf (agMaxCapabilityRules a = 0) ''maxCapabilityRules'' (encUint (agMaxCapabilityRules a))
       @ omitIf (agMaxTags a = 0) ''maxTags'' (encUint (agMaxTags a)) @ [(''updatedAt'', tUpdatedAt)])))"

definition agentMetadataFields :: "bool \<Rightarrow> AgentMetadata fields" where
  "agentMetadataFields strict = [(''networkId'', fld decString agNetworkID agNetworkID_update),
     (''nodeId'', fld decString agNodeID agNodeID_update),
     (''target'', fld decString agTarget agTarget_update),
     (''vendor'', fld decUint agVendor agVendor_update),
     (''protocol'', fld decUint agProtocol agProtocol_update),
     (''major'', fld decUint agMajor agMajor_update),
     (''minor'', fld decUint agMinor agMinor_update),
     (''revision'', fld decUint agRevision agRevision_update),
     (''rulesEngineRevision'', fld decUint agRulesEngineRevision agRulesEngineRevision_update),
     (''maxRules'', fld decUint agMaxRules agMaxRules_update),
     (''maxCapabilities'', fld decUint agMaxCapabilities agMaxCapabilities_update),
     (''maxCapabilityRules'', fld decUint agMaxCapabilityRules agMaxCapabilityRules_update),
     (''maxTags'', fld decUint agMaxTags agMaxTags_update),
     (''updatedAt'', fld decTime agUpdatedAt agUpdatedAt_update)]"

definition zeroAgentMetadata :: AgentMetadata where
  "zeroAgentMetadata = \<lparr> agNetworkID = [], agNodeID = [], agTarget = [], agVendor = 0, agProtocol = 0, agMajor = 0, agMinor = 0, agRevision = 0, agRulesEngineRevision = 0, agMaxRules = 0, agMaxCapabilities = 0, agMaxCapabilityRules = 0, agMaxTags = 0, agUpdatedAt = 0 \<rparr>"

definition unmarshalAgentMetadata :: "RawMessage \<Rightarrow> AgentMetadata result" where
  "unmarshalAgentMetadata = decStruct False (agentMetadataFields False) zeroAgentMetadata"

definition okInt :: "int \<Rightarrow> bool" where "okInt i = (- (2 ^ 63) \<le> i \<and> i < 2 ^ 63)"

definition okTokens :: "(string, uint64) fmap option \<Rightarrow> bool" where
  "okTokens t = (case t of None \<Rightarrow> True | Some m \<Rightarrow> m \<noteq> fmempty \<and> fmpred (\<lambda>k _. validUTF8 k) m)"

definition storableNetwork :: "Network \<Rightarrow> bool" where
  "storableNetwork n = (list_all okInt [nwSchemaVersion n, nwMTU n, nwMulticastLimit n]
     \<and> list_all validUTF8 [nwID n, nwName n, nwRulesSource n, nwRemoteTraceTarget n]
     \<and> list_all okRoute (nwRoutes n) \<and> list_all okPool (nwIPPools n) \<and> pred_option okDNS (nwDNS n)
     \<and> list_all okRule (nwRules n) \<and> list_all okCapability (nwCapabilities n) \<and> okTokens (nwAuthTokens n))"

definition storableMember :: "Member \<Rightarrow> bool" where
  "storableMember m = (okInt (mbSchemaVersion m)
     \<and> list_all validUTF8 [mbNetworkID m, mbNodeID m, mbName m, mbAuthenticationURL m, mbRemoteTraceTarget m]
     \<and> list_all okAddr (mbIPAssignments m))"

definition storableAgent :: "AgentMetadata \<Rightarrow> bool" where
  "storableAgent a = list_all validUTF8 [agNetworkID a, agNodeID a, agTarget a]"

lemma ascii_digits: "isDigit c \<Longrightarrow> (of_char c :: nat) < 128" "lowerhex c \<Longrightarrow> (of_char c :: nat) < 128"
  by (auto simp: isDigit_def lowerhex_def Let_def)

lemma padded_ascii: "list_all (\<lambda>c. (of_char c :: nat) < 128) (padded w n)"
  using decstring_digits(1) [of "nat n"] by (auto simp: padded_def list_all_iff ascii_digits)

lemma fraction_ascii: "list_all (\<lambda>c. (of_char c :: nat) < 128) (fraction n)"
  using padded_ascii [of 9 n] by (auto simp: fraction_def list_all_iff dest: set_dropWhileD)

lemma Time_ascii:
  assumes "Time_MarshalJSON t = Inr s"
  shows "validUTF8 s"
proof -
  obtain y m d where c: "civil (t div 1000000000 div 86400) = (y, m, d)" by (cases "civil (t div 1000000000 div 86400)") auto
  show ?thesis
    using assms by (intro validUTF8_ascii) (auto simp: Time_MarshalJSON_def c Let_def padded_ascii fraction_ascii split: if_splits)
qed

lemma decTime_enc: "encTime t = Inr j \<Longrightarrow> decTime cur j = Inr t"
  using Time_roundtrip Time_ascii by (auto simp: encTime_def encString_def validUTF8_def rbind_eq_Inr)

lemma decList_Nil: "decList dec zero cur (JArray []) = Inr []"
  by (simp add: decList.simps)

lemmas codec_simps = findField_def setField_def decMembers_omit decString_enc decInt_enc uint64.dec_enc decList_Nil
  decPtr.simps(1) decMap.simps(1)

lemma agent_roundtrip:
  assumes "storableAgent a" "marshalAgentMetadata a = Inr j"
  shows "unmarshalAgentMetadata j = Inr a"
proof -
  obtain t where t: "encTime (agUpdatedAt a) = Inr t" using assms(2) by (auto simp: marshalAgentMetadata_def rbind_eq_Inr)
  have v: "validUTF8 (agNetworkID a)" "validUTF8 (agNodeID a)" "validUTF8 (agTarget a)" using assms(1) by (simp_all add: storableAgent_def)
  show ?thesis using assms(2) t v
    by (auto simp: marshalAgentMetadata_def unmarshalAgentMetadata_def agentMetadataFields_def zeroAgentMetadata_def codec_simps decTime_enc [OF t])
qed

lemma member_roundtrip:
  assumes "storableMember m" "marshalMember m = Inr j"
  shows "unmarshalMember j = Inr m"
proof -
  obtain t1 t2 t3 t4 where t: "encTime (mbLastAuthorizedAt m) = Inr t1" "encTime (mbLastDeauthorizedAt m) = Inr t2"
    "encTime (mbCreatedAt m) = Inr t3" "encTime (mbUpdatedAt m) = Inr t4"
    using assms(2) by (auto simp: marshalMember_def rbind_eq_Inr)
  have v: "okInt (mbSchemaVersion m)" "validUTF8 (mbNetworkID m)" "validUTF8 (mbNodeID m)" "validUTF8 (mbName m)"
    "validUTF8 (mbAuthenticationURL m)" "validUTF8 (mbRemoteTraceTarget m)" "list_all okAddr (mbIPAssignments m)"
    using assms(1) by (simp_all add: storableMember_def)
  note d = t [THEN decTime_enc]
  show ?thesis using assms(2) t v
    by (auto simp: marshalMember_def unmarshalMember_def memberFields_def zeroMember_def codec_simps okInt_def d
        addr.decList_enc uint32.decList_total tagValue.decList_total)
qed

lemma network_roundtrip:
  assumes "storableNetwork n" "marshalNetwork n = Inr j"
  shows "unmarshalNetwork j = Inr n"
proof -
  obtain t1 t2 where t: "encTime (nwCreatedAt n) = Inr t1" "encTime (nwUpdatedAt n) = Inr t2"
    using assms(2) by (auto simp: marshalNetwork_def rbind_eq_Inr)
  have v: "okInt (nwSchemaVersion n)" "okInt (nwMTU n)" "okInt (nwMulticastLimit n)" "validUTF8 (nwID n)" "validUTF8 (nwName n)"
    "validUTF8 (nwRulesSource n)" "validUTF8 (nwRemoteTraceTarget n)" "list_all okRoute (nwRoutes n)" "list_all okPool (nwIPPools n)"
    "list_all okRule (nwRules n)" "list_all okCapability (nwCapabilities n)"
    using assms(1) by (simp_all add: storableNetwork_def)
  have dn: "decPtr (decStruct False dnsFields) zeroDNS None (case nwDNS n of None \<Rightarrow> JNull | Some x \<Rightarrow> encDNS x) = Inr (nwDNS n)"
    using assms(1) dns.decPtr_enc by (auto simp: storableNetwork_def decPtr.simps(1) split: option.splits)
  have tk: "decMap decUint 0 None (case nwAuthTokens n of None \<Rightarrow> JNull | Some m \<Rightarrow> encMap encUint m) = Inr (nwAuthTokens n)"
    "nwAuthTokens n \<noteq> Some fmempty"
    using assms(1) uint64.decMap_enc by (auto simp: storableNetwork_def okTokens_def decMap.simps(1) split: option.splits)
  note d = t [THEN decTime_enc]
  show ?thesis using assms(2) t v dn tk
    by (auto simp: marshalNetwork_def unmarshalNetwork_def networkFields_def zeroNetwork_def codec_simps okInt_def d
        modes.dec_enc route.decList_enc pool.decList_enc rule.decList_enc capability.decList_enc tagDefinition.decList_total)
qed

end
