(* ===== verification/Upstream.thy ===== *)
theory Upstream
  imports TransportHandler Documents "HOL-Library.Product_Lexorder"
begin

text \<open>
  \<^verbatim>\<open>internal/zerotier/transport/upstream.go\<close>: the announcements of the controller to its upstream roots and
  the answers it accepts. The manager's state joins the registry it shares with the handler, the
  pending announcements, the status of each endpoint, and what it has written to the socket.
\<close>

section \<open>The upstreams file\<close>

record Upstream =
  upIdentity :: Identity
  upEndpoints :: "AddrPort list"

record upstreamItem =
  uiIdentity :: string
  uiEndpoints :: "string list"

definition upstreamItemFields :: "upstreamItem fields" where
  "upstreamItemFields = [(''identity'', fld decString uiIdentity uiIdentity_update),
     (''endpoints'', fld (decList decString []) uiEndpoints uiEndpoints_update)]"

definition upstreamFileFields :: "upstreamItem list fields" where
  "upstreamFileFields = [(''upstreams'', \<lambda>items j.
     decList (decStruct False upstreamItemFields) \<lparr> uiIdentity = [], uiEndpoints = [] \<rparr> items j)]"

definition loadUpstream :: "Crypto \<Rightarrow> upstreamItem \<Rightarrow> Upstream result" where
  "loadUpstream cr item = (case Parse (uiIdentity item) of
     Inl _ \<Rightarrow> Inl (Errorf ''upstream %d has an invalid public identity'')
   | Inr peerIdentity \<Rightarrow>
       if idHasPrivate peerIdentity \<or> \<not> LocallyValidate cr peerIdentity
       then Inl (Errorf ''upstream %d has an invalid public identity'')
       else if uiEndpoints item = [] then Inl (Errorf ''upstream %d has no endpoints'')
       else rbind (mapM (\<lambda>value. wrapErr ''upstream %d endpoint %q: %w'' (ParseAddrPort value)) (uiEndpoints item)) (\<lambda>endpoints.
         Inr \<lparr> upIdentity = peerIdentity, upEndpoints = endpoints \<rparr>))"

text \<open>\<open>readJSON\<close> is reading the file (which may fail) and the JSON value of its text (if it is JSON).\<close>

definition LoadUpstreams :: "Crypto \<Rightarrow> (string \<Rightarrow> RawMessage result result) \<Rightarrow> string \<Rightarrow> Upstream list result" where
  "LoadUpstreams cr readJSON path =
     rbind (readJSON path) (\<lambda>serialized.
     rbind (wrapErr ''decode upstreams: %w'' (rbind serialized (decStruct False upstreamFileFields []))) (\<lambda>items.
     rbind (mapM (loadUpstream cr) items) (\<lambda>upstreams.
     if upstreams = [] then Inl (Errorf ''at least one upstream is required'') else Inr upstreams)))"

section \<open>The manager\<close>

record UpstreamStatus =
  stPeer :: NodeID
  stEndpoint :: string
  stLastAttempt :: time
  stLastSuccess :: time
  stPending :: bool

record pendingHello =
  phPeer :: NodeID
  phEndpoint :: AddrPort
  phTimestamp :: uint64
  phExpires :: time

text \<open>\<open>umWrite\<close> is the result of the n-th write to the socket.\<close>

record UpstreamManager =
  umLocal :: Identity
  umUpstreams :: "Upstream list"
  umInterval :: duration
  umRandom :: "nat \<Rightarrow> uint64 result"
  umNow :: "nat \<Rightarrow> time"
  umWrite :: "nat \<Rightarrow> unit result"

record UpstreamState =
  usPeers :: Registry
  usPending :: "(uint64, pendingHello) fmap"
  usStatus :: "(string, UpstreamStatus) fmap"
  usClock :: nat
  usRandom :: nat
  usWrites :: nat
  usSent :: "(bytes \<times> AddrPort) list"

definition NewUpstreamManager ::
    "(nat \<Rightarrow> unit result) option \<Rightarrow> Identity \<Rightarrow> Registry option \<Rightarrow> Upstream list \<Rightarrow> duration
      \<Rightarrow> (nat \<Rightarrow> uint64 result) \<Rightarrow> (nat \<Rightarrow> time) \<Rightarrow> (UpstreamManager \<times> UpstreamState) result" where
  "NewUpstreamManager connection local peers upstreams interval random clock = (case (connection, peers) of
     (Some write, Some registry) \<Rightarrow>
       if \<not> idHasPrivate local \<or> upstreams = []
       then Inl (Errorf ''connection, private identity, registry, and upstreams are required'')
       else if interval \<le> 0 then Inl (Errorf ''upstream announcement interval must be positive'')
       else Inr (\<lparr> umLocal = local, umUpstreams = upstreams, umInterval = interval, umRandom = random, umNow = clock, umWrite = write \<rparr>,
         \<lparr> usPeers = registry, usPending = fmempty, usStatus = fmempty, usClock = 0, usRandom = 0, usWrites = 0, usSent = [] \<rparr>)
   | _ \<Rightarrow> Inl (Errorf ''connection, private identity, registry, and upstreams are required''))"

definition upstreamStatusKey :: "NodeID \<Rightarrow> AddrPort \<Rightarrow> string" where
  "upstreamStatusKey peer endpoint = peer @ ''@'' @ AddrPort_String endpoint"

text \<open>\<open>None\<close> if the source gives zeros forever.\<close>

partial_function (option) randomPacketID :: "(nat \<Rightarrow> uint64 result) \<Rightarrow> nat \<Rightarrow> (uint64 result \<times> nat) option" where
  "randomPacketID source n = (case source n of
     Inl e \<Rightarrow> Some (Inl e, Suc n)
   | Inr v \<Rightarrow> if v \<noteq> 0 then Some (Inr v, Suc n) else randomPacketID source (Suc n))"

definition zeroStatus :: UpstreamStatus where
  "zeroStatus = \<lparr> stPeer = [], stEndpoint = [], stLastAttempt = 0, stLastSuccess = 0, stPending = False \<rparr>"

definition statusAt :: "string \<Rightarrow> (string, UpstreamStatus) fmap \<Rightarrow> UpstreamStatus" where
  "statusAt key m = (case fmlookup m key of Some s \<Rightarrow> s | None \<Rightarrow> zeroStatus)"

text \<open>The section under the lock: the pending entry, the status, and the removal of what has expired.\<close>

definition livePending :: "time \<Rightarrow> (uint64, pendingHello) fmap \<Rightarrow> (uint64, pendingHello) fmap" where
  "livePending now m = fmfilter (\<lambda>i. case fmlookup m i of Some p \<Rightarrow> phExpires p > now | None \<Rightarrow> False) m"

definition recordAttempt :: "UpstreamManager \<Rightarrow> time \<Rightarrow> NodeID \<Rightarrow> AddrPort \<Rightarrow> uint64 \<Rightarrow> uint64 \<Rightarrow> UpstreamState \<Rightarrow> UpstreamState" where
  "recordAttempt mg now peer endpoint pid timestamp st =
     (let pending = fmupd pid \<lparr> phPeer = peer, phEndpoint = endpoint, phTimestamp = timestamp, phExpires = now + umInterval mg \<rparr> (usPending st);
          key = upstreamStatusKey peer endpoint;
          current = (statusAt key (usStatus st))\<lparr>stPeer := peer, stEndpoint := AddrPort_String endpoint, stLastAttempt := UTC now, stPending := True\<rparr>
      in st\<lparr>usPending := livePending now pending,
            usStatus := fmupd key current (usStatus st)\<rparr>)"

definition helloVersion :: LocalVersion where
  "helloVersion = \<lparr> lvProtocol = ProtocolVersionCurrent, lvMajor = 0, lvMinor = 1, lvRevision = 0 \<rparr>"

definition announceEndpoint ::
    "Crypto \<Rightarrow> UpstreamManager \<Rightarrow> time \<Rightarrow> Identity \<Rightarrow> bytes \<Rightarrow> AddrPort \<Rightarrow> UpstreamState \<Rightarrow> (unit result \<times> UpstreamState) option" where
  "announceEndpoint cr mg now peer key endpoint st =
     (case RegisterConfigured cr peer key endpoint now (usPeers st) of
        (Inl e, peers) \<Rightarrow> Some (Inl e, st\<lparr>usPeers := peers\<rparr>)
      | (Inr _, peers) \<Rightarrow>
          let st = st\<lparr>usPeers := peers\<rparr> in
          (case randomPacketID (umRandom mg) (usRandom st) of
             None \<Rightarrow> None
           | Some (Inl e, n) \<Rightarrow> Some (Inl e, st\<lparr>usRandom := n\<rparr>)
           | Some (Inr pid, n) \<Rightarrow>
               let st = st\<lparr>usRandom := n\<rparr>; timestamp = word_of_int (UnixMilli now) in
               (case BuildHello cr pid peer (umLocal mg) helloVersion timestamp 0 0 key of
                  Inl e \<Rightarrow> Some (Inl e, st)
                | Inr hello \<Rightarrow>
                    let st = recordAttempt mg now (idAddress peer) endpoint pid timestamp st in
                    (case umWrite mg (usWrites st) of
                       Inl e \<Rightarrow> Some (Inl (Wrap ''announce to upstream %s: %w'' e), st\<lparr>usWrites := Suc (usWrites st)\<rparr>)
                     | Inr _ \<Rightarrow> Some (Inr (), st\<lparr>usWrites := Suc (usWrites st), usSent := usSent st @ [(hello, endpoint)]\<rparr>)))))"

text \<open>The two loops.\<close>

fun announceEndpoints ::
    "Crypto \<Rightarrow> UpstreamManager \<Rightarrow> time \<Rightarrow> Identity \<Rightarrow> bytes \<Rightarrow> AddrPort list \<Rightarrow> UpstreamState \<Rightarrow> (unit result \<times> UpstreamState) option" where
  "announceEndpoints cr mg now peer key [] st = Some (Inr (), st)"
| "announceEndpoints cr mg now peer key (endpoint # endpoints) st =
     (case announceEndpoint cr mg now peer key endpoint st of
        None \<Rightarrow> None
      | Some (Inl e, st) \<Rightarrow> Some (Inl e, st)
      | Some (Inr _, st) \<Rightarrow> announceEndpoints cr mg now peer key endpoints st)"

fun announceUpstreams :: "Crypto \<Rightarrow> UpstreamManager \<Rightarrow> time \<Rightarrow> Upstream list \<Rightarrow> UpstreamState \<Rightarrow> (unit result \<times> UpstreamState) option" where
  "announceUpstreams cr mg now [] st = Some (Inr (), st)"
| "announceUpstreams cr mg now (upstream # upstreams) st =
     (case Agree cr (umLocal mg) (upIdentity upstream) (int SessionKeyLength) of
        Inl e \<Rightarrow> Some (Inl e, st)
      | Inr key \<Rightarrow>
          (case announceEndpoints cr mg now (upIdentity upstream) key (upEndpoints upstream) st of
             None \<Rightarrow> None
           | Some (Inl e, st) \<Rightarrow> Some (Inl e, st)
           | Some (Inr _, st) \<Rightarrow> announceUpstreams cr mg now upstreams st))"

definition announce :: "Crypto \<Rightarrow> UpstreamManager \<Rightarrow> UpstreamState \<Rightarrow> (unit result \<times> UpstreamState) option" where
  "announce cr mg st = announceUpstreams cr mg (umNow mg (usClock st)) (umUpstreams mg) (st\<lparr>usClock := Suc (usClock st)\<rparr>)"

text \<open>\<^verbatim>\<open>Run\<close> announces once and then at every tick until the context is done (the end of the list).\<close>

fun announceTicks :: "Crypto \<Rightarrow> UpstreamManager \<Rightarrow> nat \<Rightarrow> UpstreamState \<Rightarrow> (unit result \<times> UpstreamState) option" where
  "announceTicks cr mg 0 st = Some (Inr (), st)"
| "announceTicks cr mg (Suc ticks) st = (case announce cr mg st of
     None \<Rightarrow> None
   | Some (Inl e, st) \<Rightarrow> Some (Inl e, st)
   | Some (Inr _, st) \<Rightarrow> announceTicks cr mg ticks st)"

definition upstreamRun :: "Crypto \<Rightarrow> UpstreamManager \<Rightarrow> nat \<Rightarrow> UpstreamState \<Rightarrow> (unit result \<times> UpstreamState) option" where
  "upstreamRun cr mg ticks st = announceTicks cr mg (Suc ticks) st"

definition isUpstream :: "UpstreamManager \<Rightarrow> NodeID \<Rightarrow> bool" where
  "isUpstream mg source = list_ex (\<lambda>upstream. idAddress (upIdentity upstream) = source) (umUpstreams mg)"

text \<open>The answer's two sections under the lock: taking the pending entry, then the status.\<close>

definition acceptReply :: "UpstreamManager \<Rightarrow> NodeID \<Rightarrow> AddrPort \<Rightarrow> HelloOK \<Rightarrow> UpstreamState \<Rightarrow> (bool \<times> unit result) \<times> UpstreamState" where
  "acceptReply mg source remote reply st =
     (let taken = fmlookup (usPending st) (hkRequestPacketID reply);
          st = st\<lparr>usPending := fmdrop (hkRequestPacketID reply) (usPending st)\<rparr>;
          mismatch = ((True, Inl (Errorf ''HELLO OK does not match a pending upstream announcement'')), st)
      in case taken of
           None \<Rightarrow> mismatch
         | Some pending \<Rightarrow>
             if phPeer pending \<noteq> source \<or> phEndpoint pending \<noteq> remote \<or> phTimestamp pending \<noteq> hkTimestamp reply then mismatch
             else
               let key = upstreamStatusKey source remote;
                   current = (statusAt key (usStatus st))\<lparr>stPeer := source, stEndpoint := AddrPort_String remote,
                     stLastSuccess := UTC (umNow mg (usClock st)), stPending := False\<rparr>
               in ((True, Inr ()), st\<lparr>usClock := Suc (usClock st), usStatus := fmupd key current (usStatus st)\<rparr>))"

text \<open>The pair \<^verbatim>\<open>(handled, err)\<close> is always returned.\<close>

definition upstreamHandle :: "Crypto \<Rightarrow> UpstreamManager \<Rightarrow> bytes \<Rightarrow> AddrPort \<Rightarrow> UpstreamState \<Rightarrow> (bool \<times> unit result) \<times> UpstreamState" where
  "upstreamHandle cr mg datagram remote st = (case ParseRouting datagram of
     Inl e \<Rightarrow> ((False, Inl e), st)
   | Inr routing \<Rightarrow>
       if rhDestination routing \<noteq> idAddress (umLocal mg) then ((False, Inr ()), st)
       else if \<not> isUpstream mg (rhSource routing) then ((False, Inr ()), st)
       else
         (case Authenticate cr datagram (idAddress (umLocal mg)) remote (umNow mg (usClock st)) (usPeers st) of
            (Inl e, peers) \<Rightarrow> ((True, Inl e), st\<lparr>usClock := Suc (usClock st), usPeers := peers\<rparr>)
          | (Inr (decoded, _), peers) \<Rightarrow>
              let st = st\<lparr>usClock := Suc (usClock st), usPeers := peers\<rparr> in
              if dcVerb decoded \<noteq> VerbOK then ((False, Inr ()), st)
              else (case ParseHelloOK decoded of
                  Inl e \<Rightarrow> ((True, Inl e), st)
                | Inr reply \<Rightarrow> acceptReply mg (rhSource routing) remote reply st)))"

text \<open>The listing, sorted by peer and then endpoint.\<close>

definition upstreamStatusList :: "UpstreamState \<Rightarrow> UpstreamStatus list" where
  "upstreamStatusList st = sort_key (\<lambda>s. (stPeer s, stEndpoint s)) (mapValues (usStatus st))"

section \<open>Packet IDs\<close>

lemma randomPacketID_packetID:
  "source n \<noteq> Inr 0 \<Longrightarrow> randomPacketID source n = Some (source n, Suc n)"
  by (subst randomPacketID.simps) (auto split: sum.splits)

lemma randomPacketID_returns: "source (n + k) \<noteq> Inr 0 \<Longrightarrow> \<exists>r m. randomPacketID source n = Some (r, m)"
proof (induction k arbitrary: n)
  case 0
  then show ?case using randomPacketID_packetID [of source n] by simp
next
  case (Suc k)
  show ?case
  proof (cases "source n = Inr 0")
    case True
    then have "randomPacketID source n = randomPacketID source (Suc n)" by (subst randomPacketID.simps) simp
    then show ?thesis using Suc.IH [of "Suc n"] Suc.prems by simp
  qed (simp add: randomPacketID_packetID)
qed

lemma randomPacketID_alive: "randomAlive source \<Longrightarrow> \<exists>r m. randomPacketID source n = Some (r, m)"
  unfolding randomAlive_def using randomPacketID_returns by blast

section \<open>Announcing returns\<close>

lemma announceEndpoint_returns: "randomAlive (umRandom mg) \<Longrightarrow> \<exists>r st'. announceEndpoint cr mg now peer key endpoint st = Some (r, st')"
  using randomPacketID_alive [of "umRandom mg" "usRandom st"]
  by (auto simp: announceEndpoint_def Let_def split: prod.splits sum.splits option.splits)

lemma announceEndpoints_returns:
  "randomAlive (umRandom mg) \<Longrightarrow> \<exists>r st'. announceEndpoints cr mg now peer key endpoints st = Some (r, st')"
proof (induction endpoints arbitrary: st)
  case (Cons e es)
  from announceEndpoint_returns [OF Cons.prems] obtain r st1 where "announceEndpoint cr mg now peer key e st = Some (r, st1)" by blast
  with Cons.IH [OF Cons.prems, of st1] show ?case by (auto split: sum.splits)
qed simp

lemma announceUpstreams_returns: "randomAlive (umRandom mg) \<Longrightarrow> \<exists>r st'. announceUpstreams cr mg now ups st = Some (r, st')"
proof (induction ups arbitrary: st)
  case (Cons u us)
  show ?case
  proof (cases "Agree cr (umLocal mg) (upIdentity u) (int SessionKeyLength)")
    case (Inr key)
    from announceEndpoints_returns [OF Cons.prems] obtain r st1
      where "announceEndpoints cr mg now (upIdentity u) key (upEndpoints u) st = Some (r, st1)" by blast
    with Inr Cons.IH [OF Cons.prems, of st1] show ?thesis by (auto split: sum.splits)
  qed simp
qed simp

lemma announce_returns: "randomAlive (umRandom mg) \<Longrightarrow> \<exists>r st'. announce cr mg st = Some (r, st')"
  unfolding announce_def by (rule announceUpstreams_returns)

section \<open>The invariant\<close>

definition announces :: "UpstreamManager \<Rightarrow> NodeID \<Rightarrow> AddrPort \<Rightarrow> bool" where
  "announces mg peer endpoint = list_ex (\<lambda>u. idAddress (upIdentity u) = peer \<and> endpoint \<in> set (upEndpoints u)) (umUpstreams mg)"

definition upstreamNodes :: "UpstreamManager \<Rightarrow> NodeID set" where
  "upstreamNodes mg = (\<lambda>u. idAddress (upIdentity u)) ` set (umUpstreams mg)"

text \<open>Pending entries and statuses are about configured endpoints, and a status is filed under its own key.\<close>

definition pendingOk :: "UpstreamManager \<Rightarrow> (uint64, pendingHello) fmap \<Rightarrow> bool" where
  "pendingOk mg m = (\<forall>i p. fmlookup m i = Some p \<longrightarrow> announces mg (phPeer p) (phEndpoint p))"

definition statusOk :: "UpstreamManager \<Rightarrow> (string, UpstreamStatus) fmap \<Rightarrow> bool" where
  "statusOk mg m = (\<forall>k s. fmlookup m k = Some s \<longrightarrow>
     (\<exists>e. announces mg (stPeer s) e \<and> stEndpoint s = AddrPort_String e \<and> k = upstreamStatusKey (stPeer s) e))"

definition upstreamInv :: "Crypto \<Rightarrow> UpstreamManager \<Rightarrow> UpstreamState \<Rightarrow> bool" where
  "upstreamInv cr mg st = (reachableRegistry cr (upstreamNodes mg) (usPeers st) \<and> pendingOk mg (usPending st) \<and> statusOk mg (usStatus st))"

lemma announces_node: "announces mg peer endpoint \<Longrightarrow> peer \<in> upstreamNodes mg"
  by (auto simp: announces_def upstreamNodes_def list_ex_iff)

lemma statusOk_upd:
  "statusOk mg m \<Longrightarrow> announces mg (stPeer s) e \<Longrightarrow> stEndpoint s = AddrPort_String e \<Longrightarrow> statusOk mg (fmupd (upstreamStatusKey (stPeer s) e) s m)"
  by (auto simp: statusOk_def)

lemma pendingOk_live: "pendingOk mg m \<Longrightarrow> pendingOk mg (livePending now m)"
  by (auto simp: pendingOk_def livePending_def)

lemma recordAttempt_inv:
  assumes "upstreamInv cr mg st" "announces mg peer endpoint"
  shows "upstreamInv cr mg (recordAttempt mg now peer endpoint pid timestamp st)"
proof -
  let ?s = "(statusAt (upstreamStatusKey peer endpoint) (usStatus st))\<lparr>stPeer := peer, stEndpoint := AddrPort_String endpoint, stLastAttempt := UTC now, stPending := True\<rparr>"
  have "statusOk mg (fmupd (upstreamStatusKey peer endpoint) ?s (usStatus st))"
    using statusOk_upd [of mg "usStatus st" ?s endpoint] assms by (simp add: upstreamInv_def)
  moreover have "pendingOk mg (fmupd pid \<lparr> phPeer = peer, phEndpoint = endpoint, phTimestamp = timestamp, phExpires = now + umInterval mg \<rparr> (usPending st))"
    using assms by (auto simp: upstreamInv_def pendingOk_def)
  ultimately show ?thesis using assms(1) by (simp add: recordAttempt_def Let_def upstreamInv_def pendingOk_live)
qed

lemma upstreamInv_fields:
  "upstreamInv cr mg (st\<lparr>usRandom := n\<rparr>) = upstreamInv cr mg st" "upstreamInv cr mg (st\<lparr>usWrites := k\<rparr>) = upstreamInv cr mg st"
  "upstreamInv cr mg (st\<lparr>usSent := l\<rparr>) = upstreamInv cr mg st" "upstreamInv cr mg (st\<lparr>usClock := n\<rparr>) = upstreamInv cr mg st"
  by (simp_all add: upstreamInv_def)

lemma announceEndpoint_inv:
  assumes "upstreamInv cr mg st" "announces mg (idAddress peer) endpoint" "wfIdentity peer"
    and "announceEndpoint cr mg now peer key endpoint st = Some (r, st')"
  shows "upstreamInv cr mg st'"
proof -
  obtain q peers where reg: "RegisterConfigured cr peer key endpoint now (usPeers st) = (q, peers)" by force
  have "registryEventOk (upstreamNodes mg) (Configure peer key endpoint now)" using assms(2,3) announces_node by simp
  from reachableRegistry.step [OF _ this] assms(1) reg have "reachableRegistry cr (upstreamNodes mg) peers"
    by (fastforce simp: upstreamInv_def)
  with assms(1) have "upstreamInv cr mg (st\<lparr>usPeers := peers\<rparr>)" by (simp add: upstreamInv_def)
  then show ?thesis using assms(2,4) reg
    by (auto simp: announceEndpoint_def Let_def upstreamInv_fields intro!: recordAttempt_inv split: sum.splits option.splits prod.splits)
qed

lemma announceEndpoints_inv:
  assumes "upstreamInv cr mg st" "\<forall>e \<in> set endpoints. announces mg (idAddress peer) e" "wfIdentity peer"
    and "announceEndpoints cr mg now peer key endpoints st = Some (r, st')"
  shows "upstreamInv cr mg st'"
  using assms
proof (induction endpoints arbitrary: st)
  case (Cons e es)
  obtain q st1 where e: "announceEndpoint cr mg now peer key e st = Some (q, st1)" using Cons.prems(4) by (auto split: option.splits)
  have "upstreamInv cr mg st1" using announceEndpoint_inv [OF Cons.prems(1) _ Cons.prems(3) e] Cons.prems(2) by simp
  then show ?case using Cons e by (auto split: sum.splits)
qed simp

lemma announceUpstreams_inv:
  assumes "upstreamInv cr mg st" "set ups \<subseteq> set (umUpstreams mg)" "\<forall>u \<in> set ups. wfIdentity (upIdentity u)"
    and "announceUpstreams cr mg now ups st = Some (r, st')"
  shows "upstreamInv cr mg st'"
  using assms
proof (induction ups arbitrary: st)
  case (Cons u us)
  show ?case
  proof (cases "Agree cr (umLocal mg) (upIdentity u) (int SessionKeyLength)")
    case (Inl e)
    then show ?thesis using Cons.prems by simp
  next
    case (Inr key)
    obtain q st1 where e: "announceEndpoints cr mg now (upIdentity u) key (upEndpoints u) st = Some (q, st1)"
      using Cons.prems(4) Inr by (auto split: option.splits)
    have "\<forall>e \<in> set (upEndpoints u). announces mg (idAddress (upIdentity u)) e"
      using Cons.prems(2) by (auto simp: announces_def list_ex_iff)
    then have "upstreamInv cr mg st1" using announceEndpoints_inv [OF Cons.prems(1) _ _ e] Cons.prems(3) by simp
    then show ?thesis using Cons e Inr by (auto split: sum.splits)
  qed
qed simp

lemma announce_inv:
  assumes "upstreamInv cr mg st" "\<forall>u \<in> set (umUpstreams mg). wfIdentity (upIdentity u)" "announce cr mg st = Some (r, st')"
  shows "upstreamInv cr mg st'"
  using announceUpstreams_inv [OF _ subset_refl assms(2), of cr "st\<lparr>usClock := Suc (usClock st)\<rparr>"] assms(1,3)
  by (simp add: announce_def upstreamInv_fields)

lemma acceptReply_inv:
  assumes "upstreamInv cr mg st" "acceptReply mg source remote reply st = (h, st')"
  shows "upstreamInv cr mg st'"
proof -
  define st1 where "st1 = st\<lparr>usPending := fmdrop (hkRequestPacketID reply) (usPending st)\<rparr>"
  have i: "upstreamInv cr mg st1" using assms(1) by (auto simp: st1_def upstreamInv_def pendingOk_def)
  show ?thesis
  proof (cases "fst h = True \<and> snd h = Inr ()")
    case True
    then obtain p where p: "fmlookup (usPending st) (hkRequestPacketID reply) = Some p" "phPeer p = source" "phEndpoint p = remote"
      using assms(2) by (auto simp: acceptReply_def Let_def split: option.splits if_splits)
    let ?s = "(statusAt (upstreamStatusKey source remote) (usStatus st))\<lparr>stPeer := source, stEndpoint := AddrPort_String remote,
        stLastSuccess := UTC (umNow mg (usClock st)), stPending := False\<rparr>"
    have "announces mg source remote" using assms(1) p by (auto simp: upstreamInv_def pendingOk_def)
    then have "statusOk mg (fmupd (upstreamStatusKey source remote) ?s (usStatus st))"
      using statusOk_upd [of mg "usStatus st" ?s remote] assms(1) by (simp add: upstreamInv_def)
    then show ?thesis using i assms(2) True by (auto simp: acceptReply_def Let_def st1_def upstreamInv_def split: option.splits if_splits)
  next
    case False
    then show ?thesis using i assms(2) by (auto simp: acceptReply_def Let_def st1_def split: option.splits if_splits)
  qed
qed

lemma upstreamHandle_inv:
  assumes "upstreamInv cr mg st" "upstreamHandle cr mg datagram remote st = (h, st')"
  shows "upstreamInv cr mg st'"
proof -
  let ?a = "Authenticate cr datagram (idAddress (umLocal mg)) remote (umNow mg (usClock st)) (usPeers st)"
  have "upstreamInv cr mg (st\<lparr>usClock := Suc (usClock st), usPeers := snd ?a\<rparr>)"
    using assms(1) reachable_Authenticate by (auto simp: upstreamInv_def)
  then show ?thesis using assms
    by (cases ?a) (auto simp: upstreamHandle_def Let_def acceptReply_inv split: sum.splits if_splits)
qed

section \<open>Accepted answers\<close>

lemma upstreamHandle_success:
  assumes "upstreamHandle cr mg datagram remote st = ((True, Inr ()), st')"
  shows "\<exists>s d reply p. isUpstream mg (rhSource (routingOf datagram)) \<and> rhDestination (routingOf datagram) = idAddress (umLocal mg)
    \<and> fmlookup (rgSessions (usPeers st)) (rhSource (routingOf datagram)) = Some s \<and> DearmorSession cr datagram (ssSharedKey s) = Inr d
    \<and> ParseHelloOK d = Inr reply \<and> fmlookup (usPending st) (hkRequestPacketID reply) = Some p
    \<and> p = \<lparr> phPeer = rhSource (routingOf datagram), phEndpoint = remote, phTimestamp = hkTimestamp reply, phExpires = phExpires p \<rparr>
    \<and> usPending st' = fmdrop (hkRequestPacketID reply) (usPending st)"
proof -
  let ?a = "Authenticate cr datagram (idAddress (umLocal mg)) remote (umNow mg (usClock st)) (usPeers st)"
  obtain q peers where a: "?a = (q, peers)" by force
  from assms have len: "28 \<le> length datagram" "ParseRouting datagram = Inr (routingOf datagram)"
    by (auto simp: upstreamHandle_def ParseRouting_Inr split: sum.splits)
  from assms len a obtain d session where q: "q = Inr (d, session)"
    by (auto simp: upstreamHandle_def split: sum.splits if_splits)
  from a [unfolded q Authenticate_Inr] obtain s where s: "fmlookup (rgSessions (usPeers st)) (rhSource (routingOf datagram)) = Some s"
    "DearmorSession cr datagram (ssSharedKey s) = Inr d" by blast
  from assms len a q show ?thesis using s
    by (auto simp: upstreamHandle_def acceptReply_def Let_def split: sum.splits option.splits if_splits intro: pendingHello.equality)
qed

lemma upstreamHandle_rest:
  assumes "upstreamHandle cr mg datagram remote st = (h, st')" "h \<noteq> (True, Inr ())"
  shows "usStatus st' = usStatus st" "usSent st' = usSent st"
  using assms by (auto simp: upstreamHandle_def acceptReply_def Let_def split: sum.splits option.splits if_splits prod.splits)

text \<open>An accepted answer is not accepted again.\<close>

lemma upstreamHandle_once:
  assumes "upstreamHandle cr mg datagram remote st = ((True, Inr ()), st')" "usPending st2 = usPending st'"
    and "fmlookup (rgSessions (usPeers st2)) (rhSource (routingOf datagram)) = Some s2"
    and "fmlookup (rgSessions (usPeers st)) (rhSource (routingOf datagram)) = Some s1" "ssSharedKey s2 = ssSharedKey s1"
  shows "fst (upstreamHandle cr mg datagram remote2 st2) \<noteq> (True, Inr ())"
proof
  assume "fst (upstreamHandle cr mg datagram remote2 st2) = (True, Inr ())"
  then obtain st3 where "upstreamHandle cr mg datagram remote2 st2 = ((True, Inr ()), st3)" by (metis prod.collapse)
  from upstreamHandle_success [OF this] upstreamHandle_success [OF assms(1)] assms(2-5) show False by auto
qed

section \<open>Announcement and answer\<close>

lemma announceEndpoint_Inr:
  assumes "announceEndpoint cr mg now peer key endpoint st = Some (Inr (), st1)"
  shows "\<exists>pid hello. BuildHello cr pid peer (umLocal mg) helloVersion (word_of_int (UnixMilli now)) 0 0 key = Inr hello
    \<and> usSent st1 = usSent st @ [(hello, endpoint)] \<and> addrPortIsValid endpoint
    \<and> fmlookup (rgSessions (usPeers st1)) (idAddress peer) = Some (configuredSession peer key endpoint now)
    \<and> (0 < umInterval mg \<longrightarrow> fmlookup (usPending st1) pid = Some \<lparr> phPeer = idAddress peer, phEndpoint = endpoint,
          phTimestamp = word_of_int (UnixMilli now), phExpires = now + umInterval mg \<rparr>)"
  using assms by (auto simp: announceEndpoint_def RegisterConfigured_def recordAttempt_def livePending_def Let_def
      split: sum.splits option.splits prod.splits if_splits)

lemma announced_accepted:
  assumes "x25519_law cr" "wfIdentity a" "keyPair cr a" "LocallyValidate cr a" "wfIdentity b" "keyPair cr b" "LocallyValidate cr b"
    and "umLocal mg = a" "isUpstream mg (idAddress b)" "0 < umInterval mg" "\<And>n. \<not> IsZero (umNow mg n)"
    and "Agree cr a (Public b) 48 = Inr key" "announceEndpoint cr mg now (Public b) key endpoint st = Some (Inr (), st1)"
    and "addrIsValid (iaAddress observed)" "MinimumProtocolVersion \<le> lvProtocol version"
  shows "\<exists>sent hello reply st2 s. usSent st1 = usSent st @ [(sent, endpoint)]
    \<and> AuthenticateHello cr (withHops x sent) b = Inr (hello, key) \<and> BuildHelloOK cr j hello b observed version key = Inr reply
    \<and> upstreamHandle cr mg (withHops y reply) endpoint st1 = ((True, Inr ()), st2)
    \<and> fmlookup (usStatus st2) (upstreamStatusKey (idAddress b) endpoint) = Some s \<and> \<not> stPending s
    \<and> stLastSuccess s = umNow mg (Suc (usClock st1))"
proof -
  obtain pid sent where A: "BuildHello cr pid (Public b) a helloVersion (word_of_int (UnixMilli now)) 0 0 key = Inr sent"
    "usSent st1 = usSent st @ [(sent, endpoint)]" "addrPortIsValid endpoint"
    "fmlookup (rgSessions (usPeers st1)) (idAddress b) = Some (configuredSession (Public b) key endpoint now)"
    "fmlookup (usPending st1) pid = Some \<lparr> phPeer = idAddress b, phEndpoint = endpoint,
          phTimestamp = word_of_int (UnixMilli now), phExpires = now + umInterval mg \<rparr>"
    using announceEndpoint_Inr [OF assms(13)] assms(8,10) by auto
  have "MinimumProtocolVersion \<le> lvProtocol helloVersion" by (simp add: helloVersion_def packet_consts)
  from hello_exchange [OF assms(1-7,12) this, of pid "word_of_int (UnixMilli now)" 0 0 x] A(1) obtain hello where
    H: "AuthenticateHello cr (withHops x sent) b = Inr (hello, key)" "hlIdentity hello = Public a"
      "rhPacketID (hlRouting hello) = pid" "hlTimestamp hello = word_of_int (UnixMilli now)" by auto
  have c: "canonicalHex 10 (idAddress (hlIdentity hello))" "canonicalHex 10 (idAddress b)" using assms(2,5) H(2) by (simp_all add: wfIdentity_def)
  obtain reply d where R: "BuildHelloOK cr j hello b observed version key = Inr reply" "DearmorSession cr (withHops y reply) key = Inr d"
    "rhSource (dcRouting d) = idAddress b" "rhDestination (dcRouting d) = idAddress a"
    "ParseHelloOK d = Inr \<lparr> hkRequestPacketID = pid, hkTimestamp = word_of_int (UnixMilli now), hkVersion = version,
       hkExternalSurface = Some (observed\<lparr>iaAddress := wireAddress (iaAddress observed)\<rparr>), hkWorldUpdate = [] \<rparr>"
    using hello_ok_exchange [OF c assms(14,15), of cr j key y] H by auto
  note rt = DearmorSession_routing [OF R(2)]
  have v: "dcVerb d = VerbOK" using R(5) by (auto simp: ParseHelloOK_def Let_def split: if_splits)
  let ?now = "umNow mg (usClock st1)" and ?m = "withHops y reply"
  obtain session peers where au: "Authenticate cr ?m (idAddress a) endpoint ?now (usPeers st1) = (Inr (d, session), peers)"
    using A(3,4) R rt assms(11) by (auto simp: Authenticate_Inr configuredSession_def)
  have "ParseRouting ?m = Inr (routingOf ?m)" using rt by (simp add: ParseRouting_eq)
  then have "\<exists>st2. upstreamHandle cr mg ?m endpoint st1 = ((True, Inr ()), st2)
      \<and> fmlookup (usStatus st2) (upstreamStatusKey (idAddress b) endpoint) = Some ((statusAt (upstreamStatusKey (idAddress b) endpoint) (usStatus st1))
          \<lparr>stPeer := idAddress b, stEndpoint := AddrPort_String endpoint, stLastSuccess := UTC (umNow mg (Suc (usClock st1))), stPending := False\<rparr>)"
    using au R rt v assms(8,9) A(5) by (auto simp: upstreamHandle_def acceptReply_def Let_def)
  then show ?thesis using A(2) H(1) R(1) by (fastforce simp: UTC_def)
qed

section \<open>The listing\<close>

lemma statusOk_key: "statusOk mg m \<Longrightarrow> fmlookup m k = Some s \<Longrightarrow> k = stPeer s @ ''@'' @ stEndpoint s"
  unfolding statusOk_def upstreamStatusKey_def by metis

lemma listing_exact:
  assumes "statusOk mg (usStatus st)"
  shows "sorted (map (\<lambda>s. (stPeer s, stEndpoint s)) (upstreamStatusList st)) \<and> distinct (map (\<lambda>s. (stPeer s, stEndpoint s)) (upstreamStatusList st))
    \<and> set (upstreamStatusList st) = ran (fmlookup (usStatus st))"
proof -
  let ?f = "\<lambda>s. (stPeer s, stEndpoint s)"
  have "inj_on ?f (ran (fmlookup (usStatus st)))"
  proof (rule inj_onI)
    fix s t
    assume "s \<in> ran (fmlookup (usStatus st))" "t \<in> ran (fmlookup (usStatus st))" and eq: "?f s = ?f t"
    then obtain k l where k: "fmlookup (usStatus st) k = Some s" "fmlookup (usStatus st) l = Some t" by (auto simp: ran_def)
    then have "k = l" using statusOk_key [OF assms] eq by (metis prod.inject)
    with k show "s = t" by simp
  qed
  moreover have "distinct (mapValues (usStatus st))"
  proof -
    have "inj_on (\<lambda>k. the (fmlookup (usStatus st) k)) (fset (fmdom (usStatus st)))"
      using statusOk_key [OF assms] by (intro inj_onI) (metis fmdom_notI option.collapse)
    then show ?thesis by (simp add: mapValues_def sorted_list_of_fmap_def distinct_map comp_def sorted_list_of_fset.rep_eq)
  qed
  ultimately show ?thesis by (simp add: upstreamStatusList_def mapValues_set distinct_map)
qed

text \<open>The states of the manager: from its constructor through announcements and datagrams.\<close>

inductive reachableManager :: "Crypto \<Rightarrow> UpstreamManager \<Rightarrow> UpstreamState \<Rightarrow> bool" for cr mg where
  constructed: "reachableRegistry cr (upstreamNodes mg) registry \<Longrightarrow>
    NewUpstreamManager (Some wr) controller (Some registry) upstreams interval random clock = Inr (mg, st) \<Longrightarrow> reachableManager cr mg st"
| announced: "reachableManager cr mg st \<Longrightarrow> announce cr mg st = Some (r, st') \<Longrightarrow> reachableManager cr mg st'"
| handled: "reachableManager cr mg st \<Longrightarrow> upstreamHandle cr mg datagram remote st = (h, st') \<Longrightarrow> reachableManager cr mg st'"

lemma NewUpstreamManager_inv:
  assumes "NewUpstreamManager connection local peers upstreams interval random clock = Inr (mg, st)"
    and "reachableRegistry cr (upstreamNodes mg) (usPeers st)"
  shows "upstreamInv cr mg st \<and> umUpstreams mg = upstreams \<and> 0 < umInterval mg \<and> peers = Some (usPeers st)"
  using assms by (auto simp: NewUpstreamManager_def upstreamInv_def pendingOk_def statusOk_def split: option.splits if_splits)

lemma reachableManager_inv:
  assumes "reachableManager cr mg st" "\<forall>u \<in> set (umUpstreams mg). wfIdentity (upIdentity u)"
  shows "upstreamInv cr mg st"
  using assms
proof induction
  case (constructed registry w loc ups iv rnd clk st)
  then have "usPeers st = registry" by (auto simp: NewUpstreamManager_def split: if_splits)
  with constructed NewUpstreamManager_inv show ?case by blast
next
  case announced
  then show ?case using announce_inv by blast
next
  case handled
  then show ?case using upstreamHandle_inv by blast
qed

section \<open>The upstreams that load\<close>

lemma loadUpstream_Inr:
  assumes "loadUpstream cr item = Inr u"
  shows "wfIdentity (upIdentity u) \<and> \<not> idHasPrivate (upIdentity u) \<and> LocallyValidate cr (upIdentity u) \<and> upEndpoints u \<noteq> []"
proof -
  obtain i es where u: "Parse (uiIdentity item) = Inr i" "u = \<lparr> upIdentity = i, upEndpoints = es \<rparr>" "\<not> idHasPrivate i" "LocallyValidate cr i"
    "uiEndpoints item \<noteq> []" "mapM (\<lambda>value. wrapErr ''upstream %d endpoint %q: %w'' (ParseAddrPort value)) (uiEndpoints item) = Inr es"
    using assms by (auto simp: loadUpstream_def rbind_eq_Inr split: sum.splits if_splits)
  then have "length es = length (uiEndpoints item)" by (blast dest: mapM_length)
  with u Parse_Inr [OF u(1)] show ?thesis by auto
qed

lemma LoadUpstreams_Inr:
  assumes "LoadUpstreams cr readJSON path = Inr ups"
  shows "ups \<noteq> [] \<and> (\<forall>u \<in> set ups. wfIdentity (upIdentity u) \<and> \<not> idHasPrivate (upIdentity u) \<and> LocallyValidate cr (upIdentity u) \<and> upEndpoints u \<noteq> [])"
proof -
  obtain items where "mapM (loadUpstream cr) items = Inr ups" "ups \<noteq> []"
    using assms by (auto simp: LoadUpstreams_def rbind_eq_Inr split: if_splits)
  moreover from this(1) have "list_all2 (\<lambda>x u. loadUpstream cr x = Inr u) items ups" by (simp add: mapM_Inr_iff)
  then have "\<forall>u \<in> set ups. \<exists>item. loadUpstream cr item = Inr u" by (induction rule: list_all2_induct) auto
  ultimately show ?thesis using loadUpstream_Inr by blast
qed

section \<open>Properties\<close>

definition toyManager :: UpstreamManager where
  "toyManager = \<lparr> umLocal = toyPeer 3, umUpstreams = [\<lparr> upIdentity = Public (toyPeer 5), upEndpoints = [toyEndpoint] \<rparr>], umInterval = 5,
     umRandom = (\<lambda>_. Inr 1), umNow = (\<lambda>_. 2), umWrite = (\<lambda>_. Inr ()) \<rparr>"

definition toyManaged :: UpstreamState where
  "toyManaged = \<lparr> usPeers = NewRegistry, usPending = fmempty, usStatus = fmempty, usClock = 0, usRandom = 0, usWrites = 0, usSent = [] \<rparr>"

lemma toyManaged_reachable: "reachableManager toyCrypto toyManager toyManaged"
proof -
  have "idHasPrivate (toyPeer 3)" using toyPeer(2) [of 3] by (simp add: keyPair_def)
  then show ?thesis
    by (intro reachableManager.constructed [where registry = NewRegistry and random = "umRandom toyManager" and clock = "umNow toyManager"
          and wr = "umWrite toyManager" and interval = 5 and upstreams = "umUpstreams toyManager" and controller = "toyPeer 3"] reachableRegistry.start)
      (simp add: NewUpstreamManager_def toyManager_def toyManaged_def)
qed

lemma toy_hello:
  assumes "Agree toyCrypto (toyPeer 3) (Public (toyPeer 5)) 48 = Inr key"
  shows "\<exists>sent. BuildHello toyCrypto 1 (Public (toyPeer 5)) (toyPeer 3) helloVersion (word_of_int (UnixMilli 2)) 0 0 key = Inr sent"
proof -
  have "MinimumProtocolVersion \<le> lvProtocol helloVersion" by (simp add: helloVersion_def packet_consts)
  from hello_exchange [OF toy_laws(2) toyPeer(1-3) toyPeer(1-3) assms this, of 1 "word_of_int (UnixMilli 2)" 0 0] show ?thesis by blast
qed

lemmas toy_announcing = announceEndpoint_def RegisterConfigured_def toyManaged_def toyManager_def toyEndpoint_def addrPortIsValid_def
  IsZero_def collides_def NewRegistry_def randomPacketID_packetID Let_def recordAttempt_def

lemma toy_announced:
  assumes "Agree toyCrypto (toyPeer 3) (Public (toyPeer 5)) 48 = Inr key"
  shows "\<exists>st1. announceEndpoint toyCrypto toyManager 2 (Public (toyPeer 5)) key toyEndpoint toyManaged = Some (Inr (), st1)"
  using toy_hello [OF assms] toyPeer(3) [of 5] by (auto simp: toy_announcing)

lemma toy_announce: "\<exists>st1 p. announce toyCrypto toyManager toyManaged = Some (Inr (), st1) \<and> fmlookup (usPending st1) 1 = Some p"
proof -
  obtain key where k: "Agree toyCrypto (toyPeer 3) (Public (toyPeer 5)) 48 = Inr key" using toy_agree by blast
  with toy_hello [OF k] toyPeer(3) [of 5] show ?thesis
    by (auto simp: announce_def toy_announcing SessionKeyLength_def livePending_def)
qed

text \<open>
  C10. The answers the manager believes: when \<^verbatim>\<open>Handle\<close> accepts a datagram as an upstream's answer, the datagram
  came from the address of a configured upstream, dearmored under the key of its session, is an
  OK(HELLO) to an announcement still pending, sent to exactly the endpoint it came from and with the
  timestamp it repeats; the announcement is then no longer pending, so that while the session keeps its
  key the same datagram is not accepted again from anywhere.
\<close>

theorem upstream_answer_sound:
  assumes "upstreamHandle cr mg datagram remote st = ((True, Inr ()), st')"
  shows "\<exists>s d reply p. isUpstream mg (rhSource (routingOf datagram)) \<and> rhDestination (routingOf datagram) = idAddress (umLocal mg)
    \<and> fmlookup (rgSessions (usPeers st)) (rhSource (routingOf datagram)) = Some s \<and> DearmorSession cr datagram (ssSharedKey s) = Inr d
    \<and> ParseHelloOK d = Inr reply \<and> fmlookup (usPending st) (hkRequestPacketID reply) = Some p
    \<and> phPeer p = rhSource (routingOf datagram) \<and> phEndpoint p = remote \<and> phTimestamp p = hkTimestamp reply
    \<and> usPending st' = fmdrop (hkRequestPacketID reply) (usPending st)
    \<and> (\<forall>st2 s2 remote2. usPending st2 = usPending st' \<and> fmlookup (rgSessions (usPeers st2)) (rhSource (routingOf datagram)) = Some s2
        \<and> ssSharedKey s2 = ssSharedKey s \<longrightarrow> fst (upstreamHandle cr mg datagram remote2 st2) \<noteq> (True, Inr ()))"
proof -
  obtain s d reply p where *: "isUpstream mg (rhSource (routingOf datagram))" "rhDestination (routingOf datagram) = idAddress (umLocal mg)"
    "fmlookup (rgSessions (usPeers st)) (rhSource (routingOf datagram)) = Some s" "DearmorSession cr datagram (ssSharedKey s) = Inr d"
    "ParseHelloOK d = Inr reply" "fmlookup (usPending st) (hkRequestPacketID reply) = Some p"
    "p = \<lparr> phPeer = rhSource (routingOf datagram), phEndpoint = remote, phTimestamp = hkTimestamp reply, phExpires = phExpires p \<rparr>"
    "usPending st' = fmdrop (hkRequestPacketID reply) (usPending st)"
    using upstreamHandle_success [OF assms] by blast
  have "fst (upstreamHandle cr mg datagram remote2 st2) \<noteq> (True, Inr ())" if "usPending st2 = usPending st'"
    "fmlookup (rgSessions (usPeers st2)) (rhSource (routingOf datagram)) = Some s2" "ssSharedKey s2 = ssSharedKey s" for st2 s2 remote2
    using upstreamHandle_once [OF assms that(1,2) *(3) that(3)] .
  moreover have "phPeer p = rhSource (routingOf datagram)" "phEndpoint p = remote" "phTimestamp p = hkTimestamp reply"
    by (subst *(7), simp)+
  ultimately show ?thesis using *(1-6,8) by blast
qed

theorem upstream_answer_sound_witness:
  "\<exists>datagram st1 st2 p i. upstreamHandle toyCrypto toyManager datagram toyEndpoint st1 = ((True, Inr ()), st2)
     \<and> fmlookup (usPending st1) i = Some p \<and> phEndpoint p = toyEndpoint"
proof -
  obtain key where k: "Agree toyCrypto (toyPeer 3) (Public (toyPeer 5)) 48 = Inr key" using toy_agree by blast
  obtain st1 where a: "announceEndpoint toyCrypto toyManager 2 (Public (toyPeer 5)) key toyEndpoint toyManaged = Some (Inr (), st1)"
    using toy_announced [OF k] by blast
  have u: "umLocal toyManager = toyPeer 3" "isUpstream toyManager (idAddress (toyPeer 5))" "0 < umInterval toyManager" "\<And>n. \<not> IsZero (umNow toyManager n)"
    by (simp_all add: toyManager_def isUpstream_def IsZero_def)
  obtain datagram st2 where h: "upstreamHandle toyCrypto toyManager datagram toyEndpoint st1 = ((True, Inr ()), st2)"
    using announced_accepted [OF toy_laws(2) toyPeer(1-3) toyPeer(1-3) u k a, of "\<lparr> iaAddress = Addr4 1, iaPort = 1 \<rparr>" helloVersion 0 7 0]
    by (auto simp: helloVersion_def packet_consts)
  from upstream_answer_sound [OF h] h show ?thesis by blast
qed

text \<open>
  C11. An announcement is answered: when the announcement to an endpoint of an upstream succeeds, the
  datagram sent there is authenticated by the holder of the upstream's private key with the agreed
  session key, and the OK(HELLO) it builds, whatever hop counts both packets gather, is accepted by the
  manager, which then reports that endpoint as reached at that time and no longer pending.
\<close>

theorem upstream_announcement_answered:
  assumes "x25519_law cr" "wfIdentity a" "keyPair cr a" "LocallyValidate cr a" "wfIdentity b" "keyPair cr b" "LocallyValidate cr b"
    and "umLocal mg = a" "isUpstream mg (idAddress b)" "0 < umInterval mg" "\<And>n. \<not> IsZero (umNow mg n)"
    and "Agree cr a (Public b) 48 = Inr key" "announceEndpoint cr mg now (Public b) key endpoint st = Some (Inr (), st1)"
    and "addrIsValid (iaAddress observed)" "MinimumProtocolVersion \<le> lvProtocol version"
  shows "\<exists>sent hello reply st2 s. usSent st1 = usSent st @ [(sent, endpoint)]
    \<and> AuthenticateHello cr (withHops x sent) b = Inr (hello, key) \<and> BuildHelloOK cr j hello b observed version key = Inr reply
    \<and> upstreamHandle cr mg (withHops y reply) endpoint st1 = ((True, Inr ()), st2)
    \<and> fmlookup (usStatus st2) (upstreamStatusKey (idAddress b) endpoint) = Some s \<and> \<not> stPending s
    \<and> stLastSuccess s = umNow mg (Suc (usClock st1))"
  by (rule announced_accepted [OF assms])

theorem upstream_announcement_answered_witness:
  "\<exists>st1 reply st2. upstreamHandle toyCrypto toyManager (withHops 0 reply) toyEndpoint st1 = ((True, Inr ()), st2)
    \<and> fmlookup (usStatus st2) (upstreamStatusKey (idAddress (toyPeer 5)) toyEndpoint) \<noteq> None"
proof -
  obtain key where k: "Agree toyCrypto (toyPeer 3) (Public (toyPeer 5)) 48 = Inr key" using toy_agree by blast
  obtain st1 where a: "announceEndpoint toyCrypto toyManager 2 (Public (toyPeer 5)) key toyEndpoint toyManaged = Some (Inr (), st1)"
    using toy_announced [OF k] by blast
  have u: "umLocal toyManager = toyPeer 3" "isUpstream toyManager (idAddress (toyPeer 5))" "0 < umInterval toyManager" "\<And>n. \<not> IsZero (umNow toyManager n)"
    by (simp_all add: toyManager_def isUpstream_def IsZero_def)
  show ?thesis
    using upstream_announcement_answered [OF toy_laws(2) toyPeer(1-3) toyPeer(1-3) u k a, of "\<lparr> iaAddress = Addr4 1, iaPort = 1 \<rparr>" helloVersion 0 7 0]
    by (fastforce simp: helloVersion_def packet_consts)
qed

text \<open>
  C12. Invariant of the upstream manager: in every state it reaches through announcements and datagrams,
  whether they succeed or fail, every pending entry and every status is about a configured endpoint
  of a configured upstream, the registry is in a reachable state, and the status listing shows every
  endpoint once, in the order of peer and endpoint.
\<close>

theorem upstream_manager_invariant:
  assumes "reachableManager cr mg st" "\<forall>u \<in> set (umUpstreams mg). wfIdentity (upIdentity u)"
  shows "reachableRegistry cr (upstreamNodes mg) (usPeers st)
    \<and> (\<forall>i p. fmlookup (usPending st) i = Some p \<longrightarrow> announces mg (phPeer p) (phEndpoint p))
    \<and> sorted (map (\<lambda>s. (stPeer s, stEndpoint s)) (upstreamStatusList st)) \<and> distinct (map (\<lambda>s. (stPeer s, stEndpoint s)) (upstreamStatusList st))
    \<and> (\<forall>s \<in> set (upstreamStatusList st). \<exists>e. announces mg (stPeer s) e \<and> stEndpoint s = AddrPort_String e)"
proof -
  have i: "upstreamInv cr mg st" by (rule reachableManager_inv [OF assms])
  then have s: "statusOk mg (usStatus st)" by (simp add: upstreamInv_def)
  from listing_exact [OF s] i s show ?thesis by (auto simp: upstreamInv_def pendingOk_def statusOk_def ran_def) metis
qed

theorem upstream_manager_invariant_witness:
  "\<exists>st p. reachableManager toyCrypto toyManager st \<and> fmlookup (usPending st) 1 = Some p \<and> announces toyManager (phPeer p) (phEndpoint p)
     \<and> reachableRegistry toyCrypto (upstreamNodes toyManager) (usPeers st)"
proof -
  obtain st p where a: "announce toyCrypto toyManager toyManaged = Some (Inr (), st)" "fmlookup (usPending st) 1 = Some p"
    using toy_announce by blast
  have r: "reachableManager toyCrypto toyManager st" by (rule reachableManager.announced [OF toyManaged_reachable a(1)])
  moreover have "\<forall>u \<in> set (umUpstreams toyManager). wfIdentity (upIdentity u)"
    using wf_Public [OF toyPeer(1) [of 5]] by (simp add: toyManager_def)
  ultimately show ?thesis using upstream_manager_invariant a(2) by blast
qed

end
