(* ===== verification/Server.thy ===== *)
theory Server
  imports Upstream
begin

text \<open>
  \<^verbatim>\<open>internal/zerotier/transport/udp.go\<close>: the loop that reads datagrams, reassembles them, offers them to the
  upstream manager, hands the rest to the handler and writes the replies; the periodic pruning of the
  registry and the announcements of the upstream manager run between its iterations. The lemmas show
  that no sequence of events makes the loop hang, grant access, or outgrow its memory bounds.
\<close>

section \<open>The loop\<close>

record 's UDPServer =
  udHandler :: "'s Handler"
  udUpstream :: "UpstreamManager option"
  udWrite :: "nat \<Rightarrow> unit result"

record 's ServerState =
  vsHandler :: "'s HandlerState"
  vsFragments :: reassembler
  vsUpstream :: UpstreamState
  vsWrites :: nat
  vsSent :: "(bytes \<times> AddrPort) list"

definition NewUDPServer :: "(nat \<Rightarrow> unit result) option \<Rightarrow> 's Handler option \<Rightarrow> ('s UDPServer \<times> reassembler) result" where
  "NewUDPServer connection handler = (case (connection, handler) of
     (Some wr, Some h) \<Rightarrow> Inr (\<lparr> udHandler = h, udUpstream = None, udWrite = wr \<rparr>, newReassembler)
   | _ \<Rightarrow> Inl (Errorf ''UDP connection and handler are required''))"

definition SetUpstreamManager :: "UpstreamManager option \<Rightarrow> 's UDPServer \<Rightarrow> 's UDPServer" where
  "SetUpstreamManager manager server = server\<lparr>udUpstream := manager\<rparr>"

definition ErrNetClosed :: error where "ErrNetClosed = Errorf ''use of closed network connection''"

text \<open>The registry is one object shared by the handler and the manager.\<close>

definition withUpstream :: "(UpstreamState \<Rightarrow> 'a \<times> UpstreamState) \<Rightarrow> 's ServerState \<Rightarrow> 'a \<times> 's ServerState" where
  "withUpstream f st = (case f ((vsUpstream st)\<lparr>usPeers := hsPeers (vsHandler st)\<rparr>) of
     (x, u) \<Rightarrow> (x, st\<lparr>vsUpstream := u, vsHandler := (vsHandler st)\<lparr>hsPeers := usPeers u\<rparr>\<rparr>))"

text \<open>
  The writes of one iteration. \<open>closing\<close> is whether the context is done by then; \<open>None\<close> is to continue,
  \<open>Some r\<close> that \<^verbatim>\<open>Serve\<close> returns \<open>r\<close>.
\<close>

fun writeReplies :: "'s UDPServer \<Rightarrow> bool \<Rightarrow> AddrPort \<Rightarrow> bytes list \<Rightarrow> 's ServerState \<Rightarrow> unit result option \<times> 's ServerState" where
  "writeReplies server closing remote [] st = (None, st)"
| "writeReplies server closing remote (reply # replies) st =
     (let st' = st\<lparr>vsWrites := Suc (vsWrites st)\<rparr> in
      case udWrite server (vsWrites st) of
        Inl e \<Rightarrow> (Some (if closing \<or> errorsIs e ErrNetClosed then Inr () else Inl (Wrap ''write UDP: %w'' e)), st')
      | Inr _ \<Rightarrow> writeReplies server closing remote replies (st'\<lparr>vsSent := vsSent st @ [(reply, remote)]\<rparr>))"

text \<open>The upstream manager sees a datagram first and may keep it.\<close>

definition offerUpstream :: "Crypto \<Rightarrow> 's UDPServer \<Rightarrow> bytes \<Rightarrow> AddrPort \<Rightarrow> 's ServerState \<Rightarrow> bool \<times> 's ServerState" where
  "offerUpstream cr server datagram remote st = (case udUpstream server of
     None \<Rightarrow> (False, st)
   | Some mg \<Rightarrow> (case withUpstream (upstreamHandle cr mg datagram remote) st of
       ((handled, err), st') \<Rightarrow> (handled \<or> \<not> isOk err, st')))"

definition serveDatagram ::
    "Crypto \<Rightarrow> 's UDPServer \<Rightarrow> bytes \<Rightarrow> AddrPort \<Rightarrow> time \<Rightarrow> bool \<Rightarrow> 's ServerState \<Rightarrow> (unit result option \<times> 's ServerState) option" where
  "serveDatagram cr server received remote now closing st =
     (case push (take MaxPacketLength received) remote now (vsFragments st) of
        (Inl _, m) \<Rightarrow> Some (None, st\<lparr>vsFragments := m\<rparr>)
      | (Inr None, m) \<Rightarrow> Some (None, st\<lparr>vsFragments := m\<rparr>)
      | (Inr (Some datagram), m) \<Rightarrow>
          (case offerUpstream cr server datagram remote (st\<lparr>vsFragments := m\<rparr>) of
             (True, st) \<Rightarrow> Some (None, st)
           | (False, st) \<Rightarrow>
               (case Handle cr (udHandler server) None datagram remote (vsHandler st) of
                  None \<Rightarrow> None
                | Some (Inl _, hs) \<Rightarrow> Some (None, st\<lparr>vsHandler := hs\<rparr>)
                | Some (Inr replies, hs) \<Rightarrow> Some (writeReplies server closing remote replies (st\<lparr>vsHandler := hs\<rparr>)))))"

text \<open>
  What happens, in the order in which the locks serialise it: a datagram is read, reading fails, the
  registry is pruned, the manager announces.
\<close>

datatype ServerEvent =
    Received bytes AddrPort time bool
  | ReadFailed error bool
  | PruneTick time
  | AnnounceTick

definition announceTick :: "Crypto \<Rightarrow> 's UDPServer \<Rightarrow> 's ServerState \<Rightarrow> 's ServerState option" where
  "announceTick cr server st = (case udUpstream server of
     None \<Rightarrow> Some st
   | Some mg \<Rightarrow> (case announce cr mg ((vsUpstream st)\<lparr>usPeers := hsPeers (vsHandler st)\<rparr>) of
       None \<Rightarrow> None
     | Some (_, u) \<Rightarrow> Some (st\<lparr>vsUpstream := u, vsHandler := (vsHandler st)\<lparr>hsPeers := usPeers u\<rparr>\<rparr>)))"

fun serverStep :: "Crypto \<Rightarrow> 's UDPServer \<Rightarrow> ServerEvent \<Rightarrow> 's ServerState \<Rightarrow> (unit result option \<times> 's ServerState) option" where
  "serverStep cr server (Received received remote now closing) st = serveDatagram cr server received remote now closing st"
| "serverStep cr server (ReadFailed e closing) st =
     Some (Some (if closing \<or> errorsIs e ErrNetClosed then Inr () else Inl (Wrap ''read UDP: %w'' e)), st)"
| "serverStep cr server (PruneTick now) st =
     Some (None, st\<lparr>vsHandler := (vsHandler st)\<lparr>hsPeers := snd (Prune now (hsPeers (vsHandler st)))\<rparr>\<rparr>)"
| "serverStep cr server AnnounceTick st = (case announceTick cr server st of None \<Rightarrow> None | Some st' \<Rightarrow> Some (None, st'))"

text \<open>\<open>Some (None, st)\<close>: all the events were served and the loop waits for the next.\<close>

fun Serve :: "Crypto \<Rightarrow> 's UDPServer \<Rightarrow> ServerEvent list \<Rightarrow> 's ServerState \<Rightarrow> (unit result option \<times> 's ServerState) option" where
  "Serve cr server [] st = Some (None, st)"
| "Serve cr server (ev # evs) st = (case serverStep cr server ev st of
     None \<Rightarrow> None
   | Some (Some r, st') \<Rightarrow> Some (Some r, st')
   | Some (None, st') \<Rightarrow> Serve cr server evs st')"

section \<open>It returns\<close>

definition serverAlive :: "'s UDPServer \<Rightarrow> bool" where
  "serverAlive server = (randomAlive (hdRandom (udHandler server))
     \<and> (case udUpstream server of None \<Rightarrow> True | Some mg \<Rightarrow> randomAlive (umRandom mg)))"

lemma serverStep_returns: "serverAlive server \<Longrightarrow> \<exists>r st'. serverStep cr server ev st = Some (r, st')"
proof (cases ev)
  case (Received received remote now closing)
  assume "serverAlive server"
  then have H: "Handle cr (udHandler server) None datagram remote hs \<noteq> None" for datagram hs
    using returns_Handle [of "udHandler server" cr None datagram remote] unfolding serverAlive_def returns_def by blast
  have "serveDatagram cr server received remote now closing st \<noteq> None"
    by (auto simp: serveDatagram_def H split: prod.splits sum.splits option.splits bool.splits)
  then show ?thesis by (auto simp: Received)
next
  case AnnounceTick
  assume "serverAlive server"
  then have A: "announce cr mg u \<noteq> None" if "udUpstream server = Some mg" for mg u
    using announce_returns [of mg cr u] that by (auto simp: serverAlive_def)
  have "announceTick cr server st \<noteq> None" by (auto simp: announceTick_def dest: A split: option.splits)
  then show ?thesis by (auto simp: AnnounceTick)
qed auto

lemma Serve_returns: "serverAlive server \<Longrightarrow> \<exists>r st'. Serve cr server evs st = Some (r, st')"
proof (induction evs arbitrary: st)
  case (Cons ev evs)
  from serverStep_returns [OF Cons.prems] obtain r st1 where "serverStep cr server ev st = Some (r, st1)" by blast
  with Cons.IH [OF Cons.prems, of st1] show ?case by (cases r) auto
qed simp

section \<open>What stays true\<close>

definition serverUpstreams :: "'s UDPServer \<Rightarrow> NodeID set" where
  "serverUpstreams server = (case udUpstream server of None \<Rightarrow> {} | Some mg \<Rightarrow> upstreamNodes mg)"

definition managerOk :: "'s UDPServer \<Rightarrow> UpstreamState \<Rightarrow> bool" where
  "managerOk server u = (case udUpstream server of None \<Rightarrow> True | Some mg \<Rightarrow> pendingOk mg (usPending u) \<and> statusOk mg (usStatus u))"

definition serverInv :: "Crypto \<Rightarrow> MemStore UDPServer \<Rightarrow> MemStore ServerState \<Rightarrow> MemStore ServerState \<Rightarrow> bool" where
  "serverInv cr server st0 st = (handlerSafe cr (serverUpstreams server) (vsHandler st0) (vsHandler st)
     \<and> reassemblerInv (vsFragments st) \<and> managerOk server (vsUpstream st))"

lemma writeReplies_keep:
  "writeReplies server closing remote replies st = (r, st') \<Longrightarrow>
     vsHandler st' = vsHandler st \<and> vsFragments st' = vsFragments st \<and> vsUpstream st' = vsUpstream st
     \<and> (\<exists>sent. vsSent st' = vsSent st @ map (\<lambda>reply. (reply, remote)) sent \<and> set sent \<subseteq> set replies)"
proof (induction replies arbitrary: st)
  case (Cons reply replies)
  show ?case
  proof (cases "udWrite server (vsWrites st)")
    case (Inl e)
    then show ?thesis using Cons.prems by (auto simp: Let_def intro!: exI [of _ "[]"])
  next
    case (Inr u)
    let ?st = "st\<lparr>vsWrites := Suc (vsWrites st), vsSent := vsSent st @ [(reply, remote)]\<rparr>"
    from Cons.IH [of ?st] Cons.prems Inr obtain sent where "vsHandler st' = vsHandler st" "vsFragments st' = vsFragments st"
      "vsUpstream st' = vsUpstream st" "vsSent st' = vsSent st @ (reply, remote) # map (\<lambda>reply. (reply, remote)) sent" "set sent \<subseteq> set replies"
      by (auto simp: Let_def)
    then show ?thesis by (intro conjI exI [of _ "reply # sent"]) auto
  qed
qed (auto intro: exI [of _ "[]"])

lemma handlerSafe_peers:
  "handlerSafe cr U st0 hs \<Longrightarrow> reachableRegistry cr U peers \<Longrightarrow> handlerSafe cr U st0 (hs\<lparr>hsPeers := peers\<rparr>)"
  by (simp add: handlerSafe_def)

text \<open>The manager's part of the state, seen as its own.\<close>

lemma serverInv_manager:
  assumes "serverInv cr server st0 st" "udUpstream server = Some mg"
  shows "upstreamInv cr mg ((vsUpstream st)\<lparr>usPeers := hsPeers (vsHandler st)\<rparr>)"
  using assms by (simp add: serverInv_def upstreamInv_def managerOk_def handlerSafe_def serverUpstreams_def)

lemma serverInv_put:
  assumes "serverInv cr server st0 st" "udUpstream server = Some mg" "upstreamInv cr mg u"
  shows "serverInv cr server st0 (st\<lparr>vsUpstream := u, vsHandler := (vsHandler st)\<lparr>hsPeers := usPeers u\<rparr>\<rparr>)"
  using assms by (simp add: serverInv_def upstreamInv_def managerOk_def serverUpstreams_def handlerSafe_peers)

lemma offerUpstream_inv:
  assumes "serverInv cr server st0 st" "offerUpstream cr server datagram remote st = (h, st')"
  shows "serverInv cr server st0 st'"
proof (cases "udUpstream server")
  case (Some mg)
  obtain r u where u: "upstreamHandle cr mg datagram remote ((vsUpstream st)\<lparr>usPeers := hsPeers (vsHandler st)\<rparr>) = (r, u)" by (metis surj_pair)
  have "upstreamInv cr mg u" by (rule upstreamHandle_inv [OF serverInv_manager [OF assms(1) Some] u])
  from serverInv_put [OF assms(1) Some this] assms(2) Some u show ?thesis
    by (auto simp: offerUpstream_def withUpstream_def split: prod.splits)
qed (use assms in \<open>simp add: offerUpstream_def\<close>)

lemma announceTick_inv:
  assumes "serverInv cr server st0 st" "announceTick cr server st = Some st'"
    and "\<And>mg. udUpstream server = Some mg \<Longrightarrow> \<forall>u \<in> set (umUpstreams mg). wfIdentity (upIdentity u)"
  shows "serverInv cr server st0 st'"
proof (cases "udUpstream server")
  case (Some mg)
  obtain r u where u: "announce cr mg ((vsUpstream st)\<lparr>usPeers := hsPeers (vsHandler st)\<rparr>) = Some (r, u)"
    using assms(2) Some by (auto simp: announceTick_def split: option.splits)
  have "upstreamInv cr mg u" by (rule announce_inv [OF serverInv_manager [OF assms(1) Some] assms(3) [OF Some] u])
  from serverInv_put [OF assms(1) Some this] assms(2) Some u show ?thesis by (auto simp: announceTick_def)
qed (use assms in \<open>simp add: announceTick_def\<close>)

lemma serveDatagram_inv:
  assumes "serverInv cr server st0 st" "svStore (hdService (udHandler server)) = memoryStore"
    and "serveDatagram cr server received remote now closing st = Some (r, st')"
  shows "serverInv cr server st0 st'"
proof -
  obtain q m where p: "push (take MaxPacketLength received) remote now (vsFragments st) = (q, m)" by force
  have "reassemblerInv m" using push_inv [of "vsFragments st" "take MaxPacketLength received" remote now] assms(1) p by (simp add: serverInv_def)
  then have i: "serverInv cr server st0 (st\<lparr>vsFragments := m\<rparr>)" using assms(1) by (simp add: serverInv_def)
  show ?thesis
  proof (cases "\<exists>datagram. q = Inr (Some datagram)")
    case False
    then show ?thesis using assms(3) p i by (auto simp: serveDatagram_def split: sum.splits option.splits)
  next
    case True
    then obtain datagram where q: "q = Inr (Some datagram)" by blast
    obtain h st1 where o: "offerUpstream cr server datagram remote (st\<lparr>vsFragments := m\<rparr>) = (h, st1)" by force
    have i1: "serverInv cr server st0 st1" by (rule offerUpstream_inv [OF i o])
    show ?thesis
    proof (cases h)
      case True
      then show ?thesis using assms(3) p q o i1 by (simp add: serveDatagram_def)
    next
      case False
      then obtain res hs where h: "Handle cr (udHandler server) None datagram remote (vsHandler st1) = Some (res, hs)"
        using assms(3) p q o by (auto simp: serveDatagram_def split: option.splits)
      have "handlerSafe cr (serverUpstreams server) (vsHandler st0) hs"
        using keeps_Handle [OF assms(2)] i1 h unfolding keepsState_def serverInv_def by blast
      then have i2: "serverInv cr server st0 (st1\<lparr>vsHandler := hs\<rparr>)" using i1 by (simp add: serverInv_def)
      show ?thesis
      proof (cases res)
        case (Inl e)
        then show ?thesis using assms(3) p q o False h i2 by (simp add: serveDatagram_def)
      next
        case (Inr replies)
        then have "writeReplies server closing remote replies (st1\<lparr>vsHandler := hs\<rparr>) = (r, st')"
          using assms(3) p q o False h by (simp add: serveDatagram_def)
        from writeReplies_keep [OF this] i2 show ?thesis by (simp add: serverInv_def)
      qed
    qed
  qed
qed

lemma reachable_Prune: "reachableRegistry cr U r \<Longrightarrow> reachableRegistry cr U (snd (Prune now r))"
  using reachableRegistry.step [of cr U r "PruneAt now"] by simp

lemma serverStep_inv:
  assumes "serverInv cr server st0 st" "svStore (hdService (udHandler server)) = memoryStore"
    and "\<And>mg. udUpstream server = Some mg \<Longrightarrow> \<forall>u \<in> set (umUpstreams mg). wfIdentity (upIdentity u)"
    and "serverStep cr server ev st = Some (r, st')"
  shows "serverInv cr server st0 st'"
proof (cases ev)
  case (Received received remote now closing)
  then show ?thesis using serveDatagram_inv [OF assms(1,2)] assms(4) by simp
next
  case (PruneTick now)
  have "handlerSafe cr (serverUpstreams server) (vsHandler st0) (vsHandler st)" using assms(1) by (simp add: serverInv_def)
  with handlerSafe_peers [OF this reachable_Prune] have
    "handlerSafe cr (serverUpstreams server) (vsHandler st0) ((vsHandler st)\<lparr>hsPeers := snd (Prune now (hsPeers (vsHandler st)))\<rparr>)"
    by (simp add: handlerSafe_def)
  then show ?thesis using PruneTick assms(1,4) by (auto simp: serverInv_def)
next
  case AnnounceTick
  then show ?thesis using announceTick_inv [OF assms(1) _ assms(3)] assms(4) by (auto split: option.splits)
qed (use assms in auto)

lemma Serve_inv:
  assumes "serverInv cr server st0 st" "svStore (hdService (udHandler server)) = memoryStore"
    and "\<And>mg. udUpstream server = Some mg \<Longrightarrow> \<forall>u \<in> set (umUpstreams mg). wfIdentity (upIdentity u)"
    and "Serve cr server evs st = Some (r, st')"
  shows "serverInv cr server st0 st'"
  using assms(1,4)
proof (induction evs arbitrary: st)
  case (Cons ev evs)
  obtain q st1 where s: "serverStep cr server ev st = Some (q, st1)" using Cons.prems(2) by (auto split: option.splits)
  have "serverInv cr server st0 st1" by (rule serverStep_inv [OF Cons.prems(1) assms(2,3) s])
  then show ?case using Cons s by (auto split: option.splits)
qed simp

text \<open>Replies go where the datagrams came from.\<close>

fun eventRemotes :: "ServerEvent \<Rightarrow> AddrPort list" where
  "eventRemotes (Received received remote now closing) = [remote]"
| "eventRemotes _ = []"

lemma offerUpstream_sent: "offerUpstream cr server datagram remote st = (h, st') \<Longrightarrow> vsSent st' = vsSent st"
  by (auto simp: offerUpstream_def withUpstream_def split: option.splits prod.splits)

lemma serverStep_sent:
  assumes "serverStep cr server ev st = Some (r, st')"
  shows "\<exists>sent. vsSent st' = vsSent st @ sent \<and> snd ` set sent \<subseteq> set (eventRemotes ev)"
proof (cases ev)
  case (Received received remote now closing)
  obtain q m where p: "push (take MaxPacketLength received) remote now (vsFragments st) = (q, m)" by force
  consider (none) "vsSent st' = vsSent st" | (wrote) replies st1 where "writeReplies server closing remote replies st1 = (r, st')" "vsSent st1 = vsSent st"
    using assms p Received
    by (auto simp: serveDatagram_def split: sum.splits option.splits prod.splits bool.splits dest!: offerUpstream_sent)
  then show ?thesis
  proof cases
    case none
    then show ?thesis by (intro exI [of _ "[]"]) simp
  next
    case wrote
    with writeReplies_keep [OF wrote(1)] obtain sent where "vsSent st' = vsSent st @ map (\<lambda>reply. (reply, remote)) sent" by auto
    then show ?thesis using Received by (intro exI [of _ "map (\<lambda>reply. (reply, remote)) sent"]) auto
  qed
qed (use assms in \<open>auto simp: announceTick_def split: option.splits\<close>)

lemma Serve_sent:
  assumes "Serve cr server evs st = Some (r, st')"
  shows "\<exists>sent. vsSent st' = vsSent st @ sent \<and> snd ` set sent \<subseteq> set (concat (map eventRemotes evs))"
  using assms
proof (induction evs arbitrary: st)
  case (Cons ev evs)
  obtain q st1 where s: "serverStep cr server ev st = Some (q, st1)" using Cons.prems by (auto split: option.splits)
  from serverStep_sent [OF s] obtain a where a: "vsSent st1 = vsSent st @ a" "snd ` set a \<subseteq> set (eventRemotes ev)" by blast
  show ?case
  proof (cases q)
    case (Some x)
    then show ?thesis using Cons.prems s a by (intro exI [of _ a]) auto
  next
    case None
    then have "Serve cr server evs st1 = Some (r, st')" using Cons.prems s by simp
    from Cons.IH [OF this] obtain b where "vsSent st' = vsSent st1 @ b" "snd ` set b \<subseteq> set (concat (map eventRemotes evs))" by blast
    then show ?thesis using a by (intro exI [of _ "a @ b"]) auto
  qed
qed (auto intro: exI [of _ "[]"])

section \<open>Properties\<close>

definition toyServer :: "MemStore UDPServer" where
  "toyServer = \<lparr> udHandler = toyHandler, udUpstream = Some toyManager, udWrite = (\<lambda>_. Inr ()) \<rparr>"

definition toyServing :: "MemStore ServerState" where
  "toyServing = \<lparr> vsHandler = toyState\<lparr>hsPeers := NewRegistry\<rparr>, vsFragments = newReassembler, vsUpstream = toyManaged, vsWrites = 0, vsSent = [] \<rparr>"

definition toyEvents :: "ServerEvent list" where
  "toyEvents = [AnnounceTick, Received toyPacket toyEndpoint 3 False, PruneTick 4, Received [] toyEndpoint 5 False, ReadFailed ErrNetClosed False]"

lemma newReassembler_inv: "reassemblerInv newReassembler"
  by (simp add: reassemblerInv_def newReassembler_def fcard.rep_eq)

lemma toyServer_alive: "serverAlive toyServer"
  using toy_random(1) by (simp add: serverAlive_def toyServer_def toyManager_def randomAlive_def)

text \<open>
  C9. The server returns from every event: whatever datagrams arrive, whichever reads and writes fail,
  and however pruning and announcements come between, the loop serves the whole sequence or stops with
  the result of a failed read or write; no datagram makes it hang, provided the random sources fail or
  eventually give a nonzero number.
\<close>

theorem serve_returns:
  assumes "serverAlive server"
  shows "\<exists>r st'. Serve cr server evs st = Some (r, st')"
  by (rule Serve_returns [OF assms])

theorem serve_returns_witness:
  "\<exists>r st'. Serve toyCrypto toyServer toyEvents toyServing = Some (r, st')"
  by (rule serve_returns [OF toyServer_alive])

text \<open>
  C8. The whole transport is safe: from a server whose upstreams were loaded from a file, whatever sequence of
  datagrams, failures, prunings and announcements follows, no network document changes and exactly
  the members authorized before are authorized afterwards; the documents keep their invariant, the
  registry stays reachable, at most 32 packets and their bytes are held for reassembly, and every
  datagram the server loop sends goes to an endpoint a datagram came from.
\<close>

theorem serve_safe:
  assumes "svStore (hdService (udHandler server)) = memoryStore" "udUpstream server = Some mg"
    and "LoadUpstreams cr readJSON path = Inr (umUpstreams mg)"
    and "memInv (wStore (hsWorld (vsHandler st)))" "reachableRegistry cr (upstreamNodes mg) (hsPeers (vsHandler st))"
    and "vsFragments st = newReassembler" "usPending (vsUpstream st) = fmempty" "usStatus (vsUpstream st) = fmempty" "vsSent st = []"
    and "Serve cr server evs st = Some (r, st')"
  shows "memInv (wStore (hsWorld (vsHandler st'))) \<and> reachableRegistry cr (upstreamNodes mg) (hsPeers (vsHandler st'))
    \<and> asNetworks (memAbs (wStore (hsWorld (vsHandler st')))) = asNetworks (memAbs (wStore (hsWorld (vsHandler st))))
    \<and> (\<forall>i j. authorizedIn i j (memAbs (wStore (hsWorld (vsHandler st')))) \<longleftrightarrow> authorizedIn i j (memAbs (wStore (hsWorld (vsHandler st)))))
    \<and> fcard (fmdom (vsFragments st')) \<le> maxReassemblySlots \<and> heldBytes (vsFragments st') \<le> maxReassemblySlots * MaxPacketLength
    \<and> snd ` set (vsSent st') \<subseteq> set (concat (map eventRemotes evs))"
proof -
  have i: "serverInv cr server st st"
    using assms(2,4-8) newReassembler_inv
    by (simp add: serverInv_def handlerSafe_def serverUpstreams_def managerOk_def pendingOk_def statusOk_def)
  have w: "\<forall>u \<in> set (umUpstreams m). wfIdentity (upIdentity u)" if "udUpstream server = Some m" for m
    using LoadUpstreams_Inr [OF assms(3)] assms(2) that by auto
  have "serverInv cr server st st'" by (rule Serve_inv [OF i assms(1) w assms(10)])
  moreover obtain sent where "vsSent st' = sent" "snd ` set sent \<subseteq> set (concat (map eventRemotes evs))"
    using Serve_sent [OF assms(10)] assms(9) by auto
  ultimately show ?thesis using assms(2) heldBytes_bound [of "vsFragments st'"]
    by (simp add: serverInv_def handlerSafe_def serverUpstreams_def reassemblerInv_def)
qed

definition toyUpstreamFile :: RawMessage where
  "toyUpstreamFile = JObject [(''upstreams'', JArray [JObject [(''identity'', JString (textForm (Public (toyPeer 5)))),
     (''endpoints'', JArray [JString (AddrPort_String toyEndpoint)])]])]"

lemma toyUpstreams_load: "LoadUpstreams toyCrypto (\<lambda>_. Inr (Inr toyUpstreamFile)) ''upstreams.json'' = Inr (umUpstreams toyManager)"
proof -
  have p: "Parse (textForm (Public (toyPeer 5))) = Inr (Public (toyPeer 5))" by (rule Parse_textForm [OF wf_Public [OF toyPeer(1)]])
  have e: "ParseAddrPort (AddrPort_String toyEndpoint) = Inr toyEndpoint"
    by (rule ParseAddrPort_String) (simp add: toyEndpoint_def addrPortIsValid_def)
  have "decStruct False upstreamFileFields [] toyUpstreamFile
    = Inr [\<lparr> uiIdentity = textForm (Public (toyPeer 5)), uiEndpoints = [AddrPort_String toyEndpoint] \<rparr>]"
    by (simp add: toyUpstreamFile_def upstreamFileFields_def upstreamItemFields_def findField_def decList.simps setField_def)
  then show ?thesis using p e toyPeer(3) [of 5] by (simp add: LoadUpstreams_def loadUpstream_def toyManager_def)
qed

theorem serve_safe_witness:
  "\<exists>r st'. Serve toyCrypto toyServer toyEvents toyServing = Some (r, st') \<and> memInv (wStore (hsWorld (vsHandler st')))
     \<and> fcard (fmdom (vsFragments st')) \<le> maxReassemblySlots"
proof -
  obtain r st' where s: "Serve toyCrypto toyServer toyEvents toyServing = Some (r, st')" using Serve_returns [OF toyServer_alive] by blast
  have "udUpstream toyServer = Some toyManager" by (simp add: toyServer_def)
  from serve_safe [OF _ this toyUpstreams_load _ _ _ _ _ _ s] s show ?thesis
    using memNew_inv reachableRegistry.start by (simp add: toyServer_def toyHandler_def toyService_def toyServing_def toyState_def toyManaged_def)
qed

end
