(* ===== verification/Galois.thy ===== *)
theory Galois
  imports Armor
begin

unbundle bit_operations_syntax

text \<open>
  The multiplication of \<^verbatim>\<open>aesarmor.go\<close> against its reference, the field of 128-bit elements GCM uses:
  an element is a word whose most significant bit is the coefficient of the constant term.
\<close>

definition gfShift :: "128 word \<Rightarrow> 128 word" where
  "gfShift v = drop_bit 1 v XOR (if bit v 0 then 0xe1000000000000000000000000000000 else 0)"

definition gfTerm :: "128 word \<Rightarrow> 128 word \<Rightarrow> nat \<Rightarrow> 128 word" where
  "gfTerm a b i = (if bit a (127 - i) then (gfShift ^^ i) b else 0)"

definition gfProduct :: "128 word \<Rightarrow> 128 word \<Rightarrow> 128 word" where
  "gfProduct a b = foldr (XOR) (map (gfTerm a b) [0..<128]) 0"

lemma be_word_xorBlock:
  assumes "length a = 16" "length b = 16"
  shows "(be_word (xorBlock a b) :: 128 word) = be_word a XOR be_word b"
  by (rule bit_word_eqI) (use assms in \<open>auto simp: bit_be_word bit_simps xorBlock_def\<close>)

lemma length_galoisShift [simp]: "length (galoisShift v) = 16"
  by (simp add: galoisShift_def Let_def)

definition shiftBytes :: "bytes \<Rightarrow> bytes" where
  "shiftBytes v = map (\<lambda>index. if index = 0 then drop_bit 1 (v ! 0)
     else drop_bit 1 (v ! index) OR push_bit 7 (v ! (index - 1))) [0..<16]"

lemma be_word_shiftBytes:
  assumes "length v = 16"
  shows "(be_word (shiftBytes v) :: 128 word) = drop_bit 1 (be_word v)"
proof (rule bit_word_eqI)
  fix k assume k: "k < LENGTH(128)"
  define j r where "j = k div 8" and "r = k mod 8"
  have e: "k = 8 * j + r" "r < 8" "j < 16" using k by (auto simp: j_def r_def)
  show "bit (be_word (shiftBytes v) :: 128 word) k \<longleftrightarrow> bit (drop_bit 1 (be_word v) :: 128 word) k"
  proof (cases "r = 7")
    case True
    then have "Suc k = 8 * Suc j" using e by simp
    then have "Suc k div 8 = Suc j" "Suc k mod 8 = 0" by simp_all
    then show ?thesis
      using e True assms by (auto simp: bit_be_word bit_drop_bit_eq shiftBytes_def j_def [symmetric] r_def [symmetric]
        bit_or_iff bit_push_bit_iff dest: bit_imp_le_length)
  next
    case False
    then have "Suc k div 8 = j" "Suc k mod 8 = Suc r" using e by simp_all
    then show ?thesis
      using e False assms by (auto simp: bit_be_word bit_drop_bit_eq shiftBytes_def j_def [symmetric] r_def [symmetric]
        bit_or_iff bit_push_bit_iff)
  qed
qed

lemma byte_and_bit: "((b :: byte) AND push_bit i 1 \<noteq> 0) \<longleftrightarrow> bit b i"
  by (simp add: and_exp_eq_0_iff_not_bit push_bit_of_1)

lemma be_word_galoisShift:
  assumes "length v = 16"
  shows "(be_word (galoisShift v) :: 128 word) = gfShift (be_word v)"
proof -
  have l: "((v ! 15) AND 1 \<noteq> 0) \<longleftrightarrow> bit (be_word v :: 128 word) 0"
    using byte_and_bit [of "v ! 15" 0] assms by (simp add: bit_be_word)
  have x: "(shiftBytes v)[0 := shiftBytes v ! 0 XOR 0xe1] = xorBlock (shiftBytes v) (0xe1 # replicate 15 0)"
  proof -
    have "length (shiftBytes v) = 16" by (simp add: shiftBytes_def)
    then obtain h t where t: "shiftBytes v = h # t" "length t = 15" by (cases "shiftBytes v") auto
    have "map2 (XOR) t (replicate (length t) 0) = t" by (induction t) auto
    then show ?thesis using t by (simp add: xorBlock_def)
  qed
  have r: "(be_word (0xe1 # replicate 15 0) :: 128 word) = 0xe1000000000000000000000000000000" by code_simp
  have s: "length (shiftBytes v) = 16" by (simp add: shiftBytes_def)
  have "galoisShift v = (if bit (be_word v :: 128 word) 0 then xorBlock (shiftBytes v) (0xe1 # replicate 15 0) else shiftBytes v)"
    unfolding galoisShift_def Let_def shiftBytes_def [symmetric] x l ..
  then show ?thesis using be_word_xorBlock [OF s, of "0xe1 # replicate 15 0"] r be_word_shiftBytes [OF assms] by (simp add: gfShift_def)
qed

lemma galois_loop:
  assumes "length right = 16" "length left = 16"
  shows "n \<le> 128 \<Longrightarrow> \<exists>product v. foldl (\<lambda>(product, v) i.
       (if (left ! (i div 8)) AND push_bit (7 - i mod 8) 1 \<noteq> 0 then xorBlock product v else product, galoisShift v))
       (replicate 16 0, right) [0..<n] = (product, v) \<and> length product = 16 \<and> length v = 16
     \<and> (be_word v :: 128 word) = (gfShift ^^ n) (be_word right)
     \<and> (be_word product :: 128 word) = foldr (XOR) (map (gfTerm (be_word left) (be_word right)) [0..<n]) 0"
proof (induction n)
  case 0
  have "(be_word (replicate 16 0) :: 128 word) = 0" by code_simp
  then show ?case using assms by simp
next
  case (Suc n)
  then obtain product v where IH: "foldl (\<lambda>(product, v) i.
       (if (left ! (i div 8)) AND push_bit (7 - i mod 8) 1 \<noteq> 0 then xorBlock product v else product, galoisShift v))
       (replicate 16 0, right) [0..<n] = (product, v)" "length product = 16" "length v = 16"
     "(be_word v :: 128 word) = (gfShift ^^ n) (be_word right)"
     "(be_word product :: 128 word) = foldr (XOR) (map (gfTerm (be_word left) (be_word right)) [0..<n]) 0" by auto
  have acc: "foldr (XOR) xs z = foldr (XOR) xs 0 XOR z" for xs and z :: "128 word"
    by (induction xs) (simp_all add: xor.assoc)
  have "(left ! (n div 8)) AND push_bit (7 - n mod 8) 1 \<noteq> 0 \<longleftrightarrow> bit (be_word left :: 128 word) (127 - n)"
  proof -
    define j r where "j = n div 8" and "r = n mod 8"
    have e: "n = 8 * j + r" "r < 8" "j < 16" using Suc.prems by (auto simp: j_def r_def)
    then have "127 - n = 8 * (15 - j) + (7 - r)" by simp
    then have "(127 - n) div 8 = 15 - j" "(127 - n) mod 8 = 7 - r" by simp_all
    moreover have "127 - n < 128" by simp
    ultimately show ?thesis
      unfolding byte_and_bit using e(2,3) assms(2) by (simp add: bit_be_word j_def [symmetric] r_def [symmetric])
  qed
  moreover have "foldr (XOR) (map (gfTerm (be_word left) (be_word right)) [0..<Suc n]) 0
      = foldr (XOR) (map (gfTerm (be_word left) (be_word right)) [0..<n]) 0 XOR gfTerm (be_word left) (be_word right) n"
    by (simp add: acc [of _ "gfTerm (be_word left) (be_word right) n"])
  moreover have "length (xorBlock product v) = 16" using IH(2,3) by (simp add: xorBlock_def)
  ultimately show ?case
    using IH be_word_galoisShift [OF IH(3)] be_word_xorBlock [OF IH(2,3)] by (auto simp: gfTerm_def [of _ _ n])
qed

lemma gfShift_add: "gfShift (b XOR c) = gfShift b XOR gfShift c"
  by (rule bit_word_eqI) (auto simp: gfShift_def bit_simps)

lemma gfShift_zero: "gfShift 0 = 0"
  by (simp add: gfShift_def)

lemma foldr_xor_map:
  fixes f g :: "nat \<Rightarrow> 128 word"
  shows "foldr (XOR) (map (\<lambda>i. f i XOR g i) xs) 0 = foldr (XOR) (map f xs) 0 XOR foldr (XOR) (map g xs) 0"
  by (induction xs) (simp_all add: xor.assoc xor.left_commute)

lemma gfProduct_add: "gfProduct (a XOR a') b = gfProduct a b XOR gfProduct a' b" "gfProduct a (b XOR c) = gfProduct a b XOR gfProduct a c"
proof -
  have p: "(gfShift ^^ n) (b XOR c) = (gfShift ^^ n) b XOR (gfShift ^^ n) c" for n
    by (induction n) (simp_all add: gfShift_add)
  have "gfTerm (a XOR a') b = (\<lambda>i. gfTerm a b i XOR gfTerm a' b i)" "gfTerm a (b XOR c) = (\<lambda>i. gfTerm a b i XOR gfTerm a c i)"
    by (auto simp: gfTerm_def bit_xor_iff fun_eq_iff p)
  then show "gfProduct (a XOR a') b = gfProduct a b XOR gfProduct a' b" "gfProduct a (b XOR c) = gfProduct a b XOR gfProduct a c"
    unfolding gfProduct_def by (simp_all only: foldr_xor_map)
qed

lemma gfProduct_one:
  assumes "\<And>n. bit a n \<longleftrightarrow> n = 127"
  shows "gfProduct a b = b"
proof -
  have m: "map (gfTerm a b) [1..<128] = map (\<lambda>i. 0) [1..<128]"
    by (rule map_cong) (auto simp: gfTerm_def assms)
  have z: "foldr (XOR) (map (\<lambda>i. 0) xs) 0 = (0 :: 128 word)" for xs :: "nat list" by (induction xs) simp_all
  have u: "[0..<128] = 0 # [1..<128]" using upt_conv_Cons [of 0 128] by simp
  show ?thesis unfolding gfProduct_def u list.map m foldr.simps comp_def z by (simp add: gfTerm_def assms)
qed

text \<open>
  Galois multiplication: on 16-byte blocks \<^verbatim>\<open>galoisMultiply\<close> computes the product GCM uses, the sum
  over the coefficients of the left factor of the right factor shifted by as many places; it
  distributes over addition on both sides, and the block 80 00 .. 00 is its left unit.
\<close>

theorem galois_multiply_exact:
  assumes "length a = 16" "length b = 16" "length c = 16"
  shows "(be_word (galoisMultiply a b) :: 128 word) = gfProduct (be_word a) (be_word b)
    \<and> galoisMultiply (xorBlock a b) c = xorBlock (galoisMultiply a c) (galoisMultiply b c)
    \<and> galoisMultiply a (xorBlock b c) = xorBlock (galoisMultiply a b) (galoisMultiply a c)
    \<and> galoisMultiply (0x80 # replicate 15 0) b = b"
proof -
  have g: "(be_word (galoisMultiply x y) :: 128 word) = gfProduct (be_word x) (be_word y)" "length (galoisMultiply x y) = 16"
    if "length x = 16" "length y = 16" for x y
    using galois_loop [OF that(2,1), of 128] unfolding galoisMultiply_def gfProduct_def by auto
  have inj: "x = y" if "length x = 16" "length y = 16" "(be_word x :: 128 word) = be_word y" for x y
    using that be_bytes16_word by metis
  have l: "length (xorBlock x y) = 16" if "length x = 16" "length y = 16" for x y using that by (simp add: xorBlock_def)
  have "(be_word (0x80 # replicate 15 0) :: 128 word) = push_bit 127 1" by code_simp
  then have one: "bit (be_word (0x80 # replicate 15 0) :: 128 word) n \<longleftrightarrow> n = 127" for n
    by (simp only: bit_push_bit_iff bit_1_iff) auto
  show ?thesis
    using assms g l by (auto intro!: inj simp: be_word_xorBlock gfProduct_add gfProduct_one [OF one])
qed

theorem galois_multiply_exact_witness:
  "galoisMultiply (0x80 # replicate 15 0) (replicate 16 7) = replicate 16 7
   \<and> galoisMultiply (xorBlock (replicate 16 1) (replicate 16 2)) (replicate 16 7)
     = xorBlock (galoisMultiply (replicate 16 1) (replicate 16 7)) (galoisMultiply (replicate 16 2) (replicate 16 7))"
  using galois_multiply_exact [of "replicate 16 1" "replicate 16 2" "replicate 16 7"]
    galois_multiply_exact [of "replicate 16 1" "replicate 16 7" "replicate 16 7"] by simp

end
