(* ===== verification/VersionedStore.thy ===== *)
theory VersionedStore
  imports MemoryStore
begin

text \<open>
  The store contract for an implementation that takes a subset of the calls: a database refuses values
  it has no representation for. Two implementations of the contract that hold the same documents
  cannot be told apart by the calls both take.
\<close>

section \<open>Runs with their results\<close>

fun storeResults :: "'s Store \<Rightarrow> StoreCall list \<Rightarrow> 's \<Rightarrow> unit result list" where
  "storeResults S [] s = []"
| "storeResults S (c # cs) s = (case storeCall S None c s of (r, s') \<Rightarrow> r # storeResults S cs s')"

fun aResults :: "StoreCall list \<Rightarrow> AStore \<Rightarrow> unit result list" where
  "aResults [] a = []"
| "aResults (c # cs) a = (case aCall c a of (r, a') \<Rightarrow> r # aResults cs a')"

text \<open>What a client can read of a store.\<close>

datatype StoreView = StoreView
  "NetworkID \<Rightarrow> Network result" "NetworkID \<Rightarrow> NodeID \<Rightarrow> Member result" "NetworkID \<Rightarrow> NodeID \<Rightarrow> AgentMetadata result"
  "Network list result" "NetworkID \<Rightarrow> Member list result"

definition storeView :: "'s Store \<Rightarrow> 's \<Rightarrow> StoreView" where
  "storeView S s = StoreView (\<lambda>i. stGetNetwork S None i s) (\<lambda>i j. stGetMember S None i j s)
     (\<lambda>i j. stGetAgentMetadata S None i j s) (stListNetworks S None s) (\<lambda>i. stListMembers S None i s)"

definition aView :: "AStore \<Rightarrow> StoreView" where
  "aView a = StoreView (\<lambda>i. found (asNetworks a i)) (\<lambda>i j. found (asMembers a (i, j))) (\<lambda>i j. found (asMetadata a (i, j)))
     (Inr (map (\<lambda>i. the (asNetworks a i)) (sorted_list_of_set {i. asNetworks a i \<noteq> None})))
     (\<lambda>i. if asNetworks a i = None then Inl ErrNotFound
        else Inr (map (\<lambda>j. the (asMembers a (i, j))) (sorted_list_of_set {j. asMembers a (i, j) \<noteq> None})))"

text \<open>A list sorted by its keys is determined by the set of its elements.\<close>

lemma sorted_by_key:
  assumes "sorted (map key xs)" "distinct (map key xs)" "set xs = {x. \<exists>k. m k = Some x}" "\<And>k x. m k = Some x \<Longrightarrow> key x = k"
  shows "xs = map (\<lambda>k. the (m k)) (sorted_list_of_set {k. m k \<noteq> None})"
proof -
  have "set (map key xs) = {k. m k \<noteq> None}" using assms(3,4) by (fastforce simp: image_iff)
  then have "sorted_list_of_set {k. m k \<noteq> None} = map key xs"
    using sorted_list_of_set.idem_if_sorted_distinct [OF assms(1,2)] by simp
  then have "map (\<lambda>k. the (m k)) (sorted_list_of_set {k. m k \<noteq> None}) = map (\<lambda>x. the (m (key x))) xs" by (simp add: comp_def)
  also have "\<dots> = xs" using assms(3,4) by (auto intro!: map_idI)
  finally show ?thesis by simp
qed

section \<open>The contract\<close>

locale versioned_store =
  fixes S :: "'s Store" and sinv :: "'s \<Rightarrow> bool" and sabs :: "'s \<Rightarrow> AStore" and takes :: "StoreCall \<Rightarrow> bool"
  assumes integrity: "sinv s \<Longrightarrow> wfAStore (sabs s)"
    and get_network: "sinv s \<Longrightarrow> stGetNetwork S None i s = found (asNetworks (sabs s) i)"
    and get_member: "sinv s \<Longrightarrow> stGetMember S None i j s = found (asMembers (sabs s) (i, j))"
    and get_metadata: "sinv s \<Longrightarrow> stGetAgentMetadata S None i j s = found (asMetadata (sabs s) (i, j))"
    and list_networks: "sinv s \<Longrightarrow> \<exists>ns. stListNetworks S None s = Inr ns \<and> sorted (map nwID ns)
          \<and> distinct (map nwID ns) \<and> set ns = ran (asNetworks (sabs s))"
    and list_members: "sinv s \<Longrightarrow> asNetworks (sabs s) i \<noteq> None \<Longrightarrow>
          \<exists>ms. stListMembers S None i s = Inr ms \<and> sorted (map mbNodeID ms)
          \<and> distinct (map mbNodeID ms) \<and> set ms = {m. \<exists>j. asMembers (sabs s) (i, j) = Some m}"
    and list_members_missing: "sinv s \<Longrightarrow> asNetworks (sabs s) i = None \<Longrightarrow>
          stListMembers S None i s = Inl ErrNotFound"
    and call_refines: "sinv s \<Longrightarrow> takes c \<Longrightarrow> storeCall S None c s = (r, s') \<Longrightarrow>
          sinv s' \<and> aCall c (sabs s) = (r, sabs s')"
begin

lemma run_refines:
  "sinv s \<Longrightarrow> list_all takes cs \<Longrightarrow>
    sinv (storeRun S cs s) \<and> sabs (storeRun S cs s) = aRun cs (sabs s) \<and> storeResults S cs s = aResults cs (sabs s)"
proof (induction cs arbitrary: s)
  case (Cons c cs)
  obtain r s' where c: "storeCall S None c s = (r, s')" by force
  with Cons.prems call_refines [of s c r s'] have "sinv s'" "aCall c (sabs s) = (r, sabs s')" by auto
  with Cons.IH [of s'] Cons.prems c show ?case by simp
qed simp

text \<open>The lists are determined by the documents.\<close>

lemma list_networks_exact:
  assumes "sinv s"
  shows "stListNetworks S None s = Inr (map (\<lambda>i. the (asNetworks (sabs s) i)) (sorted_list_of_set {i. asNetworks (sabs s) i \<noteq> None}))"
proof -
  obtain ns where ns: "stListNetworks S None s = Inr ns" "sorted (map nwID ns)" "distinct (map nwID ns)" "set ns = ran (asNetworks (sabs s))"
    using list_networks [OF assms] by blast
  with wfAStoreD(1) [OF integrity [OF assms]] sorted_by_key [of nwID ns "asNetworks (sabs s)"] show ?thesis by (simp add: ran_def)
qed

lemma list_members_exact:
  assumes "sinv s" "asNetworks (sabs s) i \<noteq> None"
  shows "stListMembers S None i s =
    Inr (map (\<lambda>j. the (asMembers (sabs s) (i, j))) (sorted_list_of_set {j. asMembers (sabs s) (i, j) \<noteq> None}))"
proof -
  obtain ms where ms: "stListMembers S None i s = Inr ms" "sorted (map mbNodeID ms)" "distinct (map mbNodeID ms)"
    "set ms = {m. \<exists>j. asMembers (sabs s) (i, j) = Some m}"
    using list_members [OF assms] by blast
  with wfAStoreD(2) [OF integrity [OF assms(1)]] sorted_by_key [of mbNodeID ms "\<lambda>j. asMembers (sabs s) (i, j)"] show ?thesis by simp
qed

lemma view_exact: "sinv s \<Longrightarrow> storeView S s = aView (sabs s)"
  by (auto simp: storeView_def aView_def get_network get_member get_metadata list_networks_exact list_members_exact list_members_missing)

end

text \<open>The contract without refused calls is the special case that takes all.\<close>

sublocale persistent_store \<subseteq> v: versioned_store S sinv sabs "\<lambda>_. True"
  by unfold_locales (blast intro: integrity get_network get_member get_metadata list_networks list_members list_members_missing dest: call_refines)+

text \<open>Two implementations that start with the same documents.\<close>

locale store_pair = a: versioned_store S sinv sabs takes + b: versioned_store S' sinv' sabs' takes'
  for S :: "'s Store" and sinv sabs takes and S' :: "'t Store" and sinv' sabs' takes'
begin

lemma agree:
  assumes "sinv s" "sinv' t" "sabs s = sabs' t" "list_all takes cs" "list_all takes' cs"
  shows "storeResults S cs s = storeResults S' cs t" "storeView S (storeRun S cs s) = storeView S' (storeRun S' cs t)"
proof -
  note A = a.run_refines [OF assms(1,4)] and B = b.run_refines [OF assms(2,5)]
  show "storeResults S cs s = storeResults S' cs t" using A B assms(3) by simp
  show "storeView S (storeRun S cs s) = storeView S' (storeRun S' cs t)"
    using A B assms(3) a.view_exact [of "storeRun S cs s"] b.view_exact [of "storeRun S' cs t"] by simp
qed

end

interpretation memv: store_pair memoryStore memInv memAbs "\<lambda>_. True" memoryStore memInv memAbs "\<lambda>_. True"
  by unfold_locales

end
