(* ===== verification/Sqlite.thy ===== *)
theory Sqlite
  imports Documents VersionedStore "HOL-Library.Product_Lexorder"
begin

text \<open>
  \<^verbatim>\<open>internal/store/sqlite\<close>: the store on a SQL database. The database and its driver are the record
  \<open>Database\<close>; what the program relies on is \<open>sqlite_law\<close>, the documented effect of each of the SQL
  statements it sends, on tables with primary keys, foreign keys and cascading deletes. The lemmas
  show that the store built on such a database implements the abstract store, so that it agrees with
  the memory store.
\<close>

section \<open>The database\<close>

text \<open>A document is stored as the JSON text of its value.\<close>

datatype sqlValue = SQLText string | SQLInt int | SQLBlob RawMessage

text \<open>
  The store keeps one connection, on which transactions run. Executing a statement may fail, and so may asking how many rows it changed. A query gives rows and
  then perhaps an error.
\<close>

record 'd Database =
  dbOpen :: "string \<Rightarrow> 'd \<Rightarrow> unit result \<times> 'd"
  dbClose :: "'d \<Rightarrow> unit result \<times> 'd"
  dbBegin :: "'d \<Rightarrow> unit result \<times> 'd"
  dbCommit :: "'d \<Rightarrow> unit result \<times> 'd"
  dbRollback :: "'d \<Rightarrow> unit result \<times> 'd"
  dbPing :: "Context \<Rightarrow> 'd \<Rightarrow> unit result"
  dbExec :: "Context \<Rightarrow> string \<Rightarrow> sqlValue list \<Rightarrow> 'd \<Rightarrow> int result result \<times> 'd"
  dbQuery :: "Context \<Rightarrow> string \<Rightarrow> sqlValue list \<Rightarrow> 'd \<Rightarrow> (sqlValue list list \<times> unit result) result"

text \<open>The statements, with white space reduced to single blanks.\<close>

definition insertNetworkSQL :: string where
  "insertNetworkSQL = ''INSERT OR IGNORE INTO networks(id, revision, document) VALUES (?, ?, ?)''"
definition selectNetworkSQL :: string where
  "selectNetworkSQL = ''SELECT document FROM networks WHERE id = ?''"
definition selectNetworksSQL :: string where
  "selectNetworksSQL = ''SELECT document FROM networks ORDER BY id''"
definition updateNetworkSQL :: string where
  "updateNetworkSQL = ''UPDATE networks SET revision = ?, document = ? WHERE id = ? AND revision = ?''"
definition deleteNetworkSQL :: string where
  "deleteNetworkSQL = ''DELETE FROM networks WHERE id = ? AND revision = ?''"
definition insertMemberSQL :: string where
  "insertMemberSQL = ''INSERT OR IGNORE INTO members(network_id, node_id, revision, document) VALUES (?, ?, ?, ?)''"
definition selectMemberSQL :: string where
  "selectMemberSQL = ''SELECT document FROM members WHERE network_id = ? AND node_id = ?''"
definition selectMembersSQL :: string where
  "selectMembersSQL = ''SELECT document FROM members WHERE network_id = ? ORDER BY node_id''"
definition updateMemberSQL :: string where
  "updateMemberSQL = ''UPDATE members SET revision = ?, document = ? WHERE network_id = ? AND node_id = ? AND revision = ?''"
definition deleteMemberSQL :: string where
  "deleteMemberSQL = ''DELETE FROM members WHERE network_id = ? AND node_id = ? AND revision = ?''"
definition upsertAgentSQL :: string where
  "upsertAgentSQL = ''INSERT INTO agent_metadata(network_id, node_id, document) SELECT ?, ?, ? WHERE EXISTS ( SELECT 1 FROM members WHERE network_id = ? AND node_id = ? ) ON CONFLICT(network_id, node_id) DO UPDATE SET document = excluded.document''"
definition selectAgentSQL :: string where
  "selectAgentSQL = ''SELECT document FROM agent_metadata WHERE network_id = ? AND node_id = ?''"
definition networkExistsSQL :: string where
  "networkExistsSQL = ''SELECT EXISTS(SELECT 1 FROM networks WHERE id = ?)''"
definition memberExistsSQL :: string where
  "memberExistsSQL = ''SELECT EXISTS(SELECT 1 FROM members WHERE network_id = ? AND node_id = ?)''"

lemmas sql_defs = insertNetworkSQL_def selectNetworkSQL_def selectNetworksSQL_def updateNetworkSQL_def deleteNetworkSQL_def insertMemberSQL_def selectMemberSQL_def selectMembersSQL_def updateMemberSQL_def deleteMemberSQL_def upsertAgentSQL_def selectAgentSQL_def networkExistsSQL_def memberExistsSQL_def

definition ErrNoRows :: error where "ErrNoRows = Errorf ''sql: no rows in result set''"

text \<open>
  \<^verbatim>\<open>database/sql\<close>: an unsigned argument with the high bit set is refused before the statement is sent;
  \<^verbatim>\<open>QueryRow\<close> scans the first row.
\<close>

definition bindUint :: "uint64 \<Rightarrow> sqlValue result" where
  "bindUint v = (if uint v < 2 ^ 63 then Inr (SQLInt (uint v))
     else Inl (Errorf ''sql: uint64 values with high bit set are not supported''))"

definition execContext :: "'d Database \<Rightarrow> Context \<Rightarrow> string \<Rightarrow> sqlValue result list \<Rightarrow> 'd \<Rightarrow> int result result \<times> 'd" where
  "execContext db ctx q args d = (case mapM (\<lambda>a. a) args of Inl e \<Rightarrow> (Inl e, d) | Inr vs \<Rightarrow> dbExec db ctx q vs d)"

definition queryRow :: "'d Database \<Rightarrow> Context \<Rightarrow> string \<Rightarrow> sqlValue list \<Rightarrow> 'd \<Rightarrow> sqlValue list result" where
  "queryRow db ctx q args d = rbind (dbQuery db ctx q args d) (\<lambda>(rows, end).
     case rows of row # _ \<Rightarrow> Inr row | [] \<Rightarrow> rbind end (\<lambda>_. Inl ErrNoRows))"

fun scanDocument :: "sqlValue list \<Rightarrow> RawMessage result" where
  "scanDocument [SQLBlob j] = Inr j"
| "scanDocument _ = Inl (Errorf ''sql: Scan error'')"

fun scanBool :: "sqlValue list \<Rightarrow> bool result" where
  "scanBool [SQLInt n] = Inr (n \<noteq> 0)"
| "scanBool _ = Inl (Errorf ''sql: Scan error'')"

section \<open>The store\<close>

definition rowExists :: "'d Database \<Rightarrow> Context \<Rightarrow> string \<Rightarrow> string \<Rightarrow> sqlValue list \<Rightarrow> 'd \<Rightarrow> bool result" where
  "rowExists db ctx table predicate args d =
     rbind (queryRow db ctx (''SELECT EXISTS(SELECT 1 FROM '' @ table @ '' WHERE '' @ predicate @ '')'') args d) scanBool"

definition creationResult :: "int result result \<Rightarrow> unit result" where
  "creationResult result = rbind result (\<lambda>rows. rbind rows (\<lambda>affected.
     if affected = 0 then Inl ErrAlreadyExists else Inr ()))"

definition mutationResult ::
    "Context \<Rightarrow> 'd Database \<Rightarrow> int result result \<Rightarrow> string \<Rightarrow> string \<Rightarrow> sqlValue list \<Rightarrow> 'd \<Rightarrow> unit result" where
  "mutationResult ctx db result table predicate args d = rbind result (\<lambda>rows. rbind rows (\<lambda>affected.
     if affected \<noteq> 0 then Inr ()
     else rbind (rowExists db ctx table predicate args d) (\<lambda>exists.
       if exists then Inl ErrConflict else Inl ErrNotFound)))"

definition sqPing :: "'d Database \<Rightarrow> Context \<Rightarrow> 'd \<Rightarrow> unit result" where
  "sqPing db ctx d = dbPing db ctx d"

definition sqCreateNetwork :: "'d Database \<Rightarrow> Context \<Rightarrow> Network \<Rightarrow> 'd \<Rightarrow> unit result \<times> 'd" where
  "sqCreateNetwork db ctx network d = (case Network_Validate network of Inl e \<Rightarrow> (Inl e, d) | Inr _ \<Rightarrow>
     let network = network\<lparr>nwRevision := 1\<rparr> in
     case wrapErr ''encode network: %w'' (marshalNetwork network) of Inl e \<Rightarrow> (Inl e, d) | Inr document \<Rightarrow>
     case execContext db ctx insertNetworkSQL
         [Inr (SQLText (nwID network)), bindUint (nwRevision network), Inr (SQLBlob document)] d of
       (result, d') \<Rightarrow> (creationResult result, d'))"

definition sqGetNetwork :: "'d Database \<Rightarrow> Context \<Rightarrow> NetworkID \<Rightarrow> 'd \<Rightarrow> Network result" where
  "sqGetNetwork db ctx i d = (case rbind (queryRow db ctx selectNetworkSQL [SQLText i] d) scanDocument of
     Inl e \<Rightarrow> if errorsIs e ErrNoRows then Inl ErrNotFound else Inl (Wrap ''get network: %w'' e)
   | Inr document \<Rightarrow> wrapErr ''decode network: %w'' (unmarshalNetwork document))"

text \<open>The loops over rows: scan, decode, append; then the error of the iteration.\<close>

definition sqListNetworks :: "'d Database \<Rightarrow> Context \<Rightarrow> 'd \<Rightarrow> Network list result" where
  "sqListNetworks db ctx d =
     rbind (wrapErr ''list networks: %w'' (dbQuery db ctx selectNetworksSQL [] d)) (\<lambda>(rows, end).
     rbind (mapM (\<lambda>row. rbind (wrapErr ''scan network: %w'' (scanDocument row))
       (\<lambda>document. wrapErr ''decode network: %w'' (unmarshalNetwork document))) rows) (\<lambda>networks.
     rbind end (\<lambda>_. Inr networks)))"

definition sqSaveNetwork :: "'d Database \<Rightarrow> Context \<Rightarrow> Network \<Rightarrow> 'd \<Rightarrow> unit result \<times> 'd" where
  "sqSaveNetwork db ctx network d = (case Network_Validate network of Inl e \<Rightarrow> (Inl e, d) | Inr _ \<Rightarrow>
     let expectedRevision = nwRevision network; network = network\<lparr>nwRevision := nwRevision network + 1\<rparr> in
     case wrapErr ''encode network: %w'' (marshalNetwork network) of Inl e \<Rightarrow> (Inl e, d) | Inr document \<Rightarrow>
     case execContext db ctx updateNetworkSQL
         [bindUint (nwRevision network), Inr (SQLBlob document), Inr (SQLText (nwID network)), bindUint expectedRevision] d of
       (result, d') \<Rightarrow> (mutationResult ctx db result ''networks'' ''id = ?'' [SQLText (nwID network)] d', d'))"

definition sqDeleteNetwork :: "'d Database \<Rightarrow> Context \<Rightarrow> NetworkID \<Rightarrow> uint64 \<Rightarrow> 'd \<Rightarrow> unit result \<times> 'd" where
  "sqDeleteNetwork db ctx i revision d =
     (case execContext db ctx deleteNetworkSQL [Inr (SQLText i), bindUint revision] d of
        (result, d') \<Rightarrow> (mutationResult ctx db result ''networks'' ''id = ?'' [SQLText i] d', d'))"

definition sqCreateMember :: "'d Database \<Rightarrow> Context \<Rightarrow> Member \<Rightarrow> 'd \<Rightarrow> unit result \<times> 'd" where
  "sqCreateMember db ctx member d = (case Member_Validate member of Inl e \<Rightarrow> (Inl e, d) | Inr _ \<Rightarrow>
     case rowExists db ctx ''networks'' ''id = ?'' [SQLText (mbNetworkID member)] d of Inl e \<Rightarrow> (Inl e, d) | Inr exists \<Rightarrow>
     if \<not> exists then (Inl ErrNotFound, d)
     else
       let member = member\<lparr>mbRevision := 1\<rparr> in
       case wrapErr ''encode member: %w'' (marshalMember member) of Inl e \<Rightarrow> (Inl e, d) | Inr document \<Rightarrow>
       case execContext db ctx insertMemberSQL [Inr (SQLText (mbNetworkID member)), Inr (SQLText (mbNodeID member)),
           bindUint (mbRevision member), Inr (SQLBlob document)] d of
         (result, d') \<Rightarrow> (creationResult result, d'))"

definition sqGetMember :: "'d Database \<Rightarrow> Context \<Rightarrow> NetworkID \<Rightarrow> NodeID \<Rightarrow> 'd \<Rightarrow> Member result" where
  "sqGetMember db ctx networkID nodeID d =
     (case rbind (queryRow db ctx selectMemberSQL [SQLText networkID, SQLText nodeID] d) scanDocument of
        Inl e \<Rightarrow> if errorsIs e ErrNoRows then Inl ErrNotFound else Inl (Wrap ''get member: %w'' e)
      | Inr document \<Rightarrow> wrapErr ''decode member: %w'' (unmarshalMember document))"

definition sqListMembers :: "'d Database \<Rightarrow> Context \<Rightarrow> NetworkID \<Rightarrow> 'd \<Rightarrow> Member list result" where
  "sqListMembers db ctx networkID d =
     rbind (rowExists db ctx ''networks'' ''id = ?'' [SQLText networkID] d) (\<lambda>exists.
     if \<not> exists then Inl ErrNotFound
     else
       rbind (wrapErr ''list members: %w'' (dbQuery db ctx selectMembersSQL [SQLText networkID] d)) (\<lambda>(rows, end).
       rbind (mapM (\<lambda>row. rbind (wrapErr ''scan member: %w'' (scanDocument row))
         (\<lambda>document. wrapErr ''decode member: %w'' (unmarshalMember document))) rows) (\<lambda>members.
       rbind end (\<lambda>_. Inr members))))"

definition sqSaveMember :: "'d Database \<Rightarrow> Context \<Rightarrow> Member \<Rightarrow> 'd \<Rightarrow> unit result \<times> 'd" where
  "sqSaveMember db ctx member d = (case Member_Validate member of Inl e \<Rightarrow> (Inl e, d) | Inr _ \<Rightarrow>
     let expectedRevision = mbRevision member; member = member\<lparr>mbRevision := mbRevision member + 1\<rparr> in
     case wrapErr ''encode member: %w'' (marshalMember member) of Inl e \<Rightarrow> (Inl e, d) | Inr document \<Rightarrow>
     case execContext db ctx updateMemberSQL [bindUint (mbRevision member), Inr (SQLBlob document),
         Inr (SQLText (mbNetworkID member)), Inr (SQLText (mbNodeID member)), bindUint expectedRevision] d of
       (result, d') \<Rightarrow> (mutationResult ctx db result ''members'' ''network_id = ? AND node_id = ?''
         [SQLText (mbNetworkID member), SQLText (mbNodeID member)] d', d'))"

definition sqDeleteMember :: "'d Database \<Rightarrow> Context \<Rightarrow> NetworkID \<Rightarrow> NodeID \<Rightarrow> uint64 \<Rightarrow> 'd \<Rightarrow> unit result \<times> 'd" where
  "sqDeleteMember db ctx networkID nodeID revision d =
     (case execContext db ctx deleteMemberSQL [Inr (SQLText networkID), Inr (SQLText nodeID), bindUint revision] d of
        (result, d') \<Rightarrow> (mutationResult ctx db result ''members'' ''network_id = ? AND node_id = ?''
          [SQLText networkID, SQLText nodeID] d', d'))"

definition sqUpsertAgentMetadata :: "'d Database \<Rightarrow> Context \<Rightarrow> AgentMetadata \<Rightarrow> 'd \<Rightarrow> unit result \<times> 'd" where
  "sqUpsertAgentMetadata db ctx metadata d = (case AgentMetadata_Validate metadata of Inl e \<Rightarrow> (Inl e, d) | Inr _ \<Rightarrow>
     case wrapErr ''encode agent metadata: %w'' (marshalAgentMetadata metadata) of Inl e \<Rightarrow> (Inl e, d) | Inr document \<Rightarrow>
     let k = [SQLText (agNetworkID metadata), SQLText (agNodeID metadata)] in
     case dbExec db ctx upsertAgentSQL (k @ [SQLBlob document] @ k) d of
       (result, d') \<Rightarrow>
         (rbind (wrapErr ''upsert agent metadata: %w'' result) (\<lambda>rows.
          rbind (wrapErr ''inspect agent metadata upsert: %w'' rows) (\<lambda>affected.
          if affected = 0 then Inl ErrNotFound else Inr ())), d'))"

definition sqGetAgentMetadata :: "'d Database \<Rightarrow> Context \<Rightarrow> NetworkID \<Rightarrow> NodeID \<Rightarrow> 'd \<Rightarrow> AgentMetadata result" where
  "sqGetAgentMetadata db ctx networkID nodeID d =
     (case rbind (queryRow db ctx selectAgentSQL [SQLText networkID, SQLText nodeID] d) scanDocument of
        Inl e \<Rightarrow> if errorsIs e ErrNoRows then Inl ErrNotFound else Inl (Wrap ''get agent metadata: %w'' e)
      | Inr document \<Rightarrow> wrapErr ''decode agent metadata: %w'' (unmarshalAgentMetadata document))"

definition sqliteStore :: "'d Database \<Rightarrow> 'd Store" where
  "sqliteStore db =
     \<lparr> stPing = sqPing db, stCreateNetwork = sqCreateNetwork db, stGetNetwork = sqGetNetwork db,
       stListNetworks = sqListNetworks db, stSaveNetwork = sqSaveNetwork db, stDeleteNetwork = sqDeleteNetwork db,
       stCreateMember = sqCreateMember db, stGetMember = sqGetMember db, stListMembers = sqListMembers db,
       stSaveMember = sqSaveMember db, stDeleteMember = sqDeleteMember db,
       stUpsertAgentMetadata = sqUpsertAgentMetadata db, stGetAgentMetadata = sqGetAgentMetadata db \<rparr>"

section \<open>What the statements do\<close>

record Tables =
  tbNetworks :: "(string, int \<times> RawMessage) fmap"
  tbMembers :: "(string \<times> string, int \<times> RawMessage) fmap"
  tbAgents :: "(string \<times> string, RawMessage) fmap"

text \<open>The statements with their arguments.\<close>

datatype Statement =
    InsertNetwork string int RawMessage
  | SelectNetwork string
  | SelectNetworks
  | UpdateNetwork int RawMessage string int
  | DeleteNetworkRow string int
  | InsertMember string string int RawMessage
  | SelectMember string string
  | SelectMembers string
  | UpdateMemberRow int RawMessage string string int
  | DeleteMemberRow string string int
  | UpsertAgent string string RawMessage
  | SelectAgent string string
  | NetworkExists string
  | MemberExists string string

fun sqlText :: "Statement \<Rightarrow> string" where
  "sqlText (InsertNetwork _ _ _) = insertNetworkSQL"
| "sqlText (SelectNetwork _) = selectNetworkSQL"
| "sqlText (SelectNetworks) = selectNetworksSQL"
| "sqlText (UpdateNetwork _ _ _ _) = updateNetworkSQL"
| "sqlText (DeleteNetworkRow _ _) = deleteNetworkSQL"
| "sqlText (InsertMember _ _ _ _) = insertMemberSQL"
| "sqlText (SelectMember _ _) = selectMemberSQL"
| "sqlText (SelectMembers _) = selectMembersSQL"
| "sqlText (UpdateMemberRow _ _ _ _ _) = updateMemberSQL"
| "sqlText (DeleteMemberRow _ _ _) = deleteMemberSQL"
| "sqlText (UpsertAgent _ _ _) = upsertAgentSQL"
| "sqlText (SelectAgent _ _) = selectAgentSQL"
| "sqlText (NetworkExists _) = networkExistsSQL"
| "sqlText (MemberExists _ _) = memberExistsSQL"

fun sqlArgs :: "Statement \<Rightarrow> sqlValue list" where
  "sqlArgs (InsertNetwork i r j) = [SQLText i, SQLInt r, SQLBlob j]"
| "sqlArgs (SelectNetwork i) = [SQLText i]"
| "sqlArgs (SelectNetworks) = []"
| "sqlArgs (UpdateNetwork r j i e) = [SQLInt r, SQLBlob j, SQLText i, SQLInt e]"
| "sqlArgs (DeleteNetworkRow i e) = [SQLText i, SQLInt e]"
| "sqlArgs (InsertMember i n r j) = [SQLText i, SQLText n, SQLInt r, SQLBlob j]"
| "sqlArgs (SelectMember i n) = [SQLText i, SQLText n]"
| "sqlArgs (SelectMembers i) = [SQLText i]"
| "sqlArgs (UpdateMemberRow r j i n e) = [SQLInt r, SQLBlob j, SQLText i, SQLText n, SQLInt e]"
| "sqlArgs (DeleteMemberRow i n e) = [SQLText i, SQLText n, SQLInt e]"
| "sqlArgs (UpsertAgent i n j) = [SQLText i, SQLText n, SQLBlob j, SQLText i, SQLText n]"
| "sqlArgs (SelectAgent i n) = [SQLText i, SQLText n]"
| "sqlArgs (NetworkExists i) = [SQLText i]"
| "sqlArgs (MemberExists i n) = [SQLText i, SQLText n]"

text \<open>
  The rows a statement changes and the tables after it. The schema has the primary keys, refuses a
  member without its network, and deletes the members of a network and the metadata of a member
  along with them.
\<close>

definition insertRow :: "'k \<Rightarrow> 'v \<Rightarrow> ('k, 'v) fmap \<Rightarrow> int \<times> ('k, 'v) fmap" where
  "insertRow k v m = (if fmlookup m k = None then (1, fmupd k v m) else (0, m))"

text \<open>A row is matched by its key and its revision.\<close>

definition matchRow :: "'k \<Rightarrow> int \<Rightarrow> ('k, int \<times> 'v) fmap \<Rightarrow> bool" where
  "matchRow k e m = (case fmlookup m k of Some (c, _) \<Rightarrow> c = e | None \<Rightarrow> False)"

definition updateRow :: "'k \<Rightarrow> int \<Rightarrow> int \<times> 'v \<Rightarrow> ('k, int \<times> 'v) fmap \<Rightarrow> int \<times> ('k, int \<times> 'v) fmap" where
  "updateRow k e v m = (if matchRow k e m then (1, fmupd k v m) else (0, m))"

fun sqlEffect :: "Statement \<Rightarrow> Tables \<Rightarrow> (int \<times> Tables) option" where
  "sqlEffect (InsertNetwork i r j) t = Some (map_prod id (\<lambda>m. t\<lparr>tbNetworks := m\<rparr>) (insertRow i (r, j) (tbNetworks t)))"
| "sqlEffect (UpdateNetwork r j i e) t = Some (map_prod id (\<lambda>m. t\<lparr>tbNetworks := m\<rparr>) (updateRow i e (r, j) (tbNetworks t)))"
| "sqlEffect (DeleteNetworkRow i e) t = Some (if matchRow i e (tbNetworks t)
     then (1, \<lparr> tbNetworks = fmdrop i (tbNetworks t), tbMembers = fmfilter (\<lambda>k. fst k \<noteq> i) (tbMembers t),
       tbAgents = fmfilter (\<lambda>k. fst k \<noteq> i) (tbAgents t) \<rparr>) else (0, t))"
| "sqlEffect (InsertMember i n r j) t = (if fmlookup (tbNetworks t) i = None then None
     else Some (map_prod id (\<lambda>m. t\<lparr>tbMembers := m\<rparr>) (insertRow (i, n) (r, j) (tbMembers t))))"
| "sqlEffect (UpdateMemberRow r j i n e) t = Some (map_prod id (\<lambda>m. t\<lparr>tbMembers := m\<rparr>) (updateRow (i, n) e (r, j) (tbMembers t)))"
| "sqlEffect (DeleteMemberRow i n e) t = Some (if matchRow (i, n) e (tbMembers t)
     then (1, t\<lparr>tbMembers := fmdrop (i, n) (tbMembers t), tbAgents := fmdrop (i, n) (tbAgents t)\<rparr>) else (0, t))"
| "sqlEffect (UpsertAgent i n j) t = Some (if fmlookup (tbMembers t) (i, n) = None then (0, t)
     else (1, t\<lparr>tbAgents := fmupd (i, n) j (tbAgents t)\<rparr>))"
| "sqlEffect _ t = None"

fun sqlRows :: "Statement \<Rightarrow> Tables \<Rightarrow> sqlValue list list option" where
  "sqlRows (SelectNetwork i) t = Some (case fmlookup (tbNetworks t) i of Some (_, j) \<Rightarrow> [[SQLBlob j]] | None \<Rightarrow> [])"
| "sqlRows SelectNetworks t = Some (map (\<lambda>(i, r, j). [SQLBlob j]) (sorted_list_of_fmap (tbNetworks t)))"
| "sqlRows (SelectMember i n) t = Some (case fmlookup (tbMembers t) (i, n) of Some (_, j) \<Rightarrow> [[SQLBlob j]] | None \<Rightarrow> [])"
| "sqlRows (SelectMembers i) t =
     Some (map (\<lambda>(k, r, j). [SQLBlob j]) (sorted_list_of_fmap (fmfilter (\<lambda>k. fst k = i) (tbMembers t))))"
| "sqlRows (SelectAgent i n) t = Some (case fmlookup (tbAgents t) (i, n) of Some j \<Rightarrow> [[SQLBlob j]] | None \<Rightarrow> [])"
| "sqlRows (NetworkExists i) t = Some [[SQLInt (if fmlookup (tbNetworks t) i = None then 0 else 1)]]"
| "sqlRows (MemberExists i n) t = Some [[SQLInt (if fmlookup (tbMembers t) (i, n) = None then 0 else 1)]]"
| "sqlRows _ t = None"

text \<open>A database that is open and reachable does what the statements say.\<close>

definition sqlite_law :: "'d Database \<Rightarrow> ('d \<Rightarrow> bool) \<Rightarrow> ('d \<Rightarrow> Tables) \<Rightarrow> bool" where
  "sqlite_law db up tables = ((\<forall>st d n t. up d \<longrightarrow> sqlEffect st (tables d) = Some (n, t) \<longrightarrow>
       (\<exists>d'. dbExec db None (sqlText st) (sqlArgs st) d = (Inr (Inr n), d') \<and> up d' \<and> tables d' = t))
     \<and> (\<forall>st d rows. up d \<longrightarrow> sqlRows st (tables d) = Some rows \<longrightarrow>
       dbQuery db None (sqlText st) (sqlArgs st) d = Inr (rows, Inr ())))"

section \<open>The documents in the tables\<close>

definition docAt :: "(RawMessage \<Rightarrow> 'a result) \<Rightarrow> ('k, int \<times> RawMessage) fmap \<Rightarrow> 'k \<Rightarrow> 'a option" where
  "docAt dec m k = (case fmlookup m k of None \<Rightarrow> None | Some (_, j) \<Rightarrow> (case dec j of Inr x \<Rightarrow> Some x | Inl _ \<Rightarrow> None))"

definition tablesAbs :: "Tables \<Rightarrow> AStore" where
  "tablesAbs t = \<lparr> asNetworks = docAt unmarshalNetwork (tbNetworks t), asMembers = docAt unmarshalMember (tbMembers t),
     asMetadata = (\<lambda>k. case fmlookup (tbAgents t) k of None \<Rightarrow> None | Some j \<Rightarrow> (case unmarshalAgentMetadata j of Inr x \<Rightarrow> Some x | Inl _ \<Rightarrow> None)) \<rparr>"

text \<open>Every row decodes, and its revision column is the revision of its document.\<close>

definition rowsOk :: "(RawMessage \<Rightarrow> 'a result) \<Rightarrow> ('a \<Rightarrow> uint64) \<Rightarrow> ('k, int \<times> RawMessage) fmap \<Rightarrow> bool" where
  "rowsOk dec revision m = (\<forall>k r j. fmlookup m k = Some (r, j) \<longrightarrow> (\<exists>x. dec j = Inr x \<and> r = uint (revision x)))"

definition tablesOk :: "Tables \<Rightarrow> bool" where
  "tablesOk t = (wfAStore (tablesAbs t) \<and> rowsOk unmarshalNetwork nwRevision (tbNetworks t) \<and> rowsOk unmarshalMember mbRevision (tbMembers t)
     \<and> (\<forall>k j. fmlookup (tbAgents t) k = Some j \<longrightarrow> (\<exists>x. unmarshalAgentMetadata j = Inr x)))"

fun storableCall :: "StoreCall \<Rightarrow> bool" where
  "storableCall (CallCreateNetwork n) = (storableNetwork n \<and> isOk (marshalNetwork n))"
| "storableCall (CallSaveNetwork n) = (storableNetwork n \<and> isOk (marshalNetwork n) \<and> uint (nwRevision n) + 1 < 2 ^ 63)"
| "storableCall (CallDeleteNetwork i r) = (uint r < 2 ^ 63)"
| "storableCall (CallCreateMember m) = (storableMember m \<and> isOk (marshalMember m))"
| "storableCall (CallSaveMember m) = (storableMember m \<and> isOk (marshalMember m) \<and> uint (mbRevision m) + 1 < 2 ^ 63)"
| "storableCall (CallDeleteMember i j r) = (uint r < 2 ^ 63)"
| "storableCall (CallUpsertAgentMetadata a) = (storableAgent a \<and> isOk (marshalAgentMetadata a))"

lemma rowsOkD: "rowsOk dec revision m \<Longrightarrow> fmlookup m k = Some (r, j) \<Longrightarrow> \<exists>x. dec j = Inr x \<and> r = uint (revision x) \<and> docAt dec m k = Some x"
  by (fastforce simp: rowsOk_def docAt_def)

lemma docAt_None: "rowsOk dec revision m \<Longrightarrow> docAt dec m k = None \<longleftrightarrow> fmlookup m k = None"
  by (fastforce simp: rowsOk_def docAt_def split: option.splits sum.splits)

lemma docAt_upd: "dec j = Inr x \<Longrightarrow> docAt dec (fmupd k (r, j) m) = (docAt dec m)(k \<mapsto> x)"
  by (auto simp: docAt_def)

lemma rowsOk_upd: "rowsOk dec revision m \<Longrightarrow> dec j = Inr x \<Longrightarrow> rowsOk dec revision (fmupd k (uint (revision x), j) m)"
  by (auto simp: rowsOk_def)

lemma docAt_filter: "docAt dec (fmfilter P m) = (\<lambda>k. if P k then docAt dec m k else None)" "docAt dec (fmdrop k m) = (docAt dec m)(k := None)"
  by (auto simp: docAt_def)

lemma rowsOk_filter: "rowsOk dec revision m \<Longrightarrow> rowsOk dec revision (fmfilter P m)" "rowsOk dec revision m \<Longrightarrow> rowsOk dec revision (fmdrop k m)"
  by (auto simp: rowsOk_def split: if_splits)

lemma marshalNetwork_revision: "isOk (marshalNetwork n) \<Longrightarrow> isOk (marshalNetwork (n\<lparr>nwRevision := r\<rparr>))"
  "storableNetwork (n\<lparr>nwRevision := r\<rparr>) = storableNetwork n"
  by (auto simp: marshalNetwork_def storableNetwork_def rbind_def split: sum.splits)

lemma marshalMember_revision: "isOk (marshalMember m) \<Longrightarrow> isOk (marshalMember (m\<lparr>mbRevision := r\<rparr>))"
  "storableMember (m\<lparr>mbRevision := r\<rparr>) = storableMember m"
  by (auto simp: marshalMember_def storableMember_def rbind_def split: sum.splits)

lemma encoded_network:
  assumes "storableNetwork n" "isOk (marshalNetwork n)"
  shows "\<exists>j. marshalNetwork (n\<lparr>nwRevision := r\<rparr>) = Inr j \<and> unmarshalNetwork j = Inr (n\<lparr>nwRevision := r\<rparr>)"
  using assms marshalNetwork_revision [where n = n and r = r] network_roundtrip [of "n\<lparr>nwRevision := r\<rparr>"] by (auto simp: isOk_def split: sum.splits)

lemma encoded_member:
  assumes "storableMember m" "isOk (marshalMember m)"
  shows "\<exists>j. marshalMember (m\<lparr>mbRevision := r\<rparr>) = Inr j \<and> unmarshalMember j = Inr (m\<lparr>mbRevision := r\<rparr>)"
  using assms marshalMember_revision [where m = m and r = r] member_roundtrip [of "m\<lparr>mbRevision := r\<rparr>"] by (auto simp: isOk_def split: sum.splits)

section \<open>Statements on a database\<close>

lemma exec_law:
  assumes "sqlite_law db up tables" "up d" "sqlEffect st (tables d) = Some (n, t)"
  obtains d' where "dbExec db None (sqlText st) (sqlArgs st) d = (Inr (Inr n), d')" "up d'" "tables d' = t"
  using assms unfolding sqlite_law_def by blast

lemma query_law:
  assumes "sqlite_law db up tables" "up d" "sqlRows st (tables d) = Some rows"
  shows "dbQuery db None (sqlText st) (sqlArgs st) d = Inr (rows, Inr ())"
  using assms unfolding sqlite_law_def by blast

lemma rowExists_law:
  assumes "sqlite_law db up tables" "up d"
  shows "rowExists db None ''networks'' ''id = ?'' [SQLText i] d = Inr (fmlookup (tbNetworks (tables d)) i \<noteq> None)"
    "rowExists db None ''members'' ''network_id = ? AND node_id = ?'' [SQLText i, SQLText n] d = Inr (fmlookup (tbMembers (tables d)) (i, n) \<noteq> None)"
  using query_law [OF assms, of "NetworkExists i"] query_law [OF assms, of "MemberExists i n"]
  by (simp_all add: rowExists_def queryRow_def networkExistsSQL_def memberExistsSQL_def)

lemma bindUint_small: "uint v < 2 ^ 63 \<Longrightarrow> bindUint v = Inr (SQLInt (uint v))"
  by (simp add: bindUint_def)

section \<open>Every call refines the abstract store\<close>

lemma tablesAbs_sel [simp]:
  "asNetworks (tablesAbs t) = docAt unmarshalNetwork (tbNetworks t)" "asMembers (tablesAbs t) = docAt unmarshalMember (tbMembers t)"
  by (simp_all add: tablesAbs_def)

text \<open>What a mutation must show of the tables it leaves.\<close>

definition refinesTo :: "Tables \<Rightarrow> unit result \<times> AStore \<Rightarrow> unit result \<Rightarrow> bool" where
  "refinesTo t ra r = (tablesOk t \<and> ra = (r, tablesAbs t))"

lemma tablesOkD:
  assumes "tablesOk t"
  shows "wfAStore (tablesAbs t)" "rowsOk unmarshalNetwork nwRevision (tbNetworks t)" "rowsOk unmarshalMember mbRevision (tbMembers t)"
    "fmlookup (tbAgents t) k = Some j \<Longrightarrow> \<exists>x. unmarshalAgentMetadata j = Inr x"
  using assms unfolding tablesOk_def by blast+

lemma uint_eq_iff: "(uint v = uint w) = (v = w)" for v w :: uint64
  by (simp add: word_uint_eq_iff)

lemma mutation_law:
  assumes "sqlite_law db up tables" "up d"
  shows "mutationResult None db (Inr (Inr k)) ''networks'' ''id = ?'' [SQLText i] d
      = (if k \<noteq> 0 then Inr () else if fmlookup (tbNetworks (tables d)) i = None then Inl ErrNotFound else Inl ErrConflict)"
    "mutationResult None db (Inr (Inr k)) ''members'' ''network_id = ? AND node_id = ?'' [SQLText i, SQLText n] d
      = (if k \<noteq> 0 then Inr () else if fmlookup (tbMembers (tables d)) (i, n) = None then Inl ErrNotFound else Inl ErrConflict)"
  using rowExists_law [OF assms] by (auto simp: mutationResult_def)

lemma uint_succ: "uint (v :: uint64) + 1 < 2 ^ 63 \<Longrightarrow> uint v < 2 ^ 63 \<and> uint (v + 1) < 2 ^ 63 \<and> uint (v + 1) = uint v + 1"
  using uint_nonnegative [of v] by (simp add: uint_word_ariths mod_pos_pos_trivial)

text \<open>Rows and documents.\<close>

lemma insertRow_docAt:
  assumes "rowsOk dec revision m" "dec j = Inr x" "insertRow k (uint (revision x), j) m = (c, m')"
  shows "rowsOk dec revision m'" "docAt dec m k = None \<Longrightarrow> c = 1 \<and> docAt dec m' = (docAt dec m)(k \<mapsto> x)"
    "docAt dec m k \<noteq> None \<Longrightarrow> c = 0 \<and> m' = m"
  using assms rowsOk_upd [OF assms(1,2), of k] docAt_upd [of dec j x k "uint (revision x)" m] docAt_None [OF assms(1), of k]
  by (auto simp: insertRow_def split: if_splits)

lemma matchRow_docAt:
  assumes "rowsOk dec revision m"
  shows "matchRow k (uint v) m \<longleftrightarrow> (\<exists>x. docAt dec m k = Some x \<and> revision x = v)"
proof (cases "fmlookup m k")
  case (Some p)
  then obtain r j where p: "fmlookup m k = Some (r, j)" by (cases p) auto
  from rowsOkD [OF assms this] p show ?thesis by (auto simp: matchRow_def uint_eq_iff)
qed (simp add: matchRow_def docAt_def)

lemma updateRow_docAt:
  assumes "rowsOk dec revision m" "dec j = Inr x" "updateRow k (uint v) (uint (revision x), j) m = (c, m')"
  shows "rowsOk dec revision m'" "docAt dec m k = Some y \<Longrightarrow> revision y = v \<Longrightarrow> c = 1 \<and> docAt dec m' = (docAt dec m)(k \<mapsto> x)"
    "(\<And>y. docAt dec m k = Some y \<Longrightarrow> revision y \<noteq> v) \<Longrightarrow> c = 0 \<and> m' = m"
  using assms rowsOk_upd [OF assms(1,2), of k] docAt_upd [of dec j x k "uint (revision x)" m] matchRow_docAt [OF assms(1), of k v]
  by (auto simp: updateRow_def split: if_splits)

text \<open>The tables after a mutation hold the documents the abstract call gives.\<close>

lemma refinesTo_networks:
  assumes "tablesOk t" "rowsOk unmarshalNetwork nwRevision m" "wfAStore a" "a = (tablesAbs t)\<lparr>asNetworks := docAt unmarshalNetwork m\<rparr>"
  shows "refinesTo (t\<lparr>tbNetworks := m\<rparr>) (r, a) r"
  using assms tablesOkD [OF assms(1)] by (simp add: refinesTo_def tablesOk_def tablesAbs_def)

lemma refinesTo_members:
  assumes "tablesOk t" "rowsOk unmarshalMember mbRevision m" "wfAStore a" "a = (tablesAbs t)\<lparr>asMembers := docAt unmarshalMember m\<rparr>"
  shows "refinesTo (t\<lparr>tbMembers := m\<rparr>) (r, a) r"
  using assms tablesOkD [OF assms(1)] by (simp add: refinesTo_def tablesOk_def tablesAbs_def)

lemma create_network_refines:
  assumes "sqlite_law db up tables" "up d" "tablesOk (tables d)" "storableCall (CallCreateNetwork n)" "sqCreateNetwork db None n d = (r, d')"
  shows "up d' \<and> refinesTo (tables d') (aCreateNetwork n (tablesAbs (tables d))) r"
proof (cases "Network_Validate n")
  case (Inl e)
  then have "r = Inl e" "d' = d" using assms(5) by (simp_all add: sqCreateNetwork_def)
  then show ?thesis using Inl assms(2,3) by (simp add: aCreateNetwork_def refinesTo_def)
next
  case (Inr u)
  note ok = tablesOkD [OF assms(3)]
  let ?x = "n\<lparr>nwRevision := 1\<rparr>" and ?t = "tables d"
  obtain j where j: "marshalNetwork ?x = Inr j" "unmarshalNetwork j = Inr ?x" using encoded_network [of n 1] assms(4) by auto
  obtain k m where km: "insertRow (nwID n) (uint (nwRevision ?x), j) (tbNetworks ?t) = (k, m)" by force
  let ?st = "InsertNetwork (nwID n) 1 j"
  obtain d1 where d1: "dbExec db None (sqlText ?st) (sqlArgs ?st) d = (Inr (Inr k), d1)" "up d1" "tables d1 = ?t\<lparr>tbNetworks := m\<rparr>"
    by (rule exec_law [OF assms(1,2), of ?st]) (use km in auto)
  have r: "r = (if k = 0 then Inl ErrAlreadyExists else Inr ())" "d' = d1"
    using assms(5) Inr j d1(1) by (simp_all add: sqCreateNetwork_def Let_def execContext_def bindUint_def creationResult_def)
  note I = insertRow_docAt [OF ok(2) j(2) km]
  have wf: "wfAStore (snd (aCreateNetwork n (tablesAbs ?t)))" by (rule aCreateNetwork_wf [OF ok(1)])
  show ?thesis
    using I r d1 wf Inr assms(3) refinesTo_networks [OF assms(3) I(1), of "snd (aCreateNetwork n (tablesAbs ?t))" r]
    by (cases "docAt unmarshalNetwork (tbNetworks ?t) (nwID n)") (simp_all add: aCreateNetwork_def refinesTo_def)
qed

lemma save_network_refines:
  assumes "sqlite_law db up tables" "up d" "tablesOk (tables d)" "storableCall (CallSaveNetwork n)" "sqSaveNetwork db None n d = (r, d')"
  shows "up d' \<and> refinesTo (tables d') (aSaveNetwork n (tablesAbs (tables d))) r"
proof (cases "Network_Validate n")
  case (Inl e)
  then have "r = Inl e" "d' = d" using assms(5) by (simp_all add: sqSaveNetwork_def)
  then show ?thesis using Inl assms(2,3) by (simp add: aSaveNetwork_def refinesTo_def)
next
  case (Inr u)
  note ok = tablesOkD [OF assms(3)]
  let ?x = "n\<lparr>nwRevision := nwRevision n + 1\<rparr>" and ?t = "tables d"
  obtain j where j: "marshalNetwork ?x = Inr j" "unmarshalNetwork j = Inr ?x" using encoded_network [of n "nwRevision n + 1"] assms(4) by auto
  have u: "uint (nwRevision n) < 2 ^ 63" "uint (nwRevision n + 1) < 2 ^ 63" using uint_succ assms(4) by auto
  obtain k m where km: "updateRow (nwID n) (uint (nwRevision n)) (uint (nwRevision ?x), j) (tbNetworks ?t) = (k, m)" by force
  let ?st = "UpdateNetwork (uint (nwRevision ?x)) j (nwID n) (uint (nwRevision n))"
  obtain d1 where d1: "dbExec db None (sqlText ?st) (sqlArgs ?st) d = (Inr (Inr k), d1)" "up d1" "tables d1 = ?t\<lparr>tbNetworks := m\<rparr>"
    by (rule exec_law [OF assms(1,2), of ?st]) (use km in auto)
  note I = updateRow_docAt [OF ok(2) j(2) km]
  have "sqSaveNetwork db None n d = (if k \<noteq> 0 then Inr () else if fmlookup m (nwID n) = None then Inl ErrNotFound else Inl ErrConflict, d1)"
    using Inr j d1 mutation_law(1) [OF assms(1) d1(2)] u by (simp add: sqSaveNetwork_def Let_def execContext_def bindUint_small)
  then have r: "r = (if k \<noteq> 0 then Inr () else if docAt unmarshalNetwork m (nwID n) = None then Inl ErrNotFound else Inl ErrConflict)" "d' = d1"
    using assms(5) docAt_None [OF I(1), of "nwID n"] by auto
  have wf: "wfAStore (snd (aSaveNetwork n (tablesAbs ?t)))" by (rule aSaveNetwork_wf [OF ok(1)])
  show ?thesis
  proof (cases "\<exists>y. docAt unmarshalNetwork (tbNetworks ?t) (nwID n) = Some y \<and> nwRevision y = nwRevision n")
    case True
    then obtain y where y: "docAt unmarshalNetwork (tbNetworks ?t) (nwID n) = Some y" "nwRevision y = nwRevision n" by blast
    show ?thesis using I(2) [OF y] r d1 wf Inr y refinesTo_networks [OF assms(3) I(1), of "snd (aSaveNetwork n (tablesAbs ?t))" r]
      by (simp add: aSaveNetwork_def)
  next
    case False
    with I(3) have "k = 0" "m = tbNetworks ?t" by blast+
    then show ?thesis using r d1 Inr False assms(3)
      by (cases "docAt unmarshalNetwork (tbNetworks ?t) (nwID n)") (auto simp: aSaveNetwork_def refinesTo_def)
  qed
qed

lemma delete_network_refines:
  assumes "sqlite_law db up tables" "up d" "tablesOk (tables d)" "storableCall (CallDeleteNetwork i v)" "sqDeleteNetwork db None i v d = (r, d')"
  shows "up d' \<and> refinesTo (tables d') (aDeleteNetwork i v (tablesAbs (tables d))) r"
proof -
  note ok = tablesOkD [OF assms(3)]
  let ?t = "tables d" and ?st = "DeleteNetworkRow i (uint v)"
  obtain k t where e: "sqlEffect ?st ?t = Some (k, t)" by (cases "sqlEffect ?st ?t") auto
  obtain d1 where d1: "dbExec db None (sqlText ?st) (sqlArgs ?st) d = (Inr (Inr k), d1)" "up d1" "tables d1 = t"
    by (rule exec_law [OF assms(1,2) e])
  have "sqDeleteNetwork db None i v d = (if k \<noteq> 0 then Inr () else if fmlookup (tbNetworks t) i = None then Inl ErrNotFound else Inl ErrConflict, d1)"
    using assms(4) d1 mutation_law(1) [OF assms(1) d1(2)] by (simp add: sqDeleteNetwork_def execContext_def bindUint_small)
  then have r: "r = (if k \<noteq> 0 then Inr () else if fmlookup (tbNetworks t) i = None then Inl ErrNotFound else Inl ErrConflict)" "d' = d1"
    using assms(5) by simp_all
  note M = matchRow_docAt [OF ok(2), of i v] and N = docAt_None [OF ok(2), of i]
  have wf: "wfAStore (snd (aDeleteNetwork i v (tablesAbs ?t)))" by (rule aDeleteNetwork_wf [OF ok(1)])
  show ?thesis
  proof (cases "matchRow i (uint v) (tbNetworks ?t)")
    case True
    then have t: "k = 1" "t = \<lparr> tbNetworks = fmdrop i (tbNetworks ?t), tbMembers = fmfilter (\<lambda>k. fst k \<noteq> i) (tbMembers ?t),
        tbAgents = fmfilter (\<lambda>k. fst k \<noteq> i) (tbAgents ?t) \<rparr>" using e by auto
    have a: "aDeleteNetwork i v (tablesAbs ?t) = (Inr (), tablesAbs t)"
      using M True by (auto simp: aDeleteNetwork_def t tablesAbs_def docAt_filter fun_eq_iff)
    moreover have "tablesOk t"
      using wf a rowsOk_filter(2) [OF ok(2), of i] rowsOk_filter(1) [OF ok(3)] ok(4) by (auto simp: tablesOk_def t split: if_splits)
    ultimately show ?thesis using r d1 t by (simp add: refinesTo_def)
  next
    case False
    then show ?thesis using r d1 e assms(3) M N
      by (cases "docAt unmarshalNetwork (tbNetworks ?t) i") (auto simp: refinesTo_def aDeleteNetwork_def)
  qed
qed

lemma create_member_refines:
  assumes "sqlite_law db up tables" "up d" "tablesOk (tables d)" "storableCall (CallCreateMember n)" "sqCreateMember db None n d = (r, d')"
  shows "up d' \<and> refinesTo (tables d') (aCreateMember n (tablesAbs (tables d))) r"
proof -
  note ok = tablesOkD [OF assms(3)]
  let ?x = "n\<lparr>mbRevision := 1\<rparr>" and ?t = "tables d" and ?k = "(mbNetworkID n, mbNodeID n)"
  note ex = rowExists_law(1) [OF assms(1,2), of "mbNetworkID n"] and N = docAt_None [OF ok(2), of "mbNetworkID n"]
  consider e where "Member_Validate n = Inl e" | u where "Member_Validate n = Inr u" "fmlookup (tbNetworks ?t) (mbNetworkID n) = None"
    | u where "Member_Validate n = Inr u" "fmlookup (tbNetworks ?t) (mbNetworkID n) \<noteq> None" by (metis sum.exhaust)
  then show ?thesis
  proof cases
    case 1
    then have "r = Inl e" "d' = d" using assms(5) by (simp_all add: sqCreateMember_def)
    then show ?thesis using 1 assms(2,3) by (simp add: aCreateMember_def refinesTo_def)
  next
    case 2
    then have "r = Inl ErrNotFound" "d' = d" using assms(5) ex by (simp_all add: sqCreateMember_def)
    then show ?thesis using 2 N assms(2,3) by (simp add: aCreateMember_def refinesTo_def)
  next
    case 3
    obtain j where j: "marshalMember ?x = Inr j" "unmarshalMember j = Inr ?x" using encoded_member [of n 1] assms(4) by auto
    obtain k m where km: "insertRow ?k (uint (mbRevision ?x), j) (tbMembers ?t) = (k, m)" by force
    let ?st = "InsertMember (mbNetworkID n) (mbNodeID n) 1 j"
    obtain d1 where d1: "dbExec db None (sqlText ?st) (sqlArgs ?st) d = (Inr (Inr k), d1)" "up d1" "tables d1 = ?t\<lparr>tbMembers := m\<rparr>"
      by (rule exec_law [OF assms(1,2), of ?st]) (use km 3 in auto)
    have r: "r = (if k = 0 then Inl ErrAlreadyExists else Inr ())" "d' = d1"
      using assms(5) 3 ex j d1(1) by (auto simp: sqCreateMember_def Let_def execContext_def bindUint_def creationResult_def)
    note I = insertRow_docAt [OF ok(3) j(2) km]
    have wf: "wfAStore (snd (aCreateMember n (tablesAbs ?t)))" by (rule aCreateMember_wf [OF ok(1)])
    show ?thesis
      using I r d1 wf 3 N assms(3) refinesTo_members [OF assms(3) I(1), of "snd (aCreateMember n (tablesAbs ?t))" r]
      by (cases "docAt unmarshalMember (tbMembers ?t) ?k") (auto simp: aCreateMember_def refinesTo_def)
  qed
qed

lemma save_member_refines:
  assumes "sqlite_law db up tables" "up d" "tablesOk (tables d)" "storableCall (CallSaveMember n)" "sqSaveMember db None n d = (r, d')"
  shows "up d' \<and> refinesTo (tables d') (aSaveMember n (tablesAbs (tables d))) r"
proof (cases "Member_Validate n")
  case (Inl e)
  then have "r = Inl e" "d' = d" using assms(5) by (simp_all add: sqSaveMember_def)
  then show ?thesis using Inl assms(2,3) by (simp add: aSaveMember_def refinesTo_def)
next
  case (Inr u)
  note ok = tablesOkD [OF assms(3)]
  let ?x = "n\<lparr>mbRevision := mbRevision n + 1\<rparr>" and ?t = "tables d" and ?k = "(mbNetworkID n, mbNodeID n)"
  obtain j where j: "marshalMember ?x = Inr j" "unmarshalMember j = Inr ?x" using encoded_member [of n "mbRevision n + 1"] assms(4) by auto
  have u: "uint (mbRevision n) < 2 ^ 63" "uint (mbRevision n + 1) < 2 ^ 63" using uint_succ assms(4) by auto
  obtain k m where km: "updateRow ?k (uint (mbRevision n)) (uint (mbRevision ?x), j) (tbMembers ?t) = (k, m)" by force
  let ?st = "UpdateMemberRow (uint (mbRevision ?x)) j (mbNetworkID n) (mbNodeID n) (uint (mbRevision n))"
  obtain d1 where d1: "dbExec db None (sqlText ?st) (sqlArgs ?st) d = (Inr (Inr k), d1)" "up d1" "tables d1 = ?t\<lparr>tbMembers := m\<rparr>"
    by (rule exec_law [OF assms(1,2), of ?st]) (use km in auto)
  note I = updateRow_docAt [OF ok(3) j(2) km]
  have "sqSaveMember db None n d = (if k \<noteq> 0 then Inr () else if fmlookup m ?k = None then Inl ErrNotFound else Inl ErrConflict, d1)"
    using Inr j d1 mutation_law(2) [OF assms(1) d1(2)] u by (simp add: sqSaveMember_def Let_def execContext_def bindUint_small)
  then have r: "r = (if k \<noteq> 0 then Inr () else if docAt unmarshalMember m ?k = None then Inl ErrNotFound else Inl ErrConflict)" "d' = d1"
    using assms(5) docAt_None [OF I(1), of ?k] by auto
  have wf: "wfAStore (snd (aSaveMember n (tablesAbs ?t)))" by (rule aSaveMember_wf [OF ok(1)])
  show ?thesis
  proof (cases "\<exists>y. docAt unmarshalMember (tbMembers ?t) ?k = Some y \<and> mbRevision y = mbRevision n")
    case True
    then obtain y where y: "docAt unmarshalMember (tbMembers ?t) ?k = Some y" "mbRevision y = mbRevision n" by blast
    show ?thesis using I(2) [OF y] r d1 wf Inr y refinesTo_members [OF assms(3) I(1), of "snd (aSaveMember n (tablesAbs ?t))" r]
      by (simp add: aSaveMember_def)
  next
    case False
    with I(3) have "k = 0" "m = tbMembers ?t" by blast+
    then show ?thesis using r d1 Inr False assms(3)
      by (cases "docAt unmarshalMember (tbMembers ?t) ?k") (auto simp: aSaveMember_def refinesTo_def)
  qed
qed

lemma delete_member_refines:
  assumes "sqlite_law db up tables" "up d" "tablesOk (tables d)" "storableCall (CallDeleteMember i n v)" "sqDeleteMember db None i n v d = (r, d')"
  shows "up d' \<and> refinesTo (tables d') (aDeleteMember i n v (tablesAbs (tables d))) r"
proof -
  note ok = tablesOkD [OF assms(3)]
  let ?t = "tables d" and ?st = "DeleteMemberRow i n (uint v)"
  obtain k t where e: "sqlEffect ?st ?t = Some (k, t)" by (cases "sqlEffect ?st ?t") auto
  obtain d1 where d1: "dbExec db None (sqlText ?st) (sqlArgs ?st) d = (Inr (Inr k), d1)" "up d1" "tables d1 = t"
    by (rule exec_law [OF assms(1,2) e])
  have "sqDeleteMember db None i n v d = (if k \<noteq> 0 then Inr () else if fmlookup (tbMembers t) (i, n) = None then Inl ErrNotFound else Inl ErrConflict, d1)"
    using assms(4) d1 mutation_law(2) [OF assms(1) d1(2)] by (simp add: sqDeleteMember_def execContext_def bindUint_small)
  then have r: "r = (if k \<noteq> 0 then Inr () else if fmlookup (tbMembers t) (i, n) = None then Inl ErrNotFound else Inl ErrConflict)" "d' = d1"
    using assms(5) by simp_all
  note M = matchRow_docAt [OF ok(3), of "(i, n)" v] and N = docAt_None [OF ok(3), of "(i, n)"]
  have wf: "wfAStore (snd (aDeleteMember i n v (tablesAbs ?t)))" by (rule aDeleteMember_wf [OF ok(1)])
  show ?thesis
  proof (cases "matchRow (i, n) (uint v) (tbMembers ?t)")
    case True
    then have t: "k = 1" "t = ?t\<lparr>tbMembers := fmdrop (i, n) (tbMembers ?t), tbAgents := fmdrop (i, n) (tbAgents ?t)\<rparr>" using e by auto
    have a: "aDeleteMember i n v (tablesAbs ?t) = (Inr (), tablesAbs t)"
      using M True by (auto simp: aDeleteMember_def t tablesAbs_def docAt_filter fun_eq_iff)
    moreover have "tablesOk t"
      using wf a rowsOk_filter(2) [OF ok(3)] ok(2,4) by (auto simp: tablesOk_def t split: if_splits)
    ultimately show ?thesis using r d1 t by (simp add: refinesTo_def)
  next
    case False
    then show ?thesis using r d1 e assms(3) M N
      by (cases "docAt unmarshalMember (tbMembers ?t) (i, n)") (auto simp: refinesTo_def aDeleteMember_def)
  qed
qed

lemma upsert_agent_refines:
  assumes "sqlite_law db up tables" "up d" "tablesOk (tables d)" "storableCall (CallUpsertAgentMetadata a)"
    and "sqUpsertAgentMetadata db None a d = (r, d')"
  shows "up d' \<and> refinesTo (tables d') (aUpsertAgentMetadata a (tablesAbs (tables d))) r"
proof (cases "AgentMetadata_Validate a")
  case (Inl e)
  then have "r = Inl e" "d' = d" using assms(5) by (simp_all add: sqUpsertAgentMetadata_def)
  then show ?thesis using Inl assms(2,3) by (simp add: aUpsertAgentMetadata_def refinesTo_def)
next
  case (Inr u)
  note ok = tablesOkD [OF assms(3)]
  let ?t = "tables d" and ?k = "(agNetworkID a, agNodeID a)"
  obtain j where j: "marshalAgentMetadata a = Inr j" "unmarshalAgentMetadata j = Inr a"
    using assms(4) agent_roundtrip [of a] by (auto simp: isOk_def split: sum.splits)
  let ?st = "UpsertAgent (agNetworkID a) (agNodeID a) j"
  obtain k t where e: "sqlEffect ?st ?t = Some (k, t)" by (cases "sqlEffect ?st ?t") auto
  obtain d1 where d1: "dbExec db None (sqlText ?st) (sqlArgs ?st) d = (Inr (Inr k), d1)" "up d1" "tables d1 = t"
    by (rule exec_law [OF assms(1,2) e])
  have r: "r = (if k = 0 then Inl ErrNotFound else Inr ())" "d' = d1"
    using assms(5) Inr j d1(1) by (simp_all add: sqUpsertAgentMetadata_def Let_def)
  note N = docAt_None [OF ok(3), of ?k]
  have wf: "wfAStore (snd (aUpsertAgentMetadata a (tablesAbs ?t)))" by (rule aUpsertAgentMetadata_wf [OF ok(1)])
  show ?thesis
  proof (cases "fmlookup (tbMembers ?t) ?k")
    case None
    then show ?thesis using r d1 e N Inr assms(3) by (simp add: refinesTo_def aUpsertAgentMetadata_def)
  next
    case (Some x)
    then have t: "k = 1" "t = ?t\<lparr>tbAgents := fmupd ?k j (tbAgents ?t)\<rparr>" using e by auto
    have "aUpsertAgentMetadata a (tablesAbs ?t) = (Inr (), tablesAbs t)"
      using Inr Some N j(2) by (auto simp: aUpsertAgentMetadata_def t tablesAbs_def fun_eq_iff)
    moreover from this have "tablesOk t" using wf ok j(2) by (auto simp: tablesOk_def t split: if_splits)
    ultimately show ?thesis using r d1 t by (simp add: refinesTo_def)
  qed
qed

lemma call_refines_sqlite:
  assumes "sqlite_law db up tables" "up d" "tablesOk (tables d)" "storableCall c" "storeCall (sqliteStore db) None c d = (r, d')"
  shows "up d' \<and> refinesTo (tables d') (aCall c (tablesAbs (tables d))) r"
proof (cases c)
  case (CallCreateNetwork n)
  then show ?thesis using create_network_refines [OF assms(1-3), of n r d'] assms(4,5) by (simp add: sqliteStore_def)
next
  case (CallSaveNetwork n)
  then show ?thesis using save_network_refines [OF assms(1-3), of n r d'] assms(4,5) by (simp add: sqliteStore_def)
next
  case (CallDeleteNetwork i v)
  then show ?thesis using delete_network_refines [OF assms(1-3), of i v r d'] assms(4,5) by (simp add: sqliteStore_def)
next
  case (CallCreateMember m)
  then show ?thesis using create_member_refines [OF assms(1-3), of m r d'] assms(4,5) by (simp add: sqliteStore_def)
next
  case (CallSaveMember m)
  then show ?thesis using save_member_refines [OF assms(1-3), of m r d'] assms(4,5) by (simp add: sqliteStore_def)
next
  case (CallDeleteMember i j v)
  then show ?thesis using delete_member_refines [OF assms(1-3), of i j v r d'] assms(4,5) by (simp add: sqliteStore_def)
next
  case (CallUpsertAgentMetadata a)
  then show ?thesis using upsert_agent_refines [OF assms(1-3), of a r d'] assms(4,5) by (simp add: sqliteStore_def)
qed

section \<open>Reads\<close>

lemma mapM_map_ok: "(\<And>k. k \<in> set ks \<Longrightarrow> f (g k) = Inr (h k)) \<Longrightarrow> mapM f (map g ks) = Inr (map h ks)"
  by (induction ks) auto

text \<open>The loop over the rows of a table ordered by key.\<close>

lemma rows_decoded:
  fixes m :: "('k::linorder, int \<times> RawMessage) fmap"
  assumes "rowsOk dec revision m"
  shows "mapM (\<lambda>row. rbind (wrapErr e1 (scanDocument row)) (\<lambda>document. wrapErr e2 (dec document)))
      (map (\<lambda>(k, r, j). [SQLBlob j]) (sorted_list_of_fmap m)) = Inr (map (\<lambda>k. the (docAt dec m k)) (sorted_list_of_fset (fmdom m)))"
proof -
  have "\<exists>r j. fmlookup m k = Some (r, j) \<and> dec j = Inr (the (docAt dec m k))" if "k |\<in>| fmdom m" for k
  proof -
    from that obtain r j where "fmlookup m k = Some (r, j)" by (auto simp: fmlookup_dom_iff)
    with rowsOkD [OF assms this] show ?thesis by auto
  qed
  then show ?thesis unfolding sorted_list_of_fmap_def map_map by (intro mapM_map_ok) fastforce
qed

lemma docAt_dom: "rowsOk dec revision m \<Longrightarrow> {k. docAt dec m k \<noteq> None} = fset (fmdom m)"
  by (auto simp: docAt_None fmlookup_dom_iff)

lemma get_row:
  assumes "rowsOk dec revision m"
  shows "(case rbind (case (case fmlookup m k of Some (r, j) \<Rightarrow> [[SQLBlob j]] | None \<Rightarrow> []) of row # _ \<Rightarrow> Inr row | [] \<Rightarrow> Inl ErrNoRows) scanDocument of
      Inl e \<Rightarrow> if errorsIs e ErrNoRows then Inl ErrNotFound else Inl (Wrap e1 e)
    | Inr document \<Rightarrow> wrapErr e2 (dec document)) = found (docAt dec m k)"
proof (cases "fmlookup m k")
  case (Some p)
  then obtain r j where "fmlookup m k = Some (r, j)" by (cases p) auto
  with rowsOkD [OF assms this] show ?thesis by auto
qed (simp add: docAt_def ErrNoRows_def)

lemma queryRow_law:
  assumes "sqlite_law db up tables" "up d" "sqlRows st (tables d) = Some rows"
  shows "queryRow db None (sqlText st) (sqlArgs st) d = (case rows of row # _ \<Rightarrow> Inr row | [] \<Rightarrow> Inl ErrNoRows)"
  using query_law [OF assms] by (simp add: queryRow_def split: list.splits)

lemma sqlite_gets:
  assumes "sqlite_law db up tables" "up d" "tablesOk (tables d)"
  shows "sqGetNetwork db None i d = found (asNetworks (tablesAbs (tables d)) i)"
    "sqGetMember db None i n d = found (asMembers (tablesAbs (tables d)) (i, n))"
    "sqGetAgentMetadata db None i n d = found (asMetadata (tablesAbs (tables d)) (i, n))"
proof -
  note ok = tablesOkD [OF assms(3)]
  show "sqGetNetwork db None i d = found (asNetworks (tablesAbs (tables d)) i)"
    using get_row [OF ok(2), where k = i] queryRow_law [OF assms(1,2), of "SelectNetwork i"] by (simp add: sqGetNetwork_def)
  show "sqGetMember db None i n d = found (asMembers (tablesAbs (tables d)) (i, n))"
    using get_row [OF ok(3), where k = "(i, n)"] queryRow_law [OF assms(1,2), of "SelectMember i n"] by (simp add: sqGetMember_def)
  show "sqGetAgentMetadata db None i n d = found (asMetadata (tablesAbs (tables d)) (i, n))"
    using ok(4) [of "(i, n)"] queryRow_law [OF assms(1,2), of "SelectAgent i n"]
    by (cases "fmlookup (tbAgents (tables d)) (i, n)") (auto simp: sqGetAgentMetadata_def tablesAbs_def ErrNoRows_def)
qed

lemma sqlite_list_networks:
  assumes "sqlite_law db up tables" "up d" "tablesOk (tables d)"
  shows "\<exists>ns. sqListNetworks db None d = Inr ns \<and> sorted (map nwID ns) \<and> distinct (map nwID ns) \<and> set ns = ran (asNetworks (tablesAbs (tables d)))"
proof -
  note ok = tablesOkD [OF assms(3)]
  let ?m = "tbNetworks (tables d)" and ?ns = "map (\<lambda>k. the (docAt unmarshalNetwork (tbNetworks (tables d)) k)) (sorted_list_of_fset (fmdom (tbNetworks (tables d))))"
  have l: "sqListNetworks db None d = Inr ?ns"
    using query_law [OF assms(1,2), of SelectNetworks] rows_decoded [OF ok(2)] by (simp add: sqListNetworks_def)
  have dom: "fset (fmdom ?m) = {k. docAt unmarshalNetwork ?m k \<noteq> None}" by (simp only: docAt_dom [OF ok(2)])
  have k: "nwID (the (docAt unmarshalNetwork ?m k)) = k" if "k \<in> fset (fmdom ?m)" for k
    using that dom wfAStoreD(1) [OF ok(1), of k] by fastforce
  then have "map nwID ?ns = sorted_list_of_fset (fmdom ?m)" by (auto intro!: map_idI)
  moreover have "set ?ns = ran (docAt unmarshalNetwork ?m)" using dom by (force simp: ran_def)
  ultimately show ?thesis using l by (simp only: tablesAbs_sel) (auto simp: sorted_list_of_fset.rep_eq)
qed

text \<open>Keys that share their first component are ordered by the second.\<close>

lemma sorted_snd: "sorted ks \<Longrightarrow> \<forall>k \<in> set ks. fst k = i \<Longrightarrow> sorted (map snd ks)"
  by (induction ks) (auto simp: less_eq_prod_def)

lemma distinct_snd: "distinct ks \<Longrightarrow> \<forall>k \<in> set ks. fst k = i \<Longrightarrow> distinct (map snd ks)"
  by (auto simp: distinct_map inj_on_def prod_eq_iff)

lemma sqlite_list_members:
  assumes "sqlite_law db up tables" "up d" "tablesOk (tables d)" "asNetworks (tablesAbs (tables d)) i \<noteq> None"
  shows "\<exists>ms. sqListMembers db None i d = Inr ms \<and> sorted (map mbNodeID ms) \<and> distinct (map mbNodeID ms)
    \<and> set ms = {m. \<exists>j. asMembers (tablesAbs (tables d)) (i, j) = Some m}"
proof -
  note ok = tablesOkD [OF assms(3)]
  define m where "m = fmfilter (\<lambda>k. fst k = i) (tbMembers (tables d))"
  define ks where "ks = sorted_list_of_fset (fmdom m)"
  define f where "f = (\<lambda>k. the (docAt unmarshalMember m k))"
  have ok3: "rowsOk unmarshalMember mbRevision m" unfolding m_def by (rule rowsOk_filter(1) [OF ok(3)])
  have l: "sqListMembers db None i d = Inr (map f ks)"
    using query_law [OF assms(1,2), of "SelectMembers i"] rows_decoded [OF ok3] rowExists_law(1) [OF assms(1,2), of i] docAt_None [OF ok(2), of i] assms(4)
    by (simp add: sqListMembers_def ks_def f_def flip: m_def)
  have docs: "docAt unmarshalMember m k = (if fst k = i then docAt unmarshalMember (tbMembers (tables d)) k else None)" for k
    by (simp add: m_def docAt_filter)
  have ks: "sorted ks" "distinct ks" "set ks = {k. docAt unmarshalMember m k \<noteq> None}"
    by (simp_all only: ks_def docAt_dom [OF ok3]) (simp_all add: sorted_list_of_fset.rep_eq)
  have key: "fst k = i \<and> mbNodeID (f k) = snd k" if "k \<in> set ks" for k
    using that wfAStoreD(2) [OF ok(1), of "fst k" "snd k"] unfolding ks(3) by (auto simp: docs f_def split: if_splits)
  then have "map mbNodeID (map f ks) = map snd ks" by simp
  moreover have "sorted (map snd ks)" "distinct (map snd ks)" using sorted_snd [OF ks(1)] distinct_snd [OF ks(2)] key by blast+
  moreover have "set (map f ks) = {m. \<exists>j. asMembers (tablesAbs (tables d)) (i, j) = Some m}"
  proof -
    have "docAt unmarshalMember m k = Some x \<longleftrightarrow> k \<in> set ks \<and> f k = x" for k x by (auto simp: ks(3) f_def)
    then have "set (map f ks) = {x. \<exists>k. docAt unmarshalMember m k = Some x}" by auto
    then show ?thesis by (auto simp: docs split: if_splits)
  qed
  ultimately show ?thesis using l by metis
qed

text \<open>A database that follows the law is a store that takes the storable calls.\<close>

locale sqlite_database =
  fixes db :: "'d Database" and up :: "'d \<Rightarrow> bool" and tables :: "'d \<Rightarrow> Tables"
  assumes law: "sqlite_law db up tables"

sublocale sqlite_database \<subseteq> sq: versioned_store "sqliteStore db" "\<lambda>d. up d \<and> tablesOk (tables d)" "\<lambda>d. tablesAbs (tables d)" storableCall
proof
  fix d i j and c :: StoreCall and r d'
  assume ok: "up d \<and> tablesOk (tables d)"
  note L = law ok [THEN conjunct1] ok [THEN conjunct2]
  show "wfAStore (tablesAbs (tables d))" by (rule tablesOkD(1) [OF L(3)])
  show "stGetNetwork (sqliteStore db) None i d = found (asNetworks (tablesAbs (tables d)) i)"
    "stGetMember (sqliteStore db) None i j d = found (asMembers (tablesAbs (tables d)) (i, j))"
    "stGetAgentMetadata (sqliteStore db) None i j d = found (asMetadata (tablesAbs (tables d)) (i, j))"
    using sqlite_gets [OF L] by (simp_all add: sqliteStore_def)
  show "\<exists>ns. stListNetworks (sqliteStore db) None d = Inr ns \<and> sorted (map nwID ns) \<and> distinct (map nwID ns) \<and> set ns = ran (asNetworks (tablesAbs (tables d)))"
    using sqlite_list_networks [OF L] by (simp add: sqliteStore_def)
  show "asNetworks (tablesAbs (tables d)) i \<noteq> None \<Longrightarrow> \<exists>ms. stListMembers (sqliteStore db) None i d = Inr ms \<and> sorted (map mbNodeID ms)
      \<and> distinct (map mbNodeID ms) \<and> set ms = {m. \<exists>j. asMembers (tablesAbs (tables d)) (i, j) = Some m}"
    using sqlite_list_members [OF L, of i] by (simp add: sqliteStore_def)
  show "asNetworks (tablesAbs (tables d)) i = None \<Longrightarrow> stListMembers (sqliteStore db) None i d = Inl ErrNotFound"
    using rowExists_law(1) [OF L(1,2), of i] docAt_None [OF tablesOkD(2) [OF L(3)], of i] by (simp add: sqliteStore_def sqListMembers_def)
  show "storableCall c \<Longrightarrow> storeCall (sqliteStore db) None c d = (r, d') \<Longrightarrow>
      (up d' \<and> tablesOk (tables d')) \<and> aCall c (tablesAbs (tables d)) = (r, tablesAbs (tables d'))"
    using call_refines_sqlite [OF L, of c r d'] by (simp add: refinesTo_def)
qed

sublocale sqlite_database \<subseteq> both: store_pair "sqliteStore db" "\<lambda>d. up d \<and> tablesOk (tables d)" "\<lambda>d. tablesAbs (tables d)" storableCall
    memoryStore memInv memAbs "\<lambda>_. True"
  by unfold_locales

context sqlite_database
begin

lemmas agrees_with_memory = both.agree
lemmas view_of_tables = sq.view_exact

end

end
