(* ===== verification/SqliteOpen.thy ===== *)
theory SqliteOpen
  imports Sqlite
begin

text \<open>
  \<^verbatim>\<open>internal/store/sqlite\<close>: opening a database file, the migration of its schema in one transaction, and
  the backup. The lemmas show that a failed \<^verbatim>\<open>Open\<close> leaves the file as it was whatever statement failed,
  that a successful one leaves a current schema with the same rows, and that the store then agrees
  with the memory store.
\<close>

section \<open>Opening\<close>

definition currentSchemaVersion :: int where "currentSchemaVersion = 2"

definition agentTableSQL :: string where
  "agentTableSQL = ''CREATE TABLE IF NOT EXISTS agent_metadata ( network_id TEXT NOT NULL, node_id TEXT NOT NULL, document BLOB NOT NULL, PRIMARY KEY (network_id, node_id), FOREIGN KEY (network_id, node_id) REFERENCES members(network_id, node_id) ON DELETE CASCADE )''"

definition schema :: string where
  "schema = ''CREATE TABLE IF NOT EXISTS networks ( id TEXT PRIMARY KEY, revision INTEGER NOT NULL, document BLOB NOT NULL ); CREATE TABLE IF NOT EXISTS members ( network_id TEXT NOT NULL, node_id TEXT NOT NULL, revision INTEGER NOT NULL, document BLOB NOT NULL, PRIMARY KEY (network_id, node_id), FOREIGN KEY (network_id) REFERENCES networks(id) ON DELETE CASCADE ); ''
     @ agentTableSQL @ '';''"

definition setVersionSQL :: string where "setVersionSQL = ''PRAGMA user_version = 2''"
definition userVersionSQL :: string where "userVersionSQL = ''PRAGMA user_version''"

definition openPragmas :: "string list" where
  "openPragmas = [''PRAGMA foreign_keys = ON'', ''PRAGMA busy_timeout = 5000'', ''PRAGMA journal_mode = WAL'']"

fun scanInt :: "sqlValue list \<Rightarrow> int result" where
  "scanInt [SQLInt n] = Inr n"
| "scanInt _ = Inl (Errorf ''sql: Scan error'')"

text \<open>The loop over the pragmas.\<close>

fun execEach :: "'d Database \<Rightarrow> string list \<Rightarrow> 'd \<Rightarrow> unit result \<times> 'd" where
  "execEach db [] d = (Inr (), d)"
| "execEach db (q # qs) d = (case dbExec db None q [] d of (Inl e, d') \<Rightarrow> (Inl e, d') | (Inr _, d') \<Rightarrow> execEach db qs d')"

definition failClosed :: "'d Database \<Rightarrow> error \<Rightarrow> 'd \<Rightarrow> unit result \<times> 'd" where
  "failClosed db e d = (Inl e, snd (dbClose db d))"

text \<open>\<^verbatim>\<open>_, err = transaction.Exec(...)\<close>, skipped when its guard fails.\<close>

definition execIf :: "'d Database \<Rightarrow> bool \<Rightarrow> string \<Rightarrow> unit result \<times> 'd \<Rightarrow> unit result \<times> 'd" where
  "execIf db guard q s = (case s of (err, d) \<Rightarrow>
     if guard then (case dbExec db None q [] d of (Inl e, d') \<Rightarrow> (Inl e, d') | (Inr _, d') \<Rightarrow> (Inr (), d')) else (err, d))"

definition migrateSchema :: "'d Database \<Rightarrow> int \<Rightarrow> 'd \<Rightarrow> unit result \<times> 'd" where
  "migrateSchema db version d = (case dbBegin db d of
     (Inl e, d) \<Rightarrow> failClosed db (Wrap ''begin sqlite migration: %w'' e) d
   | (Inr _, d) \<Rightarrow>
       let s1 = execIf db (version = 0) schema (Inr (), d);
           s2 = execIf db (isOk (fst s1) \<and> version < 2) agentTableSQL s1;
           s3 = execIf db (isOk (fst s2)) setVersionSQL s2
       in case s3 of
            (Inl e, d) \<Rightarrow> failClosed db (Wrap ''migrate sqlite schema: %w'' e) (snd (dbRollback db d))
          | (Inr _, d) \<Rightarrow> (case dbCommit db d of
                (Inl e, d) \<Rightarrow> failClosed db (Wrap ''commit sqlite migration: %w'' e) d
              | (Inr _, d) \<Rightarrow> (Inr (), d)))"

definition sqOpen :: "'d Database \<Rightarrow> string \<Rightarrow> 'd \<Rightarrow> unit result \<times> 'd" where
  "sqOpen db path d = (case dbOpen db path d of
     (Inl e, d) \<Rightarrow> (Inl (Wrap ''open sqlite: %w'' e), d)
   | (Inr _, d) \<Rightarrow> (case execEach db openPragmas d of
       (Inl e, d) \<Rightarrow> failClosed db (Wrap ''initialize sqlite: %w'' e) d
     | (Inr _, d) \<Rightarrow> (case rbind (queryRow db None userVersionSQL [] d) scanInt of
         Inl e \<Rightarrow> failClosed db (Wrap ''read sqlite schema version: %w'' e) d
       | Inr version \<Rightarrow>
           if version > currentSchemaVersion
           then failClosed db (Errorf ''database schema version %d is newer than supported version %d'') d
           else if version < currentSchemaVersion then migrateSchema db version d
           else (Inr (), d))))"

definition sqClose :: "'d Database \<Rightarrow> 'd \<Rightarrow> unit result \<times> 'd" where
  "sqClose db d = dbClose db d"

definition backupSQL :: string where "backupSQL = ''VACUUM INTO ?''"

definition sqBackup :: "'d Database \<Rightarrow> Context \<Rightarrow> string \<Rightarrow> 'd \<Rightarrow> unit result \<times> 'd" where
  "sqBackup db ctx destination d = (if destination = [] then (Inl (Errorf ''backup destination is required''), d)
     else case dbExec db ctx backupSQL [SQLText destination] d of (result, d') \<Rightarrow>
       (wrapErr ''backup sqlite database: %w'' (rbind result (\<lambda>_. Inr ())), d'))"

section \<open>Files and transactions\<close>

text \<open>
  The contents of a database file: its version, the tables it has and their rows. A connection sees
  the committed file, and during a transaction its own copy.
\<close>

record SqlFile =
  sfVersion :: int
  sfNames :: "string fset"
  sfRows :: Tables

definition allTables :: "string fset" where "allTables = {|''networks'', ''members'', ''agent_metadata''|}"

definition migrationEffect :: "string \<Rightarrow> SqlFile \<Rightarrow> SqlFile" where
  "migrationEffect q f = (if q = schema then f\<lparr>sfNames := sfNames f |\<union>| allTables\<rparr>
     else if q = agentTableSQL then f\<lparr>sfNames := finsert ''agent_metadata'' (sfNames f)\<rparr>
     else if q = setVersionSQL then f\<lparr>sfVersion := 2\<rparr> else f)"

text \<open>
  What the migration relies on: any call may fail, a statement outside a transaction that is a pragma
  of the connection leaves the file alone, statements in a transaction change the connection's copy
  only, a commit that succeeds makes the copy the file, one that fails, a rollback and closing leave
  the file.
\<close>

definition transaction_law ::
    "'d Database \<Rightarrow> string \<Rightarrow> ('d \<Rightarrow> bool) \<Rightarrow> ('d \<Rightarrow> SqlFile) \<Rightarrow> ('d \<Rightarrow> SqlFile option) \<Rightarrow> bool" where
  "transaction_law db path connected disk work =
     ((\<forall>d r d'. dbOpen db path d = (r, d') \<longrightarrow> disk d' = disk d \<and> (isOk r \<longrightarrow> connected d' \<and> work d' = None))
    \<and> (\<forall>q d r d'. q \<in> set openPragmas \<longrightarrow> connected d \<longrightarrow> work d = None \<longrightarrow> dbExec db None q [] d = (r, d') \<longrightarrow>
         disk d' = disk d \<and> connected d' \<and> work d' = None)
    \<and> (\<forall>d rows e. connected d \<longrightarrow> work d = None \<longrightarrow> dbQuery db None userVersionSQL [] d = Inr (rows, e) \<longrightarrow>
         rows \<noteq> [] \<longrightarrow> rows = [[SQLInt (sfVersion (disk d))]])
    \<and> (\<forall>d r d'. connected d \<longrightarrow> work d = None \<longrightarrow> dbBegin db d = (r, d') \<longrightarrow>
         disk d' = disk d \<and> (isOk r \<longrightarrow> connected d' \<and> work d' = Some (disk d)))
    \<and> (\<forall>q d r d' w. q \<in> {schema, agentTableSQL, setVersionSQL} \<longrightarrow> connected d \<longrightarrow> work d = Some w \<longrightarrow>
         dbExec db None q [] d = (r, d') \<longrightarrow>
         disk d' = disk d \<and> connected d' \<and> (\<exists>w'. work d' = Some w' \<and> (isOk r \<longrightarrow> w' = migrationEffect q w)))
    \<and> (\<forall>d r d' w. connected d \<longrightarrow> work d = Some w \<longrightarrow> dbCommit db d = (r, d') \<longrightarrow>
         (if isOk r then disk d' = w \<and> connected d' \<and> work d' = None else disk d' = disk d))
    \<and> (\<forall>d. disk (snd (dbRollback db d)) = disk d) \<and> (\<forall>d. disk (snd (dbClose db d)) = disk d))"

text \<open>The files this program has written: version 1 had no table for the metadata.\<close>

definition knownFile :: "SqlFile \<Rightarrow> bool" where
  "knownFile f = (sfVersion f = 0 \<or> sfVersion f = 1 \<and> {|''networks'', ''members''|} |\<subseteq>| sfNames f
     \<or> sfVersion f \<ge> 2 \<and> allTables |\<subseteq>| sfNames f)"

definition currentFile :: "SqlFile \<Rightarrow> bool" where
  "currentFile f = (sfVersion f = currentSchemaVersion \<and> allTables |\<subseteq>| sfNames f)"

definition sqlReady :: "('d \<Rightarrow> bool) \<Rightarrow> ('d \<Rightarrow> SqlFile) \<Rightarrow> ('d \<Rightarrow> SqlFile option) \<Rightarrow> 'd \<Rightarrow> bool" where
  "sqlReady connected disk work d = (connected d \<and> work d = None \<and> currentFile (disk d))"

locale sqlite_file =
  fixes db :: "'d Database" and path :: string and connected :: "'d \<Rightarrow> bool" and disk :: "'d \<Rightarrow> SqlFile"
    and work :: "'d \<Rightarrow> SqlFile option"
  assumes law: "transaction_law db path connected disk work"
begin

lemma open_law:
  "dbOpen db path d = (r, d') \<Longrightarrow> disk d' = disk d \<and> (isOk r \<longrightarrow> connected d' \<and> work d' = None)"
  using law [unfolded transaction_law_def, THEN conjunct1] by blast

lemma pragma_law:
  "q \<in> set openPragmas \<Longrightarrow> connected d \<Longrightarrow> work d = None \<Longrightarrow> dbExec db None q [] d = (r, d') \<Longrightarrow>
    disk d' = disk d \<and> connected d' \<and> work d' = None"
  using law [unfolded transaction_law_def, THEN conjunct2, THEN conjunct1] by blast

lemma version_law:
  "connected d \<Longrightarrow> work d = None \<Longrightarrow> dbQuery db None userVersionSQL [] d = Inr (rows, e) \<Longrightarrow> rows \<noteq> [] \<Longrightarrow>
    rows = [[SQLInt (sfVersion (disk d))]]"
  using law [unfolded transaction_law_def, THEN conjunct2, THEN conjunct2, THEN conjunct1] by blast

lemma begin_law:
  "connected d \<Longrightarrow> work d = None \<Longrightarrow> dbBegin db d = (r, d') \<Longrightarrow>
    disk d' = disk d \<and> (isOk r \<longrightarrow> connected d' \<and> work d' = Some (disk d))"
  using law [unfolded transaction_law_def, THEN conjunct2, THEN conjunct2, THEN conjunct2, THEN conjunct1] by blast

lemma migration_law:
  "q \<in> {schema, agentTableSQL, setVersionSQL} \<Longrightarrow> connected d \<Longrightarrow> work d = Some w \<Longrightarrow> dbExec db None q [] d = (r, d') \<Longrightarrow>
    disk d' = disk d \<and> connected d' \<and> (\<exists>w'. work d' = Some w' \<and> (isOk r \<longrightarrow> w' = migrationEffect q w))"
  using law [unfolded transaction_law_def, THEN conjunct2, THEN conjunct2, THEN conjunct2, THEN conjunct2, THEN conjunct1] by blast

lemma commit_law:
  "connected d \<Longrightarrow> work d = Some w \<Longrightarrow> dbCommit db d = (r, d') \<Longrightarrow>
    (if isOk r then disk d' = w \<and> connected d' \<and> work d' = None else disk d' = disk d)"
  using law [unfolded transaction_law_def, THEN conjunct2, THEN conjunct2, THEN conjunct2, THEN conjunct2, THEN conjunct2, THEN conjunct1] by blast

lemma discard_law: "disk (snd (dbRollback db d)) = disk d" "disk (snd (dbClose db d)) = disk d"
  using law [unfolded transaction_law_def, THEN conjunct2, THEN conjunct2, THEN conjunct2, THEN conjunct2, THEN conjunct2, THEN conjunct2] by blast+

lemma pragmas_keep:
  "connected d \<Longrightarrow> work d = None \<Longrightarrow> set qs \<subseteq> set openPragmas \<Longrightarrow> execEach db qs d = (r, d') \<Longrightarrow>
    disk d' = disk d \<and> connected d' \<and> work d' = None"
proof (induction qs arbitrary: d)
  case (Cons q qs)
  obtain r1 d1 where e: "dbExec db None q [] d = (r1, d1)" by force
  with Cons.prems pragma_law [of q d r1 d1] have "disk d1 = disk d \<and> connected d1 \<and> work d1 = None" by simp
  with Cons e show ?case by (auto split: sum.splits)
qed simp

lemma execIf_keep:
  assumes "connected d" "work d = Some w" "q \<in> {schema, agentTableSQL, setVersionSQL}" "execIf db g q (err, d) = (r, d')"
  shows "disk d' = disk d \<and> connected d' \<and> (\<exists>w'. work d' = Some w' \<and> (isOk r \<longrightarrow> w' = (if g then migrationEffect q w else w)))"
proof -
  obtain r1 d1 where e: "dbExec db None q [] d = (r1, d1)" by force
  with migration_law [OF assms(3,1,2) e] assms show ?thesis by (auto simp: execIf_def split: sum.splits if_splits)
qed

lemma failClosed_keep: "failClosed db e d = (r, d') \<Longrightarrow> \<not> isOk r \<and> disk d' = disk d"
  by (auto simp: failClosed_def discard_law)

end

lemma queryRow_Inr: "queryRow db ctx q args d = Inr row \<Longrightarrow> \<exists>rest e. dbQuery db ctx q args d = Inr (row # rest, e)"
  by (auto simp: queryRow_def rbind_def split: sum.splits list.splits)

lemma migrationEffects:
  "migrationEffect schema f = f\<lparr>sfNames := sfNames f |\<union>| allTables\<rparr>"
  "migrationEffect agentTableSQL f = f\<lparr>sfNames := finsert ''agent_metadata'' (sfNames f)\<rparr>"
  "migrationEffect setVersionSQL f = f\<lparr>sfVersion := 2\<rparr>"
  by (simp_all add: migrationEffect_def schema_def agentTableSQL_def setVersionSQL_def)

lemma migrated:
  assumes "knownFile f" "sfVersion f < 2"
  shows "currentFile (migrationEffect setVersionSQL (migrationEffect agentTableSQL (if sfVersion f = 0 then migrationEffect schema f else f)))
    \<and> sfRows (migrationEffect setVersionSQL (migrationEffect agentTableSQL (if sfVersion f = 0 then migrationEffect schema f else f))) = sfRows f"
  using assms by (auto simp: knownFile_def currentFile_def currentSchemaVersion_def migrationEffects allTables_def)

context sqlite_file
begin

lemma migrate_outcome:
  assumes "connected d" "work d = None" "knownFile (disk d)" "sfVersion (disk d) < 2"
    and "migrateSchema db (sfVersion (disk d)) d = (r, d')"
  shows "if isOk r then sqlReady connected disk work d' \<and> sfRows (disk d') = sfRows (disk d) else disk d' = disk d"
proof -
  obtain r0 d0 where b: "dbBegin db d = (r0, d0)" by force
  note B = begin_law [OF assms(1,2) b]
  show ?thesis
  proof (cases r0)
    case (Inl e)
    with assms(5) b B failClosed_keep show ?thesis by (fastforce simp: migrateSchema_def)
  next
    case (Inr u)
    let ?v = "sfVersion (disk d)"
    obtain r1 d1 where e1: "execIf db (?v = 0) schema (Inr (), d0) = (r1, d1)" by force
    obtain r2 d2 where e2: "execIf db (isOk r1 \<and> ?v < 2) agentTableSQL (r1, d1) = (r2, d2)" by force
    obtain r3 d3 where e3: "execIf db (isOk r2) setVersionSQL (r2, d2) = (r3, d3)" by force
    have r: "(case r3 of Inl e \<Rightarrow> failClosed db (Wrap ''migrate sqlite schema: %w'' e) (snd (dbRollback db d3))
        | Inr _ \<Rightarrow> (case dbCommit db d3 of (Inl e, d) \<Rightarrow> failClosed db (Wrap ''commit sqlite migration: %w'' e) d | (Inr _, d) \<Rightarrow> (Inr (), d))) = (r, d')"
      using assms(5) b Inr e1 e2 e3 by (simp add: migrateSchema_def Let_def)
    obtain w1 where w1: "disk d1 = disk d" "connected d1" "work d1 = Some w1" "isOk r1 \<longrightarrow> w1 = (if ?v = 0 then migrationEffect schema (disk d) else disk d)"
      using execIf_keep [OF _ _ _ e1, of "disk d"] B Inr by auto
    obtain w2 where w2: "disk d2 = disk d" "connected d2" "work d2 = Some w2" "isOk r2 \<longrightarrow> isOk r1 \<and> w2 = migrationEffect agentTableSQL w1"
      using execIf_keep [OF w1(2,3) _ e2] w1(1) assms(4) e2 by (auto simp: execIf_def split: if_splits)
    obtain w3 where w3: "disk d3 = disk d" "connected d3" "work d3 = Some w3" "isOk r3 \<longrightarrow> isOk r2 \<and> w3 = migrationEffect setVersionSQL w2"
      using execIf_keep [OF w2(2,3) _ e3] w2(1) e3 by (auto simp: execIf_def split: if_splits)
    show ?thesis
    proof (cases r3)
      case (Inl e)
      with r w3(1) failClosed_keep [of _ "snd (dbRollback db d3)" r d'] show ?thesis by (simp add: discard_law)
    next
      case (Inr u3)
      with w1 w2 w3 migrated [OF assms(3,4)] have w: "currentFile w3" "sfRows w3 = sfRows (disk d)" by auto
      obtain r4 d4 where c: "dbCommit db d3 = (r4, d4)" by force
      note C = commit_law [OF w3(2,3) c]
      show ?thesis
      proof (cases r4)
        case (Inl e)
        with r Inr c C w3(1) failClosed_keep [of _ d4 r d'] show ?thesis by simp
      next
        case u4: (Inr u4)
        with r Inr c C w show ?thesis by (auto simp: sqlReady_def)
      qed
    qed
  qed
qed

lemma open_outcome:
  assumes "knownFile (disk d)" "sqOpen db path d = (r, d')"
  shows "if isOk r then sfVersion (disk d) \<le> currentSchemaVersion \<and> sqlReady connected disk work d' \<and> sfRows (disk d') = sfRows (disk d)
    else disk d' = disk d"
proof -
  obtain r0 d0 where o: "dbOpen db path d = (r0, d0)" by force
  note O = open_law [OF o]
  obtain r1 d1 where p: "execEach db openPragmas d0 = (r1, d1)" by force
  show ?thesis
  proof (cases "isOk r0 \<and> isOk r1")
    case False
    then show ?thesis using assms(2) o O p pragmas_keep [OF _ _ _ p] failClosed_keep [of _ d1 r d']
      by (cases r0; cases r1) (auto simp: sqOpen_def)
  next
    case True
    with O pragmas_keep [OF _ _ _ p] have d1: "disk d1 = disk d" "connected d1" "work d1 = None" by auto
    show ?thesis
    proof (cases "rbind (queryRow db None userVersionSQL [] d1) scanInt")
      case (Inl e)
      with assms(2) True o p d1(1) failClosed_keep [of _ d1 r d'] show ?thesis by (cases r0; cases r1) (auto simp: sqOpen_def)
    next
      case (Inr v)
      then obtain row rows e where "dbQuery db None userVersionSQL [] d1 = Inr (row # rows, e)" "scanInt row = Inr v"
        by (auto simp: rbind_eq_Inr dest: queryRow_Inr)
      with version_law [OF d1(2,3)] d1(1) have v: "v = sfVersion (disk d)" by fastforce
      have "(if v > currentSchemaVersion then failClosed db (Errorf ''database schema version %d is newer than supported version %d'') d1
           else if v < currentSchemaVersion then migrateSchema db v d1 else (Inr (), d1)) = (r, d')"
        using assms(2) True o p Inr by (cases r0; cases r1) (simp_all add: sqOpen_def)
      with migrate_outcome [OF d1(2,3), of r d'] failClosed_keep [of _ d1 r d'] assms(1) d1 v show ?thesis
        by (auto simp: currentSchemaVersion_def knownFile_def currentFile_def sqlReady_def split: if_splits)
    qed
  qed
qed

end

text \<open>An opened database is a store that cannot be told from the memory store.\<close>

lemma opened_agrees:
  assumes "transaction_law db path connected disk work" "sqlite_law db (sqlReady connected disk work) (\<lambda>d. sfRows (disk d))"
    and "knownFile (disk d)" "sqOpen db path d = (Inr (), d')" "tablesOk (sfRows (disk d))"
    and "memInv m" "memAbs m = tablesAbs (sfRows (disk d))" "list_all storableCall cs"
  shows "storeResults (sqliteStore db) cs d' = storeResults memoryStore cs m"
    "storeView (sqliteStore db) (storeRun (sqliteStore db) cs d') = storeView memoryStore (storeRun memoryStore cs m)"
proof -
  have f: "sqlite_file db path connected disk work" by (rule sqlite_file.intro [OF assms(1)])
  have g: "sqlite_database db (sqlReady connected disk work) (\<lambda>d. sfRows (disk d))" by (rule sqlite_database.intro [OF assms(2)])
  have r: "sqlReady connected disk work d' \<and> tablesOk (sfRows (disk d'))" "tablesAbs (sfRows (disk d')) = memAbs m"
    using sqlite_file.open_outcome [OF f assms(3,4)] assms(5,7) by simp_all
  have all: "list_all (\<lambda>_. True) cs" by (simp add: list_all_iff)
  note sqlite_database.agrees_with_memory [OF g r(1) assms(6) r(2) assms(8) all]
  then show "storeResults (sqliteStore db) cs d' = storeResults memoryStore cs m"
    "storeView (sqliteStore db) (storeRun (sqliteStore db) cs d') = storeView memoryStore (storeRun memoryStore cs m)" by blast+
qed

section \<open>A database in memory\<close>

text \<open>A database that follows the laws, on which the statements are recognised by their text.\<close>

record RefConn =
  rcConnected :: bool
  rcFile :: SqlFile
  rcWork :: "SqlFile option"

definition textAt :: "sqlValue list \<Rightarrow> nat \<Rightarrow> string" where
  "textAt args k = (case drop k args of SQLText s # _ \<Rightarrow> s | _ \<Rightarrow> [])"
definition intAt :: "sqlValue list \<Rightarrow> nat \<Rightarrow> int" where
  "intAt args k = (case drop k args of SQLInt n # _ \<Rightarrow> n | _ \<Rightarrow> 0)"
definition blobAt :: "sqlValue list \<Rightarrow> nat \<Rightarrow> RawMessage" where
  "blobAt args k = (case drop k args of SQLBlob j # _ \<Rightarrow> j | _ \<Rightarrow> JNull)"

definition statements :: "sqlValue list \<Rightarrow> Statement list" where
  "statements a = [InsertNetwork (textAt a 0) (intAt a 1) (blobAt a 2), SelectNetwork (textAt a 0), SelectNetworks,
     UpdateNetwork (intAt a 0) (blobAt a 1) (textAt a 2) (intAt a 3), DeleteNetworkRow (textAt a 0) (intAt a 1),
     InsertMember (textAt a 0) (textAt a 1) (intAt a 2) (blobAt a 3), SelectMember (textAt a 0) (textAt a 1), SelectMembers (textAt a 0),
     UpdateMemberRow (intAt a 0) (blobAt a 1) (textAt a 2) (textAt a 3) (intAt a 4), DeleteMemberRow (textAt a 0) (textAt a 1) (intAt a 2),
     UpsertAgent (textAt a 0) (textAt a 1) (blobAt a 2), SelectAgent (textAt a 0) (textAt a 1), NetworkExists (textAt a 0),
     MemberExists (textAt a 0) (textAt a 1)]"

definition parseStatement :: "string \<Rightarrow> sqlValue list \<Rightarrow> Statement option" where
  "parseStatement q args = List.find (\<lambda>st. sqlText st = q \<and> sqlArgs st = args) (statements args)"

lemma parseStatement_sqlText: "parseStatement (sqlText st) (sqlArgs st) = Some st"
  by (cases st) (simp_all add: parseStatement_def statements_def textAt_def intAt_def blobAt_def sql_defs)

definition refCurrent :: "RefConn \<Rightarrow> SqlFile" where
  "refCurrent d = (case rcWork d of None \<Rightarrow> rcFile d | Some w \<Rightarrow> w)"

definition refWrite :: "SqlFile \<Rightarrow> RefConn \<Rightarrow> RefConn" where
  "refWrite f d = (case rcWork d of None \<Rightarrow> d\<lparr>rcFile := f\<rparr> | Some _ \<Rightarrow> d\<lparr>rcWork := Some f\<rparr>)"

definition refExec :: "Context \<Rightarrow> string \<Rightarrow> sqlValue list \<Rightarrow> RefConn \<Rightarrow> int result result \<times> RefConn" where
  "refExec ctx q args d = (if \<not> rcConnected d then (Inl (Errorf ''sql: database is closed''), d)
     else if args = [] then (Inr (Inr 0), refWrite (migrationEffect q (refCurrent d)) d)
     else case parseStatement q args of None \<Rightarrow> (Inl (Errorf ''SQL logic error''), d)
       | Some st \<Rightarrow> if \<not> allTables |\<subseteq>| sfNames (refCurrent d) then (Inl (Errorf ''no such table''), d)
         else (case sqlEffect st (sfRows (refCurrent d)) of None \<Rightarrow> (Inl (Errorf ''constraint failed''), d)
           | Some (n, t) \<Rightarrow> (Inr (Inr n), refWrite ((refCurrent d)\<lparr>sfRows := t\<rparr>) d)))"

definition refQuery :: "Context \<Rightarrow> string \<Rightarrow> sqlValue list \<Rightarrow> RefConn \<Rightarrow> (sqlValue list list \<times> unit result) result" where
  "refQuery ctx q args d = (if \<not> rcConnected d then Inl (Errorf ''sql: database is closed'')
     else case parseStatement q args of
       None \<Rightarrow> if q = userVersionSQL then Inr ([[SQLInt (sfVersion (refCurrent d))]], Inr ()) else Inl (Errorf ''SQL logic error'')
     | Some st \<Rightarrow> (case sqlRows st (sfRows (refCurrent d)) of None \<Rightarrow> Inl (Errorf ''SQL logic error'') | Some rows \<Rightarrow> Inr (rows, Inr ())))"

definition refDB :: "RefConn Database" where
  "refDB = \<lparr> dbOpen = (\<lambda>_ d. (Inr (), d\<lparr>rcConnected := True, rcWork := None\<rparr>)),
     dbClose = (\<lambda>d. (Inr (), d\<lparr>rcConnected := False, rcWork := None\<rparr>)),
     dbBegin = (\<lambda>d. (Inr (), d\<lparr>rcWork := Some (rcFile d)\<rparr>)),
     dbCommit = (\<lambda>d. (Inr (), d\<lparr>rcFile := refCurrent d, rcWork := None\<rparr>)),
     dbRollback = (\<lambda>d. (Inr (), d\<lparr>rcWork := None\<rparr>)),
     dbPing = (\<lambda>_ d. if rcConnected d then Inr () else Inl (Errorf ''sql: database is closed'')),
     dbExec = refExec, dbQuery = refQuery \<rparr>"

lemma refDB_sel [simp]: "dbExec refDB = refExec" "dbQuery refDB = refQuery"
  by (simp_all add: refDB_def)

lemma pragmas_inert: "q \<in> set openPragmas \<Longrightarrow> migrationEffect q f = f"
  by (auto simp: openPragmas_def migrationEffect_def schema_def agentTableSQL_def setVersionSQL_def)

lemma refDB_transactions: "transaction_law refDB path rcConnected rcFile rcWork"
proof -
  have v: "parseStatement userVersionSQL [] = None" by (simp add: parseStatement_def statements_def userVersionSQL_def selectNetworksSQL_def)
  show ?thesis unfolding transaction_law_def
    by (intro conjI) (auto simp: refDB_def refExec_def refWrite_def refCurrent_def refQuery_def v pragmas_inert split: if_splits)
qed

lemma refDB_statements: "sqlite_law refDB (sqlReady rcConnected rcFile rcWork) (\<lambda>d. sfRows (rcFile d))"
proof -
  have a: "sqlArgs st \<noteq> []" if "sqlEffect st t = Some x" for st t x using that by (cases st) auto
  show ?thesis unfolding sqlite_law_def
    by (intro conjI allI impI) (auto simp: sqlReady_def refExec_def refQuery_def refWrite_def refCurrent_def parseStatement_sqlText currentFile_def dest: a)
qed

interpretation ref: sqlite_database refDB "sqlReady rcConnected rcFile rcWork" "\<lambda>d. sfRows (rcFile d)"
  by unfold_locales (rule refDB_statements)

interpretation reff: sqlite_file refDB path rcConnected rcFile rcWork for path
  by unfold_locales (rule refDB_transactions)

section \<open>Properties\<close>

definition exFile :: SqlFile where
  "exFile = \<lparr> sfVersion = 0, sfNames = {||}, sfRows = \<lparr> tbNetworks = fmempty, tbMembers = fmempty, tbAgents = fmempty \<rparr> \<rparr>"

definition exConn :: RefConn where
  "exConn = \<lparr> rcConnected = True, rcFile = exFile\<lparr>sfVersion := 2, sfNames := allTables\<rparr>, rcWork = None \<rparr>"

lemma exFile_tables: "tablesOk (sfRows exFile)" "tablesAbs (sfRows exFile) = memAbs memNew"
  by (auto simp: tablesOk_def tablesAbs_def exFile_def rowsOk_def wfAStore_def docAt_def memAbs_def memNew_def lookup2_def fun_eq_iff)

lemma exFile_known: "knownFile exFile"
  by (simp add: knownFile_def exFile_def)

lemma ex_storable: "storableCall (CallCreateNetwork exNetwork)" "storableCall (CallCreateMember exMember)"
proof -
  have "isOk (marshalNetwork exNetwork)" "isOk (marshalMember exMember)" by code_simp+
  moreover have "list_all validUTF8 [exNetworkID, exNodeID, ''ACTION_ACCEPT'', []]" by code_simp
  ultimately show "storableCall (CallCreateNetwork exNetwork)" "storableCall (CallCreateMember exMember)"
    by (simp_all add: storableNetwork_def storableMember_def exNetwork_def exMember_def NewNetwork_def NewMember_def okInt_def okRule_def okTokens_def
        DefaultMTU_def DefaultMulticastLimit_def CurrentSchemaVersion_def)
qed

lemma exConn_ready: "sqlReady rcConnected rcFile rcWork exConn" "tablesOk (sfRows (rcFile exConn))"
  using exFile_tables by (simp_all add: sqlReady_def exConn_def currentFile_def currentSchemaVersion_def)

text \<open>
  C14. On a database that does what the SQL statements say, every storable mutating call of the SQLite
  store refines the abstract store: it gives the same result, keeps every row decodable with its
  revision column equal to the revision of its document, and the new documents are those of the
  abstract call; afterwards every read returns exactly what the tables hold, the lists in key order.
\<close>

theorem sqlite_store_refines:
  assumes "sqlite_law db up tables" "up d" "tablesOk (tables d)" "storableCall c" "storeCall (sqliteStore db) None c d = (r, d')"
  shows "up d' \<and> tablesOk (tables d') \<and> aCall c (tablesAbs (tables d)) = (r, tablesAbs (tables d'))
    \<and> storeView (sqliteStore db) d' = aView (tablesAbs (tables d'))"
  using call_refines_sqlite [OF assms] sqlite_database.view_of_tables [OF sqlite_database.intro [OF assms(1)], of d']
  by (simp add: refinesTo_def)

theorem sqlite_store_refines_witness:
  "\<exists>r d'. storeCall (sqliteStore refDB) None (CallCreateNetwork exNetwork) exConn = (r, d') \<and> sqlReady rcConnected rcFile rcWork d'
    \<and> aCall (CallCreateNetwork exNetwork) (tablesAbs (sfRows exFile)) = (r, tablesAbs (sfRows (rcFile d')))"
proof -
  obtain r d' where c: "storeCall (sqliteStore refDB) None (CallCreateNetwork exNetwork) exConn = (r, d')" by force
  from sqlite_store_refines [OF refDB_statements exConn_ready ex_storable(1) c] c show ?thesis by (auto simp: exConn_def)
qed

text \<open>
  C16. Opening a database file is atomic, whichever statement fails: when \<^verbatim>\<open>Open\<close> returns an error the file
  is as it was, a file with a newer schema is refused, and when it succeeds the file has the current
  schema version with all three tables and the rows it had.
\<close>

theorem open_atomic:
  assumes "transaction_law db path connected disk work" "knownFile (disk d)" "sqOpen db path d = (r, d')"
  shows "(\<not> isOk r \<longrightarrow> disk d' = disk d) \<and> (sfVersion (disk d) > currentSchemaVersion \<longrightarrow> \<not> isOk r)
    \<and> (isOk r \<longrightarrow> currentFile (disk d') \<and> sfRows (disk d') = sfRows (disk d) \<and> sqlReady connected disk work d')"
  using sqlite_file.open_outcome [OF sqlite_file.intro [OF assms(1)] assms(2,3)] by (auto simp: sqlReady_def split: if_splits)

theorem open_atomic_witness:
  "\<not> isOk (fst (sqOpen refDB ''x.db'' (exConn\<lparr>rcFile := exFile\<lparr>sfVersion := 3, sfNames := allTables\<rparr>\<rparr>)))
    \<and> currentFile (rcFile (snd (sqOpen refDB ''x.db'' \<lparr> rcConnected = False, rcFile = exFile, rcWork = None \<rparr>)))"
proof
  let ?d = "exConn\<lparr>rcFile := exFile\<lparr>sfVersion := 3, sfNames := allTables\<rparr>\<rparr>"
  obtain r d' where o: "sqOpen refDB ''x.db'' ?d = (r, d')" by force
  have "knownFile (rcFile ?d)" by (simp add: knownFile_def)
  from open_atomic [OF refDB_transactions this o] o show "\<not> isOk (fst (sqOpen refDB ''x.db'' ?d))" by (simp add: currentSchemaVersion_def)
next
  let ?d = "\<lparr> rcConnected = False, rcFile = exFile, rcWork = None \<rparr>"
  obtain r d' where o: "sqOpen refDB ''x.db'' ?d = (r, d')" by force
  have "knownFile (rcFile ?d)" by (simp add: exFile_known)
  moreover have "isOk (fst (sqOpen refDB ''x.db'' ?d))" by code_simp
  ultimately show "currentFile (rcFile (snd (sqOpen refDB ''x.db'' ?d)))" using open_atomic [OF refDB_transactions _ o] o by simp
qed

text \<open>
  C15. The two stores are interchangeable: after \<^verbatim>\<open>Open\<close> of a file that holds the documents of a memory
  store, any sequence of storable calls returns the same results from both, errors included, and
  afterwards every read of either gives the same answer.
\<close>

theorem stores_agree:
  assumes "transaction_law db path connected disk work" "sqlite_law db (sqlReady connected disk work) (\<lambda>d. sfRows (disk d))"
    and "knownFile (disk d)" "sqOpen db path d = (Inr (), d')" "tablesOk (sfRows (disk d))"
    and "memInv m" "memAbs m = tablesAbs (sfRows (disk d))" "list_all storableCall cs"
  shows "storeResults (sqliteStore db) cs d' = storeResults memoryStore cs m
    \<and> storeView (sqliteStore db) (storeRun (sqliteStore db) cs d') = storeView memoryStore (storeRun memoryStore cs m)"
  using opened_agrees [OF assms] by blast

theorem stores_agree_witness:
  "\<exists>d'. sqOpen refDB ''x.db'' \<lparr> rcConnected = False, rcFile = exFile, rcWork = None \<rparr> = (Inr (), d')
    \<and> storeResults (sqliteStore refDB) [CallCreateNetwork exNetwork, CallCreateMember exMember, CallCreateMember exMember] d'
      = [Inr (), Inr (), Inl ErrAlreadyExists]"
proof -
  let ?cs = "[CallCreateNetwork exNetwork, CallCreateMember exMember, CallCreateMember exMember]"
  let ?d = "\<lparr> rcConnected = False, rcFile = exFile, rcWork = None \<rparr>"
  obtain r d' where o: "sqOpen refDB ''x.db'' ?d = (r, d')" by force
  have "isOk (fst (sqOpen refDB ''x.db'' ?d))" by code_simp
  with o have o': "sqOpen refDB ''x.db'' ?d = (Inr (), d')" by (cases r) auto
  have m: "memInv memNew" using tablesOkD(1) [OF exFile_tables(1)] exFile_tables(2) by (simp add: memInv_def)
  have k: "knownFile (rcFile ?d)" "tablesOk (sfRows (rcFile ?d))" "memAbs memNew = tablesAbs (sfRows (rcFile ?d))"
    using exFile_known exFile_tables by simp_all
  have "list_all storableCall ?cs" using ex_storable by (simp del: storableCall.simps)
  from stores_agree [OF refDB_transactions refDB_statements k(1) o' k(2) m k(3) this]
  have "storeResults (sqliteStore refDB) ?cs d' = storeResults memoryStore ?cs memNew" ..
  moreover have "mbNetworkID exMember = nwID exNetwork" by (simp add: exMember_def exNetwork_def NewMember_def NewNetwork_def)
  then have "storeResults memoryStore ?cs memNew = [Inr (), Inr (), Inl ErrAlreadyExists]"
    by (simp add: memCreateNetwork_def memCreateMember_def memNew_def update2_def lookup2_def Let_def)
  ultimately show ?thesis using o' by simp
qed

end
