(* ===== verification/HttpApi.thy ===== *)
theory HttpApi
  imports Upstream ServiceSafety
begin

text \<open>
  \<^verbatim>\<open>internal/api/httpapi/auth.go\<close> and \<^verbatim>\<open>handler.go\<close>: requests, responses, the routing of \<^verbatim>\<open>http.ServeMux\<close>,
  the bearer token, and the controller-native API. A request carries the JSON value its body starts
  with; what an error prints is represented by the error itself.
\<close>

section \<open>Requests and responses\<close>

text \<open>
  The path is the list of its decoded segments; one that is not clean is redirected before it is routed.
  \<open>hqBody\<close> is \<open>None\<close> when the body does not start with a JSON value or exceeds its limit, and
  \<open>hqTrailing\<close> is whether anything but white space follows that value. The body of an answer to a \<^verbatim>\<open>HEAD\<close>
  request is not sent. \<open>UnavailableBody\<close> is the object of a failed health check, with its error.
\<close>

record HttpRequest =
  hqMethod :: string
  hqPath :: "string list"
  hqZT1Auth :: string
  hqAuthorization :: string
  hqBody :: "RawMessage option"
  hqTrailing :: bool
  hqContext :: Context

datatype HttpBody = NoBody | JsonBody RawMessage | ErrorBody error | UnavailableBody error | TextBody string

record HttpResponse =
  hrStatus :: nat
  hrHeaders :: "(string \<times> string) list"
  hrBody :: HttpBody

type_synonym 's serving = "'s World \<Rightarrow> HttpResponse \<times> 's World"

definition respond :: "HttpResponse \<Rightarrow> 's serving" where
  "respond r w = (r, w)"

text \<open>The status is sent before the value is encoded, and an encoding error leaves no body.\<close>

definition writeJSON :: "nat \<Rightarrow> RawMessage result \<Rightarrow> HttpResponse" where
  "writeJSON status v = \<lparr> hrStatus = status, hrHeaders = [(''Content-Type'', ''application/json'')],
     hrBody = (case v of Inr j \<Rightarrow> JsonBody j | Inl _ \<Rightarrow> NoBody) \<rparr>"

text \<open>\<^verbatim>\<open>writeJSON(response, status, errorResponse{...})\<close>.\<close>

definition writeFailure :: "nat \<Rightarrow> error \<Rightarrow> HttpResponse" where
  "writeFailure status e = \<lparr> hrStatus = status, hrHeaders = [(''Content-Type'', ''application/json'')], hrBody = ErrorBody e \<rparr>"

definition writeError :: "error \<Rightarrow> HttpResponse" where
  "writeError e = writeFailure
     (if errorsIs e ErrNotFound then 404 else if errorsIs e ErrAlreadyExists \<or> errorsIs e ErrConflict then 409 else 500) e"

text \<open>A call of the service whose error is written as the response.\<close>

definition serveCall :: "('s, 'a) operation \<Rightarrow> ('a \<Rightarrow> 's serving) \<Rightarrow> 's serving" where
  "serveCall m f w = (case m w of (Inl e, w') \<Rightarrow> (writeError e, w') | (Inr x, w') \<Rightarrow> f x w')"

text \<open>A call whose error the handler looks at itself.\<close>

definition serveCatch :: "('s, 'a) operation \<Rightarrow> ('a result \<Rightarrow> 's serving) \<Rightarrow> 's serving" where
  "serveCatch m f w = (case m w of (r, w') \<Rightarrow> f r w')"

definition parsePath :: "'a result \<Rightarrow> ('a \<Rightarrow> 's serving) \<Rightarrow> 's serving" where
  "parsePath r f = (case r of Inl e \<Rightarrow> respond (writeFailure 400 e) | Inr x \<Rightarrow> f x)"

definition decodeJSON :: "HttpRequest \<Rightarrow> 'a decoder \<Rightarrow> 'a \<Rightarrow> ('a \<Rightarrow> 's serving) \<Rightarrow> 's serving" where
  "decodeJSON rq dec zero f = (case hqBody rq of
     None \<Rightarrow> respond (writeFailure 400 (Errorf ''invalid JSON body''))
   | Some j \<Rightarrow> (case dec zero j of
       Inl _ \<Rightarrow> respond (writeFailure 400 (Errorf ''invalid JSON body''))
     | Inr input \<Rightarrow>
         if hqTrailing rq then respond (writeFailure 400 (Errorf ''body must contain one JSON value'')) else f input))"

section \<open>Routing\<close>

text \<open>
  Patterns with their method; \<^verbatim>\<open>GET\<close> also answers \<^verbatim>\<open>HEAD\<close>. No two patterns of the program match the same
  request. A wildcard matches one nonempty segment.
\<close>

datatype pathPattern = Lit string | Wild

fun matchPath :: "pathPattern list \<Rightarrow> string list \<Rightarrow> string list option" where
  "matchPath [] [] = Some []"
| "matchPath (Lit l # ps) (s # ss) = (if l = s then matchPath ps ss else None)"
| "matchPath (Wild # ps) (s # ss) = (if s = [] then None else map_option ((#) s) (matchPath ps ss))"
| "matchPath _ _ = None"

type_synonym 's route = "string \<times> pathPattern list \<times> (string list \<Rightarrow> HttpRequest \<Rightarrow> 's serving)"

definition methodMatches :: "string \<Rightarrow> string \<Rightarrow> bool" where
  "methodMatches m method = (m = method \<or> m = ''GET'' \<and> method = ''HEAD'')"

definition allowedMethods :: "'s route list \<Rightarrow> string list \<Rightarrow> string list" where
  "allowedMethods routes path = sort (remdups (concat (map (\<lambda>(m, p, f).
     if matchPath p path = None then [] else if m = ''GET'' then [''GET'', ''HEAD''] else [m]) routes)))"

fun muxServe :: "'s route list \<Rightarrow> 's route list \<Rightarrow> HttpRequest \<Rightarrow> 's serving" where
  "muxServe all [] rq = respond (case allowedMethods all (hqPath rq) of
     [] \<Rightarrow> \<lparr> hrStatus = 404, hrHeaders = [(''Content-Type'', ''text/plain; charset=utf-8'')], hrBody = TextBody ''404 page not found'' \<rparr>
   | ms \<Rightarrow> \<lparr> hrStatus = 405, hrHeaders = [(''Allow'', joinWith '', '' ms), (''Content-Type'', ''text/plain; charset=utf-8'')],
       hrBody = TextBody ''Method Not Allowed'' \<rparr>)"
| "muxServe all ((m, p, f) # routes) rq =
     (if methodMatches m (hqMethod rq) then (case matchPath p (hqPath rq) of Some vs \<Rightarrow> f vs rq | None \<Rightarrow> muxServe all routes rq)
      else muxServe all routes rq)"

section \<open>\<^verbatim>\<open>auth.go\<close>\<close>

fun cutBlank :: "string \<Rightarrow> (string \<times> string) option" where
  "cutBlank [] = None"
| "cutBlank (c # cs) = (if c = CHR '' '' then Some ([], cs) else map_option (\<lambda>(a, b). (c # a, b)) (cutBlank cs))"

definition credentialOf :: "HttpRequest \<Rightarrow> string" where
  "credentialOf rq = (case (hqZT1Auth rq, cutBlank (hqAuthorization rq)) of
     ([], Some (scheme, bearer)) \<Rightarrow> if scheme = ''Bearer'' then bearer else []
   | (credential, _) \<Rightarrow> credential)"

definition unauthorizedResponse :: HttpResponse where
  "unauthorizedResponse = \<lparr> hrStatus = 401, hrHeaders = [(''WWW-Authenticate'', ''Bearer, X-ZT1-Auth''), (''Content-Type'', ''application/json'')],
     hrBody = ErrorBody (Errorf ''unauthorized'') \<rparr>"

text \<open>\<open>sha256\<close> is \<^verbatim>\<open>sha256.Sum256\<close>.\<close>

definition tokenAccepted :: "(string \<Rightarrow> bytes) \<Rightarrow> string \<Rightarrow> HttpRequest \<Rightarrow> bool" where
  "tokenAccepted sha256 token rq = (sha256 (credentialOf rq) = sha256 token)"

definition RequireBearerToken ::
    "(string \<Rightarrow> bytes) \<Rightarrow> (HttpRequest \<Rightarrow> 's serving) \<Rightarrow> string \<Rightarrow> (HttpRequest \<Rightarrow> 's serving) result" where
  "RequireBearerToken sha256 next_handler token =
     (if token = [] then Inl (Errorf ''administrative API token is required'')
      else Inr (\<lambda>rq. if hqPath rq = [''healthz''] then next_handler rq
                     else if \<not> tokenAccepted sha256 token rq then respond unauthorizedResponse
                     else next_handler rq))"

section \<open>\<^verbatim>\<open>handler.go\<close>\<close>

text \<open>
  What the handlers can see besides the service: the sessions and the upstream status at the time of
  the request, the clock, whether the store gives a nil slice for an empty list (which is printed as
  null), the text of a number after it went through a \<^verbatim>\<open>float64\<close> (none when it is out of range) and the
  order in which a map of tags is iterated.
\<close>

record 's Api =
  apService :: "'s Service"
  apPeers :: "Registry option"
  apUpstreams :: "UpstreamState option"
  apNow :: "NodeID \<Rightarrow> time"
  apClock :: time
  apNilLists :: bool
  apFloat :: "string \<Rightarrow> string option"
  apOrder :: "TagValue list \<Rightarrow> TagValue list"

definition encSlice :: "'s Api \<Rightarrow> RawMessage list \<Rightarrow> RawMessage" where
  "encSlice api js = (if js = [] \<and> apNilLists api then JNull else JArray js)"

text \<open>A \<^verbatim>\<open>map[string]any\<close> is printed in the order of its keys.\<close>

definition encObject :: "(string \<times> RawMessage) list \<Rightarrow> RawMessage" where
  "encObject kvs = encMap (\<lambda>j. j) (fmap_of_list kvs)"

definition encNat :: "nat \<Rightarrow> RawMessage" where "encNat n = JNumber (decstring n)"

definition encUpstreamStatus :: "UpstreamStatus \<Rightarrow> RawMessage result" where
  "encUpstreamStatus s = rbind (encTime (stLastAttempt s)) (\<lambda>attempt. rbind (encTime (stLastSuccess s)) (\<lambda>success.
     Inr (JObject [(''peer'', encString (stPeer s)), (''endpoint'', encString (stEndpoint s)), (''lastAttempt'', attempt),
       (''lastSuccess'', success), (''pending'', JBool (stPending s))])))"

definition httpHealth :: "'s Api \<Rightarrow> string list \<Rightarrow> HttpRequest \<Rightarrow> 's serving" where
  "httpHealth api vs rq w = (case svcPing (apService api) (hqContext rq) w of
     (Inl e, w') \<Rightarrow> (\<lparr> hrStatus = 503, hrHeaders = [(''Content-Type'', ''application/json'')], hrBody = UnavailableBody e \<rparr>, w')
   | (Inr _, w') \<Rightarrow> (writeJSON 200
       (rbind (case apUpstreams api of None \<Rightarrow> Inr []
          | Some us \<Rightarrow> rbind (mapM encUpstreamStatus (upstreamStatusList us)) (\<lambda>js. Inr [(''upstreams'', JArray js)])) (\<lambda>upstreams.
        Inr (encObject ([(''status'', JString ''ok''), (''databaseReady'', JBool True),
          (''controllerAddress'', encString (svControllerID (apService api)))] @ upstreams)))), w'))"

text \<open>The loop that counts the members of every network.\<close>

fun countMembers :: "'s Service \<Rightarrow> Context \<Rightarrow> Network list \<Rightarrow> nat \<Rightarrow> ('s, nat) operation" where
  "countMembers sv ctx [] n = sret n"
| "countMembers sv ctx (network # networks) n =
     sbind (svcListMembers sv ctx (nwID network)) (\<lambda>members. countMembers sv ctx networks (n + length members))"

definition runtimeCounts :: "'s Api \<Rightarrow> HttpRequest \<Rightarrow> ('s, nat \<times> nat \<times> nat) operation" where
  "runtimeCounts api rq =
     sbind (svcListNetworks (apService api) (hqContext rq)) (\<lambda>networks.
     sbind (countMembers (apService api) (hqContext rq) networks 0) (\<lambda>members.
     sret (length networks, members, case apPeers api of None \<Rightarrow> 0 | Some r \<Rightarrow> length (ListSessions r))))"

definition metricsText :: "nat \<Rightarrow> nat \<Rightarrow> nat \<Rightarrow> nat \<Rightarrow> string" where
  "metricsText up networks members peerCount = concat (map (\<lambda>l. l @ [CHR 0x0a])
     [''# HELP ztgotroller_up Whether persistence is available.'', ''# TYPE ztgotroller_up gauge'', ''ztgotroller_up '' @ decstring up,
      ''# TYPE ztgotroller_networks gauge'', ''ztgotroller_networks '' @ decstring networks,
      ''# TYPE ztgotroller_members gauge'', ''ztgotroller_members '' @ decstring members,
      ''# TYPE ztgotroller_authenticated_peers gauge'', ''ztgotroller_authenticated_peers '' @ decstring peerCount])"

definition httpMetrics :: "'s Api \<Rightarrow> string list \<Rightarrow> HttpRequest \<Rightarrow> 's serving" where
  "httpMetrics api vs rq w = (case runtimeCounts api rq w of (r, w') \<Rightarrow>
     (\<lparr> hrStatus = 200, hrHeaders = [(''Content-Type'', ''text/plain; version=0.0.4'')],
        hrBody = TextBody (case r of Inl _ \<Rightarrow> metricsText 0 0 0 0
          | Inr (networks, members, peerCount) \<Rightarrow> metricsText 1 networks members peerCount) \<rparr>, w'))"

definition httpListNetworks :: "'s Api \<Rightarrow> string list \<Rightarrow> HttpRequest \<Rightarrow> 's serving" where
  "httpListNetworks api vs rq = serveCall (svcListNetworks (apService api) (hqContext rq)) (\<lambda>networks.
     respond (writeJSON 200 (rbind (mapM marshalNetwork networks) (\<lambda>js. Inr (encSlice api js)))))"

definition httpGetNetwork :: "'s Api \<Rightarrow> string list \<Rightarrow> HttpRequest \<Rightarrow> 's serving" where
  "httpGetNetwork api vs rq = parsePath (ParseNetworkID (vs ! 0)) (\<lambda>networkID.
     serveCall (svcGetNetwork (apService api) (hqContext rq) networkID) (\<lambda>network. respond (writeJSON 200 (marshalNetwork network))))"

text \<open>The body of an update: the revision beside the promoted fields of the embedded struct.\<close>

definition networkUpdateFields :: "bool \<Rightarrow> NetworkUpdate fields" where
  "networkUpdateFields strict = [(''name'', fld decString nuName nuName_update),
     (''private'', fld decBool nuPrivate nuPrivate_update),
     (''mtu'', fld decInt nuMTU nuMTU_update),
     (''multicastLimit'', fld decInt nuMulticastLimit nuMulticastLimit_update),
     (''enableBroadcast'', fld decBool nuEnableBroadcast nuEnableBroadcast_update),
     (''assignment'', fld (decStruct strict modesFields) nuAssignment nuAssignment_update),
     (''routes'', fld (decList (decStruct strict routeFields) zeroRoute) nuRoutes nuRoutes_update),
     (''ipPools'', fld (decList (decStruct strict poolFields) zeroPool) nuIPPools nuIPPools_update),
     (''dns'', fld (decPtr (decStruct strict dnsFields) zeroDNS) nuDNS nuDNS_update),
     (''rules'', fld (decList (decStruct strict ruleFields) zeroRule) nuRules nuRules_update),
     (''capabilities'', fld (decList (decStruct strict (capabilityFields strict)) zeroCapability) nuCapabilities nuCapabilities_update),
     (''tags'', fld (decList (decStruct strict tagDefinitionFields) zeroTagDefinition) nuTags nuTags_update),
     (''authTokens'', fld (decMap decUint 0) nuAuthTokens nuAuthTokens_update),
     (''rulesSource'', fld decString nuRulesSource nuRulesSource_update),
     (''remoteTraceTarget'', fld decString nuRemoteTraceTarget nuRemoteTraceTarget_update),
     (''remoteTraceLevel'', fld decUint nuRemoteTraceLevel nuRemoteTraceLevel_update),
     (''ssoEnabled'', fld decBool nuSSOEnabled nuSSOEnabled_update)]"

definition zeroNetworkUpdate :: NetworkUpdate where
  "zeroNetworkUpdate = \<lparr> nuName = [], nuPrivate = False, nuMTU = 0, nuMulticastLimit = 0, nuEnableBroadcast = False, nuAssignment = zeroModes,
     nuRoutes = [], nuIPPools = [], nuDNS = None, nuRules = [], nuCapabilities = [], nuTags = [], nuAuthTokens = None, nuRulesSource = [],
     nuRemoteTraceTarget = [], nuRemoteTraceLevel = 0, nuSSOEnabled = False \<rparr>"

definition memberUpdateFields :: "bool \<Rightarrow> MemberUpdate fields" where
  "memberUpdateFields strict = [(''name'', fld decString muName muName_update),
     (''activeBridge'', fld decBool muActiveBridge muActiveBridge_update),
     (''networkRelay'', fld decBool muNetworkRelay muNetworkRelay_update),
     (''multicastReplicator'', fld decBool muMulticastReplicator muMulticastReplicator_update),
     (''noAutoAssignIps'', fld decBool muNoAutoAssign muNoAutoAssign_update),
     (''ipAssignments'', fld (decList decAddr NoAddr) muIPAssignments muIPAssignments_update),
     (''capabilities'', fld (decList decUint 0) muCapabilities muCapabilities_update),
     (''tags'', fld (decList (decStruct strict tagValueFields) zeroTagValue) muTags muTags_update),
     (''authenticationExpiryTime'', fld decUint muAuthenticationExpiryTime muAuthenticationExpiryTime_update),
     (''authenticationURL'', fld decString muAuthenticationURL muAuthenticationURL_update),
     (''remoteTraceTarget'', fld decString muRemoteTraceTarget muRemoteTraceTarget_update),
     (''remoteTraceLevel'', fld decUint muRemoteTraceLevel muRemoteTraceLevel_update),
     (''ssoExempt'', fld decBool muSSOExempt muSSOExempt_update)]"

definition zeroMemberUpdate :: MemberUpdate where
  "zeroMemberUpdate = \<lparr> muName = [], muActiveBridge = False, muNetworkRelay = False, muMulticastReplicator = False, muNoAutoAssign = False,
     muIPAssignments = [], muCapabilities = [], muTags = [], muAuthenticationExpiryTime = 0, muAuthenticationURL = [],
     muRemoteTraceTarget = [], muRemoteTraceLevel = 0, muSSOExempt = False \<rparr>"

definition revisioned :: "'u fields \<Rightarrow> (uint64 \<times> 'u) fields" where
  "revisioned fs = (''revision'', setField decUint fst (\<lambda>v (_, u). (v, u)))
     # map (\<lambda>(k, dec). (k, \<lambda>(v, u) j. rbind (dec u j) (\<lambda>u'. Inr (v, u')))) fs"

definition httpUpdateNetwork :: "'s Api \<Rightarrow> string list \<Rightarrow> HttpRequest \<Rightarrow> 's serving" where
  "httpUpdateNetwork api vs rq = parsePath (ParseNetworkID (vs ! 0)) (\<lambda>networkID.
     decodeJSON rq (decStruct True (revisioned (networkUpdateFields True))) (0, zeroNetworkUpdate) (\<lambda>(revision, update).
     serveCall (UpdateNetwork (apService api) (hqContext rq) networkID update revision) (\<lambda>network.
     respond (writeJSON 200 (marshalNetwork network)))))"

definition createNetworkFields :: "(uint32 \<times> string) fields" where
  "createNetworkFields = [(''sequence'', setField decUint fst (\<lambda>v (_, n). (v, n))), (''name'', setField decString snd (\<lambda>v (s, _). (s, v)))]"

definition httpCreateNetwork :: "'s Api \<Rightarrow> string list \<Rightarrow> HttpRequest \<Rightarrow> 's serving" where
  "httpCreateNetwork api vs rq = decodeJSON rq (decStruct True createNetworkFields) (0, []) (\<lambda>(sequence, name).
     serveCall (CreateNetwork (apService api) (hqContext rq) sequence name) (\<lambda>network.
     respond (writeJSON 201 (marshalNetwork network))))"

definition withMemberPath :: "string list \<Rightarrow> (NetworkID \<Rightarrow> NodeID \<Rightarrow> 's serving) \<Rightarrow> 's serving" where
  "withMemberPath vs f = parsePath (ParseNetworkID (vs ! 0)) (\<lambda>networkID. parsePath (ParseNodeID (vs ! 1)) (\<lambda>nodeID. f networkID nodeID))"

definition httpRegisterMember :: "'s Api \<Rightarrow> string list \<Rightarrow> HttpRequest \<Rightarrow> 's serving" where
  "httpRegisterMember api vs rq = withMemberPath vs (\<lambda>networkID nodeID.
     serveCall (RegisterMember (apService api) (hqContext rq) networkID nodeID) (\<lambda>member. respond (writeJSON 200 (marshalMember member))))"

definition httpListMembers :: "'s Api \<Rightarrow> string list \<Rightarrow> HttpRequest \<Rightarrow> 's serving" where
  "httpListMembers api vs rq = parsePath (ParseNetworkID (vs ! 0)) (\<lambda>networkID.
     serveCall (svcListMembers (apService api) (hqContext rq) networkID) (\<lambda>members.
     respond (writeJSON 200 (rbind (mapM marshalMember members) (\<lambda>js. Inr (encSlice api js))))))"

definition httpGetMember :: "'s Api \<Rightarrow> string list \<Rightarrow> HttpRequest \<Rightarrow> 's serving" where
  "httpGetMember api vs rq = withMemberPath vs (\<lambda>networkID nodeID.
     serveCall (svcGetMember (apService api) (hqContext rq) networkID nodeID) (\<lambda>member. respond (writeJSON 200 (marshalMember member))))"

definition httpUpdateMember :: "'s Api \<Rightarrow> string list \<Rightarrow> HttpRequest \<Rightarrow> 's serving" where
  "httpUpdateMember api vs rq = withMemberPath vs (\<lambda>networkID nodeID.
     decodeJSON rq (decStruct True (revisioned (memberUpdateFields True))) (0, zeroMemberUpdate) (\<lambda>(revision, update).
     serveCall (UpdateMember (apService api) (hqContext rq) networkID nodeID update revision) (\<lambda>member.
     respond (writeJSON 200 (marshalMember member)))))"

definition authorizationFields :: "(bool \<times> uint64) fields" where
  "authorizationFields = [(''authorized'', setField decBool fst (\<lambda>v (_, r). (v, r))), (''revision'', setField decUint snd (\<lambda>v (a, _). (a, v)))]"

definition httpSetAuthorization :: "'s Api \<Rightarrow> string list \<Rightarrow> HttpRequest \<Rightarrow> 's serving" where
  "httpSetAuthorization api vs rq = withMemberPath vs (\<lambda>networkID nodeID.
     decodeJSON rq (decStruct True authorizationFields) (False, 0) (\<lambda>(authorized, revision).
     serveCall (SetMemberAuthorization (apService api) (hqContext rq) networkID nodeID authorized revision) (\<lambda>member.
     respond (writeJSON 200 (marshalMember member)))))"

definition nativeRoutes :: "'s Api \<Rightarrow> 's route list" where
  "nativeRoutes api =
    [(''GET'', [Lit ''healthz''], httpHealth api), (''GET'', [Lit ''metrics''], httpMetrics api),
     (''POST'', [Lit ''v1'', Lit ''networks''], httpCreateNetwork api), (''GET'', [Lit ''v1'', Lit ''networks''], httpListNetworks api),
     (''GET'', [Lit ''v1'', Lit ''networks'', Wild], httpGetNetwork api), (''PUT'', [Lit ''v1'', Lit ''networks'', Wild], httpUpdateNetwork api),
     (''POST'', [Lit ''v1'', Lit ''networks'', Wild, Lit ''members'', Wild], httpRegisterMember api),
     (''GET'', [Lit ''v1'', Lit ''networks'', Wild, Lit ''members''], httpListMembers api),
     (''GET'', [Lit ''v1'', Lit ''networks'', Wild, Lit ''members'', Wild], httpGetMember api),
     (''PUT'', [Lit ''v1'', Lit ''networks'', Wild, Lit ''members'', Wild], httpUpdateMember api),
     (''PUT'', [Lit ''v1'', Lit ''networks'', Wild, Lit ''members'', Wild, Lit ''authorization''], httpSetAuthorization api)]"

end
