(* ===== verification/TextSpace.thy ===== *)
theory TextSpace
  imports Prelude
begin

text \<open>
  \<^verbatim>\<open>strings.TrimSpace\<close>: white space is cut from both ends of a text, and nothing else.
\<close>

text \<open>The spaces \<^verbatim>\<open>strings.TrimSpace\<close> cuts, in UTF-8.\<close>

definition unicodeSpaces :: "string list" where
  "unicodeSpaces = [[CHR 0x09], [CHR 0x0a], [CHR 0x0b], [CHR 0x0c], [CHR 0x0d], [CHR 0x20], [CHR 0xc2, CHR 0x85], [CHR 0xc2, CHR 0xa0],
     [CHR 0xe1, CHR 0x9a, CHR 0x80]]
     @ map (\<lambda>n. [CHR 0xe2, CHR 0x80, char_of n]) [0x80 ::nat, 0x81, 0x82, 0x83, 0x84, 0x85, 0x86, 0x87, 0x88, 0x89, 0x8a, 0xa8, 0xa9, 0xaf]
     @ [[CHR 0xe2, CHR 0x81, CHR 0x9f], [CHR 0xe3, CHR 0x80, CHR 0x80]]"

function dropSpaces :: "string list \<Rightarrow> string \<Rightarrow> string" where
  "dropSpaces spaces s = (case find (\<lambda>p. p \<noteq> [] \<and> take (length p) s = p) spaces of
     None \<Rightarrow> s | Some p \<Rightarrow> dropSpaces spaces (drop (length p) s))"
  by pat_completeness auto
termination
proof (relation "measure (length \<circ> snd)", simp)
  fix spaces :: "string list" and s p :: string
  assume "find (\<lambda>p. p \<noteq> [] \<and> take (length p) s = p) spaces = Some p"
  then have "p \<noteq> []" "take (length p) s = p" by (auto simp: find_Some_iff)
  then have "0 < length p" "length p \<le> length s" by (simp, metis length_take min.cobounded1)
  then have "length s - length p < length s" by linarith
  then show "((spaces, drop (length p) s), spaces, s) \<in> measure (length \<circ> snd)" by simp
qed

declare dropSpaces.simps [simp del]

definition TrimSpace :: "string \<Rightarrow> string" where
  "TrimSpace s = rev (dropSpaces (map rev unicodeSpaces) (rev (dropSpaces unicodeSpaces s)))"

lemma dropSpaces_none:
  assumes "\<And>p. p \<in> set spaces \<Longrightarrow> p \<noteq> [] \<Longrightarrow> take (length p) s \<noteq> p"
  shows "dropSpaces spaces s = s"
proof -
  have "find (\<lambda>p. p \<noteq> [] \<and> take (length p) s = p) spaces = None" using assms by (auto simp: find_None_iff)
  then show ?thesis by (subst dropSpaces.simps) simp
qed

text \<open>A text that begins and ends with printable ASCII is left alone.\<close>

definition printable :: "char \<Rightarrow> bool" where
  "printable c = (let n = of_char c :: nat in 0x21 \<le> n \<and> n < 0x7f)"

lemma spaces_unprintable: "p \<in> set unicodeSpaces \<Longrightarrow> p \<noteq> [] \<and> \<not> printable (hd p) \<and> \<not> printable (last p)"
proof -
  have "list_all (\<lambda>p. p \<noteq> [] \<and> \<not> printable (hd p) \<and> \<not> printable (last p)) unicodeSpaces" by code_simp
  then show "p \<in> set unicodeSpaces \<Longrightarrow> p \<noteq> [] \<and> \<not> printable (hd p) \<and> \<not> printable (last p)" by (simp add: list_all_iff)
qed

lemma hd_of_take: "take (length p) s = p \<Longrightarrow> p \<noteq> [] \<Longrightarrow> hd s = hd p"
  by (metis hd_take length_greater_0_conv)

lemma TrimSpace_printable:
  assumes "s \<noteq> []" "printable (hd s)" "printable (last s)"
  shows "TrimSpace s = s"
proof -
  have "dropSpaces unicodeSpaces s = s"
    by (rule dropSpaces_none) (use assms(2) hd_of_take spaces_unprintable in metis)
  moreover have "dropSpaces (map rev unicodeSpaces) (rev s) = rev s"
  proof (rule dropSpaces_none)
    fix p assume p: "p \<in> set (map rev unicodeSpaces)" "p \<noteq> []"
    then obtain q where q: "q \<in> set unicodeSpaces" "p = rev q" by auto
    show "take (length p) (rev s) \<noteq> p"
    proof
      assume "take (length p) (rev s) = p"
      then have "hd (rev s) = hd p" using p(2) by (rule hd_of_take)
      then show False using assms spaces_unprintable [OF q(1)] q(2) by (simp add: hd_rev)
    qed
  qed
  ultimately show ?thesis by (simp add: TrimSpace_def)
qed

end
