(* ===== verification/LegacyApi.thy ===== *)
theory LegacyApi
  imports HttpApi TextSpace
begin

unbundle bit_operations_syntax

text \<open>
  \<^verbatim>\<open>internal/api/httpapi/legacy.go\<close>: the API of the original controller. A patch is decoded with every
  field optional and laid over the stored document; objects are written in the order of their keys.
\<close>

section \<open>Patches\<close>

record legacyV4AssignMode =
  v4ZT :: bool

record legacyV6AssignMode =
  v6RFC4193 :: bool
  v6ZT :: bool
  v6SixPlane :: bool

record legacyRoute =
  lrTarget :: string
  lrVia :: "string option"

record legacyIPPool =
  liStart :: string
  liEnd :: string

record legacyCapability =
  lcID :: uint32
  lcDefault :: bool
  lcRules :: "(string, RawMessage) fmap option list"

record legacyTag =
  ltID :: uint32
  ltDefault :: "uint32 option"

record legacyNetworkPatch =
  npName :: "string option"
  npPrivate :: "bool option"
  npMTU :: "int option"
  npMulticastLimit :: "int option"
  npEnableBroadcast :: "bool option"
  npV4AssignMode :: "legacyV4AssignMode option"
  npV6AssignMode :: "legacyV6AssignMode option"
  npRoutes :: "legacyRoute list option"
  npIPAssignmentPools :: "legacyIPPool list option"
  npDNS :: "DNSConfig option"
  npRules :: "(string, RawMessage) fmap option list option"
  npCapabilities :: "legacyCapability list option"
  npTags :: "legacyTag list option"
  npAuthTokens :: "(string, uint64) fmap option option"
  npRulesSource :: "string option"
  npRemoteTraceTarget :: "string option"
  npRemoteTraceLevel :: "uint64 option"
  npSSOEnabled :: "bool option"

record legacyMemberPatch =
  mpName :: "string option"
  mpAuthorized :: "bool option"
  mpActiveBridge :: "bool option"
  mpNetworkRelay :: "bool option"
  mpMulticastReplicator :: "bool option"
  mpNoAutoAssignIPs :: "bool option"
  mpIPAssignments :: "Addr list option"
  mpCapabilities :: "uint32 list option"
  mpTags :: "uint32 list list option"
  mpAuthenticationExpiryTime :: "uint64 option"
  mpAuthenticationURL :: "string option"
  mpRemoteTraceTarget :: "string option"
  mpRemoteTraceLevel :: "uint64 option"
  mpSSOExempt :: "bool option"

text \<open>\<^verbatim>\<open>UnmarshalJSON\<close> of the two modes; null never reaches it.\<close>

definition v4Fields :: "legacyV4AssignMode fields" where
  "v4Fields = [(''zt'', fld decBool v4ZT v4ZT_update)]"

fun decV4 :: "legacyV4AssignMode decoder" where
  "decV4 mode (JString legacy) = Inr (mode\<lparr>v4ZT := (legacy = ''zt'')\<rparr>)"
| "decV4 mode j = decStruct False v4Fields mode j"

definition v6Fields :: "legacyV6AssignMode fields" where
  "v6Fields = [(''rfc4193'', fld decBool v6RFC4193 v6RFC4193_update), (''zt'', fld decBool v6ZT v6ZT_update),
     (''6plane'', fld decBool v6SixPlane v6SixPlane_update)]"

fun applyV6Names :: "string list \<Rightarrow> legacyV6AssignMode \<Rightarrow> legacyV6AssignMode" where
  "applyV6Names [] mode = mode"
| "applyV6Names (value # values) mode = applyV6Names values (let name = TrimSpace value in
     if name = ''rfc4193'' then mode\<lparr>v6RFC4193 := True\<rparr> else if name = ''zt'' then mode\<lparr>v6ZT := True\<rparr>
     else if name = ''6plane'' then mode\<lparr>v6SixPlane := True\<rparr> else mode)"

fun decV6 :: "legacyV6AssignMode decoder" where
  "decV6 mode (JString legacy) = Inr (applyV6Names (splitOn CHR '','' legacy) mode)"
| "decV6 mode j = decStruct False v6Fields mode j"

definition legacyRouteFields :: "legacyRoute fields" where
  "legacyRouteFields = [(''target'', fld decString lrTarget lrTarget_update), (''via'', fld (decPtr decString []) lrVia lrVia_update)]"

definition legacyIPPoolFields :: "legacyIPPool fields" where
  "legacyIPPoolFields = [(''ipRangeStart'', fld decString liStart liStart_update), (''ipRangeEnd'', fld decString liEnd liEnd_update)]"

definition decRawRules :: "(string, RawMessage) fmap option list decoder" where
  "decRawRules = decList (decMap decRaw JNull) None"

definition legacyCapabilityFields :: "legacyCapability fields" where
  "legacyCapabilityFields = [(''id'', fld decUint lcID lcID_update), (''default'', fld decBool lcDefault lcDefault_update),
     (''rules'', fld decRawRules lcRules lcRules_update)]"

definition legacyTagFields :: "legacyTag fields" where
  "legacyTagFields = [(''id'', fld decUint ltID ltID_update), (''default'', fld (decPtr decUint 0) ltDefault ltDefault_update)]"

definition networkPatchFields :: "legacyNetworkPatch fields" where
  "networkPatchFields = [(''name'', fld (decPtr decString []) npName npName_update),
     (''private'', fld (decPtr decBool False) npPrivate npPrivate_update),
     (''mtu'', fld (decPtr decInt 0) npMTU npMTU_update),
     (''multicastLimit'', fld (decPtr decInt 0) npMulticastLimit npMulticastLimit_update),
     (''enableBroadcast'', fld (decPtr decBool False) npEnableBroadcast npEnableBroadcast_update),
     (''v4AssignMode'', fld (decPtr decV4 \<lparr> v4ZT = False \<rparr>) npV4AssignMode npV4AssignMode_update),
     (''v6AssignMode'', fld (decPtr decV6 \<lparr> v6RFC4193 = False, v6ZT = False, v6SixPlane = False \<rparr>) npV6AssignMode npV6AssignMode_update),
     (''routes'', fld (decPtr (decList (decStruct False legacyRouteFields) \<lparr> lrTarget = [], lrVia = None \<rparr>) []) npRoutes npRoutes_update),
     (''ipAssignmentPools'', fld (decPtr (decList (decStruct False legacyIPPoolFields) \<lparr> liStart = [], liEnd = [] \<rparr>) [])
       npIPAssignmentPools npIPAssignmentPools_update),
     (''dns'', fld (decPtr (decStruct False dnsFields) zeroDNS) npDNS npDNS_update),
     (''rules'', fld (decPtr decRawRules []) npRules npRules_update),
     (''capabilities'', fld (decPtr (decList (decStruct False legacyCapabilityFields) \<lparr> lcID = 0, lcDefault = False, lcRules = [] \<rparr>) [])
       npCapabilities npCapabilities_update),
     (''tags'', fld (decPtr (decList (decStruct False legacyTagFields) \<lparr> ltID = 0, ltDefault = None \<rparr>) []) npTags npTags_update),
     (''authTokens'', fld (decPtr (decMap decUint 0) None) npAuthTokens npAuthTokens_update),
     (''rulesSource'', fld (decPtr decString []) npRulesSource npRulesSource_update),
     (''remoteTraceTarget'', fld (decPtr decString []) npRemoteTraceTarget npRemoteTraceTarget_update),
     (''remoteTraceLevel'', fld (decPtr decUint 0) npRemoteTraceLevel npRemoteTraceLevel_update),
     (''ssoEnabled'', fld (decPtr decBool False) npSSOEnabled npSSOEnabled_update)]"

definition emptyNetworkPatch :: legacyNetworkPatch where
  "emptyNetworkPatch = \<lparr> npName = None, npPrivate = None, npMTU = None, npMulticastLimit = None, npEnableBroadcast = None,
     npV4AssignMode = None, npV6AssignMode = None, npRoutes = None, npIPAssignmentPools = None, npDNS = None, npRules = None,
     npCapabilities = None, npTags = None, npAuthTokens = None, npRulesSource = None, npRemoteTraceTarget = None,
     npRemoteTraceLevel = None, npSSOEnabled = None \<rparr>"

definition memberPatchFields :: "legacyMemberPatch fields" where
  "memberPatchFields = [(''name'', fld (decPtr decString []) mpName mpName_update),
     (''authorized'', fld (decPtr decBool False) mpAuthorized mpAuthorized_update),
     (''activeBridge'', fld (decPtr decBool False) mpActiveBridge mpActiveBridge_update),
     (''networkRelay'', fld (decPtr decBool False) mpNetworkRelay mpNetworkRelay_update),
     (''multicastReplicator'', fld (decPtr decBool False) mpMulticastReplicator mpMulticastReplicator_update),
     (''noAutoAssignIps'', fld (decPtr decBool False) mpNoAutoAssignIPs mpNoAutoAssignIPs_update),
     (''ipAssignments'', fld (decPtr (decList decAddr NoAddr) []) mpIPAssignments mpIPAssignments_update),
     (''capabilities'', fld (decPtr (decList decUint 0) []) mpCapabilities mpCapabilities_update),
     (''tags'', fld (decPtr (decList (decList decUint 0) []) []) mpTags mpTags_update),
     (''authenticationExpiryTime'', fld (decPtr decUint 0) mpAuthenticationExpiryTime mpAuthenticationExpiryTime_update),
     (''authenticationURL'', fld (decPtr decString []) mpAuthenticationURL mpAuthenticationURL_update),
     (''remoteTraceTarget'', fld (decPtr decString []) mpRemoteTraceTarget mpRemoteTraceTarget_update),
     (''remoteTraceLevel'', fld (decPtr decUint 0) mpRemoteTraceLevel mpRemoteTraceLevel_update),
     (''ssoExempt'', fld (decPtr decBool False) mpSSOExempt mpSSOExempt_update)]"

definition emptyMemberPatch :: legacyMemberPatch where
  "emptyMemberPatch = \<lparr> mpName = None, mpAuthorized = None, mpActiveBridge = None, mpNetworkRelay = None, mpMulticastReplicator = None,
     mpNoAutoAssignIPs = None, mpIPAssignments = None, mpCapabilities = None, mpTags = None, mpAuthenticationExpiryTime = None,
     mpAuthenticationURL = None, mpRemoteTraceTarget = None, mpRemoteTraceLevel = None, mpSSOExempt = None \<rparr>"

definition decodeLegacyJSON :: "HttpRequest \<Rightarrow> 'a decoder \<Rightarrow> 'a \<Rightarrow> ('a \<Rightarrow> 's serving) \<Rightarrow> 's serving" where
  "decodeLegacyJSON rq dec zero f = (case hqBody rq of
     None \<Rightarrow> respond (writeFailure 400 (Errorf ''invalid JSON body''))
   | Some j \<Rightarrow> (case dec zero j of
       Inl _ \<Rightarrow> respond (writeFailure 400 (Errorf ''invalid JSON body''))
     | Inr patch \<Rightarrow>
         if hqTrailing rq then respond (writeFailure 400 (Errorf ''body must contain one JSON value'')) else f patch))"

section \<open>From a patch to an update\<close>

text \<open>\<^verbatim>\<open>netip.Prefix.Masked\<close>, which also drops the zone.\<close>

fun Masked :: "Prefix \<Rightarrow> Prefix" where
  "Masked p = (if \<not> prefixIsValid p then zeroPrefix else case pfAddr p of
     Addr4 x \<Rightarrow> p\<lparr>pfAddr := Addr4 (let k = 32 - nat (pfBits p) in push_bit k (drop_bit k x))\<rparr>
   | Addr6 x z \<Rightarrow> p\<lparr>pfAddr := Addr6 (let k = 128 - nat (pfBits p) in push_bit k (drop_bit k x)) []\<rparr>
   | NoAddr \<Rightarrow> zeroPrefix)"

definition parseLegacyRoute :: "legacyRoute \<Rightarrow> Route list" where
  "parseLegacyRoute value = (case ParsePrefix (lrTarget value) of
     Inl _ \<Rightarrow> []
   | Inr target \<Rightarrow> [\<lparr> rtTarget = Masked target, rtVia = (case lrVia value of None \<Rightarrow> NoAddr
       | Some v \<Rightarrow> (case ParseAddr v of Inl _ \<Rightarrow> NoAddr | Inr via \<Rightarrow> if Is4 via = Is4 (pfAddr target) then via else NoAddr)) \<rparr>])"

definition parseLegacyRoutes :: "legacyRoute list \<Rightarrow> Route list" where
  "parseLegacyRoutes input = concat (map parseLegacyRoute input)"

definition parseLegacyPools :: "legacyIPPool list \<Rightarrow> IPPool list" where
  "parseLegacyPools input = concat (map (\<lambda>value. case (ParseAddr (liStart value), ParseAddr (liEnd value)) of
     (Inr start, Inr end_) \<Rightarrow> if Is4 start = Is4 end_ \<and> Compare start end_ \<le> 0 then [\<lparr> plStart = start, plEnd = end_ \<rparr>] else []
   | _ \<Rightarrow> []) input)"

text \<open>\<^verbatim>\<open>json.Unmarshal(raw[key], &field)\<close> with its error ignored.\<close>

definition unmarshalKey :: "'a decoder \<Rightarrow> 'a \<Rightarrow> string \<Rightarrow> (string, RawMessage) fmap \<Rightarrow> 'a" where
  "unmarshalKey dec zero k raw = (case fmlookup raw k of None \<Rightarrow> zero
     | Some j \<Rightarrow> (case dec zero j of Inr v \<Rightarrow> v | Inl _ \<Rightarrow> zero))"

definition parseLegacyRule :: "(string, RawMessage) fmap option \<Rightarrow> Rule list" where
  "parseLegacyRule input =
     (let raw = (case input of Some m \<Rightarrow> m | None \<Rightarrow> fmempty);
          rule = \<lparr> ruType = unmarshalKey decString [] ''type'' raw, ruNegate = unmarshalKey decBool False ''not'' raw,
            ruOr = unmarshalKey decBool False ''or'' raw, ruParameters = fmdrop ''or'' (fmdrop ''not'' (fmdrop ''type'' raw)) \<rparr>
      in if ruType rule \<noteq> [] then [rule] else [])"

definition parseLegacyRules :: "(string, RawMessage) fmap option list \<Rightarrow> Rule list" where
  "parseLegacyRules input = concat (map parseLegacyRule input)"

definition parseLegacyCapabilities :: "legacyCapability list \<Rightarrow> Capability list" where
  "parseLegacyCapabilities = map (\<lambda>value. \<lparr> cpID = lcID value, cpDefault = lcDefault value, cpRules = parseLegacyRules (lcRules value) \<rparr>)"

text \<open>The pairs of a list, the last of an identifier winning, in the order the map gives them.\<close>

definition legacyMemberTags :: "'s Api \<Rightarrow> uint32 list list \<Rightarrow> TagValue list" where
  "legacyMemberTags api input = apOrder api
     (let pairs = filter (\<lambda>pair. length pair = 2) input; byID = fmap_of_list (rev (map (\<lambda>pair. (pair ! 0, pair ! 1)) pairs)) in
      map (\<lambda>(i, v). \<lparr> tvID = i, tvValue = v \<rparr>) (sorted_list_of_fmap byID))"

definition uniqueUint32 :: "uint32 list \<Rightarrow> uint32 list" where
  "uniqueUint32 input = foldl (\<lambda>result value. if value \<in> set result then result else result @ [value]) [] input"

abbreviation overlay :: "'a option \<Rightarrow> 'a \<Rightarrow> 'a" where
  "overlay patch current \<equiv> case patch of None \<Rightarrow> current | Some v \<Rightarrow> v"

definition networkUpdateForPatch :: "Network \<Rightarrow> legacyNetworkPatch \<Rightarrow> NetworkUpdate" where
  "networkUpdateForPatch network patch =
    (let v4 = (\<lambda>a. case npV4AssignMode patch of None \<Rightarrow> a | Some m \<Rightarrow> a\<lparr>amIPv4ZeroTier := v4ZT m\<rparr>);
         v6 = (\<lambda>a. case npV6AssignMode patch of None \<Rightarrow> a
           | Some m \<Rightarrow> a\<lparr>amIPv6RFC4193 := v6RFC4193 m, amIPv6ZeroTier := v6ZT m, amIPv6SixPlane := v6SixPlane m\<rparr>) in
     \<lparr> nuName = overlay (npName patch) (nwName network), nuPrivate = overlay (npPrivate patch) (nwPrivate network),
       nuMTU = overlay (npMTU patch) (nwMTU network), nuMulticastLimit = overlay (npMulticastLimit patch) (nwMulticastLimit network),
       nuEnableBroadcast = overlay (npEnableBroadcast patch) (nwEnableBroadcast network), nuAssignment = v6 (v4 (nwAssignment network)),
       nuRoutes = overlay (map_option parseLegacyRoutes (npRoutes patch)) (nwRoutes network),
       nuIPPools = overlay (map_option parseLegacyPools (npIPAssignmentPools patch)) (nwIPPools network),
       nuDNS = (case npDNS patch of None \<Rightarrow> nwDNS network | Some d \<Rightarrow> Some d),
       nuRules = overlay (map_option parseLegacyRules (npRules patch)) (nwRules network),
       nuCapabilities = overlay (map_option parseLegacyCapabilities (npCapabilities patch)) (nwCapabilities network),
       nuTags = overlay (map_option (map (\<lambda>tag. \<lparr> tdID = ltID tag, tdDefault = ltDefault tag \<rparr>)) (npTags patch)) (nwTags network),
       nuAuthTokens = overlay (npAuthTokens patch) (nwAuthTokens network),
       nuRulesSource = overlay (npRulesSource patch) (nwRulesSource network),
       nuRemoteTraceTarget = overlay (npRemoteTraceTarget patch) (nwRemoteTraceTarget network),
       nuRemoteTraceLevel = overlay (npRemoteTraceLevel patch) (nwRemoteTraceLevel network),
       nuSSOEnabled = overlay (npSSOEnabled patch) (nwSSOEnabled network) \<rparr>)"

definition memberUpdateForPatch :: "'s Api \<Rightarrow> Member \<Rightarrow> legacyMemberPatch \<Rightarrow> MemberUpdate" where
  "memberUpdateForPatch api member patch =
     \<lparr> muName = overlay (mpName patch) (mbName member), muActiveBridge = overlay (mpActiveBridge patch) (mbActiveBridge member),
       muNetworkRelay = overlay (mpNetworkRelay patch) (mbNetworkRelay member),
       muMulticastReplicator = overlay (mpMulticastReplicator patch) (mbMulticastReplicator member),
       muNoAutoAssign = overlay (mpNoAutoAssignIPs patch) (mbNoAutoAssign member),
       muIPAssignments = overlay (mpIPAssignments patch) (mbIPAssignments member),
       muCapabilities = overlay (map_option uniqueUint32 (mpCapabilities patch)) (mbCapabilities member),
       muTags = overlay (map_option (legacyMemberTags api) (mpTags patch)) (mbTags member),
       muAuthenticationExpiryTime = overlay (mpAuthenticationExpiryTime patch) (mbAuthenticationExpiryTime member),
       muAuthenticationURL = overlay (mpAuthenticationURL patch) (mbAuthenticationURL member),
       muRemoteTraceTarget = overlay (mpRemoteTraceTarget patch) (mbRemoteTraceTarget member),
       muRemoteTraceLevel = overlay (mpRemoteTraceLevel patch) (mbRemoteTraceLevel member),
       muSSOExempt = overlay (mpSSOExempt patch) (mbSSOExempt member) \<rparr>"

definition legacyDefaultNetwork :: "'s Api \<Rightarrow> string \<Rightarrow> Network" where
  "legacyDefaultNetwork api name = (NewNetwork (NewNetworkID (svControllerID (apService api)) 1) (UTC (apClock api)))\<lparr>nwName := name\<rparr>"

definition legacyCreationUpdate :: "'s Api \<Rightarrow> legacyNetworkPatch \<Rightarrow> NetworkUpdate" where
  "legacyCreationUpdate api patch = networkUpdateForPatch (legacyDefaultNetwork api (overlay (npName patch) [])) patch"

section \<open>Rendering\<close>

text \<open>\<^verbatim>\<open>json.Unmarshal(raw, &value)\<close> into an \<^verbatim>\<open>any\<close>, and what is written for that value.\<close>

fun decAny :: "(string \<Rightarrow> string option) \<Rightarrow> RawMessage \<Rightarrow> RawMessage option"
and decAnyList :: "(string \<Rightarrow> string option) \<Rightarrow> RawMessage list \<Rightarrow> RawMessage list option"
and decAnyMembers :: "(string \<Rightarrow> string option) \<Rightarrow> (string \<times> RawMessage) list \<Rightarrow> (string \<times> RawMessage) list option" where
  "decAny float (JNumber literal) = map_option JNumber (float literal)"
| "decAny float (JString s) = Some (encString s)"
| "decAny float (JArray js) = map_option JArray (decAnyList float js)"
| "decAny float (JObject kjs) = map_option (\<lambda>kvs. encObject (rev kvs)) (decAnyMembers float kjs)"
| "decAny float (JBool b) = Some (JBool b)"
| "decAny float JNull = Some JNull"
| "decAnyList float [] = Some []"
| "decAnyList float (j # js) = (case (decAny float j, decAnyList float js) of (Some v, Some vs) \<Rightarrow> Some (v # vs) | _ \<Rightarrow> None)"
| "decAnyMembers float [] = Some []"
| "decAnyMembers float ((k, j) # kjs) =
     (case (decAny float j, decAnyMembers float kjs) of (Some v, Some kvs) \<Rightarrow> Some ((k, v) # kvs) | _ \<Rightarrow> None)"

definition nullableString :: "string \<Rightarrow> RawMessage" where
  "nullableString value = (if value = [] then JNull else encString value)"

definition unixMilliOrZero :: "time \<Rightarrow> int" where
  "unixMilliOrZero value = (if IsZero value then 0 else UnixMilli value)"

text \<open>The parameters of a rule are set after its own keys and win over them.\<close>

definition renderParameters :: "'s Api \<Rightarrow> (string, RawMessage) fmap \<Rightarrow> (string, RawMessage) fmap" where
  "renderParameters api parameters = fmap_of_list (concat (map (\<lambda>(key, raw).
     case decAny (apFloat api) raw of None \<Rightarrow> [] | Some value \<Rightarrow> [(key, value)]) (sorted_list_of_fmap parameters)))"

definition renderLegacyRule :: "'s Api \<Rightarrow> Rule \<Rightarrow> RawMessage" where
  "renderLegacyRule api rule = encMap (\<lambda>j. j)
     (fmap_of_list [(''not'', JBool (ruNegate rule)), (''or'', JBool (ruOr rule)), (''type'', encString (ruType rule))]
      ++\<^sub>f renderParameters api (ruParameters rule))"

definition renderLegacyRules :: "'s Api \<Rightarrow> Rule list \<Rightarrow> RawMessage" where
  "renderLegacyRules api rules = JArray (map (renderLegacyRule api) rules)"

definition renderLegacyNetwork :: "'s Api \<Rightarrow> Network \<Rightarrow> (string \<times> RawMessage) list" where
  "renderLegacyNetwork api network =
    [(''authTokens'', case nwAuthTokens network of None \<Rightarrow> JNull | Some m \<Rightarrow> encMap encUint m),
     (''capabilities'', JArray (map (\<lambda>capability. encObject [(''default'', JBool (cpDefault capability)), (''id'', encUint (cpID capability)),
        (''rules'', renderLegacyRules api (cpRules capability))]) (nwCapabilities network))),
     (''creationTime'', encInt (UnixMilli (nwCreatedAt network))),
     (''dns'', case nwDNS network of None \<Rightarrow> JNull | Some d \<Rightarrow> encDNS d),
     (''enableBroadcast'', JBool (nwEnableBroadcast network)),
     (''id'', encString (nwID network)),
     (''ipAssignmentPools'', JArray (map (\<lambda>pool. encObject [(''ipRangeEnd'', encString (Addr_String (plEnd pool))),
        (''ipRangeStart'', encString (Addr_String (plStart pool)))]) (nwIPPools network))),
     (''lastModified'', encInt (UnixMilli (nwUpdatedAt network))),
     (''mtu'', encInt (nwMTU network)),
     (''multicastLimit'', encInt (nwMulticastLimit network)),
     (''name'', encString (nwName network)),
     (''nwid'', encString (nwID network)),
     (''objtype'', JString ''network''),
     (''private'', JBool (nwPrivate network)),
     (''remoteTraceLevel'', encUint (nwRemoteTraceLevel network)),
     (''remoteTraceTarget'', nullableString (nwRemoteTraceTarget network)),
     (''revision'', encUint (nwRevision network)),
     (''routes'', JArray (map (\<lambda>route. encObject [(''target'', encString (Prefix_String (rtTarget route))),
        (''via'', if addrIsValid (rtVia route) then encString (Addr_String (rtVia route)) else JNull)]) (nwRoutes network))),
     (''rules'', renderLegacyRules api (nwRules network)),
     (''rulesSource'', encString (nwRulesSource network)),
     (''ssoEnabled'', JBool (nwSSOEnabled network)),
     (''tags'', JArray (map (\<lambda>tag. encObject [(''default'', case tdDefault tag of None \<Rightarrow> JNull | Some v \<Rightarrow> encUint v),
        (''id'', encUint (tdID tag))]) (nwTags network))),
     (''v4AssignMode'', encObject [(''zt'', JBool (amIPv4ZeroTier (nwAssignment network)))]),
     (''v6AssignMode'', encObject [(''6plane'', JBool (amIPv6SixPlane (nwAssignment network))),
        (''rfc4193'', JBool (amIPv6RFC4193 (nwAssignment network))), (''zt'', JBool (amIPv6ZeroTier (nwAssignment network)))])]"

definition sessionActive :: "'s Api \<Rightarrow> Session \<Rightarrow> bool" where
  "sessionActive api session = (timeSub (apNow api (idAddress (ssIdentity session))) (ssLastSeen session) \<le> 2 * Minute)"

text \<open>The keys of a session and of the agent metadata replace those written before them.\<close>

definition renderSession :: "'s Api \<Rightarrow> Session \<Rightarrow> (string \<times> RawMessage) list" where
  "renderSession api session =
    [(''online'', JBool (sessionActive api session)), (''lastSeen'', encInt (UnixMilli (ssLastSeen session))),
     (''physicalAddress'', encString (AddrPort_String (ssEndpoint session))),
     (''physicalAddr'', encString (AddrPort_String (ssEndpoint session))),
     (''vMajor'', encUint (ssMajor session)), (''vMinor'', encUint (ssMinor session)), (''vRev'', encUint (ssRevision session)),
     (''vProto'', encUint (ssProtocolVersion session)), (''clientVersionMajor'', encUint (ssMajor session)),
     (''clientVersionMinor'', encUint (ssMinor session)), (''clientVersionRev'', encUint (ssRevision session)),
     (''clientVersionProtocol'', encUint (ssProtocolVersion session))]"

definition renderMetadata :: "AgentMetadata \<Rightarrow> (string \<times> RawMessage) list result" where
  "renderMetadata metadata = rbind (marshalAgentMetadata metadata) (\<lambda>j. Inr (
    [(''target'', encString (agTarget metadata)), (''agentMetadata'', j)]
    @ (if agProtocol metadata \<noteq> 0
       then [(''clientVersionProtocol'', encUint (agProtocol metadata)), (''vProto'', encUint (agProtocol metadata))] else [])
    @ (if agMajor metadata \<noteq> 0 \<or> agMinor metadata \<noteq> 0 \<or> agRevision metadata \<noteq> 0
       then [(''clientVersionMajor'', encUint (agMajor metadata)), (''clientVersionMinor'', encUint (agMinor metadata)),
         (''clientVersionRev'', encUint (agRevision metadata)), (''vMajor'', encUint (agMajor metadata)),
         (''vMinor'', encUint (agMinor metadata)), (''vRev'', encUint (agRevision metadata))] else [])))"

text \<open>The capabilities of a stored member are a nil slice when there are none.\<close>

definition renderStoredMember :: "Member \<Rightarrow> (string \<times> RawMessage) list" where
  "renderStoredMember member =
    [(''id'', encString (mbNodeID member)), (''address'', encString (mbNodeID member)), (''nwid'', encString (mbNetworkID member)),
     (''name'', encString (mbName member)), (''authorized'', JBool (mbAuthorized member)),
     (''activeBridge'', JBool (mbActiveBridge member)), (''networkRelay'', JBool (mbNetworkRelay member)),
     (''multicastReplicator'', JBool (mbMulticastReplicator member)), (''noAutoAssignIps'', JBool (mbNoAutoAssign member)),
     (''ipAssignments'', JArray (map (encString \<circ> Addr_String) (mbIPAssignments member))),
     (''capabilities'', if mbCapabilities member = [] then JNull else JArray (map encUint (mbCapabilities member))),
     (''tags'', JArray (map (\<lambda>tag. JArray [encUint (tvID tag), encUint (tvValue tag)]) (mbTags member))),
     (''creationTime'', encInt (UnixMilli (mbCreatedAt member))), (''revision'', encUint (mbRevision member)),
     (''lastAuthorizedTime'', encInt (unixMilliOrZero (mbLastAuthorizedAt member))),
     (''lastDeauthorizedTime'', encInt (unixMilliOrZero (mbLastDeauthorizedAt member))),
     (''authenticationExpiryTime'', encUint (mbAuthenticationExpiryTime member)),
     (''authenticationURL'', encString (mbAuthenticationURL member)),
     (''remoteTraceTarget'', nullableString (mbRemoteTraceTarget member)),
     (''remoteTraceLevel'', encUint (mbRemoteTraceLevel member)), (''ssoExempt'', JBool (mbSSOExempt member)),
     (''identity'', JString []), (''hidden'', JBool False), (''objtype'', JString ''member''), (''online'', JBool False),
     (''lastSeen'', encNat 0), (''physicalAddress'', JString []), (''clientVersionMajor'', encNat 0), (''clientVersionMinor'', encNat 0),
     (''clientVersionRev'', encNat 0), (''clientVersionProtocol'', encNat 0), (''vMajor'', encNat 0), (''vMinor'', encNat 0),
     (''vRev'', encNat 0), (''vProto'', encNat 0), (''lastAuthorizedCredential'', JNull), (''lastAuthorizedCredentialType'', JString [])]"

definition renderLegacyMember :: "'s Api \<Rightarrow> Context \<Rightarrow> Member \<Rightarrow> ('s, RawMessage) operation" where
  "renderLegacyMember api ctx member = scatch (svcGetAgentMetadata (apService api) ctx (mbNetworkID member) (mbNodeID member)) (\<lambda>metadata.
     let session = (case apPeers api of None \<Rightarrow> [] | Some r \<Rightarrow>
           (case GetSession (mbNodeID member) r of Inl _ \<Rightarrow> [] | Inr session \<Rightarrow> renderSession api session)) in
     slift (rbind (case metadata of Inl _ \<Rightarrow> Inr [] | Inr md \<Rightarrow> renderMetadata md) (\<lambda>metadata.
       Inr (encObject (metadata @ session @ renderStoredMember member)))))"

definition renderPeer :: "'s Api \<Rightarrow> Session \<Rightarrow> RawMessage" where
  "renderPeer api session =
    (let path = encObject [(''active'', JBool (sessionActive api session)), (''address'', encString (AddrPort_String (ssEndpoint session))),
           (''expired'', JBool (\<not> sessionActive api session)), (''lastReceive'', encInt (UnixMilli (ssLastSeen session))),
           (''lastSend'', encNat 0), (''preferred'', JBool True), (''trustedPathId'', encNat 0)] in
     encObject [(''address'', encString (idAddress (ssIdentity session))), (''isBonded'', JBool False), (''latency'', encInt (-1)),
       (''paths'', JArray [path]), (''role'', JString ''LEAF''),
       (''version'', encString (decstring (unat (ssMajor session)) @ ''.'' @ decstring (unat (ssMinor session)) @ ''.''
          @ decstring (unat (ssRevision session)))),
       (''versionMajor'', encUint (ssMajor session)), (''versionMinor'', encUint (ssMinor session)),
       (''versionRev'', encUint (ssRevision session)), (''physicalAddress'', encString (AddrPort_String (ssEndpoint session)))])"

section \<open>Paths\<close>

text \<open>
  \<^verbatim>\<open>strings.ToLower\<close> on the letters A to Z: no other character has a hexadecimal digit or an underscore as
  its lower case.
\<close>

definition asciiLower :: "string \<Rightarrow> string" where
  "asciiLower s = map (\<lambda>c. let n = of_char c :: nat in if 65 \<le> n \<and> n \<le> 90 then char_of (n + 32) else c) s"

definition isRandomForm :: "string \<Rightarrow> bool" where
  "isRandomForm value = (length value = 16 \<and> drop 10 value = ''______'')"

definition legacyNetworkValue :: "string \<Rightarrow> NetworkID result" where
  "legacyNetworkValue raw = (let value = asciiLower raw in ParseNetworkID (if isRandomForm value then take 10 value @ ''000001'' else value))"

definition legacyNodeValue :: "string \<Rightarrow> NodeID result" where
  "legacyNodeValue raw = ParseNodeID (asciiLower raw)"

definition legacyNetworkID :: "string \<Rightarrow> (NetworkID \<Rightarrow> 's serving) \<Rightarrow> 's serving" where
  "legacyNetworkID raw = parsePath (legacyNetworkValue raw)"

definition legacyNodeID :: "string \<Rightarrow> (NodeID \<Rightarrow> 's serving) \<Rightarrow> 's serving" where
  "legacyNodeID raw = parsePath (legacyNodeValue raw)"

definition networkFromPath :: "'s Api \<Rightarrow> string list \<Rightarrow> HttpRequest \<Rightarrow> (Network \<Rightarrow> 's serving) \<Rightarrow> 's serving" where
  "networkFromPath api vs rq f = legacyNetworkID (vs ! 0) (\<lambda>networkID. serveCall (svcGetNetwork (apService api) (hqContext rq) networkID) f)"

definition memberFromPath :: "'s Api \<Rightarrow> string list \<Rightarrow> HttpRequest \<Rightarrow> (Member \<Rightarrow> 's serving) \<Rightarrow> 's serving" where
  "memberFromPath api vs rq f = legacyNetworkID (vs ! 0) (\<lambda>networkID. legacyNodeID (vs ! 1) (\<lambda>nodeID.
     serveCall (svcGetMember (apService api) (hqContext rq) networkID nodeID) f))"

section \<open>Handlers\<close>

definition writeNetwork :: "'s Api \<Rightarrow> Network \<Rightarrow> 's serving" where
  "writeNetwork api network = respond (writeJSON 200 (Inr (encObject (renderLegacyNetwork api network))))"

definition writeMember :: "'s Api \<Rightarrow> HttpRequest \<Rightarrow> Member \<Rightarrow> 's serving" where
  "writeMember api rq member w = (case renderLegacyMember api (hqContext rq) member w of (r, w') \<Rightarrow> (writeJSON 200 r, w'))"

definition legacyStatus :: "'s Api \<Rightarrow> string list \<Rightarrow> HttpRequest \<Rightarrow> 's serving" where
  "legacyStatus api vs rq = respond (writeJSON 200 (Inr (encObject [(''address'', encString (svControllerID (apService api))),
     (''online'', JBool True), (''tcpFallbackActive'', JBool False), (''versionMajor'', encNat 0), (''versionMinor'', encNat 1),
     (''versionRev'', encNat 0), (''version'', JString ''ZTGotroller'')])))"

definition controllerStatus :: "'s Api \<Rightarrow> string list \<Rightarrow> HttpRequest \<Rightarrow> 's serving" where
  "controllerStatus api vs rq = respond (writeJSON 200 (Inr (encObject [(''controller'', JBool True), (''apiVersion'', encNat 4),
     (''clock'', encInt (UnixMilli (apClock api))), (''databaseReady'', JBool True)])))"

definition legacyListNetworks :: "'s Api \<Rightarrow> string list \<Rightarrow> HttpRequest \<Rightarrow> 's serving" where
  "legacyListNetworks api vs rq = serveCall (svcListNetworks (apService api) (hqContext rq)) (\<lambda>networks.
     respond (writeJSON 200 (Inr (JArray (map (encString \<circ> nwID) networks)))))"

text \<open>The loop over the networks: a failing member list ends the request with its error.\<close>

definition countAuthorized :: "Member list \<Rightarrow> nat" where
  "countAuthorized members = length (filter mbAuthorized members)"

fun detailedNetworks :: "'s Api \<Rightarrow> HttpRequest \<Rightarrow> Network list \<Rightarrow> RawMessage list \<Rightarrow> ('s, RawMessage list) operation" where
  "detailedNetworks api rq [] result = sret result"
| "detailedNetworks api rq (network # networks) result =
     sbind (svcListMembers (apService api) (hqContext rq) (nwID network)) (\<lambda>members.
     detailedNetworks api rq networks (result @ [encObject ((''meta'', encObject [(''totalMemberCount'', encNat (length members)),
       (''authorizedMemberCount'', encNat (countAuthorized members))]) # renderLegacyNetwork api network)]))"

definition listNetworksDetailed :: "'s Api \<Rightarrow> string list \<Rightarrow> HttpRequest \<Rightarrow> 's serving" where
  "listNetworksDetailed api vs rq = serveCall (svcListNetworks (apService api) (hqContext rq)) (\<lambda>networks.
     serveCall (detailedNetworks api rq networks []) (\<lambda>items.
     respond (writeJSON 200 (Inr (encObject [(''data'', JArray items),
       (''meta'', encObject [(''networkCount'', encNat (length items))])])))))"

definition legacyCreateNetwork :: "'s Api \<Rightarrow> string list \<Rightarrow> HttpRequest \<Rightarrow> 's serving" where
  "legacyCreateNetwork api vs rq = decodeLegacyJSON rq (decStruct False networkPatchFields) emptyNetworkPatch (\<lambda>patch.
     serveCall (CreateRandomNetworkWithUpdate (apService api) (hqContext rq) (legacyCreationUpdate api patch)) (writeNetwork api))"

definition legacyGetNetwork :: "'s Api \<Rightarrow> string list \<Rightarrow> HttpRequest \<Rightarrow> 's serving" where
  "legacyGetNetwork api vs rq = networkFromPath api vs rq (writeNetwork api)"

definition applyNetworkPatch :: "'s Api \<Rightarrow> HttpRequest \<Rightarrow> Network \<Rightarrow> legacyNetworkPatch \<Rightarrow> ('s, Network) operation" where
  "applyNetworkPatch api rq network patch =
     UpdateNetwork (apService api) (hqContext rq) (nwID network) (networkUpdateForPatch network patch) (nwRevision network)"

definition putNetwork :: "'s Api \<Rightarrow> string list \<Rightarrow> HttpRequest \<Rightarrow> 's serving" where
  "putNetwork api vs rq =
    (let rawID = asciiLower (vs ! 0) in
     if isRandomForm rawID then
       if take 10 rawID \<noteq> svControllerID (apService api)
       then respond (writeFailure 400 (Errorf ''network prefix does not match controller''))
       else legacyCreateNetwork api vs rq
     else legacyNetworkID (vs ! 0) (\<lambda>networkID.
       decodeLegacyJSON rq (decStruct False networkPatchFields) emptyNetworkPatch (\<lambda>patch.
       serveCatch (svcGetNetwork (apService api) (hqContext rq) networkID) (\<lambda>r. case r of
         Inl e \<Rightarrow>
           if errorsIs e ErrNotFound then
             (case ParseUint16 (drop 10 networkID) 32 of
               Inl _ \<Rightarrow> respond (writeFailure 400 (Errorf ''invalid network ID''))
             | Inr sequence \<Rightarrow> serveCall (CreateNetworkWithUpdate (apService api) (hqContext rq) (ucast sequence)
                 (legacyCreationUpdate api patch)) (writeNetwork api))
           else respond (writeError e)
       | Inr network \<Rightarrow> serveCall (applyNetworkPatch api rq network patch) (writeNetwork api)))))"

definition legacyDeleteNetwork :: "'s Api \<Rightarrow> string list \<Rightarrow> HttpRequest \<Rightarrow> 's serving" where
  "legacyDeleteNetwork api vs rq = networkFromPath api vs rq (\<lambda>network.
     serveCall (svcDeleteNetwork (apService api) (hqContext rq) (nwID network)) (\<lambda>_. writeNetwork api network))"

definition legacyListMembers :: "'s Api \<Rightarrow> string list \<Rightarrow> HttpRequest \<Rightarrow> 's serving" where
  "legacyListMembers api vs rq = legacyNetworkID (vs ! 0) (\<lambda>networkID.
     serveCall (svcListMembers (apService api) (hqContext rq) networkID) (\<lambda>members.
     respond (writeJSON 200 (Inr (encMap encUint (fmap_of_list (rev (map (\<lambda>m. (mbNodeID m, mbRevision m)) members))))))))"

fun renderMembers :: "'s Api \<Rightarrow> HttpRequest \<Rightarrow> Member list \<Rightarrow> RawMessage result list \<Rightarrow> 's World \<Rightarrow> RawMessage result list \<times> 's World" where
  "renderMembers api rq [] result w = (result, w)"
| "renderMembers api rq (member # members) result w = (case renderLegacyMember api (hqContext rq) member w of (r, w') \<Rightarrow>
     renderMembers api rq members (result @ [r]) w')"

definition listMembersDetailed :: "'s Api \<Rightarrow> string list \<Rightarrow> HttpRequest \<Rightarrow> 's serving" where
  "listMembersDetailed api vs rq = legacyNetworkID (vs ! 0) (\<lambda>networkID.
     serveCall (svcListMembers (apService api) (hqContext rq) networkID) (\<lambda>members w.
     case renderMembers api rq members [] w of (items, w') \<Rightarrow>
       (writeJSON 200 (rbind (mapM (\<lambda>r. r) items) (\<lambda>js. Inr (encObject [(''data'', JArray js),
         (''meta'', encObject [(''totalCount'', encNat (length js)), (''authorizedCount'', encNat (countAuthorized members))])]))), w')))"

definition legacyGetMember :: "'s Api \<Rightarrow> string list \<Rightarrow> HttpRequest \<Rightarrow> 's serving" where
  "legacyGetMember api vs rq = memberFromPath api vs rq (writeMember api rq)"

definition putMember :: "'s Api \<Rightarrow> string list \<Rightarrow> HttpRequest \<Rightarrow> 's serving" where
  "putMember api vs rq = legacyNetworkID (vs ! 0) (\<lambda>networkID. legacyNodeID (vs ! 1) (\<lambda>nodeID.
     decodeLegacyJSON rq (decStruct False memberPatchFields) emptyMemberPatch (\<lambda>patch.
     serveCall (RegisterMember (apService api) (hqContext rq) networkID nodeID) (\<lambda>member.
     serveCall (UpdateMember (apService api) (hqContext rq) networkID nodeID (memberUpdateForPatch api member patch) (mbRevision member)) (\<lambda>member.
     case mpAuthorized patch of
       None \<Rightarrow> writeMember api rq member
     | Some authorized \<Rightarrow>
         if mbAuthorized member \<noteq> authorized then
           serveCall (SetMemberAuthorization (apService api) (hqContext rq) networkID nodeID authorized (mbRevision member)) (writeMember api rq)
         else writeMember api rq member)))))"

definition legacyDeleteMember :: "'s Api \<Rightarrow> string list \<Rightarrow> HttpRequest \<Rightarrow> 's serving" where
  "legacyDeleteMember api vs rq = memberFromPath api vs rq (\<lambda>member.
     serveCall (svcDeleteMember (apService api) (hqContext rq) (mbNetworkID member) (mbNodeID member)) (\<lambda>_. writeMember api rq member))"

definition listPeers :: "'s Api \<Rightarrow> string list \<Rightarrow> HttpRequest \<Rightarrow> 's serving" where
  "listPeers api vs rq = respond (writeJSON 200 (Inr (JArray (case apPeers api of None \<Rightarrow> []
     | Some r \<Rightarrow> map (renderPeer api) (ListSessions r)))))"

definition getPeer :: "'s Api \<Rightarrow> string list \<Rightarrow> HttpRequest \<Rightarrow> 's serving" where
  "getPeer api vs rq = legacyNodeID (vs ! 0) (\<lambda>nodeID. respond (case apPeers api of
     None \<Rightarrow> writeFailure 404 (Errorf ''peer not found'')
   | Some r \<Rightarrow> (case GetSession nodeID r of Inl _ \<Rightarrow> writeFailure 404 (Errorf ''peer not found'')
       | Inr session \<Rightarrow> writeJSON 200 (Inr (renderPeer api session)))))"

definition legacyRoutes :: "'s Api \<Rightarrow> 's route list" where
  "legacyRoutes api =
    (let networks = [Lit ''controller'', Lit ''network'']; network = networks @ [Wild]; members = network @ [Lit ''member'']; member = members @ [Wild] in
    [(''GET'', [Lit ''status''], legacyStatus api), (''GET'', [Lit ''controller''], controllerStatus api),
     (''GET'', networks, legacyListNetworks api), (''GET'', Lit ''unstable'' # networks, listNetworksDetailed api),
     (''POST'', networks, legacyCreateNetwork api), (''PUT'', networks, legacyCreateNetwork api),
     (''GET'', network, legacyGetNetwork api), (''POST'', network, putNetwork api), (''PUT'', network, putNetwork api),
     (''DELETE'', network, legacyDeleteNetwork api),
     (''GET'', members, legacyListMembers api), (''GET'', Lit ''unstable'' # members, listMembersDetailed api),
     (''GET'', member, legacyGetMember api), (''POST'', member, putMember api), (''PUT'', member, putMember api),
     (''DELETE'', member, legacyDeleteMember api),
     (''GET'', [Lit ''peer''], listPeers api), (''GET'', [Lit ''peer'', Wild], getPeer api)])"

definition ServeHTTP :: "'s Api \<Rightarrow> HttpRequest \<Rightarrow> 's serving" where
  "ServeHTTP api rq = muxServe (nativeRoutes api @ legacyRoutes api) (nativeRoutes api @ legacyRoutes api) rq"

end
