(* ===== verification/HttpSafety.thy ===== *)
theory HttpSafety
  imports LegacyApi
begin

text \<open>
  What requests can do. Every handler is seen as a sequence of calls of the service: \<open>runsCalls\<close> bounds
  the calls a handler may make, and the rules below follow the shapes the handlers are built from, so
  that the safety of the service carries over to the API.
\<close>

section \<open>Handlers as calls of the service\<close>

definition runsCalls :: "'s Service \<Rightarrow> (ServiceCall \<Rightarrow> bool) \<Rightarrow> ('s World \<Rightarrow> 'b \<times> 's World) \<Rightarrow> bool" where
  "runsCalls sv P m = (\<forall>w. \<exists>cs. list_all P cs \<and> snd (m w) = snd (serviceRun sv cs w))"

lemma serviceRun_append: "snd (serviceRun sv (cs @ ds) w) = snd (serviceRun sv ds (snd (serviceRun sv cs w)))"
  by (induction cs arbitrary: w) (simp_all add: Let_def split_beta)

lemma runsCalls_mono: "runsCalls sv P m \<Longrightarrow> (\<And>c. P c \<Longrightarrow> Q c) \<Longrightarrow> runsCalls sv Q m"
  unfolding runsCalls_def by (metis list.pred_mono_strong)

lemma runsCalls_still: "(\<And>w. snd (m w) = w) \<Longrightarrow> runsCalls sv P m"
  unfolding runsCalls_def by (metis list.pred_inject(1) serviceRun.simps(1) snd_conv)

lemma runsCalls_none: "runsCalls sv (\<lambda>_. False) m \<Longrightarrow> snd (m w) = w"
proof -
  assume "runsCalls sv (\<lambda>_. False) m"
  then obtain cs where "list_all (\<lambda>_. False) cs" "snd (m w) = snd (serviceRun sv cs w)" unfolding runsCalls_def by blast
  then show ?thesis by (cases cs) auto
qed

lemma runsCalls_call: "P c \<Longrightarrow> (\<And>w. snd (m w) = snd (serviceCall sv c w)) \<Longrightarrow> runsCalls sv P m"
proof -
  assume "P c" "\<And>w. snd (m w) = snd (serviceCall sv c w)"
  then have "list_all P [c] \<and> snd (m w) = snd (serviceRun sv [c] w)" for w by (simp split: prod.splits)
  then show ?thesis unfolding runsCalls_def by blast
qed

lemma runsCalls_case:
  assumes "runsCalls sv P m" "\<And>r. runsCalls sv P (f r)"
  shows "runsCalls sv P (\<lambda>w. case m w of (r, w') \<Rightarrow> f r w')"
  unfolding runsCalls_def
proof
  fix w
  obtain cs where cs: "list_all P cs" "snd (m w) = snd (serviceRun sv cs w)" using assms(1) unfolding runsCalls_def by blast
  obtain ds where "list_all P ds" "snd (f (fst (m w)) (snd (m w))) = snd (serviceRun sv ds (snd (m w)))"
    using assms(2) [of "fst (m w)"] unfolding runsCalls_def by blast
  with cs have "list_all P (cs @ ds) \<and> snd (case m w of (r, w') \<Rightarrow> f r w') = snd (serviceRun sv (cs @ ds) w)"
    by (simp add: serviceRun_append split_beta)
  then show "\<exists>cs. list_all P cs \<and> snd (case m w of (r, w') \<Rightarrow> f r w') = snd (serviceRun sv cs w)" by blast
qed

lemma runsCalls_respond [intro]: "runsCalls sv P (respond r)"
  by (rule runsCalls_still) (simp add: respond_def)

lemma runsCalls_serveCall:
  assumes "runsCalls sv P m" "\<And>x. runsCalls sv P (f x)"
  shows "runsCalls sv P (serveCall m f)"
proof -
  define g where "g r = (case r of Inl e \<Rightarrow> respond (writeError e) | Inr x \<Rightarrow> f x)" for r
  have "runsCalls sv P (g r)" for r using assms(2) by (auto simp: g_def split: sum.splits)
  from runsCalls_case [OF assms(1) this] have "runsCalls sv P (\<lambda>w. case m w of (r, w') \<Rightarrow> g r w')" .
  moreover have "(\<lambda>w. case m w of (r, w') \<Rightarrow> g r w') = serveCall m f"
    by (rule ext) (auto simp: serveCall_def g_def respond_def split: prod.splits sum.splits)
  ultimately show ?thesis by simp
qed

lemma runsCalls_serveCatch: "runsCalls sv P m \<Longrightarrow> (\<And>r. runsCalls sv P (f r)) \<Longrightarrow> runsCalls sv P (serveCatch m f)"
  using runsCalls_case [of sv P m f] by (simp add: serveCatch_def [abs_def])

lemma runsCalls_parsePath: "(\<And>x. r = Inr x \<Longrightarrow> runsCalls sv P (f x)) \<Longrightarrow> runsCalls sv P (parsePath r f)"
  by (auto simp: parsePath_def split: sum.splits)

lemma runsCalls_decode:
  assumes "\<And>j x. hqBody rq = Some j \<Longrightarrow> dec zero j = Inr x \<Longrightarrow> runsCalls sv P (f x)"
  shows "runsCalls sv P (decodeJSON rq dec zero f)" "runsCalls sv P (decodeLegacyJSON rq dec zero f)"
  using assms by (auto simp: decodeJSON_def decodeLegacyJSON_def split: option.splits sum.splits)

text \<open>The reads of the service change nothing.\<close>

lemma still_basic: "snd (sread g w) = w" "snd (slift r w) = w" "snd (sret x w) = w"
  by (simp_all add: sread_def slift_def sret_def)

lemma still_sbind:
  assumes "\<And>w. snd (m w) = w" "\<And>x w. snd (f x w) = w"
  shows "snd (sbind m f w) = w"
proof -
  obtain r where "m w = (r, w)" using assms(1) by (metis prod.collapse)
  then show ?thesis using assms(2) by (cases r) (simp_all add: sbind_def)
qed

lemma read_still:
  "snd (svcGetNetwork sv ctx i w) = w" "snd (svcGetMember sv ctx i j w) = w" "snd (svcListNetworks sv ctx w) = w"
  "snd (svcListMembers sv ctx i w) = w" "snd (svcGetAgentMetadata sv ctx i j w) = w" "snd (svcPing sv ctx w) = w"
  unfolding svcGetNetwork_def svcGetMember_def svcListNetworks_def svcListMembers_def svcGetAgentMetadata_def svcPing_def
  by (intro still_sbind still_basic)+

lemma countMembers_still: "snd (countMembers sv ctx networks n w) = w"
  by (induction networks arbitrary: n w) (auto intro!: still_sbind read_still still_basic)

lemma runtimeCounts_still: "snd (runtimeCounts api rq w) = w"
  unfolding runtimeCounts_def by (intro still_sbind read_still countMembers_still still_basic)

lemma detailedNetworks_still: "snd (detailedNetworks api rq networks result w) = w"
  by (induction networks arbitrary: result w) (auto intro!: still_sbind read_still still_basic)

lemma renderLegacyMember_still: "snd (renderLegacyMember api ctx member w) = w"
proof -
  obtain r where "svcGetAgentMetadata (apService api) ctx (mbNetworkID member) (mbNodeID member) w = (r, w)"
    using read_still(5) by (metis prod.collapse)
  then show ?thesis by (simp add: renderLegacyMember_def scatch_def slift_def Let_def)
qed

lemma renderMembers_still: "snd (renderMembers api rq members result w) = w"
proof (induction members arbitrary: result w)
  case (Cons m ms)
  obtain r where "renderLegacyMember api (hqContext rq) m w = (r, w)" using renderLegacyMember_still by (metis prod.collapse)
  with Cons show ?case by simp
qed simp

lemma writes_still: "snd (writeNetwork api network w) = w" "snd (writeMember api rq member w) = w"
  using renderLegacyMember_still [of api "hqContext rq" member w] by (auto simp: writeNetwork_def respond_def writeMember_def split: prod.splits)

lemmas runsCalls_reads = runsCalls_still [OF read_still(1)] runsCalls_still [OF read_still(2)] runsCalls_still [OF read_still(3)]
  runsCalls_still [OF read_still(4)] runsCalls_still [OF detailedNetworks_still] runsCalls_still [OF writes_still(1)]
  runsCalls_still [OF writes_still(2)]

lemmas runsCalls_rules = runsCalls_respond runsCalls_serveCall runsCalls_parsePath runsCalls_decode runsCalls_reads

text \<open>Each administrative operation is one call.\<close>

lemma sdone_world: "snd (sdone m w) = snd (m w)"
  by (auto simp: sdone_def sbind_def sret_def split: prod.splits sum.splits)

lemma runsCalls_operations:
  "P (DoCreateNetwork n name) \<Longrightarrow> runsCalls sv P (CreateNetwork sv None n name)"
  "P (DoCreateNetworkWithUpdate n u) \<Longrightarrow> runsCalls sv P (CreateNetworkWithUpdate sv None n u)"
  "P (DoCreateRandomNetworkWithUpdate u) \<Longrightarrow> runsCalls sv P (CreateRandomNetworkWithUpdate sv None u)"
  "P (DoRegisterMember i j) \<Longrightarrow> runsCalls sv P (RegisterMember sv None i j)"
  "P (DoSetMemberAuthorization i j b v) \<Longrightarrow> runsCalls sv P (SetMemberAuthorization sv None i j b v)"
  "P (DoUpdateNetwork i u v) \<Longrightarrow> runsCalls sv P (UpdateNetwork sv None i u v)"
  "P (DoDeleteNetwork i) \<Longrightarrow> runsCalls sv P (svcDeleteNetwork sv None i)"
  "P (DoUpdateMember i j mu v) \<Longrightarrow> runsCalls sv P (UpdateMember sv None i j mu v)"
  "P (DoDeleteMember i j) \<Longrightarrow> runsCalls sv P (svcDeleteMember sv None i j)"
  by (erule runsCalls_call, simp add: sdone_world)+

section \<open>Routing\<close>

lemma muxServe_cases:
  assumes "\<And>m p f vs. (m, p, f) \<in> set routes \<Longrightarrow> methodMatches m (hqMethod rq) \<Longrightarrow> matchPath p (hqPath rq) = Some vs \<Longrightarrow> Q (f vs rq)"
    and "\<And>r. Q (respond r)"
  shows "Q (muxServe all routes rq)"
  using assms(1)
proof (induction routes)
  case (Cons route routes)
  obtain m p f where r: "route = (m, p, f)" by (cases route)
  have IH: "Q (muxServe all routes rq)" by (rule Cons.IH) (meson Cons.prems list.set_intros(2))
  then show ?case using Cons.prems [of m p f] r by (auto split: option.splits)
qed (simp only: muxServe.simps assms(2))

lemma matchPath_Some:
  "matchPath [] path = Some vs \<longleftrightarrow> path = [] \<and> vs = []"
  "matchPath (Lit l # ps) path = Some vs \<longleftrightarrow> (\<exists>ss. path = l # ss \<and> matchPath ps ss = Some vs)"
  "matchPath (Wild # ps) path = Some vs \<longleftrightarrow> (\<exists>s ss us. path = s # ss \<and> s \<noteq> [] \<and> vs = s # us \<and> matchPath ps ss = Some us)"
  by (cases path; auto)+

section \<open>Requests that only read\<close>

lemma native_reads:
  "runsCalls sv P (httpHealth api vs rq)" "runsCalls sv P (httpMetrics api vs rq)" "runsCalls sv P (httpListNetworks api vs rq)"
  "runsCalls sv P (httpGetNetwork api vs rq)" "runsCalls sv P (httpListMembers api vs rq)" "runsCalls sv P (httpGetMember api vs rq)"
proof -
  show "runsCalls sv P (httpHealth api vs rq)"
  proof (rule runsCalls_still)
    fix w show "snd (httpHealth api vs rq w) = w"
      using read_still(6) [of "apService api" "hqContext rq" w] by (auto simp: httpHealth_def split: prod.splits sum.splits)
  qed
  show "runsCalls sv P (httpMetrics api vs rq)"
  proof (rule runsCalls_still)
    fix w show "snd (httpMetrics api vs rq w) = w"
      using runtimeCounts_still [of api rq w] by (auto simp: httpMetrics_def split: prod.splits)
  qed
qed (simp_all add: httpListNetworks_def httpGetNetwork_def httpListMembers_def httpGetMember_def withMemberPath_def runsCalls_rules)

lemma legacy_reads:
  "runsCalls sv P (legacyStatus api vs rq)" "runsCalls sv P (controllerStatus api vs rq)" "runsCalls sv P (legacyListNetworks api vs rq)"
  "runsCalls sv P (listNetworksDetailed api vs rq)" "runsCalls sv P (legacyGetNetwork api vs rq)" "runsCalls sv P (legacyListMembers api vs rq)"
  "runsCalls sv P (legacyGetMember api vs rq)" "runsCalls sv P (listPeers api vs rq)" "runsCalls sv P (getPeer api vs rq)"
  by (simp_all add: legacyStatus_def controllerStatus_def legacyListNetworks_def listNetworksDetailed_def legacyGetNetwork_def
      networkFromPath_def legacyNetworkID_def legacyNodeID_def legacyListMembers_def legacyGetMember_def memberFromPath_def
      listPeers_def getPeer_def runsCalls_rules)

lemma legacy_reads_detailed: "runsCalls sv P (listMembersDetailed api vs rq)"
proof -
  have "runsCalls sv P (\<lambda>w. case renderMembers api rq members [] w of (items, w') \<Rightarrow> (f items, w'))" for members f
  proof (rule runsCalls_still)
    fix w show "snd (case renderMembers api rq members [] w of (items, w') \<Rightarrow> (f items, w')) = w"
      using renderMembers_still [of api rq members "[]" w] by (auto split: prod.splits)
  qed
  then show ?thesis unfolding listMembersDetailed_def legacyNetworkID_def by (intro runsCalls_parsePath runsCalls_serveCall runsCalls_reads)
qed

lemmas http_reads = native_reads legacy_reads legacy_reads_detailed

definition changingMethod :: "string \<Rightarrow> bool" where
  "changingMethod m = (m = ''POST'' \<or> m = ''PUT'' \<or> m = ''DELETE'')"

lemma ServeHTTP_reads:
  assumes "\<not> changingMethod (hqMethod rq)"
  shows "runsCalls sv P (ServeHTTP api rq)"
  unfolding ServeHTTP_def
proof (rule muxServe_cases [where Q = "runsCalls sv P"])
  fix m p f vs
  assume "(m, p, f) \<in> set (nativeRoutes api @ legacyRoutes api)" "methodMatches m (hqMethod rq)"
  then show "runsCalls sv P (f vs rq)"
    using assms by (auto simp: nativeRoutes_def legacyRoutes_def Let_def methodMatches_def changingMethod_def http_reads)
qed (rule runsCalls_respond)

lemma muxServe_miss: "snd (muxServe all routes rq w) \<noteq> w \<Longrightarrow>
    \<exists>(m, p, f) \<in> set routes. methodMatches m (hqMethod rq) \<and> matchPath p (hqPath rq) \<noteq> None"
proof (induction routes)
  case (Cons r routes)
  then show ?case by (cases r) (auto split: if_splits option.splits)
qed (simp add: respond_def)

lemma healthz_reads:
  assumes "hqPath rq = [''healthz'']"
  shows "snd (ServeHTTP api rq w) = w"
proof -
  have "runsCalls (apService api) (\<lambda>_. False) (ServeHTTP api rq)"
    unfolding ServeHTTP_def
  proof (rule muxServe_cases [where Q = "runsCalls (apService api) (\<lambda>_. False)"])
    fix m p f vs
    assume "(m, p, f) \<in> set (nativeRoutes api @ legacyRoutes api)" "matchPath p (hqPath rq) = Some vs"
    then show "runsCalls (apService api) (\<lambda>_. False) (f vs rq)"
      using assms by (auto simp: nativeRoutes_def legacyRoutes_def Let_def matchPath_Some http_reads)
  qed (rule runsCalls_respond)
  then show ?thesis by (rule runsCalls_none)
qed

section \<open>The bearer token\<close>

text \<open>
  C18. The token guards every change: a handler wrapped by \<^verbatim>\<open>RequireBearerToken\<close> exists only for a nonempty
  token; a request without an accepted credential, health checks apart, is answered 401 and reaches
  nothing; and whatever the store does, a request that changes anything carried an accepted credential
  and was a POST, PUT or DELETE.
\<close>

theorem changes_need_token:
  assumes "RequireBearerToken sha256 (ServeHTTP api) token = Inr h"
  shows "token \<noteq> []
    \<and> (\<not> tokenAccepted sha256 token rq \<and> hqPath rq \<noteq> [''healthz''] \<longrightarrow> h rq w = (unauthorizedResponse, w))
    \<and> (snd (h rq w) \<noteq> w \<longrightarrow> tokenAccepted sha256 token rq \<and> changingMethod (hqMethod rq) \<and> h rq w = ServeHTTP api rq w)"
proof -
  have h: "token \<noteq> []" "h rq w = (if hqPath rq = [''healthz''] then ServeHTTP api rq w
      else if \<not> tokenAccepted sha256 token rq then (unauthorizedResponse, w) else ServeHTTP api rq w)"
    using assms by (auto simp: RequireBearerToken_def respond_def split: if_splits)
  have "changingMethod (hqMethod rq)" if "snd (ServeHTTP api rq w) \<noteq> w"
    using that runsCalls_none [OF ServeHTTP_reads] by blast
  with h healthz_reads [of rq api w] show ?thesis by auto
qed

section \<open>Grants over the API\<close>

text \<open>
  A request that asks to authorize member \<open>(i, j)\<close>: the native authorization request, or a legacy member
  patch, with \<^verbatim>\<open>authorized\<close> true in its body.
\<close>

definition nativeGrant :: "HttpRequest \<Rightarrow> bool" where
  "nativeGrant rq = (case hqBody rq of None \<Rightarrow> False
     | Some j \<Rightarrow> (case decStruct True authorizationFields (False, 0) j of Inr (authorized, _) \<Rightarrow> authorized | Inl _ \<Rightarrow> False))"

definition legacyGrant :: "HttpRequest \<Rightarrow> bool" where
  "legacyGrant rq = (case hqBody rq of None \<Rightarrow> False
     | Some j \<Rightarrow> (case decStruct False memberPatchFields emptyMemberPatch j of Inr patch \<Rightarrow> mpAuthorized patch = Some True | Inl _ \<Rightarrow> False))"

definition grantRequested :: "HttpRequest \<Rightarrow> NetworkID \<Rightarrow> NodeID \<Rightarrow> bool" where
  "grantRequested rq i j =
     ((hqMethod rq = ''PUT'' \<and> nativeGrant rq \<and> (\<exists>a b. hqPath rq = [''v1'', ''networks'', a, ''members'', b, ''authorization'']
         \<and> ParseNetworkID a = Inr i \<and> ParseNodeID b = Inr j))
      \<or> ((hqMethod rq = ''POST'' \<or> hqMethod rq = ''PUT'') \<and> legacyGrant rq \<and> (\<exists>a b. hqPath rq = [''controller'', ''network'', a, ''member'', b]
         \<and> legacyNetworkValue a = Inr i \<and> legacyNodeValue b = Inr j)))"

definition allowedCall :: "HttpRequest \<Rightarrow> ServiceCall \<Rightarrow> bool" where
  "allowedCall rq c = (\<forall>i j. grants i j c \<longrightarrow> grantRequested rq i j)"

lemma allowedCall_simps [simp]:
  "allowedCall rq (DoCreateNetwork n name)" "allowedCall rq (DoCreateNetworkWithUpdate n u)"
  "allowedCall rq (DoCreateRandomNetworkWithUpdate u)" "allowedCall rq (DoRegisterMember i j)" "allowedCall rq (DoUpdateNetwork i u v)"
  "allowedCall rq (DoDeleteNetwork i)" "allowedCall rq (DoUpdateMember i j mu v)" "allowedCall rq (DoDeleteMember i j)"
  "allowedCall rq (DoSetMemberAuthorization i j b v) \<longleftrightarrow> (b \<longrightarrow> grantRequested rq i j)"
  by (auto simp: allowedCall_def)

lemma native_writes:
  assumes "hqContext rq = None" "apService api = sv"
  shows "runsCalls sv (allowedCall rq) (httpCreateNetwork api vs rq)" "runsCalls sv (allowedCall rq) (httpUpdateNetwork api vs rq)"
    "runsCalls sv (allowedCall rq) (httpRegisterMember api vs rq)" "runsCalls sv (allowedCall rq) (httpUpdateMember api vs rq)"
  using assms
  by (auto simp: httpCreateNetwork_def httpUpdateNetwork_def httpRegisterMember_def httpUpdateMember_def withMemberPath_def
      intro!: runsCalls_rules runsCalls_operations)

lemma native_authorization:
  assumes "hqContext rq = None" "apService api = sv" "hqMethod rq = ''PUT''"
    and "hqPath rq = [''v1'', ''networks'', a, ''members'', b, ''authorization'']"
  shows "runsCalls sv (allowedCall rq) (httpSetAuthorization api [a, b] rq)"
  using assms
  by (auto simp: httpSetAuthorization_def withMemberPath_def grantRequested_def nativeGrant_def intro!: runsCalls_rules runsCalls_operations)

lemma legacy_writes:
  assumes "hqContext rq = None" "apService api = sv"
  shows "runsCalls sv (allowedCall rq) (legacyCreateNetwork api vs rq)" "runsCalls sv (allowedCall rq) (legacyDeleteNetwork api vs rq)"
    "runsCalls sv (allowedCall rq) (legacyDeleteMember api vs rq)"
  using assms
  by (auto simp: legacyCreateNetwork_def legacyDeleteNetwork_def legacyDeleteMember_def networkFromPath_def memberFromPath_def
      legacyNetworkID_def legacyNodeID_def intro!: runsCalls_rules runsCalls_operations)

lemma legacy_put_network:
  assumes "hqContext rq = None" "apService api = sv"
  shows "runsCalls sv (allowedCall rq) (putNetwork api vs rq)"
  unfolding putNetwork_def Let_def legacyNetworkID_def applyNetworkPatch_def
  using assms legacy_writes(1) [OF assms]
  by (auto split: sum.split intro!: runsCalls_rules runsCalls_serveCatch runsCalls_operations)

lemma legacy_put_member:
  assumes "hqContext rq = None" "apService api = sv" "hqMethod rq = ''POST'' \<or> hqMethod rq = ''PUT''"
    and "hqPath rq = [''controller'', ''network'', a, ''member'', b]"
  shows "runsCalls sv (allowedCall rq) (putMember api [a, b] rq)"
  using assms
  by (auto simp: putMember_def legacyNetworkID_def legacyNodeID_def grantRequested_def legacyGrant_def split: option.split
      intro!: runsCalls_rules runsCalls_operations)

lemma ServeHTTP_calls:
  assumes "hqContext rq = None" "apService api = sv"
  shows "runsCalls sv (allowedCall rq) (ServeHTTP api rq)"
  unfolding ServeHTTP_def
proof (rule muxServe_cases [where Q = "runsCalls sv (allowedCall rq)"])
  fix m p f vs
  assume r: "(m, p, f) \<in> set (nativeRoutes api @ legacyRoutes api)" "methodMatches m (hqMethod rq)" "matchPath p (hqPath rq) = Some vs"
  have "runsCalls sv (allowedCall rq) (f vs rq)" if "(m, p, f) \<in> set (nativeRoutes api)"
    using that r(2,3)
    by (auto simp: nativeRoutes_def matchPath_Some methodMatches_def http_reads native_writes [OF assms] native_authorization [OF assms])
  moreover have "runsCalls sv (allowedCall rq) (f vs rq)" if "(m, p, f) \<in> set (legacyRoutes api)"
    using that r(2,3)
    by (auto simp: legacyRoutes_def Let_def matchPath_Some methodMatches_def http_reads legacy_writes [OF assms]
        legacy_put_network [OF assms] legacy_put_member [OF assms])
  ultimately show "runsCalls sv (allowedCall rq) (f vs rq)" using r(1) by auto
qed (rule runsCalls_respond)

section \<open>Sequences of requests\<close>

text \<open>Requests one after another; the sessions, upstreams and clock each of them sees may differ.\<close>

fun serveRequests :: "('s Api \<Rightarrow> HttpRequest \<Rightarrow> 's serving) \<Rightarrow> ('s Api \<times> HttpRequest) list \<Rightarrow> 's World \<Rightarrow> HttpResponse list \<times> 's World" where
  "serveRequests H [] w = ([], w)"
| "serveRequests H ((api, rq) # rqs) w = (let (r, w1) = H api rq w; (rs, w2) = serveRequests H rqs w1 in (r # rs, w2))"

definition acceptedGrant :: "(string \<Rightarrow> bytes) \<Rightarrow> string \<Rightarrow> HttpRequest \<Rightarrow> NetworkID \<Rightarrow> NodeID \<Rightarrow> bool" where
  "acceptedGrant sha256 token rq i j = (tokenAccepted sha256 token rq \<and> grantRequested rq i j)"

lemma protected_calls:
  assumes "RequireBearerToken sha256 (ServeHTTP api) token = Inr h" "hqContext rq = None" "apService api = sv"
  shows "runsCalls sv (\<lambda>c. \<forall>i j. grants i j c \<longrightarrow> acceptedGrant sha256 token rq i j) (h rq)"
proof -
  have h: "h = (\<lambda>rq. if hqPath rq = [''healthz''] then ServeHTTP api rq
      else if \<not> tokenAccepted sha256 token rq then respond unauthorizedResponse else ServeHTTP api rq)"
    using assms(1) by (auto simp: RequireBearerToken_def split: if_splits)
  show ?thesis
  proof (cases "tokenAccepted sha256 token rq")
    case True
    then have "h rq = ServeHTTP api rq" using h by simp
    with True show ?thesis using runsCalls_mono [OF ServeHTTP_calls [OF assms(2,3)]] by (auto simp: allowedCall_def acceptedGrant_def)
  next
    case False
    then show ?thesis using h healthz_reads by (auto intro: runsCalls_still)
  qed
qed

lemma serveRequests_calls:
  assumes "\<forall>api. RequireBearerToken sha256 (ServeHTTP api) token = Inr (H api)" "\<forall>(api, rq) \<in> set rqs. apService api = sv \<and> hqContext rq = None"
  shows "runsCalls sv (\<lambda>c. \<forall>i j. grants i j c \<longrightarrow> (\<exists>(api, rq) \<in> set rqs. acceptedGrant sha256 token rq i j)) (serveRequests H rqs)"
  using assms(2)
proof (induction rqs)
  case (Cons p rqs)
  obtain api rq where p: "p = (api, rq)" by (cases p)
  let ?P = "\<lambda>c. \<forall>i j. grants i j c \<longrightarrow> (\<exists>(api, rq) \<in> set (p # rqs). acceptedGrant sha256 token rq i j)"
  have "runsCalls sv ?P (H api rq)"
    by (rule runsCalls_mono [OF protected_calls]) (use assms(1) Cons.prems p in auto)
  moreover have "runsCalls sv ?P (serveRequests H rqs)"
    by (rule runsCalls_mono [OF Cons.IH]) (use Cons.prems in auto)
  then have "runsCalls sv ?P (\<lambda>w. case serveRequests H rqs w of (rs, w2) \<Rightarrow> (r # rs, w2))" for r
    by (rule runsCalls_case) (auto intro: runsCalls_still)
  ultimately have "runsCalls sv ?P (\<lambda>w. case H api rq w of (r, w1) \<Rightarrow> (case serveRequests H rqs w1 of (rs, w2) \<Rightarrow> (r # rs, w2)))"
    by (rule runsCalls_case)
  then show ?case by (simp add: p Let_def)
qed (auto intro: runsCalls_still)

text \<open>
  C17. Authorization needs an administrator: whatever sequence of requests the protected API serves, native
  or legacy, malformed or not, with or without credentials, a member that is authorized afterwards was
  authorized before, or one of the requests carried an accepted credential and asked in its body to
  authorize exactly that member.
\<close>

theorem http_authorization_needs_grant:
  assumes "\<forall>api. RequireBearerToken sha256 (ServeHTTP api) token = Inr (H api)"
    and "svStore sv = memoryStore" "canonicalHex 10 (svControllerID sv)" "memInv (wStore w)"
    and "\<forall>(api, rq) \<in> set rqs. apService api = sv \<and> hqContext rq = None" "serveRequests H rqs w = (rs, w')"
    and "memGetMember None i j (wStore w') = Inr m" "mbAuthorized m"
  shows "(\<exists>m0. memGetMember None i j (wStore w) = Inr m0 \<and> mbAuthorized m0)
    \<or> (\<exists>(api, rq) \<in> set rqs. tokenAccepted sha256 token rq \<and> grantRequested rq i j)"
proof (rule disjCI)
  assume no: "\<not> (\<exists>(api, rq) \<in> set rqs. tokenAccepted sha256 token rq \<and> grantRequested rq i j)"
  obtain cs where cs: "list_all (\<lambda>c. \<forall>i j. grants i j c \<longrightarrow> (\<exists>(api, rq) \<in> set rqs. acceptedGrant sha256 token rq i j)) cs"
      "w' = snd (serviceRun sv cs w)"
    using spec [OF serveRequests_calls [OF assms(1,5), unfolded runsCalls_def], of w] assms(6) by auto
  then have g: "\<not> list_ex (grants i j) cs" using no unfolding list_all_iff list_ex_iff acceptedGrant_def by blast
  obtain us where r: "serviceRun sv cs w = (us, w')" using cs(2) by (cases "serviceRun sv cs w") simp
  note run = mem_serviceRun [OF assms(2,4) r]
  have "safeStep (svControllerID sv) i j (list_ex (grants i j) cs) (memAbs (wStore w)) (memAbs (wStore w'))"
    using abs_serviceRun_safe [of "absService sv" "absWorld memAbs w" i j cs] run assms(3) memInv_wf [OF assms(4)] by simp
  with g have "authorizedIn i j (memAbs (wStore w)) \<or> \<not> authorizedIn i j (memAbs (wStore w'))" by (auto simp: safeStep_def)
  then show "\<exists>m0. memGetMember None i j (wStore w) = Inr m0 \<and> mbAuthorized m0"
    using assms(7,8) mem_get [OF assms(4)] mem_get [of "wStore w'"] run by (auto simp: authorizedIn_def)
qed

definition exApi :: "MemStore Api" where
  "exApi = \<lparr> apService = exService, apPeers = None, apUpstreams = None, apNow = (\<lambda>_. 2000), apClock = 2000, apNilLists = False,
     apFloat = Some, apOrder = (\<lambda>ts. ts) \<rparr>"

definition exSha256 :: "string \<Rightarrow> bytes" where
  "exSha256 s = map of_char s"

definition exGrant :: HttpRequest where
  "exGrant = \<lparr> hqMethod = ''PUT'', hqPath = [''v1'', ''networks'', exNetworkID, ''members'', exNodeID, ''authorization''],
     hqZT1Auth = [], hqAuthorization = ''Bearer secret'', hqBody = Some (JObject [(''authorized'', JBool True), (''revision'', JNumber ''1'')]),
     hqTrailing = False, hqContext = None \<rparr>"

definition exHandler :: "MemStore Api \<Rightarrow> HttpRequest \<Rightarrow> MemStore serving" where
  "exHandler api rq = (if hqPath rq = [''healthz''] then ServeHTTP api rq
     else if \<not> tokenAccepted exSha256 ''secret'' rq then respond unauthorizedResponse else ServeHTTP api rq)"

lemma exHandler_protects: "RequireBearerToken exSha256 (ServeHTTP api) ''secret'' = Inr (exHandler api)"
  by (auto simp: RequireBearerToken_def exHandler_def)

lemma ex_paths: "ParseNetworkID exNetworkID = Inr exNetworkID" "ParseNodeID exNodeID = Inr exNodeID" "exNetworkID \<noteq> []" "exNodeID \<noteq> []"
  by (simp_all add: ParseNetworkID_iff ParseNodeID_iff) (simp_all add: exNetworkID_def exNodeID_def)

lemma exGrant_accepted: "tokenAccepted exSha256 ''secret'' exGrant"
  by code_simp

lemma exGrant_body: "decStruct True authorizationFields (False, 0) (JObject [(''authorized'', JBool True), (''revision'', JNumber ''1'')])
    = Inr (True, 1)"
  by (simp add: authorizationFields_def findField_def setField_def ParseUint10_def isDigit_def digitValue_def)

lemma exGrant_served: "exHandler exApi exGrant = serveCall (SetMemberAuthorization exService None exNetworkID exNodeID True 1)
    (\<lambda>member. respond (writeJSON 200 (marshalMember member)))"
proof -
  have "exHandler exApi exGrant = ServeHTTP exApi exGrant" using exGrant_accepted by (simp add: exHandler_def)
  also have "\<dots> = httpSetAuthorization exApi [exNetworkID, exNodeID] exGrant"
    by (simp add: ServeHTTP_def nativeRoutes_def methodMatches_def exGrant_def ex_paths)
  also have "\<dots> = serveCall (SetMemberAuthorization exService None exNetworkID exNodeID True 1)
    (\<lambda>member. respond (writeJSON 200 (marshalMember member)))"
    using exGrant_body by (simp add: httpSetAuthorization_def withMemberPath_def parsePath_def ex_paths decodeJSON_def exGrant_def exApi_def)
  finally show ?thesis .
qed

lemma ex_grant_run:
  obtains m w' where "SetMemberAuthorization exService None exNetworkID exNodeID True 1 exWorld = (Inr m, w')"
    "memGetMember None exNetworkID exNodeID (wStore w') = Inr m" "mbAuthorized m"
proof -
  let ?old = "exMember\<lparr>mbRevision := 1\<rparr>" and ?op = "SetMemberAuthorization exService None exNetworkID exNodeID True 1"
  let ?m = "authorizationSet True 1000 1001 ?old"
  obtain r w' where r: "?op exWorld = (r, w')" by force
  have m: "wfMember ?m" "\<not> memberHasSpecialistRole ?old" "\<not> mbAuthorized ?old" "mbNetworkID ?m = exNetworkID" "mbNodeID ?m = exNodeID"
      "mbAuthorized ?m"
    using ex_wf(2) by (auto simp: wfMember_def exMember_def NewMember_def memberHasSpecialistRole_def authorizationSet_def)
  have sv: "svStore exService = memoryStore" "memInv (wStore exWorld)" using exStore_inv by (simp_all add: exService_simps)
  have "sim memInv memAbs ?op (SetMemberAuthorization (absService exService) None exNetworkID exNodeID True 1)"
    using mem.sim_SetMemberAuthorization [of exService exNetworkID exNodeID True 1] unfolding memService_same [OF sv(1)] .
  from mem_sim [OF this sv(2) r] have inv: "memInv (wStore w')"
      "SetMemberAuthorization (absService exService) None exNetworkID exNodeID True 1 (absWorld memAbs exWorld) = (r, absWorld memAbs w')" by auto
  have old: "validateOwnedNetwork (absService exService) exNetworkID = Inr ()"
      "asMembers (wStore (absWorld memAbs exWorld)) (exNetworkID, exNodeID) = Some ?old"
    using ex_owned exStore_member mem_get [OF sv(2)] by (simp_all add: validateOwnedNetwork_def exService_simps)
  have wf: "wfAStore (wStore (absWorld memAbs exWorld))" using memInv_wf [OF sv(2)] by simp
  have e: "r = Inr ?m" "memAbs (wStore w') = (memAbs exStore)\<lparr>asMembers := (asMembers (memAbs exStore))((exNetworkID, exNodeID) \<mapsto> ?m)\<rparr>"
    using abs_SetMemberAuthorization_effect [OF _ wf inv(2) old] m by (simp_all add: storeThenBump_def exService_simps)
  have "asMembers (memAbs (wStore w')) (exNetworkID, exNodeID) = Some ?m" unfolding e(2) by simp
  then show thesis using that [of ?m w'] r e(1) m(6) mem_get [OF inv(1)] by simp
qed

theorem http_authorization_needs_grant_witness:
  "tokenAccepted exSha256 ''secret'' exGrant \<and> grantRequested exGrant exNetworkID exNodeID"
proof -
  obtain m w' where m: "SetMemberAuthorization exService None exNetworkID exNodeID True 1 exWorld = (Inr m, w')"
      "memGetMember None exNetworkID exNodeID (wStore w') = Inr m" "mbAuthorized m" by (rule ex_grant_run)
  have r: "serveRequests exHandler [(exApi, exGrant)] exWorld = ([writeJSON 200 (marshalMember m)], w')"
    by (simp add: exGrant_served serveCall_def m(1) respond_def)
  have "memGetMember None exNetworkID exNodeID (wStore exWorld) = Inr (exMember\<lparr>mbRevision := 1\<rparr>)" "\<not> mbAuthorized exMember"
    using exStore_member by (simp_all add: exWorld_def exMember_def NewMember_def)
  moreover have "canonicalHex 10 (svControllerID exService)" by (simp add: exService_def canonicalHex_def lowerhex_def)
  ultimately show ?thesis
    using http_authorization_needs_grant [OF allI [OF exHandler_protects] _ _ _ _ r m(2,3), of exService] exStore_inv
    by (simp add: exService_def exWorld_def exApi_def exGrant_def)
qed

theorem changes_need_token_witness:
  "exHandler exApi (exGrant\<lparr>hqAuthorization := ''Bearer guess''\<rparr>) exWorld = (unauthorizedResponse, exWorld)
   \<and> snd (exHandler exApi exGrant exWorld) \<noteq> exWorld \<and> tokenAccepted exSha256 ''secret'' exGrant"
proof -
  have "\<not> tokenAccepted exSha256 ''secret'' (exGrant\<lparr>hqAuthorization := ''Bearer guess''\<rparr>)" by code_simp
  moreover have "hqPath (exGrant\<lparr>hqAuthorization := ''Bearer guess''\<rparr>) \<noteq> [''healthz'']" by (simp add: exGrant_def)
  moreover obtain m w' where m: "SetMemberAuthorization exService None exNetworkID exNodeID True 1 exWorld = (Inr m, w')"
      "memGetMember None exNetworkID exNodeID (wStore w') = Inr m" "mbAuthorized m" by (rule ex_grant_run)
  have "memGetMember None exNetworkID exNodeID (wStore exWorld) \<noteq> Inr m"
    using exStore_member m(3) by (auto simp: exWorld_def exMember_def NewMember_def)
  then have "snd (exHandler exApi exGrant exWorld) \<noteq> exWorld" using m(2) by (auto simp: exGrant_served serveCall_def m(1) respond_def)
  ultimately show ?thesis using changes_need_token [OF exHandler_protects] by metis
qed

end
