(* ===== verification/HttpErrors.thy ===== *)
theory HttpErrors
  imports HttpSafety
begin

text \<open>
  What an error response leaves in the store. The operations of the service fail without a trace, with
  one exception: the two member writes store the member before they bump its network, so a bump that
  fails leaves the member written. The same holds of every request but the legacy member patch, which
  registers the member first.
\<close>

section \<open>Operations that fail cleanly\<close>

definition absClean :: "(AStore, 'a) operation \<Rightarrow> bool" where
  "absClean m = (\<forall>w e w'. wfAStore (wStore w) \<longrightarrow> m w = (Inl e, w') \<longrightarrow> wStore w' = wStore w \<and> wDeauthorized w' = wDeauthorized w)"

lemma clean_createRandom:
  assumes "\<And>n. absClean (f n)"
  shows "absClean (createRandom sv f k)"
proof (induction k)
  case (Suc k)
  show ?case
    unfolding absClean_def
  proof (intro allI impI)
    fix w e w' assume w: "wfAStore (wStore w)" "createRandom sv f (Suc k) w = (Inl e, w')"
    let ?w = "w\<lparr>wRandom := Suc (wRandom w)\<rparr>"
    show "wStore w' = wStore w \<and> wDeauthorized w' = wDeauthorized w"
    proof (cases "svRandom sv (wRandom w)")
      case (Inl x)
      then show ?thesis using w by (auto simp: sbind_def swrap_def srandom_def)
    next
      case (Inr v)
      define n where "n = (if v AND 0x00ffffff = 0 then 1 else v AND 0x00ffffff)"
      obtain r w1 where r: "f n ?w = (r, w1)" by force
      have run: "createRandom sv f (Suc k) w = (case r of Inl e \<Rightarrow> if errorsIs e ErrAlreadyExists then createRandom sv f k w1 else (Inl e, w1)
          | Inr x \<Rightarrow> (Inr x, w1))"
        using Inr r by (simp add: sbind_def swrap_def srandom_def scatch_def sfail_def sret_def n_def Let_def split: sum.split)
      then obtain e' where e': "r = Inl e'" using w by (cases r) auto
      have s: "wStore w1 = wStore w" "wDeauthorized w1 = wDeauthorized w"
        using assms [of n, unfolded absClean_def, rule_format, of ?w e' w1] r e' w(1) by simp_all
      then have "wfAStore (wStore w1)" using w(1) by simp
      then show ?thesis
        using s run e' w(2) Suc.IH [unfolded absClean_def, rule_format, of w1 e w'] by (auto simp del: createRandom.simps split: if_splits)
    qed
  qed
qed (auto simp: absClean_def sfail_def)

lemma abs_clean_creations:
  assumes "svStore sv = absStore"
  shows "absClean (CreateNetwork sv None n name)" "absClean (CreateNetworkWithUpdate sv None n u)"
  using assms
  by (auto simp: absClean_def CreateNetwork_def CreateNetworkWithUpdate_def Let_def run_simps aCreateNetwork_def found_def
      split: if_splits sum.splits)

lemma abs_clean_network:
  assumes "svStore sv = absStore"
  shows "absClean (UpdateNetwork sv None i u v)" "absClean (svcDeleteNetwork sv None i)"
proof -
  show "absClean (svcDeleteNetwork sv None i)"
    using assms by (auto simp: absClean_def svcDeleteNetwork_def run_simps aDeleteNetwork_def found_def split: if_splits sum.splits option.splits)
  have "nwID (applyNetworkUpdate u n) = nwID n" for n by (simp add: applyNetworkUpdate_def)
  then show "absClean (UpdateNetwork sv None i u v)"
    using assms by (auto simp: absClean_def UpdateNetwork_def Let_def run_simps aSaveNetwork_def found_def dest: wfAStoreD(1)
        split: if_splits sum.splits option.splits)
qed

lemma abs_clean_register: "svStore sv = absStore \<Longrightarrow> absClean (RegisterMember sv None i j)"
  by (auto simp: absClean_def RegisterMember_def run_simps aCreateMember_def NewMember_def found_def split: sum.splits option.splits if_splits)

text \<open>
  What a failing member write may leave: one member of \<open>a\<close> replaced by its next revision, at a time the
  clock, at its \<open>c\<close>th reading or later, reads zero or a time before the network of the member was created.
\<close>

definition unbumped :: "(nat \<Rightarrow> time) \<Rightarrow> nat \<Rightarrow> AStore \<Rightarrow> AStore \<Rightarrow> bool" where
  "unbumped now c a a' = (\<exists>i j old m n k. asMembers a (i, j) = Some old \<and> asNetworks a i = Some n \<and> c \<le> k
     \<and> (now k = 0 \<or> now k < nwCreatedAt n) \<and> mbRevision m = mbRevision old + 1
     \<and> a' = a\<lparr>asMembers := (asMembers a)((i, j) \<mapsto> m)\<rparr>)"

definition failsTraced :: "(nat \<Rightarrow> time) \<Rightarrow> ('s World \<Rightarrow> bool) \<Rightarrow> ('s \<Rightarrow> AStore) \<Rightarrow> ('s, 'a) operation \<Rightarrow> bool" where
  "failsTraced now I view m = (\<forall>w e w'. I w \<longrightarrow> m w = (Inl e, w') \<longrightarrow> wDeauthorized w' = wDeauthorized w
     \<and> (view (wStore w') = view (wStore w) \<or> unbumped now (wClock w) (view (wStore w)) (view (wStore w'))))"

abbreviation absTraced :: "AStore Service \<Rightarrow> (AStore, 'a) operation \<Rightarrow> bool" where
  "absTraced sv \<equiv> failsTraced (svNow sv) (\<lambda>w. wfAStore (wStore w)) (\<lambda>a. a)"

abbreviation memTraced :: "MemStore Service \<Rightarrow> (MemStore, 'a) operation \<Rightarrow> bool" where
  "memTraced sv \<equiv> failsTraced (svNow sv) (\<lambda>w. memInv (wStore w)) memAbs"

lemma absClean_traced: "absClean m \<Longrightarrow> absTraced sv m"
  unfolding absClean_def failsTraced_def by blast

text \<open>Deleting a member bumps first and deletes the member it has just read, which cannot fail.\<close>

lemma abs_clean_delete_member:
  assumes "svStore sv = absStore"
  shows "absClean (svcDeleteMember sv None i j)"
  unfolding absClean_def
proof (intro allI impI)
  fix w e w' assume w: "wfAStore (wStore w)" "svcDeleteMember sv None i j w = (Inl e, w')"
  show "wStore w' = wStore w \<and> wDeauthorized w' = wDeauthorized w"
  proof (cases "validateOwnedNetwork sv i = Inr () \<and> asMembers (wStore w) (i, j) \<noteq> None")
    case False
    then show ?thesis using w(2) assms by (cases "validateOwnedNetwork sv i") (auto simp: svcDeleteMember_def run_simps found_def)
  next
    case True
    then obtain m where m: "asMembers (wStore w) (i, j) = Some m" by auto
    let ?c = "mbAuthorized m \<and> memberHasSpecialistRole m"
    obtain r1 w1 where b: "bumpIf ?c sv i w = (r1, w1)" by force
    have "svcDeleteMember sv None i j w = sbind (bumpIf ?c sv i) (\<lambda>_. swrite (aDeleteMember i j (mbRevision m))) w"
      using True m assms by (simp add: svcDeleteMember_def run_bind_slift run_bind_sread bumpIf_def found_def)
    then have "r1 = Inl e \<and> w' = w1"
      using w(2) b m abs_bumpIf_members [OF assms w(1) b] by (cases r1) (auto simp: sbind_def swrite_def aDeleteMember_def)
    then show ?thesis using abs_bumpIf [OF assms w(1) b] by (auto split: if_splits option.splits)
  qed
qed

text \<open>The failures of the reference effect of the member writes.\<close>

lemma storeThenBump_unbumped:
  assumes "wfAStore a" "asMembers a (mbNetworkID m, mbNodeID m) = Some old" "mbRevision m = mbRevision old + 1" "c \<le> k"
    and "\<not> fst (storeThenBump m b (now k) a)"
  shows "snd (storeThenBump m b (now k) a) = a \<or> unbumped now c a (snd (storeThenBump m b (now k) a))"
proof -
  obtain n where n: "asNetworks a (mbNetworkID m) = Some n" using wfAStoreD(2) [OF assms(1,2)] by auto
  show ?thesis
  proof (cases "snd (storeThenBump m b (now k) a) = a")
    case False
    let ?a = "a\<lparr>asMembers := (asMembers a)((mbNetworkID m, mbNodeID m) \<mapsto> m)\<rparr>"
    have "snd (storeThenBump m b (now k) a) = ?a" "bumpAt (mbNetworkID m) (now k) ?a = None"
      using assms(5) False by (auto simp: storeThenBump_def Let_def split: if_splits option.splits)
    moreover from this have "now k = 0 \<or> now k < nwCreatedAt n" using n by (auto simp: bumpAt_def split: if_splits)
    ultimately show ?thesis using assms(2-4) n unfolding unbumped_def by blast
  qed simp
qed

lemma abs_traced_update_member:
  assumes "svStore sv = absStore"
  shows "absTraced sv (UpdateMember sv None i j u v)"
  unfolding failsTraced_def
proof (intro allI impI)
  fix w e w' assume w: "wfAStore (wStore w)" "UpdateMember sv None i j u v w = (Inl e, w')"
  show "wDeauthorized w' = wDeauthorized w \<and> (wStore w' = wStore w \<or> unbumped (svNow sv) (wClock w) (wStore w) (wStore w'))"
  proof (cases "\<exists>old. validateOwnedNetwork sv i = Inr () \<and> asMembers (wStore w) (i, j) = Some old \<and> mbRevision old = v")
    case True
    then obtain old where old: "validateOwnedNetwork sv i = Inr ()" "asMembers (wStore w) (i, j) = Some old" "mbRevision old = v" by blast
    let ?m = "(applyMemberUpdate u old)\<lparr>mbUpdatedAt := svNow sv (wClock w), mbRevision := mbRevision old + 1\<rparr>"
    have "mbNetworkID ?m = i" "mbNodeID ?m = j" using wfAStoreD(2) [OF w(1) old(2)] by (simp_all add: applyMemberUpdate_def)
    then show ?thesis
      using abs_UpdateMember_effect [OF assms w old] storeThenBump_unbumped [OF w(1), of ?m old "wClock w" "Suc (wClock w)"] old(2)
      by (auto split: if_splits)
  qed (use abs_UpdateMember_none [OF assms w(2)] in simp)
qed

lemma abs_traced_authorization:
  assumes "svStore sv = absStore"
  shows "absTraced sv (SetMemberAuthorization sv None i j b v)"
  unfolding failsTraced_def
proof (intro allI impI)
  fix w e w' assume w: "wfAStore (wStore w)" "SetMemberAuthorization sv None i j b v w = (Inl e, w')"
  show "wDeauthorized w' = wDeauthorized w \<and> (wStore w' = wStore w \<or> unbumped (svNow sv) (wClock w) (wStore w) (wStore w'))"
  proof (cases "\<exists>old. validateOwnedNetwork sv i = Inr () \<and> asMembers (wStore w) (i, j) = Some old \<and> mbRevision old = v \<and> mbAuthorized old \<noteq> b")
    case True
    then obtain old where old: "validateOwnedNetwork sv i = Inr ()" "asMembers (wStore w) (i, j) = Some old" "mbRevision old = v"
        "mbAuthorized old \<noteq> b" by blast
    let ?m = "authorizationSet b (svNow sv (wClock w)) (svNow sv (Suc (wClock w))) old"
    have "mbNetworkID ?m = i" "mbNodeID ?m = j" "mbRevision ?m = mbRevision old + 1"
      using wfAStoreD(2) [OF w(1) old(2)] by (simp_all add: authorizationSet_def)
    then show ?thesis
      using abs_SetMemberAuthorization_effect [OF assms w old]
        storeThenBump_unbumped [OF w(1), of ?m old "wClock w" "Suc (Suc (wClock w))"] old(2)
      by (auto split: if_splits)
  qed (use abs_SetMemberAuthorization_none [OF assms w(2)] in simp)
qed

section \<open>Requests that fail\<close>

text \<open>The same over the in-memory store, through its abstraction.\<close>

lemma mem_traced:
  assumes "sim memInv memAbs m m'" "absTraced (absService sv) m'"
  shows "memTraced sv m"
  unfolding failsTraced_def
proof (intro allI impI)
  fix w e w' assume w: "memInv (wStore w)" "m w = (Inl e, w')"
  have "m' (absWorld memAbs w) = (Inl e, absWorld memAbs w')" using mem_sim [OF assms(1) w] by simp
  with assms(2) [unfolded failsTraced_def, rule_format, of "absWorld memAbs w" e "absWorld memAbs w'"] memInv_wf [OF w(1)]
  show "wDeauthorized w' = wDeauthorized w
      \<and> (memAbs (wStore w') = memAbs (wStore w) \<or> unbumped (svNow sv) (wClock w) (memAbs (wStore w)) (memAbs (wStore w')))"
    by simp
qed

text \<open>A cancelled context: every call of the in-memory store returns the error of the context.\<close>

lemma mem_cancelled:
  "memGetNetwork (Some x) i s = Inl x" "memGetMember (Some x) i j s = Inl x" "memCreateNetwork (Some x) n s = (Inl x, s)"
  "memCreateMember (Some x) m s = (Inl x, s)"
  by (simp_all add: memGetNetwork_def memGetMember_def memCreateNetwork_def memCreateMember_def)

definition untouched :: "('s, 'a) operation \<Rightarrow> bool" where
  "untouched m = (\<forall>w. wStore (snd (m w)) = wStore w \<and> wDeauthorized (snd (m w)) = wDeauthorized w)"

lemma untouchedD: "untouched m \<Longrightarrow> m w = (r, w') \<Longrightarrow> wStore w' = wStore w \<and> wDeauthorized w' = wDeauthorized w"
  unfolding untouched_def by (metis snd_conv)

lemma untouched_traced: "untouched m \<Longrightarrow> failsTraced now I view m"
  using untouchedD unfolding failsTraced_def by metis

lemma cancelled_operations:
  assumes "svStore sv = memoryStore"
  shows "untouched (CreateNetwork sv (Some x) n name)" "untouched (CreateNetworkWithUpdate sv (Some x) n u)"
    "untouched (RegisterMember sv (Some x) i j)" "untouched (SetMemberAuthorization sv (Some x) i j b v)"
    "untouched (UpdateNetwork sv (Some x) i u v)" "untouched (svcDeleteNetwork sv (Some x) i)"
    "untouched (UpdateMember sv (Some x) i j mu v)" "untouched (svcDeleteMember sv (Some x) i j)"
  unfolding untouched_def CreateNetwork_def CreateNetworkWithUpdate_def RegisterMember_def SetMemberAuthorization_def UpdateNetwork_def
    svcDeleteNetwork_def UpdateMember_def svcDeleteMember_def
  using assms by (auto simp: Let_def run_simps mem_cancelled split: sum.split)

lemma untouched_createRandom:
  assumes "\<And>n. untouched (f n)"
  shows "untouched (createRandom sv f k)"
proof (induction k)
  case (Suc k)
  have "wStore (snd (createRandom sv f (Suc k) w)) = wStore w \<and> wDeauthorized (snd (createRandom sv f (Suc k) w)) = wDeauthorized w" for w
  proof (cases "svRandom sv (wRandom w)")
    case (Inl x)
    then show ?thesis by (simp add: sbind_def swrap_def srandom_def)
  next
    case (Inr v)
    define n where "n = (if v AND 0x00ffffff = 0 then 1 else v AND 0x00ffffff)"
    let ?w = "w\<lparr>wRandom := Suc (wRandom w)\<rparr>"
    obtain r w1 where r: "f n ?w = (r, w1)" by force
    have "createRandom sv f (Suc k) w = (case r of Inl e \<Rightarrow> if errorsIs e ErrAlreadyExists then createRandom sv f k w1 else (Inl e, w1)
        | Inr x \<Rightarrow> (Inr x, w1))"
      using Inr r by (simp add: sbind_def swrap_def srandom_def scatch_def sfail_def sret_def n_def Let_def split: sum.split)
    then show ?thesis
      using untouchedD [OF assms r] Suc.IH unfolding untouched_def by (simp del: createRandom.simps split: sum.split)
  qed
  then show ?case unfolding untouched_def by blast
qed (simp add: untouched_def sfail_def)

lemma memTraced_cases:
  assumes "sim memInv memAbs (m None) m'" "absTraced (absService sv) m'" "\<And>x. untouched (m (Some x))"
  shows "memTraced sv (m ctx)"
  using mem_traced [OF assms(1,2)] untouched_traced [OF assms(3)] by (cases ctx) simp_all

lemma mem_traced_operations:
  assumes "svStore sv = memoryStore"
  shows "memTraced sv (CreateNetwork sv ctx n name)" "memTraced sv (CreateNetworkWithUpdate sv ctx n u)"
    "memTraced sv (CreateRandomNetworkWithUpdate sv ctx u)" "memTraced sv (RegisterMember sv ctx i j)"
    "memTraced sv (SetMemberAuthorization sv ctx i j b v)" "memTraced sv (UpdateNetwork sv ctx i u v)"
    "memTraced sv (svcDeleteNetwork sv ctx i)" "memTraced sv (UpdateMember sv ctx i j mu v)"
    "memTraced sv (svcDeleteMember sv ctx i j)"
proof -
  have a: "svStore (absService sv) = absStore" by simp
  note same = memService_same [OF assms]
  note ops = mem.sim_CreateNetwork [of sv] mem.sim_CreateNetworkWithUpdate [of sv] mem.sim_RegisterMember [of sv]
    mem.sim_SetMemberAuthorization [of sv] mem.sim_UpdateNetwork [of sv] mem.sim_svcDeleteNetwork [of sv]
    mem.sim_UpdateMember [of sv] mem.sim_svcDeleteMember [of sv]
  note sims = ops [unfolded same]
  note clean = absClean_traced [of _ "absService sv"]
  note cancelled = cancelled_operations [OF assms]
  show "memTraced sv (CreateNetwork sv ctx n name)"
    by (rule memTraced_cases [OF sims(1) clean [OF abs_clean_creations(1) [OF a]] cancelled(1)])
  show "memTraced sv (CreateNetworkWithUpdate sv ctx n u)"
    by (rule memTraced_cases [OF sims(2) clean [OF abs_clean_creations(2) [OF a]] cancelled(2)])
  show "memTraced sv (CreateRandomNetworkWithUpdate sv ctx u)"
    unfolding CreateRandomNetworkWithUpdate_def
    by (rule memTraced_cases [OF mem.sim_createRandom [OF sims(2)] clean [OF clean_createRandom [OF abs_clean_creations(2) [OF a]]]
      untouched_createRandom [OF cancelled(2)]])
  show "memTraced sv (RegisterMember sv ctx i j)"
    by (rule memTraced_cases [OF sims(3) clean [OF abs_clean_register [OF a]] cancelled(3)])
  show "memTraced sv (SetMemberAuthorization sv ctx i j b v)"
    by (rule memTraced_cases [OF sims(4) abs_traced_authorization [OF a] cancelled(4)])
  show "memTraced sv (UpdateNetwork sv ctx i u v)"
    by (rule memTraced_cases [OF sims(5) clean [OF abs_clean_network(1) [OF a]] cancelled(5)])
  show "memTraced sv (svcDeleteNetwork sv ctx i)"
    by (rule memTraced_cases [OF sims(6) clean [OF abs_clean_network(2) [OF a]] cancelled(6)])
  show "memTraced sv (UpdateMember sv ctx i j mu v)"
    by (rule memTraced_cases [OF sims(7) abs_traced_update_member [OF a] cancelled(7)])
  show "memTraced sv (svcDeleteMember sv ctx i j)"
    by (rule memTraced_cases [OF sims(8) clean [OF abs_clean_delete_member [OF a]] cancelled(8)])
qed

definition refuses :: "MemStore Service \<Rightarrow> MemStore serving \<Rightarrow> bool" where
  "refuses sv m = (\<forall>w. memInv (wStore w) \<longrightarrow> 400 \<le> hrStatus (fst (m w)) \<longrightarrow> wDeauthorized (snd (m w)) = wDeauthorized w
     \<and> (memAbs (wStore (snd (m w))) = memAbs (wStore w)
        \<or> unbumped (svNow sv) (wClock w) (memAbs (wStore w)) (memAbs (wStore (snd (m w))))))"

lemma refuses_still: "runsCalls sv' (\<lambda>_. False) m \<Longrightarrow> refuses sv m"
  using runsCalls_none [of sv' m] by (auto simp: refuses_def)

lemma refuses_respond: "refuses sv (respond r)"
  by (simp add: refuses_def respond_def)

lemma refuses_serveCall:
  assumes "memTraced sv m" "\<And>x w. hrStatus (fst (f x w)) < 400"
  shows "refuses sv (serveCall m f)"
  unfolding refuses_def
proof (intro allI impI)
  fix w assume w: "memInv (wStore w)" "400 \<le> hrStatus (fst (serveCall m f w))"
  obtain r w' where r: "m w = (r, w')" by force
  then obtain e where "r = Inl e" using w(2) assms(2) [of _ w'] by (cases r) (auto simp: serveCall_def not_le [symmetric])
  then show "wDeauthorized (snd (serveCall m f w)) = wDeauthorized w \<and> (memAbs (wStore (snd (serveCall m f w))) = memAbs (wStore w)
      \<or> unbumped (svNow sv) (wClock w) (memAbs (wStore w)) (memAbs (wStore (snd (serveCall m f w)))))"
    using assms(1) r w(1) unfolding failsTraced_def by (simp add: serveCall_def)
qed

text \<open>A read before the call that may change something.\<close>

lemma refuses_catch:
  assumes "\<And>w. snd (m w) = w" "\<And>r. refuses sv (f r)"
  shows "refuses sv (serveCatch m f)"
proof -
  have "serveCatch m f w = f (fst (m w)) w" for w using assms(1) [of w] by (simp add: serveCatch_def split_beta)
  then show ?thesis using assms(2) by (simp add: refuses_def)
qed

lemma refuses_read:
  assumes "\<And>w. snd (m w) = w" "\<And>x. refuses sv (f x)"
  shows "refuses sv (serveCall m f)"
proof -
  have "serveCall m f w = (case fst (m w) of Inl e \<Rightarrow> respond (writeError e) w | Inr x \<Rightarrow> f x w)" for w
    using assms(1) [of w] by (cases "m w") (auto simp: serveCall_def respond_def split: sum.split)
  then show ?thesis using assms(2) refuses_respond by (auto simp: refuses_def respond_def split: sum.split)
qed

lemma refuses_parsePath: "(\<And>x. refuses sv (f x)) \<Longrightarrow> refuses sv (parsePath r f)"
  by (auto simp: parsePath_def refuses_respond split: sum.split)

lemma refuses_decode:
  assumes "\<And>x. refuses sv (f x)"
  shows "refuses sv (decodeJSON rq dec zero f)" "refuses sv (decodeLegacyJSON rq dec zero f)"
  using assms by (auto simp: decodeJSON_def decodeLegacyJSON_def refuses_respond split: option.split sum.split)

lemma success_status:
  "hrStatus (fst (respond (writeJSON status r) w)) = status" "hrStatus (fst (writeNetwork api network w)) = 200"
  "hrStatus (fst (writeMember api rq member w)) = 200"
  by (auto simp: respond_def writeJSON_def writeNetwork_def writeMember_def split: prod.split)

lemma handlers_refuse:
  assumes "svStore (apService api) = memoryStore"
  shows "refuses (apService api) (httpCreateNetwork api vs rq)" "refuses (apService api) (httpUpdateNetwork api vs rq)"
    "refuses (apService api) (httpRegisterMember api vs rq)" "refuses (apService api) (httpUpdateMember api vs rq)"
    "refuses (apService api) (httpSetAuthorization api vs rq)" "refuses (apService api) (legacyCreateNetwork api vs rq)"
    "refuses (apService api) (legacyDeleteNetwork api vs rq)" "refuses (apService api) (legacyDeleteMember api vs rq)"
  unfolding httpCreateNetwork_def httpUpdateNetwork_def httpRegisterMember_def httpUpdateMember_def httpSetAuthorization_def
    legacyCreateNetwork_def legacyDeleteNetwork_def legacyDeleteMember_def withMemberPath_def networkFromPath_def memberFromPath_def
    legacyNetworkID_def legacyNodeID_def
  by (auto intro!: refuses_parsePath refuses_decode refuses_serveCall mem_traced_operations [OF assms]
      refuses_read [OF read_still(1)] refuses_read [OF read_still(2)] simp: success_status)

lemma putNetwork_refuses:
  assumes "svStore (apService api) = memoryStore"
  shows "refuses (apService api) (putNetwork api vs rq)"
  unfolding putNetwork_def Let_def legacyNetworkID_def applyNetworkPatch_def
  using handlers_refuse(6) [OF assms]
  by (auto intro!: refuses_respond refuses_parsePath refuses_decode refuses_catch [OF read_still(1)] refuses_serveCall
      mem_traced_operations [OF assms] simp: success_status split: sum.split)

definition isMemberPatch :: "HttpRequest \<Rightarrow> bool" where
  "isMemberPatch rq = ((hqMethod rq = ''POST'' \<or> hqMethod rq = ''PUT'')
     \<and> matchPath [Lit ''controller'', Lit ''network'', Wild, Lit ''member'', Wild] (hqPath rq) \<noteq> None)"

lemma ServeHTTP_refuses:
  assumes "svStore (apService api) = memoryStore" "\<not> isMemberPatch rq"
  shows "refuses (apService api) (ServeHTTP api rq)"
  unfolding ServeHTTP_def
proof (rule muxServe_cases [where Q = "refuses (apService api)"])
  fix m p f vs
  assume r: "(m, p, f) \<in> set (nativeRoutes api @ legacyRoutes api)" "methodMatches m (hqMethod rq)" "matchPath p (hqPath rq) = Some vs"
  note clean = handlers_refuse [OF assms(1)] putNetwork_refuses [OF assms(1)] refuses_still [OF http_reads(1)]
    http_reads [of "apService api" "\<lambda>_. False", THEN refuses_still]
  show "refuses (apService api) (f vs rq)"
  proof (cases "(m, p, f) \<in> set (nativeRoutes api)")
    case True
    then show ?thesis using clean by (auto simp: nativeRoutes_def)
  next
    case False
    then have "(m, p, f) \<in> set (legacyRoutes api)" using r(1) by simp
    then show ?thesis using r(2,3) assms(2) clean by (auto simp: legacyRoutes_def Let_def isMemberPatch_def methodMatches_def)
  qed
qed (rule refuses_respond)

text \<open>
  C19. What an error response leaves behind, over the in-memory store, whatever the clock reads and
  whether or not the context of the request has been cancelled. A request other than the legacy member
  patch (a \<^verbatim>\<open>POST\<close> or \<^verbatim>\<open>PUT\<close> of \<^verbatim>\<open>/controller/network/{id}/member/{id}\<close>, which registers the
  member first) that is answered with a status of 400 or more has published no deauthorization and has
  left every network, member and agent record as it was, with one exception: when the clock has read
  zero or a time before the creation of the network, a member write whose revision bump failed has
  replaced that one member by its next revision.
\<close>

theorem error_response_effect:
  assumes "svStore (apService api) = memoryStore" "memInv (wStore w)" "\<not> isMemberPatch rq"
    and "ServeHTTP api rq w = (r, w')" "400 \<le> hrStatus r"
  shows "wDeauthorized w' = wDeauthorized w \<and> (memAbs (wStore w') = memAbs (wStore w)
    \<or> (\<exists>i j old m n k. memGetMember None i j (wStore w) = Inr old \<and> memGetNetwork None i (wStore w) = Inr n
        \<and> wClock w \<le> k \<and> (svNow (apService api) k = 0 \<or> svNow (apService api) k < nwCreatedAt n)
        \<and> mbRevision m = mbRevision old + 1
        \<and> memAbs (wStore w') = (memAbs (wStore w))\<lparr>asMembers := (asMembers (memAbs (wStore w)))((i, j) \<mapsto> m)\<rparr>))"
proof -
  have "memGetNetwork None i (wStore w) = Inr n \<longleftrightarrow> asNetworks (memAbs (wStore w)) i = Some n" for i n
    using mem.get_network [OF assms(2)] by simp
  moreover have "wDeauthorized w' = wDeauthorized w \<and> (memAbs (wStore w') = memAbs (wStore w)
      \<or> unbumped (svNow (apService api)) (wClock w) (memAbs (wStore w)) (memAbs (wStore w')))"
    using ServeHTTP_refuses [OF assms(1,3)] assms(2,4,5) unfolding refuses_def by (metis fst_conv snd_conv)
  ultimately show ?thesis unfolding unbumped_def mem_get [OF assms(2)] by simp
qed

definition exStale :: HttpRequest where
  "exStale = exGrant\<lparr>hqBody := Some (JObject [(''authorized'', JBool True), (''revision'', JNumber ''7'')])\<rparr>"

lemma exStale_served: "ServeHTTP exApi exStale exWorld = (writeError ErrConflict, exWorld)"
proof -
  have "ServeHTTP exApi exStale = httpSetAuthorization exApi [exNetworkID, exNodeID] exStale"
    by (simp add: ServeHTTP_def nativeRoutes_def methodMatches_def exStale_def exGrant_def ex_paths)
  also have "\<dots> = serveCall (SetMemberAuthorization exService None exNetworkID exNodeID True 7)
    (\<lambda>member. respond (writeJSON 200 (marshalMember member)))"
    by (simp add: httpSetAuthorization_def withMemberPath_def parsePath_def ex_paths decodeJSON_def exStale_def exGrant_def exApi_def
        authorizationFields_def findField_def setField_def ParseUint10_def isDigit_def digitValue_def)
  finally show ?thesis
    using ex_owned exStore_member
    by (simp add: serveCall_def SetMemberAuthorization_def run_simps exService_def memoryStore_def exWorld_def)
qed

theorem error_response_effect_witness:
  "hrStatus (fst (ServeHTTP exApi exStale exWorld)) = 409 \<and> memAbs (wStore (snd (ServeHTTP exApi exStale exWorld))) = memAbs exStore"
proof -
  have s: "hrStatus (fst (ServeHTTP exApi exStale exWorld)) = 409" unfolding exStale_served by code_simp
  have late: "svNow (apService exApi) k \<noteq> 0" "\<not> svNow (apService exApi) k < nwCreatedAt n"
    if "memGetNetwork None i (wStore exWorld) = Inr n" for i n k
    using that by (auto simp: memGetNetwork_def exApi_def exService_simps exStore_def exNetwork_def NewNetwork_def split: if_splits option.splits)
  have "\<not> isMemberPatch exStale" by (simp add: isMemberPatch_def exStale_def exGrant_def)
  then have "memAbs (wStore (snd (ServeHTTP exApi exStale exWorld))) = memAbs (wStore exWorld)"
    using error_response_effect [OF _ _ _ surjective_pairing, of exApi exWorld exStale] s late exStore_inv
    by (auto simp: exApi_def exService_simps)
  then show ?thesis using s by (simp add: exService_simps)
qed

end
