(* ===== verification/LegacyView.thy ===== *)
theory LegacyView
  imports HttpErrors
begin

text \<open>
  The legacy view of a network against its patch: what a client that reads a network and writes back what
  it read, which is how the original controller's clients change single fields, leaves in the store. The
  view masks route targets and reads rule parameters through \<^verbatim>\<open>float64\<close>; everything else survives.
\<close>

section \<open>Objects and lists\<close>

lemma encObject_sorted:
  assumes "sorted_wrt (<) (map fst kvs)" "list_all (\<lambda>(k, _). validUTF8 k) kvs"
  shows "encObject kvs = JObject kvs"
proof -
  have d: "distinct (map fst kvs)" "sorted (map fst kvs)"
    using assms(1) strict_sorted_iff by blast+
  have "sorted_list_of_fset (fmdom (fmap_of_list kvs)) = map fst kvs"
    using sorted_list_of_set.idem_if_sorted_distinct [OF d(2,1)] by (simp add: sorted_list_of_fset.rep_eq fset_of_list.rep_eq)
  moreover have "the (fmlookup (fmap_of_list kvs) k) = v" if "(k, v) \<in> set kvs" for k v
    using that d(1) by (simp add: fmlookup_of_list map_of_is_SomeI)
  ultimately have "sorted_list_of_fmap (fmap_of_list kvs) = kvs"
    by (auto simp: sorted_list_of_fmap_def intro!: map_idI)
  then show ?thesis using assms(2) by (auto simp: encObject_def encMap_def list_all_iff validUTF8_def intro!: map_idI)
qed

lemma decPtr_list:
  assumes "\<And>x. x \<in> set xs \<Longrightarrow> dec zero (enc x) = Inr (f x)"
  shows "decPtr (decList dec zero) [] None (JArray (map enc xs)) = Inr (Some (map f xs))"
proof -
  have "mapM (\<lambda>x. dec zero (enc x)) xs = Inr (map f xs)" using assms by (rule mapM_all_ok)
  moreover have "mapM (dec zero) (map enc xs) = mapM (\<lambda>x. dec zero (enc x)) xs" by (induction xs) auto
  ultimately show ?thesis by (simp add: decPtr.simps decList.simps)
qed

lemma concat_singletons: "(\<And>x. x \<in> set xs \<Longrightarrow> f x = [g x]) \<Longrightarrow> concat (map f xs) = map g xs"
  by (induction xs) auto

section \<open>Rules\<close>

lemma map_of_concat_option:
  "distinct (map fst kvs) \<Longrightarrow> map_of (concat (map (\<lambda>(k, x). case f x of None \<Rightarrow> [] | Some v \<Rightarrow> [(k, v)]) kvs)) k = Option.bind (map_of kvs k) f"
proof (induction kvs)
  case (Cons kv kvs)
  then show ?case by (cases kv) (auto simp: map_of_eq_None_iff image_iff split: option.split)
qed simp

lemma renderParameters_lookup: "fmlookup (renderParameters api p) k = Option.bind (fmlookup p k) (decAny (apFloat api))"
proof -
  have "distinct (map fst (sorted_list_of_fmap p))" by (simp add: sorted_list_of_fmap_def comp_def sorted_list_of_fset.rep_eq)
  moreover have "map_of (sorted_list_of_fmap p) k = fmlookup p k" by (metis fmap_of_sorted_list fmlookup_of_list)
  ultimately show ?thesis by (simp add: renderParameters_def fmlookup_of_list map_of_concat_option)
qed

text \<open>
  What becomes of a rule: its parameters are read as numbers of \<^verbatim>\<open>float64\<close> (one that cannot be read is
  dropped) and written over the keys \<^verbatim>\<open>type\<close>, \<^verbatim>\<open>not\<close> and \<^verbatim>\<open>or\<close> of the rule itself, so that a parameter
  of such a name replaces that part of the rule if it has the right type, and clears it otherwise; a
  rule left without a type is dropped.
\<close>

definition rewritten :: "'a decoder \<Rightarrow> 'a \<Rightarrow> RawMessage option \<Rightarrow> 'a \<Rightarrow> 'a" where
  "rewritten dec zero parameter own = (case parameter of None \<Rightarrow> own
     | Some j \<Rightarrow> (case dec zero j of Inr v \<Rightarrow> v | Inl _ \<Rightarrow> zero))"

definition normalRule :: "'s Api \<Rightarrow> Rule \<Rightarrow> Rule list" where
  "normalRule api r =
    (let parameters = renderParameters api (ruParameters r);
         name = rewritten decString [] (fmlookup parameters ''type'') (ruType r) in
     if name = [] then []
     else [\<lparr> ruType = name, ruNegate = rewritten decBool False (fmlookup parameters ''not'') (ruNegate r),
             ruOr = rewritten decBool False (fmlookup parameters ''or'') (ruOr r),
             ruParameters = fmdrop ''or'' (fmdrop ''not'' (fmdrop ''type'' parameters)) \<rparr>])"

definition normalRules :: "'s Api \<Rightarrow> Rule list \<Rightarrow> Rule list" where
  "normalRules api rs = concat (map (normalRule api) rs)"

text \<open>A rule that comes back as it was.\<close>

definition legacyRuleOk :: "'s Api \<Rightarrow> Rule \<Rightarrow> bool" where
  "legacyRuleOk api r = (ruType r \<noteq> [] \<and> list_all (\<lambda>k. fmlookup (ruParameters r) k = None) [''type'', ''not'', ''or'']
     \<and> fmpred (\<lambda>_ j. decAny (apFloat api) j = Some j) (ruParameters r))"

lemma normalRule_same:
  assumes "legacyRuleOk api r"
  shows "normalRule api r = [r]"
proof -
  have "renderParameters api (ruParameters r) = ruParameters r"
  proof (rule fmap_ext)
    fix k
    have "decAny (apFloat api) j = Some j" if "fmlookup (ruParameters r) k = Some j" for j
      using that assms unfolding legacyRuleOk_def by (blast dest: fmpredD)
    then show "fmlookup (renderParameters api (ruParameters r)) k = fmlookup (ruParameters r) k"
      by (cases "fmlookup (ruParameters r) k") (simp_all add: renderParameters_lookup)
  qed
  moreover have "fmdrop ''or'' (fmdrop ''not'' (fmdrop ''type'' (ruParameters r))) = ruParameters r"
    by (rule fmap_ext) (use assms in \<open>auto simp: legacyRuleOk_def\<close>)
  ultimately show ?thesis using assms by (simp add: normalRule_def rewritten_def legacyRuleOk_def)
qed

lemma normalRules_same: "list_all (legacyRuleOk api) rs \<Longrightarrow> normalRules api rs = rs"
  unfolding normalRules_def by (subst concat_singletons [where g = "\<lambda>r. r"]) (auto simp: list_all_iff normalRule_same)

lemma normalRules_typed: "list_all (\<lambda>r. ruType r \<noteq> []) (normalRules api rs)"
  by (auto simp: normalRules_def normalRule_def list_all_iff Let_def split: if_splits)

lemma normalRules_length: "length (normalRules api rs) \<le> length rs"
  by (induction rs) (auto simp: normalRules_def normalRule_def Let_def)

lemma legacy_rule:
  assumes "okRule r"
  shows "\<exists>raw. decMap decRaw JNull None (renderLegacyRule api r) = Inr raw \<and> parseLegacyRule raw = normalRule api r"
proof -
  let ?own = "fmap_of_list [(''not'', JBool (ruNegate r)), (''or'', JBool (ruOr r)), (''type'', encString (ruType r))]"
  let ?P = "renderParameters api (ruParameters r)"
  let ?M = "?own ++\<^sub>f ?P"
  have ok: "validUTF8 (ruType r)" "fmpred (\<lambda>k _. validUTF8 k) (ruParameters r)" using assms by (simp_all add: okRule_def)
  have "fmpred (\<lambda>k _. validUTF8 k \<and> True) ?M"
    using ok(2) by (auto simp: fmpred_iff fmlookup_of_list validUTF8_ascii renderParameters_lookup bind_eq_Some_conv split: if_splits)
  then have d: "decMap decRaw JNull None (renderLegacyRule api r) = Inr (Some ?M)"
    using raw.decMap_enc [of ?M] by (simp add: renderLegacyRule_def)
  have key: "fmlookup ?M k = (case fmlookup ?P k of None \<Rightarrow> fmlookup ?own k | Some j \<Rightarrow> Some j)" for k
    by (auto simp: fmlookup_dom_iff split: option.split)
  have "unmarshalKey decString [] ''type'' ?M = rewritten decString [] (fmlookup ?P ''type'') (ruType r)"
    "unmarshalKey decBool False ''not'' ?M = rewritten decBool False (fmlookup ?P ''not'') (ruNegate r)"
    "unmarshalKey decBool False ''or'' ?M = rewritten decBool False (fmlookup ?P ''or'') (ruOr r)"
    unfolding unmarshalKey_def key rewritten_def using decString_enc [OF ok(1)] by (simp_all add: fmlookup_of_list split: option.split)
  moreover have "fmdrop ''or'' (fmdrop ''not'' (fmdrop ''type'' ?M)) = fmdrop ''or'' (fmdrop ''not'' (fmdrop ''type'' ?P))"
    by (rule fmap_ext) (auto simp: fmlookup_of_list fmlookup_dom_iff)
  ultimately have "parseLegacyRule (Some ?M) = normalRule api r"
    by (simp add: parseLegacyRule_def normalRule_def Let_def)
  with d show ?thesis by blast
qed

lemma legacy_rules:
  assumes "list_all okRule rs"
  obtains raws where "decRawRules [] (renderLegacyRules api rs) = Inr raws" "parseLegacyRules raws = normalRules api rs"
proof -
  obtain g where g: "\<And>r. okRule r \<Longrightarrow> decMap decRaw JNull None (renderLegacyRule api r) = Inr (g r) \<and> parseLegacyRule (g r) = normalRule api r"
    using legacy_rule [of _ api] by metis
  have "mapM (\<lambda>r. decMap decRaw JNull None (renderLegacyRule api r)) rs = Inr (map g rs)"
    by (rule mapM_all_ok) (use assms g in \<open>auto simp: list_all_iff\<close>)
  moreover have "mapM (decMap decRaw JNull None) (map (renderLegacyRule api) rs) = mapM (\<lambda>r. decMap decRaw JNull None (renderLegacyRule api r)) rs"
    by (induction rs) auto
  ultimately have "decRawRules [] (renderLegacyRules api rs) = Inr (map g rs)"
    by (simp add: decRawRules_def renderLegacyRules_def decList.simps)
  moreover have "map parseLegacyRule (map g rs) = map (normalRule api) rs"
    using assms g by (auto simp: list_all_iff)
  then have "parseLegacyRules (map g rs) = normalRules api rs"
    unfolding parseLegacyRules_def normalRules_def by (rule arg_cong)
  ultimately show thesis by (rule that)
qed

section \<open>The other parts\<close>

lemma ascii_keys [simp]: "list_all (\<lambda>c. (of_char c :: nat) < 128) k \<Longrightarrow> validUTF8 k"
  by (rule validUTF8_ascii)

definition normalCapability :: "'s Api \<Rightarrow> Capability \<Rightarrow> Capability" where
  "normalCapability api c = c\<lparr>cpRules := normalRules api (cpRules c)\<rparr>"

lemma legacy_capability:
  assumes "okCapability c"
  shows "\<exists>lc. decStruct False legacyCapabilityFields \<lparr> lcID = 0, lcDefault = False, lcRules = [] \<rparr>
      (encObject [(''default'', JBool (cpDefault c)), (''id'', encUint (cpID c)), (''rules'', renderLegacyRules api (cpRules c))]) = Inr lc
    \<and> parseLegacyCapabilities [lc] = [normalCapability api c]"
proof -
  obtain raws where r: "decRawRules [] (renderLegacyRules api (cpRules c)) = Inr raws" "parseLegacyRules raws = normalRules api (cpRules c)"
    using legacy_rules [of "cpRules c" api] assms by (auto simp: okCapability_def)
  have "encObject [(''default'', JBool (cpDefault c)), (''id'', encUint (cpID c)), (''rules'', renderLegacyRules api (cpRules c))]
      = JObject [(''default'', JBool (cpDefault c)), (''id'', encUint (cpID c)), (''rules'', renderLegacyRules api (cpRules c))]"
    by (rule encObject_sorted) (simp_all add: less_char_def)
  then show ?thesis
    using r by (simp add: legacyCapabilityFields_def findField_def setField_def uint32.dec_enc parseLegacyCapabilities_def normalCapability_def)
qed

lemma legacy_capabilities:
  assumes "list_all okCapability cs"
  obtains lcs where "decPtr (decList (decStruct False legacyCapabilityFields) \<lparr> lcID = 0, lcDefault = False, lcRules = [] \<rparr>) [] None
      (JArray (map (\<lambda>capability. encObject [(''default'', JBool (cpDefault capability)), (''id'', encUint (cpID capability)),
        (''rules'', renderLegacyRules api (cpRules capability))]) cs)) = Inr (Some lcs)" "parseLegacyCapabilities lcs = map (normalCapability api) cs"
proof -
  obtain g where g: "\<And>c. okCapability c \<Longrightarrow> decStruct False legacyCapabilityFields \<lparr> lcID = 0, lcDefault = False, lcRules = [] \<rparr>
      (encObject [(''default'', JBool (cpDefault c)), (''id'', encUint (cpID c)), (''rules'', renderLegacyRules api (cpRules c))]) = Inr (g c)
    \<and> parseLegacyCapabilities [g c] = [normalCapability api c]"
    using legacy_capability [of _ api] by metis
  have "parseLegacyCapabilities (map g cs) = map (normalCapability api) cs"
    using assms g by (auto simp: parseLegacyCapabilities_def list_all_iff)
  moreover have "decPtr (decList (decStruct False legacyCapabilityFields) \<lparr> lcID = 0, lcDefault = False, lcRules = [] \<rparr>) [] None
      (JArray (map (\<lambda>capability. encObject [(''default'', JBool (cpDefault capability)), (''id'', encUint (cpID capability)),
        (''rules'', renderLegacyRules api (cpRules capability))]) cs)) = Inr (Some (map g cs))"
    by (rule decPtr_list) (use assms g in \<open>auto simp: list_all_iff\<close>)
  ultimately show thesis using that by blast
qed

definition normalRoute :: "Route \<Rightarrow> Route" where
  "normalRoute r = r\<lparr>rtTarget := Masked (rtTarget r)\<rparr>"

lemma normalRoute_wf: "wfRoute r \<Longrightarrow> okRoute r \<Longrightarrow> wfRoute (normalRoute r)"
  by (cases "pfAddr (rtTarget r)") (auto simp: wfRoute_def normalRoute_def prefixIsValid_def okRoute_def okPrefix_def)

lemma Addr_String_Marshal: "addrIsValid a \<Longrightarrow> Addr_String a = Addr_MarshalText a"
  by (cases a) (simp_all add: Addr_String_def Addr_MarshalText_def)

definition legacyRouteOf :: "Route \<Rightarrow> legacyRoute" where
  "legacyRouteOf r = \<lparr> lrTarget = Prefix_String (rtTarget r), lrVia = (if addrIsValid (rtVia r) then Some (Addr_String (rtVia r)) else None) \<rparr>"

lemma legacy_route:
  assumes "okRoute r" "wfRoute r"
  shows "decStruct False legacyRouteFields \<lparr> lrTarget = [], lrVia = None \<rparr>
      (encObject [(''target'', encString (Prefix_String (rtTarget r))),
        (''via'', if addrIsValid (rtVia r) then encString (Addr_String (rtVia r)) else JNull)]) = Inr (legacyRouteOf r)"
    "parseLegacyRoute (legacyRouteOf r) = [normalRoute r]"
proof -
  have ok: "okPrefix (rtTarget r)" "validUTF8 (Prefix_String (rtTarget r))" "validUTF8 (Addr_MarshalText (rtVia r))"
    using assms by (simp_all add: okRoute_def okAddr_def)
  have "encObject [(''target'', encString (Prefix_String (rtTarget r))), (''via'', if addrIsValid (rtVia r) then encString (Addr_String (rtVia r)) else JNull)]
      = JObject [(''target'', encString (Prefix_String (rtTarget r))), (''via'', if addrIsValid (rtVia r) then encString (Addr_String (rtVia r)) else JNull)]"
    by (rule encObject_sorted) (simp_all add: less_char_def)
  moreover have "decPtr decString [] None (encString (Addr_String (rtVia r))) = Inr (Some (Addr_String (rtVia r)))" if "addrIsValid (rtVia r)"
    using that ok(3) by (simp add: encString_def decPtr.simps Addr_String_Marshal validUTF8_def)
  ultimately show "decStruct False legacyRouteFields \<lparr> lrTarget = [], lrVia = None \<rparr>
      (encObject [(''target'', encString (Prefix_String (rtTarget r))),
        (''via'', if addrIsValid (rtVia r) then encString (Addr_String (rtVia r)) else JNull)]) = Inr (legacyRouteOf r)"
    using ok(2) by (simp add: legacyRouteFields_def findField_def setField_def decString_enc decPtr.simps(1) legacyRouteOf_def)
  have "ParsePrefix (Prefix_String (rtTarget r)) = Inr (rtTarget r)" using ok(1) by (intro ParsePrefix_String) (simp_all add: okPrefix_def)
  moreover have "rtVia r = NoAddr" if "\<not> addrIsValid (rtVia r)" using that by (cases "rtVia r") auto
  ultimately show "parseLegacyRoute (legacyRouteOf r) = [normalRoute r]"
    using assms ParseAddr_String [of "rtVia r"]
    by (auto simp: wfRoute_def parseLegacyRoute_def legacyRouteOf_def normalRoute_def simp del: Masked.simps)
qed

definition legacyPoolOf :: "IPPool \<Rightarrow> legacyIPPool" where
  "legacyPoolOf p = \<lparr> liStart = Addr_String (plStart p), liEnd = Addr_String (plEnd p) \<rparr>"

lemma legacy_pool:
  assumes "okPool p" "wfPool p"
  shows "decStruct False legacyIPPoolFields \<lparr> liStart = [], liEnd = [] \<rparr>
      (encObject [(''ipRangeEnd'', encString (Addr_String (plEnd p))), (''ipRangeStart'', encString (Addr_String (plStart p)))])
      = Inr (legacyPoolOf p)"
proof -
  have "encObject [(''ipRangeEnd'', encString (Addr_String (plEnd p))), (''ipRangeStart'', encString (Addr_String (plStart p)))]
      = JObject [(''ipRangeEnd'', encString (Addr_String (plEnd p))), (''ipRangeStart'', encString (Addr_String (plStart p)))]"
    by (rule encObject_sorted) (simp_all add: less_char_def)
  then show ?thesis
    using assms by (simp add: okPool_def wfPool_def okAddr_def Addr_String_Marshal legacyIPPoolFields_def findField_def setField_def decString_enc legacyPoolOf_def)
qed

lemma legacy_pools: "list_all wfPool ps \<Longrightarrow> parseLegacyPools (map legacyPoolOf ps) = ps"
  unfolding parseLegacyPools_def map_map comp_def
  by (subst concat_singletons [where g = "\<lambda>p. p"]) (auto simp: list_all_iff wfPool_def ParseAddr_String legacyPoolOf_def)

lemma legacy_routes: "list_all okRoute rs \<Longrightarrow> list_all wfRoute rs \<Longrightarrow> parseLegacyRoutes (map legacyRouteOf rs) = map normalRoute rs"
  unfolding parseLegacyRoutes_def map_map comp_def
  by (subst concat_singletons [where g = normalRoute]) (auto simp: list_all_iff legacy_route)

lemma legacy_tag:
  "decStruct False legacyTagFields \<lparr> ltID = 0, ltDefault = None \<rparr>
      (encObject [(''default'', case tdDefault t of None \<Rightarrow> JNull | Some v \<Rightarrow> encUint v), (''id'', encUint (tdID t))])
   = Inr \<lparr> ltID = tdID t, ltDefault = tdDefault t \<rparr>"
proof -
  have "encObject [(''default'', case tdDefault t of None \<Rightarrow> JNull | Some v \<Rightarrow> encUint v), (''id'', encUint (tdID t))]
      = JObject [(''default'', case tdDefault t of None \<Rightarrow> JNull | Some v \<Rightarrow> encUint v), (''id'', encUint (tdID t))]"
    by (rule encObject_sorted) (simp_all add: less_char_def)
  then show ?thesis
    by (simp add: legacyTagFields_def findField_def setField_def uint32.decPtr_enc uint32.dec_enc decPtr.simps(1) split: option.split)
qed

section \<open>Networks\<close>

text \<open>
  The network that writing back its own view stores: targets masked, rules rewritten, the rest kept. It is
  as valid as the network itself, and it is the network itself if its targets are masked and its rules
  come back as they were.
\<close>

definition legacyNormal :: "'s Api \<Rightarrow> Network \<Rightarrow> Network" where
  "legacyNormal api n = n\<lparr>nwRoutes := map normalRoute (nwRoutes n), nwRules := normalRules api (nwRules n),
     nwCapabilities := map (normalCapability api) (nwCapabilities n)\<rparr>"

lemma legacyNormal_wf: "wfNetwork n \<Longrightarrow> storableNetwork n \<Longrightarrow> wfNetwork (legacyNormal api n)"
  using normalRules_typed [of api "nwRules n"] normalRules_length [of api "nwRules n"]
  by (auto simp: wfNetwork_def legacyNormal_def normalCapability_def list_all_iff comp_def normalRoute_wf storableNetwork_def)

lemma legacyNormal_same:
  assumes "list_all (\<lambda>r. Masked (rtTarget r) = rtTarget r) (nwRoutes n)"
    and "list_all (legacyRuleOk api) (nwRules n @ concat (map cpRules (nwCapabilities n)))"
  shows "legacyNormal api n = n"
proof -
  have "map normalRoute (nwRoutes n) = nwRoutes n"
    by (rule map_idI) (use assms(1) in \<open>simp add: list_all_iff normalRoute_def del: Masked.simps\<close>)
  moreover have "map (normalCapability api) (nwCapabilities n) = nwCapabilities n"
  proof (rule map_idI)
    fix c assume "c \<in> set (nwCapabilities n)"
    then have "list_all (legacyRuleOk api) (cpRules c)" using assms(2) by (auto simp: list_all_iff)
    then show "normalCapability api c = c" by (simp add: normalCapability_def normalRules_same)
  qed
  ultimately show ?thesis using assms(2) by (simp add: legacyNormal_def normalRules_same)
qed

lemma legacyNetwork_object: "encObject (renderLegacyNetwork api n) = JObject (renderLegacyNetwork api n)"
proof (rule encObject_sorted)
  have k: "map fst (renderLegacyNetwork api n) = [''authTokens'', ''capabilities'', ''creationTime'', ''dns'', ''enableBroadcast'', ''id'',
      ''ipAssignmentPools'', ''lastModified'', ''mtu'', ''multicastLimit'', ''name'', ''nwid'', ''objtype'', ''private'', ''remoteTraceLevel'',
      ''remoteTraceTarget'', ''revision'', ''routes'', ''rules'', ''rulesSource'', ''ssoEnabled'', ''tags'', ''v4AssignMode'', ''v6AssignMode'']"
    by (simp add: renderLegacyNetwork_def)
  show "sorted_wrt (<) (map fst (renderLegacyNetwork api n))" unfolding k by code_simp
  show "list_all (\<lambda>(k, _). validUTF8 k) (renderLegacyNetwork api n)" by (simp add: renderLegacyNetwork_def)
qed

lemma legacy_modes:
  "decPtr decV4 \<lparr> v4ZT = False \<rparr> None (encObject [(''zt'', JBool a)]) = Inr (Some \<lparr> v4ZT = a \<rparr>)"
  "decPtr decV6 \<lparr> v6RFC4193 = False, v6ZT = False, v6SixPlane = False \<rparr> None
     (encObject [(''6plane'', JBool a), (''rfc4193'', JBool b), (''zt'', JBool c)]) = Inr (Some \<lparr> v6RFC4193 = b, v6ZT = c, v6SixPlane = a \<rparr>)"
proof -
  have "encObject [(''zt'', JBool a)] = JObject [(''zt'', JBool a)]"
    "encObject [(''6plane'', JBool a), (''rfc4193'', JBool b), (''zt'', JBool c)] = JObject [(''6plane'', JBool a), (''rfc4193'', JBool b), (''zt'', JBool c)]"
    by (rule encObject_sorted; simp add: less_char_def)+
  then show "decPtr decV4 \<lparr> v4ZT = False \<rparr> None (encObject [(''zt'', JBool a)]) = Inr (Some \<lparr> v4ZT = a \<rparr>)"
    "decPtr decV6 \<lparr> v6RFC4193 = False, v6ZT = False, v6SixPlane = False \<rparr> None
     (encObject [(''6plane'', JBool a), (''rfc4193'', JBool b), (''zt'', JBool c)]) = Inr (Some \<lparr> v6RFC4193 = b, v6ZT = c, v6SixPlane = a \<rparr>)"
    by (simp_all add: decPtr.simps v4Fields_def v6Fields_def findField_def setField_def)
qed

text \<open>Pointers to scalars.\<close>

lemma legacy_scalars:
  "decPtr decBool False None (JBool b) = Inr (Some b)"
  "validUTF8 s \<Longrightarrow> decPtr decString [] None (encString s) = Inr (Some s)"
  "validUTF8 s \<Longrightarrow> decPtr decString [] None (nullableString s) = Inr (if s = [] then None else Some s)"
  "okInt i \<Longrightarrow> decPtr decInt 0 None (encInt i) = Inr (Some i)"
  "decPtr decUint 0 None (encUint (u :: uint64)) = Inr (Some u)"
proof -
  show "okInt i \<Longrightarrow> decPtr decInt 0 None (encInt i) = Inr (Some i)"
    using decInt_enc [of i 0] by (simp add: okInt_def encInt_def decPtr.simps)
  show "decPtr decUint 0 None (encUint (u :: uint64)) = Inr (Some u)"
    using uint64.dec_enc [of u] by (simp add: encUint_def decPtr.simps)
qed (auto simp: decPtr.simps encString_def validUTF8_def nullableString_def)

lemma legacy_patch_read:
  assumes "wfNetwork n" "storableNetwork n"
  obtains patch where "decStruct False networkPatchFields emptyNetworkPatch (encObject (renderLegacyNetwork api n)) = Inr patch"
    "applyNetworkUpdate (networkUpdateForPatch n patch) n = legacyNormal api n"
proof -
  have st: "okInt (nwMTU n)" "okInt (nwMulticastLimit n)" "validUTF8 (nwName n)" "validUTF8 (nwRulesSource n)" "validUTF8 (nwRemoteTraceTarget n)"
    "list_all okPool (nwIPPools n)" "pred_option okDNS (nwDNS n)" "okTokens (nwAuthTokens n)" "list_all wfPool (nwIPPools n)"
    "list_all okRoute (nwRoutes n)" "list_all wfRoute (nwRoutes n)" "list_all okRule (nwRules n)" "list_all okCapability (nwCapabilities n)"
    using assms by (simp_all add: storableNetwork_def wfNetwork_def)
  obtain raws where rules: "decRawRules [] (renderLegacyRules api (nwRules n)) = Inr raws" "parseLegacyRules raws = normalRules api (nwRules n)"
    using legacy_rules [OF st(12)] .
  then have rules': "decPtr decRawRules [] None (renderLegacyRules api (nwRules n)) = Inr (Some raws)"
    by (simp add: renderLegacyRules_def decPtr.simps)
  obtain lcs where caps: "decPtr (decList (decStruct False legacyCapabilityFields) \<lparr> lcID = 0, lcDefault = False, lcRules = [] \<rparr>) [] None
      (JArray (map (\<lambda>capability. encObject [(''default'', JBool (cpDefault capability)), (''id'', encUint (cpID capability)),
        (''rules'', renderLegacyRules api (cpRules capability))]) (nwCapabilities n))) = Inr (Some lcs)"
      "parseLegacyCapabilities lcs = map (normalCapability api) (nwCapabilities n)"
    using legacy_capabilities [OF st(13)] .
  have dn: "decPtr (decStruct False dnsFields) zeroDNS None (case nwDNS n of None \<Rightarrow> JNull | Some d \<Rightarrow> encDNS d) = Inr (nwDNS n)"
    using st(7) dns.decPtr_enc by (auto simp: decPtr.simps(1) split: option.splits)
  have tk: "decPtr (decMap decUint 0) None None (case nwAuthTokens n of None \<Rightarrow> JNull | Some m \<Rightarrow> encMap encUint m)
      = Inr (map_option Some (nwAuthTokens n))"
    using st(8) uint64.decMap_enc by (auto simp: okTokens_def decPtr.simps encMap_def split: option.splits)
  have ro: "decPtr (decList (decStruct False legacyRouteFields) \<lparr> lrTarget = [], lrVia = None \<rparr>) [] None (JArray (map (\<lambda>route.
      encObject [(''target'', encString (Prefix_String (rtTarget route))),
        (''via'', if addrIsValid (rtVia route) then encString (Addr_String (rtVia route)) else JNull)]) (nwRoutes n)))
      = Inr (Some (map legacyRouteOf (nwRoutes n)))"
    by (rule decPtr_list) (use st(10,11) legacy_route in \<open>auto simp: list_all_iff\<close>)
  have po: "decPtr (decList (decStruct False legacyIPPoolFields) \<lparr> liStart = [], liEnd = [] \<rparr>) [] None (JArray (map (\<lambda>pool.
      encObject [(''ipRangeEnd'', encString (Addr_String (plEnd pool))), (''ipRangeStart'', encString (Addr_String (plStart pool)))]) (nwIPPools n)))
      = Inr (Some (map legacyPoolOf (nwIPPools n)))"
    by (rule decPtr_list) (use st(6,9) legacy_pool in \<open>auto simp: list_all_iff\<close>)
  have ta: "decPtr (decList (decStruct False legacyTagFields) \<lparr> ltID = 0, ltDefault = None \<rparr>) [] None (JArray (map (\<lambda>tag.
      encObject [(''default'', case tdDefault tag of None \<Rightarrow> JNull | Some v \<Rightarrow> encUint v), (''id'', encUint (tdID tag))]) (nwTags n)))
      = Inr (Some (map (\<lambda>t. \<lparr> ltID = tdID t, ltDefault = tdDefault t \<rparr>) (nwTags n)))"
    by (rule decPtr_list) (rule legacy_tag)
  define target where "target = (if nwRemoteTraceTarget n = [] then None else Some (nwRemoteTraceTarget n))"
  have tt: "decPtr decString [] None (nullableString (nwRemoteTraceTarget n)) = Inr target" using st(5) by (simp add: legacy_scalars target_def)
  define patch where "patch = \<lparr> npName = Some (nwName n), npPrivate = Some (nwPrivate n), npMTU = Some (nwMTU n),
    npMulticastLimit = Some (nwMulticastLimit n), npEnableBroadcast = Some (nwEnableBroadcast n),
    npV4AssignMode = Some \<lparr> v4ZT = amIPv4ZeroTier (nwAssignment n) \<rparr>,
    npV6AssignMode = Some \<lparr> v6RFC4193 = amIPv6RFC4193 (nwAssignment n), v6ZT = amIPv6ZeroTier (nwAssignment n), v6SixPlane = amIPv6SixPlane (nwAssignment n) \<rparr>,
    npRoutes = Some (map legacyRouteOf (nwRoutes n)), npIPAssignmentPools = Some (map legacyPoolOf (nwIPPools n)), npDNS = nwDNS n,
    npRules = Some raws, npCapabilities = Some lcs, npTags = Some (map (\<lambda>t. \<lparr> ltID = tdID t, ltDefault = tdDefault t \<rparr>) (nwTags n)),
    npAuthTokens = map_option Some (nwAuthTokens n), npRulesSource = Some (nwRulesSource n),
    npRemoteTraceTarget = target,
    npRemoteTraceLevel = Some (nwRemoteTraceLevel n), npSSOEnabled = Some (nwSSOEnabled n) \<rparr>"
  have "decStruct False networkPatchFields emptyNetworkPatch (encObject (renderLegacyNetwork api n)) = Inr patch"
    unfolding legacyNetwork_object
    using st(1-4) rules' caps(1) dn tk ro po ta tt
    by (simp add: renderLegacyNetwork_def networkPatchFields_def emptyNetworkPatch_def findField_def setField_def legacy_scalars(1,2,4,5) legacy_modes patch_def)
  moreover have tags: "map (\<lambda>x. \<lparr> tdID = tdID x, tdDefault = tdDefault x \<rparr>) ts = ts" for ts :: "TagDefinition list"
    by (rule map_idI) simp
  have "applyNetworkUpdate (networkUpdateForPatch n patch) n = legacyNormal api n"
    using tags rules(2) caps(2) legacy_routes [OF st(10,11)] legacy_pools [OF st(9)]
    by (cases n) (auto simp: legacyNormal_def applyNetworkUpdate_def networkUpdateForPatch_def patch_def target_def Let_def comp_def split: option.split)
  ultimately show thesis by (rule that)
qed

lemma canonical_path:
  assumes "canonicalHex 16 i"
  shows "legacyNetworkValue i = Inr i" "\<not> isRandomForm (asciiLower i)" "i \<noteq> []"
proof -
  have l: "length i = 16" "\<And>c. c \<in> set i \<Longrightarrow> lowerhex c" using assms by (auto simp: canonicalHex_def list_all_iff)
  have low: "asciiLower i = i"
    unfolding asciiLower_def
  proof (rule map_idI)
    fix c assume "c \<in> set i"
    then have "lowerhex c" by (rule l)
    then show "(let n = of_char c :: nat in if 65 \<le> n \<and> n \<le> 90 then char_of (n + 32) else c) = c"
      by (auto simp: lowerhex_def Let_def)
  qed
  have nr: "\<not> isRandomForm i"
  proof
    assume "isRandomForm i"
    then have "CHR ''_'' \<in> set (drop 10 i)" by (simp add: isRandomForm_def)
    then have "lowerhex CHR ''_''" using l(2) by (meson in_set_dropD)
    then show False by (simp add: lowerhex_def)
  qed
  show "legacyNetworkValue i = Inr i" using assms nr by (simp add: legacyNetworkValue_def low ParseNetworkID_iff)
  show "\<not> isRandomForm (asciiLower i)" using nr low by simp
  show "i \<noteq> []" using l(1) by auto
qed

lemma mem_network_stored: "memGetNetwork None i s = Inr n \<Longrightarrow> fmlookup (msNetworks s) i = Some n \<and> asNetworks (memAbs s) i = Some n"
  by (auto simp: memGetNetwork_def memAbs_def split: option.splits)

text \<open>An update to a valid network advances the revision and the time.\<close>

lemma mem_update_to:
  assumes "svStore sv = memoryStore" "memInv (wStore w)" "memGetNetwork None i (wStore w) = Inr n" "validateOwnedNetwork sv i = Inr ()"
    and "nwCreatedAt n \<le> svNow sv (wClock w)" "svNow sv (wClock w) \<noteq> 0" "wfNetwork (applyNetworkUpdate u n)"
  obtains w' where "UpdateNetwork sv None i u (nwRevision n) w
      = (Inr ((applyNetworkUpdate u n)\<lparr>nwUpdatedAt := svNow sv (wClock w), nwRevision := nwRevision n + 1\<rparr>), w')"
    "memGetNetwork None i (wStore w') = Inr ((applyNetworkUpdate u n)\<lparr>nwUpdatedAt := svNow sv (wClock w), nwRevision := nwRevision n + 1\<rparr>)"
proof -
  let ?n = "(applyNetworkUpdate u n)\<lparr>nwUpdatedAt := svNow sv (wClock w)\<rparr>"
  have a: "asNetworks (memAbs (wStore w)) i = Some n" using mem_network_stored [OF assms(3)] by simp
  have keeps: "nwID (applyNetworkUpdate u n) = nwID n" "nwRevision (applyNetworkUpdate u n) = nwRevision n"
      "nwCreatedAt (applyNetworkUpdate u n) = nwCreatedAt n" by (simp_all add: applyNetworkUpdate_def)
  have "nwID n = i" using wfAStoreD(1) [OF memInv_wf [OF assms(2)] a] by simp
  moreover have "Network_Validate ?n = Inr ()" using assms(5-7) keeps by (simp add: Network_Validate_iff wfNetwork_def)
  moreover have "fmlookup (msNetworks (wStore w)) i = Some n" using mem_network_stored [OF assms(3)] by simp
  ultimately show thesis
    using that assms(1,3,4) keeps
    by (simp add: UpdateNetwork_def Let_def run_simps UTC_def memoryStore_def memSaveNetwork_def memGetNetwork_def)
qed

text \<open>
  C20. Reading a network through the legacy API and writing back what was read, over the in-memory store
  with a live context, for every stored network of this controller whose texts are UTF-8 and whose numbers fit an \<^verbatim>\<open>int\<close>, and a
  clock that reads a time not before its creation: the object a GET returns is accepted by a PUT of the
  same path, and the network stored afterwards is \<open>legacyNormal\<close> of the one stored before, with the time
  of the change and the next revision. That is the same network but for the three things the view does
  not carry: the bits of a route target below its prefix length are cleared, numbers in rule parameters
  go through \<^verbatim>\<open>float64\<close> (a parameter out of its range is dropped), and a rule parameter named \<^verbatim>\<open>type\<close>, \<^verbatim>\<open>not\<close> or \<^verbatim>\<open>or\<close>, or a rule without a type
  inside a capability, is not kept. If none of them applies, nothing but time and revision changes.
\<close>

theorem legacy_write_back:
  assumes "svStore (apService api) = memoryStore" "memInv (wStore w)" "memGetNetwork None i (wStore w) = Inr n"
    and "validateOwnedNetwork (apService api) i = Inr ()" "storableNetwork n"
    and "nwCreatedAt n \<le> svNow (apService api) (wClock w)" "svNow (apService api) (wClock w) \<noteq> 0"
    and "hqPath rq = [''controller'', ''network'', i]" "hqContext rq = None" "\<not> hqTrailing rq"
  shows "\<exists>j r w'. ServeHTTP api (rq\<lparr>hqMethod := ''GET''\<rparr>) w = (writeJSON 200 (Inr j), w)
    \<and> ServeHTTP api (rq\<lparr>hqMethod := ''PUT'', hqBody := Some j\<rparr>) w = (r, w') \<and> hrStatus r = 200
    \<and> memGetNetwork None i (wStore w')
        = Inr ((legacyNormal api n)\<lparr>nwUpdatedAt := svNow (apService api) (wClock w), nwRevision := nwRevision n + 1\<rparr>)
    \<and> (list_all (\<lambda>r. Masked (rtTarget r) = rtTarget r) (nwRoutes n)
        \<and> list_all (legacyRuleOk api) (nwRules n @ concat (map cpRules (nwCapabilities n))) \<longrightarrow> legacyNormal api n = n)"
proof -
  let ?j = "encObject (renderLegacyNetwork api n)" and ?put = "\<lambda>j. rq\<lparr>hqMethod := ''PUT'', hqBody := Some j\<rparr>"
  let ?n = "(legacyNormal api n)\<lparr>nwUpdatedAt := svNow (apService api) (wClock w), nwRevision := nwRevision n + 1\<rparr>"
  have a: "asNetworks (memAbs (wStore w)) i = Some n" using mem_network_stored [OF assms(3)] by simp
  have id: "nwID n = i" "canonicalHex 16 i" "wfNetwork n" using wfAStoreD(1) [OF memInv_wf [OF assms(2)] a] by (auto simp: wfNetwork_def)
  note path = canonical_path [OF id(2)]
  have get: "svcGetNetwork (apService api) None i w = (Inr n, w)" using assms(1,3,4) by (simp add: svcGetNetwork_def run_simps memoryStore_def)
  have g: "ServeHTTP api (rq\<lparr>hqMethod := ''GET''\<rparr>) w = (writeJSON 200 (Inr ?j), w)"
    using assms(8,9) path get
    by (simp add: ServeHTTP_def nativeRoutes_def legacyRoutes_def Let_def methodMatches_def legacyGetNetwork_def networkFromPath_def
        legacyNetworkID_def parsePath_def serveCall_def writeNetwork_def respond_def)
  obtain patch where patch: "decStruct False networkPatchFields emptyNetworkPatch ?j = Inr patch"
      "applyNetworkUpdate (networkUpdateForPatch n patch) n = legacyNormal api n"
    using legacy_patch_read [OF id(3) assms(5)] .
  obtain w' where u: "UpdateNetwork (apService api) None i (networkUpdateForPatch n patch) (nwRevision n) w = (Inr ?n, w')"
      "memGetNetwork None i (wStore w') = Inr ?n"
    using mem_update_to [OF assms(1-4,6,7), of "networkUpdateForPatch n patch"] legacyNormal_wf [OF id(3) assms(5)] unfolding patch(2) by blast
  have "ServeHTTP api (?put ?j) = putNetwork api [i] (?put ?j)"
    using assms(8) path(3) by (simp add: ServeHTTP_def nativeRoutes_def legacyRoutes_def Let_def methodMatches_def)
  then have "ServeHTTP api (?put ?j) w = writeNetwork api ?n w'"
    using assms(9,10) path get patch(1) u(1) id(1)
    by (simp add: putNetwork_def legacyNetworkID_def parsePath_def decodeLegacyJSON_def serveCatch_def serveCall_def applyNetworkPatch_def
        del: decStruct.simps)
  then have "ServeHTTP api (?put ?j) w = (fst (ServeHTTP api (?put ?j) w), w') \<and> hrStatus (fst (ServeHTTP api (?put ?j) w)) = 200"
    using success_status(2) [of api] by (simp add: writeNetwork_def respond_def)
  with g u(2) legacyNormal_same [of n api] show ?thesis by blast
qed

definition exLegacyRead :: HttpRequest where
  "exLegacyRead = exGrant\<lparr>hqPath := [''controller'', ''network'', exNetworkID]\<rparr>"

text \<open>A network with a route whose target is not masked.\<close>

definition exRoutedNetwork :: Network where
  "exRoutedNetwork = exNetwork\<lparr>nwRevision := 1,
     nwRoutes := [\<lparr> rtTarget = \<lparr> pfAddr = Addr4 0x0a000007, pfBits = 24 \<rparr>, rtVia = NoAddr \<rparr>]\<rparr>"

definition exRoutedWorld :: "MemStore World" where
  "exRoutedWorld = exWorld\<lparr>wStore := \<lparr> msNetworks = fmupd exNetworkID exRoutedNetwork fmempty, msMembers = fmempty, msMetadata = fmempty \<rparr>\<rparr>"

lemma exRouted: "wfNetwork exRoutedNetwork" "storableNetwork exRoutedNetwork" "nwID exRoutedNetwork = exNetworkID"
proof -
  show "wfNetwork exRoutedNetwork"
    using ex_wf(1) by (simp add: exRoutedNetwork_def wfNetwork_def wfRoute_def prefixIsValid_def)
  have "Prefix_String \<lparr> pfAddr = Addr4 0x0a000007, pfBits = 24 \<rparr> = ''10.0.0.7/24''" "Addr_MarshalText NoAddr = []" by code_simp+
  then show "storableNetwork exRoutedNetwork"
    by (simp add: exRoutedNetwork_def storableNetwork_def exNetwork_def NewNetwork_def okInt_def okTokens_def okRule_def okRoute_def okPrefix_def
        okAddr_def addrZone_def CurrentSchemaVersion_def DefaultMTU_def DefaultMulticastLimit_def exNetworkID_def)
qed (simp add: exRoutedNetwork_def)

theorem legacy_write_back_witness:
  "\<exists>j r w' n. ServeHTTP exApi (exLegacyRead\<lparr>hqMethod := ''GET''\<rparr>) exRoutedWorld = (writeJSON 200 (Inr j), exRoutedWorld)
    \<and> ServeHTTP exApi (exLegacyRead\<lparr>hqMethod := ''PUT'', hqBody := Some j\<rparr>) exRoutedWorld = (r, w') \<and> hrStatus r = 200
    \<and> memGetNetwork None exNetworkID (wStore w') = Inr n \<and> nwRevision n = 2
    \<and> nwRoutes n = [\<lparr> rtTarget = \<lparr> pfAddr = Addr4 0x0a000000, pfBits = 24 \<rparr>, rtVia = NoAddr \<rparr>]"
proof -
  have g: "memGetNetwork None exNetworkID (wStore exRoutedWorld) = Inr exRoutedNetwork"
    by (simp add: memGetNetwork_def exRoutedWorld_def)
  have inv: "memInv (wStore exRoutedWorld)" using exRouted by (auto simp: memInv_def wfAStore_def exRoutedWorld_def lookup2_def)
  have c: "nwCreatedAt exRoutedNetwork \<le> 1000" by (simp add: exRoutedNetwork_def exNetwork_def NewNetwork_def)
  have r: "nwRoutes (legacyNormal exApi exRoutedNetwork) = [\<lparr> rtTarget = \<lparr> pfAddr = Addr4 0x0a000000, pfBits = 24 \<rparr>, rtVia = NoAddr \<rparr>]"
    by (simp add: legacyNormal_def exRoutedNetwork_def normalRoute_def prefixIsValid_def)
  have "nwRevision exRoutedNetwork = 1" "wClock exRoutedWorld = 0" by (simp_all add: exRoutedNetwork_def exRoutedWorld_def exWorld_def)
  then show ?thesis
    using legacy_write_back [OF _ inv g, of exApi exLegacyRead] ex_owned exRouted(2) c r
    by (fastforce simp: exApi_def exService_simps exLegacyRead_def exGrant_def)
qed

end
