(* ===== verification/IdentityFile.thy ===== *)
theory IdentityFile
  imports Identity TextSpace
begin

unbundle bit_operations_syntax

text \<open>
  \<^verbatim>\<open>internal/zerotier/identity/file.go\<close>: the file that holds the controller's secret. The file system is a
  map from names to files; every call of it can fail, and other processes can act between two calls.
  The lemmas show what is accepted as an identity file, that creation installs a complete file or
  nothing and never replaces one, and that what was installed loads.
\<close>

section \<open>Files\<close>

datatype fileKind = RegularFile | SymbolicLink string | OtherFile

record File =
  fiNode :: nat
  fiKind :: fileKind
  fiMode :: uint32
  fiContent :: string

type_synonym Files = "string \<rightharpoonup> File"

text \<open>The calls that can fail: a fault is the error such a call returns besides those of the file system itself.\<close>

datatype fileCall = OsLstat | OsOpen | OsStat | IoReadAll | OsMkdirAll | OsCreateTemp | OsChmod | OsWriteString | OsSync | OsClose | OsLink | OsRemove

type_synonym faults = "fileCall \<Rightarrow> error option"

definition osErrNotExist :: error where "osErrNotExist = Errorf ''file does not exist''"
definition osErrExist :: error where "osErrExist = Errorf ''file already exists''"

definition attempt :: "error option \<Rightarrow> 'a result \<Rightarrow> 'a result" where
  "attempt fault r = (case fault of Some e \<Rightarrow> Inl e | None \<Rightarrow> r)"

text \<open>Opening follows symbolic links, at most 40 of them.\<close>

fun openFollowing :: "nat \<Rightarrow> Files \<Rightarrow> string \<Rightarrow> File result" where
  "openFollowing 0 files path = Inl (Errorf ''too many levels of symbolic links'')"
| "openFollowing (Suc n) files path = (case files path of
     None \<Rightarrow> Inl osErrNotExist
   | Some f \<Rightarrow> (case fiKind f of SymbolicLink target \<Rightarrow> openFollowing n files target | _ \<Rightarrow> Inr f))"

definition lstat :: "Files \<Rightarrow> string \<Rightarrow> File result" where
  "lstat files path = (case files path of None \<Rightarrow> Inl osErrNotExist | Some f \<Rightarrow> Inr f)"

section \<open>\<^verbatim>\<open>Load\<close>\<close>

text \<open>What is accepted of an opened file.\<close>

definition loadOpened :: "Crypto \<Rightarrow> faults \<Rightarrow> File \<Rightarrow> File \<Rightarrow> Identity result" where
  "loadOpened cr faults info opened =
     (if fiNode info \<noteq> fiNode opened then Inl (Errorf ''identity path changed while opening'')
      else if fiKind opened \<noteq> RegularFile then Inl (Errorf ''identity path must be a regular file'')
      else if fiMode opened AND 0x3f \<noteq> 0
      then Inl (Errorf ''identity file permissions %04o expose secret material; require 0600 or stricter'')
      else
        rbind (attempt (faults IoReadAll) (Inr (fiContent opened))) (\<lambda>value.
        rbind (wrapErr ''parse identity: %w'' (Parse (TrimSpace value))) (\<lambda>loaded.
        if \<not> idHasPrivate loaded then Inl (Errorf ''identity file contains no private key'')
        else if \<not> LocallyValidate cr loaded then Inl (Errorf ''identity proof of work or address is invalid'')
        else Inr loaded)))"

text \<open>\<open>other\<close> is what other processes do between the two looks at the path.\<close>

definition Load :: "Crypto \<Rightarrow> faults \<Rightarrow> (Files \<Rightarrow> Files) \<Rightarrow> string \<Rightarrow> Files \<Rightarrow> Identity result" where
  "Load cr faults other path files =
     rbind (attempt (faults OsLstat) (lstat files path)) (\<lambda>info.
     rbind (attempt (faults OsOpen) (openFollowing 40 (other files) path)) (\<lambda>opened.
     rbind (attempt (faults OsStat) (Inr ())) (\<lambda>_. loadOpened cr faults info opened)))"

section \<open>\<^verbatim>\<open>LoadOrCreate\<close>\<close>

text \<open>
  What the operating system and the other processes contribute to a run. \<open>fsFaults k\<close> are the failures of
  the calls of phase \<open>k\<close> (the first \<^verbatim>\<open>Load\<close>, the creation, the second \<^verbatim>\<open>Load\<close>), and \<open>fsOther k\<close> is what other
  processes do in it, for the creation just before the link. \<^verbatim>\<open>os.CreateTemp\<close> chooses the name
  \<open>fsTemporary\<close>, the file \<open>fsNode\<close> and the permissions \<open>fsMode\<close>; a \<^verbatim>\<open>WriteString\<close> that fails has written
  \<open>fsWritten\<close> characters.
\<close>

record FileSystem =
  fsFaults :: "nat \<Rightarrow> faults"
  fsOther :: "nat \<Rightarrow> Files \<Rightarrow> Files"
  fsTemporary :: string
  fsNode :: nat
  fsMode :: uint32
  fsWritten :: nat

text \<open>The calls on the open temporary file, found under its name, and the deferred removal, whose error is ignored.\<close>

definition createTemp :: "FileSystem \<Rightarrow> Files \<Rightarrow> Files" where
  "createTemp fs files = files(fsTemporary fs \<mapsto> \<lparr> fiNode = fsNode fs, fiKind = RegularFile, fiMode = fsMode fs, fiContent = [] \<rparr>)"

definition chmodFile :: "string \<Rightarrow> uint32 \<Rightarrow> Files \<Rightarrow> Files" where
  "chmodFile name mode files = files(name := map_option (\<lambda>f. f\<lparr>fiMode := mode\<rparr>) (files name))"

definition appendFile :: "string \<Rightarrow> string \<Rightarrow> Files \<Rightarrow> Files" where
  "appendFile name text files = files(name := map_option (\<lambda>f. f\<lparr>fiContent := fiContent f @ text\<rparr>) (files name))"

definition removeFile :: "faults \<Rightarrow> string \<Rightarrow> Files \<Rightarrow> Files" where
  "removeFile faults name files = (case faults OsRemove of Some _ \<Rightarrow> files | None \<Rightarrow> files(name := None))"

definition linkFile :: "faults \<Rightarrow> string \<Rightarrow> string \<Rightarrow> Files \<Rightarrow> Files result" where
  "linkFile faults source path files = attempt (faults OsLink)
     (case files source of None \<Rightarrow> Inl osErrNotExist | Some f \<Rightarrow>
        if files path \<noteq> None then Inl osErrExist else Inr (files(path \<mapsto> f)))"

text \<open>From \<^verbatim>\<open>Chmod\<close> to \<^verbatim>\<open>Close\<close>: the result and the files at that point.\<close>

definition prepareTemporary :: "FileSystem \<Rightarrow> string \<Rightarrow> Files \<Rightarrow> unit result \<times> Files" where
  "prepareTemporary fs secret files =
    (let name = fsTemporary fs; faults = fsFaults fs 1 in
     case faults OsChmod of Some e \<Rightarrow> (Inl e, files) | None \<Rightarrow>
     let files = chmodFile name 0x180 files in
     case faults OsWriteString of Some e \<Rightarrow> (Inl e, appendFile name (take (fsWritten fs) secret) files) | None \<Rightarrow>
     let files = appendFile name secret files in
     case faults OsSync of Some e \<Rightarrow> (Inl e, files) | None \<Rightarrow>
     case faults OsClose of Some e \<Rightarrow> (Inl e, files) | None \<Rightarrow> (Inr (), files))"

text \<open>What runs under the deferred removal.\<close>

definition installIdentity :: "Crypto \<Rightarrow> FileSystem \<Rightarrow> string \<Rightarrow> Identity \<Rightarrow> string \<Rightarrow> Files \<Rightarrow> (Identity \<times> bool) result \<times> Files" where
  "installIdentity cr fs path generated secret files =
    (case prepareTemporary fs secret files of
       (Inl e, files) \<Rightarrow> (Inl e, files)
     | (Inr _, files) \<Rightarrow>
         let files = fsOther fs 1 files in
         case linkFile (fsFaults fs 1) (fsTemporary fs) path files of
           Inr linked \<Rightarrow> (Inr (generated, True), linked)
         | Inl e \<Rightarrow>
             if errorsIs e osErrExist
             then (rbind (Load cr (fsFaults fs 2) (fsOther fs 2) path files) (\<lambda>winner. Inr (winner, False)), fsOther fs 2 files)
             else (Inl (Wrap ''install identity: %w'' e), files))"

definition loadOrCreate ::
    "Crypto \<Rightarrow> (nat \<Rightarrow> error option) \<Rightarrow> bytes result \<Rightarrow> FileSystem \<Rightarrow> string \<Rightarrow> Files \<Rightarrow> ((Identity \<times> bool) result \<times> Files) option" where
  "loadOrCreate cr ctx random fs path files0 =
    (let files = fsOther fs 0 files0 in
     case Load cr (fsFaults fs 0) (fsOther fs 0) path files0 of
       Inr loaded \<Rightarrow> Some (Inr (loaded, False), files)
     | Inl e \<Rightarrow>
         if \<not> errorsIs e osErrNotExist then Some (Inl e, files)
         else (case Generate cr ctx random of
             None \<Rightarrow> None
           | Some (Inl e) \<Rightarrow> Some (Inl (Wrap ''generate identity: %w'' e), files)
           | Some (Inr generated) \<Rightarrow> (case SecretString generated of
               Inl e \<Rightarrow> Some (Inl e, files)
             | Inr secret \<Rightarrow> (case fsFaults fs 1 OsMkdirAll of
                 Some e \<Rightarrow> Some (Inl (Wrap ''create identity directory: %w'' e), files)
               | None \<Rightarrow> (case fsFaults fs 1 OsCreateTemp of
                   Some e \<Rightarrow> Some (Inl (Wrap ''create temporary identity: %w'' e), files)
                 | None \<Rightarrow> (case installIdentity cr fs path generated secret (createTemp fs files) of
                     (r, files) \<Rightarrow> Some (r, removeFile (fsFaults fs 1) (fsTemporary fs) files)))))))"

section \<open>What is accepted\<close>

lemma loadOpened_Inr:
  assumes "loadOpened cr faults info opened = Inr i"
  shows "fiKind opened = RegularFile \<and> fiMode opened AND 0x3f = 0 \<and> Parse (TrimSpace (fiContent opened)) = Inr i
    \<and> idHasPrivate i \<and> LocallyValidate cr i"
  using assms
  by (auto simp: loadOpened_def rbind_eq_Inr attempt_def wrapErr_def split: if_splits option.splits sum.splits)

lemma Load_Inr:
  assumes "Load cr faults other path files = Inr i"
  obtains f where "files path \<noteq> None" "openFollowing 40 (other files) path = Inr f" "fiKind f = RegularFile" "fiMode f AND 0x3f = 0"
    "Parse (TrimSpace (fiContent f)) = Inr i" "idHasPrivate i" "LocallyValidate cr i"
proof -
  obtain info f where f: "lstat files path = Inr info" "openFollowing 40 (other files) path = Inr f" "loadOpened cr faults info f = Inr i"
    using assms by (auto simp: Load_def rbind_eq_Inr attempt_def split: option.splits)
  then have "files path \<noteq> None" by (auto simp: lstat_def split: option.splits)
  with f(2) loadOpened_Inr [OF f(3)] show thesis by (intro that) auto
qed

text \<open>What \<^verbatim>\<open>Generate\<close> returns is valid.\<close>

lemma generateLoop_sound:
  assumes "searching cr i" "generateLoop cr ctx n i = Some (Inr j)"
  shows "wfIdentity j \<and> keyPair cr j \<and> LocallyValidate cr j"
proof -
  have "searching cr i \<longrightarrow> (case r of Inr j \<Rightarrow> wfIdentity j \<and> keyPair cr j \<and> LocallyValidate cr j | Inl _ \<Rightarrow> True)"
    if "generateLoop cr ctx n i = Some r" for r
  proof (rule generateLoop.raw_induct [where P = "\<lambda>cr _ _ i r. searching cr i \<longrightarrow> (case r of Inr j \<Rightarrow> wfIdentity j \<and> keyPair cr j \<and> LocallyValidate cr j | Inl _ \<Rightarrow> True)", OF _ that])
    fix loop :: "Crypto \<Rightarrow> (nat \<Rightarrow> error option) \<Rightarrow> nat \<Rightarrow> Identity \<Rightarrow> Identity result option" and cr ctx n i r
    assume IH: "\<And>cr ctx n i r. loop cr ctx n i = Some r \<Longrightarrow> searching cr i \<longrightarrow> (case r of Inr j \<Rightarrow> wfIdentity j \<and> keyPair cr j \<and> LocallyValidate cr j | Inl _ \<Rightarrow> True)"
      and run: "(case ctx n of Some e \<Rightarrow> Some (Inl e) | None \<Rightarrow>
        let candidate = incrementCandidate (take 32 (idPrivateKey i));
            i = i\<lparr>idPrivateKey := candidate @ drop 32 (idPrivateKey i),
                  idPublicKey := xPublic cr candidate @ drop 32 (idPublicKey i)\<rparr>;
            digest = memoryHardHash cr (idPublicKey i) in
        if digest ! 0 \<ge> proofThreshold then loop cr ctx (Suc n) i
        else
          let address = hex_encode (drop 59 digest) in
          if isReserved address then loop cr ctx (Suc n) i
          else Some (Inr (i\<lparr>idAddress := address\<rparr>))) = Some r"
    have "(case ctx n of Some e \<Rightarrow> Some (Inl e) | None \<Rightarrow>
        if acceptable cr (nextCandidate cr i) then Some (Inr (withAddress cr (nextCandidate cr i)))
        else loop cr ctx (Suc n) (nextCandidate cr i)) = Some r"
      using run by (auto simp: acceptable_def nextCandidate_def withAddress_def Let_def not_less split: option.splits if_splits)
    then show "searching cr i \<longrightarrow> (case r of Inr j \<Rightarrow> wfIdentity j \<and> keyPair cr j \<and> LocallyValidate cr j | Inl _ \<Rightarrow> True)"
      using IH [of cr ctx "Suc n" "nextCandidate cr i" r] withAddress_valid [OF nextCandidate_keyPair]
        keyPair_searching [OF nextCandidate_keyPair, of cr i]
      by (auto split: option.splits if_splits)
  qed
  then show ?thesis using assms by fastforce
qed

lemma Generate_sound:
  assumes "Generate cr ctx random = Some (Inr i)" "\<And>key. random = Inr key \<Longrightarrow> length key = 64"
  shows "wfIdentity i" "idHasPrivate i" "LocallyValidate cr i"
proof -
  obtain key where p: "random = Inr key" "length key = 64" using assms by (cases random) (auto simp: Generate_def)
  have "searching cr (searchStart cr key)" using p(2) by (simp add: searching_def searchStart_def zeroIdentity_def)
  moreover have "generateLoop cr ctx 0 (searchStart cr key) = Some (Inr i)" using assms(1) p(1) by (simp add: Generate_def searchStart_def)
  ultimately show "wfIdentity i" "idHasPrivate i" "LocallyValidate cr i"
    using generateLoop_sound [of cr "searchStart cr key" ctx 0 i] by (simp_all add: keyPair_def)
qed

text \<open>The text of a secret identity has no white space to trim.\<close>

lemma secret_text:
  assumes "wfIdentity i" "SecretString i = Inr s"
  shows "Parse (TrimSpace s) = Inr i"
proof -
  have s: "s = textForm i" "idHasPrivate i" using assms(2) by (auto simp: SecretString_def textForm_def split: if_splits)
  have l: "idAddress i \<noteq> []" "list_all lowerhex (idAddress i)" "idPrivateKey i \<noteq> []"
    using assms(1) by (auto simp: wfIdentity_def canonicalHex_def identity_consts)
  have pr: "printable c" if "lowerhex c" for c using that by (auto simp: printable_def lowerhex_def Let_def)
  have "s = Identity_String i @ '':'' @ hex_encode (idPrivateKey i)" using assms(2) s(2) by (simp add: SecretString_def)
  moreover have "Identity_String i \<noteq> []" "hd (Identity_String i) = hd (idAddress i)" using l(1) by (simp_all add: Identity_String_def)
  moreover have "hex_encode (idPrivateKey i) \<noteq> []" "list_all lowerhex (hex_encode (idPrivateKey i))"
    using l(3) lowerhex_hex_encode length_hex_encode [of "idPrivateKey i"] by (auto simp: list_all_iff simp del: length_hex_encode)
  ultimately have "printable (hd s)" "printable (last s)" "s \<noteq> []"
    using l pr by (auto simp: list_all_iff)
  then have "TrimSpace s = s" by (intro TrimSpace_printable)
  then show ?thesis using s(1) Parse_textForm [OF assms(1)] by simp
qed

text \<open>
  A final line break, which editors add, is accepted by \<^verbatim>\<open>Load\<close> but not by \<^verbatim>\<open>Parse\<close> alone, which is how the
  backup command reads the same file.
\<close>

lemma textForm_last: "wfIdentity i \<Longrightarrow> textForm i \<noteq> [] \<and> lowerhex (last (textForm i))"
proof -
  assume wf: "wfIdentity i"
  have h: "hex_encode b \<noteq> [] \<and> lowerhex (last (hex_encode b))" if "length b = 64" for b
    using that lowerhex_hex_encode [of "last (hex_encode b)" b] length_hex_encode [of b] by (metis last_in_set length_0_conv mult_eq_0_iff zero_neq_numeral)
  have "length (idPublicKey i) = 64" "length (idPrivateKey i) = 64" using wf by (simp_all add: wfIdentity_def identity_consts)
  then show ?thesis using h [of "idPublicKey i"] h [of "idPrivateKey i"] by (auto simp: textForm_def Identity_String_def)
qed

lemma final_line_break:
  assumes "wfIdentity i" "SecretString i = Inr s"
  shows "Parse (TrimSpace (s @ [CHR 0x0a])) = Inr i" "\<not> isOk (Parse (s @ [CHR 0x0a]))"
proof -
  have t: "s = textForm i" using assms(2) by (auto simp: SecretString_def textForm_def split: if_splits)
  have l: "idAddress i \<noteq> []" "list_all lowerhex (idAddress i)" using assms(1) by (auto simp: wfIdentity_def canonicalHex_def)
  have pr: "printable c" if "lowerhex c" for c using that by (auto simp: printable_def lowerhex_def Let_def)
  have hd: "s \<noteq> []" "printable (hd s)" "printable (last s)"
    using t l textForm_last [OF assms(1)] pr by (auto simp: textForm_def Identity_String_def list_all_iff)
  have "dropSpaces unicodeSpaces (s @ [CHR 0x0a]) = s @ [CHR 0x0a]"
    by (rule dropSpaces_none) (use hd hd_of_take spaces_unprintable in \<open>metis hd_append2\<close>)
  moreover have "dropSpaces (map rev unicodeSpaces) (CHR 0x0a # rev s) = dropSpaces (map rev unicodeSpaces) (rev s)"
    by (subst dropSpaces.simps) (simp add: unicodeSpaces_def)
  ultimately have "TrimSpace (s @ [CHR 0x0a]) = TrimSpace s"
    using TrimSpace_printable [OF hd] dropSpaces_none [of unicodeSpaces s] by (simp add: TrimSpace_def) (metis hd hd_of_take spaces_unprintable)
  then show "Parse (TrimSpace (s @ [CHR 0x0a])) = Inr i" using secret_text [OF assms] by simp
  show "\<not> isOk (Parse (s @ [CHR 0x0a]))"
  proof
    assume "isOk (Parse (s @ [CHR 0x0a]))"
    then obtain j where "Parse (s @ [CHR 0x0a]) = Inr j" by (auto simp: isOk_iff)
    then have "wfIdentity j" "textForm j = s @ [CHR 0x0a]" using Parse_Inr by auto
    then show False using textForm_last [of j] by (simp add: lowerhex_def)
  qed
qed

section \<open>Creation\<close>

text \<open>The other processes neither see nor touch the temporary name.\<close>

definition sparesTemporary :: "string \<Rightarrow> (nat \<Rightarrow> Files \<Rightarrow> Files) \<Rightarrow> bool" where
  "sparesTemporary temporary other = (\<forall>k files x. other k (files(temporary := x)) = (other k files)(temporary := x))"

lemma spares_fresh:
  assumes "sparesTemporary temporary other" "files temporary = None"
  shows "other k files temporary = None"
proof -
  have "files(temporary := None) = files" using assms(2) by auto
  then have "other k files = (other k files)(temporary := None)" using assms(1) unfolding sparesTemporary_def by metis
  then show ?thesis by (metis fun_upd_same)
qed

lemma Load_installed:
  assumes "wfIdentity i" "idHasPrivate i" "LocallyValidate cr i" "SecretString i = Inr s"
    and "files path = Some \<lparr> fiNode = node, fiKind = RegularFile, fiMode = 0x180, fiContent = s \<rparr>"
  shows "Load cr (\<lambda>_. None) (\<lambda>files. files) path files = Inr i"
proof -
  have "openFollowing 40 files path = Inr \<lparr> fiNode = node, fiKind = RegularFile, fiMode = 0x180, fiContent = s \<rparr>"
    using assms(5) openFollowing.simps(2) [of 39] by simp
  then show ?thesis
    using assms(2,3,5) secret_text [OF assms(1,4)]
    by (simp add: Load_def lstat_def attempt_def rbind_def loadOpened_def wrapErr_def del: openFollowing.simps)
qed

text \<open>
  What the calls of \<^verbatim>\<open>prepareTemporary\<close> leave under the temporary name: the whole secret with mode 0600 if
  all succeed; otherwise a part of it, which is empty unless the mode is 0600.
\<close>

lemma prepareTemporary_effect:
  assumes "prepareTemporary fs secret (createTemp fs files) = (r, files')"
  obtains f where "files' = files(fsTemporary fs \<mapsto> f)" "fiNode f = fsNode fs" "fiMode f = 0x180 \<or> fiContent f = []"
    "isOk r \<Longrightarrow> f = \<lparr> fiNode = fsNode fs, fiKind = RegularFile, fiMode = 0x180, fiContent = secret \<rparr>"
proof -
  define f where "f = the (files' (fsTemporary fs))"
  have "files' = files(fsTemporary fs \<mapsto> f) \<and> fiNode f = fsNode fs \<and> (fiMode f = 0x180 \<or> fiContent f = [])
    \<and> (isOk r \<longrightarrow> f = \<lparr> fiNode = fsNode fs, fiKind = RegularFile, fiMode = 0x180, fiContent = secret \<rparr>)"
    using assms unfolding f_def
    by (auto simp: prepareTemporary_def createTemp_def chmodFile_def appendFile_def Let_def split: option.splits)
  then show thesis using that by blast
qed

lemma installIdentity_effect:
  assumes "installIdentity cr fs path i secret (createTemp fs files) = (r, files')"
    and "sparesTemporary (fsTemporary fs) (fsOther fs)" "path \<noteq> fsTemporary fs"
  defines "before \<equiv> fsOther fs 1 files"
  obtains f where "fiMode f = 0x180 \<or> fiContent f = []" "fiNode f = fsNode fs"
    "case r of
       Inr (j, True) \<Rightarrow> j = i \<and> before path = None
         \<and> files' = before(path \<mapsto> \<lparr> fiNode = fsNode fs, fiKind = RegularFile, fiMode = 0x180, fiContent = secret \<rparr>, fsTemporary fs \<mapsto> f)
     | Inr (j, False) \<Rightarrow> files' = (fsOther fs 2 before)(fsTemporary fs \<mapsto> f) \<and> idHasPrivate j \<and> LocallyValidate cr j
     | Inl _ \<Rightarrow> (\<exists>files0 \<in> {files, before, fsOther fs 2 before}. files' = files0(fsTemporary fs \<mapsto> f))"
proof -
  let ?t = "fsTemporary fs"
  obtain r1 files1 where p: "prepareTemporary fs secret (createTemp fs files) = (r1, files1)" by force
  obtain f where f: "files1 = files(?t \<mapsto> f)" "fiNode f = fsNode fs" "fiMode f = 0x180 \<or> fiContent f = []"
    "isOk r1 \<Longrightarrow> f = \<lparr> fiNode = fsNode fs, fiKind = RegularFile, fiMode = 0x180, fiContent = secret \<rparr>"
    using prepareTemporary_effect [OF p] by blast
  have others: "fsOther fs k (x(?t \<mapsto> f)) = (fsOther fs k x)(?t \<mapsto> f)" for k x using assms(2) by (simp add: sparesTemporary_def)
  have loaded: "idHasPrivate j \<and> LocallyValidate cr j" if "Load cr fl o' path x = Inr j" for fl o' x j
    using that by (rule Load_Inr) simp
  show thesis
  proof (cases r1)
    case (Inl e)
    then show thesis using assms(1) p f by (intro that [OF f(3,2)]) (auto simp: installIdentity_def)
  next
    case (Inr u)
    have F: "f = \<lparr> fiNode = fsNode fs, fiKind = RegularFile, fiMode = 0x180, fiContent = secret \<rparr>" using f(4) Inr by simp
    let ?files = "before(?t \<mapsto> f)"
    have run: "(case linkFile (fsFaults fs 1) ?t path ?files of
        Inr linked \<Rightarrow> (Inr (i, True), linked)
      | Inl e \<Rightarrow> if errorsIs e osErrExist
          then (rbind (Load cr (fsFaults fs 2) (fsOther fs 2) path ?files) (\<lambda>winner. Inr (winner, False)), (fsOther fs 2 before)(?t \<mapsto> f))
          else (Inl (Wrap ''install identity: %w'' e), ?files)) = (r, files')"
      using assms(1) unfolding installIdentity_def p Inr f(1) prod.case sum.case Let_def others before_def .
    show thesis
    proof (cases "linkFile (fsFaults fs 1) ?t path ?files")
      case (Inl e)
      then show thesis
        using run loaded by (intro that [OF f(3,2)])
          (cases "Load cr (fsFaults fs 2) (fsOther fs 2) path ?files", auto simp: rbind_def split: if_splits)
    next
      case (Inr linked)
      have "before path = None" "linked = ?files(path \<mapsto> f)"
        using Inr assms(3) by (auto simp: linkFile_def attempt_def split: option.splits if_splits)
      then show thesis
        using run Inr F assms(3) by (intro that [OF f(3,2)]) (auto simp: fun_upd_twist)
    qed
  qed
qed

text \<open>The same after the deferred removal, with the temporary name set aside.\<close>

lemma installIdentity_removed:
  assumes "installIdentity cr fs path i secret (createTemp fs files) = (r, files1)"
    and "sparesTemporary (fsTemporary fs) (fsOther fs)" "files (fsTemporary fs) = None" "path \<noteq> fsTemporary fs"
  defines "before \<equiv> fsOther fs 1 files" and "files' \<equiv> removeFile (fsFaults fs 1) (fsTemporary fs) files1"
    and "installed \<equiv> \<lparr> fiNode = fsNode fs, fiKind = RegularFile, fiMode = 0x180, fiContent = secret \<rparr>"
  shows "(case files' (fsTemporary fs) of None \<Rightarrow> True
     | Some f \<Rightarrow> fsFaults fs 1 OsRemove \<noteq> None \<and> fiNode f = fsNode fs \<and> (fiMode f = 0x180 \<or> fiContent f = []))"
    "case r of
       Inr (j, True) \<Rightarrow> j = i \<and> before path = None \<and> files'(fsTemporary fs := None) = before(path \<mapsto> installed) \<and> files' path = Some installed
     | Inr (j, False) \<Rightarrow> files'(fsTemporary fs := None) = fsOther fs 2 before \<and> idHasPrivate j \<and> LocallyValidate cr j
     | Inl _ \<Rightarrow> files'(fsTemporary fs := None) \<in> {files, before, fsOther fs 2 before}"
proof -
  let ?t = "fsTemporary fs"
  obtain f where f: "fiMode f = 0x180 \<or> fiContent f = []" "fiNode f = fsNode fs"
    "case r of
       Inr (j, True) \<Rightarrow> j = i \<and> before path = None \<and> files1 = before(path \<mapsto> installed, ?t \<mapsto> f)
     | Inr (j, False) \<Rightarrow> files1 = (fsOther fs 2 before)(?t \<mapsto> f) \<and> idHasPrivate j \<and> LocallyValidate cr j
     | Inl _ \<Rightarrow> (\<exists>files0 \<in> {files, before, fsOther fs 2 before}. files1 = files0(?t \<mapsto> f))"
    using installIdentity_effect [OF assms(1,2,4)] unfolding before_def installed_def by blast
  have "files1 ?t = Some f" using f(3) by (auto split: sum.splits bool.splits)
  then show "case files' ?t of None \<Rightarrow> True | Some f \<Rightarrow> fsFaults fs 1 OsRemove \<noteq> None \<and> fiNode f = fsNode fs
      \<and> (fiMode f = 0x180 \<or> fiContent f = [])"
    using f(1,2) by (auto simp: files'_def removeFile_def split: option.splits)
  have "before ?t = None" "fsOther fs 2 before ?t = None" using spares_fresh [OF assms(2)] assms(3) by (simp_all add: before_def)
  then have fresh: "files(?t := None) = files" "before(?t := None) = before" "(fsOther fs 2 before)(?t := None) = fsOther fs 2 before"
    "before(path \<mapsto> installed, ?t := None) = before(path \<mapsto> installed)"
    using assms(3,4) by auto
  have clean: "files'(?t := None) = files1(?t := None)" "files' path = files1 path"
    using assms(4) by (auto simp: files'_def removeFile_def split: option.splits)
  show "case r of
       Inr (j, True) \<Rightarrow> j = i \<and> before path = None \<and> files'(?t := None) = before(path \<mapsto> installed) \<and> files' path = Some installed
     | Inr (j, False) \<Rightarrow> files'(?t := None) = fsOther fs 2 before \<and> idHasPrivate j \<and> LocallyValidate cr j
     | Inl _ \<Rightarrow> files'(?t := None) \<in> {files, before, fsOther fs 2 before}"
  proof (cases r)
    case (Inl e)
    then show ?thesis using f(3) clean(1) fresh by auto
  next
    case (Inr jb)
    obtain j b where jb: "jb = (j, b)" by force
    then show ?thesis using Inr f(3) clean fresh assms(4) by (cases b) simp_all
  qed
qed

text \<open>
  C39. The identity file is installed atomically, whichever of the calls fail and whatever other processes
  do to the other names meanwhile. \<^verbatim>\<open>LoadOrCreate\<close> replaces no file. It reports a creation only if the
  path was free at that moment, and then the path holds the complete secret with mode 0600, from which a
  later \<^verbatim>\<open>Load\<close> gives back the identity. An identity it reports as loaded, also one that another process
  installed first, has a private key and passes \<^verbatim>\<open>LocallyValidate\<close>. In every case nothing else of the
  files has changed. The temporary file is gone unless its deferred removal failed, and then it holds
  no character of the secret without mode 0600. Assumed are a random source that gives 64 bytes when it
  succeeds, a temporary name that is new and is not the path, and other processes that leave it alone.
\<close>

theorem identity_file_atomic:
  assumes "loadOrCreate cr ctx random fs path files = Some (r, files')"
    and "\<forall>key. random = Inr key \<longrightarrow> length key = 64"
    and "sparesTemporary (fsTemporary fs) (fsOther fs)" "files (fsTemporary fs) = None" "path \<noteq> fsTemporary fs"
  shows "let before = fsOther fs 1 (fsOther fs 0 files); clean = files'(fsTemporary fs := None) in
    (case files' (fsTemporary fs) of None \<Rightarrow> True
     | Some f \<Rightarrow> fsFaults fs 1 OsRemove \<noteq> None \<and> fiNode f = fsNode fs \<and> (fiMode f = 0x180 \<or> fiContent f = [])) \<and>
    (case r of
      Inr (i, True) \<Rightarrow> before path = None
        \<and> (\<exists>s. SecretString i = Inr s
             \<and> clean = before(path \<mapsto> \<lparr> fiNode = fsNode fs, fiKind = RegularFile, fiMode = 0x180, fiContent = s \<rparr>))
        \<and> Load cr (\<lambda>_. None) (\<lambda>files. files) path files' = Inr i
    | Inr (i, False) \<Rightarrow> clean \<in> {fsOther fs 0 files, fsOther fs 2 before} \<and> idHasPrivate i \<and> LocallyValidate cr i
    | Inl _ \<Rightarrow> clean \<in> {fsOther fs 0 files, before, fsOther fs 2 before})"
proof -
  let ?t = "fsTemporary fs" and ?f0 = "fsOther fs 0 files"
  have "?f0 ?t = None" using spares_fresh [OF assms(3)] assms(4) by simp
  then have fresh: "?f0(?t := None) = ?f0" "?f0 ?t = None" by auto
  note run = assms(1) [unfolded loadOrCreate_def Let_def]
  show ?thesis
  proof (cases "Load cr (fsFaults fs 0) (fsOther fs 0) path files")
    case (Inr i)
    then have "idHasPrivate i \<and> LocallyValidate cr i" by (rule Load_Inr) simp
    then show ?thesis using run Inr fresh by (auto simp: Let_def)
  next
    case (Inl e)
    show ?thesis
    proof (cases "\<exists>i s. Generate cr ctx random = Some (Inr i) \<and> SecretString i = Inr s \<and> errorsIs e osErrNotExist
        \<and> fsFaults fs 1 OsMkdirAll = None \<and> fsFaults fs 1 OsCreateTemp = None")
      case False
      have "files' = ?f0 \<and> (\<exists>e. r = Inl e)"
        using run Inl False by (auto split: if_splits option.splits sum.splits)
      then show ?thesis using fresh by (auto simp: Let_def)
    next
      case True
      then obtain i s where i: "Generate cr ctx random = Some (Inr i)" "SecretString i = Inr s" "errorsIs e osErrNotExist"
        "fsFaults fs 1 OsMkdirAll = None" "fsFaults fs 1 OsCreateTemp = None" by blast
      obtain r1 files1 where step: "installIdentity cr fs path i s (createTemp fs ?f0) = (r1, files1)" by force
      have run: "r = r1" "files' = removeFile (fsFaults fs 1) ?t files1" using run Inl i step by auto
      note outcome = installIdentity_removed [OF step assms(3) fresh(2) assms(5), folded run]
      have load: "Load cr (\<lambda>_. None) (\<lambda>files. files) path files' = Inr i"
        if "files' path = Some \<lparr> fiNode = fsNode fs, fiKind = RegularFile, fiMode = 0x180, fiContent = s \<rparr>"
        by (rule Load_installed [where files = files' and path = path, OF _ _ _ i(2) that]) (use Generate_sound [OF i(1)] assms(2) in blast)+
      show ?thesis
      proof (cases r)
        case (Inr jb)
        obtain j b where "jb = (j, b)" by force
        then show ?thesis using Inr outcome load i(2) by (cases b) (simp_all add: Let_def)
      qed (use outcome in \<open>simp add: Let_def\<close>)
    qed
  qed
qed

text \<open>A file system without faults, whose temporary files are readable by everyone at first.\<close>

definition toyFiles :: FileSystem where
  "toyFiles = \<lparr> fsFaults = (\<lambda>_ _. None), fsOther = (\<lambda>_ files. files), fsTemporary = ''tmp'', fsNode = 7, fsMode = 0x1a4, fsWritten = 0 \<rparr>"

theorem identity_file_atomic_witness:
  "\<exists>i files'. loadOrCreate toyCrypto (\<lambda>_. None) (Inr (replicate 64 9)) toyFiles ''identity.secret'' Map.empty = Some (Inr (i, True), files')
     \<and> Load toyCrypto (\<lambda>_. None) (\<lambda>files. files) ''identity.secret'' files' = Inr i \<and> files' ''tmp'' = None"
proof -
  have l: "length (idPublicKey ((nextCandidate toyCrypto ^^ Suc 0) (searchStart toyCrypto (replicate 64 9)))) = 64"
    by (simp add: nextCandidate_def searchStart_def zeroIdentity_def Let_def)
  have ac: "acceptable toyCrypto ((nextCandidate toyCrypto ^^ Suc 0) (searchStart toyCrypto (replicate 64 9)))"
    unfolding acceptable_def toy_hash [OF l] by code_simp
  have "searching toyCrypto (searchStart toyCrypto (replicate 64 9))" by (simp add: searching_def searchStart_def zeroIdentity_def)
  from generateLoop_finds [OF this, of 0 "\<lambda>_. None" 0] ac obtain i where i: "Generate toyCrypto (\<lambda>_. None) (Inr (replicate 64 9)) = Some (Inr i)"
      "keyPair toyCrypto i"
    by (auto simp: Generate_def searchStart_def)
  then obtain s where "SecretString i = Inr s" by (simp add: keyPair_def SecretString_def)
  with i(1) obtain files' where run: "loadOrCreate toyCrypto (\<lambda>_. None) (Inr (replicate 64 9)) toyFiles ''identity.secret'' Map.empty
      = Some (Inr (i, True), files')"
    by (simp add: loadOrCreate_def Load_def attempt_def lstat_def rbind_def installIdentity_def prepareTemporary_def createTemp_def
        chmodFile_def appendFile_def linkFile_def Let_def osErrNotExist_def toyFiles_def)
  from identity_file_atomic [OF this] show ?thesis
    using run by (auto simp: sparesTemporary_def Let_def toyFiles_def split: option.splits)
qed

end
