(* ===== verification/Spec2Isabelle.thy ===== *)
theory Spec2Isabelle
  imports Ipam Server Galois SqliteOpen LegacyView IdentityFile
begin

text \<open>
  Verification of ZTGotroller, a network controller for ZeroTier agents written in Go.

  The program answers agents over UDP: a datagram is reassembled from its fragments, dearmored with
  the key of the peer's session, and, when it is a configuration request, answered with a signed
  network configuration or an error. What an agent receives is decided by documents (networks,
  members, agent metadata) that an administrator edits through the controller service and that a
  versioned store keeps. The theories follow that structure. Names are the source's where Isabelle
  allows it; record fields carry a two-letter prefix of their record.

  Shared vocabulary.
    \<^item> Prelude: bytes and words, results (error + 'a, with Go's wrapped errors), slices, big-endian
      encodings and the lemmas on them.
    \<^item> Netip: the part of net/netip the source uses (Addr, Prefix).

  Documents and the service.
    \<^item> Domain (internal/domain): node and network identifiers, Network, Member, AgentMetadata and
      their validators, shown to accept exactly the well-formed values.
    \<^item> Store (internal/store): the Store interface as a record of operations over an arbitrary state,
      an abstract versioned store, and the locale persistent_store: the laws by which an
      implementation simulates the abstract store. MemoryStore (internal/store/memory) is an instance.
    \<^item> VersionedStore, Sqlite, SqliteOpen (internal/store/sqlite): the SQLite store, every operation
      with its SQL text, over a record Database that stands for the driver; what the statements do is
      stated in named predicates (sqlite_law, transaction_law) that a reference engine satisfies. Calls
      whose documents survive their JSON form refine the abstract store, so the two stores agree call by
      call; opening migrates the schema entirely or leaves the file as it was.
    \<^item> NetString, TimeText, Json, Documents: the text of addresses, times and integers and the JSON form
      of every document; an encoder gives the JSON value Marshal writes, a decoder what Unmarshal leaves
      in a variable, and the locale json_codec is the contract between the two.
    \<^item> Service, ServiceSpec, ServiceSafety (internal/controller/service.go, admin.go): every
      operation as a function of a world (store state, clock readings, revocation hook calls), its
      meaning on the abstract store, the exact effect of RegisterMember, SetMemberAuthorization and
      UpdateMember on every branch (what a failed revision bump leaves stored included), and the safety
      properties over sequences of calls: a member is authorized only by an explicit grant; every
      network and member stored belongs to this controller.
    \<^item> Ipam (internal/controller/ipam.go): automatic addresses are free, routed and in a pool.

  The administrative API (internal/api/httpapi).
    \<^item> HttpApi (auth.go, handler.go) and LegacyApi (legacy.go): requests, responses, routing, the bearer
      token, every handler of the native and of the legacy API, the decoding of bodies and patches and
      the rendering of documents. A handler is a function of the service's world.
    \<^item> HttpSafety: every handler is a sequence of service calls; no request without an accepted
      credential changes anything, and no sequence of requests authorizes a member unless one of them
      carried the credential and asked for it. HttpErrors: what a request that is answered with an error
      can have changed: nothing, except a member whose network could not be bumped because the clock
      read zero or a time before the network's creation. LegacyView: what the legacy API shows of a
      network can be written back, and legacyNormal is what that stores (targets masked, rule parameters
      through float64, the rest kept).

  What an agent is sent (internal/zerotier/networkconfig).
    \<^item> Dictionary, Chunk: the key-value format, request parsing, signed chunks.
    \<^item> Credential, Membership, Ownership, Policy, Revocation: the credentials, their encodings and
      signatures. NetText, Rules: the rule language. Config, ConfigSpec: the dictionary itself and
      what reads back from it. Issue: everything together; the agent's checks succeed on it.
    \<^item> ConfigHandler (internal/controller/config.go): the whole request handler, what each kind of
      answer means, that no request changes an authorization, and that an authorized member whose
      documents can be issued is served, with the address it is assigned on the way.

  Identities and packets (internal/zerotier/identity, internal/zerotier/packet).
    \<^item> Identity: text and binary forms, signatures, key agreement, proof of work, generation. The
      cryptographic primitives, which are library code, are the fields of the record Crypto; what the
      theorems need of them (Diffie-Hellman commutes, signatures verify, AES decrypts what it
      encrypted) is stated in named predicates, instantiated in the witnesses.
    \<^item> TextSpace, IdentityFile (file.go): the secret's file over a file system whose calls fail and that
      other processes change, from CreateTemp, Chmod and WriteString to the deferred Remove, each of
      which can fail; creation installs a complete file or nothing and replaces none.
    \<^item> Packet: headers, fragments, Build and ParseDecoded. Armor: Salsa20/12 (written out),
      Poly1305 and AES-GMAC-SIV armor. Galois: the bitwise GHASH product against the polynomial
      product. ExtendedArmor: the ephemeral-key armor.
      Hello: the bootstrap exchange: a HELLO is accepted exactly with a verified tag under the key agreed
      with the identity it carries. Compression: LZ4 expansion under an output limit.
    \<^item> Reassembly (internal/zerotier/transport/reassembly.go): the bounded table of partial packets.
      Delivery: armor, fragment, reassemble in any order, dearmor.

  Peers and transport.
    \<^item> PeerRegistry (internal/zerotier/peer/registry.go): the sessions, as a state machine over its
      operations; an address stays with its identity, the table is bounded, a learned session
      authenticates what its key protects.
    \<^item> Float64, Limiter (internal/zerotier/transport/limiter.go): token buckets with float64 rounding
      written out, and the rate they enforce.
    \<^item> TransportHandler (internal/zerotier/transport/handler.go, revocation.go): what one datagram does to
      the documents, the sessions and the limiter together and what is sent back; it always returns,
      it never grants access, what it sends is what HandleConfigRequest answered, and a HELLO ends
      in a session; the broadcast of a revocation.
    \<^item> Upstream (upstream.go): the upstreams file, the announcements to roots and their answers: an
      answer is accepted once, from the endpoint that was asked, with the timestamp that was sent.
    \<^item> Server (udp.go): the serve loop over any sequence of datagrams, failures, prunings and
      announcements; it serves the whole sequence or returns, and it never grants access.

  Loops. Loops over data are structural recursion or functions with a termination proof. The
  searches that need not end, for an identity (Generate) and for a nonzero packet ID (packetID,
  randomPacketID), are partial functions whose value None means that they do not return; the theorems
  say when they return: Generate when the search reaches an acceptable candidate, the handler and the
  server when the random source is not stuck at zero. The address scan and the creation of a random
  network have the source's own bounds.
  Integers that can wrap are words of the source's width.

  Concurrency. Every mutex-protected method is one step; interleavings are sequences of such steps. The
  goroutines of the server are the events of its loop in the order in which they take effect, the other
  processes of IdentityFile are functions applied between two calls, and an HTTP request is served from
  the sessions and the clock it finds. Contexts are modelled by the error they carry, the clock by the
  readings it will give.

  Representation. Errors are values, the format strings stand for the printed text; a JSON text is the
  value it spells, a nil slice in a document is an empty one, and a repeated key decodes into the field
  again, except that the elements of a repeated list start from their zero value. Documents are
  values, so that a map shared between the memory store and its caller (the AuthTokens of
  cloneNetwork) is not expressible. A database file is its schema version, tables and rows; the journal
  mode, which PRAGMA journal_mode = WAL also stores there, has no part in them. A physical MTU that leaves
  no room for a fragment, which no caller passes, is a panic of fragmentArmored. An announcement that
  fails ends the manager's Run in the source; announceTick lets it go on, so the theorems on the manager
  cover more event sequences than the code has.

  Not modelled: the two commands under src/cmd, which read flags and the environment, open sockets,
  wire the components above and wait for signals, and the third-party SQL driver, which is a parameter.
\<close>

end
